(* ===== verification/Rust_Prelude.thy ===== *)
theory Rust_Prelude
  imports Main "HOL-Library.Char_ord" "HOL-Library.List_Lexorder" "HOL-Library.Multiset"
begin

text \<open>
  The part of Rust's standard library the modelled code uses, and the generic lemmas that the
  component theories share.

  A Rust \<open>str\<close> is its UTF-8 byte sequence: a HOL \<open>string\<close> whose characters are bytes. Lengths
  and indices are therefore byte lengths and byte indices, as in Rust. Operations that Rust
  defines on Unicode characters (\<open>trim\<close>) work on the byte encodings of those characters: UTF-8 is
  self-synchronising, so on valid UTF-8 a whitespace encoding at the front (back) of the byte
  sequence is exactly a leading (trailing) whitespace character.

  An unsigned machine integer that the code adds to with \<open>saturating_add\<close> is a \<open>nat\<close> with the
  saturation written out.
\<close>

named_theorems rust_str \<open>facts that evaluate or normalise the string primitives\<close>
named_theorems rust_trim \<open>facts about trimming\<close>

subsection \<open>Machine integers\<close>

definition u32_max :: nat where "u32_max = 4294967295"
definition u64_max :: nat where "u64_max = 18446744073709551615"

definition sat_add32 :: "nat \<Rightarrow> nat \<Rightarrow> nat" where
  "sat_add32 a b = min (a + b) u32_max"

definition sat_add64 :: "nat \<Rightarrow> nat \<Rightarrow> nat" where
  "sat_add64 a b = min (a + b) u64_max"

text \<open>The signed 64-bit saturating sum.\<close>

definition i64_max :: int where "i64_max = 9223372036854775807"

definition sat_add_i64 :: "int \<Rightarrow> int \<Rightarrow> int" where
  "sat_add_i64 a b = max (- i64_max - 1) (min i64_max (a + b))"

lemma sat_add_i64_mono: "a \<le> i64_max \<Longrightarrow> 0 \<le> b \<Longrightarrow> a \<le> sat_add_i64 a b"
  by (simp add: sat_add_i64_def)

lemma sat_add_i64_le: "sat_add_i64 a b \<le> i64_max"
  by (simp add: sat_add_i64_def i64_max_def)

lemma sat_add32_le: "sat_add32 a b \<le> u32_max"
  by (simp add: sat_add32_def)

lemma sat_add32_exact: "a + b \<le> u32_max \<Longrightarrow> sat_add32 a b = a + b"
  by (simp add: sat_add32_def)

lemma sat_add32_min [simp]: "sat_add32 (min n u32_max) (Suc 0) = min (Suc n) u32_max"
  by (auto simp: sat_add32_def min_def)

lemma sat_add32_eq_0 [simp]: "sat_add32 a (Suc 0) \<noteq> 0"
  by (simp add: sat_add32_def u32_max_def)

lemma min_one_u32_max [simp]: "min (Suc 0) u32_max = Suc 0"
  by (simp add: u32_max_def)

lemma sat_add64_mono: "a \<le> u64_max \<Longrightarrow> a \<le> sat_add64 a b"
  by (simp add: sat_add64_def)

subsection \<open>Characters and whitespace\<close>

abbreviation NL :: char where "NL \<equiv> CHR 0x0A"
abbreviation CR :: char where "CR \<equiv> CHR 0x0D"
abbreviation DQ :: char where "DQ \<equiv> CHR 0x22"
abbreviation BACKSLASH :: char where "BACKSLASH \<equiv> CHR 0x5C"
abbreviation BACKTICK :: char where "BACKTICK \<equiv> CHR 0x60"

text \<open>The non-ASCII characters that occur in the program's message texts, in UTF-8.\<close>

abbreviation EM_DASH :: string where "EM_DASH \<equiv> [CHR 0xE2, CHR 0x80, CHR 0x94]"
abbreviation EN_DASH :: string where "EN_DASH \<equiv> [CHR 0xE2, CHR 0x80, CHR 0x93]"
abbreviation ELLIPSIS :: string where "ELLIPSIS \<equiv> [CHR 0xE2, CHR 0x80, CHR 0xA6]"
abbreviation TIMES :: string where "TIMES \<equiv> [CHR 0xC3, CHR 0x97]"
abbreviation MIDDLE_DOT :: string where "MIDDLE_DOT \<equiv> [CHR 0xC2, CHR 0xB7]"

definition ascii_ws :: "char \<Rightarrow> bool" where
  "ascii_ws c \<longleftrightarrow> c \<in> {CHR '' '', CHR 0x09, CHR 0x0A, CHR 0x0B, CHR 0x0C, CHR 0x0D}"

text \<open>The encodings of the non-ASCII characters with the Unicode property White\_Space.\<close>

definition wide_ws :: "string list" where
  "wide_ws =
     [[CHR 0xC2, CHR 0x85], [CHR 0xC2, CHR 0xA0], [CHR 0xE1, CHR 0x9A, CHR 0x80],
      [CHR 0xE2, CHR 0x80, CHR 0x80], [CHR 0xE2, CHR 0x80, CHR 0x81],
      [CHR 0xE2, CHR 0x80, CHR 0x82], [CHR 0xE2, CHR 0x80, CHR 0x83],
      [CHR 0xE2, CHR 0x80, CHR 0x84], [CHR 0xE2, CHR 0x80, CHR 0x85],
      [CHR 0xE2, CHR 0x80, CHR 0x86], [CHR 0xE2, CHR 0x80, CHR 0x87],
      [CHR 0xE2, CHR 0x80, CHR 0x88], [CHR 0xE2, CHR 0x80, CHR 0x89],
      [CHR 0xE2, CHR 0x80, CHR 0x8A], [CHR 0xE2, CHR 0x80, CHR 0xA8],
      [CHR 0xE2, CHR 0x80, CHR 0xA9], [CHR 0xE2, CHR 0x80, CHR 0xAF],
      [CHR 0xE2, CHR 0x81, CHR 0x9F], [CHR 0xE3, CHR 0x80, CHR 0x80]]"

definition is_ascii_digit :: "char \<Rightarrow> bool" where
  "is_ascii_digit c \<longleftrightarrow> 48 \<le> (of_char c :: nat) \<and> (of_char c :: nat) \<le> 57"

definition is_ascii_hexdigit :: "char \<Rightarrow> bool" where
  "is_ascii_hexdigit c \<longleftrightarrow> is_ascii_digit c
     \<or> (65 \<le> (of_char c :: nat) \<and> (of_char c :: nat) \<le> 70)
     \<or> (97 \<le> (of_char c :: nat) \<and> (of_char c :: nat) \<le> 102)"

definition ascii_lower :: "char \<Rightarrow> char" where
  "ascii_lower c =
     (if 65 \<le> (of_char c :: nat) \<and> (of_char c :: nat) \<le> 90 then char_of ((of_char c :: nat) + 32)
      else c)"

definition to_ascii_lowercase :: "string \<Rightarrow> string" where
  "to_ascii_lowercase = map ascii_lower"

definition eq_ignore_ascii_case :: "string \<Rightarrow> string \<Rightarrow> bool" where
  "eq_ignore_ascii_case a b \<longleftrightarrow> to_ascii_lowercase a = to_ascii_lowercase b"

lemma length_to_ascii_lowercase [simp]: "length (to_ascii_lowercase s) = length s"
  by (simp add: to_ascii_lowercase_def)

subsection \<open>Prefixes, suffixes and searching\<close>

fun strip_prefix :: "'a list \<Rightarrow> 'a list \<Rightarrow> 'a list option" where
  "strip_prefix [] s = Some s"
| "strip_prefix (p # ps) [] = None"
| "strip_prefix (p # ps) (c # cs) = (if p = c then strip_prefix ps cs else None)"

definition starts_with :: "'a list \<Rightarrow> 'a list \<Rightarrow> bool" where
  "starts_with p s \<longleftrightarrow> strip_prefix p s \<noteq> None"

definition strip_suffix :: "'a list \<Rightarrow> 'a list \<Rightarrow> 'a list option" where
  "strip_suffix p s = map_option rev (strip_prefix (rev p) (rev s))"

definition ends_with :: "'a list \<Rightarrow> 'a list \<Rightarrow> bool" where
  "ends_with p s \<longleftrightarrow> strip_suffix p s \<noteq> None"

fun strip_any :: "'a list list \<Rightarrow> 'a list \<Rightarrow> 'a list option" where
  "strip_any [] s = None"
| "strip_any (p # ps) s = (case strip_prefix p s of Some r \<Rightarrow> Some r | None \<Rightarrow> strip_any ps s)"

text \<open>Byte index of the first occurrence of a pattern (\<open>str::find\<close>).\<close>

fun find_sub :: "'a list \<Rightarrow> 'a list \<Rightarrow> nat option" where
  "find_sub p [] = (if p = [] then Some 0 else None)"
| "find_sub p (c # cs) =
     (if starts_with p (c # cs) then Some 0 else map_option Suc (find_sub p cs))"

definition contains_sub :: "'a list \<Rightarrow> 'a list \<Rightarrow> bool" where
  "contains_sub p s \<longleftrightarrow> find_sub p s \<noteq> None"

text \<open>Index of the first element satisfying a predicate (\<open>str::find\<close> with a closure,
  \<open>Iterator::position\<close>), and of the last one (\<open>rfind\<close>, \<open>rposition\<close>).\<close>

fun find_index :: "('a \<Rightarrow> bool) \<Rightarrow> 'a list \<Rightarrow> nat option" where
  "find_index P [] = None"
| "find_index P (c # cs) = (if P c then Some 0 else map_option Suc (find_index P cs))"

fun rfind_index :: "('a \<Rightarrow> bool) \<Rightarrow> 'a list \<Rightarrow> nat option" where
  "rfind_index P [] = None"
| "rfind_index P (c # cs) =
     (case rfind_index P cs of Some i \<Rightarrow> Some (Suc i) | None \<Rightarrow> if P c then Some 0 else None)"

lemma strip_prefix_Some_iff [simp]: "strip_prefix p s = Some r \<longleftrightarrow> s = p @ r"
  by (induction p s rule: strip_prefix.induct) auto

lemma strip_prefix_append [simp]: "strip_prefix p (p @ r) = Some r"
  by simp

lemma starts_with_iff: "starts_with p s \<longleftrightarrow> (\<exists>r. s = p @ r)"
  unfolding starts_with_def by (metis not_Some_eq strip_prefix_Some_iff)

lemma starts_with_single [simp]: "starts_with [c] s \<longleftrightarrow> s \<noteq> [] \<and> hd s = c"
  by (cases s) (auto simp: starts_with_def)

lemma strip_suffix_Some_iff [simp]: "strip_suffix p s = Some r \<longleftrightarrow> s = r @ p"
proof -
  have "strip_suffix p s = Some r \<longleftrightarrow> strip_prefix (rev p) (rev s) = Some (rev r)"
    by (auto simp: strip_suffix_def simp del: strip_prefix_Some_iff)
  also have "\<dots> \<longleftrightarrow> rev s = rev (r @ p)" by simp
  also have "\<dots> \<longleftrightarrow> s = r @ p" by (simp only: rev_is_rev_conv)
  finally show ?thesis .
qed

lemma ends_with_iff: "ends_with p s \<longleftrightarrow> (\<exists>r. s = r @ p)"
  unfolding ends_with_def by (metis not_Some_eq strip_suffix_Some_iff)

lemma ends_with_single: "ends_with [c] s \<longleftrightarrow> s \<noteq> [] \<and> last s = c"
  by (cases s rule: rev_cases) (auto simp: ends_with_iff)

lemma strip_any_SomeD: "strip_any ps s = Some r \<Longrightarrow> \<exists>p\<in>set ps. s = p @ r"
  by (induction ps) (auto split: option.splits)

lemma strip_any_NoneD: "strip_any ps s = None \<Longrightarrow> p \<in> set ps \<Longrightarrow> s \<noteq> p @ r"
  by (induction ps) (auto split: option.splits)

lemma find_sub_SomeD: "find_sub p s = Some i \<Longrightarrow> i \<le> length s \<and> starts_with p (drop i s)"
  by (induction s arbitrary: i) (auto simp: starts_with_def split: if_splits)

lemma find_sub_None_iff: "find_sub p s = None \<longleftrightarrow> (\<forall>a b. s \<noteq> a @ p @ b)"
proof (induction s)
  case Nil
  then show ?case by auto
next
  case (Cons c cs)
  show ?case
  proof (cases "starts_with p (c # cs)")
    case True
    then obtain r where "c # cs = [] @ p @ r" by (auto simp: starts_with_iff)
    with True show ?thesis by (metis find_sub.simps(2) option.distinct(1))
  next
    case False
    then have "\<And>b. c # cs \<noteq> p @ b" by (auto simp: starts_with_iff)
    with False Cons.IH show ?thesis
      by (auto simp: Cons_eq_append_conv)
  qed
qed

lemma contains_sub_iff: "contains_sub p s \<longleftrightarrow> (\<exists>a b. s = a @ p @ b)"
  unfolding contains_sub_def using find_sub_None_iff [of p s] by auto

lemma find_index_SomeD:
  "find_index P s = Some i \<Longrightarrow> i < length s \<and> P (s ! i) \<and> (\<forall>j<i. \<not> P (s ! j))"
proof (induction s arbitrary: i)
  case (Cons c cs)
  then show ?case
    by (cases i) (auto simp: less_Suc_eq_0_disj split: if_splits)
qed simp

lemma find_index_None_iff: "find_index P s = None \<longleftrightarrow> (\<forall>c\<in>set s. \<not> P c)"
  by (induction s) auto

lemma rfind_index_None_iff: "rfind_index P s = None \<longleftrightarrow> (\<forall>c\<in>set s. \<not> P c)"
  by (induction s) (auto split: option.splits)

lemma rfind_index_SomeD: "rfind_index P s = Some i \<Longrightarrow> i < length s \<and> P (s ! i)"
  by (induction s arbitrary: i) (auto split: option.splits if_splits)

subsection \<open>Trimming\<close>

text \<open>
  \<open>trim_start\<close> removes whitespace characters from the front while there are any;
  \<open>trim_end\<close> is the mirror image. Both are instances of one loop that strips a recognised
  front piece as long as there is one.
\<close>

function strip_while :: "('a list \<Rightarrow> 'a list option) \<Rightarrow> 'a list \<Rightarrow> 'a list" where
  "strip_while f s =
     (case f s of None \<Rightarrow> s
      | Some r \<Rightarrow> if length r < length s then strip_while f r else s)"
  by pat_completeness auto
termination
  by (relation "measure (\<lambda>(f, s). length s)") auto

declare strip_while.simps [simp del]

definition strip_ws :: "string \<Rightarrow> string option" where
  "strip_ws s =
     (case s of [] \<Rightarrow> None | c # r \<Rightarrow> if ascii_ws c then Some r else strip_any wide_ws s)"

definition strip_ws_rev :: "string \<Rightarrow> string option" where
  "strip_ws_rev s =
     (case s of [] \<Rightarrow> None | c # r \<Rightarrow> if ascii_ws c then Some r else strip_any (map rev wide_ws) s)"

definition trim_start :: "string \<Rightarrow> string" where
  "trim_start s = strip_while strip_ws s"

definition trim_end :: "string \<Rightarrow> string" where
  "trim_end s = rev (strip_while strip_ws_rev (rev s))"

definition trim :: "string \<Rightarrow> string" where
  "trim s = trim_end (trim_start s)"

text \<open>\<open>trim_start_matches\<close>, \<open>trim_end_matches\<close>, \<open>trim_matches\<close> with one ASCII character.\<close>

definition trim_start_char :: "char \<Rightarrow> string \<Rightarrow> string" where
  "trim_start_char c s = dropWhile (\<lambda>x. x = c) s"

definition trim_end_char :: "char \<Rightarrow> string \<Rightarrow> string" where
  "trim_end_char c s = rev (dropWhile (\<lambda>x. x = c) (rev s))"

definition trim_matches :: "char \<Rightarrow> string \<Rightarrow> string" where
  "trim_matches c s = trim_end_char c (trim_start_char c s)"

text \<open>A character that is neither ASCII whitespace nor part of a wide whitespace encoding.\<close>

definition plain :: "char \<Rightarrow> bool" where
  "plain c \<longleftrightarrow> \<not> ascii_ws c \<and> (\<forall>w\<in>set wide_ws. c \<notin> set w)"

lemma strip_while_None: "f s = None \<Longrightarrow> strip_while f s = s"
  by (simp add: strip_while.simps)

lemma strip_while_Some: "f s = Some r \<Longrightarrow> length r < length s \<Longrightarrow> strip_while f s = strip_while f r"
  by (subst strip_while.simps) simp

lemma strip_ws_Nil [simp]: "strip_ws [] = None" and strip_ws_rev_Nil [simp]: "strip_ws_rev [] = None"
  by (simp_all add: strip_ws_def strip_ws_rev_def)

lemma wide_ws_nonempty [simp]: "[] \<notin> set wide_ws"
  by (simp add: wide_ws_def)

text \<open>The encodings that count as one whitespace character.\<close>

definition is_ws_enc :: "string \<Rightarrow> bool" where
  "is_ws_enc w \<longleftrightarrow> (\<exists>c. w = [c] \<and> ascii_ws c) \<or> w \<in> set wide_ws"

lemma is_ws_enc_single [rust_trim, intro]: "ascii_ws c \<Longrightarrow> is_ws_enc [c]"
  by (simp add: is_ws_enc_def)

lemma is_ws_enc_nonempty: "is_ws_enc w \<Longrightarrow> w \<noteq> []"
  by (auto simp: is_ws_enc_def)

lemma strip_ws_wide: "w \<in> set wide_ws \<Longrightarrow> strip_ws (w @ r) = Some r"
  by (auto simp: wide_ws_def strip_ws_def ascii_ws_def)

lemma strip_ws_rev_wide: "w \<in> set wide_ws \<Longrightarrow> strip_ws_rev (rev w @ r) = Some r"
  by (auto simp: wide_ws_def strip_ws_rev_def ascii_ws_def)

lemma strip_ws_append [simp]: "is_ws_enc w \<Longrightarrow> strip_ws (w @ r) = Some r"
  by (auto simp: is_ws_enc_def strip_ws_wide) (simp add: strip_ws_def)

lemma strip_ws_rev_append [simp]: "is_ws_enc w \<Longrightarrow> strip_ws_rev (rev w @ r) = Some r"
  by (auto simp: is_ws_enc_def strip_ws_rev_wide) (simp add: strip_ws_rev_def)

lemma strip_ws_SomeD: "strip_ws s = Some r \<Longrightarrow> \<exists>w. is_ws_enc w \<and> s = w @ r"
  by (force simp: strip_ws_def is_ws_enc_def dest!: strip_any_SomeD split: list.splits if_splits)

lemma strip_ws_rev_SomeD: "strip_ws_rev s = Some r \<Longrightarrow> \<exists>w. is_ws_enc w \<and> s = rev w @ r"
  by (force simp: strip_ws_rev_def is_ws_enc_def dest!: strip_any_SomeD split: list.splits if_splits)

lemma strip_ws_shorter: "strip_ws s = Some r \<Longrightarrow> length r < length s"
  using strip_ws_SomeD is_ws_enc_nonempty by fastforce

lemma strip_ws_rev_shorter: "strip_ws_rev s = Some r \<Longrightarrow> length r < length s"
  using strip_ws_rev_SomeD is_ws_enc_nonempty by fastforce

lemma strip_ws_None_iff: "strip_ws s = None \<longleftrightarrow> (\<forall>w r. is_ws_enc w \<longrightarrow> s \<noteq> w @ r)"
proof
  assume none: "strip_ws s = None"
  show "\<forall>w r. is_ws_enc w \<longrightarrow> s \<noteq> w @ r"
  proof (intro allI impI notI)
    fix w r assume "is_ws_enc w" "s = w @ r"
    with none show False by simp
  qed
next
  assume "\<forall>w r. is_ws_enc w \<longrightarrow> s \<noteq> w @ r"
  then show "strip_ws s = None" by (cases "strip_ws s") (auto dest: strip_ws_SomeD)
qed

lemma trim_start_fix: "strip_ws (trim_start s) = None"
proof (induction s rule: length_induct)
  case (1 s)
  show ?case
  proof (cases "strip_ws s")
    case None
    then show ?thesis by (simp add: trim_start_def strip_while_None)
  next
    case (Some r)
    then have "length r < length s" by (rule strip_ws_shorter)
    with Some 1 show ?thesis by (simp add: trim_start_def strip_while_Some)
  qed
qed

lemma trim_end_fix: "strip_ws_rev (rev (trim_end s)) = None"
proof (induction s rule: length_induct)
  case (1 s)
  show ?case
  proof (cases "strip_ws_rev (rev s)")
    case None
    then show ?thesis by (simp add: trim_end_def strip_while_None)
  next
    case (Some r)
    then have less: "length (rev r) < length s" using strip_ws_rev_shorter by fastforce
    then have "trim_end s = trim_end (rev r)" using Some
      by (simp add: trim_end_def strip_while_Some)
    with 1 less show ?thesis by simp
  qed
qed

lemma trim_start_None [rust_trim]: "strip_ws s = None \<Longrightarrow> trim_start s = s"
  by (simp add: trim_start_def strip_while_None)

lemma trim_end_None [rust_trim]: "strip_ws_rev (rev s) = None \<Longrightarrow> trim_end s = s"
  by (simp add: trim_end_def strip_while_None)

lemma trim_start_ws [rust_trim]: "is_ws_enc w \<Longrightarrow> trim_start (w @ r) = trim_start r"
  by (simp add: trim_start_def strip_while_Some is_ws_enc_nonempty)

lemma trim_end_ws [rust_trim]: "is_ws_enc w \<Longrightarrow> trim_end (r @ w) = trim_end r"
  by (simp add: trim_end_def strip_while_Some is_ws_enc_nonempty)

text \<open>What is trimmed off at either end is a sequence of whitespace characters.\<close>

lemma trim_start_cases:
  obtains ws where "s = concat ws @ trim_start s" and "\<forall>w\<in>set ws. is_ws_enc w"
proof -
  have "\<exists>ws. s = concat ws @ trim_start s \<and> (\<forall>w\<in>set ws. is_ws_enc w)"
  proof (induction s rule: length_induct)
    case (1 s)
    show ?case
    proof (cases "strip_ws s")
      case None
      then show ?thesis by (intro exI [of _ "[]"]) (simp add: trim_start_None)
    next
      case (Some r)
      then obtain w where w: "is_ws_enc w" "s = w @ r" using strip_ws_SomeD by blast
      moreover from w 1 obtain ws where "r = concat ws @ trim_start r" "\<forall>w\<in>set ws. is_ws_enc w"
        using is_ws_enc_nonempty [OF w(1)]
        by (metis length_append length_greater_0_conv less_add_same_cancel2)
      ultimately show ?thesis
        by (intro exI [of _ "w # ws"]) (simp add: trim_start_ws)
    qed
  qed
  then show ?thesis using that by blast
qed

lemma trim_end_cases:
  obtains ws where "s = trim_end s @ concat ws" and "\<forall>w\<in>set ws. is_ws_enc w"
proof -
  have "\<exists>ws. s = trim_end s @ concat ws \<and> (\<forall>w\<in>set ws. is_ws_enc w)"
  proof (induction s rule: length_induct)
    case (1 s)
    show ?case
    proof (cases "strip_ws_rev (rev s)")
      case None
      then show ?thesis by (intro exI [of _ "[]"]) (simp add: trim_end_None)
    next
      case (Some r)
      then obtain w where "is_ws_enc w" "rev s = rev w @ r" using strip_ws_rev_SomeD by blast
      then have w: "is_ws_enc w" "s = rev r @ w" by (simp_all add: rev_eq_append_conv)
      moreover from w 1 obtain ws where
        ws: "rev r = trim_end (rev r) @ concat ws" "\<forall>w\<in>set ws. is_ws_enc w"
        using is_ws_enc_nonempty [OF w(1)] by (metis length_append length_greater_0_conv less_add_same_cancel1)
      ultimately show ?thesis
        by (intro exI [of _ "ws @ [w]"]) (auto simp: trim_end_ws)
    qed
  qed
  then show ?thesis using that by blast
qed

lemma trim_start_suffix: "\<exists>w. s = w @ trim_start s"
  by (rule trim_start_cases [of s]) blast

lemma trim_end_prefix: "\<exists>w. s = trim_end s @ w"
  by (rule trim_end_cases [of s]) blast

lemma strip_ws_prefix: "strip_ws (s @ t) = None \<Longrightarrow> strip_ws s = None"
  by (auto simp: strip_ws_None_iff)

lemma trim_fix: "strip_ws (trim s) = None"
proof -
  obtain w where "trim_start s = trim s @ w" using trim_end_prefix [of "trim_start s"]
    by (auto simp: trim_def)
  then show ?thesis using trim_start_fix [of s] strip_ws_prefix [of "trim s" w] by simp
qed

lemma trim_start_trim [simp, rust_trim]: "trim_start (trim s) = trim s"
  by (simp add: trim_start_None trim_fix)

lemma trim_trim [simp, rust_trim]: "trim (trim s) = trim s"
  by (simp add: trim_def [of "trim s"]) (simp add: trim_def trim_end_None trim_end_fix)

text \<open>Leading bytes of the whitespace encodings never occur inside one.\<close>

definition ws_lead :: "char \<Rightarrow> bool" where
  "ws_lead c \<longleftrightarrow> ascii_ws c \<or> c \<in> {CHR 0xC2, CHR 0xE1, CHR 0xE2, CHR 0xE3}"

lemma ws_lead_hd: "is_ws_enc w \<Longrightarrow> ws_lead (hd w)"
  by (auto simp: is_ws_enc_def ws_lead_def wide_ws_def)

lemma ws_lead_tl: "is_ws_enc w \<Longrightarrow> c \<in> set (tl w) \<Longrightarrow> \<not> ws_lead c"
  by (auto simp: is_ws_enc_def ws_lead_def wide_ws_def ascii_ws_def)

lemma strip_ws_append_ws:
  assumes "strip_ws r = None" "r \<noteq> []" "is_ws_enc w"
  shows "strip_ws (r @ w) = None"
proof (rule ccontr)
  assume "strip_ws (r @ w) \<noteq> None"
  then obtain x where "strip_ws (r @ w) = Some x" by blast
  then obtain u where u: "is_ws_enc u" "r @ w = u @ x" using strip_ws_SomeD by blast
  from u(2) assms(1) u(1) obtain u2 where u2: "u = r @ u2" "w = u2 @ x" "u2 \<noteq> []"
    by (auto simp: append_eq_append_conv2 strip_ws_None_iff)
  with assms(2) have "hd u2 \<in> set (tl u)" by (cases r) auto
  moreover have "hd u2 = hd w" using u2 by simp
  ultimately show False using ws_lead_tl [OF u(1)] ws_lead_hd [OF assms(3)] by metis
qed

lemma trim_append_ws [rust_trim]: "is_ws_enc w \<Longrightarrow> trim (r @ w) = trim r"
proof (induction r rule: length_induct)
  case (1 r)
  show ?case
  proof (cases "strip_ws r")
    case (Some r')
    then obtain u where "is_ws_enc u" "r = u @ r'" using strip_ws_SomeD by blast
    then show ?thesis using 1 is_ws_enc_nonempty [of u] by (simp add: trim_def trim_start_ws)
  next
    case None
    show ?thesis
    proof (cases "r = []")
      case True
      with 1 show ?thesis
        using trim_start_ws [of w "[]"] by (simp add: trim_def)
    next
      case False
      with None 1 show ?thesis by (simp add: trim_def trim_start_None strip_ws_append_ws trim_end_ws)
    qed
  qed
qed

lemma trim_ws_append [rust_trim]: "is_ws_enc w \<Longrightarrow> trim (w @ r) = trim r"
  by (simp add: trim_def trim_start_ws)

lemma trim_concat_ws_append: "\<forall>w\<in>set ws. is_ws_enc w \<Longrightarrow> trim (concat ws @ r) = trim r"
  by (induction ws) (auto simp: trim_ws_append)

lemma trim_append_concat_ws: "\<forall>w\<in>set ws. is_ws_enc w \<Longrightarrow> trim (r @ concat ws) = trim r"
proof (induction ws rule: rev_induct)
  case (snoc w ws)
  then show ?case using trim_append_ws [of w "r @ concat ws"] by simp
qed simp

lemma trim_Cons_ws [rust_trim]: "ascii_ws c \<Longrightarrow> trim (c # r) = trim r"
  using trim_ws_append [of "[c]" r] by (simp add: is_ws_enc_single)

lemma trim_snoc_ws [rust_trim]: "ascii_ws c \<Longrightarrow> trim (r @ [c]) = trim r"
  by (simp add: trim_append_ws is_ws_enc_single)

lemma plain_not_in_ws: "plain c \<Longrightarrow> is_ws_enc w \<Longrightarrow> c \<notin> set w"
  by (auto simp: plain_def is_ws_enc_def)

lemma strip_ws_plain [simp]: "plain c \<Longrightarrow> strip_ws (c # s) = None"
  unfolding strip_ws_None_iff
  by (metis append_Cons is_ws_enc_nonempty list.sel(1) list.set_intros(1) neq_Nil_conv plain_not_in_ws)

lemma strip_ws_rev_plain [simp]: "plain c \<Longrightarrow> strip_ws_rev (c # s) = None"
proof (rule ccontr)
  assume p: "plain c" and "strip_ws_rev (c # s) \<noteq> None"
  then obtain r where "strip_ws_rev (c # s) = Some r" by blast
  then obtain w where "is_ws_enc w" "c # s = rev w @ r" using strip_ws_rev_SomeD by blast
  then have "c \<in> set w"
    by (metis append_Cons is_ws_enc_nonempty list.sel(1) list.set_intros(1) neq_Nil_conv
        rev_is_Nil_conv set_rev)
  with p \<open>is_ws_enc w\<close> show False using plain_not_in_ws by blast
qed

lemma trim_start_plain [simp, rust_trim]: "plain c \<Longrightarrow> trim_start (c # s) = c # s"
  by (simp add: trim_start_None)

lemma trim_end_plain [simp, rust_trim]: "plain c \<Longrightarrow> trim_end (s @ [c]) = s @ [c]"
  by (simp add: trim_end_None)

lemma trim_plain [rust_trim]: "plain c \<Longrightarrow> plain d \<Longrightarrow> trim (c # s @ [d]) = c # s @ [d]"
  using trim_end_plain [of d "c # s"] by (simp add: trim_def)

lemma set_trim_subset: "set (trim s) \<subseteq> set s"
proof -
  obtain u where u: "s = u @ trim_start s" using trim_start_suffix by blast
  obtain v where v: "trim_start s = trim s @ v" using trim_end_prefix [of "trim_start s"]
    by (auto simp: trim_def)
  from u v have "s = u @ trim s @ v" by simp
  then have "set s = set u \<union> set (trim s) \<union> set v" by (metis Un_assoc set_append)
  then show ?thesis by blast
qed

subsection \<open>Splitting, joining and lines\<close>

text \<open>\<open>str::split\<close> on a character: always at least one piece.\<close>

fun split_on :: "'a \<Rightarrow> 'a list \<Rightarrow> 'a list list" where
  "split_on c [] = [[]]"
| "split_on c (x # xs) =
     (if x = c then [] # split_on c xs
      else case split_on c xs of [] \<Rightarrow> [[x]] | p # ps \<Rightarrow> (x # p) # ps)"

text \<open>\<open>[str]::join\<close>.\<close>

fun join :: "'a list \<Rightarrow> 'a list list \<Rightarrow> 'a list" where
  "join sep [] = []"
| "join sep [x] = x"
| "join sep (x # y # zs) = x @ sep @ join sep (y # zs)"

definition strip_cr :: "string \<Rightarrow> string" where
  "strip_cr l = (if l \<noteq> [] \<and> last l = CR then butlast l else l)"

text \<open>
  \<open>str::lines\<close>: pieces between line feeds, one carriage return before a line feed removed,
  no final empty piece. A carriage return at the end of an unterminated last line stays.
\<close>

definition lines :: "string \<Rightarrow> string list" where
  "lines s =
     (let ps = split_on NL s
      in map strip_cr (butlast ps) @ (if last ps = [] then [] else [last ps]))"

definition unlines :: "string list \<Rightarrow> string" where
  "unlines ls = concat (map (\<lambda>l. l @ [NL]) ls)"

text \<open>\<open>str::split_whitespace\<close>: the maximal non-empty runs without whitespace.\<close>

function split_ws_acc :: "string \<Rightarrow> string \<Rightarrow> string list" where
  "split_ws_acc acc s =
     (case s of
        [] \<Rightarrow> (if acc = [] then [] else [rev acc])
      | c # cs \<Rightarrow>
          (case strip_ws s of
             Some r \<Rightarrow> (if acc = [] then [] else [rev acc]) @ split_ws_acc [] r
           | None \<Rightarrow> split_ws_acc (c # acc) cs))"
  by pat_completeness auto
termination
  by (relation "measure (\<lambda>(acc, s). length s)") (auto dest: strip_ws_shorter)

declare split_ws_acc.simps [simp del]

definition split_whitespace :: "string \<Rightarrow> string list" where
  "split_whitespace s = split_ws_acc [] s"

lemma split_on_nonempty [simp]: "split_on c s \<noteq> []"
  by (induction s) (auto split: list.splits)

lemma split_on_no_sep: "p \<in> set (split_on c s) \<Longrightarrow> c \<notin> set p"
  by (induction s arbitrary: p) (auto split: list.splits if_splits)

lemma split_on_subset: "p \<in> set (split_on c s) \<Longrightarrow> set p \<subseteq> set s"
proof (induction s arbitrary: p)
  case (Cons x xs)
  obtain q qs where q: "split_on c xs = q # qs" by (cases "split_on c xs") auto
  then have "set q \<subseteq> set xs" "\<And>r. r \<in> set qs \<Longrightarrow> set r \<subseteq> set xs" using Cons.IH by auto
  with Cons.prems q show ?case by (auto split: if_splits)
qed auto

lemma split_on_absent [rust_str]: "c \<notin> set p \<Longrightarrow> split_on c p = [p]"
  by (induction p) auto

lemma split_on_append [rust_str]: "c \<notin> set p \<Longrightarrow> split_on c (p @ c # s) = p # split_on c s"
  by (induction p) auto

lemma split_on_append_gen:
  "split_on c (p @ s) = butlast (split_on c p) @ (last (split_on c p) @ hd (split_on c s)) # tl (split_on c s)"
proof (induction p)
  case Nil
  show ?case by (simp add: hd_Cons_tl)
next
  case (Cons x xs)
  obtain q qs where q: "split_on c xs = q # qs" by (cases "split_on c xs") auto
  show ?case
  proof (cases "x = c")
    case True
    with Cons show ?thesis by simp
  next
    case False
    with Cons q show ?thesis by (cases qs) auto
  qed
qed

lemma join_split_on: "join [c] (split_on c s) = s"
proof (induction s)
  case (Cons x xs)
  obtain q qs where q: "split_on c xs = q # qs" by (cases "split_on c xs") auto
  with Cons show ?case by (cases qs) auto
qed simp

lemma join_Cons: "xs \<noteq> [] \<Longrightarrow> join sep (x # xs) = x @ sep @ join sep xs"
  by (cases xs) auto

lemma set_join_subset: "set (join sep xs) \<subseteq> set sep \<union> (\<Union>x\<in>set xs. set x)"
  by (induction sep xs rule: join.induct) auto

lemma unlines_simps [simp]: "unlines [] = []" "unlines (l # ls) = l @ NL # unlines ls"
  by (simp_all add: unlines_def)

lemma unlines_append: "unlines (xs @ ys) = unlines xs @ unlines ys"
  by (simp add: unlines_def)

lemma split_on_unlines:
  "\<forall>l\<in>set ls. NL \<notin> set l \<Longrightarrow> split_on NL (unlines ls @ r) = ls @ split_on NL r"
  by (induction ls) (auto simp: split_on_append)

lemma lines_unlines: "\<forall>l\<in>set ls. NL \<notin> set l \<Longrightarrow> lines (unlines ls) = map strip_cr ls"
  using split_on_unlines [of ls "[]"] by (simp add: lines_def)

lemma lines_unlines_last:
  assumes "\<forall>l\<in>set ls. NL \<notin> set l" "NL \<notin> set l" "l \<noteq> []"
  shows "lines (unlines ls @ l) = map strip_cr ls @ [l]"
  using assms split_on_unlines [of ls l] by (simp add: lines_def split_on_absent butlast_append)

lemma lines_append_newline:
  "lines (l @ NL # s) = map strip_cr (split_on NL l) @ lines s"
proof -
  let ?p = "split_on NL s"
  have "split_on NL (l @ NL # s) = split_on NL l @ ?p"
    using split_on_append_gen [of NL l "NL # s"] by simp
  then show ?thesis by (simp add: lines_def butlast_append Let_def)
qed

lemma strip_cr_subset: "set (strip_cr l) \<subseteq> set l"
  by (auto simp: strip_cr_def dest: in_set_butlastD)

lemma lines_no_newline: "l \<in> set (lines s) \<Longrightarrow> NL \<notin> set l"
proof -
  assume "l \<in> set (lines s)"
  then consider p where "p \<in> set (split_on NL s)" "l = strip_cr p"
    | "l = last (split_on NL s)"
    by (auto simp: lines_def Let_def dest: in_set_butlastD split: if_splits)
  then show ?thesis
  proof cases
    case (1 p)
    then show ?thesis using split_on_no_sep [of p NL s] strip_cr_subset [of p] by blast
  next
    case 2
    then show ?thesis using split_on_no_sep [of l NL s] by simp
  qed
qed

lemma ascii_ws_CR [simp]: "ascii_ws CR" and ascii_ws_space [simp]: "ascii_ws (CHR '' '')"
  by (simp_all add: ascii_ws_def)

lemma trim_strip_cr [simp]: "trim (strip_cr l) = trim l"
proof (cases "l \<noteq> [] \<and> last l = CR")
  case True
  then have "l = butlast l @ [CR]" by (metis append_butlast_last_id)
  then have "trim l = trim (butlast l)" by (metis ascii_ws_CR trim_snoc_ws)
  with True show ?thesis by (simp add: strip_cr_def)
qed (auto simp: strip_cr_def)

subsection \<open>Trimming the cells of a split line\<close>

lemma trim_hd_ws:
  assumes "plain b" "is_ws_enc w"
  shows "map trim (split_on b (w @ r)) = map trim (split_on b r)"
proof -
  have "b \<notin> set w" using assms plain_not_in_ws by blast
  then have "split_on b (w @ r) = (w @ hd (split_on b r)) # tl (split_on b r)"
    by (simp add: split_on_append_gen [of b w r] split_on_absent)
  with assms(2) show ?thesis
    by (simp add: trim_ws_append) (metis list.map_sel(1) list.collapse list.simps(9) split_on_nonempty)
qed

lemma trim_last_ws:
  assumes "plain b" "is_ws_enc w"
  shows "map trim (split_on b (r @ w)) = map trim (split_on b r)"
proof -
  have "b \<notin> set w" using assms plain_not_in_ws by blast
  then have "split_on b (r @ w) = butlast (split_on b r) @ [last (split_on b r) @ w]"
    by (simp add: split_on_append_gen [of b r w] split_on_absent)
  then have "map trim (split_on b (r @ w)) = map trim (butlast (split_on b r) @ [last (split_on b r)])"
    using assms(2) by (simp add: trim_append_ws del: append_butlast_last_id)
  then show ?thesis by (simp only: append_butlast_last_id split_on_nonempty not_False_eq_True)
qed

lemma trim_split_concat_ws:
  assumes "plain b" "\<forall>w\<in>set ws. is_ws_enc w"
  shows "map trim (split_on b (concat ws @ r)) = map trim (split_on b r)"
    and "map trim (split_on b (r @ concat ws)) = map trim (split_on b r)"
  using assms
proof (induction ws arbitrary: r)
  case (Cons w ws)
  { case 1 with Cons show ?case by (simp add: trim_hd_ws) }
  { case 2 with Cons.IH(2) [of "r @ w"] show ?case by (simp add: trim_last_ws) }
qed simp_all

lemma map_trim_split_trim: "plain b \<Longrightarrow> map trim (split_on b (trim s)) = map trim (split_on b s)"
proof -
  assume b: "plain b"
  obtain u where u: "s = concat u @ trim_start s" "\<forall>w\<in>set u. is_ws_enc w"
    by (rule trim_start_cases)
  obtain v where v: "trim_start s = trim s @ concat v" "\<forall>w\<in>set v. is_ws_enc w"
    using trim_end_cases [of "trim_start s"] by (metis trim_def)
  have "map trim (split_on b s) = map trim (split_on b (trim_start s))"
    using trim_split_concat_ws(1) [OF b u(2)] u(1) by metis
  also have "\<dots> = map trim (split_on b (trim s))"
    using trim_split_concat_ws(2) [OF b v(2)] v(1) by metis
  finally show ?thesis by simp
qed

subsection \<open>Decimal numbers\<close>

definition digit_char :: "nat \<Rightarrow> char" where
  "digit_char d = char_of (48 + d)"

text \<open>\<open>to_string\<close> of an unsigned integer.\<close>

fun show_nat :: "nat \<Rightarrow> string" where
  "show_nat n = (if n < 10 then [digit_char n] else show_nat (n div 10) @ [digit_char (n mod 10)])"

declare show_nat.simps [simp del]

text \<open>\<open>to_string\<close> of a signed integer.\<close>

definition show_int :: "int \<Rightarrow> string" where
  "show_int i = (if i < 0 then CHR ''-'' # show_nat (nat (- i)) else show_nat (nat i))"

definition digits_val :: "string \<Rightarrow> nat" where
  "digits_val ds = foldl (\<lambda>a c. 10 * a + (of_char c - 48)) 0 ds"

text \<open>
  \<open>str::parse\<close> into an unsigned integer with the given maximum: an optional \<open>+\<close>, at least one
  digit, nothing else, and no overflow.
\<close>

definition parse_uint :: "nat \<Rightarrow> string \<Rightarrow> nat option" where
  "parse_uint m s =
     (let ds = (case s of [] \<Rightarrow> [] | c # cs \<Rightarrow> if c = CHR ''+'' then cs else s)
      in if ds = [] \<or> \<not> list_all is_ascii_digit ds then None
         else if digits_val ds \<le> m then Some (digits_val ds) else None)"

lemma of_char_digit_char [simp]: "d < 10 \<Longrightarrow> of_char (digit_char d) = 48 + d"
  by (simp add: digit_char_def)

lemma is_ascii_digit_digit_char [simp]: "d < 10 \<Longrightarrow> is_ascii_digit (digit_char d)"
  by (simp add: is_ascii_digit_def)

lemma digits_val_snoc: "digits_val (ds @ [c]) = 10 * digits_val ds + (of_char c - 48)"
  by (simp add: digits_val_def)

lemma show_nat_digits: "list_all is_ascii_digit (show_nat n)"
proof (induction n rule: show_nat.induct)
  case (1 n)
  then show ?case by (subst show_nat.simps) auto
qed

lemma show_nat_nonempty [simp]: "show_nat n \<noteq> []"
  by (subst show_nat.simps) auto

lemma digits_val_show_nat: "digits_val (show_nat n) = n"
proof (induction n rule: show_nat.induct)
  case (1 n)
  show ?case
  proof (cases "n < 10")
    case True
    then show ?thesis by (subst show_nat.simps) (simp add: digits_val_def)
  next
    case False
    with 1 show ?thesis by (subst show_nat.simps) (simp add: digits_val_snoc)
  qed
qed

lemma parse_uint_show_nat: "n \<le> m \<Longrightarrow> parse_uint m (show_nat n) = Some n"
proof -
  assume "n \<le> m"
  moreover obtain c cs where c: "show_nat n = c # cs" by (cases "show_nat n") auto
  moreover have "is_ascii_digit c" using show_nat_digits [of n] c by simp
  then have "c \<noteq> CHR ''+''" by (auto simp: is_ascii_digit_def)
  ultimately show ?thesis
    using show_nat_digits [of n] digits_val_show_nat [of n] by (simp add: parse_uint_def)
qed

lemma show_nat_inject: "show_nat a = show_nat b \<longleftrightarrow> a = b"
  by (metis digits_val_show_nat)

lemma parse_uint_le: "parse_uint m s = Some n \<Longrightarrow> n \<le> m"
  by (auto simp: parse_uint_def Let_def split: if_splits)

subsection \<open>Options, lists and counting\<close>

text \<open>\<open>Option::filter\<close>.\<close>

definition opt_filter :: "('a \<Rightarrow> bool) \<Rightarrow> 'a option \<Rightarrow> 'a option" where
  "opt_filter P x = (case x of Some a \<Rightarrow> if P a then Some a else None | None \<Rightarrow> None)"

lemma opt_filter_simps [simp]:
  "opt_filter P None = None" "opt_filter P (Some a) = (if P a then Some a else None)"
  by (simp_all add: opt_filter_def)

lemma opt_filter_Some_iff: "opt_filter P x = Some a \<longleftrightarrow> x = Some a \<and> P a"
  by (cases x) auto

text \<open>Length of the longest suffix whose elements all satisfy a predicate.\<close>

definition trailing :: "('a \<Rightarrow> bool) \<Rightarrow> 'a list \<Rightarrow> nat" where
  "trailing P xs = length (takeWhile P (rev xs))"

lemma trailing_Nil [simp]: "trailing P [] = 0"
  by (simp add: trailing_def)

lemma trailing_snoc [simp]: "trailing P (xs @ [x]) = (if P x then Suc (trailing P xs) else 0)"
  by (simp add: trailing_def)

lemma trailing_ge_iff: "k \<le> trailing P xs \<longleftrightarrow> k \<le> length xs \<and> (\<forall>x\<in>set (drop (length xs - k) xs). P x)"
proof (induction xs arbitrary: k rule: rev_induct)
  case (snoc x xs)
  then show ?case by (cases k) (auto simp: Suc_diff_le)
qed (simp add: trailing_def)

lemma sort_cong_mset:
  fixes xs ys :: "'a::linorder list"
  assumes "mset xs = mset ys"
  shows "sort xs = sort ys"
  using assms by (metis properties_for_sort sorted_sort mset_sort)

subsection \<open>Results\<close>

text \<open>\<^verbatim>\<open>Iterator::collect::<Result<Vec<_>, _>>\<close>: the first error, or all the values.\<close>

fun collect_results :: "('e + 'a) list \<Rightarrow> 'e + 'a list" where
  "collect_results [] = Inr []"
| "collect_results (Inl e # _) = Inl e"
| "collect_results (Inr a # rs) = (case collect_results rs of Inl e \<Rightarrow> Inl e | Inr as \<Rightarrow> Inr (a # as))"

lemma collect_results_Inr_iff: "collect_results rs = Inr xs \<longleftrightarrow> rs = map Inr xs"
proof (induction rs arbitrary: xs rule: collect_results.induct)
  case (3 a rs)
  show ?case
  proof (cases xs)
    case (Cons b ys)
    show ?thesis by (auto simp: Cons "3.IH" [of ys, symmetric] split: sum.splits)
  qed (simp split: sum.split)
qed auto

lemma collect_results_map_InrD:
  "collect_results (map f xs) = Inr ys \<Longrightarrow> y \<in> set ys \<Longrightarrow> \<exists>x\<in>set xs. f x = Inr y"
  by (auto simp: collect_results_Inr_iff) (metis (no_types, lifting) image_iff list.set_map)

end
