(* ===== verification/Doggy_Types.thy ===== *)
theory Doggy_Types
  imports Rust_Prelude
begin

text \<open>
  The data of \<^verbatim>\<open>crates/codegen/xai-doggy-orchestrator/src\<close>: task phases, statuses and pause
  reasons (\<^verbatim>\<open>state.rs\<close>), the open-items snapshot (\<^verbatim>\<open>open_items.rs\<close>), audit findings and verdicts
  (\<^verbatim>\<open>audit.rs\<close>), and the verification outcome of \<^verbatim>\<open>decide.rs\<close>. Record fields carry a prefix naming
  their record, because several structs of the crate share field names.
\<close>

subsection \<open>Lifecycle (state.rs)\<close>

datatype StallReason = Repeated | IdleRounds

datatype TaskPhase =
  PhaseIdle | PhaseExecuting | PhaseCheckOpen | PhaseAudit | PhaseFix | PhaseDone | PhasePaused

datatype TaskStatus = StatusIdle | StatusActive | StatusDone | StatusPaused

datatype PauseReason = UserCancel | InfraError | BudgetExhausted | NoProgress nat StallReason

subsection \<open>Audit findings and verdicts (audit.rs)\<close>

record AuditFinding =
  af_severity :: "string option"
  af_criterion :: "nat option"
  af_message :: string

record AuditVerdict =
  av_pass :: bool
  av_findings :: "AuditFinding list"

definition passed :: AuditVerdict where
  "passed = \<lparr>av_pass = True, av_findings = []\<rparr>"

definition failed :: "AuditFinding list \<Rightarrow> AuditVerdict" where
  "failed fs = \<lparr>av_pass = False, av_findings = fs\<rparr>"

definition finding_line :: "nat \<Rightarrow> AuditFinding \<Rightarrow> string" where
  "finding_line i f =
     (let sev = (case af_severity f of Some s \<Rightarrow> ''['' @ s @ ''] '' | None \<Rightarrow> []);
          crit = (case af_criterion f of Some c \<Rightarrow> ''criterion '' @ show_nat c @ '': '' | None \<Rightarrow> [])
      in show_nat (i + 1) @ ''. '' @ sev @ crit @ af_message f)"

definition findings_text :: "AuditVerdict \<Rightarrow> string" where
  "findings_text v =
     (if av_findings v = []
      then ''Audit failed with no detailed findings; re-check the goal and diff.''
      else join [NL] (map (\<lambda>(i, f). finding_line i f) (enumerate 0 (av_findings v))))"

datatype VerificationOutcome = Pending | Achieved | Rejected "AuditFinding list"

subsection \<open>Open items (open\_items.rs)\<close>

record OpenItem =
  oi_id :: "string option"
  oi_summary :: string

record OpenItemsSnapshot =
  os_items :: "OpenItem list"
  os_acceptance_pending :: bool

definition acceptance_only :: OpenItemsSnapshot where
  "acceptance_only = \<lparr>os_items = [], os_acceptance_pending = True\<rparr>"

definition fully_clear :: OpenItemsSnapshot where
  "fully_clear = \<lparr>os_items = [], os_acceptance_pending = False\<rparr>"

definition has_explicit_work :: "OpenItemsSnapshot \<Rightarrow> bool" where
  "has_explicit_work s \<longleftrightarrow> os_items s \<noteq> []"

definition blocks_done :: "OpenItemsSnapshot \<Rightarrow> bool" where
  "blocks_done s \<longleftrightarrow> has_explicit_work s \<or> os_acceptance_pending s"

definition ready_for_audit :: "OpenItemsSnapshot \<Rightarrow> bool" where
  "ready_for_audit s \<longleftrightarrow> \<not> has_explicit_work s"

definition summary_line :: "OpenItemsSnapshot \<Rightarrow> string" where
  "summary_line s =
     (if os_items s = [] then
        (if os_acceptance_pending s then ''acceptance pending (awaiting audit)''
         else ''no open items'')
      else
        (let heads = map oi_summary (take 5 (os_items s));
             extra = length (os_items s) - length heads
         in if extra = 0 then ''open items: '' @ join ''; '' heads
            else ''open items: '' @ join ''; '' heads @ ''; '' @ ELLIPSIS @ ''and '' @ show_nat extra
                 @ '' more''))"

end
