(* ===== verification/Streaks.thy ===== *)
theory Streaks
  imports Rust_Prelude
begin

text \<open>
  Two contracts for saturating 32-bit streak counters, which several components keep: the round
  ledger of the completion gate counts identical rounds and tool-less rounds, the goal tracker
  counts identical verifier gaps and consecutive infrastructure failures. A component shows that
  its update follows the contract (an interpretation) and obtains what the counter means in terms
  of the whole observation history: the length of the trailing run.
\<close>

text \<open>A counter of consecutive observations with the same fingerprint.\<close>

locale fp_streak =
  fixes step :: "'i \<Rightarrow> 's \<Rightarrow> 's"
    and fp :: "'i \<Rightarrow> 'f"
    and last_fp :: "'s \<Rightarrow> 'f option"
    and count :: "'s \<Rightarrow> nat"
  assumes last_step: "last_fp (step i s) = Some (fp i)"
    and count_step: "count (step i s) = (if last_fp s = Some (fp i) then sat_add32 (count s) 1 else 1)"
begin

lemma last_fold: "xs \<noteq> [] \<Longrightarrow> last_fp (fold step xs s) = Some (fp (last xs))"
  by (cases xs rule: rev_cases) (simp_all add: last_step)

lemma trailing_same_snoc:
  "xs \<noteq> [] \<Longrightarrow> fp (last xs) = fp x \<Longrightarrow>
     trailing (\<lambda>y. fp y = fp x) xs = trailing (\<lambda>y. fp y = fp (last xs)) xs"
  by simp

lemma trailing_other:
  "xs \<noteq> [] \<Longrightarrow> fp (last xs) \<noteq> fp x \<Longrightarrow> trailing (\<lambda>y. fp y = fp x) xs = 0"
  by (cases xs rule: rev_cases) simp_all

lemma count_fold:
  assumes "last_fp s = None" "xs \<noteq> []"
  shows "count (fold step xs s) = min (trailing (\<lambda>y. fp y = fp (last xs)) xs) u32_max"
  using assms(2)
proof (induction xs rule: rev_induct)
  case (snoc x xs)
  show ?case
  proof (cases "xs = []")
    case True
    with assms(1) show ?thesis by (simp add: count_step trailing_def)
  next
    case False
    with snoc show ?thesis
      by (cases "fp (last xs) = fp x")
        (auto simp: count_step last_fold trailing_other)
  qed
qed simp

lemma count_ge_iff:
  assumes "last_fp s = None" "xs \<noteq> []" "k \<le> u32_max"
  shows "k \<le> count (fold step xs s) \<longleftrightarrow>
     k \<le> length xs \<and> (\<forall>y\<in>set (drop (length xs - k) xs). fp y = fp (last xs))"
  using assms by (simp add: count_fold trailing_ge_iff)

end

text \<open>A counter of consecutive bad observations that a good one resets.\<close>

locale bad_streak =
  fixes step :: "'i \<Rightarrow> 's \<Rightarrow> 's"
    and bad :: "'i \<Rightarrow> bool"
    and count :: "'s \<Rightarrow> nat"
  assumes count_step: "count (step i s) = (if bad i then sat_add32 (count s) 1 else 0)"
begin

lemma count_fold:
  assumes "count s = 0"
  shows "count (fold step xs s) = min (trailing bad xs) u32_max"
  by (induction xs rule: rev_induct) (use assms in \<open>simp_all add: count_step\<close>)

lemma count_ge_iff:
  assumes "count s = 0" "k \<le> u32_max"
  shows "k \<le> count (fold step xs s) \<longleftrightarrow>
     k \<le> length xs \<and> (\<forall>y\<in>set (drop (length xs - k) xs). bad y)"
  using assms by (simp add: count_fold trailing_ge_iff)

end

end
