(* ===== verification/Doggy_Progress.thy ===== *)
theory Doggy_Progress
  imports Doggy_Types Streaks
begin

text \<open>
  \<^verbatim>\<open>crates/codegen/xai-doggy-orchestrator/src/progress.rs\<close>: the stall levels, the activity and
  delta of a round, the round fingerprint, and the \<open>RoundLedger\<close> the host keeps across the rounds
  of one prompt. The ledger's two counters are shown to be the lengths of the trailing run of
  identical rounds and of the trailing run of tool-less rounds.
\<close>

subsection \<open>Thresholds and stall levels\<close>

definition STALL_REAPPROACH_AFTER :: nat where "STALL_REAPPROACH_AFTER = 3"
definition STALL_CUTOFF_AFTER :: nat where "STALL_CUTOFF_AFTER = STALL_REAPPROACH_AFTER * 2"
definition IDLE_CUTOFF_AFTER :: nat where "IDLE_CUTOFF_AFTER = 3"

lemmas stall_thresholds = STALL_REAPPROACH_AFTER_def STALL_CUTOFF_AFTER_def IDLE_CUTOFF_AFTER_def

fun stall_reason_kind :: "StallReason \<Rightarrow> string" where
  "stall_reason_kind Repeated = ''repeated''"
| "stall_reason_kind IdleRounds = ''idle''"

datatype StallLevel = Progressing | LevelReapproach nat StallReason | CutOff nat StallReason

fun stall_kind :: "StallLevel \<Rightarrow> string" where
  "stall_kind Progressing = ''progressing''"
| "stall_kind (LevelReapproach n r) = ''reapproach''"
| "stall_kind (CutOff n r) = ''cut_off''"

fun level_repeats :: "StallLevel \<Rightarrow> nat" where
  "level_repeats Progressing = 0"
| "level_repeats (LevelReapproach n r) = n"
| "level_repeats (CutOff n r) = n"

fun level_reason :: "StallLevel \<Rightarrow> StallReason option" where
  "level_reason Progressing = None"
| "level_reason (LevelReapproach n r) = Some r"
| "level_reason (CutOff n r) = Some r"

fun severity :: "StallLevel \<Rightarrow> nat" where
  "severity Progressing = 0"
| "severity (LevelReapproach n r) = 1"
| "severity (CutOff n r) = 2"

definition worst :: "StallLevel \<Rightarrow> StallLevel \<Rightarrow> StallLevel" where
  "worst a b = (if severity b > severity a then b else a)"

subsection \<open>Round activity and round delta\<close>

record RoundActivity =
  ra_changed_files :: "string list option"
  ra_tools_called :: "string list"
  ra_execed :: "nat list"
  ra_verified :: "nat list"
  ra_deferred :: "nat list"

definition ra_default :: RoundActivity where
  "ra_default = \<lparr>ra_changed_files = None, ra_tools_called = [], ra_execed = [], ra_verified = [],
     ra_deferred = []\<rparr>"

definition worked :: "RoundActivity \<Rightarrow> bool" where
  "worked a \<longleftrightarrow> ra_tools_called a \<noteq> []"

record RoundDelta =
  rd_round :: nat
  rd_newly_changed_files :: "string list"
  rd_workspace_visible :: bool
  rd_tools_called :: "string list"
  rd_newly_execed :: "nat list"
  rd_newly_verified :: "nat list"
  rd_newly_deferred :: "nat list"

definition DELTA_FILES_SHOWN :: nat where "DELTA_FILES_SHOWN = 8"

definition delta_worked :: "RoundDelta \<Rightarrow> bool" where
  "delta_worked d \<longleftrightarrow> rd_tools_called d \<noteq> []"

definition moved_nothing :: "RoundDelta \<Rightarrow> bool" where
  "moved_nothing d \<longleftrightarrow> \<not> delta_worked d \<and> rd_newly_changed_files d = []
     \<and> rd_newly_execed d = [] \<and> rd_newly_verified d = [] \<and> rd_newly_deferred d = []"

definition workspace_line :: "RoundDelta \<Rightarrow> string" where
  "workspace_line d =
     (if \<not> rd_workspace_visible d then ''workspace changes could not be read (no git baseline)''
      else if rd_newly_changed_files d = [] then ''no new files were touched in the workspace''
      else
        (let shown = take DELTA_FILES_SHOWN (rd_newly_changed_files d);
             extra = length (rd_newly_changed_files d) - length shown
         in if extra = 0 then ''newly touched: '' @ join '', '' shown
            else ''newly touched: '' @ join '', '' shown @ '', and '' @ show_nat extra @ '' more''))"

fun count_tool :: "string \<Rightarrow> (string \<times> nat) list \<Rightarrow> (string \<times> nat) list" where
  "count_tool name [] = [(name, 1)]"
| "count_tool name ((seen, n) # rest) =
     (if seen = name then (seen, n + 1) # rest else (seen, n) # count_tool name rest)"

definition tool_usage_line :: "RoundDelta \<Rightarrow> string" where
  "tool_usage_line d =
     (if rd_tools_called d = [] then ''no tools were called''
      else join '', ''
        (map (\<lambda>(name, n). if n = 1 then name else name @ '' '' @ TIMES @ show_nat n)
          (fold count_tool (rd_tools_called d) [])))"

definition number_list :: "nat list \<Rightarrow> string" where
  "number_list ns = join '', '' (map show_nat ns)"

definition criteria_line :: "RoundDelta \<Rightarrow> string option" where
  "criteria_line d =
     (let parts =
        (if rd_newly_execed d \<noteq> [] then [''marked done: '' @ number_list (rd_newly_execed d)] else [])
        @ (if rd_newly_verified d \<noteq> [] then [''verified: '' @ number_list (rd_newly_verified d)] else [])
        @ (if rd_newly_deferred d \<noteq> [] then [''given up on: '' @ number_list (rd_newly_deferred d)] else [])
      in if parts = [] then None else Some (join ''; '' parts))"

subsection \<open>The round fingerprint\<close>

fun verdict_text :: "VerificationOutcome \<Rightarrow> string" where
  "verdict_text Pending = ''pending''"
| "verdict_text Achieved = ''achieved''"
| "verdict_text (Rejected fs) = ''rejected:'' @ join ''|'' (sort (map af_message fs))"

definition numbers :: "nat list \<Rightarrow> string" where
  "numbers ns = join ''+'' (map show_nat ns)"

definition round_fingerprint ::
  "OpenItemsSnapshot \<Rightarrow> VerificationOutcome \<Rightarrow> RoundActivity \<Rightarrow> string" where
  "round_fingerprint open verification activity =
     ''open='' @ summary_line open @ [NL]
     @ ''verdict='' @ verdict_text verification @ [NL]
     @ ''changed='' @ (case ra_changed_files activity of Some files \<Rightarrow> join '','' files | None \<Rightarrow> ''?'') @ [NL]
     @ ''exec='' @ numbers (ra_execed activity) @ [NL]
     @ ''verified='' @ numbers (ra_verified activity) @ [NL]
     @ ''deferred='' @ numbers (ra_deferred activity) @ [NL]
     @ ''tools='' @ join '','' (ra_tools_called activity)"

subsection \<open>The round ledger\<close>

record RoundLedger =
  rl_round :: nat
  rl_last_fingerprint :: "string option"
  rl_repeats :: nat
  rl_idle_streak :: nat
  rl_changed_files :: "string list"
  rl_execed :: "nat list"
  rl_verified :: "nat list"
  rl_deferred :: "nat list"
  rl_verification_requested_for :: "nat list option"

definition ledger_new :: RoundLedger where
  "ledger_new = \<lparr>rl_round = 0, rl_last_fingerprint = None, rl_repeats = 0, rl_idle_streak = 0,
     rl_changed_files = [], rl_execed = [], rl_verified = [], rl_deferred = [],
     rl_verification_requested_for = None\<rparr>"

definition added :: "'a list \<Rightarrow> 'a list \<Rightarrow> 'a list" where
  "added before now = filter (\<lambda>n. n \<notin> set before) now"

definition repeat_level :: "RoundLedger \<Rightarrow> StallLevel" where
  "repeat_level l =
     (if rl_repeats l \<ge> STALL_CUTOFF_AFTER then CutOff (rl_repeats l) Repeated
      else if rl_repeats l \<ge> STALL_REAPPROACH_AFTER then LevelReapproach (rl_repeats l) Repeated
      else Progressing)"

definition idle_level :: "RoundLedger \<Rightarrow> StallLevel" where
  "idle_level l =
     (if rl_idle_streak l \<ge> IDLE_CUTOFF_AFTER then CutOff (rl_idle_streak l) IdleRounds
      else if rl_idle_streak l \<ge> 1 then LevelReapproach (rl_idle_streak l) IdleRounds
      else Progressing)"

definition observe ::
  "OpenItemsSnapshot \<Rightarrow> VerificationOutcome \<Rightarrow> RoundActivity \<Rightarrow> RoundLedger
   \<Rightarrow> RoundLedger \<times> StallLevel \<times> RoundDelta" where
  "observe open verification activity l0 =
     (let l1 = l0\<lparr>rl_round := sat_add32 (rl_round l0) 1\<rparr>;
          fingerprint = round_fingerprint open verification activity;
          l2 = l1\<lparr>rl_repeats :=
                 (if rl_last_fingerprint l1 = Some fingerprint then sat_add32 (rl_repeats l1) 1 else 1)\<rparr>;
          l3 = l2\<lparr>rl_last_fingerprint := Some fingerprint\<rparr>;
          l4 = l3\<lparr>rl_idle_streak := (if worked activity then 0 else sat_add32 (rl_idle_streak l3) 1)\<rparr>;
          delta = \<lparr>rd_round = rl_round l4,
                   rd_newly_changed_files =
                     (case ra_changed_files activity of
                        Some files \<Rightarrow> added (rl_changed_files l4) files | None \<Rightarrow> []),
                   rd_workspace_visible = (ra_changed_files activity \<noteq> None),
                   rd_tools_called = ra_tools_called activity,
                   rd_newly_execed = added (rl_execed l4) (ra_execed activity),
                   rd_newly_verified = added (rl_verified l4) (ra_verified activity),
                   rd_newly_deferred = added (rl_deferred l4) (ra_deferred activity)\<rparr>;
          l5 = (case ra_changed_files activity of
                  Some files \<Rightarrow> l4\<lparr>rl_changed_files := files\<rparr> | None \<Rightarrow> l4);
          l6 = l5\<lparr>rl_execed := ra_execed activity, rl_verified := ra_verified activity,
                  rl_deferred := ra_deferred activity\<rparr>
      in (l6, worst (repeat_level l6) (idle_level l6), delta))"

definition verification_already_requested_for :: "nat list \<Rightarrow> RoundLedger \<Rightarrow> bool" where
  "verification_already_requested_for execed l \<longleftrightarrow>
     (case rl_verification_requested_for l of Some previous \<Rightarrow> previous = execed | None \<Rightarrow> False)"

definition mark_verification_requested :: "nat list \<Rightarrow> RoundLedger \<Rightarrow> RoundLedger" where
  "mark_verification_requested execed l = l\<lparr>rl_verification_requested_for := Some execed\<rparr>"

definition reset_streaks :: "RoundLedger \<Rightarrow> RoundLedger" where
  "reset_streaks l = l\<lparr>rl_last_fingerprint := None, rl_repeats := 0, rl_idle_streak := 0\<rparr>"

subsection \<open>The ledger over a whole run\<close>

text \<open>A round as the ledger sees it, and the ledger after a sequence of rounds.\<close>

type_synonym round_input = "OpenItemsSnapshot \<times> VerificationOutcome \<times> RoundActivity"

definition ledger_step :: "round_input \<Rightarrow> RoundLedger \<Rightarrow> RoundLedger" where
  "ledger_step = (\<lambda>(open, verification, activity) l. fst (observe open verification activity l))"

definition input_fp :: "round_input \<Rightarrow> string" where
  "input_fp = (\<lambda>(open, verification, activity). round_fingerprint open verification activity)"

definition input_idle :: "round_input \<Rightarrow> bool" where
  "input_idle = (\<lambda>(open, verification, activity). \<not> worked activity)"

definition input_files :: "round_input \<Rightarrow> string list option" where
  "input_files = (\<lambda>(open, verification, activity). ra_changed_files activity)"

definition stall_of :: "RoundLedger \<Rightarrow> StallLevel" where
  "stall_of l = worst (repeat_level l) (idle_level l)"

text \<open>A ledger with no running streak: a new one, or one whose streaks were just reset.\<close>

definition fresh :: "RoundLedger \<Rightarrow> bool" where
  "fresh l \<longleftrightarrow> rl_last_fingerprint l = None \<and> rl_idle_streak l = 0"

lemma fresh_new [simp]: "fresh ledger_new"
  by (simp add: fresh_def ledger_new_def)

lemma fresh_reset [simp]: "fresh (reset_streaks l)"
  by (simp add: fresh_def reset_streaks_def)

lemma observe_ledger_step: "fst (observe ov vf act l) = ledger_step (ov, vf, act) l"
  by (simp add: ledger_step_def)

lemma observe_level: "fst (snd (observe ov vf act l)) = stall_of (ledger_step (ov, vf, act) l)"
  by (simp add: ledger_step_def observe_def stall_of_def Let_def)

lemma ledger_step_fields [simp]:
  "rl_round (ledger_step i l) = sat_add32 (rl_round l) 1"
  "rl_last_fingerprint (ledger_step i l) = Some (input_fp i)"
  "rl_repeats (ledger_step i l) =
     (if rl_last_fingerprint l = Some (input_fp i) then sat_add32 (rl_repeats l) 1 else 1)"
  "rl_idle_streak (ledger_step i l) = (if input_idle i then sat_add32 (rl_idle_streak l) 1 else 0)"
  "rl_changed_files (ledger_step i l) =
     (case input_files i of Some files \<Rightarrow> files | None \<Rightarrow> rl_changed_files l)"
  "rl_verification_requested_for (ledger_step i l) = rl_verification_requested_for l"
  by (auto simp: ledger_step_def observe_def input_fp_def input_idle_def input_files_def Let_def
      split: prod.splits option.splits)

interpretation repeats: fp_streak ledger_step input_fp rl_last_fingerprint rl_repeats
  by unfold_locales simp_all

interpretation idle: bad_streak ledger_step input_idle rl_idle_streak
  by unfold_locales simp

lemma severity_worst: "severity (worst a b) = max (severity a) (severity b)"
  by (simp add: worst_def)

lemma severity_eq_iff:
  "severity l = 0 \<longleftrightarrow> l = Progressing"
  "severity l = 2 \<longleftrightarrow> (\<exists>n r. l = CutOff n r)"
  by (cases l; simp)+

lemma severity_repeat_level:
  "severity (repeat_level l) = (if 6 \<le> rl_repeats l then 2 else if 3 \<le> rl_repeats l then 1 else 0)"
  by (simp add: repeat_level_def stall_thresholds)

lemma severity_idle_level:
  "severity (idle_level l) = (if 3 \<le> rl_idle_streak l then 2 else if 1 \<le> rl_idle_streak l then 1 else 0)"
  by (simp add: idle_level_def stall_thresholds)

lemma cut_off_iff: "(\<exists>n r. stall_of l = CutOff n r) \<longleftrightarrow> 6 \<le> rl_repeats l \<or> 3 \<le> rl_idle_streak l"
  unfolding severity_eq_iff(2) [symmetric] stall_of_def severity_worst severity_repeat_level
    severity_idle_level by simp

lemma progressing_iff: "stall_of l = Progressing \<longleftrightarrow> rl_repeats l < 3 \<and> rl_idle_streak l = 0"
  unfolding severity_eq_iff(1) [symmetric] stall_of_def severity_worst severity_repeat_level
    severity_idle_level by simp

text \<open>The last \<open>k\<close> rounds of a history all satisfy a predicate (and there are that many).\<close>

definition last_rounds :: "nat \<Rightarrow> ('a \<Rightarrow> bool) \<Rightarrow> 'a list \<Rightarrow> bool" where
  "last_rounds k P xs \<longleftrightarrow> k \<le> length xs \<and> (\<forall>x\<in>set (drop (length xs - k) xs). P x)"

lemma repeats_ge_iff:
  "fresh l \<Longrightarrow> xs \<noteq> [] \<Longrightarrow> k \<le> u32_max \<Longrightarrow>
     k \<le> rl_repeats (fold ledger_step xs l) \<longleftrightarrow> last_rounds k (\<lambda>x. input_fp x = input_fp (last xs)) xs"
  by (simp add: fresh_def repeats.count_ge_iff last_rounds_def)

lemma idle_ge_iff:
  "fresh l \<Longrightarrow> k \<le> u32_max \<Longrightarrow> k \<le> rl_idle_streak (fold ledger_step xs l) \<longleftrightarrow> last_rounds k input_idle xs"
  by (simp add: fresh_def idle.count_ge_iff last_rounds_def)

lemma small_u32 [simp]: "6 \<le> u32_max" "3 \<le> u32_max" "Suc 0 \<le> u32_max"
  by (simp_all add: u32_max_def)

subsection \<open>What the ledger reports\<close>

text \<open>
  Property C12. Take any history \<open>xs\<close> of rounds observed by a ledger that had no running streak,
  and observe one more round. The level reported for it is a cut-off exactly when the last six
  rounds have one fingerprint or the last three called no tool; it is \<open>Progressing\<close> exactly when
  the last three rounds do not share a fingerprint and the last round called a tool.
\<close>

theorem stall_level_history:
  assumes "fresh l"
  shows "let level = fst (snd (observe ov vf act (fold ledger_step xs l)));
             hist = xs @ [(ov, vf, act)]
         in ((\<exists>n r. level = CutOff n r) \<longleftrightarrow>
           last_rounds STALL_CUTOFF_AFTER (\<lambda>x. input_fp x = round_fingerprint ov vf act) hist
           \<or> last_rounds IDLE_CUTOFF_AFTER input_idle hist)
       \<and> (level = Progressing \<longleftrightarrow>
           \<not> last_rounds STALL_REAPPROACH_AFTER (\<lambda>x. input_fp x = round_fingerprint ov vf act) hist
           \<and> worked act)"
proof -
  define hist where "hist = xs @ [(ov, vf, act)]"
  have level: "fst (snd (observe ov vf act (fold ledger_step xs l))) = stall_of (fold ledger_step hist l)"
    by (simp add: hist_def observe_level)
  have fp: "input_fp (last hist) = round_fingerprint ov vf act" and ne: "hist \<noteq> []"
    by (simp_all add: hist_def input_fp_def)
  have idle: "1 \<le> rl_idle_streak (fold ledger_step hist l) \<longleftrightarrow> \<not> worked act"
    using idle_ge_iff [OF assms(1), of 1 hist] by (simp add: hist_def last_rounds_def input_idle_def)
  show ?thesis
    unfolding Let_def hist_def [symmetric] level cut_off_iff progressing_iff stall_thresholds
    using idle repeats_ge_iff [OF assms(1) ne, of 6] repeats_ge_iff [OF assms(1) ne, of 3]
      idle_ge_iff [OF assms(1), of 3 hist]
    unfolding fp by auto
qed

theorem stall_level_history_witness:
  "fst (snd (observe acceptance_only Pending ra_default
      (fold ledger_step (replicate 2 (acceptance_only, Pending, ra_default)) ledger_new)))
     \<noteq> Progressing"
  using stall_level_history
    [of ledger_new acceptance_only Pending ra_default "replicate 2 (acceptance_only, Pending, ra_default)"]
  by (simp add: worked_def ra_default_def Let_def)

text \<open>The last readable list of touched files before a round: a running total.\<close>

definition last_visible :: "string list \<Rightarrow> round_input list \<Rightarrow> string list" where
  "last_visible start xs = last (start # List.map_filter input_files xs)"

lemma rl_changed_files_fold: "rl_changed_files (fold ledger_step xs l) = last_visible (rl_changed_files l) xs"
proof (induction xs rule: rev_induct)
  case (snoc x xs)
  then show ?case by (simp add: last_visible_def List.map_filter_def split: option.splits)
qed (simp add: last_visible_def List.map_filter_def)

text \<open>
  The files a round is credited with are exactly those it reports that are absent
  from the last readable workspace listing, however many unreadable rounds lie in between; an
  unreadable round is credited with none and is marked as not visible. A failed git call therefore
  never makes previously touched files look new.
\<close>

theorem delta_files_since_last_visible:
  "let delta = snd (snd (observe ov vf act (fold ledger_step xs l)))
   in rd_newly_changed_files delta =
        (case ra_changed_files act of
           None \<Rightarrow> []
         | Some files \<Rightarrow> filter (\<lambda>f. f \<notin> set (last_visible (rl_changed_files l) xs)) files)
      \<and> (rd_workspace_visible delta \<longleftrightarrow> ra_changed_files act \<noteq> None)"
  by (simp add: observe_def Let_def added_def rl_changed_files_fold split: option.splits)

text \<open>
  The panel's order does not matter: two rejections with the same complaints, in any
  order and with any severities or attributions, give the same round fingerprint.
\<close>

theorem fingerprint_findings_order:
  assumes "mset (map af_message fs) = mset (map af_message gs)"
  shows "round_fingerprint open (Rejected fs) act = round_fingerprint open (Rejected gs) act"
  using sort_cong_mset [OF assms] by (simp add: round_fingerprint_def)

definition plain_finding :: "string \<Rightarrow> AuditFinding" where
  "plain_finding m = \<lparr>af_severity = None, af_criterion = None, af_message = m\<rparr>"

theorem fingerprint_findings_order_witness:
  "round_fingerprint acceptance_only (Rejected [plain_finding ''b'', plain_finding ''a'']) ra_default
   = round_fingerprint acceptance_only (Rejected [plain_finding ''a'', plain_finding ''b'']) ra_default"
  by (rule fingerprint_findings_order) (simp add: plain_finding_def)

text \<open>
  A blind spot of the fingerprint: it sees the open items only through
  \<open>summary_line\<close>, so two snapshots with the same first five summaries and the same number of items
  are indistinguishable to the gate, whatever the remaining items are.
\<close>

theorem fingerprint_ignores_items_past_five:
  assumes "map oi_summary (take 5 (os_items s)) = map oi_summary (take 5 (os_items t))"
    and "length (os_items s) = length (os_items t)" and "os_items s \<noteq> []"
  shows "round_fingerprint s vf act = round_fingerprint t vf act"
proof -
  have "os_items t \<noteq> []" using assms(2,3) by auto
  then have "summary_line s = summary_line t" using assms by (simp add: summary_line_def)
  then show ?thesis by (simp add: round_fingerprint_def)
qed

definition items_snapshot :: "string list \<Rightarrow> OpenItemsSnapshot" where
  "items_snapshot ss = \<lparr>os_items = map (\<lambda>s. \<lparr>oi_id = None, oi_summary = s\<rparr>) ss,
     os_acceptance_pending = True\<rparr>"

theorem fingerprint_ignores_items_past_five_witness:
  "round_fingerprint (items_snapshot [''a'', ''b'', ''c'', ''d'', ''e'', ''f'']) Pending ra_default
   = round_fingerprint (items_snapshot [''a'', ''b'', ''c'', ''d'', ''e'', ''g'']) Pending ra_default"
  by (rule fingerprint_ignores_items_past_five) (simp_all add: items_snapshot_def)

lemma count_tool_keys: "set (map fst (count_tool n cs)) = insert n (set (map fst cs))"
  by (induction n cs rule: count_tool.induct) auto

lemma count_tool_distinct: "distinct (map fst cs) \<Longrightarrow> distinct (map fst (count_tool n cs))"
proof (induction n cs rule: count_tool.induct)
  case (2 name seen k rest)
  then show ?case using count_tool_keys [of name rest] by auto
qed simp

lemma map_of_count_tool:
  "map_of (count_tool n cs) m =
     (if m = n then Some (case map_of cs n of Some k \<Rightarrow> k + 1 | None \<Rightarrow> 1) else map_of cs m)"
  by (induction n cs rule: count_tool.induct) auto

text \<open>
  The tool tally behind \<open>tool_usage_line\<close> is right: every tool that was called
  appears once, with the number of its calls, and no other tool appears.
\<close>

theorem tool_counts_correct:
  "distinct (map fst (fold count_tool tools []))
   \<and> map_of (fold count_tool tools []) t =
       (if t \<in> set tools then Some (count_list tools t) else None)"
proof (induction tools rule: rev_induct)
  case (snoc x xs)
  then show ?case by (auto simp: count_tool_distinct map_of_count_tool count_list_append)
qed simp

end
