(* ===== verification/Doggy_Decide.thy ===== *)
theory Doggy_Decide
  imports Doggy_Progress
begin

text \<open>
  \<^verbatim>\<open>inject.rs\<close> and \<^verbatim>\<open>decide.rs\<close> of \<^verbatim>\<open>crates/codegen/xai-doggy-orchestrator/src\<close>: the injections, the
  pure completion decision after a round, the \<open>TaskMachine\<close> the host keeps, and the loop that
  observes a round and decides. The decision is characterised on every branch, the machine's
  phase, status and pause reason are shown consistent in every reachable state, and the loop is
  shown to stop on rounds that do not move.
\<close>

subsection \<open>Injections (inject.rs)\<close>

datatype Injection =
  Continue string RoundDelta
| Fix "AuditFinding list"
| Reapproach nat StallReason string RoundDelta

definition continue_with :: "string \<Rightarrow> RoundDelta \<Rightarrow> Injection" where
  "continue_with open_summary delta = Continue open_summary delta"

definition fix_with :: "AuditFinding list \<Rightarrow> Injection" where
  "fix_with findings = Fix findings"

definition reapproach :: "nat \<Rightarrow> StallReason \<Rightarrow> string \<Rightarrow> RoundDelta \<Rightarrow> Injection" where
  "reapproach repeats reason open_summary delta = Reapproach repeats reason open_summary delta"

fun injection_kind :: "Injection \<Rightarrow> string" where
  "injection_kind (Continue s d) = ''continue''"
| "injection_kind (Fix fs) = ''fix''"
| "injection_kind (Reapproach n r s d) = ''reapproach''"

subsection \<open>Decisions (decide.rs)\<close>

datatype TaskDecision = RunAnotherRound Injection | TaskDone | TaskPaused PauseReason

record RoundEndView =
  rv_round_ok :: bool
  rv_open_items :: OpenItemsSnapshot
  rv_user_cancel :: bool
  rv_budget_hit :: bool
  rv_verification :: VerificationOutcome
  rv_stall :: StallLevel
  rv_delta :: RoundDelta

definition acceptance_pending_text :: string where
  "acceptance_pending_text = ''acceptance pending '' @ EM_DASH
     @ '' when every acceptance criterion is met, call ''
     @ ''update_goal(completed: true) so verification can accept the task''"

definition decide_completion :: "RoundEndView \<Rightarrow> TaskDecision" where
  "decide_completion v =
     (if rv_user_cancel v then TaskPaused UserCancel
      else if rv_budget_hit v then TaskPaused BudgetExhausted
      else if \<not> rv_round_ok v then TaskPaused InfraError
      else if has_explicit_work (rv_open_items v)
      then RunAnotherRound (continue_with (summary_line (rv_open_items v)) (rv_delta v))
      else (case rv_verification v of
              Achieved \<Rightarrow> TaskDone
            | Rejected findings \<Rightarrow> RunAnotherRound (fix_with findings)
            | Pending \<Rightarrow> RunAnotherRound (continue_with acceptance_pending_text (rv_delta v))))"

definition decide_after_round :: "RoundEndView \<Rightarrow> TaskDecision" where
  "decide_after_round v =
     (case decide_completion v of
        RunAnotherRound injection \<Rightarrow>
          (case rv_stall v of
             Progressing \<Rightarrow> RunAnotherRound injection
           | LevelReapproach repeats reason \<Rightarrow>
               RunAnotherRound (reapproach repeats reason (summary_line (rv_open_items v)) (rv_delta v))
           | CutOff repeats reason \<Rightarrow> TaskPaused (NoProgress repeats reason))
      | decision \<Rightarrow> decision)"

subsection \<open>The task machine (decide.rs)\<close>

record TaskMachine =
  tm_phase :: TaskPhase
  tm_status :: TaskStatus
  tm_pause_reason :: "PauseReason option"

definition machine_new :: TaskMachine where
  "machine_new = \<lparr>tm_phase = PhaseIdle, tm_status = StatusIdle, tm_pause_reason = None\<rparr>"

definition machine_start :: "TaskMachine \<Rightarrow> TaskMachine" where
  "machine_start m =
     m\<lparr>tm_phase := PhaseExecuting, tm_status := StatusActive, tm_pause_reason := None\<rparr>"

fun machine_apply :: "TaskDecision \<Rightarrow> TaskMachine \<Rightarrow> TaskMachine" where
  "machine_apply (RunAnotherRound injection) m =
     m\<lparr>tm_phase := (case injection of Fix fs \<Rightarrow> PhaseFix | _ \<Rightarrow> PhaseExecuting),
       tm_status := StatusActive, tm_pause_reason := None\<rparr>"
| "machine_apply TaskDone m =
     m\<lparr>tm_phase := PhaseDone, tm_status := StatusDone, tm_pause_reason := None\<rparr>"
| "machine_apply (TaskPaused reason) m =
     m\<lparr>tm_phase := PhasePaused, tm_status := StatusPaused, tm_pause_reason := Some reason\<rparr>"

definition mark_executing :: "TaskMachine \<Rightarrow> TaskMachine" where
  "mark_executing m =
     (if tm_status m = StatusActive then m\<lparr>tm_phase := PhaseExecuting\<rparr> else m)"

datatype machine_op = Start | Apply TaskDecision | MarkExecuting

fun machine_op_step :: "machine_op \<Rightarrow> TaskMachine \<Rightarrow> TaskMachine" where
  "machine_op_step Start m = machine_start m"
| "machine_op_step (Apply d) m = machine_apply d m"
| "machine_op_step MarkExecuting m = mark_executing m"

inductive machine_reachable :: "TaskMachine \<Rightarrow> bool" where
  new: "machine_reachable machine_new"
| op: "machine_reachable m \<Longrightarrow> machine_reachable (machine_op_step c m)"

subsection \<open>Exact characterisations of the decision\<close>

lemmas decide_defs = decide_after_round_def decide_completion_def continue_with_def fix_with_def
  reapproach_def has_explicit_work_def

text \<open>
  Property C1. The gate accepts the task exactly when the round ended cleanly, was not cancelled
  and did not hit the budget, no explicit work is open, and the panel's verdict is Achieved. No
  other input matters; in particular a stall level can neither grant nor withhold acceptance.
\<close>

theorem task_done_iff:
  "decide_after_round v = TaskDone \<longleftrightarrow>
     \<not> rv_user_cancel v \<and> \<not> rv_budget_hit v \<and> rv_round_ok v
     \<and> os_items (rv_open_items v) = [] \<and> rv_verification v = Achieved"
  by (simp add: decide_defs split: VerificationOutcome.splits StallLevel.splits)

text \<open>
  The gate pauses exactly for a cancel, then a budget hit, then a failed round (in
  that order of precedence), or, when another round would have been asked for, for a cut-off
  stall. A rejected verification never pauses a run that is still moving.
\<close>

theorem task_paused_iff:
  "decide_after_round v = TaskPaused reason \<longleftrightarrow>
     (if rv_user_cancel v then reason = UserCancel
      else if rv_budget_hit v then reason = BudgetExhausted
      else if \<not> rv_round_ok v then reason = InfraError
      else \<not> (os_items (rv_open_items v) = [] \<and> rv_verification v = Achieved)
           \<and> (\<exists>n r. rv_stall v = CutOff n r \<and> reason = NoProgress n r))"
  by (auto simp: decide_defs split: VerificationOutcome.splits StallLevel.splits)

text \<open>
  Every request for another round names its cause: a plain fix is asked for only when
  nothing explicit is open, the panel rejected, and the run is moving, and it carries the panel's
  findings; every continue and every re-approach carries the delta of the round that just ended,
  so no two rounds are prompted with the same text; and a re-approach is sent exactly at the
  re-approach level.
\<close>

theorem another_round_injection:
  assumes "decide_after_round v = RunAnotherRound injection"
  shows "case injection of
      Fix findings \<Rightarrow> os_items (rv_open_items v) = [] \<and> rv_verification v = Rejected findings
                      \<and> rv_stall v = Progressing
    | Continue text delta \<Rightarrow> delta = rv_delta v \<and> rv_stall v = Progressing
    | Reapproach n r text delta \<Rightarrow> delta = rv_delta v \<and> rv_stall v = LevelReapproach n r"
  using assms
  by (auto simp: decide_defs split: VerificationOutcome.splits StallLevel.splits if_splits)

definition rejected_view :: RoundEndView where
  "rejected_view = \<lparr>rv_round_ok = True, rv_open_items = acceptance_only, rv_user_cancel = False,
     rv_budget_hit = False, rv_verification = Rejected [plain_finding ''no test''],
     rv_stall = Progressing,
     rv_delta = snd (snd (observe acceptance_only Pending ra_default ledger_new))\<rparr>"

theorem another_round_injection_witness:
  "decide_after_round rejected_view = RunAnotherRound (Fix [plain_finding ''no test''])
   \<and> rv_verification rejected_view = Rejected [plain_finding ''no test'']"
proof -
  have "decide_after_round rejected_view = RunAnotherRound (Fix [plain_finding ''no test''])"
    by (simp add: rejected_view_def decide_defs acceptance_only_def)
  with another_round_injection [OF this] show ?thesis by simp
qed

subsection \<open>The machine's invariant\<close>

definition machine_consistent :: "TaskMachine \<Rightarrow> bool" where
  "machine_consistent m \<longleftrightarrow>
     (case tm_status m of
        StatusIdle \<Rightarrow> tm_phase m = PhaseIdle
      | StatusActive \<Rightarrow> tm_phase m = PhaseExecuting \<or> tm_phase m = PhaseFix
      | StatusDone \<Rightarrow> tm_phase m = PhaseDone
      | StatusPaused \<Rightarrow> tm_phase m = PhasePaused)
     \<and> (tm_pause_reason m \<noteq> None \<longleftrightarrow> tm_status m = StatusPaused)"

lemma machine_op_consistent: "machine_consistent m \<Longrightarrow> machine_consistent (machine_op_step c m)"
proof (cases c)
  case (Apply d)
  then show ?thesis by (cases d) (auto simp: machine_consistent_def split: Injection.splits)
qed (auto simp: machine_consistent_def machine_start_def mark_executing_def)

text \<open>
  In every reachable state of the task machine the phase, the status and the pause
  reason agree: Done and Paused in one are Done and Paused in the other, a pause reason is present
  exactly when the task is paused, and the historical phases CheckOpen and Audit are never entered.
\<close>

theorem machine_reachable_consistent: "machine_reachable m \<Longrightarrow> machine_consistent m"
proof (induction rule: machine_reachable.induct)
  case new
  show ?case by (simp add: machine_consistent_def machine_new_def)
next
  case (op m c)
  then show ?case by (simp add: machine_op_consistent)
qed

theorem machine_reachable_consistent_witness:
  "machine_consistent (machine_op_step (Apply (TaskPaused UserCancel)) (machine_op_step Start machine_new))"
  by (rule machine_reachable_consistent) (intro machine_reachable.intros)

text \<open>
  Only the orchestrator's TaskDone decision moves a task to Done: an operation that
  leaves the machine Done either is the application of TaskDone or was the no-op
  \<open>mark_executing\<close> on a machine that was Done already.
\<close>

theorem only_task_done_completes:
  "tm_status (machine_op_step c m) = StatusDone \<longleftrightarrow>
     c = Apply TaskDone \<or> (c = MarkExecuting \<and> tm_status m = StatusDone)"
proof (cases c)
  case (Apply d)
  then show ?thesis by (cases d) auto
qed (auto simp: machine_start_def mark_executing_def)

end
