(* ===== verification/Audit_Parse.thy ===== *)
theory Audit_Parse
  imports Doggy_Types
begin

text \<open>
  \<^verbatim>\<open>crates/codegen/xai-doggy-orchestrator/src/audit_parse.rs\<close>: extraction of the verdict object from
  the audit agent's free text and its conversion into a verdict. \<^verbatim>\<open>serde_json::from_str\<close> is code
  outside the repository: it is the parameter \<open>from_str\<close> of the parser, about which nothing is
  assumed. The scanner for a balanced object is proved equivalent to a grammar of brace-balanced
  text with string literals; the object that binds is characterised over that grammar; and only an explicit,
  finding-free pass in it gives a passing verdict.
\<close>

subsection \<open>JSON values\<close>

text \<open>
  The values \<^verbatim>\<open>serde_json::Value\<close> can take, as far as the parser looks at them: a number carries
  what \<^verbatim>\<open>as_u64\<close> answers, an object is a list of entries with distinct keys.
\<close>

datatype json =
    JNull
  | JBool bool
  | JNumber "nat option"
  | JString string
  | JArray "json list"
  | JObject "(string \<times> json) list"

fun as_object :: "json \<Rightarrow> (string \<times> json) list option" where
  "as_object (JObject obj) = Some obj"
| "as_object _ = None"

fun as_bool :: "json \<Rightarrow> bool option" where
  "as_bool (JBool b) = Some b"
| "as_bool _ = None"

fun as_str :: "json \<Rightarrow> string option" where
  "as_str (JString s) = Some s"
| "as_str _ = None"

datatype AuditParseError = NoJson | Invalid string

fun display_error :: "AuditParseError \<Rightarrow> string" where
  "display_error NoJson = ''audit agent response contained no JSON object''"
| "display_error (Invalid d) = ''audit agent JSON invalid: '' @ d"

subsection \<open>Finding the object\<close>

text \<open>
  The loop of \<^verbatim>\<open>extract_balanced_from\<close> over the bytes from the opening brace on, returning the number
  of bytes up to and including the closing brace that brings the depth back to zero.
\<close>

fun scan_balanced :: "int \<Rightarrow> bool \<Rightarrow> bool \<Rightarrow> string \<Rightarrow> nat option" where
  "scan_balanced depth in_str escape [] = None"
| "scan_balanced depth in_str escape (b # bs) =
     map_option Suc
       (if in_str then
          (if escape then scan_balanced depth True False bs
           else if b = BACKSLASH then scan_balanced depth True True bs
           else if b = DQ then scan_balanced depth False False bs
           else scan_balanced depth True False bs)
        else if b = DQ then scan_balanced depth True escape bs
        else if b = CHR ''{'' then scan_balanced (depth + 1) False escape bs
        else if b = CHR ''}'' then
          (if depth - 1 = 0 then Some 0 else scan_balanced (depth - 1) False escape bs)
        else scan_balanced depth False escape bs)"

definition extract_balanced_from :: "string \<Rightarrow> nat \<Rightarrow> string option" where
  "extract_balanced_from text start =
     (if length text \<le> start \<or> text ! start \<noteq> CHR ''{'' then None
      else map_option (\<lambda>n. take n (drop start text)) (scan_balanced 0 False False (drop start text)))"

function brace_loop :: "string \<Rightarrow> nat \<Rightarrow> string option \<Rightarrow> string option" where
  "brace_loop text i first =
     (if length text \<le> i then first
      else if text ! i \<noteq> CHR ''{'' then brace_loop text (i + 1) first
      else (case extract_balanced_from text i of
              Some obj \<Rightarrow>
                (let first = (if first = None then Some obj else first) in
                 if contains_sub ([DQ] @ ''pass'' @ [DQ]) obj then Some obj
                 else brace_loop text (i + max (length obj) 1) first)
            | None \<Rightarrow> brace_loop text (i + 1) first))"
  by pat_completeness auto
termination
  by (relation "measure (\<lambda>(text, i, first). length text - i)") (auto simp: max_def)

declare brace_loop.simps [simp del]

definition extract_audit_brace_object :: "string \<Rightarrow> string option" where
  "extract_audit_brace_object text = brace_loop text 0 None"

text \<open>The two fence markers \<^verbatim>\<open>extract_fenced_json\<close> tries, in its order.\<close>

datatype fence = JsonFence | PlainFence

fun marker_text :: "fence \<Rightarrow> string" where
  "marker_text JsonFence = [BACKTICK, BACKTICK, BACKTICK] @ ''json''"
| "marker_text PlainFence = [BACKTICK, BACKTICK, BACKTICK]"

definition strip_line_break :: "string \<Rightarrow> string" where
  "strip_line_break rest =
     (let rest = (case strip_prefix [CR] rest of Some r \<Rightarrow> r | None \<Rightarrow> rest)
      in case strip_prefix [NL] rest of Some r \<Rightarrow> r | None \<Rightarrow> rest)"

lemma marker_text_nonempty [simp]: "marker_text m \<noteq> []"
  by (cases m) simp_all

lemma fence_advance:
  assumes "find_sub (marker_text marker) (drop pos (to_ascii_lowercase t)) = Some rel"
  shows "length t - (pos + rel + length (marker_text marker)) < length t - pos"
proof -
  from assms have "starts_with (marker_text marker) (drop rel (drop pos (to_ascii_lowercase t)))"
    using find_sub_SomeD by blast
  then obtain r where "drop (rel + pos) (to_ascii_lowercase t) = marker_text marker @ r"
    by (auto simp: starts_with_iff)
  then have "drop (rel + pos) (to_ascii_lowercase t) \<noteq> []" by simp
  then have "pos < length t" by simp
  then show ?thesis by (cases marker) auto
qed

function fence_loop :: "string \<Rightarrow> fence \<Rightarrow> nat \<Rightarrow> string option" where
  "fence_loop text marker search_from =
     (case find_sub (marker_text marker) (drop search_from (to_ascii_lowercase text)) of
        None \<Rightarrow> None
      | Some rel \<Rightarrow>
          (let after_marker = search_from + rel + length (marker_text marker);
               rest = strip_line_break (drop after_marker text)
           in case find_sub [BACKTICK, BACKTICK, BACKTICK] rest of
                None \<Rightarrow> fence_loop text marker after_marker
              | Some end \<Rightarrow>
                  (let body = trim (take end rest) in
                   if starts_with ''{'' body then Some body
                   else fence_loop text marker after_marker)))"
  by pat_completeness auto
termination
  by (relation "measure (\<lambda>(text, marker, pos). length text - pos)") (auto dest: fence_advance)

declare fence_loop.simps [simp del]

definition extract_fenced_json :: "string \<Rightarrow> string option" where
  "extract_fenced_json text =
     (case fence_loop text JsonFence 0 of
        Some body \<Rightarrow> Some body
      | None \<Rightarrow> fence_loop text PlainFence 0)"

definition extract_json_object :: "string \<Rightarrow> string option" where
  "extract_json_object text =
     (case extract_fenced_json text of
        Some from_fence \<Rightarrow> Some from_fence
      | None \<Rightarrow> extract_audit_brace_object text)"

subsection \<open>Reading the verdict\<close>

definition first_integer :: "string \<Rightarrow> nat option" where
  "first_integer s =
     (case find_index is_ascii_digit s of
        None \<Rightarrow> None
      | Some start \<Rightarrow>
          (let rest = drop start s;
               end = (case find_index (\<lambda>c. \<not> is_ascii_digit c) rest of Some e \<Rightarrow> e | None \<Rightarrow> length rest)
           in parse_uint u64_max (take end rest)))"

definition criterion_from_json :: "json \<Rightarrow> nat option" where
  "criterion_from_json v =
     (case (case v of JNumber n \<Rightarrow> n | JString s \<Rightarrow> first_integer s | _ \<Rightarrow> None) of
        None \<Rightarrow> None
      | Some n \<Rightarrow> opt_filter (\<lambda>n. 0 < n) (if n \<le> u32_max then Some n else None))"

definition parse_finding :: "json \<Rightarrow> AuditParseError + AuditFinding" where
  "parse_finding v =
     (case as_object v of
        None \<Rightarrow> Inl (Invalid ''finding must be an object'')
      | Some obj \<Rightarrow>
          (case opt_filter (\<lambda>s. s \<noteq> []) (map_option trim (Option.bind (map_of obj ''message'') as_str)) of
             None \<Rightarrow> Inl (Invalid (''finding missing non-empty '' @ [BACKTICK] @ ''message'' @ [BACKTICK]))
           | Some message \<Rightarrow>
               Inr \<lparr>af_severity =
                      opt_filter (\<lambda>s. s \<noteq> []) (map_option trim (Option.bind (map_of obj ''severity'') as_str)),
                    af_criterion = Option.bind (map_of obj ''criterion'') criterion_from_json,
                    af_message = message\<rparr>))"

definition unexplained_finding :: AuditFinding where
  "unexplained_finding = \<lparr>af_severity = Some ''error'', af_criterion = None,
     af_message = ''Audit reported pass=false with no findings; treat as incomplete.''\<rparr>"

definition parse_findings :: "(string \<times> json) list \<Rightarrow> AuditParseError + AuditFinding list" where
  "parse_findings obj =
     (case map_of obj ''findings'' of
        None \<Rightarrow> Inr []
      | Some (JArray arr) \<Rightarrow> collect_results (map parse_finding arr)
      | Some _ \<Rightarrow> Inl (Invalid ([BACKTICK] @ ''findings'' @ [BACKTICK] @ '' must be an array'')))"

definition parse_audit_agent_output ::
    "(string \<Rightarrow> string + json) \<Rightarrow> string \<Rightarrow> AuditParseError + AuditVerdict" where
  "parse_audit_agent_output from_str text =
     (case extract_json_object text of
        None \<Rightarrow> Inl NoJson
      | Some json_str \<Rightarrow>
     (case from_str json_str of
        Inl e \<Rightarrow> Inl (Invalid e)
      | Inr value \<Rightarrow>
     (case as_object value of
        None \<Rightarrow> Inl (Invalid ''root must be an object'')
      | Some obj \<Rightarrow>
     (case Option.bind (map_of obj ''pass'') as_bool of
        None \<Rightarrow> Inl (Invalid (''missing boolean field '' @ [BACKTICK] @ ''pass'' @ [BACKTICK]))
      | Some pass \<Rightarrow>
     (case parse_findings obj of
        Inl e \<Rightarrow> Inl e
      | Inr findings \<Rightarrow>
          if pass \<and> findings \<noteq> [] then Inr (failed findings)
          else if pass then Inr passed
          else Inr (failed (if findings = [] then [unexplained_finding] else findings)))))))"

subsection \<open>The scanner against a grammar\<close>

text \<open>
  Reference grammar. \<open>str_body\<close> is the inside of a string literal, where a backslash takes the next
  byte with it; \<open>braces\<close> is text in which braces outside string literals are balanced.
\<close>

inductive str_body :: "string \<Rightarrow> bool" where
  str_nil: "str_body []"
| str_char: "c \<noteq> DQ \<Longrightarrow> c \<noteq> BACKSLASH \<Longrightarrow> str_body s \<Longrightarrow> str_body (c # s)"
| str_escape: "str_body s \<Longrightarrow> str_body (BACKSLASH # c # s)"

inductive braces :: "string \<Rightarrow> bool" where
  br_nil: "braces []"
| br_char: "c \<noteq> DQ \<Longrightarrow> c \<noteq> CHR ''{'' \<Longrightarrow> c \<noteq> CHR ''}'' \<Longrightarrow> braces s \<Longrightarrow> braces (c # s)"
| br_string: "str_body q \<Longrightarrow> braces s \<Longrightarrow> braces (DQ # q @ DQ # s)"
| br_nest: "braces s \<Longrightarrow> braces t \<Longrightarrow> braces (CHR ''{'' # s @ CHR ''}'' # t)"

text \<open>Text that closes \<open>k\<close> open braces, ending with the brace that closes the last one.\<close>

inductive closes :: "nat \<Rightarrow> string \<Rightarrow> bool" where
  closes_0: "closes 0 []"
| closes_Suc: "braces b \<Longrightarrow> closes k s \<Longrightarrow> closes (Suc k) (b @ CHR ''}'' # s)"

lemma scan_str_body:
  "str_body q \<Longrightarrow> scan_balanced d True False (q @ DQ # s) = map_option (\<lambda>n. Suc (n + length q)) (scan_balanced d False False s)"
  by (induction rule: str_body.induct) (auto simp: option.map_comp comp_def)

lemma scan_braces:
  "braces b \<Longrightarrow> 0 < d \<Longrightarrow> scan_balanced d False False (b @ s) = map_option (\<lambda>n. n + length b) (scan_balanced d False False s)"
proof (induction b arbitrary: d s rule: braces.induct)
  case (br_string q t)
  then show ?case by (simp add: scan_str_body option.map_comp comp_def algebra_simps)
qed (simp_all add: option.map_comp comp_def option.map_ident algebra_simps)

lemma scan_object: "braces b \<Longrightarrow> scan_balanced 0 False False (CHR ''{'' # b @ CHR ''}'' # s) = Some (length b + 2)"
  by (simp add: scan_braces)

lemma closes_SucE: "closes (Suc k) s \<Longrightarrow> \<exists>b r. s = b @ CHR ''}'' # r \<and> braces b \<and> closes k r"
  by (erule closes.cases) auto

lemma closes_char:
  "closes (Suc k) s \<Longrightarrow> c \<noteq> DQ \<Longrightarrow> c \<noteq> CHR ''{'' \<Longrightarrow> c \<noteq> CHR ''}'' \<Longrightarrow> closes (Suc k) (c # s)"
proof -
  assume c: "c \<noteq> DQ" "c \<noteq> CHR ''{''" "c \<noteq> CHR ''}''" and "closes (Suc k) s"
  then obtain b r where "s = b @ CHR ''}'' # r" "braces b" "closes k r" using closes_SucE by blast
  with c closes_Suc [of "c # b" k r] show ?thesis by (simp add: br_char)
qed

lemma closes_string: "str_body q \<Longrightarrow> closes (Suc k) s \<Longrightarrow> closes (Suc k) (DQ # q @ DQ # s)"
proof -
  assume q: "str_body q" and "closes (Suc k) s"
  then obtain b r where "s = b @ CHR ''}'' # r" "braces b" "closes k r" using closes_SucE by blast
  with q closes_Suc [of "DQ # q @ DQ # b" k r] show ?thesis by (simp add: br_string)
qed

lemma closes_nest: "closes (Suc (Suc k)) s \<Longrightarrow> closes (Suc k) (CHR ''{'' # s)"
proof -
  assume "closes (Suc (Suc k)) s"
  then obtain b r1 where "s = b @ CHR ''}'' # r1" "braces b" "closes (Suc k) r1" using closes_SucE by blast
  moreover from this(3) obtain b' r where "r1 = b' @ CHR ''}'' # r" "braces b'" "closes k r"
    using closes_SucE by blast
  ultimately have "s = b @ CHR ''}'' # b' @ CHR ''}'' # r" "braces b" "braces b'" "closes k r" by simp_all
  with closes_Suc [of "CHR ''{'' # b @ CHR ''}'' # b'" k r] show ?thesis by (simp add: br_nest)
qed

lemma scan_sound:
  "scan_balanced (int (Suc k)) False False s = Some n \<Longrightarrow> n \<le> length s \<and> closes (Suc k) (take n s)"
  "scan_balanced (int (Suc k)) True False s = Some n \<Longrightarrow>
     n \<le> length s \<and> (\<exists>q r. take n s = q @ DQ # r \<and> str_body q \<and> closes (Suc k) r)"
  "scan_balanced (int (Suc k)) True True s = Some n \<Longrightarrow>
     n \<le> length s \<and> (\<exists>c q r. take n s = c # q @ DQ # r \<and> str_body q \<and> closes (Suc k) r)"
proof (induction s arbitrary: k n)
  case (Cons b s)
  {
    case 1
    consider "b = DQ" | "b = CHR ''{''" | "b = CHR ''}''" | "b \<noteq> DQ" "b \<noteq> CHR ''{''" "b \<noteq> CHR ''}''"
      by blast
    then show ?case
    proof cases
      assume b: "b = DQ"
      with 1 obtain m where m: "scan_balanced (int (Suc k)) True False s = Some m" "n = Suc m" by auto
      from Cons.IH(2) [OF m(1)] b m(2) show ?thesis by (auto intro: closes_string)
    next
      assume b: "b = CHR ''{''"
      with 1 obtain m where m: "scan_balanced (int (Suc (Suc k))) False False s = Some m" "n = Suc m"
        by (auto simp: algebra_simps)
      from Cons.IH(1) [OF m(1)] b m(2) show ?thesis by (auto intro: closes_nest)
    next
      assume b: "b = CHR ''}''"
      show ?thesis
      proof (cases k)
        case 0
        with 1 b show ?thesis using closes_Suc [OF br_nil closes_0] by auto
      next
        case (Suc j)
        with 1 b obtain m where m: "scan_balanced (int (Suc j)) False False s = Some m" "n = Suc m" by auto
        from Cons.IH(1) [OF m(1)] b m(2) Suc closes_Suc [OF br_nil, of k "take m s"] show ?thesis by auto
      qed
    next
      assume b: "b \<noteq> DQ" "b \<noteq> CHR ''{''" "b \<noteq> CHR ''}''"
      with 1 obtain m where m: "scan_balanced (int (Suc k)) False False s = Some m" "n = Suc m" by auto
      from Cons.IH(1) [OF m(1)] b m(2) show ?thesis by (auto intro: closes_char)
    qed
  next
    case 2
    consider "b = BACKSLASH" | "b = DQ" | "b \<noteq> BACKSLASH" "b \<noteq> DQ" by blast
    then show ?case
    proof cases
      assume b: "b = BACKSLASH"
      with 2 obtain m where m: "scan_balanced (int (Suc k)) True True s = Some m" "n = Suc m" by auto
      from Cons.IH(3) [OF m(1)] obtain c q r
        where r: "m \<le> length s" "take m s = c # q @ DQ # r" "str_body q" "closes (Suc k) r" by blast
      then have "take n (b # s) = (BACKSLASH # c # q) @ DQ # r" "str_body (BACKSLASH # c # q)"
        using b m(2) str_escape by auto
      with r m(2) show ?thesis by (metis Suc_le_mono length_Cons)
    next
      assume b: "b = DQ"
      with 2 obtain m where m: "scan_balanced (int (Suc k)) False False s = Some m" "n = Suc m" by auto
      from Cons.IH(1) [OF m(1)] b m(2) str_nil show ?thesis by fastforce
    next
      assume b: "b \<noteq> BACKSLASH" "b \<noteq> DQ"
      with 2 obtain m where m: "scan_balanced (int (Suc k)) True False s = Some m" "n = Suc m" by auto
      from Cons.IH(2) [OF m(1)] obtain q r
        where r: "m \<le> length s" "take m s = q @ DQ # r" "str_body q" "closes (Suc k) r" by blast
      then have "take n (b # s) = (b # q) @ DQ # r" "str_body (b # q)" using b m(2) str_char by auto
      with r m(2) show ?thesis by (metis Suc_le_mono length_Cons)
    qed
  next
    case 3
    then obtain m where m: "scan_balanced (int (Suc k)) True False s = Some m" "n = Suc m" by auto
    from Cons.IH(2) [OF m(1)] m(2) show ?case by auto
  }
qed simp_all

lemma scan_object_sound:
  assumes "scan_balanced 0 False False (CHR ''{'' # s) = Some n"
  shows "\<exists>b r. s = b @ CHR ''}'' # r \<and> braces b \<and> n = length b + 2"
proof -
  from assms obtain m where m: "scan_balanced (int (Suc 0)) False False s = Some m" "n = Suc m" by auto
  from scan_sound(1) [OF m(1)] obtain b r where "take m s = b @ CHR ''}'' # r" "braces b" "closes 0 r" "m \<le> length s"
    using closes_SucE by blast
  moreover from this(3) have "r = []" by (cases rule: closes.cases) auto
  ultimately have t: "take m s = b @ ''}''" "braces b" "m \<le> length s" by auto
  have "m = length (take m s)" using t(3) by simp
  then have "m = length b + 1" unfolding t(1) by simp
  moreover have "s = b @ CHR ''}'' # drop m s"
    using append_take_drop_id [of m s] t(1) by (metis append.assoc append_Cons append_Nil)
  ultimately show ?thesis using m(2) t(2) by auto
qed

lemma extract_balanced_from_object:
  assumes "braces body" "start < length t" "drop start t = (''{'' @ body @ ''}'') @ rest"
  shows "extract_balanced_from t start = Some (''{'' @ body @ ''}'')"
proof -
  have "t ! start = CHR ''{''" using assms(2,3) by (metis append_Cons Cons_nth_drop_Suc list.inject)
  with assms show ?thesis
    using scan_object [OF assms(1), of rest] by (simp add: extract_balanced_from_def del: scan_balanced.simps)
qed

lemma balanced_object_iff:
  "extract_balanced_from t start = Some obj \<longleftrightarrow>
     (\<exists>body rest. obj = ''{'' @ body @ ''}'' \<and> braces body \<and> start < length t \<and> drop start t = obj @ rest)"
proof
  assume l: "extract_balanced_from t start = Some obj"
  then have st: "start < length t" "t ! start = CHR ''{''"
    by (auto simp: extract_balanced_from_def split: if_splits)
  then have d: "drop start t = CHR ''{'' # drop (Suc start) t" by (simp add: Cons_nth_drop_Suc [symmetric])
  from l st obtain n where n: "scan_balanced 0 False False (drop start t) = Some n" "obj = take n (drop start t)"
    by (auto simp: extract_balanced_from_def)
  with d obtain b r where "drop (Suc start) t = b @ CHR ''}'' # r" "braces b" "n = length b + 2"
    using scan_object_sound by metis
  with d n(2) st show "\<exists>body rest. obj = ''{'' @ body @ ''}'' \<and> braces body \<and> start < length t \<and> drop start t = obj @ rest"
    by auto
qed (use extract_balanced_from_object in fastforce)

text \<open>
  Property C11. The scanner for a balanced object is equivalent to a grammar. \<open>extract_balanced_from\<close> finds an object at
  \<open>start\<close> exactly when the text there begins with an object of the grammar (braces balanced outside string literals, string
  literals closed, a backslash in a literal taking the next byte with it), and what it returns is that object, whatever
  braces and escaped quotes its string literals hold and whatever follows it.
\<close>

theorem extract_balanced_from_iff:
  "extract_balanced_from t start = Some obj \<longleftrightarrow>
     (\<exists>body rest. obj = ''{'' @ body @ ''}'' \<and> braces body \<and> start < length t \<and> drop start t = obj @ rest)"
  by (rule balanced_object_iff)

subsection \<open>What the extraction returns\<close>

lemma brace_loop_skip: "i \<le> j \<Longrightarrow> j \<le> length t \<Longrightarrow> \<forall>k\<in>{i..<j}. t ! k \<noteq> CHR ''{'' \<Longrightarrow> brace_loop t i first = brace_loop t j first"
proof (induction "j - i" arbitrary: i)
  case (Suc n)
  then have "brace_loop t (Suc i) first = brace_loop t j first" by auto
  moreover have "brace_loop t i first = brace_loop t (Suc i) first"
    using Suc.hyps(2) Suc.prems by (subst brace_loop.simps) auto
  ultimately show ?case by simp
qed simp

lemma strip_line_break_suffix: "\<exists>p. rest = p @ strip_line_break rest"
  by (auto simp: strip_line_break_def Let_def split: option.splits)

lemma fence_loop_none: "\<not> contains_sub [BACKTICK, BACKTICK, BACKTICK] t \<Longrightarrow> fence_loop t m pos = None"
proof (induction t m pos rule: fence_loop.induct)
  case (1 t m pos)
  have "find_sub [BACKTICK, BACKTICK, BACKTICK] (strip_line_break (drop n t)) = None" for n
  proof -
    obtain p where p: "drop n t = p @ strip_line_break (drop n t)" using strip_line_break_suffix by blast
    have t: "t = (take n t @ p) @ strip_line_break (drop n t)" using append_take_drop_id [of n t] p by simp
    have "strip_line_break (drop n t) \<noteq> a @ [BACKTICK, BACKTICK, BACKTICK] @ b" for a b
    proof
      assume "strip_line_break (drop n t) = a @ [BACKTICK, BACKTICK, BACKTICK] @ b"
      with t have "t = (take n t @ p @ a) @ [BACKTICK, BACKTICK, BACKTICK] @ b" by (metis append.assoc)
      with 1(3) show False unfolding contains_sub_iff by blast
    qed
    then show ?thesis by (simp add: find_sub_None_iff)
  qed
  with 1 show ?case by (subst fence_loop.simps) (auto split: option.split)
qed

text \<open>
  A verdict embedded in narration is found whole: when the agent's text holds no code
  fence and no brace before the object, and the object mentions the key \<open>pass\<close>, the extraction
  returns exactly that object, with the nested finding objects inside it, whatever follows.
\<close>

theorem extract_embedded_verdict:
  assumes "\<not> contains_sub [BACKTICK, BACKTICK, BACKTICK] (before @ obj @ after)"
    and "CHR ''{'' \<notin> set before"
    and "obj = ''{'' @ body @ ''}''" and "braces body"
    and "contains_sub ([DQ] @ ''pass'' @ [DQ]) obj"
  shows "extract_json_object (before @ obj @ after) = Some obj"
proof -
  let ?t = "before @ obj @ after"
  have "extract_balanced_from ?t (length before) = Some obj"
    using extract_balanced_from_object [OF assms(4), of "length before" ?t after] assms(3) by simp
  then have "brace_loop ?t (length before) None = Some obj"
    using assms(3,5) by (subst brace_loop.simps) (simp add: Let_def)
  moreover have "brace_loop ?t 0 None = brace_loop ?t (length before) None"
    using assms(2) by (intro brace_loop_skip) (auto simp: nth_append in_set_conv_nth)
  ultimately show ?thesis
    using assms(1) by (simp add: extract_json_object_def extract_fenced_json_def fence_loop_none extract_audit_brace_object_def)
qed

definition sample_verdict :: string where
  "sample_verdict = ''{'' @ ([DQ] @ ''pass'' @ [DQ] @ '': true'') @ ''}''"

lemma sample_braces: "braces ([DQ] @ ''pass'' @ [DQ] @ '': true'')"
proof -
  have "str_body ''pass''" by (intro str_body.intros) simp_all
  moreover have "braces '': true''" by (intro br_nil br_char) simp_all
  ultimately show ?thesis using br_string by fastforce
qed

theorem extract_embedded_verdict_witness:
  "extract_json_object (''I checked it. '' @ sample_verdict @ '' Bye {}'') = Some sample_verdict"
proof (rule extract_embedded_verdict [OF _ _ _ sample_braces])
  show "\<not> contains_sub [BACKTICK, BACKTICK, BACKTICK] (''I checked it. '' @ sample_verdict @ '' Bye {}'')"
    by code_simp
  show "contains_sub ([DQ] @ ''pass'' @ [DQ]) sample_verdict" by code_simp
qed (simp_all add: sample_verdict_def)

subsection \<open>What passes\<close>

definition finding_ok :: "AuditFinding \<Rightarrow> bool" where
  "finding_ok f \<longleftrightarrow> af_message f \<noteq> [] \<and> trim (af_message f) = af_message f
     \<and> (\<forall>c. af_criterion f = Some c \<longrightarrow> 1 \<le> c \<and> c \<le> u32_max)"

lemma criterion_from_json_range: "criterion_from_json v = Some c \<Longrightarrow> Suc 0 \<le> c \<and> c \<le> u32_max"
  unfolding criterion_from_json_def by (auto simp: opt_filter_Some_iff split: option.splits if_splits)

lemma parse_finding_ok: "parse_finding v = Inr f \<Longrightarrow> finding_ok f"
  by (auto simp: parse_finding_def finding_ok_def opt_filter_Some_iff bind_eq_Some_conv
      split: option.splits dest: criterion_from_json_range)

lemma as_object_Some_iff: "as_object v = Some obj \<longleftrightarrow> v = JObject obj"
  by (cases v) auto

lemma as_bool_Some_iff: "as_bool v = Some b \<longleftrightarrow> v = JBool b"
  by (cases v) auto

lemma parse_findings_Nil_iff:
  "parse_findings obj = Inr [] \<longleftrightarrow> map_of obj ''findings'' \<in> {None, Some (JArray [])}"
  by (auto simp: parse_findings_def collect_results_Inr_iff split: option.splits json.splits)

lemma parse_findings_ok: "parse_findings obj = Inr fs \<Longrightarrow> list_all finding_ok fs"
  unfolding parse_findings_def list_all_iff
  by (auto split: option.splits json.splits dest: collect_results_map_InrD parse_finding_ok)

lemma parse_audit_Inr_iff:
  "parse_audit_agent_output from_str t = Inr v \<longleftrightarrow>
     (\<exists>json_str obj pass fs. extract_json_object t = Some json_str \<and> from_str json_str = Inr (JObject obj)
        \<and> map_of obj ''pass'' = Some (JBool pass) \<and> parse_findings obj = Inr fs
        \<and> v = (if pass \<and> fs = [] then passed
               else failed (if fs = [] then [unexplained_finding] else fs)))"
  unfolding parse_audit_agent_output_def
  by (auto simp: as_object_Some_iff as_bool_Some_iff bind_eq_Some_conv split: option.splits sum.splits if_splits)

text \<open>
  Reference reading of a reply without code fences: scanned from left to right it is narration with the brace-balanced objects
  that stand in it, none of them inside another. The object that binds is the first one that mentions the key \<open>pass\<close>, and the
  first object of all when none does.
\<close>

inductive narration :: "string \<Rightarrow> string list \<Rightarrow> bool" where
  nar_end: "narration [] []"
| nar_object: "braces b \<Longrightarrow> narration s os \<Longrightarrow> narration ((''{'' @ b @ ''}'') @ s) ((''{'' @ b @ ''}'') # os)"
| nar_char: "\<not> (\<exists>b r. braces b \<and> c # s = (''{'' @ b @ ''}'') @ r) \<Longrightarrow> narration s os \<Longrightarrow> narration (c # s) os"

definition mentions_pass :: "string \<Rightarrow> bool" where
  "mentions_pass obj \<longleftrightarrow> contains_sub ([DQ] @ ''pass'' @ [DQ]) obj"

definition binding_object :: "string list \<Rightarrow> string option" where
  "binding_object os =
     (case find mentions_pass os of Some obj \<Rightarrow> Some obj | None \<Rightarrow> if os = [] then None else Some (hd os))"

lemma narration_total: "\<exists>os. narration t os"
proof (induction t rule: length_induct)
  case (1 t)
  show ?case
  proof (cases "\<exists>b r. braces b \<and> t = (''{'' @ b @ ''}'') @ r")
    case True
    then obtain b r where t: "braces b" "t = (''{'' @ b @ ''}'') @ r" by blast
    with 1 obtain os where "narration r os" by (metis length_append less_add_same_cancel2 length_greater_0_conv append_is_Nil_conv not_Cons_self2)
    with t show ?thesis using nar_object by blast
  next
    case False
    then show ?thesis using 1 by (cases t) (fastforce intro: nar_end nar_char)+
  qed
qed

lemma brace_loop_binding:
  "narration s os \<Longrightarrow> drop i t = s \<Longrightarrow> i \<le> length t \<Longrightarrow> brace_loop t i first
     = (case find mentions_pass os of Some obj \<Rightarrow> Some obj
        | None \<Rightarrow> if first = None \<and> os \<noteq> [] then Some (hd os) else first)"
proof (induction arbitrary: i first rule: narration.induct)
  case nar_end
  then show ?case by (subst brace_loop.simps) simp
next
  case (nar_object b s os)
  let ?o = "''{'' @ b @ ''}''"
  have i: "i < length t" using nar_object.prems by (cases "i = length t") auto
  have o: "extract_balanced_from t i = Some ?o" using extract_balanced_from_object [OF nar_object.hyps(1) i] nar_object.prems(1) by blast
  have c: "t ! i = CHR ''{''" using nar_object.prems(1) i by (metis append_Cons nth_via_drop)
  have "drop (i + length ?o) t = drop (length ?o) (drop i t)" by (simp only: drop_drop add.commute)
  then have d: "drop (i + length ?o) t = s" by (simp only: nar_object.prems(1)) simp
  have "length (drop i t) = length ?o + length s" by (simp only: nar_object.prems(1) length_append)
  then have l: "i + length ?o \<le> length t" using i by simp
  have m: "max (length ?o) 1 = length ?o" by simp
  have "brace_loop t i first = (if mentions_pass ?o then Some ?o
      else brace_loop t (i + length ?o) (if first = None then Some ?o else first))"
    unfolding mentions_pass_def by (subst brace_loop.simps) (use i o c m in \<open>simp only: Let_def option.case if_False not_le, simp\<close>)
  also have "\<dots> = (case find mentions_pass (?o # os) of Some obj \<Rightarrow> Some obj
        | None \<Rightarrow> if first = None \<and> ?o # os \<noteq> [] then Some (hd (?o # os)) else first)"
    using nar_object.IH [OF d l, of "if first = None then Some ?o else first"]
    by (cases first) (auto split: option.split)
  finally show ?case .
next
  case (nar_char c s os)
  have i: "i < length t" using nar_char.prems by (cases "i = length t") auto
  have "extract_balanced_from t i = None"
    using nar_char.hyps(1) nar_char.prems(1) balanced_object_iff [of t i] by (metis not_None_eq)
  then have "brace_loop t i first = brace_loop t (Suc i) first" by (subst brace_loop.simps) (use i in simp)
  moreover have "drop (Suc i) t = s" using nar_char.prems(1) by (metis drop_Suc list.sel(3) tl_drop)
  ultimately show ?case using nar_char.IH [of "Suc i"] i by simp
qed

lemma extract_binding_object:
  assumes "\<not> contains_sub [BACKTICK, BACKTICK, BACKTICK] t" and "narration t os"
  shows "extract_json_object t = binding_object os"
  using brace_loop_binding [OF assms(2), of 0 t None] fence_loop_none [OF assms(1)]
  by (simp add: extract_json_object_def extract_fenced_json_def extract_audit_brace_object_def binding_object_def)

text \<open>The first code fence of a reply opens a block marked as JSON, and this is what stands in it.\<close>

abbreviation fence_mark :: string where "fence_mark \<equiv> [BACKTICK, BACKTICK, BACKTICK]"

definition first_fence_holds :: "string \<Rightarrow> string \<Rightarrow> bool" where
  "first_fence_holds t content \<longleftrightarrow>
     (\<exists>before after. t = before @ fence_mark @ ''json'' @ [NL] @ content @ fence_mark @ after
        \<and> find_sub fence_mark t = Some (length before) \<and> find_sub fence_mark (content @ fence_mark @ after) = Some (length content))"

lemma find_sub_longer: "find_sub p s = Some i \<Longrightarrow> starts_with (p @ q) (drop i s) \<Longrightarrow> find_sub (p @ q) s = Some i"
proof (induction s arbitrary: i)
  case (Cons c s)
  then show ?case by (cases i) (auto simp: starts_with_iff split: if_splits)
qed (auto simp: starts_with_iff split: if_splits)

lemma lower_backtick: "ascii_lower c = BACKTICK \<longleftrightarrow> c = BACKTICK"
proof -
  have "char_of (of_char c + 32 :: nat) \<noteq> BACKTICK" if "65 \<le> (of_char c :: nat)" "(of_char c :: nat) \<le> 90"
  proof
    assume "char_of (of_char c + 32 :: nat) = BACKTICK"
    then have "(of_char (char_of (of_char c + 32 :: nat)) :: nat) = of_char BACKTICK" by simp
    moreover have "(of_char BACKTICK :: nat) = 96" by simp
    ultimately show False using that by simp
  qed
  then show ?thesis by (auto simp: ascii_lower_def)
qed

lemma find_fence_lower: "find_sub fence_mark (to_ascii_lowercase s) = find_sub fence_mark s"
proof (induction s)
  case (Cons c s)
  have "starts_with fence_mark (map ascii_lower t) = starts_with fence_mark t" for t
    by (auto simp: starts_with_iff append_eq_Cons_conv map_eq_Cons_conv lower_backtick Cons_eq_map_conv)
  from this [of "c # s"] show ?case using Cons by (simp add: to_ascii_lowercase_def)
qed (simp add: to_ascii_lowercase_def)

lemma extract_first_fence:
  assumes "first_fence_holds t content" and "starts_with ''{'' (trim content)"
  shows "extract_json_object t = Some (trim content)"
proof -
  obtain before after where t: "t = before @ fence_mark @ ''json'' @ [NL] @ content @ fence_mark @ after"
    and f: "find_sub fence_mark t = Some (length before)" "find_sub fence_mark (content @ fence_mark @ after) = Some (length content)"
    using assms(1) unfolding first_fence_holds_def by blast
  have low: "to_ascii_lowercase (fence_mark @ ''json'') = fence_mark @ ''json''" by code_simp
  have "drop (length before) (to_ascii_lowercase t) = to_ascii_lowercase (fence_mark @ ''json'') @ to_ascii_lowercase ([NL] @ content @ fence_mark @ after)"
    unfolding t to_ascii_lowercase_def by simp
  then have "starts_with (fence_mark @ ''json'') (drop (length before) (to_ascii_lowercase t))"
    unfolding low starts_with_iff by blast
  then have m: "find_sub (marker_text JsonFence) (to_ascii_lowercase t) = Some (length before)"
    using find_sub_longer [of fence_mark "to_ascii_lowercase t" "length before" "''json''"] f(1) by (simp add: find_fence_lower)
  have r: "strip_line_break (drop (length before + length (marker_text JsonFence)) t) = content @ fence_mark @ after"
    unfolding t by (simp add: strip_line_break_def)
  have "fence_loop t JsonFence 0 = Some (trim content)"
    using m r f(2) assms(2) by (subst fence_loop.simps) (simp add: Let_def del: marker_text.simps)
  then show ?thesis by (simp add: extract_json_object_def extract_fenced_json_def)
qed

text \<open>
  Property C37. What passes an audit. The parser answers a passing verdict exactly when the extracted text parses to an object
  whose \<open>pass\<close> is the boolean true and whose \<open>findings\<close> are absent or the empty array: text that does not parse, a missing
  or non-boolean \<open>pass\<close>, and a pass with findings never pass. In a reply without code fences the extracted text is the binding object:
  the first top-level object that mentions the key \<open>pass\<close>, and the first object when none does. It is the first such
  object and not the last, which the documentation of the parser names, so that an early passing object outweighs a later
  failing one. In a reply whose first code fence opens a block marked as JSON that holds an object, it is the content of that block.
\<close>

theorem audit_pass_iff:
  "((\<exists>v. parse_audit_agent_output from_str t = Inr v \<and> av_pass v) \<longleftrightarrow>
     (\<exists>json_str obj. extract_json_object t = Some json_str \<and> from_str json_str = Inr (JObject obj)
        \<and> map_of obj ''pass'' = Some (JBool True)
        \<and> map_of obj ''findings'' \<in> {None, Some (JArray [])}))
   \<and> (\<not> contains_sub [BACKTICK, BACKTICK, BACKTICK] t \<and> narration t os \<longrightarrow> extract_json_object t = binding_object os)
   \<and> (first_fence_holds t content \<and> starts_with ''{'' (trim content) \<longrightarrow> extract_json_object t = Some (trim content))"
  using extract_binding_object [of t os] extract_first_fence [of t content]
  unfolding parse_audit_Inr_iff parse_findings_Nil_iff [symmetric]
proof (intro conjI iffI, goal_cases)
  case 1
  then show ?case by (auto simp: passed_def failed_def split: if_splits)
next
  case 2
  then show ?case by (intro exI [of _ passed]) (auto simp: passed_def)
qed blast+

text \<open>A reply whose first object passes and whose last object fails: the first one binds, and the audit passes.\<close>

definition sample_failure :: string where
  "sample_failure = ''{'' @ ([DQ] @ ''pass'' @ [DQ] @ '': false'') @ ''}''"

definition sample_parser :: "string \<Rightarrow> string + json" where
  "sample_parser s = (if s = sample_verdict then Inr (JObject [(''pass'', JBool True)])
     else if s = sample_failure then Inr (JObject [(''pass'', JBool False)]) else Inl ''syntax'')"

lemma sample_narration: "narration (sample_verdict @ sample_failure) [sample_verdict, sample_failure]"
proof -
  have "str_body ''pass''" by (intro str_body.intros) simp_all
  moreover have "braces '': false''" by (intro br_nil br_char) simp_all
  ultimately have "braces ([DQ] @ ''pass'' @ [DQ] @ '': false'')" using br_string by fastforce
  from nar_object [OF sample_braces nar_object [OF this nar_end]] show ?thesis
    unfolding sample_verdict_def sample_failure_def by (simp only: append_Nil2)
qed

theorem audit_pass_iff_witness:
  "\<exists>v. parse_audit_agent_output sample_parser (sample_verdict @ sample_failure) = Inr v \<and> av_pass v"
proof -
  note iff = audit_pass_iff [of sample_parser "sample_verdict @ sample_failure" "[sample_verdict, sample_failure]" "[]"]
  have "\<not> contains_sub [BACKTICK, BACKTICK, BACKTICK] (sample_verdict @ sample_failure)" by code_simp
  then have "extract_json_object (sample_verdict @ sample_failure) = binding_object [sample_verdict, sample_failure]"
    using iff sample_narration by blast
  moreover have "binding_object [sample_verdict, sample_failure] = Some sample_verdict" by code_simp
  ultimately show ?thesis using iff by (simp add: sample_parser_def)
qed

text \<open>
  Verdicts are well formed: a verdict passes exactly when it has no findings, so a
  rejection always says why, and every finding has a non-empty trimmed message and a criterion, when
  it has one, that is a positive 32-bit number.
\<close>

theorem audit_verdict_wf:
  assumes "parse_audit_agent_output from_str t = Inr v"
  shows "(av_pass v \<longleftrightarrow> av_findings v = []) \<and> list_all finding_ok (av_findings v)"
proof -
  have "finding_ok unexplained_finding"
    by (simp add: finding_ok_def unexplained_finding_def) code_simp
  with assms show ?thesis
    unfolding parse_audit_Inr_iff by (auto simp: passed_def failed_def split: if_splits dest: parse_findings_ok)
qed

theorem audit_verdict_wf_witness:
  "list_all finding_ok (av_findings (failed [unexplained_finding]))"
proof -
  have "parse_audit_agent_output (\<lambda>_. Inr (JObject [(''pass'', JBool False)])) sample_verdict
          = Inr (failed [unexplained_finding])"
    by code_simp
  from audit_verdict_wf [OF this] show ?thesis by simp
qed

end
