(* ===== verification/Plan_Md.thy ===== *)
theory Plan_Md
  imports Rust_Prelude
begin

text \<open>
  \<^verbatim>\<open>crates/codegen/xai-grok-shell/src/session/goal_plan_md.rs\<close> (sections and table rows of the goal
  plan) and \<^verbatim>\<open>goal_next_step.rs\<close> (the next unchecked item of the plan). Every primitive here is
  shown to depend on a line only through its trimmed text, which is what lets the checklist
  rewriter normalise line ends without changing what the plan says.
\<close>

subsection \<open>Headers and table rows (goal\_plan\_md.rs)\<close>

definition is_section_header :: "string \<Rightarrow> string \<Rightarrow> bool" where
  "is_section_header line name =
     (let trimmed = trim_start line in
      starts_with ''#'' trimmed
      \<and> eq_ignore_ascii_case (trim (trim_start_char (CHR ''#'') trimmed)) name)"

definition header_level :: "string \<Rightarrow> nat" where
  "header_level line = length (takeWhile (\<lambda>c. c = CHR ''#'') (trim_start line))"

definition is_any_header :: "string \<Rightarrow> bool" where
  "is_any_header line = starts_with ''#'' (trim_start line)"

definition table_cells :: "string \<Rightarrow> string list" where
  "table_cells line =
     (let trimmed = trim line in
      if \<not> starts_with ''|'' trimmed then []
      else map trim (split_on (CHR ''|'') (trim_matches (CHR ''|'') trimmed)))"

definition is_separator_row :: "string list \<Rightarrow> bool" where
  "is_separator_row cells =
     (cells \<noteq> [] \<and> list_all (\<lambda>c. let s = trim c in
        s \<noteq> [] \<and> list_all (\<lambda>ch. ch = CHR ''-'' \<or> ch = CHR '':'' \<or> ch = CHR '' '') s) cells)"

text \<open>The loop of \<^verbatim>\<open>section_lines\<close>; the option is the level of the open section.\<close>

fun section_loop :: "string \<Rightarrow> nat option \<Rightarrow> string list \<Rightarrow> string list" where
  "section_loop name level [] = []"
| "section_loop name None (line # ls) =
     section_loop name (if is_section_header line name then Some (header_level line) else None) ls"
| "section_loop name (Some open) (line # ls) =
     (if is_any_header line \<and> header_level line \<le> open then []
      else line # section_loop name (Some open) ls)"

definition section_lines :: "string \<Rightarrow> string \<Rightarrow> string list" where
  "section_lines body name = section_loop name None (lines body)"

subsection \<open>A line counts only up to trimming\<close>

lemma plain_hash [simp]: "plain (CHR ''#'')" and plain_pipe [simp]: "plain (CHR ''|'')"
  by (simp_all add: plain_def ascii_ws_def wide_ws_def)

lemma trim_eq_trim_end: "trim s = trim_end (trim_start s)"
  by (simp add: trim_def)

lemma takeWhile_absent: "c \<notin> set ys \<Longrightarrow> takeWhile (\<lambda>x. x = c) (xs @ ys) = takeWhile (\<lambda>x. x = c) xs"
  by (induction xs) (auto simp: takeWhile_eq_Nil_iff hd_in_set)

lemma dropWhile_absent: "c \<notin> set ys \<Longrightarrow> dropWhile (\<lambda>x. x = c) (xs @ ys) = dropWhile (\<lambda>x. x = c) xs @ ys"
  by (induction xs) (auto simp: dropWhile_eq_self_iff)

lemma trim_start_tail:
  obtains ws where "trim_start l = trim l @ concat ws" "\<forall>w\<in>set ws. is_ws_enc w" "CHR ''#'' \<notin> set (concat ws)"
proof -
  obtain ws where ws: "trim_start l = trim_end (trim_start l) @ concat ws" "\<forall>w\<in>set ws. is_ws_enc w"
    by (rule trim_end_cases)
  then have "CHR ''#'' \<notin> set (concat ws)" using plain_not_in_ws plain_hash by fastforce
  with that ws show ?thesis by (simp add: trim_eq_trim_end)
qed

lemma header_level_trim: "header_level l = length (takeWhile (\<lambda>c. c = CHR ''#'') (trim l))"
  by (rule trim_start_tail [of l]) (simp add: header_level_def takeWhile_absent)

lemma is_any_header_level: "is_any_header l \<longleftrightarrow> 0 < header_level l"
  unfolding is_any_header_def header_level_def by (cases "trim_start l") auto

lemma is_section_header_trim:
  "is_section_header l name \<longleftrightarrow>
     0 < header_level l \<and> eq_ignore_ascii_case (trim (dropWhile (\<lambda>c. c = CHR ''#'') (trim l))) name"
proof -
  obtain ws where ws: "trim_start l = trim l @ concat ws" "\<forall>w\<in>set ws. is_ws_enc w" "CHR ''#'' \<notin> set (concat ws)"
    by (rule trim_start_tail)
  have "trim (dropWhile (\<lambda>c. c = CHR ''#'') (trim_start l)) = trim (dropWhile (\<lambda>c. c = CHR ''#'') (trim l))"
    unfolding ws(1) by (simp add: dropWhile_absent [OF ws(3)] trim_append_concat_ws [OF ws(2)])
  then show ?thesis
    by (simp add: is_section_header_def trim_start_char_def Let_def is_any_header_level [symmetric] is_any_header_def)
qed

lemma strip_cr_headers [simp]:
  "header_level (strip_cr l) = header_level l"
  "is_any_header (strip_cr l) = is_any_header l"
  "is_section_header (strip_cr l) name = is_section_header l name"
  by (simp_all add: header_level_trim is_any_header_level is_section_header_trim)

lemma strip_cr_cells [simp]: "table_cells (strip_cr l) = table_cells l"
  by (simp add: table_cells_def)

lemma section_header_is_header: "is_section_header l name \<Longrightarrow> is_any_header l"
  by (simp add: is_section_header_trim is_any_header_level)

subsection \<open>Cells of a table row\<close>

lemma table_cells_trimmed: "c \<in> set (table_cells l) \<Longrightarrow> trim c = c"
  by (auto simp: table_cells_def Let_def split: if_splits)

lemma table_cells_no_pipe: "c \<in> set (table_cells l) \<Longrightarrow> CHR ''|'' \<notin> set c"
  using set_trim_subset split_on_no_sep
  by (fastforce simp: table_cells_def Let_def split: if_splits)

lemma set_table_cells: "c \<in> set (table_cells l) \<Longrightarrow> set c \<subseteq> set l"
proof -
  assume "c \<in> set (table_cells l)"
  then obtain p where p: "p \<in> set (split_on (CHR ''|'') (trim_matches (CHR ''|'') (trim l)))" "c = trim p"
    by (auto simp: table_cells_def Let_def split: if_splits)
  have "set (trim_matches (CHR ''|'') x) \<subseteq> set x" for x
    by (auto simp: trim_matches_def trim_end_char_def trim_start_char_def dest!: set_dropWhileD)
  then show ?thesis using p set_trim_subset [of p] set_trim_subset [of l] split_on_subset [OF p(1)] by blast
qed

text \<open>
  A row printed with one blank on each side of every cell reads back as its cells. The last cell
  group is printed as a trimmed join, as the rewriter does it.
\<close>

lemma map_trim_split_join:
  assumes "\<forall>c\<in>set cs. CHR ''|'' \<notin> set c \<and> trim c = c" "cs \<noteq> []"
  shows "map trim (split_on (CHR ''|'') (join '' | '' cs)) = cs"
  using assms
proof (induction cs)
  case (Cons x xs)
  show ?case
  proof (cases xs)
    case Nil
    with Cons.prems show ?thesis by (simp add: split_on_absent)
  next
    case (Cons y zs)
    let ?r = "join '' | '' xs"
    have x: "CHR ''|'' \<notin> set (x @ '' '')" "trim (x @ '' '') = x"
      using Cons.prems(1) by (auto simp: trim_snoc_ws)
    have "join '' | '' (x # xs) = (x @ '' '') @ CHR ''|'' # ('' '' @ ?r)"
      using Cons by (simp add: join_Cons)
    then have "split_on (CHR ''|'') (join '' | '' (x # xs)) = (x @ '' '') # split_on (CHR ''|'') ('' '' @ ?r)"
      using split_on_append [OF x(1)] by metis
    moreover have "map trim (split_on (CHR ''|'') ('' '' @ ?r)) = xs"
      using trim_hd_ws [of "CHR ''|''" "'' ''" ?r] is_ws_enc_single [of "CHR '' ''"] Cons.IH Cons.prems(1) Cons
      by simp
    ultimately show ?thesis using x(2) by simp
  qed
qed simp

lemma table_cells_row:
  assumes "trim e = e" "CHR ''|'' \<notin> set e" "trim a = a" "CHR ''|'' \<notin> set a"
    and "\<forall>c\<in>set cs. CHR ''|'' \<notin> set c \<and> trim c = c" "cs \<noteq> []"
  shows "table_cells (''| '' @ e @ '' | '' @ a @ '' | '' @ trim (join '' | '' cs) @ '' |'') = e # a # cs"
proof -
  let ?J = "trim (join '' | '' cs)"
  let ?X = "('' '' @ e @ '' '') @ CHR ''|'' # ('' '' @ a @ '' '') @ CHR ''|'' # ('' '' @ ?J @ '' '')"
  let ?line = "CHR ''|'' # ?X @ ''|''"
  have "trim ?line = ?line" by (intro trim_plain) simp_all
  moreover have "trim_matches (CHR ''|'') ?line = ?X"
    by (simp add: trim_matches_def trim_start_char_def trim_end_char_def)
  moreover have "split_on (CHR ''|'') ?X = ('' '' @ e @ '' '') # ('' '' @ a @ '' '') # split_on (CHR ''|'') ('' '' @ ?J @ '' '')"
  proof -
    have "CHR ''|'' \<notin> set ('' '' @ e @ '' '')" "CHR ''|'' \<notin> set ('' '' @ a @ '' '')" using assms(2,4) by simp_all
    then show ?thesis by (metis split_on_append)
  qed
  moreover have "map trim (split_on (CHR ''|'') ('' '' @ ?J @ '' '')) = cs"
  proof -
    have "map trim (split_on (CHR ''|'') ('' '' @ ?J @ '' '')) = map trim (split_on (CHR ''|'') ?J)"
      by (simp only: trim_hd_ws trim_last_ws is_ws_enc_single plain_pipe ascii_ws_space)
    then show ?thesis using map_trim_split_join [OF assms(5,6)] by (simp add: map_trim_split_trim)
  qed
  ultimately have "table_cells ?line = e # a # cs"
    using assms(1,3) by (simp add: table_cells_def trim_snoc_ws trim_Cons_ws)
  then show ?thesis by simp
qed

subsection \<open>The next unchecked item (goal\_next\_step.rs)\<close>

definition MAX_READ_BYTES :: nat where "MAX_READ_BYTES = 8 * 1024"

text \<open>
  \<^verbatim>\<open>read_capped\<close> on a file's bytes (None when the file cannot be opened or read). The conversion of
  the bytes to text is lossless on valid UTF-8 and is left implicit.
\<close>

definition read_capped :: "string option \<Rightarrow> string option" where
  "read_capped file =
     map_option (\<lambda>content.
       let buf = take MAX_READ_BYTES content in
       if MAX_READ_BYTES \<le> length buf then
         (case rfind_index (\<lambda>b. b = NL) buf of Some last_nl \<Rightarrow> take last_nl buf | None \<Rightarrow> buf)
       else buf) file"

definition strip_bullet_marker :: "string \<Rightarrow> string option" where
  "strip_bullet_marker trimmed = map_option trim_start (strip_any [''- '', ''* '', ''+ ''] trimmed)"

definition parse_checkbox_item :: "string \<Rightarrow> string option" where
  "parse_checkbox_item trimmed =
     (case strip_bullet_marker trimmed of
        None \<Rightarrow> None
      | Some after_marker \<Rightarrow>
          (case strip_prefix ''[ ]'' after_marker of
             None \<Rightarrow> None
           | Some after_checkbox \<Rightarrow>
               (let t = trim after_checkbox in if t \<noteq> [] then Some t else None)))"

fun checklist_loop :: "nat option \<Rightarrow> string list \<Rightarrow> string option" where
  "checklist_loop section_level [] = None"
| "checklist_loop section_level (line # ls) =
     (if is_section_header line ''task checklist'' then checklist_loop (Some (header_level line)) ls
      else case section_level of
        None \<Rightarrow> checklist_loop None ls
      | Some level \<Rightarrow>
          if is_any_header line \<and> header_level line \<le> level then None
          else (case parse_checkbox_item (trim_start line) of
                  Some item \<Rightarrow> Some item
                | None \<Rightarrow> checklist_loop (Some level) ls))"

definition first_unchecked_in_checklist :: "string \<Rightarrow> string option" where
  "first_unchecked_in_checklist body = checklist_loop None (lines body)"

definition EXCLUDED_SECTIONS :: "string list" where
  "EXCLUDED_SECTIONS = [''non-goals'', ''deviations'']"

fun unchecked_loop :: "bool \<Rightarrow> string list \<Rightarrow> string option" where
  "unchecked_loop excluded [] = None"
| "unchecked_loop excluded (line # ls) =
     (if is_any_header line
      then unchecked_loop (list_ex (is_section_header line) EXCLUDED_SECTIONS) ls
      else if excluded then unchecked_loop excluded ls
      else (case parse_checkbox_item (trim_start line) of
              Some item \<Rightarrow> Some item
            | None \<Rightarrow> unchecked_loop excluded ls))"

definition extract_first_unchecked :: "string \<Rightarrow> string option" where
  "extract_first_unchecked body =
     (if list_ex (\<lambda>l. is_section_header l ''task checklist'') (lines body)
      then first_unchecked_in_checklist body
      else unchecked_loop False (lines body))"

lemma checkbox_item_nonempty: "parse_checkbox_item l = Some item \<Longrightarrow> item \<noteq> [] \<and> trim item = item"
  by (auto simp: parse_checkbox_item_def Let_def split: option.splits if_splits)

text \<open>The item a loop returns is the checkbox of some line of the plan.\<close>

lemma checklist_loop_line:
  "checklist_loop sl ls = Some item \<Longrightarrow> \<exists>l\<in>set ls. parse_checkbox_item (trim_start l) = Some item"
  by (induction sl ls rule: checklist_loop.induct) (auto split: if_splits option.splits)

lemma unchecked_loop_line:
  "unchecked_loop ex ls = Some item \<Longrightarrow> \<exists>l\<in>set ls. parse_checkbox_item (trim_start l) = Some item"
  by (induction ex ls rule: unchecked_loop.induct) (auto split: if_splits option.splits)

lemma extract_first_unchecked_line:
  "extract_first_unchecked body = Some item \<Longrightarrow>
     \<exists>l\<in>set (lines body). parse_checkbox_item (trim_start l) = Some item"
  by (auto simp: extract_first_unchecked_def first_unchecked_in_checklist_def
      dest: checklist_loop_line unchecked_loop_line split: if_splits)

end
