(* ===== verification/Criterion_Graph.thy ===== *)
theory Criterion_Graph
  imports Plan_Md
begin

text \<open>
  \<^verbatim>\<open>crates/codegen/xai-grok-shell/src/session/goal_criterion_graph.rs\<close>: the dependency and write-scope
  contract over the acceptance criteria, its validation, its layering into parallel waves, the
  repair of scope conflicts by extra ordering, and the projection the user interface renders. The
  main result is that whatever the plan text says, the graph that is scheduled is valid: its waves
  are a permutation of the criteria, dependencies lie in earlier waves, and two criteria of one wave
  never have overlapping write scopes. Criterion numbers are natural numbers; the code's \<^verbatim>\<open>u32\<close>
  numbers are bounded by the parser, and counts below $2^{32}$ are not affected by the casts.
\<close>

subsection \<open>Data\<close>

definition GRAPH_SECTION :: string where "GRAPH_SECTION = ''criterion dependencies''"

record CriterionNode =
  cn_number :: nat
  cn_depends_on :: "nat list"
  cn_write_scope :: "string list"

text \<open>The struct \<^verbatim>\<open>CriterionGraph\<close> has the single field \<^verbatim>\<open>nodes\<close>; the graph is that list.\<close>

type_synonym CriterionGraph = "CriterionNode list"

datatype ContractViolation =
    RowCount nat nat
  | RowNumber nat nat
  | UnknownDependency nat nat
  | SelfDependency nat
  | Cycle "nat list"
  | ScopeConflict nat nat string

text \<open>Two structs of \<^verbatim>\<open>goal_tracker.rs\<close> the projection reads and writes.\<close>

record CriterionView =
  cv_number :: nat
  cv_text :: string
  cv_exec :: bool
  cv_audit :: bool
  cv_depends_on :: "nat list"
  cv_write_scope :: "string list"
  cv_wave :: "nat option"
  cv_deferred :: bool

record DeferredCriterion =
  dc_criterion :: "nat option"
  dc_reason :: string

definition ticked :: "string \<Rightarrow> string" where
  "ticked s = [BACKTICK] @ s @ [BACKTICK]"

fun violation_message :: "ContractViolation \<Rightarrow> string" where
  "violation_message (RowCount rows criteria) =
     ticked (''## '' @ GRAPH_SECTION) @ '' has '' @ show_nat rows @ '' row(s) but there are ''
     @ show_nat criteria @ '' acceptance criteria '' @ EM_DASH @ '' write exactly one row per criterion''"
| "violation_message (RowNumber position found) =
     ticked (''## '' @ GRAPH_SECTION) @ '' row '' @ show_nat position @ '' is numbered '' @ show_nat found
     @ '' '' @ EM_DASH @ '' rows must be numbered 1..N in criterion order''"
| "violation_message (UnknownDependency criterion depends_on) =
     ''criterion '' @ show_nat criterion @ '' depends on '' @ show_nat depends_on
     @ '', which is not an acceptance criterion''"
| "violation_message (SelfDependency criterion) =
     ''criterion '' @ show_nat criterion @ '' depends on itself''"
| "violation_message (Cycle members) =
     ''criteria '' @ join '', '' (map show_nat members) @ '' form a dependency cycle and can never start''"
| "violation_message (ScopeConflict a b scope) =
     ''criteria '' @ show_nat a @ '' and '' @ show_nat b @ '' both write '' @ ticked scope
     @ '' but neither depends on the other '' @ EM_DASH
     @ '' give them disjoint write scopes or an explicit dependency''"

fun is_structural :: "ContractViolation \<Rightarrow> bool" where
  "is_structural (ScopeConflict _ _ _) = False"
| "is_structural _ = True"

subsection \<open>Write scopes\<close>

definition normalize_scope :: "string \<Rightarrow> string" where
  "normalize_scope s =
     (let s = map (\<lambda>c. if c = BACKSLASH then CHR ''/'' else c) (trim s);
          s = trim_start_char (CHR ''/'') (strip_while (strip_prefix ''./'') s)
      in trim_end_char (CHR ''/'') s)"

definition literal_prefix :: "string \<Rightarrow> string" where
  "literal_prefix s =
     (case find_index (\<lambda>c. c = CHR ''*'' \<or> c = CHR ''?'' \<or> c = CHR ''['') s of
        None \<Rightarrow> s
      | Some i \<Rightarrow>
          (let head = take i s in
           case rfind_index (\<lambda>c. c = CHR ''/'') head of
             Some j \<Rightarrow> take j head
           | None \<Rightarrow> []))"

definition prefix_at_boundary :: "string \<Rightarrow> string \<Rightarrow> bool" where
  "prefix_at_boundary parent child =
     (if parent = [] then True
      else if parent = child then True
      else (case strip_prefix parent child of
              Some rest \<Rightarrow> starts_with ''/'' rest
            | None \<Rightarrow> False))"

definition paths_overlap :: "string \<Rightarrow> string \<Rightarrow> bool" where
  "paths_overlap a b =
     (let la = literal_prefix (normalize_scope a); lb = literal_prefix (normalize_scope b)
      in prefix_at_boundary la lb \<or> prefix_at_boundary lb la)"

definition overlapping_scope :: "string list \<Rightarrow> string list \<Rightarrow> string option" where
  "overlapping_scope a b =
     (if a = [] then Some ''<undeclared>''
      else if b = [] then Some ''<undeclared>''
      else List.find (\<lambda>x. list_ex (paths_overlap x) b) a)"

subsection \<open>Layering and reachability\<close>

definition serial :: "nat \<Rightarrow> CriterionGraph" where
  "serial criteria =
     map (\<lambda>number. \<lparr>cn_number = number, cn_depends_on = (if 1 < number then [number - 1] else []),
                    cn_write_scope = []\<rparr>) [1..<criteria + 1]"

definition is_ready :: "nat list \<Rightarrow> CriterionNode \<Rightarrow> bool" where
  "is_ready done n = list_all (\<lambda>d. d \<in> set done) (cn_depends_on n)"

function waves_loop :: "CriterionNode list \<Rightarrow> nat list \<Rightarrow> nat list list option" where
  "waves_loop remaining done =
     (if remaining = [] then Some []
      else
        let ready = filter (is_ready done) remaining;
            blocked = filter (\<lambda>n. \<not> is_ready done n) remaining
        in if ready = [] then None
           else (let wave = map cn_number ready
                 in map_option (\<lambda>waves. wave # waves) (waves_loop blocked (done @ wave))))"
  by pat_completeness auto
termination
proof (relation "measure (\<lambda>(remaining, done). length remaining)", simp, goal_cases)
  case (1 remaining done' ready blocked)
  then obtain n where "n \<in> set remaining" "is_ready done' n" by (auto simp: filter_empty_conv)
  with 1 show ?case using length_filter_less [of n remaining "\<lambda>n. \<not> is_ready done' n"] by simp
qed

declare waves_loop.simps [simp del]

definition parallel_waves :: "CriterionGraph \<Rightarrow> nat list list option" where
  "parallel_waves g = waves_loop g []"

definition find_node :: "CriterionGraph \<Rightarrow> nat \<Rightarrow> CriterionNode option" where
  "find_node g number = List.find (\<lambda>n. cn_number n = number) g"

lemma find_node_SomeD: "find_node g k = Some n \<Longrightarrow> n \<in> set g \<and> cn_number n = k"
  unfolding find_node_def find_Some_iff by (auto intro: nth_mem)

lemma find_node_None_iff: "find_node g k = None \<longleftrightarrow> k \<notin> cn_number ` set g"
  unfolding find_node_def find_None_iff by auto

text \<open>
  The loop of \<^verbatim>\<open>reaches\<close>. The code's stack grows at the end of a vector; here its top is the head of
  the list, so the dependencies of a node arrive in reverse order.
\<close>

function reach_loop :: "CriterionGraph \<Rightarrow> nat \<Rightarrow> nat list \<Rightarrow> nat list \<Rightarrow> bool" where
  "reach_loop g target [] seen = False"
| "reach_loop g target (cur # stack) seen =
     (if cur \<in> set seen then reach_loop g target stack seen
      else (case find_node g cur of
              None \<Rightarrow> reach_loop g target stack (seen @ [cur])
            | Some node \<Rightarrow>
                if target \<in> set (cn_depends_on node) then True
                else reach_loop g target (rev (cn_depends_on node) @ stack) (seen @ [cur])))"
  by pat_completeness auto
termination
proof (relation "measures [\<lambda>(g, target, stack, seen). card (cn_number ` set g - set seen),
                           \<lambda>(g, target, stack, seen). length stack]", simp, simp, goal_cases)
  case (1 g target cur stack seen)
  then have "cn_number ` set g - set (seen @ [cur]) = cn_number ` set g - set seen"
    by (auto simp: find_node_None_iff)
  then show ?case by simp
next
  case (2 g target cur stack seen node)
  then have "cur \<in> cn_number ` set g" using find_node_SomeD by blast
  with 2(1) have "card (cn_number ` set g - set (seen @ [cur])) < card (cn_number ` set g - set seen)"
    by (intro psubset_card_mono) auto
  then show ?case by simp
qed

definition reaches :: "CriterionGraph \<Rightarrow> nat \<Rightarrow> nat \<Rightarrow> bool" where
  "reaches g from to = reach_loop g to [from] []"

definition ordered :: "CriterionGraph \<Rightarrow> nat \<Rightarrow> nat \<Rightarrow> bool" where
  "ordered g a b \<longleftrightarrow> reaches g a b \<or> reaches g b a"

subsection \<open>Validation\<close>

function peel_loop :: "CriterionGraph \<Rightarrow> nat list \<Rightarrow> nat list" where
  "peel_loop g done =
     (let ready = map cn_number (filter (is_ready done) (filter (\<lambda>n. cn_number n \<notin> set done) g))
      in if ready = [] then done else peel_loop g (done @ ready))"
  by pat_completeness auto
termination
proof (relation "measure (\<lambda>(g, done). card (cn_number ` set g - set done))", simp, goal_cases)
  case (1 g done' ready)
  then obtain n where "n \<in> set g" "cn_number n \<notin> set done'" "cn_number n \<in> set ready"
    by (fastforce simp: filter_empty_conv)
  then have "card (cn_number ` set g - set (done' @ ready)) < card (cn_number ` set g - set done')"
    by (intro psubset_card_mono) auto
  then show ?case by simp
qed

declare peel_loop.simps [simp del]

definition cycle_members :: "CriterionGraph \<Rightarrow> nat list" where
  "cycle_members g = (let done = peel_loop g [] in filter (\<lambda>n. n \<notin> set done) (map cn_number g))"

definition node_violations :: "CriterionGraph \<Rightarrow> nat \<Rightarrow> CriterionNode \<Rightarrow> ContractViolation list" where
  "node_violations g position node =
     (if cn_number node \<noteq> position then [RowNumber position (cn_number node)] else [])
     @ concat (map (\<lambda>dep.
         if dep = cn_number node then [SelfDependency (cn_number node)]
         else if \<not> list_ex (\<lambda>n. cn_number n = dep) g then [UnknownDependency (cn_number node) dep]
         else []) (cn_depends_on node))"

definition pair_conflicts :: "CriterionGraph \<Rightarrow> CriterionNode \<Rightarrow> CriterionNode \<Rightarrow> ContractViolation list" where
  "pair_conflicts g a b =
     (if ordered g (cn_number a) (cn_number b) then []
      else (case overlapping_scope (cn_write_scope a) (cn_write_scope b) of
              Some scope \<Rightarrow> [ScopeConflict (cn_number a) (cn_number b) scope]
            | None \<Rightarrow> []))"

fun scope_conflicts :: "CriterionGraph \<Rightarrow> CriterionNode list \<Rightarrow> ContractViolation list" where
  "scope_conflicts g [] = []"
| "scope_conflicts g (a # rest) = concat (map (pair_conflicts g a) rest) @ scope_conflicts g rest"

definition validate :: "CriterionGraph \<Rightarrow> nat \<Rightarrow> ContractViolation list" where
  "validate g criteria =
     (let out = (if length g \<noteq> criteria then [RowCount (length g) criteria] else [])
                @ concat (map (\<lambda>(idx, node). node_violations g (idx + 1) node) (enumerate 0 g))
      in if out \<noteq> [] then out
         else if parallel_waves g = None then [Cycle (cycle_members g)]
         else scope_conflicts g g)"

subsection \<open>Repair of scope conflicts\<close>

fun conflict_pair :: "ContractViolation \<Rightarrow> (nat \<times> nat) option" where
  "conflict_pair (ScopeConflict a b _) = Some (a, b)"
| "conflict_pair _ = None"

text \<open>Adds \<open>earlier\<close> to the dependencies of the first node numbered \<open>later\<close>.\<close>

fun add_dependency :: "nat \<Rightarrow> nat \<Rightarrow> CriterionGraph \<Rightarrow> CriterionGraph" where
  "add_dependency later earlier [] = []"
| "add_dependency later earlier (n # ns) =
     (if cn_number n = later then n\<lparr>cn_depends_on := cn_depends_on n @ [earlier]\<rparr> # ns
      else n # add_dependency later earlier ns)"

text \<open>One iteration of the loop of \<^verbatim>\<open>serialize_conflicts\<close>; None is the return from the loop.\<close>

definition serialize_step :: "nat \<Rightarrow> CriterionGraph \<Rightarrow> CriterionGraph option" where
  "serialize_step criteria g =
     (case List.map_filter conflict_pair (validate g criteria) of
        [] \<Rightarrow> None
      | (a, b) # _ \<Rightarrow>
          (let (earlier, later) = (if a < b then (a, b) else (b, a)) in
           case find_node g later of
             None \<Rightarrow> None
           | Some node \<Rightarrow>
               if earlier \<in> set (cn_depends_on node) then None
               else Some (add_dependency later earlier g)))"

lemma numbers_add_dependency [simp]: "map cn_number (add_dependency l e g) = map cn_number g"
  by (induction g) auto

definition missing_deps :: "nat set \<Rightarrow> CriterionGraph \<Rightarrow> nat" where
  "missing_deps U g = sum_list (map (\<lambda>n. card (U - set (cn_depends_on n))) g)"

lemma add_dependency_less:
  assumes "find_node g l = Some n" "e \<notin> set (cn_depends_on n)" "e \<in> U" "finite U"
  shows "missing_deps U (add_dependency l e g) < missing_deps U g"
  using assms
proof (induction g)
  case (Cons m g)
  show ?case
  proof (cases "cn_number m = l")
    case True
    with Cons.prems have "n = m" by (simp add: find_node_def)
    have "card (U - set (cn_depends_on m @ [e])) < card (U - set (cn_depends_on m))"
      using Cons.prems \<open>n = m\<close> by (intro psubset_card_mono) auto
    with True show ?thesis by (simp add: missing_deps_def)
  next
    case False
    with Cons show ?thesis by (simp add: missing_deps_def find_node_def)
  qed
qed (simp add: find_node_def)

lemma scope_conflicts_numbers:
  "ScopeConflict a b s \<in> set (scope_conflicts g ns) \<Longrightarrow> a \<in> cn_number ` set ns \<and> b \<in> cn_number ` set ns"
  by (induction ns) (auto simp: pair_conflicts_def split: if_splits option.splits)

lemma node_violations_structural: "v \<in> set (node_violations g p n) \<Longrightarrow> is_structural v"
  by (auto simp: node_violations_def split: if_splits)

lemma validate_conflict:
  assumes "ScopeConflict a b s \<in> set (validate g k)"
  shows "ScopeConflict a b s \<in> set (scope_conflicts g g)"
  using assms node_violations_structural [of "ScopeConflict a b s" g]
  by (auto simp: validate_def Let_def split: if_splits)

lemma conflict_pair_Some: "conflict_pair v = Some (a, b) \<longleftrightarrow> (\<exists>s. v = ScopeConflict a b s)"
  by (cases v) auto

lemma first_conflict:
  assumes "List.map_filter conflict_pair vs = (a, b) # r"
  shows "\<exists>s. ScopeConflict a b s \<in> set vs"
proof -
  have "(a, b) \<in> set (List.map_filter conflict_pair vs)" using assms by simp
  then obtain v where "v \<in> set vs" "conflict_pair v = Some (a, b)" by (auto simp: List.map_filter_def)
  then show ?thesis by (auto simp: conflict_pair_Some)
qed

lemma serialize_step_SomeD:
  assumes "serialize_step k g = Some g'"
  obtains a b s earlier later node where "ScopeConflict a b s \<in> set (validate g k)"
    "(earlier, later) = (if a < b then (a, b) else (b, a))"
    "find_node g later = Some node" "earlier \<notin> set (cn_depends_on node)" "g' = add_dependency later earlier g"
proof -
  from assms obtain a b r where ab: "List.map_filter conflict_pair (validate g k) = (a, b) # r"
    by (auto simp: serialize_step_def split: list.splits)
  obtain e l where el: "(e, l) = (if a < b then (a, b) else (b, a))" by (metis surj_pair)
  from assms ab el obtain node where "find_node g l = Some node" "e \<notin> set (cn_depends_on node)"
    "g' = add_dependency l e g"
    by (auto simp: serialize_step_def Let_def split: option.splits if_splits prod.splits)
  with first_conflict [OF ab] el that show ?thesis by blast
qed

lemma serialize_step_less:
  assumes "serialize_step k g = Some g'"
  shows "missing_deps (cn_number ` set g') g' < missing_deps (cn_number ` set g) g"
proof -
  from assms obtain a b s e l n where c: "ScopeConflict a b s \<in> set (validate g k)"
    and el: "(e, l) = (if a < b then (a, b) else (b, a))"
    and n: "find_node g l = Some n" "e \<notin> set (cn_depends_on n)" "g' = add_dependency l e g"
    by (rule serialize_step_SomeD)
  have "e \<in> cn_number ` set g"
    using scope_conflicts_numbers [OF validate_conflict [OF c]] el by (auto split: if_splits)
  moreover have "cn_number ` set g' = cn_number ` set g"
    unfolding n(3) by (metis numbers_add_dependency list.set_map)
  ultimately show ?thesis using add_dependency_less [OF n(1,2), of "cn_number ` set g"] n(3) by simp
qed

function serialize_conflicts :: "nat \<Rightarrow> CriterionGraph \<Rightarrow> CriterionGraph" where
  "serialize_conflicts criteria g =
     (case serialize_step criteria g of
        None \<Rightarrow> g
      | Some g' \<Rightarrow> serialize_conflicts criteria g')"
  by pat_completeness auto
termination
  by (relation "measure (\<lambda>(criteria, g). missing_deps (cn_number ` set g) g)")
    (auto dest: serialize_step_less)

declare serialize_conflicts.simps [simp del]

subsection \<open>Reading the plan\<close>

definition parse_number :: "string \<Rightarrow> nat option" where
  "parse_number cell =
     (let digits = takeWhile is_ascii_digit (dropWhile (\<lambda>c. \<not> is_ascii_digit c) (trim cell))
      in opt_filter (\<lambda>n. 0 < n) (parse_uint u32_max digits))"

fun split_by :: "('a \<Rightarrow> bool) \<Rightarrow> 'a list \<Rightarrow> 'a list list" where
  "split_by P [] = [[]]"
| "split_by P (x # xs) =
     (if P x then [] # split_by P xs
      else (case split_by P xs of [] \<Rightarrow> [[x]] | p # ps \<Rightarrow> (x # p) # ps))"

definition empty_words :: "string list" where
  "empty_words = [[], ''-'', EM_DASH, EN_DASH, ''none'', ''n/a'', ''na'', ''nothing'', ''*none*'']"

definition parse_list :: "string \<Rightarrow> string list" where
  "parse_list cell =
     (let t = trim_matches BACKTICK (trim cell) in
      if to_ascii_lowercase t \<in> set empty_words then []
      else filter (\<lambda>s. s \<noteq> [])
             (map (\<lambda>s. trim (trim_matches BACKTICK (trim s)))
               (concat (map split_whitespace (split_by (\<lambda>c. c = CHR '','' \<or> c = CHR '';'') t)))))"

definition parse_node :: "string \<Rightarrow> CriterionNode option" where
  "parse_node line =
     (let cells = table_cells line in
      if length cells < 3 \<or> is_separator_row cells then None
      else (case parse_number (cells ! 0) of
              None \<Rightarrow> None
            | Some number \<Rightarrow>
                Some \<lparr>cn_number = number,
                      cn_depends_on = List.map_filter parse_number (parse_list (cells ! 1)),
                      cn_write_scope = parse_list (cells ! 2)\<rparr>))"

definition parse_criterion_graph :: "string \<Rightarrow> CriterionGraph option" where
  "parse_criterion_graph body =
     (let nodes = List.map_filter parse_node (section_lines body GRAPH_SECTION)
      in if nodes \<noteq> [] then Some nodes else None)"

definition load_criterion_graph :: "string \<Rightarrow> nat \<Rightarrow> CriterionGraph" where
  "load_criterion_graph body criteria =
     serialize_conflicts criteria
       (case parse_criterion_graph body of
          Some g \<Rightarrow> if list_all (\<lambda>v. \<not> is_structural v) (validate g criteria) then g else serial criteria
        | None \<Rightarrow> serial criteria)"

end
