(* ===== verification/Graph_Correct.thy ===== *)
theory Graph_Correct
  imports Criterion_Graph
begin

text \<open>
  Correctness of the criterion graph: reachability is the transitive closure of the declared
  dependencies, the layering fails exactly on cycles, a validated graph can be scheduled by waves
  without a race, and the graph loaded from any plan text validates.
\<close>

subsection \<open>Reachability\<close>

definition dep_rel :: "CriterionGraph \<Rightarrow> (nat \<times> nat) set" where
  "dep_rel g = {(a, b). \<exists>n. find_node g a = Some n \<and> b \<in> set (cn_depends_on n)}"

lemma dep_relI: "find_node g a = Some n \<Longrightarrow> b \<in> set (cn_depends_on n) \<Longrightarrow> (a, b) \<in> dep_rel g"
  by (auto simp: dep_rel_def)

lemma dep_rel_Some: "find_node g a = Some n \<Longrightarrow> (a, b) \<in> dep_rel g \<longleftrightarrow> b \<in> set (cn_depends_on n)"
  by (auto simp: dep_rel_def)

lemma finite_dep_rel: "finite (dep_rel g)"
proof (rule finite_subset)
  show "dep_rel g \<subseteq> cn_number ` set g \<times> (\<Union>n\<in>set g. set (cn_depends_on n))"
    by (auto simp: dep_rel_def dest!: find_node_SomeD)
qed simp

text \<open>
  The search's invariant: what has been seen was expanded, and the target was not among its
  dependencies.
\<close>

definition expanded :: "CriterionGraph \<Rightarrow> nat \<Rightarrow> nat set \<Rightarrow> nat set \<Rightarrow> bool" where
  "expanded g target seen frontier \<longleftrightarrow>
     (\<forall>x\<in>seen. \<forall>y. (x, y) \<in> dep_rel g \<longrightarrow> y \<noteq> target \<and> y \<in> seen \<union> frontier)"

lemma expanded_escape:
  assumes "(x, target) \<in> (dep_rel g)\<^sup>+" "expanded g target seen frontier" "x \<in> seen"
  shows "\<exists>s\<in>frontier - seen. (s, target) \<in> (dep_rel g)\<^sup>+"
  using assms
proof (induction rule: converse_trancl_induct)
  case (base y)
  then show ?case by (auto simp: expanded_def)
next
  case (step y z)
  show ?case
  proof (cases "z \<in> seen")
    case True
    with step show ?thesis by blast
  next
    case False
    with step(1,4,5) have "z \<in> frontier" unfolding expanded_def by blast
    with False step(2) show ?thesis by blast
  qed
qed

lemma reach_loop_iff:
  "expanded g target (set seen) (set stack) \<Longrightarrow>
     reach_loop g target stack seen \<longleftrightarrow> (\<exists>s\<in>set stack. (s, target) \<in> (dep_rel g)\<^sup>+)"
proof (induction g target stack seen rule: reach_loop.induct)
  case (2 g target cur stack seen)
  note inv = "2.prems"
  show ?case
  proof (cases "cur \<in> set seen")
    case True
    have "expanded g target (set seen) (set stack)" using inv True by (auto simp: expanded_def)
    with "2.IH"(1) [OF True] have "reach_loop g target stack seen \<longleftrightarrow> (\<exists>s\<in>set stack. (s, target) \<in> (dep_rel g)\<^sup>+)"
      by simp
    moreover have "\<exists>s\<in>set stack. (s, target) \<in> (dep_rel g)\<^sup>+" if "(cur, target) \<in> (dep_rel g)\<^sup>+"
      using expanded_escape [OF that inv True] True by auto
    ultimately show ?thesis using True by auto
  next
    case False
    show ?thesis
    proof (cases "find_node g cur")
      case None
      then have out: "(cur, y) \<notin> dep_rel g" for y by (simp add: dep_rel_def)
      then have "expanded g target (set (seen @ [cur])) (set stack)" using inv by (auto simp: expanded_def)
      with "2.IH"(2) [OF False None] False None show ?thesis
        using out by (auto dest: tranclD)
    next
      case (Some node)
      show ?thesis
      proof (cases "target \<in> set (cn_depends_on node)")
        case True
        then have "(cur, target) \<in> (dep_rel g)\<^sup>+" using dep_relI [OF Some] by auto
        with True False Some show ?thesis by auto
      next
        case no: False
        note dep = dep_rel_Some [OF Some]
        have "expanded g target (set (seen @ [cur])) (set (rev (cn_depends_on node) @ stack))"
          using inv no unfolding expanded_def by (auto simp: dep)
        with "2.IH"(3) [OF False Some no] False Some no
        have "reach_loop g target (cur # stack) seen \<longleftrightarrow>
                (\<exists>s\<in>set (cn_depends_on node) \<union> set stack. (s, target) \<in> (dep_rel g)\<^sup>+)" by auto
        moreover have "(\<exists>s\<in>set (cn_depends_on node). (s, target) \<in> (dep_rel g)\<^sup>+) \<longleftrightarrow> (cur, target) \<in> (dep_rel g)\<^sup>+"
        proof
          assume "(cur, target) \<in> (dep_rel g)\<^sup>+"
          then obtain z where "(cur, z) \<in> dep_rel g" "(z, target) \<in> (dep_rel g)\<^sup>*" by (meson tranclD)
          with no dep show "\<exists>s\<in>set (cn_depends_on node). (s, target) \<in> (dep_rel g)\<^sup>+"
            by (auto simp: rtrancl_eq_or_trancl)
        qed (auto simp: dep [symmetric] intro: trancl_into_trancl2)
        ultimately show ?thesis by auto
      qed
    qed
  qed
qed simp

lemma reaches_trancl: "reaches g a b \<longleftrightarrow> (a, b) \<in> (dep_rel g)\<^sup>+"
  using reach_loop_iff [of g b "[]" "[a]"] by (simp add: reaches_def expanded_def)

lemma ordered_trancl: "ordered g a b \<longleftrightarrow> (a, b) \<in> (dep_rel g)\<^sup>+ \<or> (b, a) \<in> (dep_rel g)\<^sup>+"
  by (simp add: ordered_def reaches_trancl)

text \<open>
  Property C20. The dependency search terminates on every graph, cyclic ones included, and answers
  true exactly when the first criterion depends on the second through one or more declared
  dependencies.
\<close>

theorem reaches_iff_transitive_dependency: "reaches g a b \<longleftrightarrow> (a, b) \<in> (dep_rel g)\<^sup>+"
  by (rule reaches_trancl)

subsection \<open>Waves\<close>

definition well_numbered :: "CriterionGraph \<Rightarrow> bool" where
  "well_numbered g \<longleftrightarrow> distinct (map cn_number g)
     \<and> (\<forall>n\<in>set g. set (cn_depends_on n) \<subseteq> cn_number ` set g)"

lemma find_node_distinct:
  assumes "distinct (map cn_number g)" "n \<in> set g"
  shows "find_node g (cn_number n) = Some n"
proof (cases "find_node g (cn_number n)")
  case None
  with assms(2) show ?thesis by (auto simp: find_node_None_iff)
next
  case (Some m)
  with find_node_SomeD [OF Some] assms show ?thesis by (auto simp: distinct_map inj_on_def)
qed

lemma waves_loop_Cons:
  assumes "waves_loop rem dn = Some ws" "rem \<noteq> []"
  obtains ws' where "ws = map cn_number (filter (is_ready dn) rem) # ws'" "filter (is_ready dn) rem \<noteq> []"
    "waves_loop (filter (\<lambda>n. \<not> is_ready dn n) rem) (dn @ map cn_number (filter (is_ready dn) rem)) = Some ws'"
  using assms by (subst (asm) waves_loop.simps) (auto simp: Let_def split: if_splits)

lemma waves_loop_mset:
  "waves_loop rem dn = Some ws \<Longrightarrow> mset (concat ws) = mset (map cn_number rem) \<and> [] \<notin> set ws"
proof (induction rem dn arbitrary: ws rule: waves_loop.induct)
  case (1 rem dn)
  show ?case
  proof (cases "rem = []")
    case True
    with 1(2) show ?thesis by (simp add: waves_loop.simps)
  next
    case False
    from waves_loop_Cons [OF 1(2) False] obtain ws' where
      w: "ws = map cn_number (filter (is_ready dn) rem) # ws'" "filter (is_ready dn) rem \<noteq> []"
      "waves_loop (filter (\<lambda>n. \<not> is_ready dn n) rem) (dn @ map cn_number (filter (is_ready dn) rem)) = Some ws'" .
    have "mset (concat ws') = mset (map cn_number (filter (\<lambda>n. \<not> is_ready dn n) rem)) \<and> [] \<notin> set ws'"
      using 1(1) [OF False refl refl w(2) refl w(3)] .
    moreover have "mset rem = mset (filter (is_ready dn) rem) + mset (filter (\<lambda>n. \<not> is_ready dn n) rem)"
      by simp
    then have "mset (map cn_number rem) = mset (map cn_number (filter (is_ready dn) rem))
        + mset (map cn_number (filter (\<lambda>n. \<not> is_ready dn n) rem))"
      by (metis image_mset_union mset_map)
    ultimately show ?thesis using w(1,2) by simp
  qed
qed

lemma waves_loop_deps:
  assumes "waves_loop rem dn = Some ws" "distinct (map cn_number rem)" "i < length ws" "n \<in> set rem"
    "cn_number n \<in> set (ws ! i)" "d \<in> set (cn_depends_on n)"
  shows "d \<in> set dn \<or> (\<exists>j<i. d \<in> set (ws ! j))"
  using assms
proof (induction rem dn arbitrary: ws i rule: waves_loop.induct)
  case (1 rem dn)
  then have ne: "rem \<noteq> []" by auto
  from waves_loop_Cons [OF 1(2) ne] obtain ws' where
    w: "ws = map cn_number (filter (is_ready dn) rem) # ws'" "filter (is_ready dn) rem \<noteq> []"
    "waves_loop (filter (\<lambda>n. \<not> is_ready dn n) rem) (dn @ map cn_number (filter (is_ready dn) rem)) = Some ws'" .
  have inj: "m = n" if "m \<in> set rem" "cn_number m = cn_number n" for m
    using 1(3,5) that by (auto simp: distinct_map inj_on_def)
  show ?case
  proof (cases i)
    case 0
    with 1(6) w(1) inj have "is_ready dn n" by auto
    with 1(7) show ?thesis by (auto simp: is_ready_def list_all_iff)
  next
    case (Suc k)
    have "set (concat ws') = set (map cn_number (filter (\<lambda>n. \<not> is_ready dn n) rem))"
      using waves_loop_mset [OF w(3)] mset_eq_setD by blast
    moreover have "cn_number n \<in> set (concat ws')" using 1(4,6) Suc w(1) by (auto intro!: bexI [of _ "ws' ! k"])
    ultimately have "n \<in> set (filter (\<lambda>n. \<not> is_ready dn n) rem)" using inj by auto
    with 1(1) [OF ne refl refl w(2) refl w(3) _ _ _ _ 1(7), of k] 1(3,4,6) Suc w(1)
    have "d \<in> set (dn @ map cn_number (filter (is_ready dn) rem)) \<or> (\<exists>j<k. d \<in> set (ws' ! j))"
      by (simp add: distinct_map_filter)
    then show ?thesis
    proof (elim disjE exE conjE)
      assume "d \<in> set (dn @ map cn_number (filter (is_ready dn) rem))"
      then show ?thesis using w(1) Suc by (auto intro!: exI [of _ 0])
    next
      fix j assume "j < k" "d \<in> set (ws' ! j)"
      then show ?thesis using w(1) Suc by (auto intro!: exI [of _ "Suc j"])
    qed
  qed
qed

lemma waves_loop_stuck:
  "waves_loop rem dn = None \<Longrightarrow>
     \<exists>rem' dn'. rem' \<noteq> [] \<and> set rem' \<subseteq> set rem \<and> (\<forall>n\<in>set rem'. \<not> is_ready dn' n)
       \<and> set dn \<union> cn_number ` set rem \<subseteq> set dn' \<union> cn_number ` set rem'"
proof (induction rem dn rule: waves_loop.induct)
  case (1 rem dn)
  let ?r = "filter (is_ready dn) rem" and ?b = "filter (\<lambda>n. \<not> is_ready dn n) rem"
  have ne: "rem \<noteq> []" using 1(2) by (auto simp: waves_loop.simps)
  show ?case
  proof (cases "?r = []")
    case True
    then show ?thesis using ne by (intro exI [of _ rem] exI [of _ dn]) (auto simp: filter_empty_conv)
  next
    case False
    with 1(2) ne have "waves_loop ?b (dn @ map cn_number ?r) = None"
      by (subst (asm) waves_loop.simps) (simp add: Let_def)
    from 1(1) [OF ne refl refl False refl this] obtain rem' dn' where
      "rem' \<noteq> []" "set rem' \<subseteq> set ?b" "\<forall>n\<in>set rem'. \<not> is_ready dn' n"
      "set (dn @ map cn_number ?r) \<union> cn_number ` set ?b \<subseteq> set dn' \<union> cn_number ` set rem'" by blast
    moreover have "cn_number ` set rem = set (map cn_number ?r) \<union> cn_number ` set ?b" by auto
    ultimately have "rem' \<noteq> [] \<and> set rem' \<subseteq> set rem \<and> (\<forall>n\<in>set rem'. \<not> is_ready dn' n)
        \<and> set dn \<union> cn_number ` set rem \<subseteq> set dn' \<union> cn_number ` set rem'"
      by (simp only: set_append) auto
    then show ?thesis by blast
  qed
qed

lemma stuck_cyclic:
  assumes "well_numbered g" "parallel_waves g = None"
  shows "\<not> acyclic (dep_rel g)"
proof
  assume ac: "acyclic (dep_rel g)"
  from waves_loop_stuck [OF assms(2) [unfolded parallel_waves_def]] obtain rem dn where
    r: "rem \<noteq> []" "set rem \<subseteq> set g" "\<forall>n\<in>set rem. \<not> is_ready dn n"
    "cn_number ` set g \<subseteq> set dn \<union> cn_number ` set rem" by auto
  have "wf ((dep_rel g)\<inverse>)"
    using finite_dep_rel ac by (simp add: finite_acyclic_wf acyclic_converse)
  moreover have "cn_number (hd rem) \<in> cn_number ` set rem" using r(1) by simp
  ultimately obtain z where z: "z \<in> cn_number ` set rem" "\<And>y. (y, z) \<in> (dep_rel g)\<inverse> \<Longrightarrow> y \<notin> cn_number ` set rem"
    by (rule wfE_min) blast
  then obtain n where n: "n \<in> set rem" "z = cn_number n" by auto
  then obtain d where d: "d \<in> set (cn_depends_on n)" "d \<notin> set dn"
    using r(3) by (auto simp: is_ready_def list_all_iff)
  have "n \<in> set g" using n r(2) by auto
  then have "d \<in> cn_number ` set rem" using d r(4) assms(1) unfolding well_numbered_def by blast
  moreover have "(z, d) \<in> dep_rel g"
    using dep_relI [OF find_node_distinct d(1)] assms(1) \<open>n \<in> set g\<close> n(2) by (simp add: well_numbered_def)
  ultimately show False using z(2) by blast
qed

definition wave_index :: "nat list list \<Rightarrow> nat \<Rightarrow> nat" where
  "wave_index ws a = (LEAST i. i < length ws \<and> a \<in> set (ws ! i))"

lemma wave_index_props:
  assumes "a \<in> set (concat ws)"
  shows "wave_index ws a < length ws" "a \<in> set (ws ! wave_index ws a)"
proof -
  from assms obtain w where "w \<in> set ws" "a \<in> set w" by auto
  then obtain i where "i < length ws \<and> a \<in> set (ws ! i)" by (metis in_set_conv_nth)
  then show "wave_index ws a < length ws" "a \<in> set (ws ! wave_index ws a)"
    unfolding wave_index_def by (metis (mono_tags, lifting) LeastI)+
qed

lemma wave_index_le: "i < length ws \<Longrightarrow> a \<in> set (ws ! i) \<Longrightarrow> wave_index ws a \<le> i"
  unfolding wave_index_def by (rule Least_le) simp

lemma distinct_concat_nth:
  assumes "distinct (concat ws)" "i < j" "j < length ws"
  shows "set (ws ! i) \<inter> set (ws ! j) = {}"
proof -
  have "concat ws = concat (take j ws) @ ws ! j @ concat (drop (Suc j) ws)"
    using id_take_nth_drop [OF assms(3)] by (metis concat.simps(2) concat_append)
  then have "distinct (concat (take j ws) @ ws ! j @ concat (drop (Suc j) ws))" using assms(1) by metis
  moreover have "ws ! i \<in> set (take j ws)" using assms(2,3) by (auto simp: in_set_conv_nth intro!: exI [of _ i])
  ultimately show ?thesis by auto
qed

lemma wave_index_unique:
  assumes "distinct (concat ws)" "i < length ws" "a \<in> set (ws ! i)"
  shows "wave_index ws a = i"
proof (rule ccontr)
  assume ne: "wave_index ws a \<noteq> i"
  have "a \<in> set (concat ws)" using assms(2,3) by auto
  note w = wave_index_props [OF this]
  have "set (ws ! i) \<inter> set (ws ! wave_index ws a) = {}"
    using distinct_concat_nth [OF assms(1)] assms(2) w(1) ne by (metis Int_commute linorder_neqE_nat)
  with assms(3) w(2) show False by blast
qed

lemma dep_wave_index:
  assumes "well_numbered g" "parallel_waves g = Some ws" "(a, b) \<in> dep_rel g"
  shows "wave_index ws b < wave_index ws a"
proof -
  from assms(3) obtain n where n: "find_node g a = Some n" "b \<in> set (cn_depends_on n)" by (auto simp: dep_rel_def)
  note w = assms(2) [unfolded parallel_waves_def]
  have mem: "n \<in> set g" "cn_number n = a" using find_node_SomeD [OF n(1)] by auto
  then have "a \<in> set (concat ws)" using waves_loop_mset [OF w] mset_eq_setD by fastforce
  note i = wave_index_props [OF this]
  have "distinct (map cn_number g)" using assms(1) by (simp add: well_numbered_def)
  from waves_loop_deps [OF w this i(1) mem(1) _ n(2)] i(2) mem(2)
  obtain j where "j < wave_index ws a" "b \<in> set (ws ! j)" by auto
  then show ?thesis using wave_index_le [of j ws b] i(1) by linarith
qed

lemma trancl_wave_index:
  assumes "well_numbered g" "parallel_waves g = Some ws" "(a, b) \<in> (dep_rel g)\<^sup>+"
  shows "wave_index ws b < wave_index ws a"
  using assms(3)
proof (induction rule: trancl_induct)
  case (base y)
  then show ?case using dep_wave_index [OF assms(1,2)] by simp
next
  case (step y z)
  then show ?case using dep_wave_index [OF assms(1,2) step(2)] by simp
qed

lemma waves_Some_acyclic: "well_numbered g \<Longrightarrow> parallel_waves g = Some ws \<Longrightarrow> acyclic (dep_rel g)"
  unfolding acyclic_def using trancl_wave_index by blast

lemma waves_None_iff: "well_numbered g \<Longrightarrow> parallel_waves g = None \<longleftrightarrow> \<not> acyclic (dep_rel g)"
  using stuck_cyclic [of g] waves_Some_acyclic [of g] by (cases "parallel_waves g") auto

text \<open>
  The layering into waves ends for every graph, and on a graph with distinct criterion
  numbers and known dependencies it gives up exactly when the dependencies have a cycle.
\<close>

theorem parallel_waves_None_iff_cycle:
  assumes "well_numbered g"
  shows "parallel_waves g = None \<longleftrightarrow> (\<exists>c. (c, c) \<in> (dep_rel g)\<^sup>+)"
  using waves_None_iff [OF assms] by (simp add: acyclic_def)

definition cyclic_graph :: CriterionGraph where
  "cyclic_graph = [\<lparr>cn_number = 1, cn_depends_on = [2], cn_write_scope = [''a'']\<rparr>,
                   \<lparr>cn_number = 2, cn_depends_on = [1], cn_write_scope = [''b'']\<rparr>]"

theorem parallel_waves_None_iff_cycle_witness: "parallel_waves cyclic_graph = None"
proof -
  have "well_numbered cyclic_graph" by (auto simp: well_numbered_def cyclic_graph_def)
  moreover have "(1, 1) \<in> (dep_rel cyclic_graph)\<^sup>+"
  proof (rule trancl_into_trancl2 [OF _ r_into_trancl])
    show "(1, 2) \<in> dep_rel cyclic_graph" "(2, 1) \<in> dep_rel cyclic_graph"
      by (simp_all add: dep_rel_def find_node_def cyclic_graph_def)
  qed
  ultimately show ?thesis using parallel_waves_None_iff_cycle by blast
qed

subsection \<open>What validation establishes\<close>

definition contract_ok :: "nat \<Rightarrow> CriterionGraph \<Rightarrow> bool" where
  "contract_ok k g \<longleftrightarrow> map cn_number g = [1..<k + 1]
     \<and> (\<forall>n\<in>set g. cn_number n \<notin> set (cn_depends_on n) \<and> set (cn_depends_on n) \<subseteq> cn_number ` set g)"

lemma contract_numbers: "contract_ok k g \<Longrightarrow> map cn_number g = [1..<k + 1]"
  by (simp add: contract_ok_def)

lemma contract_well_numbered: "contract_ok k g \<Longrightarrow> well_numbered g"
  by (simp add: contract_ok_def well_numbered_def)

lemma node_violations_Nil_iff:
  "node_violations g p n = [] \<longleftrightarrow> cn_number n = p \<and> cn_number n \<notin> set (cn_depends_on n)
     \<and> set (cn_depends_on n) \<subseteq> cn_number ` set g"
proof -
  have deps: "(\<forall>d\<in>set (cn_depends_on n). (if d = cn_number n then [SelfDependency (cn_number n)]
       else if \<not> list_ex (\<lambda>n. cn_number n = d) g then [UnknownDependency (cn_number n) d] else []) = [])
     \<longleftrightarrow> cn_number n \<notin> set (cn_depends_on n) \<and> set (cn_depends_on n) \<subseteq> cn_number ` set g"
    by (auto simp: list_ex_iff image_iff)
  show ?thesis
    unfolding node_violations_def append_is_Nil_conv concat_eq_Nil_conv set_map ball_simps deps by simp
qed

definition numbering_violations :: "CriterionGraph \<Rightarrow> nat \<Rightarrow> ContractViolation list" where
  "numbering_violations g k =
     (if length g \<noteq> k then [RowCount (length g) k] else [])
     @ concat (map (\<lambda>(idx, node). node_violations g (idx + 1) node) (enumerate 0 g))"

lemma validate_eq:
  "validate g k = (if numbering_violations g k \<noteq> [] then numbering_violations g k
                   else if parallel_waves g = None then [Cycle (cycle_members g)]
                   else scope_conflicts g g)"
  by (simp add: validate_def numbering_violations_def Let_def)

lemma numbering_violations_Nil_iff: "numbering_violations g k = [] \<longleftrightarrow> contract_ok k g"
proof -
  have "numbering_violations g k = [] \<longleftrightarrow>
      length g = k \<and> (\<forall>i<length g. node_violations g (Suc i) (g ! i) = [])"
    unfolding numbering_violations_def append_is_Nil_conv concat_eq_Nil_conv set_map ball_simps
    by (simp add: all_set_conv_all_nth nth_enumerate_eq)
  also have "\<dots> \<longleftrightarrow> (length g = k \<and> (\<forall>i<length g. cn_number (g ! i) = Suc i))
      \<and> (\<forall>n\<in>set g. cn_number n \<notin> set (cn_depends_on n) \<and> set (cn_depends_on n) \<subseteq> cn_number ` set g)"
    unfolding node_violations_Nil_iff all_set_conv_all_nth by blast
  also have "length g = k \<and> (\<forall>i<length g. cn_number (g ! i) = Suc i) \<longleftrightarrow> map cn_number g = [1..<k + 1]"
  proof
    assume "length g = k \<and> (\<forall>i<length g. cn_number (g ! i) = Suc i)"
    then show "map cn_number g = [1..<k + 1]" by (intro nth_equalityI) (simp_all del: upt_Suc)
  next
    assume m: "map cn_number g = [1..<k + 1]"
    have len: "length g = k" using arg_cong [OF m, of length] by (simp del: upt_Suc)
    have "cn_number (g ! i) = Suc i" if "i < length g" for i
      using arg_cong [OF m, of "\<lambda>xs. xs ! i"] that len by (simp del: upt_Suc)
    with len show "length g = k \<and> (\<forall>i<length g. cn_number (g ! i) = Suc i)" by blast
  qed
  finally show ?thesis unfolding contract_ok_def .
qed

lemma validate_structural_free_iff:
  "list_all (\<lambda>v. \<not> is_structural v) (validate g k) \<longleftrightarrow> contract_ok k g \<and> acyclic (dep_rel g)"
proof (cases "contract_ok k g")
  case True
  have "\<not> is_structural v" if "v \<in> set (scope_conflicts g ns)" for v ns
    using that by (induction ns) (auto simp: pair_conflicts_def split: if_splits option.splits)
  then have "list_all (\<lambda>v. \<not> is_structural v) (scope_conflicts g g)" by (simp add: list_all_iff)
  with True show ?thesis
    using waves_None_iff [OF contract_well_numbered [OF True]]
    by (simp add: validate_eq numbering_violations_Nil_iff)
next
  case False
  have "is_structural v" if "v \<in> set (numbering_violations g k)" for v
    using that by (auto simp: numbering_violations_def dest: node_violations_structural split: if_splits)
  moreover have ne: "numbering_violations g k \<noteq> []" using False by (simp add: numbering_violations_Nil_iff)
  moreover obtain v where "v \<in> set (numbering_violations g k)"
    using ne by (cases "numbering_violations g k") auto
  ultimately have "\<not> list_all (\<lambda>v. \<not> is_structural v) (numbering_violations g k)"
    unfolding list_all_iff by blast
  with ne False show ?thesis by (simp add: validate_eq)
qed

lemma scope_conflicts_Nil_iff:
  "scope_conflicts g ns = [] \<longleftrightarrow>
     (\<forall>i j. i < j \<and> j < length ns \<longrightarrow> pair_conflicts g (ns ! i) (ns ! j) = [])"
proof (induction ns)
  case (Cons a ns)
  have "(\<forall>i j. i < j \<and> j < length (a # ns) \<longrightarrow> pair_conflicts g ((a # ns) ! i) ((a # ns) ! j) = []) \<longleftrightarrow>
      (\<forall>j<length ns. pair_conflicts g a (ns ! j) = [])
      \<and> (\<forall>i j. i < j \<and> j < length ns \<longrightarrow> pair_conflicts g (ns ! i) (ns ! j) = [])"
    (is "?l \<longleftrightarrow> ?r")
  proof
    assume ?l
    then have "pair_conflicts g ((a # ns) ! 0) ((a # ns) ! Suc j) = []" if "j < length ns" for j
      using that by (metis length_Cons not_less_eq zero_less_Suc)
    moreover from \<open>?l\<close> have "pair_conflicts g ((a # ns) ! Suc i) ((a # ns) ! Suc j) = []" if "i < j" "j < length ns" for i j
      using that by (metis length_Cons not_less_eq)
    ultimately show ?r by simp
  next
    assume r: ?r
    show ?l
    proof (intro allI impI)
      fix i j assume ij: "i < j \<and> j < length (a # ns)"
      then obtain j' where "j = Suc j'" using less_imp_Suc_add by blast
      with r ij show "pair_conflicts g ((a # ns) ! i) ((a # ns) ! j) = []" by (cases i) auto
    qed
  qed
  with Cons show ?case by (simp add: all_set_conv_all_nth)
qed simp

lemma pair_conflicts_Nil_iff:
  "pair_conflicts g a b = [] \<longleftrightarrow> ordered g (cn_number a) (cn_number b)
     \<or> overlapping_scope (cn_write_scope a) (cn_write_scope b) = None"
  by (auto simp: pair_conflicts_def split: option.splits)

lemma validate_Nil_iff:
  "validate g k = [] \<longleftrightarrow> contract_ok k g \<and> acyclic (dep_rel g) \<and> scope_conflicts g g = []"
proof (cases "contract_ok k g")
  case True
  then show ?thesis using waves_None_iff [OF contract_well_numbered [OF True]]
    by (auto simp: validate_eq numbering_violations_Nil_iff)
qed (simp add: validate_eq numbering_violations_Nil_iff)

lemma paths_overlap_sym: "paths_overlap a b = paths_overlap b a"
  by (auto simp: paths_overlap_def Let_def)

lemma overlapping_scope_None_iff:
  "overlapping_scope a b = None \<longleftrightarrow> a \<noteq> [] \<and> b \<noteq> [] \<and> (\<forall>x\<in>set a. \<forall>y\<in>set b. \<not> paths_overlap x y)"
  by (auto simp: overlapping_scope_def find_None_iff list_ex_iff)

lemma overlapping_scope_sym: "overlapping_scope a b = None \<longleftrightarrow> overlapping_scope b a = None"
  unfolding overlapping_scope_None_iff using paths_overlap_sym by blast

text \<open>
  Property C19. A validated contract can be run wave by wave without a race. When validation reports
  nothing, the waves exist, list every criterion from 1 to the number of criteria exactly once, put
  every dependency of a criterion into an earlier wave, and two different criteria of one wave have
  declared, pairwise non-overlapping write scopes.
\<close>

theorem valid_contract_waves_safe:
  assumes "validate g k = []"
  shows "\<exists>ws. parallel_waves g = Some ws \<and> mset (concat ws) = mset [1..<k + 1]
     \<and> (\<forall>i<length ws. \<forall>n\<in>set g. cn_number n \<in> set (ws ! i) \<longrightarrow>
          (\<forall>d\<in>set (cn_depends_on n). \<exists>j<i. d \<in> set (ws ! j)))
     \<and> (\<forall>i<length ws. \<forall>a\<in>set g. \<forall>b\<in>set g.
          cn_number a \<in> set (ws ! i) \<and> cn_number b \<in> set (ws ! i) \<and> a \<noteq> b \<longrightarrow>
          overlapping_scope (cn_write_scope a) (cn_write_scope b) = None)"
proof -
  have ok: "contract_ok k g" "acyclic (dep_rel g)" and sc: "scope_conflicts g g = []"
    using assms by (simp_all add: validate_Nil_iff)
  note wn = contract_well_numbered [OF ok(1)]
  then have dist: "distinct (map cn_number g)" by (simp add: well_numbered_def)
  obtain ws where ws: "parallel_waves g = Some ws" using waves_None_iff [OF wn] ok(2) by auto
  note w = ws [unfolded parallel_waves_def]
  have ms: "mset (concat ws) = mset [1..<k + 1]" using waves_loop_mset [OF w] contract_numbers [OF ok(1)] by metis
  have deps: "\<exists>j<i. d \<in> set (ws ! j)"
    if "i < length ws" "n \<in> set g" "cn_number n \<in> set (ws ! i)" "d \<in> set (cn_depends_on n)" for i n d
    using waves_loop_deps [OF w dist that] by simp
  have same: "overlapping_scope (cn_write_scope a) (cn_write_scope b) = None"
    if i: "i < length ws" and ab: "a \<in> set g" "b \<in> set g" "a \<noteq> b"
      "cn_number a \<in> set (ws ! i)" "cn_number b \<in> set (ws ! i)" for i a b
  proof -
    have "distinct (concat ws)" using mset_eq_imp_distinct_iff [OF ms] by simp
    then have idx: "wave_index ws c = i" if "c \<in> set (ws ! i)" for c
      using wave_index_unique [OF _ i that] by simp
    then have "\<not> ordered g (cn_number a) (cn_number b)"
      unfolding ordered_trancl using trancl_wave_index [OF wn ws] ab(4,5) by fastforce
    moreover obtain p q where pq: "p < length g" "g ! p = a" "q < length g" "g ! q = b" "p \<noteq> q"
      using ab(1-3) by (metis in_set_conv_nth)
    ultimately show ?thesis
      using sc [unfolded scope_conflicts_Nil_iff pair_conflicts_Nil_iff] overlapping_scope_sym
      by (cases "p < q") (auto simp: ordered_def not_less_iff_gr_or_eq)
  qed
  from ws ms deps same show ?thesis by blast
qed

definition two_wide_graph :: CriterionGraph where
  "two_wide_graph = [\<lparr>cn_number = 1, cn_depends_on = [], cn_write_scope = [''src/parse/**'']\<rparr>,
                     \<lparr>cn_number = 2, cn_depends_on = [], cn_write_scope = [''src/cli.rs'']\<rparr>,
                     \<lparr>cn_number = 3, cn_depends_on = [1, 2], cn_write_scope = [''src/cli.rs'']\<rparr>]"

theorem valid_contract_waves_safe_witness:
  "\<exists>ws. parallel_waves two_wide_graph = Some ws \<and> mset (concat ws) = mset [1..<3 + 1]"
proof -
  have "validate two_wide_graph 3 = []" by code_simp
  from valid_contract_waves_safe [OF this] show ?thesis by blast
qed

subsection \<open>The repaired graph validates\<close>

lemma find_node_add_dependency:
  "find_node (add_dependency l e g) c =
     map_option (\<lambda>n. if c = l then n\<lparr>cn_depends_on := cn_depends_on n @ [e]\<rparr> else n) (find_node g c)"
  by (induction g) (auto simp: find_node_def option.map_ident)

lemma dep_rel_add_dependency: "dep_rel (add_dependency l e g) \<subseteq> insert (l, e) (dep_rel g)"
  by (auto simp: dep_rel_def find_node_add_dependency split: if_splits)

lemma dep_rel_add_dependency_mono: "dep_rel g \<subseteq> dep_rel (add_dependency l e g)"
proof (rule subrelI)
  fix a b assume "(a, b) \<in> dep_rel g"
  then obtain n where "find_node g a = Some n" "b \<in> set (cn_depends_on n)" by (auto simp: dep_rel_def)
  then show "(a, b) \<in> dep_rel (add_dependency l e g)"
    by (cases "a = l") (auto simp: dep_rel_def find_node_add_dependency)
qed

lemma add_dependency_nodes:
  "n \<in> set (add_dependency l e g) \<Longrightarrow>
     \<exists>m\<in>set g. cn_number n = cn_number m
       \<and> (n = m \<or> cn_number m = l \<and> set (cn_depends_on n) = insert e (set (cn_depends_on m)))"
  by (induction g) (auto split: if_splits)

lemma contract_add_dependency:
  assumes "contract_ok k g" "e \<in> cn_number ` set g" "e \<noteq> l"
  shows "contract_ok k (add_dependency l e g)"
proof -
  have num: "cn_number ` set (add_dependency l e g) = cn_number ` set g"
    by (metis numbers_add_dependency list.set_map)
  have "cn_number n \<notin> set (cn_depends_on n) \<and> set (cn_depends_on n) \<subseteq> cn_number ` set g"
    if n: "n \<in> set (add_dependency l e g)" for n
  proof -
    from add_dependency_nodes [OF n] obtain m where m: "m \<in> set g" "cn_number n = cn_number m"
      "n = m \<or> cn_number m = l \<and> set (cn_depends_on n) = insert e (set (cn_depends_on m))" by blast
    have "cn_number m \<notin> set (cn_depends_on m)" "set (cn_depends_on m) \<subseteq> cn_number ` set g"
      using assms(1) m(1) by (auto simp: contract_ok_def)
    with m assms(2,3) show ?thesis by auto
  qed
  then show ?thesis using assms(1) unfolding contract_ok_def numbers_add_dependency num by blast
qed

lemma scope_conflict_unordered:
  "ScopeConflict a b s \<in> set (scope_conflicts g ns) \<Longrightarrow> \<not> ordered g a b"
  by (induction ns) (auto simp: pair_conflicts_def split: if_splits option.splits)

lemma scope_conflict_neq:
  "distinct (map cn_number ns) \<Longrightarrow> ScopeConflict a b s \<in> set (scope_conflicts g ns) \<Longrightarrow> a \<noteq> b"
  by (induction ns) (auto simp: pair_conflicts_def split: if_splits option.splits)

lemma serialize_step_ok:
  assumes "serialize_step k g = Some g'" "contract_ok k g" "acyclic (dep_rel g)"
  shows "contract_ok k g' \<and> acyclic (dep_rel g') \<and> dep_rel g \<subseteq> dep_rel g'"
proof -
  from assms(1) obtain a b s e l n where c: "ScopeConflict a b s \<in> set (validate g k)"
    and el: "(e, l) = (if a < b then (a, b) else (b, a))"
    and n: "find_node g l = Some n" "e \<notin> set (cn_depends_on n)" "g' = add_dependency l e g"
    by (rule serialize_step_SomeD)
  note c' = validate_conflict [OF c]
  have "a \<noteq> b" using scope_conflict_neq [OF _ c'] contract_well_numbered [OF assms(2)]
    by (simp add: well_numbered_def)
  then have "e \<noteq> l" using el by (auto split: if_splits)
  moreover have "(e, l) \<notin> (dep_rel g)\<^sup>+"
    using scope_conflict_unordered [OF c'] el by (auto simp: ordered_trancl split: if_splits)
  ultimately have "(e, l) \<notin> (dep_rel g)\<^sup>*" by (auto simp: rtrancl_eq_or_trancl)
  with assms(3) have "acyclic (insert (l, e) (dep_rel g))" by (simp add: acyclic_insert)
  then have "acyclic (dep_rel g')" using dep_rel_add_dependency n(3) acyclic_subset by metis
  moreover have "e \<in> cn_number ` set g"
    using scope_conflicts_numbers [OF c'] el by (auto split: if_splits)
  ultimately show ?thesis
    using contract_add_dependency [OF assms(2) _ \<open>e \<noteq> l\<close>] dep_rel_add_dependency_mono n(3) by blast
qed

lemma serialize_step_None:
  assumes "serialize_step k g = None" "contract_ok k g" "acyclic (dep_rel g)"
  shows "validate g k = []"
proof (cases "List.map_filter conflict_pair (validate g k)")
  case Nil
  have "conflict_pair v \<noteq> None" if "v \<in> set (validate g k)" for v
    using validate_structural_free_iff [of g k] assms(2,3) that by (cases v) (auto simp: list_all_iff)
  with Nil show ?thesis by (cases "validate g k") (fastforce simp: List.map_filter_def)+
next
  case (Cons p r)
  obtain a b where p: "p = (a, b)" by (cases p)
  obtain s where "ScopeConflict a b s \<in> set (validate g k)" using first_conflict Cons p by blast
  note c = validate_conflict [OF this]
  obtain e l where el: "(e, l) = (if a < b then (a, b) else (b, a))" by (metis surj_pair)
  have "l \<in> cn_number ` set g" using scope_conflicts_numbers [OF c] el by (auto split: if_splits)
  then obtain n where n: "find_node g l = Some n" using find_node_None_iff [of g l] by auto
  with assms(1) Cons p el have "e \<in> set (cn_depends_on n)"
    by (auto simp: serialize_step_def Let_def split: if_splits prod.splits)
  then have "(l, e) \<in> (dep_rel g)\<^sup>+" using dep_relI [OF n] by blast
  then show ?thesis using scope_conflict_unordered [OF c] el by (auto simp: ordered_trancl split: if_splits)
qed

lemma serialize_conflicts_ok:
  "contract_ok k g \<Longrightarrow> acyclic (dep_rel g) \<Longrightarrow>
     validate (serialize_conflicts k g) k = [] \<and> dep_rel g \<subseteq> dep_rel (serialize_conflicts k g)"
proof (induction k g rule: serialize_conflicts.induct)
  case (1 k g)
  show ?case
  proof (cases "serialize_step k g")
    case None
    with serialize_step_None [OF None 1(2,3)] show ?thesis by (simp add: serialize_conflicts.simps [of k g])
  next
    case (Some g')
    from serialize_step_ok [OF Some 1(2,3)] 1(1) [OF Some] Some show ?thesis
      by (auto simp: serialize_conflicts.simps [of k g])
  qed
qed

lemma contract_serial: "contract_ok k (serial k)"
proof -
  have "map cn_number (serial k) = [1..<k + 1]" by (simp add: serial_def comp_def del: upt_Suc)
  moreover have "cn_number n \<notin> set (cn_depends_on n) \<and> set (cn_depends_on n) \<subseteq> cn_number ` set (serial k)"
    if "n \<in> set (serial k)" for n
    using that by (auto simp: serial_def image_image simp del: upt_Suc)
  ultimately show ?thesis by (simp only: contract_ok_def) blast
qed

lemma acyclic_serial: "acyclic (dep_rel (serial k))"
proof (rule acyclic_subset)
  show "acyclic {(a::nat, b). b < a}"
    using wf_acyclic [OF wf_less] acyclic_converse [of "{(x::nat, y). x < y}"] by (simp add: converse_unfold)
  show "dep_rel (serial k) \<subseteq> {(a, b). b < a}"
    by (auto simp: dep_rel_def serial_def dest!: find_node_SomeD split: if_splits)
qed

lemma load_graph_ok:
  "validate (load_criterion_graph body k) k = []"
  "parse_criterion_graph body = Some g \<Longrightarrow> list_all (\<lambda>v. \<not> is_structural v) (validate g k) \<Longrightarrow>
     dep_rel g \<subseteq> dep_rel (load_criterion_graph body k)"
  using serialize_conflicts_ok [OF contract_serial acyclic_serial] serialize_conflicts_ok
  by (auto simp: load_criterion_graph_def validate_structural_free_iff split: option.split)

text \<open>
  Property C18. The graph that is scheduled is always sound. Whatever the plan text holds (no table,
  a malformed or cyclic one, overlapping scopes), loading it terminates with a graph over exactly the
  given number of criteria for which validation reports no violation of any kind.
\<close>

theorem load_criterion_graph_valid: "validate (load_criterion_graph body k) k = []"
  by (rule load_graph_ok)

text \<open>
  The repair of scope conflicts only adds ordering: when the declared table is
  structurally sound, every declared dependency is still a dependency of the loaded graph.
\<close>

theorem load_keeps_dependencies:
  assumes "parse_criterion_graph body = Some g"
    and "list_all (\<lambda>v. \<not> is_structural v) (validate g k)"
    and "reaches g a b"
  shows "reaches (load_criterion_graph body k) a b"
  using load_graph_ok(2) [OF assms(1,2)] assms(3) by (auto simp: reaches_trancl intro: trancl_mono)

definition chain_plan :: string where
  "chain_plan = unlines [''## Criterion dependencies'', ''| # | Depends on | Write scope |'', ''|---|---|---|'',
     ''| 1 | - | src/a.rs |'', ''| 2 | 1 | src/a.rs |'', ''| 3 | 2 | src/b.rs |'']"

definition chain_graph :: CriterionGraph where
  "chain_graph = [\<lparr>cn_number = 1, cn_depends_on = [], cn_write_scope = [''src/a.rs'']\<rparr>,
                  \<lparr>cn_number = 2, cn_depends_on = [1], cn_write_scope = [''src/a.rs'']\<rparr>,
                  \<lparr>cn_number = 3, cn_depends_on = [2], cn_write_scope = [''src/b.rs'']\<rparr>]"

lemma small_numbers:
  "parse_number ''1'' = Some 1" "parse_number ''2'' = Some 2" "parse_number ''3'' = Some 3" "parse_number ''#'' = None"
proof -
  have t: "trim ''1'' = ''1''" "trim ''2'' = ''2''" "trim ''3'' = ''3''" "trim ''#'' = ''#''" by code_simp+
  have d: "is_ascii_digit (CHR ''1'')" "is_ascii_digit (CHR ''2'')" "is_ascii_digit (CHR ''3'')"
    "\<not> is_ascii_digit (CHR ''#'')" by code_simp+
  show "parse_number ''1'' = Some 1" "parse_number ''2'' = Some 2" "parse_number ''3'' = Some 3" "parse_number ''#'' = None"
    by (simp_all add: parse_number_def t d parse_uint_def digits_val_def u32_max_def)
qed

theorem load_keeps_dependencies_witness: "reaches (load_criterion_graph chain_plan 3) 3 1"
proof -
  have "section_lines chain_plan GRAPH_SECTION = [''| # | Depends on | Write scope |'', ''|---|---|---|'',
     ''| 1 | - | src/a.rs |'', ''| 2 | 1 | src/a.rs |'', ''| 3 | 2 | src/b.rs |'']" by code_simp
  moreover have "table_cells ''| # | Depends on | Write scope |'' = [''#'', ''Depends on'', ''Write scope'']"
    "table_cells ''|---|---|---|'' = [''---'', ''---'', ''---'']"
    "table_cells ''| 1 | - | src/a.rs |'' = [''1'', ''-'', ''src/a.rs'']"
    "table_cells ''| 2 | 1 | src/a.rs |'' = [''2'', ''1'', ''src/a.rs'']"
    "table_cells ''| 3 | 2 | src/b.rs |'' = [''3'', ''2'', ''src/b.rs'']" by code_simp+
  moreover have "is_separator_row [''---'', ''---'', ''---'']" "\<not> is_separator_row [''#'', ''Depends on'', ''Write scope'']"
    "\<not> is_separator_row [''1'', ''-'', ''src/a.rs'']" "\<not> is_separator_row [''2'', ''1'', ''src/a.rs'']"
    "\<not> is_separator_row [''3'', ''2'', ''src/b.rs'']" by code_simp+
  moreover have "parse_list ''-'' = []" "parse_list ''1'' = [''1'']" "parse_list ''2'' = [''2'']"
    "parse_list ''src/a.rs'' = [''src/a.rs'']" "parse_list ''src/b.rs'' = [''src/b.rs'']" by code_simp+
  ultimately have "parse_criterion_graph chain_plan = Some chain_graph"
    by (simp add: parse_criterion_graph_def parse_node_def List.map_filter_def small_numbers chain_graph_def)
  moreover have "list_all (\<lambda>v. \<not> is_structural v) (validate chain_graph 3)" by code_simp
  moreover have "reaches chain_graph 3 1" by code_simp
  ultimately show ?thesis by (rule load_keeps_dependencies)
qed

subsection \<open>Overlap of write scopes\<close>

text \<open>The files a declared scope may write, as far as the check reads it: everything at or below the
  literal prefix of its normal form.\<close>

definition covers :: "string \<Rightarrow> string \<Rightarrow> bool" where
  "covers scope path \<longleftrightarrow> prefix_at_boundary (literal_prefix (normalize_scope scope)) path"

lemma prefix_at_boundary_iff:
  "prefix_at_boundary p c \<longleftrightarrow> p = [] \<or> p = c \<or> (\<exists>r. c = p @ CHR ''/'' # r)"
  by (auto simp: prefix_at_boundary_def starts_with_iff split: option.splits)

lemma prefix_at_boundary_refl: "prefix_at_boundary p p"
  by (simp add: prefix_at_boundary_def)

lemma prefix_at_boundary_linear:
  assumes "prefix_at_boundary p f" "prefix_at_boundary q f"
  shows "prefix_at_boundary p q \<or> prefix_at_boundary q p"
  using assms unfolding prefix_at_boundary_iff
  by (auto simp: append_eq_append_conv2 append_eq_Cons_conv Cons_eq_append_conv)

text \<open>
  The overlap test is exact for the reading of scopes it works with: two scopes overlap
  exactly when some path lies at or below the literal prefix of both. So a criterion that stays
  within its scope never writes a file that a non-overlapping scope covers, and path segments are
  compared whole.
\<close>

theorem paths_overlap_iff_common_path: "paths_overlap a b \<longleftrightarrow> (\<exists>path. covers a path \<and> covers b path)"
proof
  let ?p = "literal_prefix (normalize_scope a)" and ?q = "literal_prefix (normalize_scope b)"
  assume "paths_overlap a b"
  then consider "prefix_at_boundary ?p ?q" | "prefix_at_boundary ?q ?p" by (auto simp: paths_overlap_def Let_def)
  then show "\<exists>path. covers a path \<and> covers b path"
    unfolding covers_def by cases (blast intro: prefix_at_boundary_refl)+
next
  assume "\<exists>path. covers a path \<and> covers b path"
  then show "paths_overlap a b" unfolding covers_def paths_overlap_def Let_def using prefix_at_boundary_linear by blast
qed

text \<open>
  Two readings the overlap test misses: the repository root written as a dot, and brace
  alternatives. Neither is expanded or treated as overlapping with everything, so two criteria that
  declare the root and one of its files, or a brace pattern and one of its members, count as disjoint.
\<close>

theorem overlap_misses_dot_and_braces:
  "\<not> paths_overlap ''.'' ''src/a.rs'' \<and> \<not> paths_overlap ''src/{a,b}.rs'' ''src/a.rs''
   \<and> overlapping_scope [''.''] [''src/a.rs''] = None"
  by code_simp

end
