(* ===== verification/Checklist.thy ===== *)
theory Checklist
  imports Plan_Md
begin

text \<open>
  \<^verbatim>\<open>crates/codegen/xai-grok-shell/src/session/goal_acceptance_checklist.rs\<close>: the dual-column
  acceptance checklist of the goal plan. The main result is the round trip of the rewriter: on a
  plan without blank checklist rows, rewriting the marks of selected criteria changes exactly those
  marks as the reader sees them. Row counters are unbounded here; the code counts in \<^verbatim>\<open>u32\<close>, which a
  plan file of fewer than $2^{32}$ rows cannot overflow.
\<close>

definition SECTION :: string where "SECTION = ''acceptance checklist''"

record DualRow =
  dr_exec :: bool
  dr_audit :: bool
  dr_criterion :: string

definition parse_mark :: "string \<Rightarrow> bool option" where
  "parse_mark cell =
     (let t = trim cell in
      if t = ''[x]'' \<or> t = ''[X]'' then Some True
      else if t = ''[ ]'' then Some False
      else None)"

text \<open>The header row test both loops share: \<^verbatim>\<open>| Exec | Audit | ...\<close>.\<close>

definition is_title_row :: "string list \<Rightarrow> bool" where
  "is_title_row cells =
     (eq_ignore_ascii_case (cells ! 0) ''exec'' \<and> eq_ignore_ascii_case (cells ! 1) ''audit'')"

text \<open>The body of the loop of \<^verbatim>\<open>parse_dual_rows\<close> for one line inside the section.\<close>

definition parse_row :: "string \<Rightarrow> DualRow option" where
  "parse_row line =
     (let cells = table_cells line in
      if length cells < 3 then None
      else if is_separator_row cells then None
      else if is_title_row cells then None
      else (case parse_mark (cells ! 0) of
              None \<Rightarrow> None
            | Some exec \<Rightarrow>
                (case parse_mark (cells ! 1) of
                   None \<Rightarrow> None
                 | Some audit \<Rightarrow>
                     (let criterion = trim (join '' | '' (drop 2 cells)) in
                      if criterion = [] then None
                      else Some \<lparr>dr_exec = exec, dr_audit = audit, dr_criterion = criterion\<rparr>))))"

fun dual_loop :: "bool \<Rightarrow> nat \<Rightarrow> string list \<Rightarrow> DualRow list" where
  "dual_loop in_section section_level [] = []"
| "dual_loop in_section section_level (line # ls) =
     (if is_section_header line SECTION then dual_loop True (header_level line) ls
      else if in_section \<and> is_any_header line \<and> header_level line \<le> section_level then []
      else if \<not> in_section then dual_loop False section_level ls
      else (case parse_row line of
              Some row \<Rightarrow> row # dual_loop True section_level ls
            | None \<Rightarrow> dual_loop True section_level ls))"

definition parse_dual_rows :: "string \<Rightarrow> DualRow list" where
  "parse_dual_rows body = dual_loop False 0 (lines body)"

definition has_dual_checklist :: "string \<Rightarrow> bool" where
  "has_dual_checklist body \<longleftrightarrow> parse_dual_rows body \<noteq> []"

definition all_exec_checked :: "string \<Rightarrow> bool" where
  "all_exec_checked body = (let rows = parse_dual_rows body in rows \<noteq> [] \<and> list_all dr_exec rows)"

definition all_audit_checked :: "string \<Rightarrow> bool" where
  "all_audit_checked body = (let rows = parse_dual_rows body in rows \<noteq> [] \<and> list_all dr_audit rows)"

definition first_unchecked_exec :: "string \<Rightarrow> string option" where
  "first_unchecked_exec body =
     map_option dr_criterion (List.find (\<lambda>r. \<not> dr_exec r) (parse_dual_rows body))"

definition first_unchecked_exec_from_path :: "string option \<Rightarrow> string option" where
  "first_unchecked_exec_from_path file = Option.bind (read_capped file) first_unchecked_exec"

text \<open>The caller of both readers, \<^verbatim>\<open>goal_next_step.rs::first_unchecked_plan_item\<close>.\<close>

definition first_unchecked_plan_item :: "string option \<Rightarrow> string option" where
  "first_unchecked_plan_item file =
     (case read_capped file of
        None \<Rightarrow> None
      | Some body \<Rightarrow>
          (case first_unchecked_exec body of
             Some item \<Rightarrow> Some item
           | None \<Rightarrow> extract_first_unchecked body))"

definition missing_checklist_text :: string where
  "missing_checklist_text =
     ''Plan is missing a dual-column '' @ [BACKTICK] @ ''## Acceptance checklist'' @ [BACKTICK]
     @ '' (Exec | Audit | Criterion). ''
     @ ''Re-run planning or add one row per acceptance criterion before ''
     @ [BACKTICK] @ ''update_goal(completed: true)'' @ [BACKTICK] @ ''.''"

text \<open>
  \<^verbatim>\<open>require_exec_complete\<close>: \<open>display\<close> is the printed path, \<open>read\<close> what reading the file gave, an I/O
  error text or the body.
\<close>

definition require_exec_complete :: "string \<Rightarrow> string + string \<Rightarrow> string + unit" where
  "require_exec_complete display read =
     (case read of
        Inl e \<Rightarrow> Inl (''Cannot read goal plan at '' @ display @ '': '' @ e
                     @ ''. Finish planning before marking complete.'')
      | Inr body \<Rightarrow>
          (let rows = parse_dual_rows body in
           if rows = [] then Inl missing_checklist_text
           else (case List.find (\<lambda>r. \<not> dr_exec r) rows of
                   Some pending \<Rightarrow>
                     Inl (''Execution column incomplete '' @ EM_DASH @ '' check off every Exec mark in ''
                          @ [BACKTICK] @ ''## Acceptance checklist'' @ [BACKTICK]
                          @ '' before requesting audit. First open: '' @ dr_criterion pending)
                 | None \<Rightarrow> Inr ())))"

subsection \<open>Rewriting marks\<close>

definition mark_glyph :: "bool \<Rightarrow> string" where
  "mark_glyph checked = (if checked then ''[x]'' else ''[ ]'')"

datatype Column = Exec | Audit

definition is_mark_row :: "string list \<Rightarrow> bool" where
  "is_mark_row cells =
     (3 \<le> length cells \<and> \<not> is_separator_row cells \<and> \<not> is_title_row cells
      \<and> parse_mark (cells ! 0) \<noteq> None \<and> parse_mark (cells ! 1) \<noteq> None)"

definition rewritten_row :: "Column \<Rightarrow> bool \<Rightarrow> string list \<Rightarrow> string" where
  "rewritten_row column checked cells =
     (let (exec, audit) = (case column of
            Exec \<Rightarrow> (mark_glyph checked, trim (cells ! 1))
          | Audit \<Rightarrow> (trim (cells ! 0), mark_glyph checked))
      in ''| '' @ exec @ '' | '' @ audit @ '' | '' @ trim (join '' | '' (drop 2 cells)) @ '' |'')"

text \<open>
  The loop of \<^verbatim>\<open>rewrite_marks_where\<close>, returning the output lines. \<open>row_number\<close> counts every line with
  two mark cells, whatever its criterion.
\<close>

fun rewrite_loop ::
    "Column \<Rightarrow> bool \<Rightarrow> (nat \<Rightarrow> bool) \<Rightarrow> bool \<Rightarrow> nat \<Rightarrow> nat \<Rightarrow> string list \<Rightarrow> string list" where
  "rewrite_loop column checked should_rewrite in_section section_level row_number [] = []"
| "rewrite_loop column checked should_rewrite in_section section_level row_number (line # ls) =
     (if is_section_header line SECTION
      then line # rewrite_loop column checked should_rewrite True (header_level line) row_number ls
      else
        let in_section = (in_section \<and> \<not> (is_any_header line \<and> header_level line \<le> section_level)) in
        if in_section \<and> is_mark_row (table_cells line) then
          let row_number = row_number + 1 in
          (if should_rewrite row_number then rewritten_row column checked (table_cells line) else line)
          # rewrite_loop column checked should_rewrite in_section section_level row_number ls
        else line # rewrite_loop column checked should_rewrite in_section section_level row_number ls)"

definition rewrite_marks_where :: "string \<Rightarrow> Column \<Rightarrow> bool \<Rightarrow> (nat \<Rightarrow> bool) \<Rightarrow> string" where
  "rewrite_marks_where body column checked should_rewrite =
     (let out = unlines (rewrite_loop column checked should_rewrite False 0 0 (lines body)) in
      if \<not> ends_with [NL] body \<and> ends_with [NL] out then butlast out else out)"

definition rewrite_audit_marks_where :: "string \<Rightarrow> bool \<Rightarrow> (nat \<Rightarrow> bool) \<Rightarrow> string" where
  "rewrite_audit_marks_where body checked should_rewrite =
     rewrite_marks_where body Audit checked should_rewrite"

definition rewrite_audit_marks :: "string \<Rightarrow> bool \<Rightarrow> string" where
  "rewrite_audit_marks body checked = rewrite_audit_marks_where body checked (\<lambda>_. True)"

definition rewrite_audit_marks_for_criteria :: "string \<Rightarrow> nat list \<Rightarrow> bool \<Rightarrow> string" where
  "rewrite_audit_marks_for_criteria body criteria checked =
     rewrite_audit_marks_where body checked (\<lambda>row. List.member criteria row)"

subsection \<open>The plan file\<close>

text \<open>
  The three writers are read-modify-write sequences under \<^verbatim>\<open>with_plan_lock\<close>. The file is its body,
  None when it cannot be read; \<open>pf_writable\<close> says whether a write succeeds.
\<close>

record plan_file =
  pf_body :: "string option"
  pf_writable :: bool

datatype io_error = ReadError | WriteError

definition update_plan :: "(string \<Rightarrow> string) \<Rightarrow> plan_file \<Rightarrow> (io_error + bool) \<times> plan_file" where
  "update_plan edit file =
     (case pf_body file of
        None \<Rightarrow> (Inl ReadError, file)
      | Some body \<Rightarrow>
          (let updated = edit body in
           if updated \<noteq> body then
             (if pf_writable file then (Inr True, file\<lparr>pf_body := Some updated\<rparr>)
              else (Inl WriteError, file))
           else (Inr False, file)))"

definition rewrite_plan :: "(string \<Rightarrow> string) \<Rightarrow> plan_file \<Rightarrow> (io_error + unit) \<times> plan_file" where
  "rewrite_plan edit file = apfst (map_sum id (\<lambda>_. ())) (update_plan edit file)"

definition set_all_audit_marks :: "bool \<Rightarrow> plan_file \<Rightarrow> (io_error + unit) \<times> plan_file" where
  "set_all_audit_marks checked = rewrite_plan (\<lambda>body. rewrite_audit_marks body checked)"

definition set_audit_marks_for_criteria ::
    "nat list \<Rightarrow> bool \<Rightarrow> plan_file \<Rightarrow> (io_error + unit) \<times> plan_file" where
  "set_audit_marks_for_criteria criteria checked file =
     (if criteria = [] then (Inr (), file)
      else rewrite_plan (\<lambda>body. rewrite_audit_marks_for_criteria body criteria checked) file)"

definition set_exec_marks_for_criteria ::
    "nat list \<Rightarrow> bool \<Rightarrow> plan_file \<Rightarrow> (io_error + unit) \<times> plan_file" where
  "set_exec_marks_for_criteria criteria checked file =
     (if criteria = [] then (Inr (), file)
      else rewrite_plan
        (\<lambda>body. rewrite_marks_where body Exec checked (\<lambda>row. List.member criteria row)) file)"

subsection \<open>Creating the checklist\<close>

text \<open>The numbered-item test of \<^verbatim>\<open>extract_numbered_acceptance_criteria\<close> on a trimmed line.\<close>

definition numbered_item :: "string \<Rightarrow> string option" where
  "numbered_item t =
     (let at = (case find_index (\<lambda>c. c = CHR ''.'') t of
                  Some i \<Rightarrow> Some i
                | None \<Rightarrow> find_index (\<lambda>c. c = CHR '')'') t)
      in case at of
           None \<Rightarrow> None
         | Some i \<Rightarrow>
             (let num = take i t; rest = drop i t in
              if list_all is_ascii_digit num \<and> num \<noteq> [] then Some (trim (drop 1 rest)) else None))"

fun numbered_loop :: "bool \<Rightarrow> nat \<Rightarrow> string list \<Rightarrow> string list" where
  "numbered_loop in_section section_level [] = []"
| "numbered_loop in_section section_level (line # ls) =
     (if is_section_header line ''acceptance criteria'' then numbered_loop True (header_level line) ls
      else if in_section \<and> is_any_header line \<and> header_level line \<le> section_level then []
      else if \<not> in_section then numbered_loop False section_level ls
      else (case numbered_item (trim line) of
              Some t \<Rightarrow> (if t \<noteq> [] then t # numbered_loop True section_level ls
                        else numbered_loop True section_level ls)
            | None \<Rightarrow> numbered_loop True section_level ls))"

definition extract_numbered_acceptance_criteria :: "string \<Rightarrow> string list" where
  "extract_numbered_acceptance_criteria body = numbered_loop False 0 (lines body)"

definition escape_pipes :: "string \<Rightarrow> string" where
  "escape_pipes c = concat (map (\<lambda>x. if x = CHR ''|'' then [BACKSLASH, CHR ''|''] else [x]) c)"

definition fresh_row :: "string \<Rightarrow> string" where
  "fresh_row safe = ''| [ ] | [ ] | '' @ safe @ '' |''"

definition checklist_table :: "string list \<Rightarrow> string" where
  "checklist_table criteria =
     unlines ([[], ''## Acceptance checklist'', [], ''| Exec | Audit | Criterion |'',
               ''|------|-------|----------|'']
              @ map (\<lambda>c. fresh_row (escape_pipes c)) criteria)"

definition section_markers :: "string list" where
  "section_markers = [''## Verification plan'', ''## Non-goals'', ''## Assumed scope'',
     ''## Implementation approach'', ''## Task checklist'', ''## Risks'']"

definition ensure_newline :: "string \<Rightarrow> string" where
  "ensure_newline out = (if ends_with [NL] out then out else out @ [NL])"

text \<open>Where the table goes: before the first marker, in the order of the list, that occurs.\<close>

fun insertion_index :: "string list \<Rightarrow> string \<Rightarrow> nat option" where
  "insertion_index [] body = None"
| "insertion_index (m # ms) body =
     (case find_sub m body of Some i \<Rightarrow> Some i | None \<Rightarrow> insertion_index ms body)"

definition ensure_dual_checklist_section :: "string \<Rightarrow> string" where
  "ensure_dual_checklist_section body =
     (if has_dual_checklist body then body
      else
        let criteria = extract_numbered_acceptance_criteria body in
        if criteria = [] then body
        else (case insertion_index section_markers body of
                Some idx \<Rightarrow> ensure_newline (ensure_newline (take idx body) @ checklist_table criteria)
                             @ drop idx body
              | None \<Rightarrow> ensure_newline body @ checklist_table criteria))"

definition ensure_dual_checklist_on_disk :: "plan_file \<Rightarrow> (io_error + bool) \<times> plan_file" where
  "ensure_dual_checklist_on_disk = update_plan ensure_dual_checklist_section"

subsection \<open>What a row says\<close>

definition row_criterion :: "string list \<Rightarrow> string" where
  "row_criterion cells = trim (join '' | '' (drop 2 cells))"

fun set_mark :: "Column \<Rightarrow> bool \<Rightarrow> DualRow \<Rightarrow> DualRow" where
  "set_mark Exec checked row = row\<lparr>dr_exec := checked\<rparr>"
| "set_mark Audit checked row = row\<lparr>dr_audit := checked\<rparr>"

lemma trim_marks [simp]: "trim ''[x]'' = ''[x]''" "trim ''[X]'' = ''[X]''" "trim ''[ ]'' = ''[ ]''"
  by code_simp+

lemma trim_mark_glyph [simp]: "trim (mark_glyph checked) = mark_glyph checked"
  by (simp add: mark_glyph_def)

lemma parse_mark_glyph [simp]: "parse_mark (mark_glyph checked) = Some checked"
  by (simp add: mark_glyph_def parse_mark_def Let_def)

lemma parse_mark_SomeD: "parse_mark c \<noteq> None \<Longrightarrow> trim c \<in> {''[x]'', ''[X]'', ''[ ]''}"
  by (auto simp: parse_mark_def Let_def split: if_splits)

lemma marked_cells:
  assumes "parse_mark (cells ! 0) \<noteq> None" "trim (cells ! 0) = cells ! 0" "cells \<noteq> []"
  shows "\<not> is_separator_row cells" "\<not> is_title_row cells"
proof -
  have c: "cells ! 0 \<in> {''[x]'', ''[X]'', ''[ ]''}" using parse_mark_SomeD [OF assms(1)] assms(2) by simp
  then show "\<not> is_title_row cells"
    by (auto simp: is_title_row_def eq_ignore_ascii_case_def to_ascii_lowercase_def)
  have mem: "cells ! 0 \<in> set cells" using assms(3) by simp
  show "\<not> is_separator_row cells"
  proof
    assume "is_separator_row cells"
    then have "list_all (\<lambda>ch. ch = CHR ''-'' \<or> ch = CHR '':'' \<or> ch = CHR '' '') (trim (cells ! 0))"
      using mem unfolding is_separator_row_def list_all_iff Let_def by blast
    then show False using c assms(2) by auto
  qed
qed

lemma is_mark_row_iff:
  assumes "cells = table_cells l"
  shows "is_mark_row cells \<longleftrightarrow> 3 \<le> length cells \<and> parse_mark (cells ! 0) \<noteq> None \<and> parse_mark (cells ! 1) \<noteq> None"
proof -
  have "3 \<le> length cells \<Longrightarrow> trim (cells ! 0) = cells ! 0"
    using assms by (intro table_cells_trimmed [of _ l]) (auto intro!: nth_mem)
  then show ?thesis using marked_cells [of cells] unfolding is_mark_row_def by fastforce
qed

lemma parse_row_eq:
  "parse_row l =
     (let cells = table_cells l in
      if is_mark_row cells \<and> row_criterion cells \<noteq> []
      then Some \<lparr>dr_exec = the (parse_mark (cells ! 0)), dr_audit = the (parse_mark (cells ! 1)),
                 dr_criterion = row_criterion cells\<rparr>
      else None)"
  by (auto simp: parse_row_def is_mark_row_def row_criterion_def Let_def split: option.splits)

lemma parse_row_strip_cr [simp]: "parse_row (strip_cr l) = parse_row l"
  by (simp add: parse_row_eq)

subsection \<open>The rewritten row\<close>

lemma rewritten_row_cells:
  assumes "is_mark_row (table_cells l)"
  shows "table_cells (rewritten_row column checked (table_cells l)) =
           (case column of Exec \<Rightarrow> [mark_glyph checked, table_cells l ! 1]
                         | Audit \<Rightarrow> [table_cells l ! 0, mark_glyph checked]) @ drop 2 (table_cells l)"
proof -
  let ?c = "table_cells l"
  have len: "3 \<le> length ?c" using assms by (simp add: is_mark_row_def)
  then have "0 < length ?c" "1 < length ?c" by linarith+
  from this [THEN nth_mem] len have m: "?c ! 0 \<in> set ?c" "?c ! 1 \<in> set ?c" "drop 2 ?c \<noteq> []" by simp_all
  have cs: "\<forall>c\<in>set (drop 2 ?c). CHR ''|'' \<notin> set c \<and> trim c = c"
    using table_cells_trimmed table_cells_no_pipe by (metis in_set_dropD)
  have g: "CHR ''|'' \<notin> set (mark_glyph checked)" by (simp add: mark_glyph_def)
  note cell = table_cells_trimmed [OF m(1)] table_cells_trimmed [OF m(2)]
    table_cells_no_pipe [OF m(1)] table_cells_no_pipe [OF m(2)]
  show ?thesis
    using table_cells_row [OF trim_mark_glyph g cell(2,4) cs m(3)]
      table_cells_row [OF cell(1,3) trim_mark_glyph g cs m(3)] cell(1,2)
    by (cases column) (simp_all add: rewritten_row_def)
qed

lemma parse_rewritten_row:
  assumes "parse_row l = Some row"
  shows "parse_row (rewritten_row column checked (table_cells l)) = Some (set_mark column checked row)"
proof -
  let ?c = "table_cells l" and ?n = "rewritten_row column checked (table_cells l)"
  have mark: "is_mark_row ?c" and crit: "row_criterion ?c \<noteq> []"
    using assms by (auto simp: parse_row_eq Let_def split: if_splits)
  have "is_mark_row (table_cells ?n)"
    unfolding is_mark_row_iff [OF refl, of ?n]
    unfolding rewritten_row_cells [OF mark] using mark is_mark_row_iff [OF refl, of l]
    by (auto split: Column.splits)
  moreover have "row_criterion (table_cells ?n) = row_criterion ?c"
    by (simp add: row_criterion_def rewritten_row_cells [OF mark] split: Column.splits)
  ultimately show ?thesis
    using assms crit mark rewritten_row_cells [OF mark]
    by (cases column) (auto simp: parse_row_eq Let_def)
qed

lemma rewritten_row_shape: "\<exists>s. rewritten_row column checked cells = CHR ''|'' # s @ ''|''"
  by (simp add: rewritten_row_def split: Column.splits)

lemma rewritten_row_not_header [simp]:
  "\<not> is_any_header (rewritten_row column checked cells)"
  "\<not> is_section_header (rewritten_row column checked cells) name"
  "rewritten_row column checked cells \<noteq> []"
proof -
  obtain s where s: "rewritten_row column checked cells = CHR ''|'' # s @ ''|''"
    using rewritten_row_shape by blast
  then have "trim (rewritten_row column checked cells) = CHR ''|'' # s @ ''|''" by (simp add: trim_plain)
  then have "header_level (rewritten_row column checked cells) = 0" by (simp add: header_level_trim)
  with s show "\<not> is_any_header (rewritten_row column checked cells)"
    "\<not> is_section_header (rewritten_row column checked cells) name" "rewritten_row column checked cells \<noteq> []"
    by (simp_all add: is_any_header_level is_section_header_trim)
qed

subsection \<open>Reading back a rewritten plan\<close>

text \<open>A blank row: two marks and no criterion. The reader skips it, the rewriter counts it.\<close>

definition blank_row :: "string \<Rightarrow> bool" where
  "blank_row line \<longleftrightarrow> is_mark_row (table_cells line) \<and> row_criterion (table_cells line) = []"

definition no_blank_rows :: "string \<Rightarrow> bool" where
  "no_blank_rows body \<longleftrightarrow> list_all (\<lambda>l. \<not> blank_row l) (lines body)"

definition mark_rows :: "Column \<Rightarrow> bool \<Rightarrow> (nat \<Rightarrow> bool) \<Rightarrow> nat \<Rightarrow> DualRow list \<Rightarrow> DualRow list" where
  "mark_rows column checked sel n rows =
     map (\<lambda>(i, row). if sel i then set_mark column checked row else row) (enumerate n rows)"

lemma mark_rows_simps [simp]:
  "mark_rows column checked sel n [] = []"
  "mark_rows column checked sel n (row # rows) =
     (if sel n then set_mark column checked row else row) # mark_rows column checked sel (Suc n) rows"
  by (simp_all add: mark_rows_def)

lemma mark_row_parse:
  "is_mark_row (table_cells l) \<Longrightarrow> \<not> blank_row l \<Longrightarrow> \<exists>row. parse_row l = Some row"
  "\<not> is_mark_row (table_cells l) \<Longrightarrow> parse_row l = None"
  by (simp_all add: blank_row_def parse_row_eq Let_def)

lemma dual_loop_not_in_section: "dual_loop False n ls = dual_loop False m ls"
  by (induction ls arbitrary: n m) auto

lemma dual_loop_rewrite:
  assumes "list_all (\<lambda>l. \<not> blank_row l) ls"
  shows "dual_loop ins lvl (rewrite_loop column checked sel ins lvl n ls)
           = mark_rows column checked sel (Suc n) (dual_loop ins lvl ls)"
  using assms
proof (induction ls arbitrary: ins lvl n)
  case (Cons l ls)
  then have IH: "dual_loop i v (rewrite_loop column checked sel i v k ls)
      = mark_rows column checked sel (Suc k) (dual_loop i v ls)" for i v k by simp
  show ?case
  proof (cases "is_section_header l SECTION \<or> \<not> ins \<or> is_any_header l \<and> header_level l \<le> lvl")
    case True
    then show ?thesis using IH by (auto simp: Let_def)
  next
    case False
    show ?thesis
    proof (cases "is_mark_row (table_cells l)")
      case True
      with Cons.prems obtain row where row: "parse_row l = Some row" using mark_row_parse(1) [of l] by auto
      then show ?thesis using False True IH parse_rewritten_row [OF row] by (auto simp: Let_def)
    next
      case no: False
      then show ?thesis using False IH mark_row_parse(2) [OF no] by (auto simp: Let_def)
    qed
  qed
qed simp

lemma dual_loop_map_trim:
  "map trim xs = map trim ys \<Longrightarrow> dual_loop ins lvl xs = dual_loop ins lvl ys"
proof (induction xs arbitrary: ys ins lvl)
  case (Cons x xs)
  then obtain y ys' where ys: "ys = y # ys'" "trim x = trim y" "map trim xs = map trim ys'" by auto
  then have same: "header_level x = header_level y" "is_any_header x = is_any_header y"
    "is_section_header x SECTION = is_section_header y SECTION" "parse_row x = parse_row y"
    by (simp_all add: header_level_trim is_any_header_level is_section_header_trim parse_row_eq table_cells_def)
  have "dual_loop i v xs = dual_loop i v ys'" for i v using Cons.IH [OF ys(3)] .
  then show ?case unfolding ys(1) dual_loop.simps same by (simp split: option.split)
qed simp

lemma rewrite_loop_lines:
  "list_all2 (\<lambda>l l'. l' = l \<or> is_mark_row (table_cells l) \<and> l' = rewritten_row column checked (table_cells l))
     ls (rewrite_loop column checked sel ins lvl n ls)"
  by (induction ls arbitrary: ins lvl n) (simp_all add: Let_def)

lemma rewritten_row_no_newline:
  assumes "NL \<notin> set l" "is_mark_row (table_cells l)"
  shows "NL \<notin> set (rewritten_row column checked (table_cells l))"
proof -
  let ?c = "table_cells l"
  have len: "0 < length ?c" "1 < length ?c" using assms(2) by (simp_all add: is_mark_row_def del: length_greater_0_conv)
  have cell: "NL \<notin> set (trim c)" if "c \<in> set ?c" for c
    using set_table_cells [OF that] set_trim_subset [of c] assms(1) by blast
  have "NL \<notin> set (join '' | '' (drop 2 ?c))"
    using set_join_subset [of "'' | ''" "drop 2 ?c"] set_table_cells [of _ l] assms(1)
    by (auto dest!: in_set_dropD)
  then have "NL \<notin> set (trim (join '' | '' (drop 2 ?c)))" using set_trim_subset by blast
  then show ?thesis
    using cell [OF nth_mem [OF len(1)]] cell [OF nth_mem [OF len(2)]]
    by (simp add: rewritten_row_def mark_glyph_def split: Column.splits)
qed

lemma last_split_on: "last (split_on c s) = [] \<longleftrightarrow> s = [] \<or> last s = c"
proof (cases "c \<in> set s")
  case False
  then show ?thesis by (cases s rule: rev_cases) (auto simp: split_on_absent)
next
  case True
  then obtain xs ys where s: "s = xs @ c # ys" "c \<notin> set ys" using split_list_last by metis
  have "split_on c s = split_on c xs @ [ys]"
    using split_on_append_gen [of c xs "c # ys"] s by (simp add: split_on_absent)
  with s show ?thesis by (cases ys rule: rev_cases) auto
qed

lemma lines_last_nonempty: "lines s \<noteq> [] \<Longrightarrow> \<not> ends_with [NL] s \<Longrightarrow> last (lines s) \<noteq> []"
  by (auto simp: lines_def Let_def ends_with_single last_split_on)

lemma lines_rewrite:
  "map trim (lines (rewrite_marks_where body column checked sel))
     = map trim (rewrite_loop column checked sel False 0 0 (lines body))"
proof -
  let ?L = "rewrite_loop column checked sel False 0 0 (lines body)"
  note rel = rewrite_loop_lines [of column checked "lines body" sel False 0 0]
  have nl: "\<forall>l\<in>set ?L. NL \<notin> set l"
  proof
    fix l assume "l \<in> set ?L"
    with rel obtain k where "k \<in> set (lines body)"
      "l = k \<or> is_mark_row (table_cells k) \<and> l = rewritten_row column checked (table_cells k)"
      unfolding in_set_conv_nth using list_all2_nthD2 [OF rel] list_all2_lengthD [OF rel] by force
    then show "NL \<notin> set l" using lines_no_newline rewritten_row_no_newline by blast
  qed
  show ?thesis
  proof (cases "\<not> ends_with [NL] body \<and> ?L \<noteq> []")
    case True
    then obtain init l where L: "?L = init @ [l]" by (metis append_butlast_last_id)
    have "lines body \<noteq> []" using True rel by auto
    moreover obtain ks k where "lines body = ks @ [k]" using calculation by (metis append_butlast_last_id)
    moreover from this rel L have "l = k \<or> l = rewritten_row column checked (table_cells k)"
      by (auto simp: list_all2_append2 list_all2_append1 list_all2_Cons2)
    ultimately have "l \<noteq> []" using lines_last_nonempty [of body] True
      by (metis last_snoc rewritten_row_not_header(3))
    have "rewrite_marks_where body column checked sel = unlines init @ l"
      using True L by (simp add: rewrite_marks_where_def unlines_append ends_with_single butlast_append Let_def)
    then show ?thesis using lines_unlines_last [of init l] nl L \<open>l \<noteq> []\<close> by simp
  next
    case False
    have "rewrite_marks_where body column checked sel = unlines ?L"
      using False by (auto simp: rewrite_marks_where_def ends_with_single)
    then show ?thesis using lines_unlines [OF nl] by simp
  qed
qed

lemma rewrite_marks_rows:
  assumes "no_blank_rows body"
  shows "parse_dual_rows (rewrite_marks_where body column checked sel)
           = mark_rows column checked sel 1 (parse_dual_rows body)"
proof -
  have "parse_dual_rows (rewrite_marks_where body column checked sel)
          = dual_loop False 0 (rewrite_loop column checked sel False 0 0 (lines body))"
    unfolding parse_dual_rows_def by (rule dual_loop_map_trim) (rule lines_rewrite)
  with assms show ?thesis
    using dual_loop_rewrite [of "lines body" False 0 column checked sel 0]
    by (simp add: no_blank_rows_def parse_dual_rows_def)
qed

text \<open>
  Property C35. Rewriting marks and reading the plan back: on a plan without blank checklist rows,
  the rows read after \<open>rewrite_marks_where\<close> are the rows read before, in the same order and with the
  same criteria, with the chosen column set to the chosen value on exactly the rows whose 1-based
  number was selected. A verdict that refutes criterion 2 clears the Audit mark of criterion 2 and
  of nothing else.
\<close>

theorem rewrite_marks_roundtrip:
  assumes "no_blank_rows body"
  shows "parse_dual_rows (rewrite_marks_where body column checked sel)
           = mark_rows column checked sel 1 (parse_dual_rows body)"
  by (rule rewrite_marks_rows [OF assms])

definition sample_plan :: string where
  "sample_plan = unlines [''# Goal'', ''## Acceptance checklist'', ''| Exec | Audit | Criterion |'',
     ''|---|---|---|'', ''| [x] | [ ] | alpha |'', ''| [x] | [ ] | beta |'', ''## Risks'']"

theorem rewrite_marks_roundtrip_witness:
  "parse_dual_rows (rewrite_marks_where sample_plan Audit True (\<lambda>i. i = 2)) =
     [\<lparr>dr_exec = True, dr_audit = False, dr_criterion = ''alpha''\<rparr>,
      \<lparr>dr_exec = True, dr_audit = True, dr_criterion = ''beta''\<rparr>]"
proof -
  have "no_blank_rows sample_plan" by code_simp
  moreover have "parse_dual_rows sample_plan =
     [\<lparr>dr_exec = True, dr_audit = False, dr_criterion = ''alpha''\<rparr>,
      \<lparr>dr_exec = True, dr_audit = False, dr_criterion = ''beta''\<rparr>]"
    by code_simp
  ultimately show ?thesis using rewrite_marks_roundtrip [of sample_plan Audit True "\<lambda>i. i = 2"] by simp
qed

definition blank_row_plan :: string where
  "blank_row_plan = unlines [''## Acceptance checklist'', ''| [ ] | [ ] | |'',
     ''| [x] | [ ] | alpha |'', ''| [x] | [ ] | beta |'']"

text \<open>
  The restriction to plans without blank rows is needed: the reader skips a blank row
  and the rewriter counts it, so on a plan with one blank row the mark meant for criterion 2 lands
  on criterion 1.
\<close>

theorem blank_row_shifts_marks:
  "map dr_criterion (parse_dual_rows blank_row_plan) = [''alpha'', ''beta'']
   \<and> parse_dual_rows (rewrite_audit_marks_for_criteria blank_row_plan [2] True) =
       [\<lparr>dr_exec = True, dr_audit = True, dr_criterion = ''alpha''\<rparr>,
        \<lparr>dr_exec = True, dr_audit = False, dr_criterion = ''beta''\<rparr>]"
  by code_simp

subsection \<open>The execution gate\<close>

lemma find_None_list_all: "List.find P xs = None \<longleftrightarrow> list_all (\<lambda>x. \<not> P x) xs"
  by (auto simp: find_None_iff list_all_iff)

text \<open>
  The gate in front of the audit: \<open>update_goal(completed)\<close> is let through exactly when
  the plan can be read, has at least one checklist row, and every Exec mark of it is set.
\<close>

theorem require_exec_complete_iff:
  "require_exec_complete display read = Inr () \<longleftrightarrow>
     (\<exists>body. read = Inr body \<and> parse_dual_rows body \<noteq> [] \<and> list_all dr_exec (parse_dual_rows body))"
proof (cases read)
  case (Inr body)
  show ?thesis
    using find_None_list_all [of "\<lambda>r. \<not> dr_exec r" "parse_dual_rows body"]
    by (auto simp: Inr require_exec_complete_def Let_def list_all_iff split: option.splits)
qed (simp add: require_exec_complete_def)

subsection \<open>Creating the checklist\<close>

lemma numbered_loop_items:
  "t \<in> set (numbered_loop ins lvl ls) \<Longrightarrow> t \<noteq> [] \<and> trim t = t \<and> (\<exists>l\<in>set ls. set t \<subseteq> set l)"
proof (induction ins lvl ls rule: numbered_loop.induct)
  case (2 ins lvl line ls)
  have item: "trim t = t \<and> set t \<subseteq> set line" if "numbered_item (trim line) = Some t" for t
  proof -
    from that obtain i where "t = trim (drop 1 (drop i (trim line)))"
      by (auto simp: numbered_item_def Let_def split: option.splits if_splits)
    moreover have "set (drop 1 (drop i (trim line))) \<subseteq> set line"
      using set_trim_subset [of line] by (meson order_trans set_drop_subset)
    ultimately show ?thesis using set_trim_subset by fastforce
  qed
  from 2 show ?case by (fastforce split: if_splits option.splits dest: item)
qed simp

lemma trim_end_keeps:
  assumes "plain c" shows "\<exists>t. trim_end (p @ c # s) = p @ c # t"
proof -
  let ?x = "p @ c # s" and ?t = "trim_end (p @ c # s)"
  obtain ws where ws: "?x = ?t @ concat ws" "\<forall>w\<in>set ws. is_ws_enc w"
    by (rule trim_end_cases)
  have notin: "c \<notin> set (concat ws)" using ws(2) assms plain_not_in_ws by fastforce
  have d: "drop (length ?t) ?x = concat ws" using ws(1) by (metis append_eq_conv_conj)
  have tk: "?t = take (length ?t) ?x" using ws(1) by (metis append_eq_conv_conj)
  have "length p < length ?t"
  proof (rule ccontr)
    assume "\<not> length p < length ?t"
    then have "c \<in> set (drop (length ?t) ?x)" by simp
    with notin d show False by simp
  qed
  then have "take (length ?t) ?x = p @ c # take (length ?t - length p - 1) s"
    by (simp add: take_Cons')
  with tk show ?thesis by metis
qed

lemma section_marker_ends:
  assumes "m \<in> set section_markers"
  shows "header_level (m @ r) = 2" "\<not> is_section_header (m @ r) SECTION"
proof -
  have pl: "plain (CHR ''V'')" "plain (CHR ''N'')" "plain (CHR ''s'')" "plain (CHR ''I'')" "plain (CHR ''T'')"
    "plain (CHR ''R'')" "plain (CHR ''A'')"
    by (simp_all add: plain_def ascii_ws_def wide_ws_def)
  from assms obtain c1 c2 t where m: "m = ''## '' @ c1 # c2 # t" "plain c1"
    "c1 \<in> {CHR ''V'', CHR ''N'', CHR ''I'', CHR ''T'', CHR ''R''} \<or> c1 = CHR ''A'' \<and> c2 = CHR ''s''"
    using pl by (auto simp: section_markers_def)
  have ts: "trim_start (m @ r) = m @ r" using m(1) plain_hash trim_start_plain by simp
  then show lvl: "header_level (m @ r) = 2" using m(1) by (simp add: header_level_def)
  show "\<not> is_section_header (m @ r) SECTION"
  proof
    assume "is_section_header (m @ r) SECTION"
    then have eq: "eq_ignore_ascii_case (trim ('' '' @ c1 # c2 # t @ r)) SECTION"
      by (simp add: is_section_header_def ts trim_start_char_def Let_def m(1))
    have "trim ('' '' @ c1 # c2 # t @ r) = trim_end (c1 # c2 # t @ r)"
      using m(2) by (simp add: trim_def trim_start_ws [of "'' ''", simplified] is_ws_enc_single)
    with eq have low: "to_ascii_lowercase (trim_end (c1 # c2 # t @ r)) = ''acceptance checklist''"
      by (simp add: eq_ignore_ascii_case_def SECTION_def to_ascii_lowercase_def ascii_lower_def)
    obtain u where u: "trim_end (c1 # c2 # t @ r) = c1 # u"
      using trim_end_keeps [OF m(2), of "[]" "c2 # t @ r"] by auto
    have lower: "ascii_lower (CHR ''V'') = CHR ''v''" "ascii_lower (CHR ''N'') = CHR ''n''"
      "ascii_lower (CHR ''I'') = CHR ''i''" "ascii_lower (CHR ''T'') = CHR ''t''"
      "ascii_lower (CHR ''R'') = CHR ''r''" "ascii_lower (CHR ''s'') = CHR ''s''"
      by code_simp+
    from m(3) show False
    proof
      assume c: "c1 \<in> {CHR ''V'', CHR ''N'', CHR ''I'', CHR ''T'', CHR ''R''}"
      from low u have "ascii_lower c1 = CHR ''a''" by (simp add: to_ascii_lowercase_def)
      with c lower show False by auto
    next
      assume c: "c1 = CHR ''A'' \<and> c2 = CHR ''s''"
      with trim_end_keeps [OF pl(3), of "[c1]" "t @ r"] low lower show False
        by (auto simp: to_ascii_lowercase_def)
    qed
  qed
qed

lemma lines_unlines_append: "\<forall>l\<in>set ls. NL \<notin> set l \<Longrightarrow> lines (unlines ls @ r) = map strip_cr ls @ lines r"
  by (simp add: lines_def split_on_unlines Let_def butlast_append)

lemma dual_loop_skip:
  "\<forall>l\<in>set pre. \<not> is_section_header l SECTION \<Longrightarrow> dual_loop False lvl (pre @ ls) = dual_loop False lvl ls"
  by (induction pre) auto

lemma lines_ensure_newline:
  assumes "\<forall>l\<in>set (lines x). \<not> is_section_header l SECTION"
  shows "\<exists>pre. lines (ensure_newline x @ y) = pre @ lines y \<and> (\<forall>l\<in>set pre. \<not> is_section_header l SECTION)"
proof (cases "ends_with [NL] x")
  case True
  then obtain z where z: "x = z @ [NL]" by (auto simp: ends_with_iff)
  then have "lines x = map strip_cr (split_on NL z)"
    using lines_append_newline [of z "[]"] by (simp add: lines_def)
  with True assms z show ?thesis using lines_append_newline [of z y] by (simp add: ensure_newline_def)
next
  case False
  have "\<not> is_section_header [] SECTION" by code_simp
  then have "\<forall>l\<in>set (map strip_cr (split_on NL x)). \<not> is_section_header l SECTION"
    using assms unfolding lines_def Let_def
    by (subst append_butlast_last_id [of "split_on NL x", symmetric])
       (auto simp del: append_butlast_last_id split: if_splits)
  with False show ?thesis using lines_append_newline [of x y] by (auto simp: ensure_newline_def)
qed

definition open_row :: "string \<Rightarrow> DualRow" where
  "open_row criterion = \<lparr>dr_exec = False, dr_audit = False, dr_criterion = criterion\<rparr>"

lemma parse_fresh_row:
  assumes "trim c = c" "c \<noteq> []" "CHR ''|'' \<notin> set c"
  shows "parse_row (fresh_row c) = Some (open_row c)"
    and "\<not> is_any_header (fresh_row c)"
    and "\<not> is_section_header (fresh_row c) SECTION"
proof -
  have cells: "table_cells (fresh_row c) = [''[ ]'', ''[ ]'', c]"
    using table_cells_row [of "''[ ]''" "''[ ]''" "[c]"] assms by (simp add: fresh_row_def)
  then have "is_mark_row (table_cells (fresh_row c))"
    using is_mark_row_iff [of "table_cells (fresh_row c)" "fresh_row c"] by (simp add: parse_mark_def)
  then show "parse_row (fresh_row c) = Some (open_row c)"
    using assms by (simp add: parse_row_eq cells row_criterion_def parse_mark_def open_row_def)
  have "trim (fresh_row c) = fresh_row c"
    using trim_plain [of "CHR ''|''" "CHR ''|''" "'' [ ] | [ ] | '' @ c @ '' ''"] by (simp add: fresh_row_def)
  then have "header_level (fresh_row c) = 0" by (simp add: header_level_trim fresh_row_def)
  then show "\<not> is_any_header (fresh_row c)" "\<not> is_section_header (fresh_row c) SECTION"
    by (simp_all add: is_any_header_level is_section_header_trim)
qed

lemma escape_pipes_id: "CHR ''|'' \<notin> set c \<Longrightarrow> escape_pipes c = c"
  by (induction c) (auto simp: escape_pipes_def)

lemma dual_loop_fresh_rows:
  assumes "\<forall>c\<in>set cs. trim c = c \<and> c \<noteq> [] \<and> CHR ''|'' \<notin> set c"
  shows "dual_loop True 2 (map (\<lambda>c. strip_cr (fresh_row (escape_pipes c))) cs @ ls)
           = map open_row cs @ dual_loop True 2 ls"
  using assms by (induction cs) (auto simp: escape_pipes_id parse_fresh_row)

lemma dual_loop_table:
  assumes "\<forall>c\<in>set cs. trim c = c \<and> c \<noteq> [] \<and> CHR ''|'' \<notin> set c \<and> NL \<notin> set c"
    and "dual_loop True 2 (lines r) = []"
  shows "dual_loop False lvl (lines (checklist_table cs @ r)) = map open_row cs"
proof -
  let ?head = "[[], ''## Acceptance checklist'', [], ''| Exec | Audit | Criterion |'', ''|------|-------|----------|'']"
  have head: "dual_loop False lvl (map strip_cr ?head @ ls) = dual_loop True 2 ls" for ls
  proof -
    have "\<not> is_section_header [] SECTION" "is_section_header ''## Acceptance checklist'' SECTION"
      "header_level ''## Acceptance checklist'' = 2" "\<not> is_any_header []"
      "\<not> is_section_header ''| Exec | Audit | Criterion |'' SECTION" "\<not> is_any_header ''| Exec | Audit | Criterion |''"
      "\<not> is_section_header ''|------|-------|----------|'' SECTION" "\<not> is_any_header ''|------|-------|----------|''"
      "parse_row [] = None" "parse_row ''| Exec | Audit | Criterion |'' = None"
      "parse_row ''|------|-------|----------|'' = None"
      by code_simp+
    then show ?thesis by simp
  qed
  have nl: "\<forall>l\<in>set (?head @ map (\<lambda>c. fresh_row (escape_pipes c)) cs). NL \<notin> set l"
    using assms(1) by (auto simp: escape_pipes_id fresh_row_def)
  have "lines (checklist_table cs @ r)
      = map strip_cr ?head @ map (\<lambda>c. strip_cr (fresh_row (escape_pipes c))) cs @ lines r"
    unfolding checklist_table_def lines_unlines_append [OF nl] by simp
  then show ?thesis using dual_loop_fresh_rows [of cs "lines r"] assms by (simp only: head) simp
qed

lemma last_unlines: "ls \<noteq> [] \<Longrightarrow> unlines ls \<noteq> [] \<and> last (unlines ls) = NL"
  by (cases ls rule: rev_cases) (simp_all add: unlines_append)

lemma insertion_index_SomeD:
  "insertion_index ms body = Some i \<Longrightarrow> \<exists>m\<in>set ms. \<exists>r. drop i body = m @ r"
  by (induction ms) (auto split: option.splits dest!: find_sub_SomeD simp: starts_with_iff)

lemma marker_NL_free: "m \<in> set section_markers \<Longrightarrow> NL \<notin> set m \<and> CR \<notin> set m"
  by (auto simp: section_markers_def)

lemma lines_of_marker:
  assumes "m \<in> set section_markers"
  shows "\<exists>r' ls. lines (m @ r) = (m @ r') # ls"
proof -
  have m: "NL \<notin> set m" "m \<noteq> []" "last m \<noteq> CR" using assms by (auto simp: section_markers_def)
  have sp: "split_on NL (m @ r) = (m @ hd (split_on NL r)) # tl (split_on NL r)"
    using split_on_append_gen [of NL m r] m by (simp add: split_on_absent)
  have cr: "\<exists>r'. strip_cr (m @ x) = m @ r'" for x
    using m by (cases "x = []") (auto simp: strip_cr_def butlast_append)
  show ?thesis
    using m cr [of "hd (split_on NL r)"] unfolding lines_def sp by (auto simp: Let_def)
qed

text \<open>
  Property C36. A plan without a checklist gets the right one. When no line before the insertion
  point opens a checklist section, no row is readable yet, and the numbered acceptance criteria hold
  no pipe, the plan written by \<open>ensure_dual_checklist_section\<close> reads back as exactly one open row per
  numbered criterion, in order, with the criterion's text, wherever the table was inserted.
\<close>

theorem ensure_checklist_roundtrip:
  assumes "\<not> has_dual_checklist body"
    and "\<forall>c\<in>set (extract_numbered_acceptance_criteria body). CHR ''|'' \<notin> set c"
    and "\<forall>l\<in>set (lines (case insertion_index section_markers body of
            Some i \<Rightarrow> take i body | None \<Rightarrow> body)). \<not> is_section_header l SECTION"
  shows "parse_dual_rows (ensure_dual_checklist_section body)
           = map open_row (extract_numbered_acceptance_criteria body)"
proof (cases "extract_numbered_acceptance_criteria body = []")
  case True
  with assms(1) show ?thesis by (simp add: ensure_dual_checklist_section_def has_dual_checklist_def)
next
  case False
  let ?cs = "extract_numbered_acceptance_criteria body"
  have cs: "\<forall>c\<in>set ?cs. trim c = c \<and> c \<noteq> [] \<and> CHR ''|'' \<notin> set c \<and> NL \<notin> set c"
    using assms(2) numbered_loop_items lines_no_newline
    unfolding extract_numbered_acceptance_criteria_def by (metis subsetD)
  show ?thesis
  proof (cases "insertion_index section_markers body")
    case None
    then have e: "ensure_dual_checklist_section body = ensure_newline body @ checklist_table ?cs"
      using assms(1) False by (simp add: ensure_dual_checklist_section_def)
    from assms(3) None obtain pre where
      "lines (ensure_newline body @ checklist_table ?cs) = pre @ lines (checklist_table ?cs)"
      "\<forall>l\<in>set pre. \<not> is_section_header l SECTION"
      using lines_ensure_newline [of body "checklist_table ?cs"] by auto
    then show ?thesis
      using dual_loop_table [OF cs, of "[]" 0]
      by (simp add: e parse_dual_rows_def dual_loop_skip) (simp add: lines_def)
  next
    case (Some i)
    let ?tail = "drop i body"
    have "ends_with [NL] (x @ checklist_table ?cs)" for x
      using last_unlines by (simp add: checklist_table_def ends_with_single del: unlines_simps)
    then have e: "ensure_dual_checklist_section body = ensure_newline (take i body) @ checklist_table ?cs @ ?tail"
      using assms(1) False Some
      by (simp add: ensure_dual_checklist_section_def ensure_newline_def [of "_ @ checklist_table _"])
    obtain m r where m: "m \<in> set section_markers" "?tail = m @ r"
      using insertion_index_SomeD [OF Some] by blast
    then have stop: "dual_loop True 2 (lines ?tail) = []"
      using lines_of_marker [OF m(1), of r] section_marker_ends [OF m(1)]
      by (auto simp: is_any_header_level)
    from assms(3) Some obtain pre where
      "lines (ensure_newline (take i body) @ checklist_table ?cs @ ?tail) = pre @ lines (checklist_table ?cs @ ?tail)"
      "\<forall>l\<in>set pre. \<not> is_section_header l SECTION"
      using lines_ensure_newline [of "take i body" "checklist_table ?cs @ ?tail"] by auto
    then show ?thesis
      using dual_loop_table [OF cs stop, of 0] by (simp add: e parse_dual_rows_def dual_loop_skip)
  qed
qed

definition plain_plan :: string where
  "plain_plan = unlines [''## Acceptance criteria'', ''1. it builds'', ''2. tests pass'', ''## Risks'', ''none'']"

theorem ensure_checklist_roundtrip_witness:
  "parse_dual_rows (ensure_dual_checklist_section plain_plan) = [open_row ''it builds'', open_row ''tests pass'']"
proof -
  have cs: "extract_numbered_acceptance_criteria plain_plan = [''it builds'', ''tests pass'']" by code_simp
  have i: "insertion_index section_markers plain_plan = Some 50" by code_simp
  have "\<not> has_dual_checklist plain_plan" by code_simp
  moreover have "list_all (\<lambda>l. \<not> is_section_header l SECTION) (lines (take 50 plain_plan))" by code_simp
  ultimately show ?thesis
    using ensure_checklist_roundtrip [of plain_plan] by (simp add: cs i list_all_iff)
qed

text \<open>
  An item numbered with a parenthesis is lost when its text holds a period: the search
  for the separator looks for a period in the whole line first, and the parenthesis is only tried
  when there is none. The criterion gets no checklist row, so no mark of it is ever required.
\<close>

theorem paren_item_with_period_lost:
  "extract_numbered_acceptance_criteria
     (unlines [''## Acceptance criteria'', ''1) support v1.2 files'', ''2) document it'']) = [''document it'']"
  by code_simp

text \<open>
  An empty checklist section in front of the criteria defeats the repair: the table is
  appended at the end of the plan, where the reader, which stops at the end of the first checklist
  section, never sees it, and every further call appends one more table.
\<close>

theorem empty_section_not_repaired:
  "let plan = unlines [''## Acceptance checklist'', ''## Acceptance criteria'', ''1. it builds''];
       once = ensure_dual_checklist_section plan
   in parse_dual_rows once = [] \<and> length (ensure_dual_checklist_section once) > length once"
  by code_simp

subsection \<open>Whole lines from a capped read\<close>

lemma split_on_last: "\<exists>qs q. split_on c s = qs @ [q]"
  by (metis append_butlast_last_id split_on_nonempty)

lemma map_trim_lines: "map trim (lines a) = take (length (lines a)) (map trim (split_on NL a))"
  using split_on_last [of NL a] by (auto simp: lines_def)

lemma length_lines_le: "length (lines a) \<le> length (split_on NL a)"
  using split_on_last [of NL a] by (auto simp: lines_def)

text \<open>
  The capped reader hands out whole lines: when the file fits the cap or has a line
  break within it, the trimmed lines of what \<open>read_capped\<close> returns are the first trimmed lines of the
  file, so no plan item is ever surfaced half-truncated.
\<close>

theorem read_capped_whole_lines:
  assumes "length content < MAX_READ_BYTES \<or> NL \<in> set (take MAX_READ_BYTES content)"
  shows "\<exists>body k. read_capped (Some content) = Some body
           \<and> map trim (lines body) = take k (map trim (lines content))"
proof (cases "length content < MAX_READ_BYTES")
  case True
  then show ?thesis by (intro exI [of _ content] exI [of _ "length (lines content)"]) (simp add: read_capped_def)
next
  case False
  let ?buf = "take MAX_READ_BYTES content"
  have "rfind_index (\<lambda>b. b = NL) ?buf \<noteq> None"
    using assms False by (simp add: rfind_index_None_iff)
  then obtain j where j: "rfind_index (\<lambda>b. b = NL) ?buf = Some j" by auto
  let ?a = "take j ?buf"
  have "j < length ?buf" "?buf ! j = NL" using rfind_index_SomeD [OF j] by auto
  then have "?buf = ?a @ NL # drop (Suc j) ?buf" by (metis id_take_nth_drop)
  then have "content = ?a @ NL # (drop (Suc j) ?buf @ drop MAX_READ_BYTES content)"
    by (metis append.assoc append_Cons append_take_drop_id)
  then have full: "lines content = map strip_cr (split_on NL ?a) @ lines (drop (Suc j) ?buf @ drop MAX_READ_BYTES content)"
    using lines_append_newline [of ?a] by metis
  have "map trim (lines ?a) = take (length (lines ?a)) (map trim (split_on NL ?a))"
    by (rule map_trim_lines)
  also have "\<dots> = take (length (lines ?a)) (map trim (lines content))"
    unfolding full using length_lines_le [of ?a] by (simp add: comp_def)
  finally have "map trim (lines ?a) = take (length (lines ?a)) (map trim (lines content))" .
  moreover have "read_capped (Some content) = Some ?a" using False j by (simp add: read_capped_def)
  ultimately show ?thesis by blast
qed

theorem read_capped_whole_lines_witness:
  "\<exists>body k. read_capped (Some plain_plan) = Some body \<and> map trim (lines body) = take k (map trim (lines plain_plan))"
proof -
  have "length plain_plan < MAX_READ_BYTES" by code_simp
  then show ?thesis using read_capped_whole_lines [of plain_plan] by blast
qed

end
