(* ===== verification/Criteria_View.thy ===== *)
theory Criteria_View
  imports Graph_Correct Checklist
begin

text \<open>
  The rest of \<^verbatim>\<open>goal_criterion_graph.rs\<close>: \<^verbatim>\<open>with_dependents\<close>, which widens a set of refuted criteria to
  everything built on top of them, and \<^verbatim>\<open>build_criteria_view\<close>, which joins the checklist, the
  dependency graph and the deferrals into the rows the pager renders and the scheduler reads.
\<close>

subsection \<open>Invalidated criteria\<close>

definition dependents_pass :: "CriterionView list \<Rightarrow> nat list \<Rightarrow> nat list" where
  "dependents_pass criteria invalid =
     fold (\<lambda>c iv. if cv_number c \<notin> set iv \<and> list_ex (\<lambda>d. d \<in> set iv) (cv_depends_on c)
                   then iv @ [cv_number c] else iv) criteria invalid"

lemma dependents_pass_Cons:
  "dependents_pass (c # cs) iv =
     dependents_pass cs (if cv_number c \<notin> set iv \<and> list_ex (\<lambda>d. d \<in> set iv) (cv_depends_on c)
                         then iv @ [cv_number c] else iv)"
  by (simp add: dependents_pass_def)

lemma dependents_pass_extends:
  "\<exists>new. dependents_pass cs iv = iv @ new \<and> set new \<subseteq> cv_number ` set cs \<and> distinct new
     \<and> set new \<inter> set iv = {}"
proof (induction cs arbitrary: iv)
  case (Cons c cs)
  let ?iv = "if cv_number c \<notin> set iv \<and> list_ex (\<lambda>d. d \<in> set iv) (cv_depends_on c)
              then iv @ [cv_number c] else iv"
  from Cons.IH [of ?iv] obtain new where "dependents_pass cs ?iv = ?iv @ new"
    "set new \<subseteq> cv_number ` set cs" "distinct new" "set new \<inter> set ?iv = {}" by blast
  then show ?case
    unfolding dependents_pass_Cons
    by (intro exI [of _ "drop (length iv) (?iv @ new)"]) (auto split: if_splits)
qed (simp add: dependents_pass_def)

lemma dependents_pass_less:
  assumes "length (dependents_pass cs iv) \<noteq> length iv"
  shows "card (cv_number ` set cs - set (dependents_pass cs iv)) < card (cv_number ` set cs - set iv)"
proof -
  obtain new where "dependents_pass cs iv = iv @ new" "set new \<subseteq> cv_number ` set cs" "set new \<inter> set iv = {}"
    using dependents_pass_extends by blast
  moreover with assms obtain x where "x \<in> set new" by (cases new) auto
  ultimately show ?thesis by (intro psubset_card_mono) auto
qed

function dependents_loop :: "CriterionView list \<Rightarrow> nat list \<Rightarrow> nat list" where
  "dependents_loop criteria invalid =
     (let invalid' = dependents_pass criteria invalid in
      if length invalid' = length invalid then invalid' else dependents_loop criteria invalid')"
  by pat_completeness auto
termination
  by (relation "measure (\<lambda>(cs, iv). card (cv_number ` set cs - set iv))") (auto dest: dependents_pass_less)

declare dependents_loop.simps [simp del]

definition with_dependents :: "CriterionView list \<Rightarrow> nat list \<Rightarrow> nat list" where
  "with_dependents criteria refuted = remdups_adj (sort (dependents_loop criteria refuted))"

subsection \<open>The rows of the view\<close>

definition wave_of :: "nat list list option \<Rightarrow> nat \<Rightarrow> nat option" where
  "wave_of waves n =
     (let concurrent = (case waves of Some ws \<Rightarrow> list_ex (\<lambda>w. 1 < length w) ws | None \<Rightarrow> False) in
      if \<not> concurrent then None
      else Option.bind waves (find_index (\<lambda>w. n \<in> set w)))"

definition view_row ::
    "CriterionGraph \<Rightarrow> DeferredCriterion list \<Rightarrow> nat \<Rightarrow> DualRow \<Rightarrow> CriterionView" where
  "view_row graph deferred number row =
     (let node = find_node graph number;
          all_deferred = list_ex (\<lambda>d. dc_criterion d = None) deferred
      in \<lparr>cv_number = number, cv_text = dr_criterion row, cv_exec = dr_exec row, cv_audit = dr_audit row,
          cv_depends_on = (case node of Some n \<Rightarrow> cn_depends_on n | None \<Rightarrow> []),
          cv_write_scope = (case node of Some n \<Rightarrow> cn_write_scope n | None \<Rightarrow> []),
          cv_wave = wave_of (parallel_waves graph) number,
          cv_deferred = all_deferred \<or> list_ex (\<lambda>d. dc_criterion d = Some number) deferred\<rparr>)"

definition build_criteria_view :: "string \<Rightarrow> DeferredCriterion list \<Rightarrow> CriterionView list" where
  "build_criteria_view body deferred =
     (let rows = parse_dual_rows body in
      if rows = [] then []
      else
        let graph = load_criterion_graph body (length rows)
        in map (\<lambda>(i, row). view_row graph deferred (i + 1) row) (enumerate 0 rows))"

subsection \<open>The closure under dependents\<close>

lemma distinct_remdups_adj_sorted: "sorted xs \<Longrightarrow> distinct (remdups_adj (xs :: nat list))"
  by (induction xs rule: remdups_adj.induct) auto

definition built_on :: "CriterionView list \<Rightarrow> (nat \<times> nat) set" where
  "built_on criteria = {(n, d). \<exists>c\<in>set criteria. cv_number c = n \<and> d \<in> set (cv_depends_on c)}"

lemma dependents_pass_closed:
  assumes "length (dependents_pass cs iv) = length iv" "c \<in> set cs"
    "d \<in> set (cv_depends_on c)" "d \<in> set iv"
  shows "cv_number c \<in> set iv"
  using assms
proof (induction cs arbitrary: iv)
  case (Cons a cs)
  let ?iv = "if cv_number a \<notin> set iv \<and> list_ex (\<lambda>d. d \<in> set iv) (cv_depends_on a)
              then iv @ [cv_number a] else iv"
  have "length ?iv \<le> length (dependents_pass cs ?iv)"
    using dependents_pass_extends [of cs ?iv] by auto
  with Cons.prems(1) have same: "?iv = iv" by (auto simp: dependents_pass_Cons split: if_splits)
  then have pass: "length (dependents_pass cs iv) = length iv"
    using Cons.prems(1) by (simp add: dependents_pass_Cons)
  show ?case
  proof (cases "c = a")
    case True
    with same Cons.prems(3,4) show ?thesis by (auto simp: list_ex_iff split: if_splits)
  next
    case False
    with Cons.prems Cons.IH [OF pass] show ?thesis by simp
  qed
qed simp

lemma dependents_pass_sound:
  assumes "\<forall>x\<in>set iv. \<exists>r\<in>R. (x, r) \<in> B\<^sup>*" "\<forall>c\<in>set cs. \<forall>d\<in>set (cv_depends_on c). (cv_number c, d) \<in> B"
  shows "\<forall>x\<in>set (dependents_pass cs iv). \<exists>r\<in>R. (x, r) \<in> B\<^sup>*"
  using assms
proof (induction cs arbitrary: iv)
  case (Cons c cs)
  let ?iv = "if cv_number c \<notin> set iv \<and> list_ex (\<lambda>d. d \<in> set iv) (cv_depends_on c)
              then iv @ [cv_number c] else iv"
  have "\<exists>r\<in>R. (cv_number c, r) \<in> B\<^sup>*" if "list_ex (\<lambda>d. d \<in> set iv) (cv_depends_on c)"
    using that Cons.prems by (auto simp: list_ex_iff) (meson converse_rtrancl_into_rtrancl)
  then have "\<forall>x\<in>set ?iv. \<exists>r\<in>R. (x, r) \<in> B\<^sup>*" using Cons.prems(1) by auto
  with Cons.IH [of ?iv] Cons.prems(2) show ?case by (simp add: dependents_pass_Cons)
qed (simp add: dependents_pass_def)

lemma dependents_loop_set:
  assumes "\<forall>x\<in>set iv. \<exists>r\<in>R. (x, r) \<in> (built_on cs)\<^sup>*" "R \<subseteq> set iv"
  shows "set (dependents_loop cs iv) = {x. \<exists>r\<in>R. (x, r) \<in> (built_on cs)\<^sup>*}"
  using assms
proof (induction cs iv rule: dependents_loop.induct)
  case (1 cs iv)
  let ?p = "dependents_pass cs iv"
  have sound: "\<forall>x\<in>set ?p. \<exists>r\<in>R. (x, r) \<in> (built_on cs)\<^sup>*"
    using 1(2) by (rule dependents_pass_sound) (auto simp: built_on_def)
  obtain new where new: "?p = iv @ new" using dependents_pass_extends by blast
  show ?case
  proof (cases "length ?p = length iv")
    case True
    then have p: "?p = iv" using new by simp
    have "x \<in> set iv" if "(x, r) \<in> (built_on cs)\<^sup>*" "r \<in> set iv" for x r
      using that
      by (induction rule: converse_rtrancl_induct)
        (auto simp: built_on_def intro: dependents_pass_closed [OF True])
    with p sound 1(3) True show ?thesis by (subst dependents_loop.simps) (auto simp: Let_def)
  next
    case False
    have "R \<subseteq> set ?p" using 1(3) new by auto
    from 1(1) [OF refl False sound this] False show ?thesis by (simp add: dependents_loop.simps [of cs iv] Let_def)
  qed
qed

text \<open>
  Property C17. \<open>with_dependents\<close> terminates on any dependency data, cyclic data included, and returns,
  sorted and without duplicates, exactly the refuted criteria and every criterion that depends on
  one of them directly or through others: no audit mark survives whose basis was refuted, and none
  is taken away without such a reason.
\<close>

theorem with_dependents_closure:
  "set (with_dependents criteria refuted) = {n. \<exists>r\<in>set refuted. (n, r) \<in> (built_on criteria)\<^sup>*}
   \<and> sorted (with_dependents criteria refuted) \<and> distinct (with_dependents criteria refuted)"
proof -
  have "set (dependents_loop criteria refuted) = {n. \<exists>r\<in>set refuted. (n, r) \<in> (built_on criteria)\<^sup>*}"
    by (rule dependents_loop_set) auto
  moreover have "sorted (remdups_adj (sort xs)) \<and> distinct (remdups_adj (sort xs))" for xs :: "nat list"
    by (simp add: distinct_remdups_adj_sorted sorted_remdups_adj)
  ultimately show ?thesis unfolding with_dependents_def by simp
qed

subsection \<open>The view agrees with its sources\<close>

lemma find_index_concat:
  "n \<in> set (concat ws) \<Longrightarrow> find_index (\<lambda>w. n \<in> set w) ws = Some (wave_index ws n)"
proof -
  assume "n \<in> set (concat ws)"
  then obtain i where i: "find_index (\<lambda>w. n \<in> set w) ws = Some i"
    using find_index_None_iff [of "\<lambda>w. n \<in> set w" ws] by (cases "find_index (\<lambda>w. n \<in> set w) ws") auto
  from find_index_SomeD [OF i] have "i < length ws" "n \<in> set (ws ! i)" "\<forall>j<i. n \<notin> set (ws ! j)" by auto
  then have "wave_index ws n = i" unfolding wave_index_def by (intro Least_equality) (auto simp: not_le [symmetric])
  with i show ?thesis by simp
qed

lemma view_rows:
  fixes body :: string
  defines "rows \<equiv> parse_dual_rows body"
  defines "g \<equiv> load_criterion_graph body (length rows)"
  shows "c \<in> set (build_criteria_view body deferred) \<longleftrightarrow>
           (\<exists>i<length rows. c = view_row g deferred (Suc i) (rows ! i))"
  unfolding build_criteria_view_def rows_def g_def
  by (auto simp: Let_def in_set_enumerate_eq image_iff Bex_def)

lemma load_graph_facts:
  obtains ws where "contract_ok k (load_criterion_graph body k)"
    "parallel_waves (load_criterion_graph body k) = Some ws"
    "set (concat ws) = {1..<k + 1}" "cn_number ` set (load_criterion_graph body k) = {1..<k + 1}"
proof -
  let ?g = "load_criterion_graph body k"
  have ok: "contract_ok k ?g" "acyclic (dep_rel ?g)" using load_graph_ok(1) [of body k] by (simp_all add: validate_Nil_iff)
  have nums: "cn_number ` set ?g = {1..<k + 1}"
    using arg_cong [OF contract_numbers [OF ok(1)], of set] by (simp del: upt_Suc)
  obtain ws where ws: "parallel_waves ?g = Some ws"
    using waves_None_iff [OF contract_well_numbered [OF ok(1)]] ok(2) by auto
  have "set (concat ws) = set (map cn_number ?g)"
    using waves_loop_mset [OF ws [unfolded parallel_waves_def]] mset_eq_setD by blast
  with nums ok ws that show ?thesis by simp
qed

text \<open>
  The rows of the view are consistent with the schedule. There is one row per checklist
  row, numbered from 1 with its text and marks; every dependency shown names a row of the view, and
  when waves are shown at all, a dependency is in a strictly earlier wave than the row that shows it.
\<close>

theorem criteria_view_consistent:
  assumes "c \<in> set (build_criteria_view body deferred)" "d \<in> set (cv_depends_on c)"
  shows "d \<in> cv_number ` set (build_criteria_view body deferred) \<and> d \<noteq> cv_number c
     \<and> (\<forall>wave. cv_wave c = Some wave \<longrightarrow>
          (\<exists>c'\<in>set (build_criteria_view body deferred). cv_number c' = d
             \<and> (\<exists>wave'<wave. cv_wave c' = Some wave')))"
proof -
  let ?rows = "parse_dual_rows body"
  let ?k = "length ?rows" and ?g = "load_criterion_graph body (length ?rows)"
  obtain ws where ok: "contract_ok ?k ?g" and ws: "parallel_waves ?g = Some ws"
    and all: "set (concat ws) = {1..<?k + 1}" and nums: "cn_number ` set ?g = {1..<?k + 1}"
    by (rule load_graph_facts)
  from assms(1) obtain i where i: "i < ?k" "c = view_row ?g deferred (Suc i) (?rows ! i)" by (auto simp: view_rows)
  then obtain n where n: "find_node ?g (Suc i) = Some n" using find_node_None_iff [of ?g "Suc i"] nums by auto
  with assms(2) i(2) have d: "d \<in> set (cn_depends_on n)" by (simp add: view_row_def Let_def)
  have "cn_number n \<notin> set (cn_depends_on n)" "set (cn_depends_on n) \<subseteq> {1..<?k + 1}" "cn_number n = Suc i"
    using ok find_node_SomeD [OF n] nums by (auto simp: contract_ok_def)
  with d have dk: "d \<noteq> Suc i" "d \<in> {1..<?k + 1}" by auto
  then obtain j where j: "j < ?k" "d = Suc j" by (auto simp: less_iff_Suc_add dest!: Suc_le_D)
  let ?c' = "view_row ?g deferred (Suc j) (?rows ! j)"
  have c': "?c' \<in> set (build_criteria_view body deferred)" "cv_number ?c' = d"
    using j by (auto simp: view_rows) (simp add: view_row_def Let_def)
  have lt: "wave_index ws d < wave_index ws (Suc i)"
    using dep_wave_index [OF contract_well_numbered [OF ok] ws dep_relI [OF n d]] .
  have wave: "cv_wave ?c' = Some (wave_index ws d)" "wave = wave_index ws (Suc i)" if "cv_wave c = Some wave" for wave
    using that i j dk all find_index_concat [of _ ws]
    by (auto simp: view_row_def Let_def wave_of_def ws split: if_splits)
  have "cv_number c = Suc i" using i(2) by (simp add: view_row_def Let_def)
  moreover have "d \<in> cv_number ` set (build_criteria_view body deferred)" using c' by (metis image_eqI)
  ultimately show ?thesis using c' wave lt dk(1) by blast
qed

definition sample_row :: CriterionView where
  "sample_row = \<lparr>cv_number = 2, cv_text = ''beta'', cv_exec = True, cv_audit = False, cv_depends_on = [1],
     cv_write_scope = [], cv_wave = None, cv_deferred = False\<rparr>"

theorem criteria_view_consistent_witness: "1 \<in> cv_number ` set (build_criteria_view sample_plan [])"
proof -
  have "build_criteria_view sample_plan [] ! 1 = sample_row" "1 < length (build_criteria_view sample_plan [])"
    by code_simp+
  then have "sample_row \<in> set (build_criteria_view sample_plan [])" by (metis nth_mem)
  from criteria_view_consistent [OF this, of 1] show ?thesis by (simp add: sample_row_def)
qed

end
