(* ===== verification/Goal_State.thy ===== *)
theory Goal_State
  imports Criteria_View
begin

text \<open>
  The data of \<^verbatim>\<open>crates/codegen/xai-grok-shell/src/session/goal_tracker.rs\<close>: phases, statuses, pause
  reasons, history entries, and the persisted orchestration record with all its fields, and the
  environment its operations read (the clock, the temporary directory, the answers of the file
  system). Timestamps are strings as in the code; instants are milliseconds of a monotone clock.
\<close>

subsection \<open>Constants\<close>

definition GOAL_CLASSIFIER_STALL_THRESHOLD :: nat where "GOAL_CLASSIFIER_STALL_THRESHOLD = 2"
definition GOAL_STRATEGIST_CAP_BONUS :: nat where "GOAL_STRATEGIST_CAP_BONUS = 3"
definition GOAL_STRATEGIST_STALL_THRESHOLD :: nat where
  "GOAL_STRATEGIST_STALL_THRESHOLD = GOAL_CLASSIFIER_STALL_THRESHOLD + GOAL_STRATEGIST_CAP_BONUS"
definition GOAL_HISTORY_MAX :: nat where "GOAL_HISTORY_MAX = 64"

subsection \<open>Phases, statuses and pause reasons\<close>

datatype GoalPhase = GoalIdle | GoalPlanning | GoalExecuting

datatype GoalStatus =
  Active | UserPaused | BackOffPaused | NoProgressPaused | InfraPaused | Blocked | BudgetLimited | Complete

definition from_wire_str :: "string \<Rightarrow> GoalStatus" where
  "from_wire_str s =
     (if s \<in> {''active'', ''Active''} then Active
      else if s \<in> {''user_paused'', ''paused'', ''Paused''} then UserPaused
      else if s = ''doom_loop_paused'' then UserPaused
      else if s = ''back_off_paused'' then BackOffPaused
      else if s = ''no_progress_paused'' then NoProgressPaused
      else if s = ''infra_paused'' then InfraPaused
      else if s = ''blocked'' then Blocked
      else if s \<in> {''budget_limited'', ''BudgetLimited''} then BudgetLimited
      else if s \<in> {''complete'', ''Complete''} then Complete
      else UserPaused)"

text \<open>The serialised form: \<^verbatim>\<open>rename_all = "snake_case"\<close>.\<close>

fun to_wire_str :: "GoalStatus \<Rightarrow> string" where
  "to_wire_str Active = ''active''"
| "to_wire_str UserPaused = ''user_paused''"
| "to_wire_str BackOffPaused = ''back_off_paused''"
| "to_wire_str NoProgressPaused = ''no_progress_paused''"
| "to_wire_str InfraPaused = ''infra_paused''"
| "to_wire_str Blocked = ''blocked''"
| "to_wire_str BudgetLimited = ''budget_limited''"
| "to_wire_str Complete = ''complete''"

fun is_paused :: "GoalStatus \<Rightarrow> bool" where
  "is_paused UserPaused = True"
| "is_paused BackOffPaused = True"
| "is_paused NoProgressPaused = True"
| "is_paused InfraPaused = True"
| "is_paused Blocked = True"
| "is_paused _ = False"

datatype GoalPauseReason = PauseUser | PauseBackOff | PauseNoProgress | PauseVerification | PauseInfra

fun to_status :: "GoalPauseReason \<Rightarrow> GoalStatus" where
  "to_status PauseUser = UserPaused"
| "to_status PauseBackOff = BackOffPaused"
| "to_status PauseNoProgress = NoProgressPaused"
| "to_status PauseVerification = Blocked"
| "to_status PauseInfra = InfraPaused"

fun halts_unattended_run :: "GoalPauseReason \<Rightarrow> bool" where
  "halts_unattended_run PauseBackOff = False"
| "halts_unattended_run PauseNoProgress = False"
| "halts_unattended_run _ = True"

fun history_detail :: "GoalPauseReason \<Rightarrow> string" where
  "history_detail PauseUser = ''user''"
| "history_detail PauseBackOff = ''back_off''"
| "history_detail PauseNoProgress = ''no_progress''"
| "history_detail PauseVerification = ''blocked''"
| "history_detail PauseInfra = ''infra''"

datatype GoalClassifierVerdict = VerdictAchieved | VerdictNotAchieved

subsection \<open>History\<close>

datatype GoalEvent =
    GoalCreated | PlanningStarted | PlanningCompleted | PlanningFailed | WorkerStarted
  | WorkerCompleted | WorkerFailed | ContextRotated | GoalPaused | GoalResumed | GoalCompleted
  | GoalCleared | BudgetExceeded | PrematureStopDetected | UnknownEvent

record GoalHistoryEntry =
  he_timestamp :: string
  he_event :: GoalEvent
  he_detail :: "string option"
  he_round :: "nat option"
  he_tokens_used :: "int option"
  he_unmet :: "string list"

record ClassifierFinding =
  cf_criterion :: "nat option"
  cf_message :: string

record GoalRoleModel =
  gm_model :: string
  gm_agent_type :: string

subsection \<open>The orchestration record\<close>

record GoalOrchestration =
  go_goal_id :: string
  go_objective :: string
  go_status :: GoalStatus
  go_phase :: GoalPhase
  go_token_budget :: "int option"
  go_elapsed_ms :: nat
  go_created_at :: string
  go_current_subagent_id :: "string option"
  go_current_subagent_role :: "string option"
  go_total_worker_rounds :: nat
  go_total_verify_rounds :: nat
  go_budget_limit_reported :: bool
  go_token_baseline :: int
  go_tokens_used_high_water :: int
  go_parent_tokens_spent :: int
  go_last_session_tokens_seen :: "int option"
  go_history :: "GoalHistoryEntry list"
  go_pause_message :: "string option"
  go_verifier_id :: string
  go_classifier_runs_attempted :: nat
  go_amender_runs :: nat
  go_rounds_since_verify :: nat
  go_classifier_max_runs :: "nat option"
  go_last_classifier_verdict :: "GoalClassifierVerdict option"
  go_last_classifier_details_path :: "string option"
  go_last_classifier_at :: "string option"
  go_last_classifier_gaps :: "string option"
  go_last_classifier_findings :: "ClassifierFinding list"
  go_deferred_criteria :: "DeferredCriterion list"
  go_criteria_view :: "CriterionView list"
  go_criteria_view_mtime :: "nat option"
  go_first_final_response :: "string option"
  go_skeptic0_session_id :: "string option"
  go_skeptic_model_assignment :: "GoalRoleModel list"
  go_last_gap_fingerprint :: "string option"
  go_classifier_stall_count :: nat
  go_consecutive_not_achieved :: nat
  go_last_strategist_fired_at :: nat
  go_strategist_cap_bonus :: nat
  go_last_strategy_path :: "string option"
  go_last_strategy_recommendation :: "string option"
  go_changes_baseline_commit :: "string option"
  go_plan_file :: "string option"
  go_plan_baseline_file :: "string option"
  go_scratch_dir_ready :: bool
  go_live_subagent_tokens :: nat
  go_live_tokens_by_model :: "(string \<times> nat) list"
  go_infra_retry_streak :: nat
  go_live_context_window :: nat
  go_live_context_pct :: nat
  go_live_turn_count :: nat
  go_live_tool_call_count :: nat
  go_planning_in_flight :: bool
  go_verifying_in_flight :: bool

end
