(* ===== verification/Goal_Tracker.thy ===== *)
theory Goal_Tracker
  imports Goal_State Streaks
begin

text \<open>
  \<^verbatim>\<open>crates/codegen/xai-grok-shell/src/session/goal_tracker.rs\<close>: the goal tracker with all its
  operations. What an operation reads from outside (the clock, a fresh identifier, the answers of the
  file system) is its \<open>env\<close> argument; what it asks of the file system is appended to the ghost
  field \<open>gt_fs\<close>. Paths are Unix path strings.
\<close>

subsection \<open>Paths and the environment\<close>

datatype path_component = RootDir | CurDir | ParentDir | Normal string

text \<open>\<^verbatim>\<open>Path::components\<close>: repeated separators and inner dots vanish.\<close>

definition components :: "string \<Rightarrow> path_component list" where
  "components p =
     (if starts_with ''/'' p then [RootDir] else if hd (split_on (CHR ''/'') p) = ''.'' then [CurDir] else [])
     @ map (\<lambda>c. if c = ''..'' then ParentDir else Normal c)
         (filter (\<lambda>c. c \<noteq> [] \<and> c \<noteq> ''.'') (split_on (CHR ''/'') p))"

definition path_starts_with :: "string \<Rightarrow> string \<Rightarrow> bool" where
  "path_starts_with p base = starts_with (components base) (components p)"

definition file_name :: "string \<Rightarrow> string option" where
  "file_name p =
     (if components p = [] then None
      else case last (components p) of Normal n \<Rightarrow> Some n | _ \<Rightarrow> None)"

definition path_join :: "string \<Rightarrow> string \<Rightarrow> string" where
  "path_join base name =
     (if starts_with ''/'' name then name
      else if base = [] \<or> ends_with ''/'' base then base @ name
      else base @ ''/'' @ name)"

datatype create_result = CreatedDir | AlreadyExists | CreateFailed

text \<open>
  The environment of one call: \<open>env_create\<close> is the outcome of creating a directory, \<open>env_owned\<close> the
  answer of \<^verbatim>\<open>verify_owned_real_dir\<close>, \<open>env_chmod\<close> whether permissions could be set, \<open>env_mkdirs\<close> whether
  \<^verbatim>\<open>create_dir_all\<close> succeeded, \<open>env_moved\<close> whether a rename or the exclusive copy succeeded.
\<close>

record env =
  env_now :: nat
  env_timestamp :: string
  env_fresh_id :: string
  env_temp_dir :: string
  env_create :: "string \<Rightarrow> create_result"
  env_owned :: "string \<Rightarrow> bool"
  env_chmod :: "string \<Rightarrow> bool"
  env_mkdirs :: "string \<Rightarrow> bool"
  env_moved :: "string \<Rightarrow> string \<Rightarrow> bool"

datatype fs_request =
    MakeDirs string
  | MoveFile string string
  | AppendReports string string
  | RemoveTree string

definition goal_scratch_root :: "env \<Rightarrow> string \<Rightarrow> string" where
  "goal_scratch_root e verifier_id = path_join (env_temp_dir e) (''grok-goal-'' @ verifier_id)"

definition implementer_scratch_dir :: "env \<Rightarrow> string \<Rightarrow> string" where
  "implementer_scratch_dir e verifier_id = path_join (goal_scratch_root e verifier_id) ''implementer''"

definition skeptic_scratch_dir :: "env \<Rightarrow> string \<Rightarrow> nat \<Rightarrow> string" where
  "skeptic_scratch_dir e verifier_id idx = path_join (goal_scratch_root e verifier_id) (''skeptic-'' @ show_nat idx)"

definition amendment_proposal_file :: "env \<Rightarrow> string \<Rightarrow> string" where
  "amendment_proposal_file e verifier_id = path_join (goal_scratch_root e verifier_id) ''amendment.json''"

definition ensure_goal_scratch_root :: "env \<Rightarrow> string \<Rightarrow> string option" where
  "ensure_goal_scratch_root e verifier_id =
     (let root = goal_scratch_root e verifier_id in
      case env_create e root of
        CreatedDir \<Rightarrow> Some root
      | AlreadyExists \<Rightarrow> if env_owned e root \<and> env_chmod e root then Some root else None
      | CreateFailed \<Rightarrow> None)"

text \<open>The \<^verbatim>\<open>scratch_dir_ready\<close> computation shared by goal creation and restore.\<close>

definition secure_scratch :: "env \<Rightarrow> string \<Rightarrow> bool" where
  "secure_scratch e verifier_id =
     (case ensure_goal_scratch_root e verifier_id of
        Some _ \<Rightarrow> env_mkdirs e (implementer_scratch_dir e verifier_id)
      | None \<Rightarrow> False)"

subsection \<open>The tracker\<close>

record GoalTracker =
  gt_orchestration :: "GoalOrchestration option"
  gt_session_dir :: string
  gt_active_since :: "nat option"
  gt_fs :: "fs_request list"

definition tracker_new :: "string \<Rightarrow> GoalTracker" where
  "tracker_new session_dir =
     \<lparr>gt_orchestration = None, gt_session_dir = session_dir, gt_active_since = None, gt_fs = []\<rparr>"

definition map_orchestration :: "(GoalOrchestration \<Rightarrow> GoalOrchestration) \<Rightarrow> GoalTracker \<Rightarrow> GoalTracker" where
  "map_orchestration f t = t\<lparr>gt_orchestration := map_option f (gt_orchestration t)\<rparr>"

definition request :: "fs_request \<Rightarrow> GoalTracker \<Rightarrow> GoalTracker" where
  "request r t = t\<lparr>gt_fs := gt_fs t @ [r]\<rparr>"

definition is_active :: "GoalTracker \<Rightarrow> bool" where
  "is_active t = (case gt_orchestration t of Some g \<Rightarrow> go_status g = Active | None \<Rightarrow> False)"

definition tracker_phase :: "GoalTracker \<Rightarrow> GoalPhase option" where
  "tracker_phase t = map_option go_phase (gt_orchestration t)"

definition tracker_status :: "GoalTracker \<Rightarrow> GoalStatus option" where
  "tracker_status t = map_option go_status (gt_orchestration t)"

definition current_subagent_id :: "GoalTracker \<Rightarrow> string option" where
  "current_subagent_id t = Option.bind (gt_orchestration t) go_current_subagent_id"

definition tracker_objective :: "GoalTracker \<Rightarrow> string option" where
  "tracker_objective t = map_option go_objective (gt_orchestration t)"

definition tracker_token_budget :: "GoalTracker \<Rightarrow> int option" where
  "tracker_token_budget t = Option.bind (gt_orchestration t) go_token_budget"

definition goal_dir :: "GoalTracker \<Rightarrow> string" where
  "goal_dir t = path_join (gt_session_dir t) ''goal''"

definition plan_path :: "GoalTracker \<Rightarrow> string" where
  "plan_path t = path_join (goal_dir t) ''plan.md''"

definition plan_baseline_path :: "GoalTracker \<Rightarrow> string" where
  "plan_baseline_path t = path_join (goal_dir t) ''plan.baseline.md''"

definition strategy_path :: "GoalTracker \<Rightarrow> string" where
  "strategy_path t = path_join (goal_dir t) ''strategy.md''"

subsection \<open>Resets\<close>

definition reset_strategist_fields :: "GoalOrchestration \<Rightarrow> GoalOrchestration" where
  "reset_strategist_fields g = g\<lparr>go_consecutive_not_achieved := 0, go_last_strategist_fired_at := 0,
     go_strategist_cap_bonus := 0, go_last_strategy_path := None,
     go_last_strategy_recommendation := None\<rparr>"

definition reset_classifier_stall_fields :: "GoalOrchestration \<Rightarrow> GoalOrchestration" where
  "reset_classifier_stall_fields g = g\<lparr>go_last_gap_fingerprint := None, go_classifier_stall_count := 0\<rparr>"

subsection \<open>History\<close>

definition entry_now :: "env \<Rightarrow> GoalEvent \<Rightarrow> string option \<Rightarrow> GoalHistoryEntry" where
  "entry_now e event detail = \<lparr>he_timestamp = env_timestamp e, he_event = event, he_detail = detail,
     he_round = None, he_tokens_used = None, he_unmet = []\<rparr>"

definition append_history :: "GoalHistoryEntry \<Rightarrow> GoalTracker \<Rightarrow> GoalTracker" where
  "append_history entry = map_orchestration (\<lambda>g.
     let history = go_history g @ [entry]; overflow = length history - GOAL_HISTORY_MAX
     in g\<lparr>go_history := drop overflow history\<rparr>)"

definition record_event :: "env \<Rightarrow> GoalEvent \<Rightarrow> string option \<Rightarrow> GoalTracker \<Rightarrow> GoalTracker" where
  "record_event e event detail = append_history (entry_now e event detail)"

subsection \<open>Rescue of the verifier details and scratch removal\<close>

record DeferredGoalFsCleanup =
  fc_scratch_root :: string
  fc_details_src :: "string option"
  fc_goal_dir :: string

text \<open>
  The rescued path, when the move succeeded, and the requests made on the way: the goal directory is
  created, the move is tried, and after a successful move the skeptics' reports are appended.
\<close>

definition rescue_classifier_details_paths ::
    "env \<Rightarrow> string \<Rightarrow> string \<Rightarrow> string \<Rightarrow> string option \<times> fs_request list" where
  "rescue_classifier_details_paths e src scratch_root dir =
     (if ParentDir \<in> set (components src) then (None, [])
      else if \<not> path_starts_with src scratch_root then (None, [])
      else if \<not> env_owned e scratch_root then (None, [])
      else case file_name src of
             None \<Rightarrow> (None, [])
           | Some name \<Rightarrow>
               (let dest = path_join dir name in
                if env_moved e src dest
                then (Some dest, [MakeDirs dir, MoveFile src dest, AppendReports scratch_root dest])
                else (None, [MakeDirs dir, MoveFile src dest])))"

definition rescue_details_only :: "env \<Rightarrow> DeferredGoalFsCleanup \<Rightarrow> string option \<times> fs_request list" where
  "rescue_details_only e job =
     (case fc_details_src job of
        None \<Rightarrow> (None, [])
      | Some src \<Rightarrow> rescue_classifier_details_paths e src (fc_scratch_root job) (fc_goal_dir job))"

definition cleanup_run :: "env \<Rightarrow> DeferredGoalFsCleanup \<Rightarrow> string option \<times> fs_request list" where
  "cleanup_run e job =
     (let (rescued, requests) = rescue_details_only e job
      in (rescued, requests @ [RemoveTree (fc_scratch_root job)]))"

definition deferred_fs_cleanup_job :: "env \<Rightarrow> GoalTracker \<Rightarrow> DeferredGoalFsCleanup option" where
  "deferred_fs_cleanup_job e t =
     map_option (\<lambda>g. \<lparr>fc_scratch_root = goal_scratch_root e (go_verifier_id g),
                      fc_details_src = go_last_classifier_details_path g,
                      fc_goal_dir = goal_dir t\<rparr>) (gt_orchestration t)"

definition apply_rescued_details_path :: "string \<Rightarrow> GoalTracker \<Rightarrow> GoalTracker" where
  "apply_rescued_details_path dest = map_orchestration (\<lambda>g. g\<lparr>go_last_classifier_details_path := Some dest\<rparr>)"

definition rescue_classifier_details :: "env \<Rightarrow> GoalTracker \<Rightarrow> GoalTracker" where
  "rescue_classifier_details e t =
     (case deferred_fs_cleanup_job e t of
        None \<Rightarrow> t
      | Some job \<Rightarrow>
          (let (rescued, requests) = rescue_details_only e job;
               t = t\<lparr>gt_fs := gt_fs t @ requests\<rparr>
           in case rescued of Some dest \<Rightarrow> apply_rescued_details_path dest t | None \<Rightarrow> t))"

definition remove_scratch_root :: "env \<Rightarrow> GoalTracker \<Rightarrow> GoalTracker" where
  "remove_scratch_root e t =
     (case gt_orchestration t of
        Some g \<Rightarrow> request (RemoveTree (goal_scratch_root e (go_verifier_id g))) t
      | None \<Rightarrow> t)"

subsection \<open>Creating and restoring\<close>

definition new_orchestration ::
    "string \<Rightarrow> string \<Rightarrow> int option \<Rightarrow> int \<Rightarrow> string \<Rightarrow> string option \<Rightarrow> string \<Rightarrow> bool \<Rightarrow> GoalOrchestration" where
  "new_orchestration goal_id objective token_budget token_baseline created_at baseline_commit verifier_id
       scratch_dir_ready =
     \<lparr>go_goal_id = goal_id, go_objective = objective, go_status = Active, go_phase = GoalExecuting,
      go_token_budget = token_budget, go_elapsed_ms = 0, go_created_at = created_at,
      go_current_subagent_id = None, go_current_subagent_role = None, go_total_worker_rounds = 0,
      go_total_verify_rounds = 0, go_budget_limit_reported = False, go_token_baseline = token_baseline,
      go_tokens_used_high_water = 0, go_parent_tokens_spent = 0,
      go_last_session_tokens_seen = Some token_baseline, go_history = [], go_pause_message = None,
      go_verifier_id = verifier_id, go_classifier_runs_attempted = 0, go_amender_runs = 0,
      go_rounds_since_verify = 0, go_classifier_max_runs = None, go_last_classifier_verdict = None,
      go_last_classifier_details_path = None, go_last_classifier_at = None,
      go_last_classifier_gaps = None, go_last_classifier_findings = [], go_deferred_criteria = [],
      go_criteria_view = [], go_criteria_view_mtime = None, go_first_final_response = None,
      go_skeptic0_session_id = None, go_skeptic_model_assignment = [], go_last_gap_fingerprint = None,
      go_classifier_stall_count = 0, go_consecutive_not_achieved = 0, go_last_strategist_fired_at = 0,
      go_strategist_cap_bonus = 0, go_last_strategy_path = None,
      go_last_strategy_recommendation = None, go_changes_baseline_commit = baseline_commit,
      go_plan_file = None, go_plan_baseline_file = None, go_scratch_dir_ready = scratch_dir_ready,
      go_live_subagent_tokens = 0, go_live_tokens_by_model = [], go_infra_retry_streak = 0,
      go_live_context_window = 0, go_live_context_pct = 0, go_live_turn_count = 0,
      go_live_tool_call_count = 0, go_planning_in_flight = False, go_verifying_in_flight = False\<rparr>"

definition create_goal ::
    "env \<Rightarrow> string \<Rightarrow> string \<Rightarrow> int option \<Rightarrow> int \<Rightarrow> string \<Rightarrow> string option \<Rightarrow> GoalTracker \<Rightarrow> GoalTracker" where
  "create_goal e goal_id objective token_budget token_baseline created_at baseline_commit t =
     (let t = request (MakeDirs (goal_dir t)) t;
          t = (if gt_orchestration t \<noteq> None
               then remove_scratch_root e (rescue_classifier_details e t) else t);
          verifier_id = env_fresh_id e;
          g = new_orchestration goal_id objective token_budget token_baseline created_at baseline_commit
                verifier_id (secure_scratch e verifier_id)
      in record_event e GoalCreated None
           (t\<lparr>gt_orchestration := Some g, gt_active_since := Some (env_now e)\<rparr>))"

definition canonical_id :: "string \<Rightarrow> bool" where
  "canonical_id verifier_id \<longleftrightarrow> length verifier_id = 12 \<and> list_all is_ascii_hexdigit verifier_id"

definition restored :: "env \<Rightarrow> GoalOrchestration \<Rightarrow> GoalOrchestration" where
  "restored e snapshot =
     (let g = (case go_phase snapshot of
                 GoalIdle \<Rightarrow> snapshot
               | _ \<Rightarrow> snapshot\<lparr>go_phase := GoalIdle,
                        go_status := (if go_status snapshot = Active then UserPaused else go_status snapshot),
                        go_current_subagent_id := None, go_current_subagent_role := None\<rparr>);
          g = g\<lparr>go_planning_in_flight := False, go_verifying_in_flight := False,
                go_skeptic0_session_id := None\<rparr>;
          g = (if \<not> canonical_id (go_verifier_id g) then g\<lparr>go_verifier_id := env_fresh_id e\<rparr> else g)
      in g\<lparr>go_scratch_dir_ready :=
             (if go_status g \<noteq> Complete \<and> go_status g \<noteq> BudgetLimited
              then secure_scratch e (go_verifier_id g) else False)\<rparr>)"

definition from_snapshot :: "env \<Rightarrow> string \<Rightarrow> GoalOrchestration \<Rightarrow> GoalTracker" where
  "from_snapshot e session_dir snapshot =
     (let g = restored e snapshot in
      \<lparr>gt_orchestration = Some g, gt_session_dir = session_dir,
       gt_active_since = (if go_status g = Active then Some (env_now e) else None), gt_fs = []\<rparr>)"

subsection \<open>Transitions\<close>

definition set_phase :: "GoalPhase \<Rightarrow> GoalTracker \<Rightarrow> GoalTracker" where
  "set_phase phase = map_orchestration (\<lambda>g. g\<lparr>go_phase := phase\<rparr>)"

definition set_current_subagent :: "string option \<Rightarrow> string option \<Rightarrow> GoalTracker \<Rightarrow> GoalTracker" where
  "set_current_subagent i role =
     map_orchestration (\<lambda>g. g\<lparr>go_current_subagent_id := i, go_current_subagent_role := role\<rparr>)"

text \<open>The elapsed time of the running interval, added when a transition stops the clock.\<close>

definition flush_elapsed :: "env \<Rightarrow> nat option \<Rightarrow> GoalOrchestration \<Rightarrow> GoalOrchestration" where
  "flush_elapsed e since g =
     (case since of
        Some s \<Rightarrow> g\<lparr>go_elapsed_ms := sat_add64 (go_elapsed_ms g) (env_now e - s)\<rparr>
      | None \<Rightarrow> g)"

definition pause_inner ::
    "env \<Rightarrow> GoalPauseReason \<Rightarrow> string option \<Rightarrow> GoalTracker \<Rightarrow> bool \<times> GoalTracker" where
  "pause_inner e reason message t =
     (case gt_orchestration t of
        Some g \<Rightarrow>
          if go_status g = Active then
            (let g = flush_elapsed e (gt_active_since t) g;
                 g = g\<lparr>go_status := to_status reason,
                       go_pause_message := (if message \<noteq> None then message else go_pause_message g)\<rparr>
             in (True, record_event e GoalPaused (Some (history_detail reason))
                         (t\<lparr>gt_orchestration := Some g, gt_active_since := None\<rparr>)))
          else (False, t)
      | None \<Rightarrow> (False, t))"

definition pause :: "env \<Rightarrow> GoalPauseReason \<Rightarrow> GoalTracker \<Rightarrow> bool \<times> GoalTracker" where
  "pause e reason = pause_inner e reason None"

definition pause_with_message ::
    "env \<Rightarrow> GoalPauseReason \<Rightarrow> string \<Rightarrow> GoalTracker \<Rightarrow> bool \<times> GoalTracker" where
  "pause_with_message e reason message = pause_inner e reason (Some message)"

definition resume :: "env \<Rightarrow> GoalTracker \<Rightarrow> bool \<times> GoalTracker" where
  "resume e t =
     (case gt_orchestration t of
        Some g \<Rightarrow>
          if is_paused (go_status g) then
            (let g = reset_classifier_stall_fields (reset_strategist_fields
                       (g\<lparr>go_status := Active, go_pause_message := None,
                          go_classifier_runs_attempted := 0, go_rounds_since_verify := 0\<rparr>))
             in (True, record_event e GoalResumed None
                         (t\<lparr>gt_orchestration := Some g, gt_active_since := Some (env_now e)\<rparr>)))
          else (False, t)
      | None \<Rightarrow> (False, t))"

text \<open>
  The common body of \<^verbatim>\<open>complete_inner\<close> and \<^verbatim>\<open>budget_limit_inner\<close>, which differ in the final status and
  the recorded event only.
\<close>

definition finish_inner ::
    "GoalStatus \<Rightarrow> GoalEvent \<Rightarrow> env \<Rightarrow> bool \<Rightarrow> GoalTracker \<Rightarrow> bool \<times> GoalTracker" where
  "finish_inner status event e defer_fs t =
     (case gt_orchestration t of
        Some g \<Rightarrow>
          if go_status g = Active \<or> is_paused (go_status g) then
            (let g = flush_elapsed e (gt_active_since t) g;
                 g = reset_strategist_fields
                       (g\<lparr>go_status := status, go_phase := GoalIdle, go_current_subagent_id := None,
                          go_current_subagent_role := None, go_pause_message := None,
                          go_skeptic0_session_id := None, go_skeptic_model_assignment := [],
                          go_plan_baseline_file := None\<rparr>);
                 t = t\<lparr>gt_orchestration := Some g, gt_active_since := None\<rparr>;
                 t = (if defer_fs then t else remove_scratch_root e (rescue_classifier_details e t))
             in (True, record_event e event None t))
          else (False, t)
      | None \<Rightarrow> (False, t))"

definition complete_inner :: "env \<Rightarrow> bool \<Rightarrow> GoalTracker \<Rightarrow> bool \<times> GoalTracker" where
  "complete_inner = finish_inner Complete GoalCompleted"

definition complete :: "env \<Rightarrow> GoalTracker \<Rightarrow> bool \<times> GoalTracker" where
  "complete e = complete_inner e False"

definition complete_defer_scratch_cleanup ::
    "env \<Rightarrow> GoalTracker \<Rightarrow> (bool \<times> DeferredGoalFsCleanup option) \<times> GoalTracker" where
  "complete_defer_scratch_cleanup e t =
     (let job = deferred_fs_cleanup_job e t; (applied, t') = complete_inner e True t
      in ((applied, if applied then job else None), t'))"

definition budget_limit_inner :: "env \<Rightarrow> bool \<Rightarrow> GoalTracker \<Rightarrow> bool \<times> GoalTracker" where
  "budget_limit_inner = finish_inner BudgetLimited BudgetExceeded"

definition budget_limit :: "env \<Rightarrow> GoalTracker \<Rightarrow> bool \<times> GoalTracker" where
  "budget_limit e = budget_limit_inner e False"

definition budget_limit_defer_scratch_cleanup ::
    "env \<Rightarrow> GoalTracker \<Rightarrow> (bool \<times> DeferredGoalFsCleanup option) \<times> GoalTracker" where
  "budget_limit_defer_scratch_cleanup e t =
     (let job = deferred_fs_cleanup_job e t; (applied, t') = budget_limit_inner e True t
      in ((applied, if applied then job else None), t'))"

definition clear :: "env \<Rightarrow> GoalTracker \<Rightarrow> GoalTracker" where
  "clear e t =
     (remove_scratch_root e (rescue_classifier_details e t))\<lparr>gt_orchestration := None, gt_active_since := None\<rparr>"

subsection \<open>Progress, clock and counters\<close>

definition update_live_progress ::
    "nat \<Rightarrow> (string \<times> nat) list \<Rightarrow> nat \<Rightarrow> nat \<Rightarrow> nat \<Rightarrow> nat \<Rightarrow> GoalTracker \<Rightarrow> GoalTracker" where
  "update_live_progress subagent_tokens tokens_by_model context_window context_pct turn_count tool_call_count =
     map_orchestration (\<lambda>g. g\<lparr>go_live_subagent_tokens := subagent_tokens,
       go_live_tokens_by_model := tokens_by_model, go_live_context_window := context_window,
       go_live_context_pct := context_pct, go_live_turn_count := turn_count,
       go_live_tool_call_count := tool_call_count\<rparr>)"

definition account_elapsed :: "env \<Rightarrow> GoalTracker \<Rightarrow> GoalTracker" where
  "account_elapsed e t =
     (case (gt_orchestration t, gt_active_since t) of
        (Some g, Some since) \<Rightarrow>
          t\<lparr>gt_orchestration := Some (flush_elapsed e (Some since) g), gt_active_since := Some (env_now e)\<rparr>
      | _ \<Rightarrow> t)"

text \<open>The part of \<^verbatim>\<open>record_classifier_stall\<close> that changes the record, and the threshold it compares with.\<close>

definition note_fingerprint :: "string \<Rightarrow> GoalOrchestration \<Rightarrow> GoalOrchestration" where
  "note_fingerprint fingerprint g =
     (if go_last_gap_fingerprint g = Some fingerprint
      then g\<lparr>go_classifier_stall_count := sat_add32 (go_classifier_stall_count g) 1\<rparr>
      else g\<lparr>go_last_gap_fingerprint := Some fingerprint, go_classifier_stall_count := 1\<rparr>)"

definition stall_threshold :: "GoalOrchestration \<Rightarrow> nat" where
  "stall_threshold g =
     (if 0 < go_strategist_cap_bonus g then GOAL_STRATEGIST_STALL_THRESHOLD
      else GOAL_CLASSIFIER_STALL_THRESHOLD)"

definition record_classifier_stall :: "string \<Rightarrow> GoalTracker \<Rightarrow> bool \<times> GoalTracker" where
  "record_classifier_stall fingerprint t =
     (case gt_orchestration t of
        None \<Rightarrow> (False, t)
      | Some g \<Rightarrow>
          (let g = note_fingerprint fingerprint g
           in (stall_threshold g \<le> go_classifier_stall_count g, t\<lparr>gt_orchestration := Some g\<rparr>)))"

definition rollback_classifier_attempt :: "GoalTracker \<Rightarrow> GoalTracker" where
  "rollback_classifier_attempt =
     map_orchestration (\<lambda>g. g\<lparr>go_classifier_runs_attempted := go_classifier_runs_attempted g - 1\<rparr>)"

definition reset_classifier_stall :: "GoalTracker \<Rightarrow> GoalTracker" where
  "reset_classifier_stall = map_orchestration reset_classifier_stall_fields"

definition record_not_achieved_streak :: "GoalTracker \<Rightarrow> nat \<times> GoalTracker" where
  "record_not_achieved_streak t =
     (case gt_orchestration t of
        Some g \<Rightarrow>
          (let n = sat_add32 (go_consecutive_not_achieved g) 1
           in (n, t\<lparr>gt_orchestration := Some (g\<lparr>go_consecutive_not_achieved := n\<rparr>)\<rparr>))
      | None \<Rightarrow> (0, t))"

definition defer_criterion :: "nat option \<Rightarrow> string \<Rightarrow> GoalTracker \<Rightarrow> bool \<times> GoalTracker" where
  "defer_criterion criterion reason t =
     (case gt_orchestration t of
        None \<Rightarrow> (False, t)
      | Some g \<Rightarrow>
          if list_ex (\<lambda>d. dc_criterion d = criterion) (go_deferred_criteria g) then (False, t)
          else (True, t\<lparr>gt_orchestration := Some (g\<lparr>go_deferred_criteria :=
                  go_deferred_criteria g @ [\<lparr>dc_criterion = criterion, dc_reason = reason\<rparr>]\<rparr>)\<rparr>))"

text \<open>
  \<^verbatim>\<open>refresh_criteria_view\<close>: \<open>mtime\<close> is the plan's modification time when it can be read, \<open>plan\<close> its body
  when it can be read.
\<close>

definition refresh_criteria_view :: "nat option \<Rightarrow> string option \<Rightarrow> GoalTracker \<Rightarrow> GoalTracker" where
  "refresh_criteria_view mtime plan t =
     (case gt_orchestration t of
        None \<Rightarrow> t
      | Some g \<Rightarrow>
          if mtime \<noteq> None \<and> mtime = go_criteria_view_mtime g then t
          else (case plan of
                  None \<Rightarrow> t
                | Some body \<Rightarrow> t\<lparr>gt_orchestration := Some (g\<lparr>go_criteria_view_mtime := mtime,
                      go_criteria_view := build_criteria_view body (go_deferred_criteria g)\<rparr>)\<rparr>))"

definition force_refresh_criteria_view :: "nat option \<Rightarrow> string option \<Rightarrow> GoalTracker \<Rightarrow> GoalTracker" where
  "force_refresh_criteria_view mtime plan t =
     refresh_criteria_view mtime plan (map_orchestration (\<lambda>g. g\<lparr>go_criteria_view_mtime := None\<rparr>) t)"

definition grant_fresh_classifier_budget :: "GoalTracker \<Rightarrow> GoalTracker" where
  "grant_fresh_classifier_budget =
     map_orchestration (\<lambda>g. reset_classifier_stall_fields
       (g\<lparr>go_classifier_runs_attempted := 0, go_rounds_since_verify := 0\<rparr>))"

definition all_remaining_work_deferred :: "nat \<Rightarrow> GoalTracker \<Rightarrow> bool" where
  "all_remaining_work_deferred criteria t =
     (case gt_orchestration t of
        None \<Rightarrow> False
      | Some g \<Rightarrow>
          if criteria = 0 \<or> go_deferred_criteria g = [] then False
          else if list_ex (\<lambda>d. dc_criterion d = None) (go_deferred_criteria g) then True
          else (let deferred = List.map_filter dc_criterion (go_deferred_criteria g)
                in list_all (\<lambda>n. n \<in> set deferred) [1..<criteria + 1]))"

definition deferral_report :: "GoalTracker \<Rightarrow> string list" where
  "deferral_report t =
     (case gt_orchestration t of
        None \<Rightarrow> []
      | Some g \<Rightarrow> map (\<lambda>d. case dc_criterion d of
                           Some c \<Rightarrow> ''criterion '' @ show_nat c @ '': '' @ dc_reason d
                         | None \<Rightarrow> dc_reason d) (go_deferred_criteria g))"

definition record_infra_failure :: "nat \<Rightarrow> GoalTracker \<Rightarrow> bool \<times> GoalTracker" where
  "record_infra_failure max_retries t =
     (case gt_orchestration t of
        Some g \<Rightarrow>
          (let n = sat_add32 (go_infra_retry_streak g) 1
           in (n \<le> max_retries, t\<lparr>gt_orchestration := Some (g\<lparr>go_infra_retry_streak := n\<rparr>)\<rparr>))
      | None \<Rightarrow> (False, t))"

definition clear_infra_failure_streak :: "GoalTracker \<Rightarrow> GoalTracker" where
  "clear_infra_failure_streak = map_orchestration (\<lambda>g. g\<lparr>go_infra_retry_streak := 0\<rparr>)"

definition claim_strategist_fire :: "(nat \<Rightarrow> nat \<Rightarrow> bool) \<Rightarrow> GoalTracker \<Rightarrow> nat option \<times> GoalTracker" where
  "claim_strategist_fire should_fire t =
     (case gt_orchestration t of
        None \<Rightarrow> (None, t)
      | Some g \<Rightarrow>
          if should_fire (go_consecutive_not_achieved g) (go_last_strategist_fired_at g) then
            (Some (go_consecutive_not_achieved g),
             t\<lparr>gt_orchestration := Some (reset_classifier_stall_fields
                 (g\<lparr>go_last_strategist_fired_at := go_consecutive_not_achieved g,
                    go_strategist_cap_bonus := GOAL_STRATEGIST_CAP_BONUS\<rparr>))\<rparr>)
          else (None, t))"

definition claim_amender_run :: "nat \<Rightarrow> GoalTracker \<Rightarrow> bool \<times> GoalTracker" where
  "claim_amender_run max_runs t =
     (case gt_orchestration t of
        None \<Rightarrow> (False, t)
      | Some g \<Rightarrow>
          if max_runs \<le> go_amender_runs g then (False, t)
          else (True, t\<lparr>gt_orchestration := Some (g\<lparr>go_amender_runs := go_amender_runs g + 1\<rparr>)\<rparr>))"

definition revoke_strategist_cap_bonus :: "GoalTracker \<Rightarrow> GoalTracker" where
  "revoke_strategist_cap_bonus = map_orchestration (\<lambda>g. g\<lparr>go_strategist_cap_bonus := 0\<rparr>)"

definition reset_strategist_state :: "GoalTracker \<Rightarrow> GoalTracker" where
  "reset_strategist_state = map_orchestration reset_strategist_fields"

definition record_strategy_recommendation :: "string \<Rightarrow> string \<Rightarrow> GoalTracker \<Rightarrow> GoalTracker" where
  "record_strategy_recommendation path recommendation =
     map_orchestration (\<lambda>g. g\<lparr>go_last_strategy_path := Some path,
       go_last_strategy_recommendation := Some recommendation\<rparr>)"

subsection \<open>Operations as steps\<close>

text \<open>
  Every operation of the tracker that changes it, as one step in an environment.
\<close>

datatype tracker_op =
    OpCreate string string "int option" int string "string option"
  | OpSetPhase GoalPhase
  | OpSetSubagent "string option" "string option"
  | OpPause GoalPauseReason "string option"
  | OpResume
  | OpComplete bool
  | OpBudgetLimit bool
  | OpClear
  | OpRescued string
  | OpLive nat "(string \<times> nat) list" nat nat nat nat
  | OpAccount
  | OpStall string
  | OpRollback
  | OpResetStall
  | OpNotAchieved
  | OpDefer "nat option" string
  | OpRefresh bool "nat option" "string option"
  | OpGrant
  | OpInfraFailure nat
  | OpInfraClear
  | OpStrategist "nat \<Rightarrow> nat \<Rightarrow> bool"
  | OpAmender nat
  | OpRevokeBonus
  | OpResetStrategist
  | OpStrategy string string
  | OpHistory GoalHistoryEntry

fun op_step :: "env \<Rightarrow> tracker_op \<Rightarrow> GoalTracker \<Rightarrow> GoalTracker" where
  "op_step e (OpCreate i ob tb base at commit) t = create_goal e i ob tb base at commit t"
| "op_step e (OpSetPhase p) t = set_phase p t"
| "op_step e (OpSetSubagent i r) t = set_current_subagent i r t"
| "op_step e (OpPause r m) t = snd (pause_inner e r m t)"
| "op_step e OpResume t = snd (resume e t)"
| "op_step e (OpComplete d) t = snd (complete_inner e d t)"
| "op_step e (OpBudgetLimit d) t = snd (budget_limit_inner e d t)"
| "op_step e OpClear t = clear e t"
| "op_step e (OpRescued dest) t = apply_rescued_details_path dest t"
| "op_step e (OpLive a b c d f h) t = update_live_progress a b c d f h t"
| "op_step e OpAccount t = account_elapsed e t"
| "op_step e (OpStall fp) t = snd (record_classifier_stall fp t)"
| "op_step e OpRollback t = rollback_classifier_attempt t"
| "op_step e OpResetStall t = reset_classifier_stall t"
| "op_step e OpNotAchieved t = snd (record_not_achieved_streak t)"
| "op_step e (OpDefer c r) t = snd (defer_criterion c r t)"
| "op_step e (OpRefresh force m p) t =
     (if force then force_refresh_criteria_view m p t else refresh_criteria_view m p t)"
| "op_step e OpGrant t = grant_fresh_classifier_budget t"
| "op_step e (OpInfraFailure m) t = snd (record_infra_failure m t)"
| "op_step e OpInfraClear t = clear_infra_failure_streak t"
| "op_step e (OpStrategist sf) t = snd (claim_strategist_fire sf t)"
| "op_step e (OpAmender m) t = snd (claim_amender_run m t)"
| "op_step e OpRevokeBonus t = revoke_strategist_cap_bonus t"
| "op_step e OpResetStrategist t = reset_strategist_state t"
| "op_step e (OpStrategy p r) t = record_strategy_recommendation p r t"
| "op_step e (OpHistory h) t = append_history h t"

end
