(* ===== verification/Tracker_Correct.thy ===== *)
theory Tracker_Correct
  imports Goal_Tracker Doggy_Progress
begin

text \<open>
  Correctness of the goal tracker: the invariant of its reachable states, the abstract status machine
  it refines, conservation of the accounted time, the meaning of its streak counters, the restore
  guard, and the safety of its requests to the file system.
\<close>

subsection \<open>The status machine\<close>

fun status_step :: "tracker_op \<Rightarrow> GoalStatus option \<Rightarrow> GoalStatus option" where
  "status_step (OpCreate _ _ _ _ _ _) st = Some Active"
| "status_step (OpPause r _) st = (if st = Some Active then Some (to_status r) else st)"
| "status_step OpResume st =
     (case st of Some s \<Rightarrow> Some (if is_paused s then Active else s) | None \<Rightarrow> None)"
| "status_step (OpComplete _) st =
     (case st of Some s \<Rightarrow> Some (if s = Active \<or> is_paused s then Complete else s) | None \<Rightarrow> None)"
| "status_step (OpBudgetLimit _) st =
     (case st of Some s \<Rightarrow> Some (if s = Active \<or> is_paused s then BudgetLimited else s) | None \<Rightarrow> None)"
| "status_step OpClear st = None"
| "status_step _ st = st"

lemma status_map [simp]:
  "(\<And>g. go_status (f g) = go_status g) \<Longrightarrow> tracker_status (map_orchestration f t) = tracker_status t"
  by (cases "gt_orchestration t") (simp_all add: tracker_status_def map_orchestration_def)

lemma status_append_history [simp]: "tracker_status (append_history h t) = tracker_status t"
  by (simp add: append_history_def Let_def)

lemma status_record_event [simp]: "tracker_status (record_event e ev d t) = tracker_status t"
  by (simp add: record_event_def)

lemma status_rescue [simp]: "tracker_status (rescue_classifier_details e t) = tracker_status t"
  by (auto simp: rescue_classifier_details_def apply_rescued_details_path_def tracker_status_def
      map_orchestration_def option.map_comp comp_def Let_def split: option.splits prod.splits)

lemma status_remove [simp]: "tracker_status (remove_scratch_root e t) = tracker_status t"
  by (simp add: remove_scratch_root_def request_def tracker_status_def split: option.split)

lemma status_fields [simp]:
  "go_status (flush_elapsed e s g) = go_status g"
  "go_status (reset_strategist_fields g) = go_status g"
  "go_status (reset_classifier_stall_fields g) = go_status g"
  "go_status (note_fingerprint fp g) = go_status g"
  by (simp_all add: flush_elapsed_def reset_strategist_fields_def reset_classifier_stall_fields_def
      note_fingerprint_def split: option.split)

lemma status_Some: "gt_orchestration t = Some g \<Longrightarrow> tracker_status t = Some (go_status g)"
  by (simp add: tracker_status_def)

lemma status_finish:
  "tracker_status (snd (finish_inner st ev e d t)) =
     (case tracker_status t of Some s \<Rightarrow> Some (if s = Active \<or> is_paused s then st else s) | None \<Rightarrow> None)"
proof (cases "gt_orchestration t")
  case (Some g)
  show ?thesis
    by (simp add: finish_inner_def Some Let_def status_Some [OF Some]) (simp add: tracker_status_def)
qed (simp add: finish_inner_def tracker_status_def)

lemmas tracker_ops =
  set_phase_def set_current_subagent_def apply_rescued_details_path_def update_live_progress_def
  rollback_classifier_attempt_def reset_classifier_stall_def grant_fresh_classifier_budget_def
  clear_infra_failure_streak_def revoke_strategist_cap_bonus_def reset_strategist_state_def
  record_strategy_recommendation_def

lemmas counter_ops =
  record_classifier_stall_def record_not_achieved_streak_def defer_criterion_def
  record_infra_failure_def claim_strategist_fire_def claim_amender_run_def account_elapsed_def
  refresh_criteria_view_def force_refresh_criteria_view_def

lemma status_counter_ops [simp]:
  "tracker_status (snd (record_classifier_stall fp t)) = tracker_status t"
  "tracker_status (snd (record_not_achieved_streak t)) = tracker_status t"
  "tracker_status (snd (defer_criterion c r t)) = tracker_status t"
  "tracker_status (snd (record_infra_failure m t)) = tracker_status t"
  "tracker_status (snd (claim_strategist_fire sf t)) = tracker_status t"
  "tracker_status (snd (claim_amender_run m t)) = tracker_status t"
  "tracker_status (account_elapsed e t) = tracker_status t"
  "tracker_status (refresh_criteria_view mt p t) = tracker_status t"
  by (simp_all add: counter_ops tracker_status_def Let_def split: option.split)

text \<open>
  Property C14. The tracker refines a status machine of eight statuses. Whatever operation runs in
  whatever environment, the status afterwards is the one the machine gives: a goal becomes active
  by creation or by resuming a paused one, a pause takes effect on an active goal only, completion
  and the budget limit are reached from active and paused goals only and are final until the goal
  is replaced or cleared, and no other operation touches the status.
\<close>

theorem op_step_refines_status: "tracker_status (op_step e c t) = status_step c (tracker_status t)"
proof (cases c)
  case (OpPause r m)
  show ?thesis
    by (cases "gt_orchestration t") (simp_all add: OpPause pause_inner_def Let_def tracker_status_def [of t], simp add: tracker_status_def)
next
  case OpResume
  show ?thesis
    by (cases "gt_orchestration t") (simp_all add: OpResume resume_def Let_def tracker_status_def [of t], simp add: tracker_status_def)
next
  case (OpCreate i ob tb base at commit)
  then show ?thesis by (simp add: create_goal_def Let_def) (simp add: tracker_status_def new_orchestration_def)
next
  case OpClear
  then show ?thesis by (simp add: clear_def tracker_status_def)
next
  case (OpRefresh force m p)
  then show ?thesis by (simp add: force_refresh_criteria_view_def)
qed (simp_all add: complete_inner_def budget_limit_inner_def status_finish tracker_ops)

subsection \<open>The invariant\<close>

definition orch_ok :: "GoalOrchestration \<Rightarrow> bool" where
  "orch_ok g \<longleftrightarrow>
     (go_pause_message g \<noteq> None \<longrightarrow> is_paused (go_status g))
     \<and> length (go_history g) \<le> GOAL_HISTORY_MAX
     \<and> distinct (map dc_criterion (go_deferred_criteria g))
     \<and> canonical_id (go_verifier_id g)
     \<and> (go_last_gap_fingerprint g = None \<longleftrightarrow> go_classifier_stall_count g = 0)
     \<and> (go_strategist_cap_bonus g = 0 \<or> go_strategist_cap_bonus g = GOAL_STRATEGIST_CAP_BONUS)
     \<and> go_last_strategist_fired_at g \<le> go_consecutive_not_achieved g
     \<and> go_consecutive_not_achieved g \<le> u32_max"

definition tracker_ok :: "GoalTracker \<Rightarrow> bool" where
  "tracker_ok t \<longleftrightarrow> (\<forall>g. gt_orchestration t = Some g \<longrightarrow> orch_ok g)
     \<and> (gt_active_since t \<noteq> None \<longleftrightarrow> tracker_status t = Some Active)"

text \<open>Environments whose fresh identifiers have the form \<^verbatim>\<open>generate_verifier_id\<close> produces.\<close>

definition env_ok :: "env \<Rightarrow> bool" where
  "env_ok e \<longleftrightarrow> canonical_id (env_fresh_id e)"

text \<open>
  The states a tracker can get into. A restart reads back what was persisted; the two persisted
  fields that end up in file system paths are taken to be arbitrary, as if the snapshot was edited.
\<close>

inductive tracker_reachable :: "GoalTracker \<Rightarrow> bool" where
  new: "tracker_reachable (tracker_new dir)"
| step: "tracker_reachable t \<Longrightarrow> env_ok e \<Longrightarrow> tracker_reachable (op_step e c t)"
| restart: "tracker_reachable t \<Longrightarrow> env_ok e \<Longrightarrow> gt_orchestration t = Some g \<Longrightarrow>
     tracker_reachable (from_snapshot e dir
       (g\<lparr>go_verifier_id := any_id, go_last_classifier_details_path := any_path\<rparr>))"

lemma ok_map:
  assumes "tracker_ok t" "\<And>g. orch_ok g \<Longrightarrow> orch_ok (f g)" "\<And>g. go_status (f g) = go_status g"
  shows "tracker_ok (map_orchestration f t)"
  using assms(1,2) status_map [of f t, OF assms(3)]
  by (auto simp: tracker_ok_def map_orchestration_def)

lemma ok_history: "orch_ok g \<Longrightarrow> orch_ok (g\<lparr>go_history := drop (length (go_history g @ [h]) - GOAL_HISTORY_MAX) (go_history g @ [h])\<rparr>)"
  by (simp add: orch_ok_def)

lemma ok_append_history: "tracker_ok t \<Longrightarrow> tracker_ok (append_history h t)"
  unfolding append_history_def by (rule ok_map) (simp_all add: Let_def ok_history [simplified])

lemma ok_record_event: "tracker_ok t \<Longrightarrow> tracker_ok (record_event e ev d t)"
  by (simp add: record_event_def ok_append_history)

lemma ok_fs [simp]: "tracker_ok (t\<lparr>gt_fs := fs\<rparr>) = tracker_ok t"
  by (simp add: tracker_ok_def tracker_status_def)

lemma ok_rescue: "tracker_ok t \<Longrightarrow> tracker_ok (rescue_classifier_details e t)"
  unfolding rescue_classifier_details_def apply_rescued_details_path_def Let_def
  by (auto split: option.split prod.split intro!: ok_map simp: orch_ok_def)

lemma ok_remove: "tracker_ok t \<Longrightarrow> tracker_ok (remove_scratch_root e t)"
  by (simp add: remove_scratch_root_def request_def split: option.split)

lemma ok_set:
  "orch_ok g \<Longrightarrow> (since \<noteq> None \<longleftrightarrow> go_status g = Active) \<Longrightarrow>
     tracker_ok (t\<lparr>gt_orchestration := Some g, gt_active_since := since\<rparr>)"
  by (simp add: tracker_ok_def tracker_status_def)

lemma ok_keep_since:
  "tracker_ok t \<Longrightarrow> gt_orchestration t = Some g \<Longrightarrow> orch_ok g' \<Longrightarrow> go_status g' = go_status g \<Longrightarrow>
     tracker_ok (t\<lparr>gt_orchestration := Some g'\<rparr>)"
  by (simp add: tracker_ok_def tracker_status_def)

lemma tracker_okD: "tracker_ok t \<Longrightarrow> gt_orchestration t = Some g \<Longrightarrow> orch_ok g"
  by (simp add: tracker_ok_def)

lemma orch_ok_resets:
  "orch_ok g \<Longrightarrow> orch_ok (reset_strategist_fields g)"
  "orch_ok g \<Longrightarrow> orch_ok (reset_classifier_stall_fields g)"
  "orch_ok g \<Longrightarrow> orch_ok (flush_elapsed e s g)"
  "orch_ok g \<Longrightarrow> orch_ok (note_fingerprint fp g)"
  by (simp_all add: orch_ok_def reset_strategist_fields_def reset_classifier_stall_fields_def
      flush_elapsed_def note_fingerprint_def split: option.split)

lemma paused_to_status [simp]: "is_paused (to_status r)"
  by (cases r) simp_all

lemma is_paused_not_final: "is_paused s \<Longrightarrow> s \<noteq> Active \<and> s \<noteq> Complete \<and> s \<noteq> BudgetLimited"
  by (cases s) simp_all

lemma ok_pause: "tracker_ok t \<Longrightarrow> tracker_ok (snd (pause_inner e r m t))"
proof (cases "gt_orchestration t")
  case (Some g)
  assume ok: "tracker_ok t"
  note g = orch_ok_resets(3) [OF tracker_okD [OF ok Some]]
  show ?thesis
    using ok g is_paused_not_final [of "to_status r"]
    by (auto simp: pause_inner_def Some Let_def intro!: ok_record_event ok_set) (simp_all add: orch_ok_def)
qed (simp add: pause_inner_def)

lemma ok_resume: "tracker_ok t \<Longrightarrow> tracker_ok (snd (resume e t))"
proof (cases "gt_orchestration t")
  case (Some g)
  assume ok: "tracker_ok t"
  from tracker_okD [OF ok Some] ok show ?thesis
    by (auto simp: resume_def Some Let_def intro!: ok_record_event ok_set orch_ok_resets) (simp add: orch_ok_def)
qed (simp add: resume_def)

lemma ok_finish:
  assumes "tracker_ok t" "st \<noteq> Active"
  shows "tracker_ok (snd (finish_inner st ev e d t))"
proof (cases "gt_orchestration t")
  case (Some g)
  note g = orch_ok_resets(3) [OF tracker_okD [OF assms(1) Some]]
  show ?thesis
    using assms g
    by (auto simp: finish_inner_def Some Let_def
        intro!: ok_record_event ok_remove ok_rescue ok_set orch_ok_resets) (simp_all add: orch_ok_def)
qed (simp add: finish_inner_def assms)

lemma ok_create:
  assumes "tracker_ok t" "env_ok e"
  shows "tracker_ok (create_goal e i ob tb base at commit t)"
  unfolding create_goal_def Let_def
  using assms(2)
  by (intro ok_record_event ok_set)
    (auto simp: orch_ok_def new_orchestration_def env_ok_def GOAL_HISTORY_MAX_def u32_max_def)

lemma ok_counter_ops:
  assumes "tracker_ok t"
  shows "tracker_ok (snd (record_classifier_stall fp t))"
    and "tracker_ok (snd (record_not_achieved_streak t))"
    and "tracker_ok (snd (defer_criterion c r t))"
    and "tracker_ok (snd (record_infra_failure m t))"
    and "tracker_ok (snd (claim_strategist_fire sf t))"
    and "tracker_ok (snd (claim_amender_run m t))"
    and "tracker_ok (refresh_criteria_view mt p t)"
  using assms
  by (auto simp: counter_ops Let_def split: option.split if_splits intro!: ok_keep_since orch_ok_resets
      dest: tracker_okD)
    (auto simp: orch_ok_def list_ex_iff sat_add32_def dest!: tracker_okD)

lemma ok_account: "tracker_ok t \<Longrightarrow> tracker_ok (account_elapsed e t)"
  by (auto simp: account_elapsed_def split: option.split intro!: ok_set orch_ok_resets dest: tracker_okD)
    (simp_all add: tracker_ok_def tracker_status_def)

lemma ok_map_ops:
  assumes "tracker_ok t"
  shows "tracker_ok (set_phase ph t)" "tracker_ok (set_current_subagent i r t)"
    "tracker_ok (apply_rescued_details_path d t)" "tracker_ok (update_live_progress a b c d' f h t)"
    "tracker_ok (rollback_classifier_attempt t)" "tracker_ok (reset_classifier_stall t)"
    "tracker_ok (grant_fresh_classifier_budget t)" "tracker_ok (clear_infra_failure_streak t)"
    "tracker_ok (revoke_strategist_cap_bonus t)" "tracker_ok (reset_strategist_state t)"
    "tracker_ok (record_strategy_recommendation p r' t)"
    "tracker_ok (map_orchestration (\<lambda>g. g\<lparr>go_criteria_view_mtime := None\<rparr>) t)"
  unfolding tracker_ops using assms
  by (intro ok_map; simp add: orch_ok_def reset_strategist_fields_def reset_classifier_stall_fields_def)+

lemma ok_step: "tracker_ok t \<Longrightarrow> env_ok e \<Longrightarrow> tracker_ok (op_step e c t)"
proof (cases c)
  case OpClear
  then show ?thesis by (simp add: clear_def tracker_ok_def tracker_status_def)
qed (simp_all add: ok_create ok_pause ok_resume ok_finish complete_inner_def budget_limit_inner_def
    ok_map_ops ok_counter_ops ok_account ok_append_history force_refresh_criteria_view_def)

lemma ok_restored:
  assumes "orch_ok g" "env_ok e"
  shows "orch_ok (restored e (g\<lparr>go_verifier_id := any_id, go_last_classifier_details_path := any_path\<rparr>))"
  using assms by (auto simp: restored_def orch_ok_def env_ok_def Let_def split: GoalPhase.split)

lemma reachable_ok: "tracker_reachable t \<Longrightarrow> tracker_ok t"
proof (induction rule: tracker_reachable.induct)
  case (new dir)
  show ?case by (simp add: tracker_ok_def tracker_new_def tracker_status_def)
next
  case (step t e c)
  then show ?case by (simp add: ok_step)
next
  case (restart t e g dir any_path any_id)
  have "orch_ok (restored e (g\<lparr>go_verifier_id := any_id, go_last_classifier_details_path := any_path\<rparr>))"
    using restart tracker_okD by (intro ok_restored) auto
  then show ?case by (auto simp: from_snapshot_def Let_def tracker_ok_def tracker_status_def)
qed

text \<open>
  Property C13. The invariant of every reachable tracker, through any sequence of operations and
  restarts: the clock runs exactly while the goal is active; a pause message is only kept while the
  goal is paused; the history holds at most 64 entries; no criterion is deferred twice; the scratch
  identifier has its canonical form of twelve hex digits; a stall count exists exactly with its
  fingerprint; the cap bonus is never stacked; the strategist's marker never overtakes the streak.
\<close>

theorem tracker_reachable_ok: "tracker_reachable t \<Longrightarrow> tracker_ok t"
  by (rule reachable_ok)

definition sample_env :: "nat \<Rightarrow> env" where
  "sample_env now = \<lparr>env_now = now, env_timestamp = ''2026-01-01T00:00:00Z'', env_fresh_id = ''0123456789ab'',
     env_temp_dir = ''/tmp'', env_create = (\<lambda>_. CreatedDir), env_owned = (\<lambda>_. True), env_chmod = (\<lambda>_. True),
     env_mkdirs = (\<lambda>_. True), env_moved = (\<lambda>_ _. True)\<rparr>"

lemma sample_env_ok: "env_ok (sample_env now)"
proof -
  have "canonical_id ''0123456789ab''" by code_simp
  then show ?thesis by (simp add: env_ok_def sample_env_def)
qed

definition running_goal :: GoalTracker where
  "running_goal = op_step (sample_env 5) (OpCreate ''g'' ''ship it'' None 0 ''now'' None) (tracker_new ''/s'')"

lemma running_goal_reachable: "tracker_reachable running_goal"
  unfolding running_goal_def by (intro tracker_reachable.step tracker_reachable.new sample_env_ok)

theorem tracker_reachable_ok_witness: "tracker_ok (op_step (sample_env 9) (OpPause PauseInfra (Some ''disk full'')) running_goal)"
  by (intro tracker_reachable_ok tracker_reachable.step running_goal_reachable sample_env_ok)

subsection \<open>Accounted time\<close>

text \<open>The time a goal has been active, seen at a moment: what was flushed and what is still running.\<close>

definition active_ms :: "nat \<Rightarrow> GoalTracker \<Rightarrow> nat" where
  "active_ms now t =
     (case gt_orchestration t of
        None \<Rightarrow> 0
      | Some g \<Rightarrow> go_elapsed_ms g + (case gt_active_since t of Some s \<Rightarrow> now - s | None \<Rightarrow> 0))"

lemma elapsed_fields [simp]:
  "go_elapsed_ms (reset_strategist_fields g) = go_elapsed_ms g"
  "go_elapsed_ms (reset_classifier_stall_fields g) = go_elapsed_ms g"
  "go_elapsed_ms (note_fingerprint fp g) = go_elapsed_ms g"
  by (simp_all add: reset_strategist_fields_def reset_classifier_stall_fields_def note_fingerprint_def)

lemma active_map [simp]:
  "(\<And>g. go_elapsed_ms (f g) = go_elapsed_ms g) \<Longrightarrow> active_ms now (map_orchestration f t) = active_ms now t"
  by (cases "gt_orchestration t") (simp_all add: active_ms_def map_orchestration_def)

lemma active_simps [simp]:
  "active_ms now (append_history h t) = active_ms now t"
  "active_ms now (record_event e ev d t) = active_ms now t"
  "active_ms now (t\<lparr>gt_fs := fs\<rparr>) = active_ms now t"
  by (simp_all add: append_history_def record_event_def Let_def) (simp add: active_ms_def split: option.split)

lemma active_cleanup [simp]:
  "active_ms now (remove_scratch_root e t) = active_ms now t"
  "active_ms now (rescue_classifier_details e t) = active_ms now t"
  by (simp_all add: remove_scratch_root_def request_def rescue_classifier_details_def
      apply_rescued_details_path_def Let_def split: option.split prod.split)

lemma active_counter_ops [simp]:
  "active_ms now (snd (record_classifier_stall fp t)) = active_ms now t"
  "active_ms now (snd (record_not_achieved_streak t)) = active_ms now t"
  "active_ms now (snd (defer_criterion c r t)) = active_ms now t"
  "active_ms now (snd (record_infra_failure m t)) = active_ms now t"
  "active_ms now (snd (claim_strategist_fire sf t)) = active_ms now t"
  "active_ms now (snd (claim_amender_run m t)) = active_ms now t"
  "active_ms now (refresh_criteria_view mt p t) = active_ms now t"
  by (simp_all add: counter_ops active_ms_def Let_def split: option.split)

lemma active_Some: "gt_orchestration t = Some g \<Longrightarrow>
    active_ms now t = go_elapsed_ms g + (case gt_active_since t of Some s \<Rightarrow> now - s | None \<Rightarrow> 0)"
  by (simp add: active_ms_def)

lemma flush_exact:
  assumes "gt_orchestration t = Some g" "active_ms (env_now e) t \<le> u64_max"
  shows "go_elapsed_ms (flush_elapsed e (gt_active_since t) g) = active_ms (env_now e) t"
  using assms by (simp add: active_Some [OF assms(1)] flush_elapsed_def sat_add64_def split: option.splits)

lemma active_pause:
  assumes "active_ms (env_now e) t \<le> u64_max"
  shows "active_ms (env_now e) (snd (pause_inner e r m t)) = active_ms (env_now e) t"
proof (cases "gt_orchestration t")
  case (Some g)
  show ?thesis
    by (simp add: pause_inner_def Some Let_def)
      (simp add: active_ms_def [of _ "t\<lparr>gt_orchestration := _, gt_active_since := _\<rparr>"] flush_exact [OF Some assms])
qed (simp add: pause_inner_def)

lemma active_finish:
  assumes "active_ms (env_now e) t \<le> u64_max"
  shows "active_ms (env_now e) (snd (finish_inner st ev e d t)) = active_ms (env_now e) t"
proof (cases "gt_orchestration t")
  case (Some g)
  show ?thesis
    by (simp add: finish_inner_def Some Let_def)
      (simp add: active_ms_def [of _ "t\<lparr>gt_orchestration := _, gt_active_since := _\<rparr>"] flush_exact [OF Some assms])
qed (simp add: finish_inner_def)

lemma active_resume:
  assumes "tracker_ok t"
  shows "active_ms (env_now e) (snd (resume e t)) = active_ms (env_now e) t"
proof (cases "gt_orchestration t")
  case (Some g)
  have "gt_active_since t = None" if "is_paused (go_status g)"
    using assms that is_paused_not_final by (auto simp: tracker_ok_def tracker_status_def Some)
  then show ?thesis
    by (simp add: resume_def Some Let_def)
      (simp add: active_ms_def [of _ "t\<lparr>gt_orchestration := _, gt_active_since := _\<rparr>"] active_Some [OF Some])
qed (simp add: resume_def)

lemma active_account:
  assumes "active_ms (env_now e) t \<le> u64_max"
  shows "active_ms (env_now e) (account_elapsed e t) = active_ms (env_now e) t"
proof (cases "gt_orchestration t")
  case (Some g)
  show ?thesis
    using flush_exact [OF Some assms] by (auto simp: account_elapsed_def Some active_ms_def split: option.splits)
qed (simp add: account_elapsed_def)

text \<open>
  No active time is lost or counted twice: at the moment an operation runs, the time the
  goal has been active is the same before and after it (pausing, resuming, completing, flushing and
  all others, except the creation and the clearing of a goal), and between operations it grows with
  the clock exactly while the goal is active.
\<close>

theorem active_time_conserved:
  assumes "tracker_reachable t" "active_ms (env_now e) t \<le> u64_max"
    and "\<forall>s. gt_active_since t = Some s \<longrightarrow> s \<le> env_now e"
  shows "((\<forall>i ob tb base at commit. c \<noteq> OpCreate i ob tb base at commit) \<and> c \<noteq> OpClear \<longrightarrow>
            active_ms (env_now e) (op_step e c t) = active_ms (env_now e) t)
         \<and> (env_now e \<le> later \<longrightarrow> active_ms later t =
              active_ms (env_now e) t + (if tracker_status t = Some Active then later - env_now e else 0))"
proof (intro conjI impI)
  have ok: "tracker_ok t" using assms(1) by (rule reachable_ok)
  show "active_ms (env_now e) (op_step e c t) = active_ms (env_now e) t"
    if "(\<forall>i ob tb base at commit. c \<noteq> OpCreate i ob tb base at commit) \<and> c \<noteq> OpClear"
    using that assms(2) ok
    by (cases c) (simp_all add: active_pause active_finish active_resume active_account complete_inner_def
        budget_limit_inner_def force_refresh_criteria_view_def tracker_ops)
  show "active_ms later t =
      active_ms (env_now e) t + (if tracker_status t = Some Active then later - env_now e else 0)"
    if "env_now e \<le> later"
    using that assms(3) ok
    by (cases "gt_active_since t"; cases "gt_orchestration t") (auto simp: active_ms_def tracker_ok_def tracker_status_def)
qed

theorem active_time_conserved_witness:
  "active_ms 9 (op_step (sample_env 9) (OpPause PauseUser None) running_goal) = active_ms 9 running_goal"
proof -
  have since: "gt_active_since running_goal = Some 5" and "gt_orchestration running_goal \<noteq> None"
    by (simp_all add: running_goal_def create_goal_def record_event_def append_history_def map_orchestration_def
        sample_env_def tracker_new_def request_def Let_def)
  moreover have "active_ms 9 running_goal \<le> u64_max"
    by (simp add: running_goal_def create_goal_def Let_def)
      (simp add: active_ms_def new_orchestration_def sample_env_def u64_max_def)
  ultimately show ?thesis
    using active_time_conserved [OF running_goal_reachable, of "sample_env 9" "OpPause PauseUser None" 9]
    by (simp add: sample_env_def)
qed

subsection \<open>Streaks\<close>

interpretation gaps: fp_streak note_fingerprint "\<lambda>fp. fp" go_last_gap_fingerprint go_classifier_stall_count
  by unfold_locales (simp_all add: note_fingerprint_def)

text \<open>A finished turn as the infrastructure counter sees it: a failure counts, a success forgets.\<close>

definition note_turn :: "bool \<Rightarrow> GoalOrchestration \<Rightarrow> GoalOrchestration" where
  "note_turn turn_failed g =
     g\<lparr>go_infra_retry_streak := (if turn_failed then sat_add32 (go_infra_retry_streak g) 1 else 0)\<rparr>"

interpretation infra: bad_streak note_turn "\<lambda>turn_failed. turn_failed" go_infra_retry_streak
  by unfold_locales (simp add: note_turn_def)

definition turn_step :: "nat \<Rightarrow> bool \<Rightarrow> GoalTracker \<Rightarrow> GoalTracker" where
  "turn_step max_retries turn_failed t =
     (if turn_failed then snd (record_infra_failure max_retries t) else clear_infra_failure_streak t)"

lemma turn_step_map: "turn_step m turn_failed t = map_orchestration (note_turn turn_failed) t"
  by (cases "gt_orchestration t")
    (simp_all add: turn_step_def record_infra_failure_def clear_infra_failure_streak_def map_orchestration_def
      note_turn_def Let_def)

lemma stall_map: "snd (record_classifier_stall fp t) = map_orchestration (note_fingerprint fp) t"
  by (cases "gt_orchestration t") (simp_all add: record_classifier_stall_def map_orchestration_def Let_def)

lemma fold_map_orchestration:
  "gt_orchestration (fold (\<lambda>x. map_orchestration (f x)) xs t) = map_option (fold f xs) (gt_orchestration t)"
  by (induction xs arbitrary: t) (simp_all add: map_orchestration_def option.map_comp comp_def option.map_id)

lemma stall_threshold_fold: "stall_threshold (fold note_fingerprint fps g) = stall_threshold g"
  by (induction fps arbitrary: g) (simp_all add: stall_threshold_def note_fingerprint_def)

text \<open>
  The verifier stall guard, over the whole history of rejections since the streak was
  last reset: recording one more rejection reports a stall exactly when the last two rejections (the
  last five while a strategist restructure is in flight) carried the same gap fingerprint.
\<close>

theorem classifier_stall_history:
  assumes "gt_orchestration t = Some g" "go_last_gap_fingerprint g = None"
  shows "fst (record_classifier_stall fp (fold (\<lambda>f. map_orchestration (note_fingerprint f)) fps t)) \<longleftrightarrow>
           last_rounds (stall_threshold g) (\<lambda>f. f = fp) (fps @ [fp])"
proof -
  let ?g = "fold note_fingerprint fps g"
  have "fst (record_classifier_stall fp (fold (\<lambda>f. map_orchestration (note_fingerprint f)) fps t)) \<longleftrightarrow>
      stall_threshold g \<le> go_classifier_stall_count (fold note_fingerprint (fps @ [fp]) g)"
    using stall_threshold_fold [of "fps @ [fp]" g]
    by (simp add: record_classifier_stall_def fold_map_orchestration assms(1) Let_def)
  also have "\<dots> \<longleftrightarrow> last_rounds (stall_threshold g) (\<lambda>f. f = fp) (fps @ [fp])"
    using gaps.count_ge_iff [OF assms(2), of "fps @ [fp]" "stall_threshold g"]
    by (simp add: last_rounds_def stall_threshold_def GOAL_STRATEGIST_STALL_THRESHOLD_def
        GOAL_CLASSIFIER_STALL_THRESHOLD_def GOAL_STRATEGIST_CAP_BONUS_def u32_max_def)
  finally show ?thesis .
qed

theorem classifier_stall_history_witness:
  "fst (record_classifier_stall ''same'' (fold (\<lambda>f. map_orchestration (note_fingerprint f)) [''other'', ''same''] running_goal))"
proof -
  obtain g where g: "gt_orchestration running_goal = Some g" "go_last_gap_fingerprint g = None" "stall_threshold g = 2"
    by (simp add: running_goal_def create_goal_def record_event_def append_history_def map_orchestration_def Let_def)
      (simp add: new_orchestration_def stall_threshold_def GOAL_CLASSIFIER_STALL_THRESHOLD_def)
  show ?thesis
    using classifier_stall_history [OF g(1,2), of "''same''" "[''other'', ''same'']"] g(3) by (simp add: last_rounds_def)
qed

text \<open>
  Patience for infrastructure failures is spent on consecutive failures only: after any
  sequence of turns, one more failure is answered with another retry exactly when the run of failed
  turns it ends is no longer than the retry budget.
\<close>

theorem infra_retry_history:
  assumes "gt_orchestration t = Some g" "go_infra_retry_streak g = 0" "max_retries < u32_max"
  shows "fst (record_infra_failure max_retries (fold (turn_step max_retries) turns t)) \<longleftrightarrow>
           trailing (\<lambda>turn_failed. turn_failed) (turns @ [True]) \<le> max_retries"
proof -
  have "fold (turn_step max_retries) turns t = fold (\<lambda>x. map_orchestration (note_turn x)) turns t"
    by (intro fold_cong) (simp_all add: turn_step_map fun_eq_iff)
  then have "fst (record_infra_failure max_retries (fold (turn_step max_retries) turns t)) \<longleftrightarrow>
      go_infra_retry_streak (fold note_turn (turns @ [True]) g) \<le> max_retries"
    by (simp add: record_infra_failure_def fold_map_orchestration assms(1) Let_def note_turn_def)
  then show ?thesis
    using infra.count_fold [OF assms(2), of "turns @ [True]"] assms(3) by (auto simp: min_def)
qed

theorem infra_retry_history_witness:
  "\<not> fst (record_infra_failure 1 (fold (turn_step 1) [True, False, True] running_goal))"
proof -
  obtain g where g: "gt_orchestration running_goal = Some g" "go_infra_retry_streak g = 0"
    by (simp add: running_goal_def create_goal_def record_event_def append_history_def map_orchestration_def Let_def)
      (simp add: new_orchestration_def)
  show ?thesis
    using infra_retry_history [OF g, of 1 "[True, False, True]"] by (simp add: u32_max_def trailing_def)
qed

subsection \<open>Restoring never self-drives\<close>

lemma restored_status:
  "go_status (restored e snapshot) =
     (if go_phase snapshot \<noteq> GoalIdle \<and> go_status snapshot = Active then UserPaused else go_status snapshot)"
  by (cases "go_phase snapshot") (simp_all add: restored_def Let_def)

lemma wire_active: "from_wire_str s = Active \<longleftrightarrow> s \<in> {''active'', ''Active''}"
  by (cases "s \<in> {''active'', ''Active''}") (simp_all only: from_wire_str_def if_True if_False refl simp_thms split: if_split, simp)

lemma wire_roundtrip: "from_wire_str (to_wire_str s) = s"
  by (cases s) (simp_all add: from_wire_str_def)

text \<open>
  A restored goal drives itself only if it was written as an idle active goal: a status
  text is read as active only when it says so, every status survives writing and reading, and a
  snapshot that was planning or executing comes back paused with no running subagent.
\<close>

theorem restore_never_self_driving:
  "(is_active (from_snapshot e dir snapshot) \<longleftrightarrow> go_status snapshot = Active \<and> go_phase snapshot = GoalIdle)
   \<and> (from_wire_str s = Active \<longleftrightarrow> s = ''active'' \<or> s = ''Active'')
   \<and> from_wire_str (to_wire_str st) = st"
  by (simp add: is_active_def from_snapshot_def Let_def restored_status wire_active wire_roundtrip)

subsection \<open>Requests to the file system\<close>

text \<open>
  What a request may ask: a tree is removed only if it is the scratch root of a canonical identifier,
  which lies directly below the temporary directory; a file is moved only from inside a verified
  scratch root, without a parent component in its path.
\<close>

definition safe_request :: "env \<Rightarrow> fs_request \<Rightarrow> bool" where
  "safe_request e r \<longleftrightarrow>
     (case r of
        RemoveTree p \<Rightarrow> \<exists>i. canonical_id i \<and> p = goal_scratch_root e i
                         \<and> components p = components (env_temp_dir e) @ [Normal (''grok-goal-'' @ i)]
      | MoveFile src dest \<Rightarrow> \<exists>i. canonical_id i \<and> ParentDir \<notin> set (components src)
                         \<and> path_starts_with src (goal_scratch_root e i) \<and> env_owned e (goal_scratch_root e i)
      | _ \<Rightarrow> True)"

definition new_requests :: "GoalTracker \<Rightarrow> GoalTracker \<Rightarrow> fs_request list" where
  "new_requests t t' = drop (length (gt_fs t)) (gt_fs t')"

definition grows :: "env \<Rightarrow> GoalTracker \<Rightarrow> GoalTracker \<Rightarrow> bool" where
  "grows e t t' \<longleftrightarrow> (\<exists>rs. gt_fs t' = gt_fs t @ rs \<and> list_all (safe_request e) rs)"

lemma grows_refl: "gt_fs t' = gt_fs t \<Longrightarrow> grows e t t'"
  by (simp add: grows_def)

lemma grows_trans: "grows e t t' \<Longrightarrow> grows e t' t'' \<Longrightarrow> grows e t t''"
  by (auto simp: grows_def)

lemma grows_cong: "grows e t t' \<Longrightarrow> gt_fs t'' = gt_fs t' \<Longrightarrow> grows e t t''"
  by (simp add: grows_def)

lemma hex_no_slash: "canonical_id i \<Longrightarrow> CHR ''/'' \<notin> set i"
proof
  assume i: "canonical_id i" "CHR ''/'' \<in> set i"
  have "\<not> is_ascii_hexdigit (CHR ''/'')" by code_simp
  with i show False by (auto simp: canonical_id_def list_all_iff)
qed

lemma components_join:
  assumes "CHR ''/'' \<notin> set n" "n \<noteq> []" "hd n \<noteq> CHR ''.''"
  shows "components (path_join base n) = components base @ [Normal n]"
proof -
  have n: "n \<noteq> ''.''" "n \<noteq> ''..''" "\<not> starts_with ''/'' n" "hd n \<noteq> CHR ''/''"
    using assms by (cases n; auto simp: starts_with_iff)+
  consider "base = []" | u where "base = u @ ''/''" | "base \<noteq> []" "\<not> ends_with ''/'' base"
    by (auto simp: ends_with_iff)
  then show ?thesis
  proof cases
    case 1
    then show ?thesis using assms n by (simp add: path_join_def components_def split_on_absent starts_with_iff)
  next
    case (2 u)
    have a: "split_on (CHR ''/'') (u @ CHR ''/'' # n) = split_on (CHR ''/'') u @ [n]"
      "split_on (CHR ''/'') (u @ ''/'') = split_on (CHR ''/'') u @ [[]]"
      using split_on_append_gen [of "CHR ''/''" u "CHR ''/'' # n"] split_on_append_gen [of "CHR ''/''" u "''/''"] assms(1)
      by (simp_all add: split_on_absent)
    have j: "path_join (u @ ''/'') n = u @ CHR ''/'' # n" using n by (simp add: path_join_def ends_with_iff)
    have "starts_with ''/'' (u @ CHR ''/'' # n) = starts_with ''/'' (u @ ''/'')" by (cases u) simp_all
    then show ?thesis using n assms unfolding 2 j unfolding components_def a by simp
  next
    case 3
    have a: "split_on (CHR ''/'') (base @ CHR ''/'' # n) = split_on (CHR ''/'') base @ [n]"
      using split_on_append_gen [of "CHR ''/''" base "CHR ''/'' # n"] assms(1) by (simp add: split_on_absent)
    have j: "path_join base n = base @ CHR ''/'' # n" using 3 n by (simp add: path_join_def)
    have "starts_with ''/'' (base @ CHR ''/'' # n) = starts_with ''/'' base" using 3 by (cases base) simp_all
    then show ?thesis using n assms unfolding j components_def a by simp
  qed
qed

lemma scratch_root_components:
  "canonical_id i \<Longrightarrow>
     components (goal_scratch_root e i) = components (env_temp_dir e) @ [Normal (''grok-goal-'' @ i)]"
  unfolding goal_scratch_root_def by (rule components_join) (simp_all add: hex_no_slash)

lemma grows_remove: "tracker_ok t \<Longrightarrow> grows e t (remove_scratch_root e t)"
  by (auto simp: grows_def remove_scratch_root_def request_def safe_request_def orch_ok_def
      scratch_root_components split: option.split dest: tracker_okD)

lemma grows_rescue: "tracker_ok t \<Longrightarrow> grows e t (rescue_classifier_details e t)"
  by (auto simp: grows_def rescue_classifier_details_def deferred_fs_cleanup_job_def rescue_details_only_def
      rescue_classifier_details_paths_def apply_rescued_details_path_def map_orchestration_def
      safe_request_def orch_ok_def Let_def split: option.split prod.split dest!: tracker_okD)

lemma grows_cleanup: "tracker_ok t \<Longrightarrow> grows e t (remove_scratch_root e (rescue_classifier_details e t))"
  by (rule grows_trans [OF grows_rescue grows_remove [OF ok_rescue]])

lemma fs_map [simp]:
  "gt_fs (map_orchestration f t) = gt_fs t" "gt_fs (append_history h t) = gt_fs t"
  "gt_fs (record_event e ev d t) = gt_fs t"
  by (simp_all add: map_orchestration_def append_history_def record_event_def)

lemma fs_counter_ops [simp]:
  "gt_fs (snd (record_classifier_stall fp t)) = gt_fs t" "gt_fs (snd (record_not_achieved_streak t)) = gt_fs t"
  "gt_fs (snd (defer_criterion c r t)) = gt_fs t" "gt_fs (snd (record_infra_failure m t)) = gt_fs t"
  "gt_fs (snd (claim_strategist_fire sf t)) = gt_fs t" "gt_fs (snd (claim_amender_run m t)) = gt_fs t"
  "gt_fs (account_elapsed e t) = gt_fs t" "gt_fs (refresh_criteria_view mt p t) = gt_fs t"
  "gt_fs (snd (pause_inner e r' m' t)) = gt_fs t" "gt_fs (snd (resume e t)) = gt_fs t"
  by (simp_all add: counter_ops pause_inner_def resume_def Let_def split: option.split)

lemma grows_finish:
  assumes "tracker_ok t" "st \<noteq> Active"
  shows "grows e t (snd (finish_inner st ev e d t))"
proof (cases "gt_orchestration t")
  case (Some g)
  let ?g = "reset_strategist_fields ((flush_elapsed e (gt_active_since t) g)\<lparr>go_status := st, go_phase := GoalIdle,
      go_current_subagent_id := None, go_current_subagent_role := None, go_pause_message := None,
      go_skeptic0_session_id := None, go_skeptic_model_assignment := [], go_plan_baseline_file := None\<rparr>)"
  let ?t = "t\<lparr>gt_orchestration := Some ?g, gt_active_since := None\<rparr>"
  have "orch_ok ?g" using orch_ok_resets(3) [OF tracker_okD [OF assms(1) Some]]
    by (intro orch_ok_resets) (simp add: orch_ok_def)
  then have "tracker_ok ?t" using assms(2) by (intro ok_set) simp_all
  from grows_cleanup [OF this, of e] have "grows e t (remove_scratch_root e (rescue_classifier_details e ?t))"
    by (simp add: grows_def)
  then show ?thesis by (auto simp: finish_inner_def Some Let_def grows_def)
qed (simp add: finish_inner_def grows_refl)

lemma grows_create: "tracker_ok t \<Longrightarrow> grows e t (create_goal e i ob tb base at commit t)"
proof -
  assume ok: "tracker_ok t"
  let ?t = "request (MakeDirs (goal_dir t)) t"
  have "tracker_ok ?t" using ok by (simp add: request_def)
  moreover have "grows e t ?t" by (simp add: grows_def request_def safe_request_def)
  ultimately have "grows e t (remove_scratch_root e (rescue_classifier_details e ?t))"
    using grows_trans grows_cleanup by blast
  with \<open>grows e t ?t\<close> show ?thesis by (auto simp: create_goal_def Let_def grows_def)
qed

lemma grows_step: "tracker_ok t \<Longrightarrow> grows e t (op_step e c t)"
proof (cases c)
  case OpClear
  assume "tracker_ok t"
  from grows_cleanup [OF this, of e] show ?thesis by (simp add: OpClear clear_def grows_def)
qed (simp_all add: grows_create grows_finish grows_refl complete_inner_def budget_limit_inner_def tracker_ops
    force_refresh_criteria_view_def)

text \<open>
  Property C15. No operation of a reachable tracker asks for anything dangerous: every tree it removes
  is the scratch root of a canonical identifier, a direct child of the temporary directory, so a
  tampered snapshot cannot steer a removal elsewhere; every file it moves lies inside such a root
  that was verified to be a real directory of the user, with no parent component in its path.
\<close>

theorem fs_requests_safe:
  assumes "tracker_reachable t"
  shows "list_all (safe_request e) (new_requests t (op_step e c t))"
  using grows_step [OF reachable_ok [OF assms], of e c] by (auto simp: grows_def new_requests_def)

theorem fs_requests_safe_witness:
  "list_all (safe_request (sample_env 9)) (new_requests running_goal (op_step (sample_env 9) OpClear running_goal))"
  by (rule fs_requests_safe [OF running_goal_reachable])

end
