(* ===== verification/Fanout.thy ===== *)
theory Fanout
  imports Criteria_View
begin

text \<open>
  \<^verbatim>\<open>crates/codegen/xai-grok-shell/src/session/goal_fanout.rs\<close>: implementing several acceptance criteria
  at once. A wave of ready criteria is chosen from the criteria view, one worker runs per criterion in
  its own worktree, and the results are merged in criterion order. The subagent coordinator (what it
  answers to a request) and \<^verbatim>\<open>apply_worktree\<close> (the effect on the repository) are parameters; generated
  worker ids are one too. Shown: which waves are chosen and when none is, that the workers of a wave
  have disjoint write scopes when ticked criteria have ticked dependencies (and a plan where they do
  not, because the claims are out of order), and that merging does not depend on the order in which
  the workers finished.
\<close>

subsection \<open>Choosing a wave\<close>

definition GOAL_FANOUT_MAX_DEFAULT :: nat where "GOAL_FANOUT_MAX_DEFAULT = 3"
definition GOAL_FANOUT_MAX_CEILING :: nat where "GOAL_FANOUT_MAX_CEILING = 5"
definition GOAL_FANOUT_MIN_CRITERIA :: nat where "GOAL_FANOUT_MIN_CRITERIA = 2"

datatype FanoutDeclined = Disabled | NotEnoughReady nat | NoRepo | WorktreesDisposed

fun declined_str :: "FanoutDeclined \<Rightarrow> string" where
  "declined_str Disabled = ''disabled''"
| "declined_str (NotEnoughReady _) = ''not_enough_ready''"
| "declined_str NoRepo = ''no_repo''"
| "declined_str WorktreesDisposed = ''worktrees_disposed''"

definition claimed :: "CriterionView list \<Rightarrow> nat \<Rightarrow> bool" where
  "claimed criteria n = list_ex (\<lambda>c. cv_number c = n \<and> (cv_exec c \<or> cv_audit c)) criteria"

definition ready :: "CriterionView list \<Rightarrow> CriterionView \<Rightarrow> bool" where
  "ready criteria c =
     (\<not> cv_exec c \<and> \<not> cv_audit c \<and> \<not> cv_deferred c \<and> list_all (claimed criteria) (cv_depends_on c))"

definition plan_wave ::
    "CriterionView list \<Rightarrow> nat \<Rightarrow> bool \<Rightarrow> bool \<Rightarrow> FanoutDeclined + CriterionView list" where
  "plan_wave criteria fanout_max repo_available worktrees_disposed =
     (if fanout_max \<le> 1 then Inl Disabled
      else if \<not> repo_available then Inl NoRepo
      else if worktrees_disposed then Inl WorktreesDisposed
      else
        let rdy = take fanout_max (filter (ready criteria) criteria) in
        if length rdy < GOAL_FANOUT_MIN_CRITERIA then Inl (NotEnoughReady (length rdy))
        else Inr rdy)"

subsection \<open>Worker outcomes and merge outcomes\<close>

record WorkerOutcome =
  wo_criterion :: nat
  wo_summary :: string
  wo_worktree :: "string option"
  wo_error :: "string option"

datatype MergeOutcome =
    Landed nat "string list"
  | Conflicted nat "string list"
  | Skipped nat string

fun merge_criterion :: "MergeOutcome \<Rightarrow> nat" where
  "merge_criterion (Landed c _) = c"
| "merge_criterion (Conflicted c _) = c"
| "merge_criterion (Skipped c _) = c"

fun landed :: "MergeOutcome \<Rightarrow> bool" where
  "landed (Landed _ _) = True"
| "landed _ = False"

fun written_paths :: "MergeOutcome \<Rightarrow> string list" where
  "written_paths (Landed _ files) = files"
| "written_paths (Conflicted _ conflicts) = conflicts"
| "written_paths (Skipped _ _) = []"

definition observed_writes :: "MergeOutcome list \<Rightarrow> (nat \<times> string list) list" where
  "observed_writes merges =
     map (\<lambda>m. (merge_criterion m, written_paths m)) (filter (\<lambda>m. written_paths m \<noteq> []) merges)"

subsection \<open>Running a worker\<close>

definition prompt_intro :: string where
  "prompt_intro =
     ''You are implementing ONE acceptance criterion of a larger goal, in your own ''
     @ ''isolated worktree, at the same time as other agents implementing the other ''
     @ ''criteria.'' @ [NL, NL]"

definition prompt_rules :: string where
  "prompt_rules =
     ''Rules:'' @ [NL]
     @ ''- Write ONLY inside the files above. Another agent is editing the rest right ''
     @ ''now, in its own checkout, and it cannot see your edits: touching its files ''
     @ ''produces a merge conflict that throws away one of the two rounds.'' @ [NL]
     @ ''- Do not refactor, reformat, or 'improve' anything your criterion does not require.'' @ [NL]
     @ ''- You cannot see or update the goal's acceptance checklist, and you must not try ''
     @ ''to declare the goal complete. Your work is verified independently after it is ''
     @ ''merged.'' @ [NL]
     @ ''- Finish by stating, in a few lines, what you changed and how the criterion is ''
     @ ''observable in the code you wrote. That text is the only thing the coordinating ''
     @ ''agent will see.'' @ [NL]"

definition worker_prompt :: "string \<Rightarrow> CriterionView \<Rightarrow> string" where
  "worker_prompt objective criterion =
     (let scope =
            (if cv_write_scope criterion = []
             then ''Not declared '' @ EM_DASH @ '' stay as close as possible to the files this criterion is about.''
             else join '', '' (cv_write_scope criterion))
      in prompt_intro
         @ ''Overall objective (context only '' @ EM_DASH @ '' do NOT try to satisfy all of it):'' @ [NL]
         @ objective @ [NL, NL]
         @ ''Your criterion (#'' @ show_nat (cv_number criterion) @ '') '' @ EM_DASH
         @ '' this and only this is your job:'' @ [NL] @ trim (cv_text criterion) @ [NL, NL]
         @ ''Files you may write: '' @ scope @ [NL, NL]
         @ prompt_rules)"

text \<open>
  The request a worker is spawned with, without its reply channel, and what comes back over that
  channel: nothing when the request cannot be sent or the channel is dropped, or a result.
\<close>

definition GOAL_WORKER_SUBAGENT_TYPE :: string where "GOAL_WORKER_SUBAGENT_TYPE = ''general-purpose''"
definition GOAL_WORKER_DESCRIPTION :: string where "GOAL_WORKER_DESCRIPTION = ''Goal criterion implementer''"

record ChannelWorkerSpawner =
  sp_parent_session_id :: string
  sp_parent_prompt_id :: "string option"
  sp_cwd :: "string option"
  sp_role_model :: "string option"
  sp_role_agent_type :: "string option"

datatype IsolationMode = NoIsolation | Worktree
datatype ModelOverrideProvenance = Harness | Tool
datatype CapabilityMode = ReadOnly | ReadWrite | Execute | AllTools

record SubagentRuntimeOverrides =
  ov_model :: "string option"
  ov_model_override_provenance :: ModelOverrideProvenance
  ov_reasoning_effort :: "string option"
  ov_persona :: "string option"
  ov_capability_mode :: "CapabilityMode option"
  ov_isolation :: "IsolationMode option"
  ov_harness_agent_type :: "string option"

definition default_overrides :: SubagentRuntimeOverrides where
  "default_overrides =
     \<lparr>ov_model = None, ov_model_override_provenance = Harness, ov_reasoning_effort = None, ov_persona = None,
      ov_capability_mode = None, ov_isolation = None, ov_harness_agent_type = None\<rparr>"

record SubagentRequest =
  sr_id :: string
  sr_prompt :: string
  sr_description :: string
  sr_subagent_type :: string
  sr_parent_session_id :: string
  sr_parent_prompt_id :: "string option"
  sr_resume_from :: "string option"
  sr_cwd :: "string option"
  sr_runtime_overrides :: SubagentRuntimeOverrides
  sr_run_in_background :: bool
  sr_surface_completion :: bool
  sr_fork_context :: bool

record SubagentResult =
  rs_success :: bool
  rs_output :: string
  rs_error :: "string option"
  rs_cancelled :: bool
  rs_subagent_id :: string
  rs_child_session_id :: string
  rs_tool_calls :: nat
  rs_turns :: nat
  rs_duration_ms :: nat
  rs_tokens_used :: nat
  rs_worktree_path :: "string option"
  rs_backgrounded :: bool

datatype spawn_reply = SendFailed | ResultDropped | Replied SubagentResult

definition worker_request :: "ChannelWorkerSpawner \<Rightarrow> string \<Rightarrow> nat \<Rightarrow> string \<Rightarrow> SubagentRequest" where
  "worker_request sp wid criterion prompt =
     \<lparr>sr_id = wid, sr_prompt = prompt,
      sr_description = GOAL_WORKER_DESCRIPTION @ '' (criterion '' @ show_nat criterion @ '')'',
      sr_subagent_type = GOAL_WORKER_SUBAGENT_TYPE,
      sr_parent_session_id = sp_parent_session_id sp, sr_parent_prompt_id = sp_parent_prompt_id sp,
      sr_resume_from = None, sr_cwd = sp_cwd sp,
      sr_runtime_overrides = default_overrides\<lparr>ov_model := sp_role_model sp,
        ov_harness_agent_type := sp_role_agent_type sp, ov_isolation := Some Worktree\<rparr>,
      sr_run_in_background = False, sr_surface_completion = False,
      sr_fork_context = False\<rparr>"

definition failed_worker :: "nat \<Rightarrow> string \<Rightarrow> WorkerOutcome" where
  "failed_worker criterion err =
     \<lparr>wo_criterion = criterion, wo_summary = [], wo_worktree = None, wo_error = Some err\<rparr>"

definition spawn_worker ::
    "(SubagentRequest \<Rightarrow> spawn_reply) \<Rightarrow> ChannelWorkerSpawner \<Rightarrow> string \<Rightarrow> nat \<Rightarrow> string \<Rightarrow> WorkerOutcome" where
  "spawn_worker coordinator sp wid criterion prompt =
     (case coordinator (worker_request sp wid criterion prompt) of
        SendFailed \<Rightarrow> failed_worker criterion ''subagent coordinator channel closed''
      | ResultDropped \<Rightarrow> failed_worker criterion ''subagent result channel dropped''
      | Replied result \<Rightarrow>
          if \<not> rs_success result then
            (failed_worker criterion
               (case rs_error result of
                  Some e \<Rightarrow> e
                | None \<Rightarrow> if rs_cancelled result then ''cancelled'' else ''unknown error''))
              \<lparr>wo_worktree := rs_worktree_path result, wo_summary := rs_output result\<rparr>
          else
            \<lparr>wo_criterion = criterion, wo_summary = rs_output result,
             wo_worktree = rs_worktree_path result, wo_error = None\<rparr>)"

text \<open>\<^verbatim>\<open>join_all\<close> returns the outcomes in the order of the wave, whatever order they finished in.\<close>

definition run_wave ::
    "(SubagentRequest \<Rightarrow> spawn_reply) \<Rightarrow> ChannelWorkerSpawner \<Rightarrow> (nat \<Rightarrow> string) \<Rightarrow> string
     \<Rightarrow> CriterionView list \<Rightarrow> WorkerOutcome list" where
  "run_wave coordinator sp new_id objective wave =
     map (\<lambda>(i, c). spawn_worker coordinator sp (new_id i) (cv_number c) (worker_prompt objective c))
       (enumerate 0 wave)"

subsection \<open>Merging a wave\<close>

text \<open>The request and the answer of \<^verbatim>\<open>apply_worktree\<close>, an effect on the repository.\<close>

datatype ApplyMode = Overwrite | Merge

record ApplyWorktreeRequest =
  aw_session_id :: string
  aw_worktree_path :: string
  aw_mode :: ApplyMode

datatype ChangeType = Create | Edit | Delete | Rename | Copy | Typechange | Untracked

record GitFileChange =
  gf_path :: string
  gf_old_path :: "string option"
  gf_change_type :: ChangeType
  gf_staged :: "bool option"
  gf_additions :: nat
  gf_deletions :: nat
  gf_patch :: "string option"
  gf_patch_bytes :: "nat option"
  gf_patch_lines :: "nat option"
  gf_old_text :: "string option"
  gf_new_text :: "string option"

record FileConflict =
  fc_path :: string
  fc_change_type :: ChangeType
  fc_base :: "string option"
  fc_ours :: "string option"
  fc_theirs :: "string option"

datatype ApplyWorktreeResponse =
    Success "GitFileChange list" string
  | Conflicts "GitFileChange list" "FileConflict list"

type_synonym 'r apply_worktree = "ApplyWorktreeRequest \<Rightarrow> 'r \<Rightarrow> (string + ApplyWorktreeResponse) \<times> 'r"

definition merge_worker :: "'r apply_worktree \<Rightarrow> string \<Rightarrow> WorkerOutcome \<Rightarrow> 'r \<Rightarrow> MergeOutcome \<times> 'r" where
  "merge_worker apply_worktree session_id outcome repo =
     (let criterion = wo_criterion outcome in
      case wo_error outcome of
        Some err \<Rightarrow> (Skipped criterion (''worker failed: '' @ err), repo)
      | None \<Rightarrow>
          (case wo_worktree outcome of
             None \<Rightarrow> (Skipped criterion ''worker left no worktree to merge'', repo)
           | Some worktree \<Rightarrow>
               (case apply_worktree
                   \<lparr>aw_session_id = session_id, aw_worktree_path = worktree, aw_mode = Merge\<rparr> repo of
                  (Inr (Success files git_root), repo') \<Rightarrow> (Landed criterion (map gf_path files), repo')
                | (Inr (Conflicts files conflicts), repo') \<Rightarrow> (Conflicted criterion (map fc_path conflicts), repo')
                | (Inl e, repo') \<Rightarrow> (Skipped criterion (''merge failed: '' @ e), repo'))))"

fun merge_loop :: "'r apply_worktree \<Rightarrow> string \<Rightarrow> WorkerOutcome list \<Rightarrow> 'r \<Rightarrow> MergeOutcome list \<times> 'r" where
  "merge_loop apply_worktree session_id [] repo = ([], repo)"
| "merge_loop apply_worktree session_id (w # ws) repo =
     (let (m, repo1) = merge_worker apply_worktree session_id w repo;
          (ms, repo2) = merge_loop apply_worktree session_id ws repo1
      in (m # ms, repo2))"

definition merge_wave :: "'r apply_worktree \<Rightarrow> string \<Rightarrow> WorkerOutcome list \<Rightarrow> 'r \<Rightarrow> MergeOutcome list \<times> 'r" where
  "merge_wave apply_worktree session_id workers repo =
     merge_loop apply_worktree session_id (sort_key wo_criterion workers) repo"

subsection \<open>The report\<close>

text \<open>
  Strings are UTF-8 bytes; a character starts at every byte that is not a continuation byte.
\<close>

definition utf8_cont :: "char \<Rightarrow> bool" where
  "utf8_cont c = (0x80 \<le> (of_char c :: nat) \<and> (of_char c :: nat) < 0xC0)"

definition char_count :: "string \<Rightarrow> nat" where
  "char_count s = length (filter (\<lambda>c. \<not> utf8_cont c) s)"

fun take_chars :: "nat \<Rightarrow> string \<Rightarrow> string" where
  "take_chars n [] = []"
| "take_chars n (c # cs) =
     (if utf8_cont c then c # take_chars n cs
      else case n of 0 \<Rightarrow> [] | Suc m \<Rightarrow> c # take_chars m cs)"

definition WORKER_SUMMARY_MAX :: nat where "WORKER_SUMMARY_MAX = 240"

definition one_line :: "string \<Rightarrow> string" where
  "one_line s =
     (let flat = join '' '' (filter (\<lambda>l. l \<noteq> []) (map trim (lines s))) in
      if char_count flat \<le> WORKER_SUMMARY_MAX then flat
      else take_chars (WORKER_SUMMARY_MAX - 1) flat @ ELLIPSIS)"

definition fanout_numbers :: "nat list \<Rightarrow> string" where
  "fanout_numbers ns = join '', '' (map show_nat ns)"

definition worker_summary :: "WorkerOutcome list \<Rightarrow> nat \<Rightarrow> string" where
  "worker_summary workers n =
     (case List.find (\<lambda>w. wo_criterion w = n) workers of
        Some w \<Rightarrow> one_line (wo_summary w) | None \<Rightarrow> [])"

fun merge_line :: "string \<Rightarrow> MergeOutcome \<Rightarrow> string" where
  "merge_line summary (Landed n files) =
     ''- criterion '' @ show_nat n @ '': merged ('' @ show_nat (length files) @ '' file(s)). '' @ summary @ [NL]"
| "merge_line summary (Conflicted n conflicts) =
     ''- criterion '' @ show_nat n @ '': NOT merged '' @ EM_DASH @ '' conflicts in '' @ join '', '' conflicts
     @ ''. Its work is still in the worker's worktree only; redo it here or resolve the conflict. ''
     @ summary @ [NL]"
| "merge_line summary (Skipped n why) =
     ''- criterion '' @ show_nat n @ '': nothing landed '' @ EM_DASH @ '' '' @ why @ ''. '' @ summary @ [NL]"

definition render_wave_report :: "WorkerOutcome list \<Rightarrow> MergeOutcome list \<Rightarrow> string" where
  "render_wave_report workers merges =
     (let landed_ns = map merge_criterion (filter landed merges);
          open_ns = map merge_criterion (filter (\<lambda>m. \<not> landed m) merges)
      in ''Parallel implementation round finished. Each criterion below was implemented by a ''
         @ ''separate agent in its own worktree; results are already merged into the working ''
         @ ''tree.'' @ [NL]
         @ concat (map (\<lambda>m. merge_line (worker_summary workers (merge_criterion m)) m) merges)
         @ (if landed_ns = [] then []
            else ''Exec marks for criterion(s) '' @ fanout_numbers landed_ns
                 @ '' are set; they still need independent audit.'' @ [NL])
         @ (if open_ns = [] then []
            else ''Criterion(s) '' @ fanout_numbers open_ns @ '' did not land and remain your work.'' @ [NL])
         @ ''Review the merged result as a whole before requesting verification: the parts were ''
         @ ''written independently and may not fit together.'' @ [NL, NL])"

lemma char_count_take_chars: "char_count (take_chars n s) = min n (char_count s)"
  by (induction n s rule: take_chars.induct) (auto simp: char_count_def split: nat.split)

text \<open>The summary of a worker in the report is bounded, in characters, however much it wrote.\<close>

lemma one_line_bounded: "char_count (one_line s) \<le> WORKER_SUMMARY_MAX"
proof -
  have app: "char_count (a @ b) = char_count a + char_count b" for a b by (simp add: char_count_def)
  have "char_count ELLIPSIS = 1" by (simp add: char_count_def utf8_cont_def)
  then show ?thesis by (simp add: one_line_def Let_def app char_count_take_chars WORKER_SUMMARY_MAX_def)
qed

subsection \<open>The wave\<close>

lemma plan_wave_Inr_iff:
  "plan_wave criteria fanout_max repo disposed = Inr w \<longleftrightarrow>
     1 < fanout_max \<and> repo \<and> \<not> disposed \<and> w = take fanout_max (filter (ready criteria) criteria) \<and> 2 \<le> length w"
  by (auto simp: plan_wave_def Let_def GOAL_FANOUT_MIN_CRITERIA_def)

text \<open>
  The claims are in dependency order: whatever a ticked criterion depends on is ticked.
\<close>

definition claims_closed :: "CriterionView list \<Rightarrow> bool" where
  "claims_closed criteria =
     list_all (\<lambda>c. (cv_exec c \<or> cv_audit c) \<longrightarrow> list_all (claimed criteria) (cv_depends_on c)) criteria"

lemma claimed_iff: "claimed criteria n \<longleftrightarrow> (\<exists>c\<in>set criteria. cv_number c = n \<and> (cv_exec c \<or> cv_audit c))"
  by (auto simp: claimed_def list_ex_iff)

lemma view_number: "cv_number (view_row g deferred n row) = n"
  by (simp add: view_row_def Let_def)

text \<open>A row of the view is determined by its number.\<close>

lemma view_row_unique:
  "c \<in> set (build_criteria_view body deferred) \<Longrightarrow> c' \<in> set (build_criteria_view body deferred)
   \<Longrightarrow> cv_number c = cv_number c' \<Longrightarrow> c = c'"
  by (auto simp: view_rows view_number)

lemma view_deps:
  assumes "c \<in> set (build_criteria_view body deferred)"
  shows "(cv_number c, d) \<in> dep_rel (load_criterion_graph body (length (parse_dual_rows body)))
    \<longleftrightarrow> d \<in> set (cv_depends_on c)"
proof -
  let ?g = "load_criterion_graph body (length (parse_dual_rows body))"
  from assms obtain i where i: "i < length (parse_dual_rows body)"
    and c: "c = view_row ?g deferred (Suc i) (parse_dual_rows body ! i)" by (auto simp: view_rows)
  obtain ws where "cn_number ` set ?g = {1..<length (parse_dual_rows body) + 1}" by (rule load_graph_facts)
  with i obtain n where n: "find_node ?g (Suc i) = Some n" using find_node_None_iff [of ?g "Suc i"] by auto
  with dep_rel_Some [OF n] show ?thesis by (simp add: c view_row_def Let_def)
qed

lemma reach_claimed:
  assumes "(a, b) \<in> (dep_rel (load_criterion_graph body (length (parse_dual_rows body))))\<^sup>+"
    and "claims_closed (build_criteria_view body deferred)"
    and "c \<in> set (build_criteria_view body deferred)" "cv_number c = a"
    and "list_all (claimed (build_criteria_view body deferred)) (cv_depends_on c)"
  shows "claimed (build_criteria_view body deferred) b"
  using assms(1)
proof (induction rule: trancl_induct)
  case (base b)
  with assms(3-5) view_deps [OF assms(3)] show ?case by (auto simp: list_all_iff)
next
  case (step b d)
  then obtain c' where c': "c' \<in> set (build_criteria_view body deferred)" "cv_number c' = b" "cv_exec c' \<or> cv_audit c'"
    by (auto simp: claimed_iff)
  with assms(2) have "list_all (claimed (build_criteria_view body deferred)) (cv_depends_on c')"
    by (auto simp: claims_closed_def list_all_iff)
  with step.hyps(2) c' view_deps [OF c'(1)] show ?case by (auto simp: list_all_iff)
qed

lemma view_unordered_disjoint:
  assumes "a \<in> set (build_criteria_view body deferred)" "b \<in> set (build_criteria_view body deferred)" "a \<noteq> b"
    and "\<not> ordered (load_criterion_graph body (length (parse_dual_rows body))) (cv_number a) (cv_number b)"
  shows "overlapping_scope (cv_write_scope a) (cv_write_scope b) = None"
proof -
  let ?rows = "parse_dual_rows body"
  let ?g = "load_criterion_graph body (length ?rows)"
  have ok: "contract_ok (length ?rows) ?g" and sc: "scope_conflicts ?g ?g = []"
    using load_graph_ok(1) [of body "length ?rows"] by (simp_all add: validate_Nil_iff)
  have nums: "map cn_number ?g = [1..<length ?rows + 1]" using contract_numbers [OF ok] .
  then have len: "length ?g = length ?rows" by (metis diff_add_inverse2 length_map length_upt)
  have node: "find_node ?g (Suc i) = Some (?g ! i)" "cn_number (?g ! i) = Suc i" if "i < length ?rows" for i
  proof -
    show num: "cn_number (?g ! i) = Suc i"
      using arg_cong [OF nums, of "\<lambda>xs. xs ! i"] that len by (simp del: upt_Suc)
    from contract_well_numbered [OF ok] that len have "find_node ?g (cn_number (?g ! i)) = Some (?g ! i)"
      by (intro find_node_distinct) (simp_all add: well_numbered_def)
    with num show "find_node ?g (Suc i) = Some (?g ! i)" by simp
  qed
  from assms(1,2) obtain i j where ij: "i < length ?rows" "j < length ?rows"
    and a: "a = view_row ?g deferred (Suc i) (?rows ! i)" and b: "b = view_row ?g deferred (Suc j) (?rows ! j)"
    by (auto simp: view_rows)
  with assms(3) have ne: "i \<noteq> j" by auto
  have scopes: "cv_write_scope a = cn_write_scope (?g ! i)" "cv_write_scope b = cn_write_scope (?g ! j)"
    using node ij by (simp_all add: a b view_row_def Let_def)
  have "\<not> ordered ?g (Suc i) (Suc j)" "\<not> ordered ?g (Suc j) (Suc i)"
    using assms(4) by (auto simp: a b view_number ordered_trancl)
  moreover have pairs: "ordered ?g (Suc p) (Suc q) \<or> overlapping_scope (cn_write_scope (?g ! p)) (cn_write_scope (?g ! q)) = None"
    if "p < q" "q < length ?rows" for p q
    using sc [unfolded scope_conflicts_Nil_iff pair_conflicts_Nil_iff, rule_format, of p q] that len
      node(2) [of p] node(2) [of q] by simp
  ultimately have "overlapping_scope (cn_write_scope (?g ! i)) (cn_write_scope (?g ! j)) = None
      \<or> overlapping_scope (cn_write_scope (?g ! j)) (cn_write_scope (?g ! i)) = None"
    using ne ij pairs [of i j] pairs [of j i] by (meson nat_neq_iff)
  then show ?thesis unfolding scopes using overlapping_scope_sym by blast
qed

lemma view_distinct: "distinct (map cv_number (build_criteria_view body deferred))"
proof -
  have "map cv_number (build_criteria_view body deferred) = map (\<lambda>i. i + 1) [0..<length (parse_dual_rows body)]"
    by (auto simp: build_criteria_view_def Let_def nth_enumerate_eq view_number intro!: nth_equalityI)
  then show ?thesis by (simp add: distinct_map)
qed

lemma wave_facts:
  assumes "plan_wave (build_criteria_view body deferred) fanout_max repo disposed = Inr wave"
    and "claims_closed (build_criteria_view body deferred)"
  shows "2 \<le> length wave \<and> length wave \<le> fanout_max \<and> distinct (map cv_number wave)
     \<and> (\<forall>c\<in>set wave. c \<in> set (build_criteria_view body deferred) \<and> ready (build_criteria_view body deferred) c)
     \<and> (\<forall>a\<in>set wave. \<forall>b\<in>set wave. a \<noteq> b \<longrightarrow> overlapping_scope (cv_write_scope a) (cv_write_scope b) = None)"
proof -
  let ?view = "build_criteria_view body deferred"
  have w: "wave = take fanout_max (filter (ready ?view) ?view)" "2 \<le> length wave"
    using assms(1) unfolding plan_wave_Inr_iff by blast+
  then have mem: "c \<in> set ?view" "ready ?view c" if "c \<in> set wave" for c
    using that set_take_subset by fastforce+
  have dist: "distinct (map cv_number wave)"
    by (simp add: w(1) take_map [symmetric] distinct_map_filter view_distinct)
  have "\<not> (cv_number a, cv_number b) \<in> (dep_rel (load_criterion_graph body (length (parse_dual_rows body))))\<^sup>+"
    if "a \<in> set wave" "b \<in> set wave" for a b
  proof
    assume "(cv_number a, cv_number b) \<in> (dep_rel (load_criterion_graph body (length (parse_dual_rows body))))\<^sup>+"
    then have "claimed ?view (cv_number b)"
      using reach_claimed assms(2) mem [OF that(1)] by (simp add: ready_def)
    with mem [OF that(2)] show False by (auto simp: claimed_iff ready_def dest: view_row_unique)
  qed
  then have "overlapping_scope (cv_write_scope a) (cv_write_scope b) = None"
    if "a \<in> set wave" "b \<in> set wave" "a \<noteq> b" for a b
    using view_unordered_disjoint [of a body deferred b] mem that by (auto simp: ordered_trancl)
  moreover have "length wave \<le> fanout_max" by (subst w(1)) simp
  ultimately show ?thesis using w(2) dist mem by blast
qed

text \<open>
  Property C38. The workers of a wave do not collide. Whenever a wave is planned over the criteria view
  of a plan, it has between two and \<open>fanout_max\<close> members, all different rows of the view that are not
  implemented, not audited, not deferred and whose dependencies are all claimed. If moreover the claims
  are in dependency order, no two members of the wave have overlapping write scopes.
\<close>

theorem wave_members_disjoint:
  assumes "plan_wave (build_criteria_view body deferred) fanout_max repo disposed = Inr wave"
    and "claims_closed (build_criteria_view body deferred)"
  shows "2 \<le> length wave \<and> length wave \<le> fanout_max \<and> distinct (map cv_number wave)
     \<and> (\<forall>c\<in>set wave. c \<in> set (build_criteria_view body deferred) \<and> ready (build_criteria_view body deferred) c)
     \<and> (\<forall>a\<in>set wave. \<forall>b\<in>set wave. a \<noteq> b \<longrightarrow> overlapping_scope (cv_write_scope a) (cv_write_scope b) = None)"
  by (rule wave_facts [OF assms])

definition two_ready_plan :: string where
  "two_ready_plan = unlines
     [''## Acceptance checklist'', ''| Exec | Audit | Criterion |'',
      ''| [x] | [ ] | base |'', ''| [ ] | [ ] | left |'', ''| [ ] | [ ] | right |'',
      ''## Criterion dependencies'',
      ''| # | Depends on | Write scope |'', ''| 1 | - | src/base.rs |'', ''| 2 | 1 | src/left/** |'', ''| 3 | 1 | src/right.rs |'']"

definition skipped_ahead_plan :: string where
  "skipped_ahead_plan = unlines
     [''## Acceptance checklist'', ''| Exec | Audit | Criterion |'',
      ''| [ ] | [ ] | base |'', ''| [x] | [ ] | middle |'', ''| [ ] | [ ] | top |'',
      ''## Criterion dependencies'',
      ''| # | Depends on | Write scope |'', ''| 1 | - | src/a.rs |'', ''| 2 | 1 | src/b.rs |'', ''| 3 | 2 | src/a.rs |'']"

definition mk_node :: "nat \<Rightarrow> nat list \<Rightarrow> string \<Rightarrow> CriterionNode" where
  "mk_node n deps scope = \<lparr>cn_number = n, cn_depends_on = deps, cn_write_scope = [scope]\<rparr>"

definition mk_row :: "string \<Rightarrow> bool \<Rightarrow> DualRow" where
  "mk_row t e = \<lparr>dr_exec = e, dr_audit = False, dr_criterion = t\<rparr>"

lemma parse_node_cells:
  assumes "table_cells l = [a, b, c]" "\<not> is_separator_row [a, b, c]"
  shows "parse_node l = (case parse_number a of None \<Rightarrow> None | Some n \<Rightarrow>
    Some \<lparr>cn_number = n, cn_depends_on = List.map_filter parse_number (parse_list b), cn_write_scope = parse_list c\<rparr>)"
  by (simp add: parse_node_def Let_def assms split: option.split)

lemma sample_nodes:
  "parse_node ''| # | Depends on | Write scope |'' = None"
  "parse_node ''| 1 | - | src/base.rs |'' = Some (mk_node 1 [] ''src/base.rs'')"
  "parse_node ''| 2 | 1 | src/left/** |'' = Some (mk_node 2 [1] ''src/left/**'')"
  "parse_node ''| 3 | 1 | src/right.rs |'' = Some (mk_node 3 [1] ''src/right.rs'')"
  "parse_node ''| 1 | - | src/a.rs |'' = Some (mk_node 1 [] ''src/a.rs'')"
  "parse_node ''| 2 | 1 | src/b.rs |'' = Some (mk_node 2 [1] ''src/b.rs'')"
  "parse_node ''| 3 | 2 | src/a.rs |'' = Some (mk_node 3 [2] ''src/a.rs'')"
proof -
  note cells = parse_node_cells [of _ "''#''" "''Depends on''" "''Write scope''"]
    parse_node_cells [of _ "''1''" "''-''"] parse_node_cells [of _ "''2''" "''1''"]
    parse_node_cells [of _ "''3''" "''1''"] parse_node_cells [of _ "''3''" "''2''"]
  have ls: "parse_list ''-'' = []" "parse_list ''1'' = [''1'']" "parse_list ''2'' = [''2'']"
    "parse_list ''src/a.rs'' = [''src/a.rs'']" "parse_list ''src/b.rs'' = [''src/b.rs'']"
    "parse_list ''src/base.rs'' = [''src/base.rs'']" "parse_list ''src/left/**'' = [''src/left/**'']"
    "parse_list ''src/right.rs'' = [''src/right.rs'']" by code_simp+
  note simps = small_numbers ls mk_node_def List.map_filter_def
  show "parse_node ''| # | Depends on | Write scope |'' = None"
    by (subst cells(1)) (code_simp, code_simp, simp add: simps)
  show "parse_node ''| 1 | - | src/base.rs |'' = Some (mk_node 1 [] ''src/base.rs'')"
    by (subst cells(2)[where c = "''src/base.rs''"]) (code_simp, code_simp, simp add: simps)
  show "parse_node ''| 2 | 1 | src/left/** |'' = Some (mk_node 2 [1] ''src/left/**'')"
    by (subst cells(3)[where c = "''src/left/**''"]) (code_simp, code_simp, simp add: simps)
  show "parse_node ''| 3 | 1 | src/right.rs |'' = Some (mk_node 3 [1] ''src/right.rs'')"
    by (subst cells(4)[where c = "''src/right.rs''"]) (code_simp, code_simp, simp add: simps)
  show "parse_node ''| 1 | - | src/a.rs |'' = Some (mk_node 1 [] ''src/a.rs'')"
    by (subst cells(2)[where c = "''src/a.rs''"]) (code_simp, code_simp, simp add: simps)
  show "parse_node ''| 2 | 1 | src/b.rs |'' = Some (mk_node 2 [1] ''src/b.rs'')"
    by (subst cells(3)[where c = "''src/b.rs''"]) (code_simp, code_simp, simp add: simps)
  show "parse_node ''| 3 | 2 | src/a.rs |'' = Some (mk_node 3 [2] ''src/a.rs'')"
    by (subst cells(5)[where c = "''src/a.rs''"]) (code_simp, code_simp, simp add: simps)
qed

lemma two_ready_view:
  "build_criteria_view two_ready_plan [] =
     [view_row [mk_node 1 [] ''src/base.rs'', mk_node 2 [1] ''src/left/**'', mk_node 3 [1] ''src/right.rs''] [] 1 (mk_row ''base'' True),
      view_row [mk_node 1 [] ''src/base.rs'', mk_node 2 [1] ''src/left/**'', mk_node 3 [1] ''src/right.rs''] [] 2 (mk_row ''left'' False),
      view_row [mk_node 1 [] ''src/base.rs'', mk_node 2 [1] ''src/left/**'', mk_node 3 [1] ''src/right.rs''] [] 3 (mk_row ''right'' False)]"
  (is "_ = [view_row ?g _ _ _, _, _]")
proof -
  have rows: "parse_dual_rows two_ready_plan = [mk_row ''base'' True, mk_row ''left'' False, mk_row ''right'' False]" by code_simp
  have "section_lines two_ready_plan GRAPH_SECTION =
      [''| # | Depends on | Write scope |'', ''| 1 | - | src/base.rs |'', ''| 2 | 1 | src/left/** |'', ''| 3 | 1 | src/right.rs |'']" by code_simp
  then have "parse_criterion_graph two_ready_plan = Some ?g"
    by (simp add: parse_criterion_graph_def List.map_filter_def sample_nodes)
  moreover have "list_all (\<lambda>v. \<not> is_structural v) (validate ?g 3)" "serialize_conflicts 3 ?g = ?g" by code_simp+
  ultimately have "load_criterion_graph two_ready_plan 3 = ?g" by (simp add: load_criterion_graph_def)
  with rows show ?thesis by (simp add: build_criteria_view_def Let_def eval_nat_numeral)
qed

lemma skipped_ahead_view:
  "build_criteria_view skipped_ahead_plan [] =
     [view_row [mk_node 1 [] ''src/a.rs'', mk_node 2 [1] ''src/b.rs'', mk_node 3 [2] ''src/a.rs''] [] 1 (mk_row ''base'' False),
      view_row [mk_node 1 [] ''src/a.rs'', mk_node 2 [1] ''src/b.rs'', mk_node 3 [2] ''src/a.rs''] [] 2 (mk_row ''middle'' True),
      view_row [mk_node 1 [] ''src/a.rs'', mk_node 2 [1] ''src/b.rs'', mk_node 3 [2] ''src/a.rs''] [] 3 (mk_row ''top'' False)]"
  (is "_ = [view_row ?g _ _ _, _, _]")
proof -
  have rows: "parse_dual_rows skipped_ahead_plan = [mk_row ''base'' False, mk_row ''middle'' True, mk_row ''top'' False]" by code_simp
  have "section_lines skipped_ahead_plan GRAPH_SECTION =
      [''| # | Depends on | Write scope |'', ''| 1 | - | src/a.rs |'', ''| 2 | 1 | src/b.rs |'', ''| 3 | 2 | src/a.rs |'']" by code_simp
  then have "parse_criterion_graph skipped_ahead_plan = Some ?g"
    by (simp add: parse_criterion_graph_def List.map_filter_def sample_nodes)
  moreover have "list_all (\<lambda>v. \<not> is_structural v) (validate ?g 3)" "serialize_conflicts 3 ?g = ?g" by code_simp+
  ultimately have "load_criterion_graph skipped_ahead_plan 3 = ?g" by (simp add: load_criterion_graph_def)
  with rows show ?thesis by (simp add: build_criteria_view_def Let_def eval_nat_numeral)
qed

theorem wave_members_disjoint_witness:
  "\<exists>wave. plan_wave (build_criteria_view two_ready_plan []) 3 True False = Inr wave \<and> 2 \<le> length wave
     \<and> (\<forall>a\<in>set wave. \<forall>b\<in>set wave. a \<noteq> b \<longrightarrow> overlapping_scope (cv_write_scope a) (cv_write_scope b) = None)"
proof -
  have closed: "claims_closed (build_criteria_view two_ready_plan [])" unfolding two_ready_view by code_simp
  have "\<not> isl (plan_wave (build_criteria_view two_ready_plan []) 3 True False)" unfolding two_ready_view by code_simp
  then obtain wave where "plan_wave (build_criteria_view two_ready_plan []) 3 True False = Inr wave"
    by (cases "plan_wave (build_criteria_view two_ready_plan []) 3 True False") auto
  with wave_members_disjoint [OF this closed] show ?thesis by blast
qed

text \<open>
  The claims must be in order. In this plan criterion 2 is ticked although criterion 1, on which it
  depends, is not; 3 depends on 2 and shares a file with 1. Validation accepts the shared file, because
  3 is ordered after 1 through 2, and the wave nevertheless takes 1 and 3 together.
\<close>

theorem skipped_ahead_wave_collides:
  "\<exists>a b. plan_wave (build_criteria_view skipped_ahead_plan []) 3 True False = Inr [a, b]
     \<and> overlapping_scope (cv_write_scope a) (cv_write_scope b) \<noteq> None"
proof -
  have "(case plan_wave (build_criteria_view skipped_ahead_plan []) 3 True False of
      Inr [a, b] \<Rightarrow> overlapping_scope (cv_write_scope a) (cv_write_scope b) \<noteq> None | _ \<Rightarrow> False)"
    unfolding skipped_ahead_view by code_simp
  then show ?thesis by (auto split: sum.splits list.splits)
qed

subsection \<open>Merging\<close>

lemma merge_worker_criterion: "merge_criterion (fst (merge_worker apply_wt sid w repo)) = wo_criterion w"
  by (simp add: merge_worker_def Let_def split: option.split prod.split sum.split ApplyWorktreeResponse.split)

lemma merge_loop_criteria: "map merge_criterion (fst (merge_loop apply_wt sid ws repo)) = map wo_criterion ws"
  by (induction ws arbitrary: repo) (simp_all add: Let_def split_beta merge_worker_criterion)

lemma sort_key_mset_unique:
  fixes f :: "'a \<Rightarrow> nat"
  assumes m: "mset xs = mset ys" and d: "distinct (map f xs)"
  shows "sort_key f xs = sort_key f ys"
proof (rule map_sorted_distinct_set_unique [of f])
  have "mset (map f xs) = mset (map f ys)" using m by (metis mset_map)
  then have d': "distinct (map f ys)" using d mset_eq_imp_distinct_iff by blast
  have s: "set xs = set ys" using m by (rule mset_eq_setD)
  show "set (sort_key f xs) = set (sort_key f ys)" using s by simp
  show "inj_on f (set (sort_key f xs) \<union> set (sort_key f ys))" using d s by (simp add: distinct_map)
  show "distinct (map f (sort_key f xs))" "distinct (map f (sort_key f ys))"
    using d d' by (simp_all add: distinct_map)
qed simp_all

text \<open>
  Property C39. Landing a wave does not depend on which worker finished first. For any two orders of
  the same worker outcomes with different criteria, merging performs the same merges in the same order,
  so the repository and the outcomes agree; there is one outcome per worker, by ascending criterion
  number.
\<close>

theorem merge_wave_order_independent:
  assumes "mset workers = mset workers'" "distinct (map wo_criterion workers)"
  shows "merge_wave apply_wt sid workers repo = merge_wave apply_wt sid workers' repo
     \<and> map merge_criterion (fst (merge_wave apply_wt sid workers repo)) = sort (map wo_criterion workers)"
proof -
  have "map wo_criterion (sort_key wo_criterion workers) = sort (map wo_criterion workers)"
    by (rule properties_for_sort [symmetric]) simp_all
  with sort_key_mset_unique [OF assms] show ?thesis by (simp add: merge_wave_def merge_loop_criteria)
qed

text \<open>A repository that is the list of worktrees applied to it: a second merge of one conflicts.\<close>

definition sample_apply :: "string list apply_worktree" where
  "sample_apply req repo =
     (let path = aw_worktree_path req in
      if path \<in> set repo
      then (Inr (Conflicts [] [\<lparr>fc_path = path, fc_change_type = Edit, fc_base = None, fc_ours = None, fc_theirs = None\<rparr>]), repo)
      else (Inr (Success [] ''/repo''), path # repo))"

definition sample_worker :: "nat \<Rightarrow> string \<Rightarrow> WorkerOutcome" where
  "sample_worker n path = \<lparr>wo_criterion = n, wo_summary = ''done'', wo_worktree = Some path, wo_error = None\<rparr>"

theorem merge_wave_order_independent_witness:
  "merge_wave sample_apply ''s'' [sample_worker 2 ''w2'', sample_worker 1 ''w1''] []
     = merge_wave sample_apply ''s'' [sample_worker 1 ''w1'', sample_worker 2 ''w2''] []"
  using merge_wave_order_independent [of "[sample_worker 2 ''w2'', sample_worker 1 ''w1'']"
      "[sample_worker 1 ''w1'', sample_worker 2 ''w2'']" sample_apply "''s''" "[]"]
  by (simp add: sample_worker_def add_mset_commute)

text \<open>
  Only work that reached the repository is reported as landed: a worker that failed or left no
  worktree changes nothing in the repository and is skipped, and a merge lands exactly when the
  worktree was applied without conflicts.
\<close>

lemma merge_worker_landed_iff:
  "landed (fst (merge_worker apply_wt sid w repo)) \<longleftrightarrow>
     wo_error w = None \<and> (\<exists>wt files root. wo_worktree w = Some wt
        \<and> fst (apply_wt \<lparr>aw_session_id = sid, aw_worktree_path = wt, aw_mode = Merge\<rparr> repo) = Inr (Success files root))"
  by (auto simp: merge_worker_def Let_def split: option.split prod.split sum.split ApplyWorktreeResponse.split)

lemma merge_worker_failed_keeps_repo:
  "wo_error w \<noteq> None \<or> wo_worktree w = None \<Longrightarrow> snd (merge_worker apply_wt sid w repo) = repo"
  by (auto simp: merge_worker_def Let_def split: option.split)

text \<open>Every worker of a wave reports under the criterion it was given, so outcomes are distinct.\<close>

lemma run_wave_criteria: "map wo_criterion (run_wave coord sp new_id objective wave) = map cv_number wave"
proof -
  have "wo_criterion (spawn_worker coord sp i c p) = c" for i c p
    by (simp add: spawn_worker_def failed_worker_def split: spawn_reply.split)
  then show ?thesis by (auto simp: run_wave_def nth_enumerate_eq intro!: nth_equalityI)
qed

end
