(* ===== verification/Det_Gate.thy ===== *)
theory Det_Gate
  imports Plan_Md
begin

text \<open>
  \<^verbatim>\<open>crates/codegen/xai-grok-shell/src/session/goal_deterministic_gate.rs\<close>: the shell checks a plan may
  declare, which run before the verification panel and can reject a round on their own. What the
  operating system answers when a command line is run (a timeout, a spawn error, or an exit status
  with the two output streams) is a parameter; running a check may change the world, so the answer
  comes with a new world. Shown: the parser yields the first six rows that declare a check,
  and the gate rejects exactly with the first check, in plan order,
  that ran and failed.
\<close>

subsection \<open>Data\<close>

definition CHECKS_SECTION :: string where "CHECKS_SECTION = ''Deterministic checks''"
definition MAX_CHECKS :: nat where "MAX_CHECKS = 6"
definition CHECK_TIMEOUT_SECS :: nat where "CHECK_TIMEOUT_SECS = 600"
definition OUTPUT_TAIL_LINES :: nat where "OUTPUT_TAIL_LINES = 25"

record DeterministicCheck =
  ck_criterion :: "nat option"
  ck_command :: string

record CheckFailure =
  xf_criterion :: "nat option"
  xf_command :: string
  xf_detail :: string

datatype CheckOutcome = Passed | Failed CheckFailure | Unusable string

definition finding_message :: "CheckFailure \<Rightarrow> string" where
  "finding_message f =
     (let cmd = [BACKTICK] @ xf_command f @ [BACKTICK];
          head = (case xf_criterion f of
              Some c \<Rightarrow> ''criterion '' @ show_nat c @ '' '' @ MIDDLE_DOT @ '' check '' @ MIDDLE_DOT @ '' '' @ cmd
            | None \<Rightarrow> ''check '' @ MIDDLE_DOT @ '' '' @ cmd)
      in head @ '' '' @ EM_DASH @ '' '' @ xf_detail f)"

subsection \<open>Parsing the table\<close>

text \<open>One line of the section: the check it declares, if any.\<close>

definition check_row :: "string \<Rightarrow> DeterministicCheck option" where
  "check_row line =
     (let cells = table_cells line in
      if length cells < 3 \<or> is_separator_row cells then None
      else if parse_uint u32_max (trim (cells ! 0)) = None then None
      else
        let command = trim (join '' | '' (drop 2 cells)) in
        if command = [] then None
        else Some \<lparr>ck_criterion = parse_uint u32_max (trim (cells ! 1)), ck_command = command\<rparr>)"

text \<open>
  The loop of \<^verbatim>\<open>parse_checks\<close>. The option is the level of the open section (a second header of the
  same name re-opens it), the list holds the checks pushed so far.
\<close>

fun checks_loop :: "nat option \<Rightarrow> DeterministicCheck list \<Rightarrow> string list \<Rightarrow> DeterministicCheck list" where
  "checks_loop sec checks [] = checks"
| "checks_loop sec checks (line # ls) =
     (if is_section_header line CHECKS_SECTION then checks_loop (Some (header_level line)) checks ls
      else case sec of
        None \<Rightarrow> checks_loop None checks ls
      | Some lv \<Rightarrow>
          if is_any_header line \<and> header_level line \<le> lv then checks
          else case check_row line of
            None \<Rightarrow> checks_loop sec checks ls
          | Some c \<Rightarrow>
              if length (checks @ [c]) = MAX_CHECKS then checks @ [c]
              else checks_loop sec (checks @ [c]) ls)"

definition parse_checks :: "string \<Rightarrow> DeterministicCheck list" where
  "parse_checks body = checks_loop None [] (lines body)"

subsection \<open>Running the checks\<close>

text \<open>
  What running a command line yields: nothing within the timeout, a spawn error, or an exit
  status (\<open>None\<close> for a signal) with the lossily decoded output streams.
\<close>

datatype cmd_result = TimedOut | SpawnError string | Exited "int option" string string

definition tail :: "string \<Rightarrow> string" where
  "tail output =
     (let ls = filter (\<lambda>l. trim l \<noteq> []) (map trim_end (lines output)) in
      if ls = [] then ''(no output)''
      else join '' / '' (drop (length ls - OUTPUT_TAIL_LINES) ls))"

fun check_outcome :: "DeterministicCheck \<Rightarrow> cmd_result \<Rightarrow> CheckOutcome" where
  "check_outcome check TimedOut =
     Unusable (''no result within '' @ show_nat CHECK_TIMEOUT_SECS @ ''s'')"
| "check_outcome check (SpawnError e) = Unusable e"
| "check_outcome check (Exited code stdout stderr) =
     (if code = Some 0 then Passed
      else Failed \<lparr>xf_criterion = ck_criterion check, xf_command = ck_command check,
        xf_detail = ''exited '' @ (case code of Some c \<Rightarrow> show_int c | None \<Rightarrow> ''(signal)'') @ '': ''
          @ tail (stdout @ stderr)\<rparr>)"

definition run_one ::
    "(string \<Rightarrow> 'w \<Rightarrow> cmd_result \<times> 'w) \<Rightarrow> DeterministicCheck \<Rightarrow> 'w \<Rightarrow> CheckOutcome \<times> 'w" where
  "run_one exec check w = (let (r, w') = exec (ck_command check) w in (check_outcome check r, w'))"

fun run_checks ::
    "(string \<Rightarrow> 'w \<Rightarrow> cmd_result \<times> 'w) \<Rightarrow> DeterministicCheck list \<Rightarrow> 'w \<Rightarrow> CheckFailure option \<times> 'w" where
  "run_checks exec [] w = (None, w)"
| "run_checks exec (check # cs) w =
     (case run_one exec check w of
        (Passed, w') \<Rightarrow> run_checks exec cs w'
      | (Failed failure, w') \<Rightarrow> (Some failure, w')
      | (Unusable why, w') \<Rightarrow> run_checks exec cs w')"

text \<open>
  The verdict part of \<^verbatim>\<open>deterministic_gate_rejection\<close> (\<^verbatim>\<open>acp_session_impl/goal.rs\<close>): no plan file, an
  unreadable one, no checks or no failure leave the verdict to the panel.
\<close>

definition gate_failure ::
    "(string \<Rightarrow> 'w \<Rightarrow> cmd_result \<times> 'w) \<Rightarrow> string option \<Rightarrow> 'w \<Rightarrow> CheckFailure option \<times> 'w" where
  "gate_failure exec plan w =
     (case plan of
        None \<Rightarrow> (None, w)
      | Some body \<Rightarrow>
          let checks = parse_checks body in
          if checks = [] then (None, w) else run_checks exec checks w)"

subsection \<open>The parser\<close>

lemma check_row_command: "check_row l = Some c \<Longrightarrow> ck_command c \<noteq> [] \<and> trim (ck_command c) = ck_command c"
  by (auto simp: check_row_def Let_def split: if_splits)

lemma checks_loop_length: "length cs < MAX_CHECKS \<Longrightarrow> length (checks_loop sec cs ls) \<le> MAX_CHECKS"
  by (induction sec cs ls rule: checks_loop.induct) (auto split: option.splits)

lemma checks_loop_rows:
  "c \<in> set (checks_loop sec cs ls) \<Longrightarrow> c \<in> set cs \<or> (\<exists>l\<in>set ls. check_row l = Some c)"
  by (induction sec cs ls rule: checks_loop.induct) (auto split: option.splits if_splits)

subsection \<open>The verdict\<close>

text \<open>
  What the operating system answers to a list of checks run one after the other, each in the world its predecessors left,
  whatever the answers are; and when an answer says that a check ran and failed.
\<close>

fun os_answers :: "(string \<Rightarrow> 'w \<Rightarrow> cmd_result \<times> 'w) \<Rightarrow> DeterministicCheck list \<Rightarrow> 'w \<Rightarrow> cmd_result list \<times> 'w" where
  "os_answers exec [] w = ([], w)"
| "os_answers exec (c # cs) w =
     (let (r, w1) = exec (ck_command c) w; (rs, w2) = os_answers exec cs w1 in (r # rs, w2))"

fun ran_and_failed :: "cmd_result \<Rightarrow> bool" where
  "ran_and_failed (Exited code out err) \<longleftrightarrow> code \<noteq> Some 0"
| "ran_and_failed TimedOut \<longleftrightarrow> False"
| "ran_and_failed (SpawnError e) \<longleftrightarrow> False"

text \<open>The report on a check that exited with a status, or was killed by a signal.\<close>

definition failure_report :: "DeterministicCheck \<Rightarrow> int option \<Rightarrow> string \<Rightarrow> string \<Rightarrow> CheckFailure" where
  "failure_report c code out err =
     \<lparr>xf_criterion = ck_criterion c, xf_command = ck_command c,
      xf_detail = ''exited '' @ (case code of Some n \<Rightarrow> show_int n | None \<Rightarrow> ''(signal)'') @ '': '' @ tail (out @ err)\<rparr>"

lemma run_one_cases:
  assumes "exec (ck_command c) w = (r, w')"
  shows "run_checks exec (c # cs) w =
    (if ran_and_failed r then (case r of Exited code out err \<Rightarrow> (Some (failure_report c code out err), w') | _ \<Rightarrow> (None, w'))
     else run_checks exec cs w')"
  using assms by (cases r) (auto simp: run_one_def failure_report_def)

lemma run_checks_None:
  "fst (run_checks exec cs w) = None \<longleftrightarrow> \<not> list_ex ran_and_failed (fst (os_answers exec cs w))"
proof (induction cs arbitrary: w)
  case (Cons c cs)
  obtain r w' where r: "exec (ck_command c) w = (r, w')" by fastforce
  show ?case using Cons [of w'] unfolding run_one_cases [of exec c w r w' cs, OF r]
    by (cases r) (auto simp: r split_beta)
qed simp

lemma run_checks_Some:
  "fst (run_checks exec cs w) = Some f \<longleftrightarrow>
     (\<exists>pre c post code out err. cs = pre @ c # post \<and> \<not> list_ex ran_and_failed (fst (os_answers exec pre w))
        \<and> exec (ck_command c) (snd (os_answers exec pre w)) = (Exited code out err, snd (run_checks exec cs w))
        \<and> code \<noteq> Some 0 \<and> f = failure_report c code out err)"
  (is "?L cs w \<longleftrightarrow> ?R cs w")
proof
  show "?L cs w \<Longrightarrow> ?R cs w"
  proof (induction cs arbitrary: w)
    case (Cons c cs)
    obtain r w' where r: "exec (ck_command c) w = (r, w')" by fastforce
    show ?case
    proof (cases "ran_and_failed r")
      case True
      then obtain code out err where e: "r = Exited code out err" "code \<noteq> Some 0" by (cases r) auto
      with Cons.prems run_one_cases [of exec c w r w' cs, OF r] have "f = failure_report c code out err" "snd (run_checks exec (c # cs) w) = w'" by auto
      with e r show ?thesis by (intro exI [of _ "[]"] exI [of _ c] exI [of _ cs]) auto
    next
      case False
      then have step: "run_checks exec (c # cs) w = run_checks exec cs w'" using run_one_cases [of exec c w r w' cs, OF r] by simp
      with Cons.IH [of w'] Cons.prems obtain pre d post code out err where "cs = pre @ d # post"
        "\<not> list_ex ran_and_failed (fst (os_answers exec pre w'))"
        "exec (ck_command d) (snd (os_answers exec pre w')) = (Exited code out err, snd (run_checks exec cs w'))"
        "code \<noteq> Some 0" "f = failure_report d code out err" by auto
      with False r step show ?thesis
        by (intro exI [of _ "c # pre"] exI [of _ d] exI [of _ post] exI [of _ code] exI [of _ out] exI [of _ err])
          (simp add: split_beta)
    qed
  qed simp
next
  assume "?R cs w"
  then obtain pre c post code out err w2 where R: "cs = pre @ c # post" "\<not> list_ex ran_and_failed (fst (os_answers exec pre w))"
    "exec (ck_command c) (snd (os_answers exec pre w)) = (Exited code out err, w2)" "code \<noteq> Some 0" "f = failure_report c code out err"
    by auto
  from R(2,3) show "?L cs w" unfolding R(1)
  proof (induction pre arbitrary: w)
    case Nil
    then show ?case using R(4,5) run_one_cases [of exec c w "Exited code out err" w2 post] by simp
  next
    case (Cons d pre)
    obtain r w' where r: "exec (ck_command d) w = (r, w')" by fastforce
    show ?case using Cons.IH [of w'] Cons.prems run_one_cases [of exec d w r w' "pre @ c # post", OF r] by (simp add: r split_beta)
  qed
qed

text \<open>
  The lines of the plan that can declare a check: those below a heading of the section, up to the next heading of its level
  or above, where another heading of the section's name opens it again.
\<close>

fun declaring_lines :: "nat option \<Rightarrow> string list \<Rightarrow> string list" where
  "declaring_lines sec [] = []"
| "declaring_lines sec (line # ls) =
     (if is_section_header line CHECKS_SECTION then declaring_lines (Some (header_level line)) ls
      else case sec of
        None \<Rightarrow> declaring_lines None ls
      | Some lv \<Rightarrow> if is_any_header line \<and> header_level line \<le> lv then [] else line # declaring_lines sec ls)"

lemma checks_loop_lines:
  "length cs < MAX_CHECKS \<Longrightarrow>
   checks_loop sec cs ls = take MAX_CHECKS (cs @ List.map_filter check_row (declaring_lines sec ls))"
proof (induction sec cs ls rule: checks_loop.induct)
  case (2 sec cs line ls)
  show ?case
  proof (cases "is_section_header line CHECKS_SECTION \<or> sec = None")
    case True
    with 2 show ?thesis by (auto split: option.split)
  next
    case False
    then obtain lv where lv: "sec = Some lv" "\<not> is_section_header line CHECKS_SECTION" by auto
    show ?thesis
    proof (cases "is_any_header line \<and> header_level line \<le> lv")
      case True
      with lv 2(5) show ?thesis by (simp add: List.map_filter_def)
    next
      case inside: False
      have "Suc (length cs) = MAX_CHECKS \<Longrightarrow> MAX_CHECKS - length cs = Suc 0" by simp
      with inside show ?thesis using 2 lv
        by (cases "check_row line") (auto simp: List.map_filter_def)
    qed
  qed
qed (simp add: List.map_filter_def)

text \<open>
  Property C40. The deterministic gate rejects with the first declared check that ran and failed, and
  with nothing else. The checks are the first six rows that declare one, in the order of the plan, each with a command. The
  gate rejects exactly when a check, run in the world its predecessors left, exited with a status other than zero or by a
  signal, and no check before it did; it reports that check, its criterion, its status and the end of its output. A check that
  timed out or could not be started never rejects, and when no check ran and failed the round goes on to the panel.
\<close>

theorem gate_rejects_first_failure:
  "parse_checks body = take 6 (List.map_filter check_row (declaring_lines None (lines body)))
   \<and> list_all (\<lambda>c. ck_command c \<noteq> []) (parse_checks body)
   \<and> (fst (gate_failure exec (Some body) w) = None \<longleftrightarrow> \<not> list_ex ran_and_failed (fst (os_answers exec (parse_checks body) w)))
   \<and> (fst (gate_failure exec (Some body) w) = Some f \<longleftrightarrow>
       (\<exists>pre c post code out err. parse_checks body = pre @ c # post \<and> \<not> list_ex ran_and_failed (fst (os_answers exec pre w))
          \<and> exec (ck_command c) (snd (os_answers exec pre w)) = (Exited code out err, snd (gate_failure exec (Some body) w))
          \<and> code \<noteq> Some 0 \<and> f = failure_report c code out err))"
proof -
  have same: "gate_failure exec (Some body) w = run_checks exec (parse_checks body) w"
    by (simp add: gate_failure_def Let_def)
  have "parse_checks body = take 6 (List.map_filter check_row (declaring_lines None (lines body)))"
    using checks_loop_lines [of "[]" None "lines body"] by (simp add: parse_checks_def MAX_CHECKS_def)
  moreover have "list_all (\<lambda>c. ck_command c \<noteq> []) (parse_checks body)"
    by (auto simp: list_all_iff parse_checks_def dest!: checks_loop_rows check_row_command)
  ultimately show ?thesis by (simp only: same run_checks_None run_checks_Some [symmetric] simp_thms)
qed

end
