(* ===== verification/Session_Gate.thy ===== *)
theory Session_Gate
  imports Doggy_Decide Tracker_Correct
begin

text \<open>
  The completion gate as the session runs it: \<^verbatim>\<open>acp_session_impl/doggy_gate.rs\<close>, the helpers it calls in
  \<^verbatim>\<open>acp_session_impl/goal.rs\<close> and \<^verbatim>\<open>goal_support.rs\<close>, and the round loop of \<^verbatim>\<open>handle_prompt\<close> in
  \<^verbatim>\<open>acp_session_impl/turn.rs\<close> (all below \<^verbatim>\<open>crates/codegen/xai-grok-shell/src/session\<close>). The session is a
  record of the state these functions read and write; what they tell the user (completion phases,
  command output) is kept in log fields. Outside the model, and arguments of it: the model round
  itself, the drain of goal updates with its verification panel, the names of changed files git
  reports, and the closing summary.
\<close>

subsection \<open>The session\<close>

record UpdateGoalInput =
  ug_completed :: "bool option"
  ug_message :: "string option"
  ug_blocked_reason :: "string option"

record SubagentTokenRecord =
  st_goal_id :: "string option"
  st_resume_anchor_cumulative :: nat
  st_last_cumulative_reported :: nat
  st_model :: "string option"
  st_finished :: bool

definition marginal :: "SubagentTokenRecord \<Rightarrow> nat" where
  "marginal r = st_last_cumulative_reported r - st_resume_anchor_cumulative r"

text \<open>Of a conversation item the gate reads whether it is a user item, its reason and its text.\<close>

datatype SyntheticReason =
    CompactionMeta | SystemReminder | ProjectInstructions | AutoContinue | AutoRecovery | Interjection
  | TaskCompleted | SubagentCompleted | NotificationDrain | GoalSummary | GoalClassifierNudge | SchedulerFired
  | UnknownReason

datatype ConversationItem = UserItem "SyntheticReason option" string | OtherItem string

record Session =
  ss_tracker :: GoalTracker
  ss_token_records :: "(string \<times> SubagentTokenRecord) list"
  ss_harness_enabled :: bool
  ss_posture :: bool
  ss_goal_loop_active :: bool
  ss_plan :: "string option"
  ss_plan_mtime :: "nat option"
  ss_total_tokens :: int
  ss_conversation :: "ConversationItem list"
  ss_pending_completions :: "UpdateGoalInput list"
  ss_ui :: "(string \<times> AuditFinding list) list"
  ss_output :: "string list"

text \<open>
  What a round end asks of the outside: the environment of the tracker, the drain of goal updates
  (with the inputs it is handed on top of the queued ones), the changed files since a baseline
  commit, and the closing summary.
\<close>

record host =
  ho_env :: env
  ho_drain :: "UpdateGoalInput list \<Rightarrow> Session \<Rightarrow> Session"
  ho_changed_files :: "string \<Rightarrow> Session \<Rightarrow> string list option"
  ho_summarizer :: "nat \<Rightarrow> Session \<Rightarrow> string option"

abbreviation status_of :: "Session \<Rightarrow> GoalStatus option" where
  "status_of s \<equiv> tracker_status (ss_tracker s)"

definition on_tracker :: "(GoalTracker \<Rightarrow> GoalTracker) \<Rightarrow> Session \<Rightarrow> Session" where
  "on_tracker f s = s\<lparr>ss_tracker := f (ss_tracker s)\<rparr>"

subsection \<open>Tokens and notifications (goal\_support.rs, goal\_orchestrator.rs)\<close>

definition capped_marginal :: "SubagentTokenRecord \<Rightarrow> int" where
  "capped_marginal r = (if int (marginal r) \<le> i64_max then int (marginal r) else i64_max)"

definition subagent_sums :: "string \<Rightarrow> (string \<times> SubagentTokenRecord) list \<Rightarrow> int \<times> int" where
  "subagent_sums goal_id records =
     fold (\<lambda>(_, r) (all, finished).
         (sat_add_i64 all (capped_marginal r),
          if st_finished r then sat_add_i64 finished (capped_marginal r) else finished))
       (filter (\<lambda>(_, r). st_goal_id r = Some goal_id) records) (0, 0)"

definition ratchet_tokens :: "int \<Rightarrow> int \<Rightarrow> GoalOrchestration \<Rightarrow> GoalOrchestration" where
  "ratchet_tokens current subagent_sum g =
     (let last_seen = (case go_last_session_tokens_seen g of Some n \<Rightarrow> n | None \<Rightarrow> go_token_baseline g);
          spent = (if current > last_seen then sat_add_i64 (go_parent_tokens_spent g) (current - last_seen)
                   else go_parent_tokens_spent g);
          raw = sat_add_i64 spent subagent_sum
      in g\<lparr>go_parent_tokens_spent := spent, go_last_session_tokens_seen := Some current,
           go_tokens_used_high_water := max (go_tokens_used_high_water g) raw\<rparr>)"

definition goal_tokens :: "int \<Rightarrow> Session \<Rightarrow> (int \<times> int) \<times> Session" where
  "goal_tokens current s =
     (case gt_orchestration (ss_tracker s) of
        None \<Rightarrow> ((0, 0), s)
      | Some g \<Rightarrow>
          (let (all, finished) = subagent_sums (go_goal_id g) (ss_token_records s);
               g = ratchet_tokens current all g
           in ((go_tokens_used_high_water g, finished),
               s\<lparr>ss_tracker := (ss_tracker s)\<lparr>gt_orchestration := Some g\<rparr>\<rparr>)))"

definition prune_subagent_records_for_active_goal :: "Session \<Rightarrow> Session" where
  "prune_subagent_records_for_active_goal s =
     (case gt_orchestration (ss_tracker s) of
        None \<Rightarrow> s
      | Some g \<Rightarrow> s\<lparr>ss_token_records :=
            filter (\<lambda>(_, r). st_goal_id r \<noteq> Some (go_goal_id g)) (ss_token_records s)\<rparr>)"

definition emit_goal_updated :: "env \<Rightarrow> Session \<Rightarrow> Session" where
  "emit_goal_updated e s =
     on_tracker (\<lambda>t. refresh_criteria_view (ss_plan_mtime s) (ss_plan s) (account_elapsed e t)) s"

definition refresh_view :: "Session \<Rightarrow> Session" where
  "refresh_view s = on_tracker (force_refresh_criteria_view (ss_plan_mtime s) (ss_plan s)) s"

definition send_output :: "string \<Rightarrow> Session \<Rightarrow> Session" where
  "send_output text_out s = s\<lparr>ss_output := ss_output s @ [text_out]\<rparr>"

definition doggy_emit_completion_ui :: "string \<Rightarrow> AuditFinding list \<Rightarrow> Session \<Rightarrow> Session" where
  "doggy_emit_completion_ui phase findings s =
     (let s = snd (goal_tokens (ss_total_tokens s) s) in
      case gt_orchestration (ss_tracker s) of
        None \<Rightarrow> s
      | Some _ \<Rightarrow> s\<lparr>ss_ui := ss_ui s @ [(phase, findings)]\<rparr>)"

subsection \<open>Pausing, deferring and the budget (goal.rs)\<close>

definition clear_pending_classifier_completions :: "Session \<Rightarrow> Session" where
  "clear_pending_classifier_completions s = s\<lparr>ss_pending_completions := []\<rparr>"

definition auto_pause_goal_if_active_inner ::
    "env \<Rightarrow> GoalPauseReason \<Rightarrow> string option \<Rightarrow> Session \<Rightarrow> bool \<times> Session" where
  "auto_pause_goal_if_active_inner e reason message s =
     (if \<not> halts_unattended_run reason then (False, s)
      else
        let current_tokens = ss_total_tokens s in
        if status_of s \<noteq> Some Active then (False, s)
        else
          let s = on_tracker (\<lambda>t. snd (case message of
                      Some msg \<Rightarrow> pause_with_message e reason msg t | None \<Rightarrow> pause e reason t)) s;
              s = clear_pending_classifier_completions s;
              s = snd (goal_tokens current_tokens s)
          in (True, emit_goal_updated e s))"

definition auto_pause_goal_if_active_with_message ::
    "env \<Rightarrow> GoalPauseReason \<Rightarrow> string \<Rightarrow> Session \<Rightarrow> bool \<times> Session" where
  "auto_pause_goal_if_active_with_message e reason message =
     auto_pause_goal_if_active_inner e reason (Some message)"

definition acceptance_criteria_total :: "Session \<Rightarrow> nat" where
  "acceptance_criteria_total s =
     (case ss_plan s of
        None \<Rightarrow> 0
      | Some body \<Rightarrow>
          (let rows = length (parse_dual_rows body) in
           if rows > 0 then rows else length (extract_numbered_acceptance_criteria body)))"

record DeferralOutcome =
  do_run_ended :: bool
  do_ack :: string

definition goal_stopped_message :: "string list \<Rightarrow> string" where
  "goal_stopped_message report =
     ''Goal stopped: no reachable acceptance criteria remain.'' @ [NL] @ ''Deferred:'' @ [NL]
     @ join [NL] (map (\<lambda>line. ''- '' @ line) report)"

definition defer_blocker_or_end_run :: "env \<Rightarrow> string \<Rightarrow> Session \<Rightarrow> DeferralOutcome option \<times> Session" where
  "defer_blocker_or_end_run e blocker s =
     (let criteria_total = acceptance_criteria_total s in
      if status_of s \<noteq> Some Active then (None, s)
      else
        let s = on_tracker (\<lambda>t. snd (defer_criterion None blocker t)) s;
            exhausted = all_remaining_work_deferred criteria_total (ss_tracker s);
            report = deferral_report (ss_tracker s)
        in if \<not> exhausted then
             (Some \<lparr>do_run_ended = False,
                do_ack = ''Blocker recorded as deferred. Continue with the acceptance criteria ''
                  @ ''that are still reachable; the deferral is reported when the goal ends.''\<rparr>, s)
           else
             (Some \<lparr>do_run_ended = True,
                do_ack = ''Blocker recorded. No reachable criteria remain, so the goal stopped and ''
                  @ ''the deferrals were reported.''\<rparr>,
              snd (auto_pause_goal_if_active_with_message e PauseVerification (goal_stopped_message report) s)))"

text \<open>
  Rescue and scratch removal run on a blocking pool after the lock is released; the details path is
  moved to its expected destination at once.
\<close>

definition run_deferred_cleanup :: "env \<Rightarrow> DeferredGoalFsCleanup option \<Rightarrow> Session \<Rightarrow> Session" where
  "run_deferred_cleanup e job s =
     (case job of
        None \<Rightarrow> s
      | Some j \<Rightarrow>
          (let s = (case Option.bind (fc_details_src j) file_name of
                      Some name \<Rightarrow> on_tracker (apply_rescued_details_path (path_join (fc_goal_dir j) name)) s
                    | None \<Rightarrow> s)
           in on_tracker (\<lambda>t. t\<lparr>gt_fs := gt_fs t @ snd (cleanup_run e j)\<rparr>) s))"

definition enforce_goal_token_budget :: "env \<Rightarrow> int \<Rightarrow> Session \<Rightarrow> bool \<times> Session" where
  "enforce_goal_token_budget e current_tokens s =
     (let ((tokens_used, finished_marginal), s) = goal_tokens current_tokens s in
      case tracker_token_budget (ss_tracker s) of
        None \<Rightarrow> (False, s)
      | Some budget \<Rightarrow>
          if tokens_used < budget then (False, s)
          else
            let ((applied, job), t) = budget_limit_defer_scratch_cleanup e (ss_tracker s);
                s = s\<lparr>ss_tracker := t\<rparr>;
                s = (if applied then emit_goal_updated e s else s);
                s = run_deferred_cleanup e job s;
                s = clear_pending_classifier_completions s
            in (True, send_output (''Goal token budget reached ('' @ show_int tokens_used @ '' of ''
                  @ show_int budget @ '' tokens) '' @ EM_DASH @ '' goal stopped. Use /goal clear, then ''
                  @ ''/goal <objective> to start a new one.'') s))"

subsection \<open>Injecting a directive (goal.rs)\<close>

definition GOAL_CONTINUATION_SENTINEL :: string where
  "GOAL_CONTINUATION_SENTINEL = ''Goal NOT complete '' @ EM_DASH @ '' continue working. Next step:''"

fun is_goal_continuation_directive :: "ConversationItem \<Rightarrow> bool" where
  "is_goal_continuation_directive (UserItem reason body) =
     (reason = Some GoalSummary \<and> contains_sub GOAL_CONTINUATION_SENTINEL body)"
| "is_goal_continuation_directive (OtherItem _) = False"

definition prune_prior_goal_continuation_directives :: "Session \<Rightarrow> Session" where
  "prune_prior_goal_continuation_directives s =
     (if \<not> list_ex is_goal_continuation_directive (ss_conversation s) then s
      else s\<lparr>ss_conversation := filter (\<lambda>item. \<not> is_goal_continuation_directive item) (ss_conversation s)\<rparr>)"

definition inject_goal_continuation_message :: "string \<Rightarrow> Session \<Rightarrow> Session" where
  "inject_goal_continuation_message directive s =
     (let s = prune_prior_goal_continuation_directives s in
      s\<lparr>ss_conversation := ss_conversation s @ [UserItem (Some GoalSummary) directive]\<rparr>)"

subsection \<open>Reading the plan and the verdict (doggy\_gate.rs)\<close>

definition unclaimed_criteria :: "CriterionView list \<Rightarrow> OpenItem list" where
  "unclaimed_criteria criteria =
     map (\<lambda>c. \<lparr>oi_id = Some (show_nat (cv_number c)),
               oi_summary = ''criterion '' @ show_nat (cv_number c) @ '': '' @ cv_text c\<rparr>)
       (filter (\<lambda>c. \<not> cv_exec c \<and> \<not> cv_deferred c) criteria)"

definition acceptance_is_claimed :: "CriterionView list \<Rightarrow> bool" where
  "acceptance_is_claimed criteria =
     (let live = filter (\<lambda>c. \<not> cv_deferred c) criteria in
      live \<noteq> [] \<and> list_all cv_exec live \<and> list_all (\<lambda>c. \<not> cv_audit c) criteria)"

datatype DoggyRoundAction = ContinueRounds | EndTurn

definition doggy_task_bound :: "Session \<Rightarrow> bool" where
  "doggy_task_bound s = (ss_harness_enabled s \<and> ss_posture s \<and> status_of s = Some Active)"

definition view_of :: "Session \<Rightarrow> CriterionView list" where
  "view_of s = (case gt_orchestration (ss_tracker s) of Some g \<Rightarrow> go_criteria_view g | None \<Rightarrow> [])"

definition doggy_unclaimed_criteria :: "Session \<Rightarrow> OpenItem list \<times> Session" where
  "doggy_unclaimed_criteria s = (let s = refresh_view s in (unclaimed_criteria (view_of s), s))"

definition doggy_snapshot_open_items :: "Session \<Rightarrow> OpenItemsSnapshot \<times> Session" where
  "doggy_snapshot_open_items s =
     (let (items, s) = doggy_unclaimed_criteria s
      in (\<lparr>os_items = items, os_acceptance_pending = (status_of s = Some Active)\<rparr>, s))"

definition doggy_round_activity :: "host \<Rightarrow> string list \<Rightarrow> Session \<Rightarrow> RoundActivity \<times> Session" where
  "doggy_round_activity h tools_called s =
     (let s = refresh_view s;
          baseline = Option.bind (gt_orchestration (ss_tracker s)) go_changes_baseline_commit;
          criteria = view_of s;
          pick = (\<lambda>f. map cv_number (filter f criteria))
      in (\<lparr>ra_changed_files = Option.bind baseline (\<lambda>b. ho_changed_files h b s),
           ra_tools_called = tools_called, ra_execed = pick cv_exec, ra_verified = pick cv_audit,
           ra_deferred = pick cv_deferred\<rparr>, s))"

definition acceptance_request :: UpdateGoalInput where
  "acceptance_request =
     \<lparr>ug_completed = Some True,
      ug_message = Some (''Requested by the completion gate: every Exec mark on the acceptance ''
        @ ''checklist is ticked.''),
      ug_blocked_reason = None\<rparr>"

definition doggy_request_acceptance_if_claimed ::
    "host \<Rightarrow> RoundLedger \<Rightarrow> Session \<Rightarrow> bool \<times> RoundLedger \<times> Session" where
  "doggy_request_acceptance_if_claimed h ledger s =
     (let s = refresh_view s in
      case gt_orchestration (ss_tracker s) of
        None \<Rightarrow> (False, ledger, s)
      | Some g \<Rightarrow>
          if \<not> acceptance_is_claimed (go_criteria_view g) then (False, ledger, s)
          else
            let execed = map cv_number (filter cv_exec (go_criteria_view g)) in
            if verification_already_requested_for execed ledger then (False, ledger, s)
            else (True, mark_verification_requested execed ledger, ho_drain h [acceptance_request] s))"

definition doggy_verification_outcome :: "Session \<Rightarrow> VerificationOutcome" where
  "doggy_verification_outcome s =
     (case gt_orchestration (ss_tracker s) of
        None \<Rightarrow> Pending
      | Some g \<Rightarrow>
          (case go_last_classifier_verdict g of
             Some VerdictAchieved \<Rightarrow> Achieved
           | Some VerdictNotAchieved \<Rightarrow>
               if go_last_classifier_findings g \<noteq> [] then
                 Rejected (map (\<lambda>f. \<lparr>af_severity = Some ''error'', af_criterion = cf_criterion f,
                                    af_message = cf_message f\<rparr>) (go_last_classifier_findings g))
               else
                 Rejected [\<lparr>af_severity = Some ''error'', af_criterion = None,
                   af_message =
                     (case opt_filter (\<lambda>t. t \<noteq> []) (map_option trim (go_last_classifier_gaps g)) of
                        Some gaps \<Rightarrow> gaps
                      | None \<Rightarrow> ''Verification rejected the completion claim; fix gaps and re-verify.'')\<rparr>]
           | None \<Rightarrow> Pending))"

subsection \<open>Rendering an injection (doggy\_gate.rs)\<close>

definition doggy_render_delta :: "RoundDelta \<Rightarrow> string" where
  "doggy_render_delta d =
     (let head = ''Round '' @ show_nat (rd_round d) @ '' just ended.'' in
      if moved_nothing d then
        join [NL] [head, ''Nothing changed: no tools were called and no acceptance criterion moved.'']
      else join [NL]
        ([head, ''- workspace: '' @ workspace_line d, ''- tools used: '' @ tool_usage_line d]
         @ (if rd_newly_execed d = [] then [] else
              [''- you marked criteria '' @ number_list (rd_newly_execed d) @ '' done (awaiting verification)''])
         @ (if rd_newly_verified d = [] then [] else
              [''- verification accepted criteria '' @ number_list (rd_newly_verified d)])
         @ (if rd_newly_deferred d = [] then [] else
              [''- criteria '' @ number_list (rd_newly_deferred d)
               @ '' were recorded as blocked and will not be retried''])
         @ (if rd_newly_execed d = [] \<and> rd_newly_verified d = [] \<and> rd_newly_deferred d = []
            then [''- no acceptance criterion moved''] else [])))"

definition gate_head :: string where
  "gate_head = ''Doggy completion gate '' @ EM_DASH @ '' ''"

definition fix_line :: "nat \<Rightarrow> AuditFinding \<Rightarrow> string" where
  "fix_line i f = show_nat (i + 1) @ ''. ''
     @ (case af_severity f of Some sev \<Rightarrow> ''['' @ sev @ ''] '' | None \<Rightarrow> []) @ af_message f"

fun stall_diagnosis :: "nat \<Rightarrow> StallReason \<Rightarrow> string" where
  "stall_diagnosis repeats IdleRounds =
     ''you produced '' @ show_nat repeats @ '' round(s) without calling a single tool. ''
     @ ''Describing what you are about to do is not doing it''"
| "stall_diagnosis repeats Repeated =
     ''the last '' @ show_nat repeats @ '' rounds were indistinguishable: same open ''
     @ ''criteria, same verification state, same tools. Restating the plan is not progress''"

definition reapproach_choices :: string where
  "reapproach_choices =
     ''Do exactly one of these in this round, starting with a tool call:'' @ [NL]
     @ ''1. Make a concrete change '' @ EM_DASH @ '' write a file, run a command, fix a failing test ''
     @ EM_DASH @ '' then tick that criterion's Exec box in the plan.'' @ [NL]
     @ ''2. If a criterion is already satisfied, tick its Exec box now; the ''
     @ ''gate requests verification itself once all of them are ticked.'' @ [NL]
     @ ''3. If it cannot be done in this environment, call ''
     @ ''update_goal(blocked_reason: ...) naming the blocker.'' @ [NL, NL]
     @ ''Do not re-plan, do not re-summarise, and do not re-read files you ''
     @ ''have already read. Further rounds like this one end the run.''"

fun injection_body :: "Injection \<Rightarrow> string" where
  "injection_body (Continue open_summary delta) =
     gate_head @ ''task is NOT done.'' @ [NL, NL] @ doggy_render_delta delta @ [NL, NL]
     @ ''Remaining work:'' @ [NL] @ open_summary @ [NL, NL]
     @ ''Continue implementing. Completion is decided by the plan's acceptance ''
     @ ''checklist, not by your todo list: tick the Exec box for each criterion ''
     @ ''as you finish it. The gate requests verification on its own once every Exec is ticked.''"
| "injection_body (Fix findings) =
     ''Doggy verification REJECTED '' @ EM_DASH @ '' task is NOT done.'' @ [NL, NL]
     @ ''Findings to fix:'' @ [NL]
     @ (if findings = [] then ''- (no detailed findings; re-check the goal and workspace diff)''
        else join [NL] (map (\<lambda>(i, f). fix_line i f) (enumerate 0 findings))) @ [NL, NL]
     @ ''Address every finding, then call update_goal(completed: true) again. ''
     @ ''Completion is only granted after verification Achieved.''"
| "injection_body (Reapproach repeats reason open_summary delta) =
     gate_head @ stall_diagnosis repeats reason @ ''.'' @ [NL, NL] @ doggy_render_delta delta @ [NL, NL]
     @ ''Remaining work:'' @ [NL] @ open_summary @ [NL, NL] @ reapproach_choices"

definition doggy_inject :: "Injection \<Rightarrow> Session \<Rightarrow> Session" where
  "doggy_inject injection = inject_goal_continuation_message (injection_body injection)"

subsection \<open>The round end (doggy\_gate.rs)\<close>

definition doggy_mark_task_done :: "host \<Rightarrow> Session \<Rightarrow> Session" where
  "doggy_mark_task_done h s =
     (let s = snd (goal_tokens (ss_total_tokens s) s);
          s = prune_subagent_records_for_active_goal s;
          (job, s) =
            (if status_of s = Some Active then
               (let ((applied, job), t) = complete_defer_scratch_cleanup (ho_env h) (ss_tracker s);
                    s = s\<lparr>ss_tracker := t\<rparr>
                in (job, if applied then emit_goal_updated (ho_env h) s else s))
             else (None, s));
          attempt = (case gt_orchestration (ss_tracker s) of Some g \<Rightarrow> go_classifier_runs_attempted g | None \<Rightarrow> 0);
          s = doggy_emit_completion_ui ''done'' [] s;
          s = run_deferred_cleanup (ho_env h) job s
      in case ho_summarizer h attempt s of Some summary \<Rightarrow> send_output summary s | None \<Rightarrow> s)"

fun cut_off_blocker :: "nat \<Rightarrow> StallReason \<Rightarrow> string" where
  "cut_off_blocker repeats IdleRounds =
     show_nat repeats @ '' consecutive rounds ended without a single tool call '' @ EM_DASH
     @ '' the run is narrating rather than implementing''"
| "cut_off_blocker repeats Repeated =
     show_nat repeats @ '' consecutive rounds left the open criteria, the verification ''
     @ ''verdict and the tools used identical '' @ EM_DASH @ '' retrying this is not converging''"

definition doggy_cut_off_stalled_work ::
    "host \<Rightarrow> nat \<Rightarrow> StallReason \<Rightarrow> RoundLedger \<Rightarrow> Session \<Rightarrow> DoggyRoundAction \<times> RoundLedger \<times> Session" where
  "doggy_cut_off_stalled_work h repeats reason ledger s =
     (case defer_blocker_or_end_run (ho_env h) (cut_off_blocker repeats reason) s of
        (None, s) \<Rightarrow> (EndTurn, ledger, doggy_emit_completion_ui ''paused'' [] s)
      | (Some outcome, s) \<Rightarrow>
          if do_run_ended outcome then (EndTurn, ledger, doggy_emit_completion_ui ''paused'' [] s)
          else
            let s = doggy_emit_completion_ui ''executing'' [] s
            in (ContinueRounds, reset_streaks ledger,
                inject_goal_continuation_message
                  (gate_head @ show_nat repeats @ '' rounds with no progress, so the harness ''
                   @ ''stopped retrying that work and recorded it as blocked.'' @ [NL, NL] @ do_ack outcome
                   @ [NL, NL] @ ''Pick up a different criterion. Repeating the previous approach will be cut ''
                   @ ''off again.'') s))"

text \<open>What is done about a decision, once it is applied to the machine.\<close>

definition carry_out ::
    "host \<Rightarrow> TaskDecision \<Rightarrow> TaskMachine \<Rightarrow> RoundLedger \<Rightarrow> Session
     \<Rightarrow> DoggyRoundAction \<times> TaskMachine \<times> RoundLedger \<times> Session" where
  "carry_out h decision machine ledger s =
     (case decision of
        TaskPaused (NoProgress repeats reason) \<Rightarrow>
          (case doggy_cut_off_stalled_work h repeats reason ledger s of
             (action, ledger, s) \<Rightarrow> (action, machine, ledger, s))
      | RunAnotherRound injection \<Rightarrow>
          (let findings = (case injection of Fix fs \<Rightarrow> fs | _ \<Rightarrow> []);
               s = (if findings \<noteq> [] then doggy_emit_completion_ui ''fixing'' findings s
                    else doggy_emit_completion_ui ''executing'' [] s)
           in (ContinueRounds, mark_executing machine, ledger, doggy_inject injection s))
      | TaskDone \<Rightarrow> (EndTurn, machine, ledger, doggy_mark_task_done h s)
      | TaskPaused _ \<Rightarrow> (EndTurn, machine, ledger, doggy_emit_completion_ui ''paused'' [] s))"

definition decide_round ::
    "host \<Rightarrow> string list \<Rightarrow> TaskMachine \<Rightarrow> RoundLedger \<Rightarrow> Session
     \<Rightarrow> DoggyRoundAction \<times> TaskMachine \<times> RoundLedger \<times> Session" where
  "decide_round h tools_called machine ledger s =
     (let (open_items, s) = doggy_snapshot_open_items s;
          verification = doggy_verification_outcome s;
          (activity, s) = doggy_round_activity h tools_called s;
          (ledger, stall, delta) = observe open_items verification activity ledger;
          decision = decide_after_round
            \<lparr>rv_round_ok = True, rv_open_items = open_items, rv_user_cancel = False, rv_budget_hit = False,
             rv_verification = verification, rv_stall = stall, rv_delta = delta\<rparr>
      in carry_out h decision (machine_apply decision machine) ledger s)"

definition run_doggy_round_end ::
    "host \<Rightarrow> string list \<Rightarrow> TaskMachine \<Rightarrow> RoundLedger \<Rightarrow> Session
     \<Rightarrow> DoggyRoundAction \<times> TaskMachine \<times> RoundLedger \<times> Session" where
  "run_doggy_round_end h tools_called machine ledger s =
     (let s = ho_drain h [] s;
          s = doggy_emit_completion_ui ''checking'' [] s;
          (budget_hit, s) = enforce_goal_token_budget (ho_env h) (ss_total_tokens s) s
      in if budget_hit then
           (EndTurn, machine_apply (TaskPaused BudgetExhausted) machine, ledger,
            doggy_emit_completion_ui ''paused'' [] s)
         else if \<not> doggy_task_bound s then
           (EndTurn, machine_apply (TaskPaused InfraError) machine, ledger,
            doggy_emit_completion_ui ''paused'' [] s)
         else
           let (requested, ledger, s) = doggy_request_acceptance_if_claimed h ledger s in
           if requested \<and> \<not> doggy_task_bound s then
             (EndTurn, machine, ledger, doggy_emit_completion_ui ''done'' [] s)
           else decide_round h tools_called machine ledger s)"

definition doggy_end_run_at_round_cap :: "host \<Rightarrow> nat \<Rightarrow> Session \<Rightarrow> Session" where
  "doggy_end_run_at_round_cap h rounds s =
     (let (outcome, s) = defer_blocker_or_end_run (ho_env h)
            (''ran '' @ show_nat rounds @ '' rounds in a single prompt without the goal being accepted'') s;
          ended = (case outcome of Some o1 \<Rightarrow> do_run_ended o1 | None \<Rightarrow> False);
          s = (if ended then s
               else send_output (''Goal stopped after '' @ show_nat rounds @ '' rounds in one prompt without acceptance. ''
                 @ ''Nothing could be recorded as blocked, which usually means the plan has no ''
                 @ ''parseable acceptance criteria '' @ EM_DASH @ '' check plan.md before resuming.'') s)
      in doggy_emit_completion_ui ''paused'' [] s)"

subsection \<open>The loop over rounds of one prompt (turn.rs)\<close>

definition DOGGY_MAX_ROUNDS_PER_PROMPT :: nat where "DOGGY_MAX_ROUNDS_PER_PROMPT = 100"

text \<open>
  A model round completes, possibly refused, with the tools it called, or ends in any other way. A
  world gives, for the rounds of a prompt in turn, the round itself and the host of its end.
\<close>

datatype round_result = RoundCompleted bool "string list" | RoundOther

record world =
  wo_turn :: "nat \<Rightarrow> Session \<Rightarrow> round_result \<times> Session"
  wo_host :: "nat \<Rightarrow> host"

function prompt_loop ::
    "world \<Rightarrow> nat \<Rightarrow> TaskMachine \<Rightarrow> RoundLedger \<Rightarrow> Session \<Rightarrow> nat \<times> TaskMachine \<times> RoundLedger \<times> Session" where
  "prompt_loop w doggy_rounds machine ledger s =
     (let s = (if ss_harness_enabled s then s\<lparr>ss_goal_loop_active := (status_of s = Some Active)\<rparr> else s);
          (round, s) = wo_turn w doggy_rounds s
      in case round of
           RoundOther \<Rightarrow> (doggy_rounds + 1, machine, ledger, s)
         | RoundCompleted refusal tools \<Rightarrow>
             if refusal then (doggy_rounds + 1, machine, ledger, s)
             else if \<not> doggy_task_bound s then (doggy_rounds + 1, machine, ledger, s)
             else
               let machine = (if tm_status machine \<noteq> StatusActive then machine_start machine else machine);
                   (action, machine, ledger, s) =
                     run_doggy_round_end (wo_host w doggy_rounds) tools machine ledger s
               in if action = EndTurn then (doggy_rounds + 1, machine, ledger, s)
                  else if doggy_rounds + 1 \<ge> DOGGY_MAX_ROUNDS_PER_PROMPT then
                    (doggy_rounds + 1, machine, ledger,
                     doggy_end_run_at_round_cap (wo_host w doggy_rounds) (doggy_rounds + 1) s)
                  else prompt_loop w (doggy_rounds + 1) machine ledger s)"
  by pat_completeness auto
termination
  by (relation "measure (\<lambda>(w, n, m, l, s). DOGGY_MAX_ROUNDS_PER_PROMPT - n)") auto

declare prompt_loop.simps [simp del]

definition handle_prompt_rounds :: "world \<Rightarrow> Session \<Rightarrow> nat \<times> TaskMachine \<times> RoundLedger \<times> Session" where
  "handle_prompt_rounds w s =
     (let machine = (if doggy_task_bound s then machine_start machine_new else machine_new)
      in prompt_loop w 0 machine ledger_new s)"

end
