(* ===== verification/Session_Correct.thy ===== *)
theory Session_Correct
  imports Session_Gate
begin

text \<open>
  What the session's gate guarantees: only accepted work completes a goal, the loop of one prompt
  always ends, a stalled goal with a plan is stopped by the first cut-off, an idle model is stopped
  after three rounds, acceptance is requested once per set of finished criteria, token accounting is
  monotone and idempotent, and the directives of different rounds differ.
\<close>

subsection \<open>What the helpers leave alone\<close>

text \<open>The part of the goal that the gate decides on.\<close>

type_synonym goal_part = "GoalStatus \<times> GoalClassifierVerdict option \<times> ClassifierFinding list
  \<times> string option \<times> DeferredCriterion list \<times> CriterionView list \<times> nat option"

definition goal_part :: "GoalOrchestration \<Rightarrow> goal_part" where
  "goal_part g = (go_status g, go_last_classifier_verdict g, go_last_classifier_findings g,
     go_last_classifier_gaps g, go_deferred_criteria g, go_criteria_view g, go_criteria_view_mtime g)"

definition gate_part :: "Session \<Rightarrow> bool \<times> bool \<times> string option \<times> nat option \<times> goal_part option" where
  "gate_part s = (ss_harness_enabled s, ss_posture s, ss_plan s, ss_plan_mtime s,
     map_option goal_part (gt_orchestration (ss_tracker s)))"

named_theorems gate_frame \<open>operations of the session that keep what the gate decides on\<close>

lemma goal_tokens_part [gate_frame]: "gate_part (snd (goal_tokens c s)) = gate_part s"
  by (auto simp: goal_tokens_def gate_part_def goal_part_def ratchet_tokens_def Let_def split_beta split: option.split)

lemma ui_part [gate_frame]: "gate_part (doggy_emit_completion_ui p fs s) = gate_part s"
proof -
  have "gate_part (t\<lparr>ss_ui := u\<rparr>) = gate_part t" for t u by (simp add: gate_part_def)
  then show ?thesis
    by (auto simp: doggy_emit_completion_ui_def Let_def goal_tokens_part split: option.split)
qed

lemma send_output_part [gate_frame]: "gate_part (send_output x s) = gate_part s"
  by (simp add: send_output_def gate_part_def)

lemma inject_part [gate_frame]: "gate_part (inject_goal_continuation_message d s) = gate_part s"
  by (simp add: inject_goal_continuation_message_def prune_prior_goal_continuation_directives_def gate_part_def Let_def)

lemma prune_part [gate_frame]: "gate_part (prune_subagent_records_for_active_goal s) = gate_part s"
  by (simp add: prune_subagent_records_for_active_goal_def gate_part_def split: option.split)

lemma cleanup_part [gate_frame]: "gate_part (run_deferred_cleanup e j s) = gate_part s"
  by (cases "gt_orchestration (ss_tracker s)")
    (auto simp: run_deferred_cleanup_def on_tracker_def apply_rescued_details_path_def map_orchestration_def
      gate_part_def goal_part_def Let_def split: option.split)

lemma pending_part [gate_frame]: "gate_part (clear_pending_classifier_completions s) = gate_part s"
  by (simp add: clear_pending_classifier_completions_def gate_part_def)

text \<open>Everything the gate reads is a function of that part.\<close>

lemma gate_part_status: "gate_part s = gate_part s' \<Longrightarrow> status_of s = status_of s'"
  by (cases "gt_orchestration (ss_tracker s)"; cases "gt_orchestration (ss_tracker s')")
    (auto simp: gate_part_def goal_part_def tracker_status_def)

lemma gate_part_bound: "gate_part s = gate_part s' \<Longrightarrow> doggy_task_bound s = doggy_task_bound s'"
  using gate_part_status [of s s'] by (simp add: doggy_task_bound_def gate_part_def)

lemma gate_part_view: "gate_part s = gate_part s' \<Longrightarrow> view_of s = view_of s'"
  by (cases "gt_orchestration (ss_tracker s)"; cases "gt_orchestration (ss_tracker s')")
    (auto simp: gate_part_def goal_part_def view_of_def)

definition verdict_part :: "Session \<Rightarrow> (GoalClassifierVerdict option \<times> ClassifierFinding list \<times> string option) option" where
  "verdict_part s = map_option (\<lambda>g. (go_last_classifier_verdict g, go_last_classifier_findings g, go_last_classifier_gaps g))
     (gt_orchestration (ss_tracker s))"

lemma verdict_part_outcome: "verdict_part s = verdict_part s' \<Longrightarrow> doggy_verification_outcome s = doggy_verification_outcome s'"
  by (cases "gt_orchestration (ss_tracker s)"; cases "gt_orchestration (ss_tracker s')")
    (auto simp: verdict_part_def doggy_verification_outcome_def split: option.split GoalClassifierVerdict.split)

lemma gate_part_verdict: "gate_part s = gate_part s' \<Longrightarrow> doggy_verification_outcome s = doggy_verification_outcome s'"
  by (rule verdict_part_outcome, cases "gt_orchestration (ss_tracker s)"; cases "gt_orchestration (ss_tracker s')")
    (auto simp: gate_part_def goal_part_def verdict_part_def)

lemma gate_part_total: "gate_part s = gate_part s' \<Longrightarrow> acceptance_criteria_total s = acceptance_criteria_total s'"
  by (simp add: gate_part_def acceptance_criteria_total_def)

lemmas gate_reads = gate_part_status gate_part_bound gate_part_view gate_part_verdict gate_part_total

lemma frame_status [simp]:
  "status_of (snd (goal_tokens c s)) = status_of s"
  "status_of (doggy_emit_completion_ui p fs s) = status_of s"
  "status_of (send_output x s) = status_of s"
  "status_of (inject_goal_continuation_message d s) = status_of s"
  "status_of (prune_subagent_records_for_active_goal s) = status_of s"
  "status_of (run_deferred_cleanup e j s) = status_of s"
  "status_of (clear_pending_classifier_completions s) = status_of s"
  by (rule gate_part_status, rule gate_frame)+

subsection \<open>Refreshing the view\<close>

lemma refresh_status [simp]: "status_of (refresh_view s) = status_of s" "status_of (emit_goal_updated e s) = status_of s"
  by (auto simp: refresh_view_def emit_goal_updated_def on_tracker_def force_refresh_criteria_view_def
      refresh_criteria_view_def map_orchestration_def tracker_status_def account_elapsed_def flush_elapsed_def
      split: option.split)

lemma refresh_view_Some:
  "gt_orchestration (ss_tracker s) = Some g \<Longrightarrow> refresh_view s = s\<lparr>ss_tracker := (ss_tracker s)\<lparr>gt_orchestration := Some
     (case ss_plan s of
        None \<Rightarrow> g\<lparr>go_criteria_view_mtime := None\<rparr>
      | Some body \<Rightarrow> g\<lparr>go_criteria_view_mtime := ss_plan_mtime s,
          go_criteria_view := build_criteria_view body (go_deferred_criteria g)\<rparr>)\<rparr>\<rparr>"
  by (cases "ss_plan s") (auto simp: refresh_view_def on_tracker_def force_refresh_criteria_view_def
      refresh_criteria_view_def map_orchestration_def)

lemma refresh_view_None: "gt_orchestration (ss_tracker s) = None \<Longrightarrow> refresh_view s = s"
  by (simp add: refresh_view_def on_tracker_def force_refresh_criteria_view_def refresh_criteria_view_def
      map_orchestration_def)

lemma refresh_view_idem: "refresh_view (refresh_view s) = refresh_view s"
proof (cases "gt_orchestration (ss_tracker s)")
  case (Some g)
  then show ?thesis by (cases "ss_plan s") (simp_all add: refresh_view_Some)
qed (simp add: refresh_view_None)

lemma refresh_verdict [simp]: "doggy_verification_outcome (refresh_view s) = doggy_verification_outcome s"
proof (rule verdict_part_outcome, cases "gt_orchestration (ss_tracker s)")
  case (Some g)
  then show "verdict_part (refresh_view s) = verdict_part s"
    by (cases "ss_plan s") (simp_all add: refresh_view_Some verdict_part_def)
qed (simp add: refresh_view_None)

text \<open>A view that was just refreshed stays what it is when an update is emitted.\<close>

definition fresh_view :: "Session \<Rightarrow> bool" where
  "fresh_view s \<longleftrightarrow> (case (gt_orchestration (ss_tracker s), ss_plan s) of
      (Some g, Some body) \<Rightarrow> go_criteria_view g = build_criteria_view body (go_deferred_criteria g)
    | _ \<Rightarrow> True)"

lemma fresh_refresh: "fresh_view (refresh_view s)"
proof (cases "gt_orchestration (ss_tracker s)")
  case (Some g)
  then show ?thesis by (cases "ss_plan s") (simp_all add: refresh_view_Some fresh_view_def)
qed (simp add: refresh_view_None fresh_view_def)

lemma account_elapsed_part:
  "map_option goal_part (gt_orchestration (account_elapsed e t)) = map_option goal_part (gt_orchestration t)"
  by (auto simp: account_elapsed_def flush_elapsed_def goal_part_def split: option.split)

lemma emit_eq: "emit_goal_updated e s =
    on_tracker (refresh_criteria_view (ss_plan_mtime s) (ss_plan s)) (on_tracker (account_elapsed e) s)"
  by (simp add: emit_goal_updated_def on_tracker_def)

lemma elapsed_part: "gate_part (on_tracker (account_elapsed e) s) = gate_part s"
  by (simp add: gate_part_def on_tracker_def account_elapsed_part)

lemma emit_view: "fresh_view s \<Longrightarrow> view_of (emit_goal_updated e s) = view_of s"
proof -
  assume "fresh_view s"
  moreover define t where "t = on_tracker (account_elapsed e) s"
  moreover have "gate_part t = gate_part s" by (simp add: t_def elapsed_part)
  ultimately have "fresh_view t" "view_of t = view_of s"
    by (auto simp: gate_part_def goal_part_def fresh_view_def view_of_def split: option.splits)
  then show ?thesis
    by (auto simp: emit_eq t_def [symmetric] on_tracker_def refresh_criteria_view_def fresh_view_def view_of_def
        split: option.splits) (auto simp: t_def on_tracker_def split: option.splits)
qed

lemma emit_verdict [simp]: "doggy_verification_outcome (emit_goal_updated e s) = doggy_verification_outcome s"
proof -
  define t where "t = on_tracker (account_elapsed e) s"
  have "doggy_verification_outcome t = doggy_verification_outcome s"
    by (rule gate_part_verdict) (simp add: t_def elapsed_part)
  moreover have "verdict_part (on_tracker (refresh_criteria_view m p) u) = verdict_part u" for m p u
    by (auto simp: verdict_part_def on_tracker_def refresh_criteria_view_def split: option.split)
  then have "verdict_part (emit_goal_updated e s) = verdict_part t" by (simp only: emit_eq t_def)
  ultimately show ?thesis using verdict_part_outcome by metis
qed

lemma gate_part_fresh: "gate_part s = gate_part s' \<Longrightarrow> fresh_view s = fresh_view s'"
  by (cases "gt_orchestration (ss_tracker s)"; cases "gt_orchestration (ss_tracker s')")
    (auto simp: gate_part_def goal_part_def fresh_view_def split: option.split)

subsection \<open>Completing\<close>

lemma complete_inner_simps:
  assumes "tracker_status t = Some Active"
  shows "\<exists>t'. complete_inner e True t = (True, t') \<and> tracker_status t' = Some Complete
     \<and> map_option go_criteria_view (gt_orchestration t') = map_option go_criteria_view (gt_orchestration t)
     \<and> map_option go_deferred_criteria (gt_orchestration t') = map_option go_deferred_criteria (gt_orchestration t)
     \<and> map_option go_last_classifier_verdict (gt_orchestration t') = map_option go_last_classifier_verdict (gt_orchestration t)"
  using assms
  by (auto simp: complete_inner_def finish_inner_def tracker_status_def record_event_def append_history_def
      map_orchestration_def flush_elapsed_def reset_strategist_fields_def Let_def split: option.split)

lemma mark_task_done:
  assumes "status_of s = Some Active" "fresh_view s"
  shows "status_of (doggy_mark_task_done h s) = Some Complete"
    and "view_of (doggy_mark_task_done h s) = view_of s"
    and "doggy_verification_outcome s = Achieved \<Longrightarrow> doggy_verification_outcome (doggy_mark_task_done h s) = Achieved"
proof -
  define s1 where "s1 = prune_subagent_records_for_active_goal (snd (goal_tokens (ss_total_tokens s) s))"
  have p1: "gate_part s1 = gate_part s" by (simp add: s1_def gate_frame)
  have a1: "tracker_status (ss_tracker s1) = Some Active" using gate_part_status [OF p1] assms by simp
  from complete_inner_simps [OF this, of "ho_env h"] obtain t where
    t: "complete_inner (ho_env h) True (ss_tracker s1) = (True, t)" "tracker_status t = Some Complete"
    "map_option go_criteria_view (gt_orchestration t) = map_option go_criteria_view (gt_orchestration (ss_tracker s1))"
    "map_option go_deferred_criteria (gt_orchestration t) = map_option go_deferred_criteria (gt_orchestration (ss_tracker s1))"
    "map_option go_last_classifier_verdict (gt_orchestration t) = map_option go_last_classifier_verdict (gt_orchestration (ss_tracker s1))"
    by blast
  define s2 where "s2 = s1\<lparr>ss_tracker := t\<rparr>"
  have "fresh_view s1" using gate_part_fresh [OF p1] assms(2) by simp
  then have f2: "fresh_view s2"
    using t(3,4) by (cases "gt_orchestration t"; cases "gt_orchestration (ss_tracker s1)")
      (auto simp: fresh_view_def s2_def split: option.splits)
  have v2: "view_of s2 = view_of s"
    using t(3) gate_part_view [OF p1] by (cases "gt_orchestration t"; cases "gt_orchestration (ss_tracker s1)")
      (auto simp: view_of_def s2_def)
  have o2: "doggy_verification_outcome s2 = Achieved" if "doggy_verification_outcome s = Achieved"
    using that t(5) gate_part_verdict [OF p1] by (cases "gt_orchestration t"; cases "gt_orchestration (ss_tracker s1)")
      (auto simp: doggy_verification_outcome_def s2_def split: option.splits GoalClassifierVerdict.splits if_splits)
  let ?s3 = "emit_goal_updated (ho_env h) s2"
  have fin: "gate_part (doggy_mark_task_done h s) = gate_part ?s3"
    using a1 t(1) unfolding doggy_mark_task_done_def Let_def s1_def [symmetric]
    by (simp add: complete_defer_scratch_cleanup_def Let_def s2_def [symmetric] gate_frame split: option.split)
  show "status_of (doggy_mark_task_done h s) = Some Complete"
    using gate_part_status [OF fin] t(2) by (simp add: s2_def)
  show "view_of (doggy_mark_task_done h s) = view_of s"
    using gate_part_view [OF fin] emit_view [OF f2] v2 by simp
  show "doggy_verification_outcome (doggy_mark_task_done h s) = Achieved" if "doggy_verification_outcome s = Achieved"
    using gate_part_verdict [OF fin] o2 [OF that] by simp
qed

subsection \<open>Statuses\<close>

lemma on_tracker_sel [simp]: "ss_tracker (on_tracker f s) = f (ss_tracker s)"
  by (simp add: on_tracker_def)

lemma status_pause_inner:
  "tracker_status (snd (pause_inner e r m t)) = (if tracker_status t = Some Active then Some (to_status r) else tracker_status t)"
proof (cases "gt_orchestration t")
  case (Some g)
  then show ?thesis
    by (simp add: pause_inner_def Let_def status_Some [OF Some]) (simp add: tracker_status_def)
qed (simp add: pause_inner_def tracker_status_def)

lemma status_auto_pause [simp]:
  "status_of (snd (auto_pause_goal_if_active_with_message e r msg s)) =
     (if halts_unattended_run r \<and> status_of s = Some Active then Some (to_status r) else status_of s)"
  by (simp add: auto_pause_goal_if_active_with_message_def auto_pause_goal_if_active_inner_def Let_def
      pause_with_message_def status_pause_inner)

lemma defer_goal_exhausted:
  assumes "gt_orchestration t = Some g"
  shows "all_remaining_work_deferred n (snd (defer_criterion None b t)) \<longleftrightarrow> 0 < n"
  using assms by (auto simp: all_remaining_work_deferred_def defer_criterion_def list_ex_iff)

text \<open>A blocker without a criterion ends the run exactly when the plan declares criteria.\<close>

lemma defer_blocker_eq:
  assumes "status_of s = Some Active"
  shows "\<exists>o1 s'. defer_blocker_or_end_run e b s = (Some o1, s')
     \<and> do_run_ended o1 = (0 < acceptance_criteria_total s)
     \<and> status_of s' = Some (if 0 < acceptance_criteria_total s then Blocked else Active)"
proof -
  obtain g where g: "gt_orchestration (ss_tracker s) = Some g" using assms by (auto simp: tracker_status_def)
  show ?thesis
    using assms by (simp add: defer_blocker_or_end_run_def Let_def defer_goal_exhausted [OF g])
qed

lemma defer_blocker_inactive: "status_of s \<noteq> Some Active \<Longrightarrow> defer_blocker_or_end_run e b s = (None, s)"
  by (simp add: defer_blocker_or_end_run_def)

lemma cut_off_eq:
  assumes "doggy_cut_off_stalled_work h n r l s = (a, l', s')"
  shows "if status_of s = Some Active
     then (if 0 < acceptance_criteria_total s
           then a = EndTurn \<and> l' = l \<and> status_of s' = Some Blocked
           else a = ContinueRounds \<and> l' = reset_streaks l \<and> status_of s' = Some Active)
     else a = EndTurn \<and> l' = l \<and> status_of s' = status_of s"
proof (cases "status_of s = Some Active")
  case True
  from defer_blocker_eq [OF this, of "ho_env h" "cut_off_blocker n r"] obtain o1 s1 where
    "defer_blocker_or_end_run (ho_env h) (cut_off_blocker n r) s = (Some o1, s1)"
    "do_run_ended o1 = (0 < acceptance_criteria_total s)"
    "status_of s1 = Some (if 0 < acceptance_criteria_total s then Blocked else Active)" by (elim exE conjE)
  with assms True show ?thesis by (auto simp: doggy_cut_off_stalled_work_def Let_def split: if_splits)
next
  case False
  with assms show ?thesis by (auto simp: doggy_cut_off_stalled_work_def defer_blocker_inactive)
qed

lemma status_budget:
  assumes "enforce_goal_token_budget e c s = (b, s')"
  shows "status_of s' = (if b then (case status_of s of Some x \<Rightarrow> Some (if x = Active \<or> is_paused x then BudgetLimited else x)
      | None \<Rightarrow> None) else status_of s)"
proof -
  have bl: "tracker_status (snd (budget_limit_defer_scratch_cleanup e t)) =
      (case tracker_status t of Some x \<Rightarrow> Some (if x = Active \<or> is_paused x then BudgetLimited else x) | None \<Rightarrow> None)" for t
    using status_finish by (simp add: budget_limit_defer_scratch_cleanup_def budget_limit_inner_def Let_def split_beta)
  have sel: "status_of (x\<lparr>ss_tracker := t\<rparr>) = tracker_status t" for x t by simp
  from assms show ?thesis
    by (auto simp: enforce_goal_token_budget_def Let_def split_beta sel bl simp del: Session.select_convs
        split: option.splits if_splits)
qed

subsection \<open>Only accepted work completes\<close>

lemma decide_done_iff:
  "decide_after_round v = TaskDone \<longleftrightarrow>
     \<not> rv_user_cancel v \<and> \<not> rv_budget_hit v \<and> rv_round_ok v
     \<and> os_items (rv_open_items v) = [] \<and> rv_verification v = Achieved"
  by (simp add: decide_defs split: VerificationOutcome.splits StallLevel.splits)

lemma decide_round_cases:
  obtains v l' activity where
    "decide_round h tools m l s =
       carry_out h (decide_after_round v) (machine_apply (decide_after_round v) m) l' (refresh_view s)"
    "observe (rv_open_items v) (rv_verification v) activity l = (l', rv_stall v, rv_delta v)"
    "ra_tools_called activity = tools" "\<not> rv_user_cancel v" "\<not> rv_budget_hit v" "rv_round_ok v"
    "os_items (rv_open_items v) = unclaimed_criteria (view_of (refresh_view s))"
    "rv_verification v = doggy_verification_outcome s"
proof -
  let ?r = "refresh_view s"
  define activity where "activity = fst (doggy_round_activity h tools ?r)"
  let ?open = "\<lparr>os_items = unclaimed_criteria (view_of ?r), os_acceptance_pending = (status_of s = Some Active)\<rparr>"
  obtain l' stall delta where ob: "observe ?open (doggy_verification_outcome s) activity l = (l', stall, delta)"
    by (metis prod_cases3)
  let ?v = "\<lparr>rv_round_ok = True, rv_open_items = ?open, rv_user_cancel = False, rv_budget_hit = False,
     rv_verification = doggy_verification_outcome s, rv_stall = stall, rv_delta = delta\<rparr>"
  have act: "doggy_round_activity h tools ?r = (activity, ?r)"
    by (simp add: activity_def doggy_round_activity_def Let_def refresh_view_idem)
  have "decide_round h tools m l s = carry_out h (decide_after_round ?v) (machine_apply (decide_after_round ?v) m) l' ?r"
    by (simp add: decide_round_def doggy_snapshot_open_items_def doggy_unclaimed_criteria_def act ob Let_def)
  moreover have "ra_tools_called activity = tools" by (simp add: activity_def doggy_round_activity_def Let_def)
  ultimately show ?thesis using that [of ?v l' activity] ob by simp
qed

lemma carry_out_complete:
  assumes "carry_out h d m l s = (a, m', l', s')" "status_of s' = Some Complete" "status_of s = Some Active"
  shows "d = TaskDone \<and> a = EndTurn \<and> m' = m \<and> s' = doggy_mark_task_done h s"
proof (cases d)
  case (TaskPaused r)
  then show ?thesis
    using assms by (cases r) (auto simp: carry_out_def split: prod.splits if_splits dest!: cut_off_eq)
qed (use assms in \<open>auto simp: carry_out_def Let_def doggy_inject_def split: if_splits\<close>)

lemma decide_round_complete:
  assumes "decide_round h tools m l s = (a, m', l', s')" "status_of s' = Some Complete" "status_of s = Some Active"
  shows "a = EndTurn \<and> tm_status m' = StatusDone \<and> doggy_verification_outcome s' = Achieved
     \<and> unclaimed_criteria (view_of s') = []"
proof -
  let ?r = "refresh_view s"
  obtain v l1 activity where eq: "decide_round h tools m l s =
      carry_out h (decide_after_round v) (machine_apply (decide_after_round v) m) l1 ?r"
    and v: "os_items (rv_open_items v) = unclaimed_criteria (view_of ?r)"
      "rv_verification v = doggy_verification_outcome s"
    by (rule decide_round_cases [of h tools m l s])
  define d where "d = decide_after_round v"
  have d: "carry_out h d (machine_apply d m) l1 ?r = (a, m', l', s')" using assms(1) eq by (simp add: d_def)
  have imp: "unclaimed_criteria (view_of ?r) = [] \<and> doggy_verification_outcome s = Achieved" if "d = TaskDone"
    using that v by (simp add: d_def decide_done_iff)
  from carry_out_complete [OF d assms(2)] assms(3)
  have fin: "d = TaskDone" "a = EndTurn" "m' = machine_apply d m" "s' = doggy_mark_task_done h ?r" by auto
  with imp mark_task_done [of ?r h] assms(3) fresh_refresh show ?thesis by auto
qed

text \<open>
  The gate is the only way to a completed goal: if the drain of goal updates never completes a goal itself, a round
  end that leaves a goal complete has decided it done.
\<close>

lemma completion_needs_acceptance:
  assumes drain: "\<forall>xs s. status_of (ho_drain h xs s) = Some Complete \<longrightarrow> status_of s = Some Complete"
    and before: "status_of s \<noteq> Some Complete"
    and round: "run_doggy_round_end h tools machine ledger s = (action, machine', ledger', s')"
    and after: "status_of s' = Some Complete"
  shows "action = EndTurn \<and> tm_status machine' = StatusDone \<and> doggy_verification_outcome s' = Achieved
     \<and> unclaimed_criteria (view_of s') = []"
proof -
  define s1 where "s1 = doggy_emit_completion_ui ''checking'' [] (ho_drain h [] s)"
  have n1: "status_of s1 \<noteq> Some Complete" using drain before by (auto simp: s1_def)
  obtain hit s2 where b: "enforce_goal_token_budget (ho_env h) (ss_total_tokens s1) s1 = (hit, s2)" by fastforce
  have n2: "status_of s2 \<noteq> Some Complete"
    using status_budget [OF b] n1 by (auto split: option.splits if_splits)
  obtain req l2 s3 where r: "doggy_request_acceptance_if_claimed h ledger s2 = (req, l2, s3)" by (metis prod_cases3)
  have n3: "status_of s3 \<noteq> Some Complete" "\<not> req \<Longrightarrow> status_of s3 = status_of s2"
    using r n2 drain [rule_format, of "[acceptance_request]" "refresh_view s2"]
    by (auto simp: doggy_request_acceptance_if_claimed_def Let_def split: option.splits if_splits)
  show ?thesis
    using round after n2 n3 decide_round_complete [of h tools machine l2 s3 action machine' ledger' s']
    by (auto simp: run_doggy_round_end_def Let_def s1_def [symmetric] b r doggy_task_bound_def split: if_splits)
qed

text \<open>The converse: accepted work with nothing open is completed by the round end.\<close>

lemma decide_round_done:
  assumes "status_of s = Some Active" "unclaimed_criteria (view_of (refresh_view s)) = []"
    "doggy_verification_outcome s = Achieved"
  shows "status_of (snd (snd (snd (decide_round h tools m l s)))) = Some Complete"
proof -
  obtain v l1 activity where eq: "decide_round h tools m l s =
      carry_out h (decide_after_round v) (machine_apply (decide_after_round v) m) l1 (refresh_view s)"
    and v: "\<not> rv_user_cancel v" "\<not> rv_budget_hit v" "rv_round_ok v"
      "os_items (rv_open_items v) = unclaimed_criteria (view_of (refresh_view s))"
      "rv_verification v = doggy_verification_outcome s"
    by (rule decide_round_cases [of h tools m l s])
  then have "decide_after_round v = TaskDone" using assms by (simp add: decide_done_iff)
  with eq mark_task_done(1) [of "refresh_view s" h] assms(1) fresh_refresh show ?thesis
    by (simp add: carry_out_def)
qed

lemma budget_frame [simp]:
  "tracker_token_budget (ss_tracker (snd (goal_tokens c s))) = tracker_token_budget (ss_tracker s)"
  "tracker_token_budget (ss_tracker (doggy_emit_completion_ui p fs s)) = tracker_token_budget (ss_tracker s)"
proof -
  show t: "tracker_token_budget (ss_tracker (snd (goal_tokens c s))) = tracker_token_budget (ss_tracker s)" for c s
    by (simp add: goal_tokens_def tracker_token_budget_def ratchet_tokens_def Let_def split_beta split: option.split)
  show "tracker_token_budget (ss_tracker (doggy_emit_completion_ui p fs s)) = tracker_token_budget (ss_tracker s)"
    by (simp add: doggy_emit_completion_ui_def Let_def t split: option.split)
qed

lemma gate_part_refresh:
  assumes "gate_part s = gate_part s'"
  shows "gate_part (refresh_view s) = gate_part (refresh_view s')"
proof (cases "gt_orchestration (ss_tracker s)")
  case None
  with assms have "gt_orchestration (ss_tracker s') = None" by (simp add: gate_part_def)
  with None assms show ?thesis by (simp add: refresh_view_None)
next
  case (Some g)
  with assms obtain g' where "gt_orchestration (ss_tracker s') = Some g'"
    by (cases "gt_orchestration (ss_tracker s')") (auto simp: gate_part_def)
  with Some assms show ?thesis by (cases "ss_plan s'") (auto simp: refresh_view_Some gate_part_def goal_part_def)
qed

text \<open>A round end without a budget and without a claim goes straight to the decision.\<close>

lemma round_end_decides:
  assumes "tracker_token_budget (ss_tracker (ho_drain h [] s)) = None" "doggy_task_bound (ho_drain h [] s)"
    and "\<not> acceptance_is_claimed (view_of (refresh_view (ho_drain h [] s)))"
  obtains s1 where "run_doggy_round_end h tools m l s = decide_round h tools m l s1"
    "gate_part s1 = gate_part (refresh_view (ho_drain h [] s))"
proof -
  define s0 where "s0 = doggy_emit_completion_ui ''checking'' [] (ho_drain h [] s)"
  define s1 where "s1 = snd (goal_tokens (ss_total_tokens s0) s0)"
  have p: "gate_part s1 = gate_part (ho_drain h [] s)" by (simp add: s0_def s1_def gate_frame)
  have b: "enforce_goal_token_budget (ho_env h) (ss_total_tokens s0) s0 = (False, s1)"
    using assms(1) by (simp add: enforce_goal_token_budget_def split_beta s1_def s0_def)
  have "\<not> acceptance_is_claimed (view_of (refresh_view s1))"
    using assms(3) gate_part_view [OF gate_part_refresh [OF p]] by simp
  then have "doggy_request_acceptance_if_claimed h l s1 = (False, l, refresh_view s1)"
    by (auto simp: doggy_request_acceptance_if_claimed_def view_of_def Let_def split: option.split)
  with b assms(2) gate_part_bound [OF p] have "run_doggy_round_end h tools m l s = decide_round h tools m l (refresh_view s1)"
    by (simp add: run_doggy_round_end_def Let_def s0_def [symmetric])
  with that gate_part_refresh [OF p] show ?thesis by blast
qed

definition idle_host :: host where
  "idle_host = \<lparr>ho_env = sample_env 9, ho_drain = (\<lambda>xs s. s), ho_changed_files = (\<lambda>b s. None), ho_summarizer = (\<lambda>n s. None)\<rparr>"

definition accepted_session :: Session where
  "accepted_session =
     \<lparr>ss_tracker = map_orchestration (\<lambda>g. g\<lparr>go_last_classifier_verdict := Some VerdictAchieved\<rparr>) running_goal,
      ss_token_records = [], ss_harness_enabled = True, ss_posture = True, ss_goal_loop_active = True,
      ss_plan = None, ss_plan_mtime = None, ss_total_tokens = 0, ss_conversation = [],
      ss_pending_completions = [], ss_ui = [], ss_output = []\<rparr>"

lemma accepted_session_goal:
  obtains g where "gt_orchestration (ss_tracker accepted_session) = Some g" "go_status g = Active"
    "go_last_classifier_verdict g = Some VerdictAchieved" "go_criteria_view g = []" "go_token_budget g = None"
  by (simp add: accepted_session_def running_goal_def map_orchestration_def create_goal_def Let_def record_event_def
      append_history_def new_orchestration_def tracker_new_def request_def)

lemma accepted_session_round:
  assumes h: "ho_drain h [] accepted_session = accepted_session"
  shows "status_of (snd (snd (snd (run_doggy_round_end h [] machine_new ledger_new accepted_session)))) = Some Complete"
proof -
  obtain g where g: "gt_orchestration (ss_tracker accepted_session) = Some g" "go_status g = Active"
    "go_last_classifier_verdict g = Some VerdictAchieved" "go_criteria_view g = []" "go_token_budget g = None"
    by (rule accepted_session_goal)
  have flags: "ss_harness_enabled accepted_session" "ss_posture accepted_session" "ss_plan accepted_session = None"
    by (simp_all add: accepted_session_def)
  have st: "status_of accepted_session = Some Active" by (simp add: tracker_status_def g)
  have v: "view_of (refresh_view accepted_session) = []" by (simp add: refresh_view_Some [OF g(1)] flags view_of_def g)
  obtain s1 where s1: "run_doggy_round_end h [] machine_new ledger_new accepted_session
       = decide_round h [] machine_new ledger_new s1"
    "gate_part s1 = gate_part (refresh_view accepted_session)"
    by (rule round_end_decides [of h accepted_session "[]" machine_new ledger_new])
      (use g flags st v in \<open>simp_all add: h tracker_token_budget_def doggy_task_bound_def acceptance_is_claimed_def\<close>)
  have "doggy_verification_outcome accepted_session = Achieved" by (simp add: doggy_verification_outcome_def g)
  then have "doggy_verification_outcome s1 = Achieved" using gate_part_verdict [OF s1(2)] by simp
  moreover have "view_of (refresh_view s1) = []"
    using gate_part_view [OF gate_part_refresh [OF s1(2)]] v by (simp add: refresh_view_idem)
  moreover have "status_of s1 = Some Active" using gate_part_status [OF s1(2)] st by simp
  ultimately show ?thesis using decide_round_done [of s1] s1(1) by (simp add: unclaimed_criteria_def)
qed

subsection \<open>The loop ends\<close>

text \<open>One pass of the loop: it ends here, or a round end asked for more and the loop goes on.\<close>

lemma prompt_loop_pass:
  obtains r where "prompt_loop w n m l s = (n + 1, r)"
  | s0 s1 tools m1 m' l' s' where "wo_turn w n s0 = (RoundCompleted False tools, s1)" "doggy_task_bound s1"
      "run_doggy_round_end (wo_host w n) tools m1 l s1 = (ContinueRounds, m', l', s')"
      "n + 1 < DOGGY_MAX_ROUNDS_PER_PROMPT" "prompt_loop w n m l s = prompt_loop w (n + 1) m' l' s'"
proof -
  define s0 where "s0 = (if ss_harness_enabled s then s\<lparr>ss_goal_loop_active := (status_of s = Some Active)\<rparr> else s)"
  obtain rd s1 where t: "wo_turn w n s0 = (rd, s1)" by fastforce
  note unf = prompt_loop.simps [of w n m l s, folded s0_def, unfolded Let_def t prod.case]
  show ?thesis
  proof (cases "\<exists>tools. rd = RoundCompleted False tools \<and> doggy_task_bound s1")
    case False
    then have "\<exists>r. prompt_loop w n m l s = (n + 1, r)"
      by (subst unf) (auto split: round_result.split)
    then show ?thesis using that(1) by blast
  next
    case True
    then obtain tools where rd: "rd = RoundCompleted False tools" "doggy_task_bound s1" by blast
    define m1 where "m1 = (if tm_status m \<noteq> StatusActive then machine_start m else m)"
    obtain a m' l' s' where e: "run_doggy_round_end (wo_host w n) tools m1 l s1 = (a, m', l', s')" by (metis prod_cases4)
    show ?thesis
      using that t rd e by (cases a; cases "n + 1 < DOGGY_MAX_ROUNDS_PER_PROMPT") (auto simp: unf m1_def [symmetric])
  qed
qed

lemma prompt_loop_rounds:
  assumes "n < DOGGY_MAX_ROUNDS_PER_PROMPT"
  shows "n < fst (prompt_loop w n m l s) \<and> fst (prompt_loop w n m l s) \<le> DOGGY_MAX_ROUNDS_PER_PROMPT"
  using assms
proof (induction "DOGGY_MAX_ROUNDS_PER_PROMPT - n" arbitrary: n m l s rule: less_induct)
  case less
  show ?case
  proof (cases rule: prompt_loop_pass [of w n m l s])
    case (2 s0 s1 tools m1 m' l' s')
    with less.hyps [of "n + 1" m' l' s'] less.prems show ?thesis by fastforce
  qed (use less.prems in simp)
qed

text \<open>
  Property C6. One prompt runs at least one and at most a hundred model rounds, whatever the model,
  the drain and git answer: the loop is total and its round count is bounded.
\<close>

theorem prompt_rounds_bounded:
  "1 \<le> fst (handle_prompt_rounds w s) \<and> fst (handle_prompt_rounds w s) \<le> 100"
  using prompt_loop_rounds [of 0]
  by (simp add: handle_prompt_rounds_def DOGGY_MAX_ROUNDS_PER_PROMPT_def Suc_le_eq)

text \<open>
  Property C16. A stall is cut off once. When the ledger cuts an active goal off, the run goes on only
  if the plan declares no criteria at all; with at least one criterion, the goal-wide deferral
  covers everything, the turn ends and the goal is blocked, so the next prompt is not driven.
\<close>

theorem cut_off_ends_planned_goal:
  assumes "status_of s = Some Active"
    and "doggy_cut_off_stalled_work h repeats reason ledger s = (action, ledger', s')"
  shows "(action = ContinueRounds \<longleftrightarrow> acceptance_criteria_total s = 0)
     \<and> (action = EndTurn \<longleftrightarrow> status_of s' = Some Blocked)
     \<and> (action = EndTurn \<longrightarrow> \<not> doggy_task_bound s')"
  using cut_off_eq [OF assms(2)] assms(1) by (auto simp: doggy_task_bound_def split: if_splits)

theorem cut_off_ends_planned_goal_witness:
  "fst (doggy_cut_off_stalled_work idle_host 6 Repeated ledger_new accepted_session) = ContinueRounds"
proof -
  obtain a l' s' where r: "doggy_cut_off_stalled_work idle_host 6 Repeated ledger_new accepted_session = (a, l', s')"
    by (metis prod_cases3)
  have "status_of accepted_session = Some Active" by (rule accepted_session_goal) (simp add: tracker_status_def)
  moreover have "acceptance_criteria_total accepted_session = 0"
    by (simp add: acceptance_criteria_total_def accepted_session_def)
  ultimately show ?thesis using cut_off_ends_planned_goal [OF _ r] r by simp
qed

subsection \<open>An idle model\<close>

text \<open>
  A world in which every round completes without a single tool call, and a plan with criteria stays
  readable after every round and every drain.
\<close>

definition idle_world :: "world \<Rightarrow> bool" where
  "idle_world w \<longleftrightarrow>
     (\<forall>n s refusal tools s'. wo_turn w n s = (RoundCompleted refusal tools, s') \<longrightarrow> tools = [])
     \<and> (\<forall>n xs s. 0 < acceptance_criteria_total (ho_drain (wo_host w n) xs s))"

lemma refresh_total [simp]: "acceptance_criteria_total (refresh_view s) = acceptance_criteria_total s"
  by (simp add: acceptance_criteria_total_def refresh_view_def on_tracker_def)

lemma severe_cut_off: "2 \<le> severity x \<Longrightarrow> \<exists>k r. x = CutOff k r"
  by (cases x) auto

lemma observe_idle:
  assumes "observe ops ver act l = (l', stall, delta)" "ra_tools_called act = []"
  shows "rl_idle_streak l' = sat_add32 (rl_idle_streak l) 1"
    and "3 \<le> rl_idle_streak l' \<Longrightarrow> \<exists>k r. stall = CutOff k r"
proof -
  show "rl_idle_streak l' = sat_add32 (rl_idle_streak l) 1"
    using assms by (auto simp: observe_def Let_def worked_def split: option.splits)
  have "stall = worst (repeat_level l') (idle_level l')" using assms(1) by (auto simp: observe_def Let_def)
  then show "\<exists>k r. stall = CutOff k r" if "3 \<le> rl_idle_streak l'"
    using that by (intro severe_cut_off) (simp add: severity_worst idle_level_def IDLE_CUTOFF_AFTER_def)
qed

lemma request_idle_streak:
  assumes "doggy_request_acceptance_if_claimed h l s = (b, l', s')"
    "\<forall>xs s. 0 < acceptance_criteria_total (ho_drain h xs s)" "0 < acceptance_criteria_total s"
  shows "rl_idle_streak l' = rl_idle_streak l \<and> 0 < acceptance_criteria_total s'"
  using assms
  by (auto simp: doggy_request_acceptance_if_claimed_def Let_def mark_verification_requested_def split: option.splits if_splits)

lemma decide_round_idle:
  assumes "decide_round h [] m l s = (ContinueRounds, m', l', s')" "0 < acceptance_criteria_total s"
  shows "rl_idle_streak l' = sat_add32 (rl_idle_streak l) 1 \<and> rl_idle_streak l' < 3"
proof -
  obtain v l1 activity where eq: "decide_round h [] m l s =
      carry_out h (decide_after_round v) (machine_apply (decide_after_round v) m) l1 (refresh_view s)"
    and ob: "observe (rv_open_items v) (rv_verification v) activity l = (l1, rv_stall v, rv_delta v)"
      "ra_tools_called activity = []"
    by (rule decide_round_cases [of h "[]" m l s])
  from eq assms(1) have c: "carry_out h (decide_after_round v) (machine_apply (decide_after_round v) m) l1 (refresh_view s)
      = (ContinueRounds, m', l', s')" by simp
  then have "\<exists>inj. decide_after_round v = RunAnotherRound inj" and l': "l' = l1"
    using assms(2)
    by (auto simp: carry_out_def Let_def split: TaskDecision.splits PauseReason.splits prod.splits if_splits dest!: cut_off_eq)
  then have "\<not> (\<exists>k r. rv_stall v = CutOff k r)"
    by (auto simp: decide_after_round_def split: TaskDecision.splits)
  then show ?thesis using observe_idle [OF ob] l' by (metis not_le)
qed

lemma idle_round_end:
  assumes "run_doggy_round_end h [] m l s = (ContinueRounds, m', l', s')"
    and "\<forall>xs s. 0 < acceptance_criteria_total (ho_drain h xs s)"
  shows "rl_idle_streak l' = sat_add32 (rl_idle_streak l) 1 \<and> rl_idle_streak l' < 3"
proof -
  define s1 where "s1 = doggy_emit_completion_ui ''checking'' [] (ho_drain h [] s)"
  obtain hit s2 where b: "enforce_goal_token_budget (ho_env h) (ss_total_tokens s1) s1 = (hit, s2)" by fastforce
  obtain req l2 s3 where r: "doggy_request_acceptance_if_claimed h l s2 = (req, l2, s3)" by (metis prod_cases3)
  have t1: "0 < acceptance_criteria_total s1"
    using assms(2) gate_part_total [OF ui_part] by (simp add: s1_def)
  from assms(1) have nb: "\<not> hit" and d: "decide_round h [] m l2 s3 = (ContinueRounds, m', l', s')"
    by (auto simp: run_doggy_round_end_def Let_def s1_def [symmetric] b r split: if_splits)
  from b nb have "gate_part s2 = gate_part s1"
    by (auto simp: enforce_goal_token_budget_def Let_def split_beta goal_tokens_part simp del: split_paired_All
        split: option.splits if_splits)
  from gate_part_total [OF this] t1 have "0 < acceptance_criteria_total s2" by simp
  from request_idle_streak [OF r assms(2) this] decide_round_idle [OF d] show ?thesis by simp
qed

lemma idle_prompt_loop:
  assumes "idle_world w" "rl_idle_streak l = n" "n < 3"
  shows "fst (prompt_loop w n m l s) \<le> 3"
  using assms(2,3)
proof (induction "3 - n" arbitrary: n m l s rule: less_induct)
  case less
  show ?case
  proof (cases rule: prompt_loop_pass [of w n m l s])
    case (2 s0 s1 tools m1 m' l' s')
    with assms(1) have "tools = []" unfolding idle_world_def by blast
    with 2(3) idle_round_end [of "wo_host w n" m1 l s1 m' l' s'] assms(1)
    have "rl_idle_streak l' = sat_add32 (rl_idle_streak l) 1" "rl_idle_streak l' < 3" by (simp_all add: idle_world_def)
    moreover from less.prems have "sat_add32 (rl_idle_streak l) 1 = n + 1"
      by (simp add: sat_add32_exact u32_max_def)
    ultimately show ?thesis using less.hyps [of "n + 1" l' m' s'] 2(5) by simp
  qed (use less.prems in simp)
qed

text \<open>
  Property C7. A model that only narrates is stopped. If no round of a prompt calls a tool and the plan
  keeps declaring criteria, the prompt ends after at most three rounds, whatever else the rounds,
  the drain and git do.
\<close>

theorem idle_prompt_ends:
  assumes "idle_world w"
  shows "fst (handle_prompt_rounds w s) \<le> 3"
  using idle_prompt_loop [OF assms, of ledger_new 0] by (simp add: handle_prompt_rounds_def ledger_new_def Let_def)

definition planned_session :: "Session \<Rightarrow> Session" where
  "planned_session s = s\<lparr>ss_plan := Some plain_plan\<rparr>"

definition narrating_world :: world where
  "narrating_world =
     \<lparr>wo_turn = (\<lambda>n s. (RoundCompleted False [], s)),
      wo_host = (\<lambda>n. idle_host\<lparr>ho_drain := (\<lambda>xs s. planned_session s)\<rparr>)\<rparr>"

theorem idle_prompt_ends_witness: "fst (handle_prompt_rounds narrating_world accepted_session) \<le> 3"
proof -
  have "extract_numbered_acceptance_criteria plain_plan = [''it builds'', ''tests pass'']" by code_simp
  then have "0 < acceptance_criteria_total (planned_session s)" for s
    by (simp add: planned_session_def acceptance_criteria_total_def Let_def)
  then have "idle_world narrating_world" by (simp add: idle_world_def narrating_world_def)
  then show ?thesis by (rule idle_prompt_ends)
qed

subsection \<open>Requesting acceptance\<close>

lemma request_iff:
  "fst (doggy_request_acceptance_if_claimed h l s) \<longleftrightarrow> acceptance_is_claimed (view_of (refresh_view s))
     \<and> \<not> verification_already_requested_for (map cv_number (filter cv_exec (view_of (refresh_view s)))) l"
  by (auto simp: doggy_request_acceptance_if_claimed_def view_of_def Let_def acceptance_is_claimed_def split: option.split)

lemma request_ledger:
  "doggy_request_acceptance_if_claimed h l s = (True, l', s') \<Longrightarrow>
     l' = mark_verification_requested (map cv_number (filter cv_exec (view_of (refresh_view s)))) l"
  by (auto simp: doggy_request_acceptance_if_claimed_def view_of_def Let_def split: option.splits if_splits)

text \<open>
  Acceptance is requested for the model exactly when it is due, and not twice for the
  same claim. A request is made exactly when some criterion is not deferred, all such criteria are
  executed, none is audited, and the executed ones are not those of the last request; and as long as
  the view afterwards shows the same executed criteria, the next round end makes none.
\<close>
theorem acceptance_requested_once:
  "(fst (doggy_request_acceptance_if_claimed h l s) \<longleftrightarrow>
      (let view = view_of (refresh_view s); live = filter (\<lambda>c. \<not> cv_deferred c) view in
       live \<noteq> [] \<and> list_all cv_exec live \<and> list_all (\<lambda>c. \<not> cv_audit c) view
       \<and> rl_verification_requested_for l \<noteq> Some (map cv_number (filter cv_exec view))))
   \<and> (doggy_request_acceptance_if_claimed h l s = (True, l', s') \<longrightarrow>
       map cv_number (filter cv_exec (view_of (refresh_view s''))) = map cv_number (filter cv_exec (view_of (refresh_view s))) \<longrightarrow>
       \<not> fst (doggy_request_acceptance_if_claimed h' l' s''))"
proof (intro conjI impI)
  show "fst (doggy_request_acceptance_if_claimed h l s) \<longleftrightarrow>
      (let view = view_of (refresh_view s); live = filter (\<lambda>c. \<not> cv_deferred c) view in
       live \<noteq> [] \<and> list_all cv_exec live \<and> list_all (\<lambda>c. \<not> cv_audit c) view
       \<and> rl_verification_requested_for l \<noteq> Some (map cv_number (filter cv_exec view)))"
    unfolding request_iff acceptance_is_claimed_def verification_already_requested_for_def Let_def
    by (cases "rl_verification_requested_for l") auto
next
  assume "doggy_request_acceptance_if_claimed h l s = (True, l', s')"
    and same: "map cv_number (filter cv_exec (view_of (refresh_view s''))) = map cv_number (filter cv_exec (view_of (refresh_view s)))"
  from request_ledger [OF this(1)] show "\<not> fst (doggy_request_acceptance_if_claimed h' l' s'')"
    unfolding request_iff same by (simp add: verification_already_requested_for_def mark_verification_requested_def)
qed

definition claimed_goal :: GoalOrchestration where
  "claimed_goal = (the (gt_orchestration running_goal))\<lparr>go_criteria_view :=
     [\<lparr>cv_number = 1, cv_text = ''it builds'', cv_exec = True, cv_audit = False, cv_depends_on = [],
       cv_write_scope = [], cv_wave = None, cv_deferred = False\<rparr>]\<rparr>"

definition claimed_session :: Session where
  "claimed_session = accepted_session\<lparr>ss_tracker := running_goal\<lparr>gt_orchestration := Some claimed_goal\<rparr>\<rparr>"

theorem acceptance_requested_once_witness:
  "fst (doggy_request_acceptance_if_claimed idle_host ledger_new claimed_session)
   \<and> \<not> fst (doggy_request_acceptance_if_claimed idle_host
         (fst (snd (doggy_request_acceptance_if_claimed idle_host ledger_new claimed_session))) claimed_session)"
proof -
  have v: "view_of (refresh_view claimed_session) = go_criteria_view claimed_goal"
    by (simp add: claimed_session_def refresh_view_Some accepted_session_def view_of_def)
  have first: "fst (doggy_request_acceptance_if_claimed idle_host ledger_new claimed_session)"
    using acceptance_requested_once [of idle_host ledger_new claimed_session] v
    by (simp add: claimed_goal_def ledger_new_def)
  then show ?thesis
    using acceptance_requested_once [of idle_host ledger_new claimed_session _ _ claimed_session idle_host]
    by (metis prod.collapse)
qed

subsection \<open>Token accounting\<close>

lemma ratchet_tokens_idem: "ratchet_tokens c k (ratchet_tokens c k g) = ratchet_tokens c k g"
  by (simp add: ratchet_tokens_def Let_def)

text \<open>
  The spend of a goal is a ratchet. Whatever the session total is, including one that a
  compaction shrank, accounting never lowers the parent's spend or the reported total, and for an
  unchanged session total accounting twice is accounting once, so callers may read it at will.
\<close>
theorem goal_tokens_ratchet:
  "goal_tokens c (snd (goal_tokens c s)) = goal_tokens c s
   \<and> (gt_orchestration (ss_tracker s) = Some g \<longrightarrow> go_parent_tokens_spent g \<le> i64_max \<longrightarrow>
       go_tokens_used_high_water g \<le> fst (fst (goal_tokens c s))
       \<and> (\<exists>g'. gt_orchestration (ss_tracker (snd (goal_tokens c s))) = Some g'
            \<and> go_tokens_used_high_water g' = fst (fst (goal_tokens c s))
            \<and> go_parent_tokens_spent g \<le> go_parent_tokens_spent g' \<and> go_parent_tokens_spent g' \<le> i64_max))"
proof (cases "gt_orchestration (ss_tracker s)")
  case (Some x)
  have ids: "go_goal_id (ratchet_tokens c k x) = go_goal_id x" for k by (simp add: ratchet_tokens_def Let_def)
  show ?thesis
    using sat_add_i64_mono sat_add_i64_le
    by (auto simp: goal_tokens_def Some Let_def split_beta ids ratchet_tokens_idem)
      (auto simp: ratchet_tokens_def Let_def)
qed (simp add: goal_tokens_def)

theorem goal_tokens_ratchet_witness:
  "goal_tokens 7 (snd (goal_tokens 7 accepted_session)) = goal_tokens 7 accepted_session
   \<and> 0 \<le> fst (fst (goal_tokens 7 accepted_session))"
proof -
  obtain g where g: "gt_orchestration (ss_tracker accepted_session) = Some g" "go_parent_tokens_spent g = 0"
    "go_tokens_used_high_water g = 0"
    by (simp add: accepted_session_def running_goal_def map_orchestration_def create_goal_def Let_def record_event_def
        append_history_def new_orchestration_def tracker_new_def request_def)
  show ?thesis using goal_tokens_ratchet [of 7 accepted_session g] by (simp add: g i64_max_def)
qed

subsection \<open>Directives\<close>

lemma prefix_run_unique:
  assumes "list_all P xs" "list_all P ys" "\<not> P c" "xs @ c # u = ys @ c # v"
  shows "xs = ys"
proof -
  have "takeWhile P (xs @ c # u) = xs" "takeWhile P (ys @ c # v) = ys"
    using assms(1-3) by (simp_all add: takeWhile_append list_all_iff)
  with assms(4) show ?thesis by metis
qed

lemma show_nat_run_unique: "show_nat a @ CHR '' '' # u = show_nat b @ CHR '' '' # v \<Longrightarrow> a = b \<and> u = v"
  using prefix_run_unique [of is_ascii_digit "show_nat a" "show_nat b" "CHR '' ''" u v] show_nat_digits
  by (auto simp: show_nat_inject is_ascii_digit_def)

lemma render_delta_head:
  obtains u where "doggy_render_delta d = ''Round '' @ show_nat (rd_round d) @ CHR '' '' # u"
proof -
  have join_head: "\<exists>t. join [NL] (h # xs) = h @ t" for h xs by (cases xs) auto
  have "\<exists>rest. doggy_render_delta d = join [NL] ((''Round '' @ show_nat (rd_round d) @ '' just ended.'') # rest)"
    unfolding doggy_render_delta_def Let_def
    by (cases "moved_nothing d"; simp only: if_True if_False append_Cons append_Nil; rule exI, rule refl)
  then obtain rest where "doggy_render_delta d = join [NL] ((''Round '' @ show_nat (rd_round d) @ '' just ended.'') # rest)"
    by blast
  with join_head obtain t where "doggy_render_delta d = (''Round '' @ show_nat (rd_round d) @ '' just ended.'') @ t" by metis
  then show ?thesis using that by simp
qed

fun injected_round :: "Injection \<Rightarrow> nat option" where
  "injected_round (Continue _ d) = Some (rd_round d)"
| "injected_round (Fix _) = None"
| "injected_round (Reapproach _ _ _ d) = Some (rd_round d)"

lemma injection_bodies:
  obtains u where "injection_body (Continue a d) =
     gate_head @ ''task is NOT done.'' @ [NL, NL] @ ''Round '' @ show_nat (rd_round d) @ CHR '' '' # u"
proof -
  obtain u where "doggy_render_delta d = ''Round '' @ show_nat (rd_round d) @ CHR '' '' # u" by (rule render_delta_head)
  then show ?thesis using that by simp
qed

lemma reapproach_bodies:
  obtains u where "injection_body (Reapproach k r a d) =
     gate_head @ stall_diagnosis k r @ ''.'' @ [NL, NL] @ ''Round '' @ show_nat (rd_round d) @ CHR '' '' # u"
proof -
  obtain u where "doggy_render_delta d = ''Round '' @ show_nat (rd_round d) @ CHR '' '' # u" by (rule render_delta_head)
  then show ?thesis using that by simp
qed

lemma stall_diagnosis_unique:
  "stall_diagnosis k r @ u = stall_diagnosis k' r' @ v \<Longrightarrow> u = v"
  by (cases r; cases r') (auto dest!: show_nat_run_unique)

lemma continue_body_round:
  assumes e: "injection_body (Continue a d) = injection_body (Continue a' d')"
  shows "rd_round d = rd_round d'"
proof -
  obtain u v where "injection_body (Continue a d) =
      gate_head @ ''task is NOT done.'' @ [NL, NL] @ ''Round '' @ show_nat (rd_round d) @ CHR '' '' # u"
    "injection_body (Continue a' d') =
      gate_head @ ''task is NOT done.'' @ [NL, NL] @ ''Round '' @ show_nat (rd_round d') @ CHR '' '' # v"
    using injection_bodies by metis
  with e have "show_nat (rd_round d) @ CHR '' '' # u = show_nat (rd_round d') @ CHR '' '' # v"
    by (simp only: same_append_eq)
  then show ?thesis using show_nat_run_unique by blast
qed

lemma reapproach_body_round:
  assumes e: "injection_body (Reapproach k r a d) = injection_body (Reapproach k' r' a' d')"
  shows "rd_round d = rd_round d'"
proof -
  obtain u v where "injection_body (Reapproach k r a d) =
      gate_head @ stall_diagnosis k r @ ''.'' @ [NL, NL] @ ''Round '' @ show_nat (rd_round d) @ CHR '' '' # u"
    "injection_body (Reapproach k' r' a' d') =
      gate_head @ stall_diagnosis k' r' @ ''.'' @ [NL, NL] @ ''Round '' @ show_nat (rd_round d') @ CHR '' '' # v"
    using reapproach_bodies by metis
  with e have "stall_diagnosis k r @ ''.'' @ [NL, NL] @ ''Round '' @ show_nat (rd_round d) @ CHR '' '' # u
      = stall_diagnosis k' r' @ ''.'' @ [NL, NL] @ ''Round '' @ show_nat (rd_round d') @ CHR '' '' # v"
    by (simp only: same_append_eq)
  from stall_diagnosis_unique [OF this]
  have "show_nat (rd_round d) @ CHR '' '' # u = show_nat (rd_round d') @ CHR '' '' # v" by (simp only: same_append_eq)
  then show ?thesis using show_nat_run_unique by blast
qed

lemma body_kinds_differ:
  "injection_body (Continue a d) \<noteq> injection_body (Reapproach k r a' d')"
  "injection_body (Fix fs) \<noteq> injection_body (Continue a d)"
  "injection_body (Fix fs) \<noteq> injection_body (Reapproach k r a' d')"
  by (cases r; simp add: gate_head_def)+

text \<open>
  Two directives of the gate are the same text only if they are about the same round: a
  continue or re-approach directive names its round, so the model is never asked twice with
  identical input in different rounds; only a fix directive, which carries no round, can repeat.
\<close>

theorem directives_name_their_round:
  assumes "injected_round i \<noteq> injected_round j"
  shows "injection_body i \<noteq> injection_body j"
  using assms
  by (cases i; cases j)
    (auto simp: body_kinds_differ body_kinds_differ [symmetric] simp del: injection_body.simps
      dest: continue_body_round reapproach_body_round)

definition round_delta :: "nat \<Rightarrow> RoundDelta" where
  "round_delta n = \<lparr>rd_round = n, rd_newly_changed_files = [], rd_workspace_visible = True, rd_tools_called = [],
     rd_newly_execed = [], rd_newly_verified = [], rd_newly_deferred = []\<rparr>"

theorem directives_name_their_round_witness:
  "injection_body (Continue ''work'' (round_delta 1)) \<noteq> injection_body (Continue ''work'' (round_delta 2))"
  by (rule directives_name_their_round) (simp add: round_delta_def)

text \<open>
  Earlier directives are removed only if they carry the sentinel of the continuation template, and
  the gate's own directives do not: two equal fix directives in a row are both kept.
\<close>

theorem gate_directives_accumulate:
  "2 \<le> count_list (ss_conversation (doggy_inject (Fix []) (doggy_inject (Fix []) s)))
       (UserItem (Some GoalSummary) (injection_body (Fix [])))"
proof -
  let ?item = "UserItem (Some GoalSummary) (injection_body (Fix []))"
  have keep: "\<not> is_goal_continuation_directive ?item" by code_simp
  have inj: "ss_conversation (doggy_inject (Fix []) t) = filter (\<lambda>x. \<not> is_goal_continuation_directive x) (ss_conversation t) @ [?item]" for t
    by (auto simp: doggy_inject_def inject_goal_continuation_message_def prune_prior_goal_continuation_directives_def Let_def
        list_ex_iff simp del: injection_body.simps intro!: filter_True [symmetric])
  then show ?thesis using keep by (simp del: injection_body.simps is_goal_continuation_directive.simps)
qed

end
