(* ===== verification/Resumption.thy ===== *)
theory Resumption
  imports Main
begin

text \<open>
  Operations on shared memory as trees of atomic accesses. An operation is a result, one atomic
  access to the shared state followed by the rest of the operation, or a reading of the clock. Run
  alone, an operation is a function of the clock readings and the state (\<open>run_alone\<close>); run by
  several threads, the accesses interleave in any order (\<open>sys_step\<close>, \<open>sys_run\<close>). The accesses are
  sequentially consistent: executions that a weaker ordering of the processor would add are not
  considered.

  The trace of an execution lists its steps; what an operation returned and which step first established a fact are read off it.
  The locale \<open>atomic_ops\<close> is the contract of a set of operations every atomic access of which keeps an
  invariant; it gives the invariant in every interleaving and for operations run alone.
\<close>

datatype ('s, 'r) act =
    Ret 'r
  | Access "'s \<Rightarrow> 's \<times> ('s, 'r) act"
  | Clock "nat \<Rightarrow> ('s, 'r) act"

text \<open>The four shapes of an access: a load, a store, a read-modify-write and a bare effect.\<close>

definition load :: "('s \<Rightarrow> 'a) \<Rightarrow> ('a \<Rightarrow> ('s, 'r) act) \<Rightarrow> ('s, 'r) act" where
  "load sel k = Access (\<lambda>s. (s, k (sel s)))"

definition store :: "('s \<Rightarrow> 's) \<Rightarrow> ('s, 'r) act \<Rightarrow> ('s, 'r) act" where
  "store upd k = Access (\<lambda>s. (upd s, k))"

definition rmw :: "('s \<Rightarrow> 'a) \<Rightarrow> ('s \<Rightarrow> 's) \<Rightarrow> ('a \<Rightarrow> ('s, 'r) act) \<Rightarrow> ('s, 'r) act" where
  "rmw sel upd k = Access (\<lambda>s. (upd s, k (sel s)))"

text \<open>The operation run alone, with the clock readings it gets, in order.\<close>

primrec run_alone :: "('s, 'r) act \<Rightarrow> (nat \<Rightarrow> nat) \<Rightarrow> 's \<Rightarrow> 'r \<times> 's" where
  "run_alone (Ret r) = (\<lambda>c s. (r, s))"
| "run_alone (Access f) = (\<lambda>c s. case map_prod id run_alone (f s) of (s', g) \<Rightarrow> g c s')"
| "run_alone (Clock f) = (\<lambda>c s. run_alone (f (c 0)) (\<lambda>i. c (Suc i)) s)"

lemma run_alone_Access: "run_alone (Access f) c s = run_alone (snd (f s)) c (fst (f s))"
  by (cases "f s") simp

lemma run_alone_load [simp]: "run_alone (load sel k) c s = run_alone (k (sel s)) c s"
  by (simp add: load_def)

lemma run_alone_store [simp]: "run_alone (store upd k) c s = run_alone k c (upd s)"
  by (simp add: store_def)

lemma run_alone_rmw [simp]: "run_alone (rmw sel upd k) c s = run_alone (k (sel s)) c (upd s)"
  by (simp add: rmw_def)

text \<open>
  Threads that interleave: the time, the shared state and what every thread still has to do. An event
  lets thread \<open>i\<close> begin an operation when it has finished its last one, lets it do its next access or
  clock reading, or lets time pass.
\<close>

type_synonym ('s, 'r) sys = "nat \<times> 's \<times> ('s, 'r) act list"

datatype ('s, 'r) event = Begin nat "('s, 'r) act" | Run nat | Tick nat

fun advance :: "nat \<Rightarrow> 's \<Rightarrow> ('s, 'r) act \<Rightarrow> 's \<times> ('s, 'r) act" where
  "advance now s (Ret r) = (s, Ret r)"
| "advance now s (Access f) = f s"
| "advance now s (Clock f) = (s, f now)"

fun sys_step :: "('s, 'r) event \<Rightarrow> ('s, 'r) sys \<Rightarrow> ('s, 'r) sys" where
  "sys_step (Begin i op) (now, s, ts) =
     (now, s, if i < length ts \<and> (case ts ! i of Ret r \<Rightarrow> True | _ \<Rightarrow> False) then ts[i := op] else ts)"
| "sys_step (Run i) (now, s, ts) =
     (if i < length ts then (case advance now s (ts ! i) of (s', a) \<Rightarrow> (now, s', ts[i := a]))
      else (now, s, ts))"
| "sys_step (Tick d) (now, s, ts) = (now + d, s, ts)"

definition sys_run :: "('s, 'r) event list \<Rightarrow> ('s, 'r) sys \<Rightarrow> ('s, 'r) sys" where
  "sys_run es sys = fold sys_step es sys"

lemma sys_run_simps [simp]:
  "sys_run [] sys = sys" "sys_run (e # es) sys = sys_run es (sys_step e sys)"
  by (simp_all add: sys_run_def)

definition begins_only :: "(('s, 'r) act \<Rightarrow> bool) \<Rightarrow> ('s, 'r) event list \<Rightarrow> bool" where
  "begins_only P es \<longleftrightarrow> (\<forall>e\<in>set es. case e of Begin i op \<Rightarrow> P op | _ \<Rightarrow> True)"

text \<open>
  Waiting for several operations at once: a schedule lets an operation do its next access (\<open>Inl\<close>) or
  lets time pass (\<open>Inr\<close>); what is left when the schedule ends is run to the end, one operation after the
  other. The results are in the order of the operations.
\<close>

primrec finish_all :: "(nat \<Rightarrow> nat) \<Rightarrow> ('s, 'r) act list \<Rightarrow> 's \<Rightarrow> 'r list \<times> 's" where
  "finish_all c [] s = ([], s)"
| "finish_all c (a # as) s = (case run_alone a c s of (r, s') \<Rightarrow> map_prod ((#) r) id (finish_all c as s'))"

definition join_all :: "(nat + nat) list \<Rightarrow> nat \<Rightarrow> (nat \<Rightarrow> nat) \<Rightarrow> ('s, 'r) act list \<Rightarrow> 's \<Rightarrow> 'r list \<times> 's" where
  "join_all sched now c ops s =
     (case sys_run (map (case_sum Run Tick) sched) (now, s, ops) of (now', s', rest) \<Rightarrow> finish_all c rest s')"

text \<open>An operation keeps a predicate of the state when every access it can ever do keeps it.\<close>

inductive keeps :: "('s \<Rightarrow> bool) \<Rightarrow> ('s, 'r) act \<Rightarrow> bool" for ok :: "'s \<Rightarrow> bool" where
  keeps_Ret: "keeps ok (Ret r)"
| keeps_Access: "(\<And>s. ok s \<Longrightarrow> ok (fst (f s)) \<and> keeps ok (snd (f s))) \<Longrightarrow> keeps ok (Access f)"
| keeps_Clock: "(\<And>n. keeps ok (f n)) \<Longrightarrow> keeps ok (Clock f)"

inductive_cases keeps_AccessE: "keeps ok (Access f)"
inductive_cases keeps_ClockE: "keeps ok (Clock f)"

lemma keeps_load: "(\<And>s. ok s \<Longrightarrow> keeps ok (k (sel s))) \<Longrightarrow> keeps ok (load sel k)"
  unfolding load_def by (rule keeps_Access) simp

lemma keeps_store: "(\<And>s. ok s \<Longrightarrow> ok (upd s)) \<Longrightarrow> keeps ok k \<Longrightarrow> keeps ok (store upd k)"
  unfolding store_def by (rule keeps_Access) simp

lemma keeps_rmw:
  "(\<And>s. ok s \<Longrightarrow> ok (upd s)) \<Longrightarrow> (\<And>s. ok s \<Longrightarrow> keeps ok (k (sel s))) \<Longrightarrow> keeps ok (rmw sel upd k)"
  unfolding rmw_def by (rule keeps_Access) simp

lemmas keeps_intros = keeps_Ret keeps_Clock keeps_load keeps_store keeps_rmw

lemma advance_keeps:
  assumes "keeps ok a" and "ok s"
  shows "ok (fst (advance now s a)) \<and> keeps ok (snd (advance now s a))"
  using assms by (cases a) (auto elim: keeps_AccessE keeps_ClockE)

lemma run_alone_keeps: "keeps ok a \<Longrightarrow> ok s \<Longrightarrow> ok (snd (run_alone a c s))"
proof (induction arbitrary: s c rule: keeps.induct)
  case (keeps_Access f)
  then show ?case by (cases "f s") (metis fst_conv snd_conv case_prod_conv id_apply map_prod_simp run_alone.simps(2))
qed simp_all

definition good_sys :: "('s \<Rightarrow> bool) \<Rightarrow> ('s, 'r) sys \<Rightarrow> bool" where
  "good_sys ok sys \<longleftrightarrow> ok (fst (snd sys)) \<and> (\<forall>a\<in>set (snd (snd sys)). keeps ok a)"

locale atomic_ops =
  fixes ok :: "'s \<Rightarrow> bool" and is_op :: "('s, 'r) act \<Rightarrow> bool"
  assumes op_keeps: "is_op a \<Longrightarrow> keeps ok a"
begin

lemma step_good:
  assumes "good_sys ok sys" and "begins_only is_op [e]"
  shows "good_sys ok (sys_step e sys)"
proof -
  obtain now s ts where sys: "sys = (now, s, ts)" by (cases sys) auto
  have g: "ok s" "\<And>a. a \<in> set ts \<Longrightarrow> keeps ok a" using assms(1) by (auto simp: good_sys_def sys)
  show ?thesis
  proof (cases e)
    case (Begin i op)
    then have "keeps ok op" using assms(2) by (auto simp: begins_only_def intro: op_keeps)
    with g show ?thesis by (auto simp: sys Begin good_sys_def dest!: set_update_subset_insert [THEN subsetD])
  next
    case (Run i)
    show ?thesis
    proof (cases "i < length ts")
      case True
      then have "keeps ok (ts ! i)" using g(2) by simp
      from advance_keeps [OF this g(1), of now] g(2) show ?thesis
        by (auto simp: sys Run good_sys_def True split: prod.split dest!: set_update_subset_insert [THEN subsetD])
    qed (use g in \<open>simp add: sys Run good_sys_def\<close>)
  next
    case (Tick d)
    with g show ?thesis by (simp add: sys good_sys_def)
  qed
qed

lemma run_good: "good_sys ok sys \<Longrightarrow> begins_only is_op es \<Longrightarrow> good_sys ok (sys_run es sys)"
proof (induction es arbitrary: sys)
  case (Cons e es)
  then have "begins_only is_op [e]" "begins_only is_op es" by (auto simp: begins_only_def)
  with Cons show ?case by (simp add: step_good)
qed simp

lemma interleaving_inv:
  assumes "ok s" and "begins_only is_op es"
  shows "ok (fst (snd (sys_run es (now, s, replicate n (Ret r)))))"
  using run_good [of "(now, s, replicate n (Ret r))" es] assms
  by (auto simp: good_sys_def intro: keeps_Ret)

end

subsection \<open>The trace of an execution\<close>

text \<open>
  The trace lists the steps of an execution in order, each as the state before and after it: of one operation run alone, of
  operations finished one after the other, of a schedule, and of a joined execution.
\<close>

primrec alone_trace :: "('s, 'r) act \<Rightarrow> (nat \<Rightarrow> nat) \<Rightarrow> 's \<Rightarrow> ('s \<times> 's) list" where
  "alone_trace (Ret r) = (\<lambda>c s. [])"
| "alone_trace (Access f) = (\<lambda>c s. (s, fst (f s)) # (case map_prod id alone_trace (f s) of (s', g) \<Rightarrow> g c s'))"
| "alone_trace (Clock f) = (\<lambda>c s. alone_trace (f (c 0)) (\<lambda>i. c (Suc i)) s)"

lemma alone_trace_Access: "alone_trace (Access f) c s = (s, fst (f s)) # alone_trace (snd (f s)) c (fst (f s))"
  by (cases "f s") simp

primrec finish_trace :: "(nat \<Rightarrow> nat) \<Rightarrow> ('s, 'r) act list \<Rightarrow> 's \<Rightarrow> ('s \<times> 's) list" where
  "finish_trace c [] s = []"
| "finish_trace c (a # as) s = alone_trace a c s @ finish_trace c as (snd (run_alone a c s))"

primrec sched_trace :: "('s, 'r) event list \<Rightarrow> ('s, 'r) sys \<Rightarrow> ('s \<times> 's) list" where
  "sched_trace [] sys = []"
| "sched_trace (e # es) sys =
     (case e of Run i \<Rightarrow> if i < length (snd (snd sys)) then [(fst (snd sys), fst (snd (sys_step e sys)))] else [] | _ \<Rightarrow> []) @ sched_trace es (sys_step e sys)"

definition join_trace :: "(nat + nat) list \<Rightarrow> nat \<Rightarrow> (nat \<Rightarrow> nat) \<Rightarrow> ('s, 'r) act list \<Rightarrow> 's \<Rightarrow> ('s \<times> 's) list" where
  "join_trace sched now c ops s =
     (let es = map (case_sum Run Tick) sched in
      sched_trace es (now, s, ops) @ (case sys_run es (now, s, ops) of (now', s', rest) \<Rightarrow> finish_trace c rest s'))"

text \<open>\<open>returns M a r\<close>: the operation can return \<open>r\<close> when all its accesses are steps in \<open>M\<close>.\<close>

inductive returns :: "('s \<times> 's \<Rightarrow> bool) \<Rightarrow> ('s, 'r) act \<Rightarrow> 'r \<Rightarrow> bool" for M :: "'s \<times> 's \<Rightarrow> bool" where
  returns_Ret: "returns M (Ret r) r"
| returns_Access: "M (s, fst (f s)) \<Longrightarrow> returns M (snd (f s)) r \<Longrightarrow> returns M (Access f) r"
| returns_Clock: "returns M (f n) r \<Longrightarrow> returns M (Clock f) r"

inductive_simps returns_Ret_iff [simp]: "returns M (Ret r') r"
inductive_simps returns_Access_iff: "returns M (Access f) r"
inductive_simps returns_Clock_iff [simp]: "returns M (Clock f) r"

lemma returns_load: "returns M (load sel k) r \<longleftrightarrow> (\<exists>s. M (s, s) \<and> returns M (k (sel s)) r)"
  by (simp add: load_def returns_Access_iff)

lemma returns_store: "returns M (store upd k) r \<longleftrightarrow> (\<exists>s. M (s, upd s)) \<and> returns M k r"
  by (simp add: store_def returns_Access_iff)

lemma run_alone_returns: "\<forall>t\<in>set (alone_trace a c s). M t \<Longrightarrow> returns M a (fst (run_alone a c s))"
proof (induction a arbitrary: c s)
  case (Access f)
  then have "returns M (snd (f s)) (fst (run_alone (snd (f s)) c (fst (f s))))" "M (s, fst (f s))"
    unfolding alone_trace_Access by (auto simp: prod_set_defs)
  then show ?case unfolding run_alone_Access by (intro returns_Access)
next
  case (Clock f)
  then have "returns M (f (c 0)) (fst (run_alone (f (c 0)) (\<lambda>i. c (Suc i)) s))" by simp
  then show ?case by (auto intro: returns_Clock)
qed simp

lemma finish_all_returns:
  "\<forall>t\<in>set (finish_trace c ops s). M t \<Longrightarrow> i < length ops \<Longrightarrow> returns M (ops ! i) (fst (finish_all c ops s) ! i)"
proof (induction ops arbitrary: s i)
  case (Cons a ops)
  obtain r s1 where r: "run_alone a c s = (r, s1)" by fastforce
  have f: "fst (finish_all c (a # ops) s) = r # fst (finish_all c ops s1)" by (simp add: r)
  have tr: "\<forall>t\<in>set (alone_trace a c s). M t" "\<forall>t\<in>set (finish_trace c ops s1). M t" using Cons.prems(1) r by auto
  show ?case using run_alone_returns [OF tr(1)] Cons.IH [OF tr(2)] Cons.prems(2) unfolding f by (cases i) (auto simp: r)
qed simp

lemma finish_all_length: "length (fst (finish_all c ops s)) = length ops"
  by (induction ops arbitrary: s) (auto split: prod.split)

lemma sys_step_run:
  "sys_step (case_sum Run Tick e) (now, s, ops) = (now', s', ops') \<Longrightarrow>
   (s' = s \<and> ops' = ops) \<or> (\<exists>i a. e = Inl i \<and> i < length ops \<and> advance now s (ops ! i) = (s', a) \<and> ops' = ops[i := a])"
  by (cases e) (auto split: if_splits prod.splits)

lemma advance_returns:
  assumes "advance now s a = (s', a')" and "M (s, s')" and "returns M a' r"
  shows "returns M a r"
proof (cases a)
  case (Access f)
  then show ?thesis using assms returns_Access [of M s f r] by simp
qed (use assms in auto)

lemma sys_run_returns:
  assumes "sys_run (map (case_sum Run Tick) sched) (now, s, ops) = (now', s', rest)"
    and "\<forall>t\<in>set (sched_trace (map (case_sum Run Tick) sched) (now, s, ops)). M t"
  shows "length rest = length ops \<and> (\<forall>i<length ops. \<forall>r. returns M (rest ! i) r \<longrightarrow> returns M (ops ! i) r)"
  using assms
proof (induction sched arbitrary: now s ops)
  case (Cons e sched)
  obtain now1 s1 ops1 where step: "sys_step (case_sum Run Tick e) (now, s, ops) = (now1, s1, ops1)"
    by (cases "sys_step (case_sum Run Tick e) (now, s, ops)") auto
  have IH: "length rest = length ops1 \<and> (\<forall>i<length ops1. \<forall>r. returns M (rest ! i) r \<longrightarrow> returns M (ops1 ! i) r)"
    using Cons.IH [of now1 s1 ops1] Cons.prems by (simp add: step)
  have "length ops1 = length ops \<and> (\<forall>i<length ops. \<forall>r. returns M (ops1 ! i) r \<longrightarrow> returns M (ops ! i) r)"
  proof (cases "ops1 = ops")
    case False
    then obtain j a where j: "e = Inl j" "j < length ops" "advance now s (ops ! j) = (s1, a)" "ops1 = ops[j := a]"
      using sys_step_run [OF step] by auto
    then have "M (s, s1)" using Cons.prems(2) step by simp
    then show ?thesis using advance_returns [OF j(3)] j(2,4) by (auto simp: nth_list_update)
  qed simp
  with IH show ?case by simp
qed simp

lemma join_all_returns:
  assumes "\<forall>t\<in>set (join_trace sched now c ops s). M t"
  shows "length (fst (join_all sched now c ops s)) = length ops"
    and "i < length ops \<Longrightarrow> returns M (ops ! i) (fst (join_all sched now c ops s) ! i)"
proof -
  obtain now1 s1 rest where r: "sys_run (map (case_sum Run Tick) sched) (now, s, ops) = (now1, s1, rest)"
    by (cases "sys_run (map (case_sum Run Tick) sched) (now, s, ops)") auto
  have tr: "\<forall>t\<in>set (sched_trace (map (case_sum Run Tick) sched) (now, s, ops)). M t" "\<forall>t\<in>set (finish_trace c rest s1). M t"
    using assms by (auto simp: join_trace_def r Let_def)
  note run = sys_run_returns [OF r tr(1)]
  have j: "join_all sched now c ops s = finish_all c rest s1" by (simp add: join_all_def r)
  show "length (fst (join_all sched now c ops s)) = length ops" using run by (simp add: j finish_all_length)
  show "returns M (ops ! i) (fst (join_all sched now c ops s) ! i)" if "i < length ops"
    using run finish_all_returns [OF tr(2), of i] that by (simp add: j)
qed

text \<open>
  An operation keeps a predicate of the state along a trace when every access it can do as a step of the trace keeps it. Then
  every step of the trace starts with it.
\<close>

inductive keeps_at :: "('s \<times> 's \<Rightarrow> bool) \<Rightarrow> ('s \<Rightarrow> bool) \<Rightarrow> ('s, 'r) act \<Rightarrow> bool"
  for M :: "'s \<times> 's \<Rightarrow> bool" and ok :: "'s \<Rightarrow> bool" where
  keeps_at_Ret: "keeps_at M ok (Ret r)"
| keeps_at_Access: "(\<And>s. M (s, fst (f s)) \<Longrightarrow> ok s \<Longrightarrow> ok (fst (f s)) \<and> keeps_at M ok (snd (f s))) \<Longrightarrow> keeps_at M ok (Access f)"
| keeps_at_Clock: "(\<And>n. keeps_at M ok (f n)) \<Longrightarrow> keeps_at M ok (Clock f)"

inductive_cases keeps_at_AccessE: "keeps_at M ok (Access f)"
inductive_cases keeps_at_ClockE: "keeps_at M ok (Clock f)"

lemma keeps_at_load: "(\<And>x. keeps_at M ok (k x)) \<Longrightarrow> keeps_at M ok (load sel k)"
  unfolding load_def by (rule keeps_at_Access) simp

lemma keeps_at_store: "(\<And>s. ok s \<Longrightarrow> ok (upd s)) \<Longrightarrow> keeps_at M ok k \<Longrightarrow> keeps_at M ok (store upd k)"
  unfolding store_def by (rule keeps_at_Access) simp

lemma advance_keeps_at:
  assumes "keeps_at M ok a" and "M (s, fst (advance now s a))" and "ok s"
  shows "ok (fst (advance now s a)) \<and> keeps_at M ok (snd (advance now s a))"
  using assms by (cases a) (auto elim: keeps_at_AccessE keeps_at_ClockE)

lemma alone_keeps_at:
  "keeps_at M ok a \<Longrightarrow> ok s \<Longrightarrow> \<forall>t\<in>set (alone_trace a c s). M t \<Longrightarrow>
   ok (snd (run_alone a c s)) \<and> (\<forall>t\<in>set (alone_trace a c s). ok (fst t))"
proof (induction arbitrary: s c rule: keeps_at.induct)
  case (keeps_at_Access f)
  have "M (s, fst (f s))" "\<forall>t\<in>set (alone_trace (snd (f s)) c (fst (f s))). M t"
    using keeps_at_Access.prems(2) unfolding alone_trace_Access by auto
  moreover have "ok (fst (f s))" using keeps_at_Access.IH [of s] keeps_at_Access.prems(1) calculation(1) by blast
  ultimately have "ok (snd (run_alone (snd (f s)) c (fst (f s)))) \<and> (\<forall>t\<in>set (alone_trace (snd (f s)) c (fst (f s))). ok (fst t))"
    using keeps_at_Access.IH [of s] keeps_at_Access.prems(1) by blast
  then show ?case unfolding alone_trace_Access run_alone_Access using keeps_at_Access.prems(1) by simp
qed simp_all

lemma finish_keeps_at:
  "\<forall>a\<in>set ops. keeps_at M ok a \<Longrightarrow> ok s \<Longrightarrow> \<forall>t\<in>set (finish_trace c ops s). M t \<Longrightarrow> \<forall>t\<in>set (finish_trace c ops s). ok (fst t)"
proof (induction ops arbitrary: s)
  case (Cons a ops)
  let ?s = "snd (run_alone a c s)"
  have tr: "\<forall>t\<in>set (alone_trace a c s). M t" "\<forall>t\<in>set (finish_trace c ops ?s). M t" using Cons.prems(3) by auto
  have a: "keeps_at M ok a" "\<forall>a\<in>set ops. keeps_at M ok a" using Cons.prems(1) by simp_all
  note alone = alone_keeps_at [OF a(1) Cons.prems(2) tr(1)]
  from Cons.IH [OF a(2) conjunct1 [OF alone] tr(2)] alone show ?case by (simp add: ball_Un)
qed simp

lemma sched_keeps_at:
  assumes "\<forall>a\<in>set ops. keeps_at M ok a" and "ok s"
    and "\<forall>t\<in>set (sched_trace (map (case_sum Run Tick) sched) (now, s, ops)). M t"
    and "sys_run (map (case_sum Run Tick) sched) (now, s, ops) = (now', s', rest)"
  shows "(\<forall>t\<in>set (sched_trace (map (case_sum Run Tick) sched) (now, s, ops)). ok (fst t)) \<and> ok s' \<and> (\<forall>a\<in>set rest. keeps_at M ok a)"
  using assms
proof (induction sched arbitrary: now s ops)
  case (Cons e sched)
  obtain now1 s1 ops1 where step: "sys_step (case_sum Run Tick e) (now, s, ops) = (now1, s1, ops1)"
    by (cases "sys_step (case_sum Run Tick e) (now, s, ops)") auto
  have "ok s1 \<and> (\<forall>a\<in>set ops1. keeps_at M ok a)"
  proof (cases "s1 = s \<and> ops1 = ops")
    case False
    then obtain j a where j: "e = Inl j" "j < length ops" "advance now s (ops ! j) = (s1, a)" "ops1 = ops[j := a]"
      using sys_step_run [OF step] by auto
    have "M (s, s1)" using Cons.prems(3) j step by simp
    moreover have "keeps_at M ok (ops ! j)" using Cons.prems(1) j(2) by simp
    ultimately have "ok s1 \<and> keeps_at M ok a" using advance_keeps_at [of M ok "ops ! j" s now] Cons.prems(2) j(3) by simp
    then show ?thesis using Cons.prems(1) j(4) set_update_subset_insert [of ops j a] by blast
  qed (use Cons.prems in simp)
  moreover have "\<forall>t\<in>set (sched_trace (map (case_sum Run Tick) sched) (now1, s1, ops1)). M t" using Cons.prems(3) step by simp
  moreover have "sys_run (map (case_sum Run Tick) sched) (now1, s1, ops1) = (now', s', rest)" using Cons.prems(4) step by simp
  ultimately have "(\<forall>t\<in>set (sched_trace (map (case_sum Run Tick) sched) (now1, s1, ops1)). ok (fst t)) \<and> ok s'
      \<and> (\<forall>a\<in>set rest. keeps_at M ok a)" using Cons.IH by blast
  moreover have "t \<in> set (sched_trace (map (case_sum Run Tick) (e # sched)) (now, s, ops)) \<Longrightarrow>
      fst t = s \<or> t \<in> set (sched_trace (map (case_sum Run Tick) sched) (now1, s1, ops1))" for t
    using step by (cases e) (auto simp del: sys_step.simps split: if_splits)
  ultimately show ?case using Cons.prems(2) by blast
qed simp

lemma join_keeps_at:
  assumes "\<forall>a\<in>set ops. keeps_at M ok a" and "ok s" and "\<forall>t\<in>set (join_trace sched now c ops s). M t"
  shows "\<forall>t\<in>set (join_trace sched now c ops s). ok (fst t)"
proof -
  obtain now1 s1 rest where r: "sys_run (map (case_sum Run Tick) sched) (now, s, ops) = (now1, s1, rest)"
    by (cases "sys_run (map (case_sum Run Tick) sched) (now, s, ops)") auto
  have tr: "\<forall>t\<in>set (sched_trace (map (case_sum Run Tick) sched) (now, s, ops)). M t" "\<forall>t\<in>set (finish_trace c rest s1). M t"
    using assms(3) by (auto simp: join_trace_def r Let_def)
  note run = sched_keeps_at [OF assms(1,2) tr(1) r]
  have "\<forall>t\<in>set (finish_trace c rest s1). ok (fst t)" using run tr(2) finish_keeps_at [of rest M ok s1 c] by blast
  then show ?thesis using run by (simp add: join_trace_def r Let_def ball_Un)
qed

subsection \<open>Operations that keep to their own part of the state\<close>

text \<open>
  \<open>view i\<close> is the part of the state that operation \<open>i\<close> reads and that no other operation writes; \<open>observed\<close> is
  what is observed of a result (\<open>p\<close>), with the clock at zero. An operation is confined to its view when
  its accesses leave the views of all others alone, depend on its own view only, and what it is observed to
  return does not depend on the clock.
\<close>

definition observed :: "('r \<Rightarrow> 'o) \<Rightarrow> ('s, 'r) act \<Rightarrow> 's \<Rightarrow> 'o" where
  "observed p a s = p (fst (run_alone a (\<lambda>n. 0) s))"

lemma observed_simps [simp]:
  "observed p (Ret r) s = p r" "observed p (Access f) s = observed p (snd (f s)) (fst (f s))" "observed p (Clock g) s = observed p (g 0) s"
  by (auto simp: observed_def map_prod_def split: prod.splits)

definition unclocked :: "('r \<Rightarrow> 'o) \<Rightarrow> (nat \<Rightarrow> ('s, 'r) act) \<Rightarrow> bool" where
  "unclocked p f \<longleftrightarrow> (\<forall>n m s. observed p (f n) s = observed p (f m) s)"

definition local_access :: "(nat \<Rightarrow> 's \<Rightarrow> 'v) \<Rightarrow> nat \<Rightarrow> ('s \<Rightarrow> 's \<times> 'a) \<Rightarrow> bool" where
  "local_access view i f \<longleftrightarrow>
     (\<forall>s j. j \<noteq> i \<longrightarrow> view j (fst (f s)) = view j s)
     \<and> (\<forall>s s'. view i s = view i s' \<longrightarrow> view i (fst (f s)) = view i (fst (f s')) \<and> snd (f s) = snd (f s'))"

lemma local_accessD:
  "local_access view i f \<Longrightarrow> j \<noteq> i \<Longrightarrow> view j (fst (f s)) = view j s"
  "local_access view i f \<Longrightarrow> view i s = view i s' \<Longrightarrow> view i (fst (f s)) = view i (fst (f s'))"
  "local_access view i f \<Longrightarrow> view i s = view i s' \<Longrightarrow> snd (f s) = snd (f s')"
  unfolding local_access_def by blast+

inductive confined :: "(nat \<Rightarrow> 's \<Rightarrow> 'v) \<Rightarrow> ('r \<Rightarrow> 'o) \<Rightarrow> nat \<Rightarrow> ('s, 'r) act \<Rightarrow> bool"
  for view :: "nat \<Rightarrow> 's \<Rightarrow> 'v" and p :: "'r \<Rightarrow> 'o" and i :: nat where
  confined_Ret: "confined view p i (Ret r)"
| confined_Access:
    "(\<And>s. confined view p i (snd (f s))) \<Longrightarrow> local_access view i f \<Longrightarrow> confined view p i (Access f)"
| confined_Clock:
    "(\<And>n. confined view p i (f n)) \<Longrightarrow> unclocked p f \<Longrightarrow> confined view p i (Clock f)"

inductive_cases confined_AccessE: "confined view p i (Access f)"
inductive_cases confined_ClockE: "confined view p i (Clock f)"

lemma confined_load:
  assumes "\<And>x. confined view p i (k x)" and "\<And>s s'. view i s = view i s' \<Longrightarrow> sel s = sel s'"
  shows "confined view p i (load sel k)"
  unfolding load_def
proof (rule confined_Access)
  show "local_access view i (\<lambda>s. (s, k (sel s)))" unfolding local_access_def using assms(2) by (metis fst_conv snd_conv)
qed (simp add: assms(1))

lemma confined_store:
  assumes "confined view p i k" and "\<And>s j. j \<noteq> i \<Longrightarrow> view j (upd s) = view j s"
    and "\<And>s s'. view i s = view i s' \<Longrightarrow> view i (upd s) = view i (upd s')"
  shows "confined view p i (store upd k)"
  unfolding store_def
proof (rule confined_Access)
  show "local_access view i (\<lambda>s. (upd s, k))" unfolding local_access_def using assms(2,3) by (metis fst_conv snd_conv)
qed (simp add: assms(1))

lemma observed_view: "confined view p i a \<Longrightarrow> view i s = view i s' \<Longrightarrow> observed p a s = observed p a s'"
proof (induction arbitrary: s s' rule: confined.induct)
  case (confined_Access f)
  have "view i (fst (f s)) = view i (fst (f s'))" "snd (f s) = snd (f s')"
    using local_accessD(2,3) [OF confined_Access.hyps(2) confined_Access.prems] .
  moreover have "observed p (snd (f s)) (fst (f s)) = observed p (snd (f s)) (fst (f s'))" using confined_Access.IH calculation(1) .
  ultimately show ?case by simp
next
  case (confined_Clock f)
  from confined_Clock.IH [OF confined_Clock.prems] show ?case by simp
qed simp

lemma observed_clock: "confined view p i a \<Longrightarrow> p (fst (run_alone a c s)) = observed p a s"
proof (induction arbitrary: c s rule: confined.induct)
  case (confined_Access f)
  from confined_Access.IH [of s c "fst (f s)"] show ?case by (simp only: run_alone_Access observed_simps)
next
  case (confined_Clock f)
  then have "observed p (f (c 0)) s = observed p (f 0) s" unfolding unclocked_def by blast
  then show ?case using confined_Clock.IH [of "c 0" "\<lambda>i. c (Suc i)" s] by simp
qed simp

lemma confined_final_view: "confined view p i a \<Longrightarrow> j \<noteq> i \<Longrightarrow> view j (snd (run_alone a c s)) = view j s"
proof (induction arbitrary: c s rule: confined.induct)
  case (confined_Access f)
  from confined_Access.IH [OF confined_Access.prems, of s c "fst (f s)"]
    local_accessD(1) [OF confined_Access.hyps(2) confined_Access.prems, of s]
  show ?case by (simp only: run_alone_Access)
next
  case (confined_Clock f)
  from confined_Clock.IH [OF confined_Clock.prems] show ?case by simp
qed simp

lemma confined_advance:
  assumes "confined view p i a" and "advance now s a = (s', a')"
  shows "confined view p i a' \<and> observed p a' s' = observed p a s \<and> (j \<noteq> i \<longrightarrow> view j s' = view j s)"
proof (cases a)
  case (Ret r)
  then show ?thesis using assms by simp
next
  case (Access f)
  then have "s' = fst (f s)" "a' = snd (f s)" using assms(2) by simp_all
  moreover have "confined view p i (snd (f s))" "local_access view i f" using assms(1) unfolding Access by (auto elim: confined_AccessE)
  ultimately show ?thesis using local_accessD(1) [of view i f j s] by (simp add: Access)
next
  case (Clock f)
  then have "s' = s" "a' = f now" using assms(2) by simp_all
  moreover have "confined view p i (f now)" "unclocked p f" using assms(1) unfolding Clock by (auto elim: confined_ClockE)
  moreover from this(2) have "observed p (f now) s = observed p (f 0) s" unfolding unclocked_def by blast
  ultimately show ?thesis by (simp add: Clock)
qed

definition all_confined :: "(nat \<Rightarrow> 's \<Rightarrow> 'v) \<Rightarrow> ('r \<Rightarrow> 'o) \<Rightarrow> nat \<Rightarrow> ('s, 'r) act list \<Rightarrow> bool" where
  "all_confined view p n ops \<longleftrightarrow> (\<forall>k<length ops. confined view p (n + k) (ops ! k))"

lemma sys_run_confined:
  assumes "all_confined view p n ops" and "sys_run (map (case_sum Run Tick) sched) (now, s, ops) = (now', s', rest)"
  shows "all_confined view p n rest \<and> map (\<lambda>a. observed p a s') rest = map (\<lambda>a. observed p a s) ops"
  using assms
proof (induction sched arbitrary: now s ops)
  case (Cons e sched)
  obtain now1 s1 ops1 where step: "sys_step (case_sum Run Tick e) (now, s, ops) = (now1, s1, ops1)"
    by (cases "sys_step (case_sum Run Tick e) (now, s, ops)") auto
  have "all_confined view p n ops1 \<and> map (\<lambda>a. observed p a s1) ops1 = map (\<lambda>a. observed p a s) ops"
  proof (cases "\<exists>i. e = Inl i \<and> i < length ops")
    case False
    then show ?thesis using step Cons.prems(1) by (cases e) auto
  next
    case True
    then obtain i a where i: "e = Inl i" "i < length ops" and a: "advance now s (ops ! i) = (s1, a)" "ops1 = ops[i := a]"
      using step by (auto split: prod.splits)
    have c: "confined view p (n + i) (ops ! i)" using Cons.prems(1) i(2) by (simp add: all_confined_def)
    note adv = confined_advance [OF c a(1)]
    have "confined view p (n + k) (ops1 ! k)" if "k < length ops" for k
      using adv Cons.prems(1) that a(2) by (cases "k = i") (simp_all add: all_confined_def)
    then have "all_confined view p n ops1" by (simp add: all_confined_def a(2))
    moreover have "observed p (ops1 ! k) s1 = observed p (ops ! k) s" if "k < length ops" for k
    proof (cases "k = i")
      case True
      then show ?thesis using adv a(2) i(2) by simp
    next
      case False
      have "view (n + k) s1 = view (n + k) s" using confined_advance [OF c a(1), of "n + k"] False by simp
      moreover have "confined view p (n + k) (ops ! k)" using Cons.prems(1) that by (simp add: all_confined_def)
      ultimately show ?thesis using observed_view [of view p "n + k" "ops ! k" s1 s] False a(2) by simp
    qed
    ultimately show ?thesis using a(2) by (auto intro!: nth_equalityI)
  qed
  then show ?case using Cons.IH [of ops1 now1 s1] Cons.prems(2) step by simp
qed simp

lemma finish_all_confined:
  "all_confined view p n ops \<Longrightarrow> map p (fst (finish_all c ops s)) = map (\<lambda>a. observed p a s) ops"
proof (induction ops arbitrary: n s)
  case (Cons a ops)
  have c: "confined view p n a" using Cons.prems by (force simp: all_confined_def)
  have rest: "all_confined view p (Suc n) ops"
    unfolding all_confined_def
  proof (intro allI impI)
    fix k assume "k < length ops"
    then show "confined view p (Suc n + k) (ops ! k)" using Cons.prems [unfolded all_confined_def, rule_format, of "Suc k"] by simp
  qed
  obtain r s1 where r: "run_alone a c s = (r, s1)" by fastforce
  have "observed p b s1 = observed p b s" if "b \<in> set ops" for b
  proof -
    obtain k where k: "k < length ops" "b = ops ! k" using \<open>b \<in> set ops\<close> by (auto simp: in_set_conv_nth)
    then have "confined view p (Suc n + k) b" using rest by (simp add: all_confined_def)
    moreover have "view (Suc n + k) s1 = view (Suc n + k) s" using confined_final_view [OF c, of "Suc n + k" c s] r by simp
    ultimately show ?thesis by (rule observed_view)
  qed
  then show ?case using Cons.IH [OF rest, of s1] observed_clock [OF c, of c s] r by (simp split: prod.split)
qed simp

theorem join_all_confined:
  assumes "all_confined view p n ops"
  shows "map p (fst (join_all sched now c ops s)) = map (\<lambda>a. observed p a s) ops"
proof -
  obtain now' s' rest where r: "sys_run (map (case_sum Run Tick) sched) (now, s, ops) = (now', s', rest)"
    by (cases "sys_run (map (case_sum Run Tick) sched) (now, s, ops)") auto
  have j: "join_all sched now c ops s = finish_all c rest s'" by (simp add: join_all_def r)
  note * = sys_run_confined [OF assms r]
  show ?thesis unfolding j finish_all_confined [OF conjunct1 [OF *]] by (rule conjunct2 [OF *])
qed

end
