(* ===== verification/F64.thy ===== *)
theory F64
  imports Complex_Main
begin

text \<open>
  The part of IEEE 754 double precision that rates need: a value is a rational, an infinity or not a
  number; comparison; and the quotient of two counters, rounded to nearest with ties to even at 53
  bits of precision. The counters are below \<open>2^53\<close>, so their conversion to \<open>f64\<close> is exact, and the
  numerator is at most the denominator, so no result is subnormal or overflows.
\<close>

datatype f64 = Finite rat | PosInf | NegInf | NaN

fun f64_ge :: "f64 \<Rightarrow> f64 \<Rightarrow> bool" where
  "f64_ge NaN y = False"
| "f64_ge x NaN = False"
| "f64_ge (Finite a) (Finite b) = (b \<le> a)"
| "f64_ge PosInf y = True"
| "f64_ge x NegInf = True"
| "f64_ge x y = False"

text \<open>How often the numerator is doubled until it reaches the denominator.\<close>

function doublings :: "nat \<Rightarrow> nat \<Rightarrow> nat" where
  "doublings a b = (if a = 0 \<or> b \<le> a then 0 else Suc (doublings (2 * a) b))"
  by auto
termination
  by (relation "measure (\<lambda>(a, b). b - a)") auto

declare doublings.simps [simp del]

definition round_quotient :: "nat \<Rightarrow> nat \<Rightarrow> nat" where
  "round_quotient n d = (let q = n div d; r = n mod d
     in if d < 2 * r \<or> (2 * r = d \<and> odd q) then q + 1 else q)"

definition f64_ratio :: "nat \<Rightarrow> nat \<Rightarrow> rat" where
  "f64_ratio a b = (if a = 0 then 0
     else of_nat (round_quotient (a * 2 ^ (52 + doublings a b)) b) / 2 ^ (52 + doublings a b))"

lemma doublings_reach: "0 < a \<Longrightarrow> b \<le> a * 2 ^ doublings a b"
proof (induction a b rule: doublings.induct)
  case (1 a b)
  show ?case using 1 by (subst doublings.simps) (auto simp: mult.assoc mult.left_commute)
qed

lemma doublings_least: "doublings a b = Suc k \<Longrightarrow> a * 2 ^ k < b"
proof (induction a b arbitrary: k rule: doublings.induct)
  case (1 a b)
  then have c: "\<not> (a = 0 \<or> b \<le> a)" and d: "doublings (2 * a) b = k"
    by (auto simp: doublings.simps [of a b] split: if_splits)
  show ?case
  proof (cases k)
    case 0
    with c show ?thesis by simp
  next
    case (Suc j)
    from "1.IH" [OF c, of j] d Suc show ?thesis by (simp add: mult.assoc mult.left_commute)
  qed
qed

lemma round_quotient_lower: "q \<le> n div d \<Longrightarrow> q \<le> round_quotient n d"
  by (simp add: round_quotient_def Let_def)

lemma round_quotient_upper: "0 < d \<Longrightarrow> round_quotient n d = Suc q \<Longrightarrow> (2 * q + 1) * d \<le> 2 * n"
proof -
  assume d: "0 < d" and r: "round_quotient n d = Suc q"
  have n: "n = d * (n div d) + n mod d" by simp
  consider "n div d = q" "d \<le> 2 * (n mod d)" | "n div d = Suc q"
    using r by (auto simp: round_quotient_def Let_def split: if_splits)
  then show ?thesis
  proof cases
    case 1
    have "2 * n = 2 * (d * q) + 2 * (n mod d)" using n 1(1) by (metis add_mult_distrib2)
    with 1(2) show ?thesis by (simp add: algebra_simps)
  next
    case 2
    then have "d * Suc q \<le> n" by (metis n le_add1)
    then show ?thesis using d by (simp add: algebra_simps)
  qed
qed

lemma round_quotient_less: "0 < d \<Longrightarrow> n < d * m \<Longrightarrow> round_quotient n d \<le> m"
proof -
  assume "0 < d" and "n < d * m"
  then have "n div d < m" by (simp add: less_mult_imp_div_less mult.commute)
  then show ?thesis by (simp add: round_quotient_def Let_def)
qed

lemma rounding_gap:
  fixes q b a m :: nat
  assumes "(2 * q + 1) * b \<le> 4 * (a * m)" and "m \<le> Suc q" and "2 * a + 1 \<le> b"
  shows "2 * m \<le> b"
proof -
  have "2 * (m * b) \<le> 2 * (Suc q * b)" using mult_le_mono1 [OF assms(2), of b] by simp
  also have "\<dots> = (2 * q + 1) * b + b" by (simp add: algebra_simps)
  also have "\<dots> \<le> 4 * (a * m) + b" using assms(1) by simp
  finally have "2 * (m * b) \<le> 4 * (a * m) + b" .
  moreover have "4 * (a * m) + 2 * m \<le> 2 * (m * b)"
    using mult_le_mono2 [OF assms(3), of "2 * m"] by (simp add: algebra_simps)
  ultimately show ?thesis by linarith
qed

text \<open>Rounding does not blur one half: the rounded rate is below it exactly when the true one is.\<close>

lemma f64_ratio_ge_half:
  assumes b: "0 < b" "b < 2 ^ 53" and a: "a \<le> b"
  shows "1 / 2 \<le> f64_ratio a b \<longleftrightarrow> b \<le> 2 * a"
proof (cases "a = 0")
  case False
  define k where "k = doublings a b"
  define q where "q = round_quotient (a * 2 ^ (52 + k)) b"
  have rat: "f64_ratio a b = of_nat q / 2 ^ (52 + k)" using False by (simp add: f64_ratio_def k_def q_def)
  have half: "1 / 2 \<le> f64_ratio a b \<longleftrightarrow> 2 ^ (51 + k) \<le> q"
  proof -
    have "1 / 2 \<le> f64_ratio a b \<longleftrightarrow> (2::rat) ^ (51 + k) \<le> of_nat q"
      by (simp add: rat field_simps power_add)
    also have "\<dots> \<longleftrightarrow> 2 ^ (51 + k) \<le> q" by (metis of_nat_le_iff of_nat_numeral of_nat_power)
    finally show ?thesis .
  qed
  show ?thesis
  proof
    assume ge: "b \<le> 2 * a"
    have "k \<le> 1"
    proof (rule ccontr)
      assume "\<not> k \<le> 1"
      then obtain j where "k = Suc (Suc j)" by (cases k) (auto simp: not_le gr0_conv_Suc)
      then have "a * 2 * 2 ^ j < b" using doublings_least [of a b "Suc j"] by (simp add: k_def mult.assoc)
      moreover have "a * 2 * 1 \<le> a * 2 * 2 ^ j" by (intro mult_le_mono2) simp
      ultimately show False using ge by linarith
    qed
    have "2 ^ 52 * b \<le> a * 2 ^ (52 + k)"
      using doublings_reach [of a b] False by (simp add: k_def power_add mult.left_commute)
    then have "2 ^ 52 \<le> (a * 2 ^ (52 + k)) div b" using b by (simp add: less_eq_div_iff_mult_less_eq)
    then have "2 ^ 52 \<le> q" by (simp add: q_def round_quotient_lower)
    moreover have "(2::nat) ^ (51 + k) \<le> 2 ^ 52" using \<open>k \<le> 1\<close> by (intro power_increasing) auto
    ultimately show "1 / 2 \<le> f64_ratio a b" using half by linarith
  next
    assume h: "1 / 2 \<le> f64_ratio a b"
    show "b \<le> 2 * a"
    proof (rule ccontr)
      assume "\<not> b \<le> 2 * a"
      then have lt: "2 * a + 1 \<le> b" by simp
      define m where "m = (2::nat) ^ (51 + k)"
      have "0 < m" by (simp add: m_def)
      moreover have "m \<le> q" using h half by (simp add: m_def)
      ultimately obtain q' where q': "q = Suc q'" by (cases q) auto
      have "(2 * q' + 1) * b \<le> 2 * (a * 2 ^ (52 + k))"
        using round_quotient_upper [of b "a * 2 ^ (52 + k)" q'] b q' by (simp only: q_def)
      moreover have "2 * (a * 2 ^ (52 + k)) = 4 * (a * m)" by (simp add: m_def power_add)
      ultimately have "2 * m \<le> b" using rounding_gap [of q' b a m] \<open>m \<le> q\<close> q' lt by simp
      moreover have "k \<noteq> 0" using lt False doublings.simps [of a b] by (simp add: k_def)
      then have "(2::nat) ^ 52 \<le> m" unfolding m_def by (intro power_increasing) auto
      ultimately show False using b by simp
    qed
  qed
qed (use b in \<open>simp add: f64_ratio_def\<close>)

lemma f64_ratio_zero [simp]: "f64_ratio 0 b = 0"
  by (simp add: f64_ratio_def)

lemma f64_ratio_nonneg: "0 \<le> f64_ratio a b"
  by (simp add: f64_ratio_def)

end
