(* ===== verification/Circuit_Breaker.thy ===== *)
theory Circuit_Breaker
  imports Rust_Prelude Resumption F64
begin

text \<open>
  The shared HTTP circuit breaker (\<open>crates/common/xai-circuit-breaker\<close>): the sliding window of
  samples, the configuration and its environment lookup, the breaker with every atomic access of its
  operations in the order of the code, the registry and the retry policy.

  Instants are nanoseconds after the earliest instant the platform can represent, durations
  nanoseconds. Counters of type \<open>usize\<close> wrap at 64 bits. A section under the window mutex is one
  access, because it touches nothing but the window. Calls of the observer are kept in a log.
\<close>

subsection \<open>States and outcomes (state.rs)\<close>

datatype BreakerState = Closed | Open | HalfOpen

fun as_u8 :: "BreakerState \<Rightarrow> nat" where
  "as_u8 Closed = 0" | "as_u8 Open = 1" | "as_u8 HalfOpen = 2"

definition from_u8 :: "nat \<Rightarrow> BreakerState" where
  "from_u8 v = (if v = 0 then Closed else if v = 1 then Open else if v = 2 then HalfOpen else Closed)"

datatype Outcome = Success | Failure

subsection \<open>The sliding window (window.rs)\<close>

definition usize_inc :: "nat \<Rightarrow> nat" where
  "usize_inc n = (if n = u64_max then 0 else n + 1)"

definition usize_dec :: "nat \<Rightarrow> nat" where
  "usize_dec n = (if n = 0 then u64_max else n - 1)"

definition MAX_WINDOW_ENTRIES :: nat where "MAX_WINDOW_ENTRIES = 10000"

record SlidingWindow =
  sw_entries :: "(nat \<times> bool) list"
  sw_failures :: nat

definition sw_new :: SlidingWindow where
  "sw_new = \<lparr>sw_entries = [], sw_failures = 0\<rparr>"

definition sw_push :: "bool \<Rightarrow> nat \<Rightarrow> SlidingWindow \<Rightarrow> SlidingWindow" where
  "sw_push is_failure inst w =
     (let w = (if MAX_WINDOW_ENTRIES \<le> length (sw_entries w)
               then (case sw_entries w of [] \<Rightarrow> w
                     | (_, was_failure) # es \<Rightarrow>
                         w\<lparr>sw_entries := es,
                           sw_failures := if was_failure then usize_dec (sw_failures w) else sw_failures w\<rparr>)
               else w)
      in w\<lparr>sw_entries := sw_entries w @ [(inst, is_failure)],
           sw_failures := if is_failure then usize_inc (sw_failures w) else sw_failures w\<rparr>)"

fun evict_front :: "nat \<Rightarrow> (nat \<times> bool) list \<Rightarrow> nat \<Rightarrow> (nat \<times> bool) list \<times> nat" where
  "evict_front cutoff [] failures = ([], failures)"
| "evict_front cutoff ((ts, was_failure) # es) failures =
     (if ts < cutoff then evict_front cutoff es (if was_failure then usize_dec failures else failures)
      else ((ts, was_failure) # es, failures))"

definition sw_evict :: "nat \<Rightarrow> nat \<Rightarrow> SlidingWindow \<Rightarrow> SlidingWindow" where
  "sw_evict window now w =
     (if now < window then w
      else case evict_front (now - window) (sw_entries w) (sw_failures w) of
        (es, failures) \<Rightarrow> w\<lparr>sw_entries := es, sw_failures := failures\<rparr>)"

definition sw_error_rate :: "SlidingWindow \<Rightarrow> f64" where
  "sw_error_rate w = (if sw_entries w = [] then Finite 0
     else Finite (f64_ratio (sw_failures w) (length (sw_entries w))))"

definition sw_sample_count :: "SlidingWindow \<Rightarrow> nat" where
  "sw_sample_count w = length (sw_entries w)"

definition sw_clear :: "SlidingWindow \<Rightarrow> SlidingWindow" where
  "sw_clear w = w\<lparr>sw_entries := [], sw_failures := 0\<rparr>"

subsection \<open>Configuration (config.rs)\<close>

record BreakerConfig =
  bc_window_duration :: nat
  bc_min_samples :: nat
  bc_error_rate_threshold :: f64
  bc_open_duration :: nat
  bc_half_open_max_probes :: nat
  bc_failure_codes :: "nat set"
  bc_enabled :: bool

definition from_secs :: "nat \<Rightarrow> nat" where "from_secs n = n * 1000000000"
definition from_millis :: "nat \<Rightarrow> nat" where "from_millis n = n * 1000000"

definition default_failure_codes :: "nat set" where
  "default_failure_codes = {429, 500, 502, 503, 504}"

definition config_server :: BreakerConfig where
  "config_server = \<lparr>bc_window_duration = from_secs 60, bc_min_samples = 10,
     bc_error_rate_threshold = Finite (1 / 2), bc_open_duration = from_secs 10,
     bc_half_open_max_probes = 1, bc_failure_codes = default_failure_codes, bc_enabled = True\<rparr>"

definition config_client :: BreakerConfig where
  "config_client = \<lparr>bc_window_duration = from_secs 60, bc_min_samples = 5,
     bc_error_rate_threshold = Finite (1 / 2), bc_open_duration = from_secs 60,
     bc_half_open_max_probes = 1, bc_failure_codes = {401}, bc_enabled = True\<rparr>"

definition u16_max :: nat where "u16_max = 65535"

definition parse_failure_codes :: "string \<Rightarrow> nat set" where
  "parse_failure_codes s = set (List.map_filter (\<lambda>c. parse_uint u16_max (trim c)) (split_on (CHR '','') s))"

definition parse_bool :: "string \<Rightarrow> bool option" where
  "parse_bool s = (if s = ''true'' then Some True else if s = ''false'' then Some False else None)"

definition lookup_or :: "(string \<Rightarrow> 'a option) \<Rightarrow> (string \<Rightarrow> string option) \<Rightarrow> string \<Rightarrow> 'a \<Rightarrow> 'a" where
  "lookup_or parse get key dflt =
     (case get key of Some v \<Rightarrow> (case parse v of Some x \<Rightarrow> x | None \<Rightarrow> dflt) | None \<Rightarrow> dflt)"

text \<open>\<open>parse_f64\<close> is \<open>f64::from_str\<close>.\<close>

definition from_lookup_with_prefix ::
    "(string \<Rightarrow> f64 option) \<Rightarrow> string \<Rightarrow> (string \<Rightarrow> string option) \<Rightarrow> BreakerConfig" where
  "from_lookup_with_prefix parse_f64 prefix get =
     (let key = (\<lambda>k. prefix @ k);
          failure_codes = (case get (key ''FAILURE_CODES'') of
              Some raw \<Rightarrow> let codes = parse_failure_codes raw
                          in if codes = {} then default_failure_codes else codes
            | None \<Rightarrow> default_failure_codes)
      in \<lparr>bc_window_duration = from_secs (lookup_or (parse_uint u64_max) get (key ''WINDOW_SECS'') 60),
          bc_min_samples = lookup_or (parse_uint u64_max) get (key ''MIN_SAMPLES'') 10,
          bc_error_rate_threshold = lookup_or parse_f64 get (key ''ERROR_RATE_THRESHOLD'') (Finite (1 / 2)),
          bc_open_duration = from_secs (lookup_or (parse_uint u64_max) get (key ''OPEN_DURATION_SECS'') 10),
          bc_half_open_max_probes = max (lookup_or (parse_uint u64_max) get (key ''HALF_OPEN_MAX_PROBES'') 1) 1,
          bc_failure_codes = failure_codes,
          bc_enabled = lookup_or parse_bool get (key ''ENABLED'') True\<rparr>)"

definition is_failure_status :: "BreakerConfig \<Rightarrow> nat \<Rightarrow> bool" where
  "is_failure_status cfg status \<longleftrightarrow> status \<in> bc_failure_codes cfg"

subsection \<open>The breaker (breaker.rs)\<close>

text \<open>The immutable fields of \<open>CircuitBreakerInner\<close>, and its atomics with the window and the log.\<close>

datatype observed = StateChange BreakerState BreakerState string | ProbeAdmission bool | OutcomeSeen Outcome BreakerState

record CircuitBreaker =
  cb_config :: BreakerConfig
  cb_baseline :: nat

record Cells =
  c_state :: nat
  c_opened_at_millis :: nat
  c_half_open_probes :: nat
  c_probe_claimed_at_millis :: nat
  c_is_open_fast :: bool
  c_window :: SlidingWindow
  c_observed :: "observed list"

datatype answer = Admitted | BreakerOpen nat | Recorded | Rate f64 | Flag bool

type_synonym op = "(Cells, answer) act"

definition with_clock :: "BreakerConfig \<Rightarrow> nat \<Rightarrow> CircuitBreaker \<times> Cells" where
  "with_clock config now =
     (\<lparr>cb_config = config\<lparr>bc_half_open_max_probes := max (bc_half_open_max_probes config) 1\<rparr>, cb_baseline = now\<rparr>,
      \<lparr>c_state = as_u8 Closed, c_opened_at_millis = 0, c_half_open_probes = 0, c_probe_claimed_at_millis = 0,
       c_is_open_fast = False, c_window = sw_new, c_observed = []\<rparr>)"

definition observe_call :: "observed \<Rightarrow> op \<Rightarrow> op" where
  "observe_call e k = store (\<lambda>c. c\<lparr>c_observed := c_observed c @ [e]\<rparr>) k"

text \<open>Milliseconds since construction; \<open>as u64\<close> keeps the low 64 bits.\<close>

definition elapsed_millis :: "CircuitBreaker \<Rightarrow> nat \<Rightarrow> nat" where
  "elapsed_millis cb now = ((now - cb_baseline cb) div 1000000) mod 2 ^ 64"

definition lease_millis :: "CircuitBreaker \<Rightarrow> nat" where
  "lease_millis cb = (bc_open_duration (cb_config cb) div 1000000) mod 2 ^ 64"

definition state :: "(BreakerState \<Rightarrow> op) \<Rightarrow> op" where
  "state k = load c_state (\<lambda>v. k (from_u8 v))"

definition trip :: "CircuitBreaker \<Rightarrow> BreakerState \<Rightarrow> string \<Rightarrow> op \<Rightarrow> op" where
  "trip cb prev reason k =
     store (\<lambda>c. c\<lparr>c_state := as_u8 Open\<rparr>)
     (Clock (\<lambda>now.
      store (\<lambda>c. c\<lparr>c_opened_at_millis := elapsed_millis cb now\<rparr>)
     (store (\<lambda>c. c\<lparr>c_half_open_probes := 0\<rparr>)
     (store (\<lambda>c. c\<lparr>c_is_open_fast := True\<rparr>)
     (if prev \<noteq> Open then observe_call (StateChange prev Open reason) k else k)))))"

definition close :: "BreakerState \<Rightarrow> string \<Rightarrow> op \<Rightarrow> op" where
  "close prev reason k =
     store (\<lambda>c. c\<lparr>c_state := as_u8 Closed\<rparr>)
     (store (\<lambda>c. c\<lparr>c_window := sw_clear (c_window c)\<rparr>)
     (store (\<lambda>c. c\<lparr>c_half_open_probes := 0\<rparr>)
     (store (\<lambda>c. c\<lparr>c_is_open_fast := False\<rparr>)
     (if prev \<noteq> Closed then observe_call (StateChange prev Closed reason) k else k))))"

definition HALF_OPEN_PROBE_BACKOFF :: nat where "HALF_OPEN_PROBE_BACKOFF = from_millis 50"

definition try_half_open_probe :: "CircuitBreaker \<Rightarrow> op" where
  "try_half_open_probe cb =
     Clock (\<lambda>t. let now = elapsed_millis cb t;
                    rejected = observe_call (ProbeAdmission False)
                      (Ret (BreakerOpen (min HALF_OPEN_PROBE_BACKOFF (bc_open_duration (cb_config cb)))))
       in rmw c_half_open_probes (\<lambda>c. c\<lparr>c_half_open_probes := usize_inc (c_half_open_probes c)\<rparr>) (\<lambda>prev.
          if prev < bc_half_open_max_probes (cb_config cb)
          then store (\<lambda>c. c\<lparr>c_probe_claimed_at_millis := now\<rparr>)
               (observe_call (ProbeAdmission True) (Ret Admitted))
          else store (\<lambda>c. c\<lparr>c_half_open_probes := usize_dec (c_half_open_probes c)\<rparr>)
               (load c_probe_claimed_at_millis (\<lambda>claimed.
                if lease_millis cb \<le> now - claimed
                then rmw c_probe_claimed_at_millis
                       (\<lambda>c. if c_probe_claimed_at_millis c = claimed then c\<lparr>c_probe_claimed_at_millis := now\<rparr> else c)
                       (\<lambda>found. if found = claimed
                                then observe_call (ProbeAdmission True) (Ret Admitted) else rejected)
                else rejected))))"

definition cas_state :: "BreakerState \<Rightarrow> BreakerState \<Rightarrow> (bool \<Rightarrow> op) \<Rightarrow> op" where
  "cas_state old new k =
     rmw c_state (\<lambda>c. if c_state c = as_u8 old then c\<lparr>c_state := as_u8 new\<rparr> else c) (\<lambda>v. k (v = as_u8 old))"

definition check_open :: "CircuitBreaker \<Rightarrow> op" where
  "check_open cb =
     load c_opened_at_millis (\<lambda>opened. Clock (\<lambda>t.
       let elapsed = from_millis (elapsed_millis cb t - opened);
           open_duration = bc_open_duration (cb_config cb)
       in if open_duration \<le> elapsed
          then cas_state Open HalfOpen (\<lambda>won.
            if won
            then store (\<lambda>c. c\<lparr>c_is_open_fast := False\<rparr>)
                 (observe_call (StateChange Open HalfOpen ''open_elapsed'') (try_half_open_probe cb))
            else state (\<lambda>st. case st of
                Closed \<Rightarrow> Ret Admitted
              | HalfOpen \<Rightarrow> try_half_open_probe cb
              | Open \<Rightarrow> load c_opened_at_millis (\<lambda>opened. Clock (\<lambda>t.
                  Ret (BreakerOpen (open_duration - from_millis (elapsed_millis cb t - opened)))))))
          else Ret (BreakerOpen (open_duration - elapsed))))"

definition check :: "CircuitBreaker \<Rightarrow> op" where
  "check cb =
     (if \<not> bc_enabled (cb_config cb) then Ret Admitted
      else state (\<lambda>st. case st of
          Closed \<Rightarrow> Ret Admitted
        | Open \<Rightarrow> check_open cb
        | HalfOpen \<Rightarrow> try_half_open_probe cb))"

definition push_and_evict :: "CircuitBreaker \<Rightarrow> bool \<Rightarrow> nat \<Rightarrow> Cells \<Rightarrow> Cells" where
  "push_and_evict cb is_failure now c =
     c\<lparr>c_window := sw_evict (bc_window_duration (cb_config cb)) now (sw_push is_failure now (c_window c))\<rparr>"

definition should_trip :: "CircuitBreaker \<Rightarrow> SlidingWindow \<Rightarrow> bool" where
  "should_trip cb w \<longleftrightarrow> bc_min_samples (cb_config cb) \<le> sw_sample_count w
     \<and> f64_ge (sw_error_rate w) (bc_error_rate_threshold (cb_config cb))"

definition record_outcome :: "CircuitBreaker \<Rightarrow> Outcome \<Rightarrow> op" where
  "record_outcome cb outcome =
     (if \<not> bc_enabled (cb_config cb) then Ret Recorded
      else let is_failure = (outcome = Failure);
               finish = state (\<lambda>new_state. observe_call (OutcomeSeen outcome new_state) (Ret Recorded))
      in Clock (\<lambda>now. state (\<lambda>prev_state. case prev_state of
           Closed \<Rightarrow> Access (\<lambda>c. let c = push_and_evict cb is_failure now c
             in (c, if should_trip cb (c_window c) then trip cb prev_state ''trip'' finish else finish))
         | HalfOpen \<Rightarrow> if is_failure then trip cb prev_state ''probe_failure'' finish
                        else close prev_state ''probe_success'' finish
         | Open \<Rightarrow> store (push_and_evict cb is_failure now) finish)))"

definition is_open :: op where
  "is_open = load c_is_open_fast (\<lambda>b. Ret (Flag b))"

definition error_rate :: "CircuitBreaker \<Rightarrow> op" where
  "error_rate cb = Clock (\<lambda>now. Access (\<lambda>c.
     let w = sw_evict (bc_window_duration (cb_config cb)) now (c_window c)
     in (c\<lparr>c_window := w\<rparr>, Ret (Rate (sw_error_rate w)))))"

definition force_half_open :: op where
  "force_half_open = state (\<lambda>prev.
     store (\<lambda>c. c\<lparr>c_state := as_u8 HalfOpen\<rparr>)
     (store (\<lambda>c. c\<lparr>c_is_open_fast := False\<rparr>)
     (store (\<lambda>c. c\<lparr>c_half_open_probes := 0\<rparr>)
     (if prev \<noteq> HalfOpen then observe_call (StateChange prev HalfOpen ''force_half_open'') (Ret Recorded)
      else Ret Recorded))))"

subsection \<open>The registry (registry.rs)\<close>

text \<open>
  Breakers are shared by reference: the registry maps a key to an address, and the breakers are a list
  indexed by address.
\<close>

record CircuitBreakerRegistry =
  reg_config :: BreakerConfig
  reg_breakers :: "string \<Rightarrow> nat option"
  reg_heap :: "(CircuitBreaker \<times> Cells) list"

definition registry_new :: "BreakerConfig \<Rightarrow> CircuitBreakerRegistry" where
  "registry_new config = \<lparr>reg_config = config, reg_breakers = Map.empty, reg_heap = []\<rparr>"

definition registry_get :: "string \<Rightarrow> nat \<Rightarrow> CircuitBreakerRegistry \<Rightarrow> nat option \<times> CircuitBreakerRegistry" where
  "registry_get key now reg =
     (if \<not> bc_enabled (reg_config reg) then (None, reg)
      else case reg_breakers reg key of
        Some cb \<Rightarrow> (Some cb, reg)
      | None \<Rightarrow> (let cb = length (reg_heap reg)
                 in (Some cb, reg\<lparr>reg_breakers := (reg_breakers reg)(key \<mapsto> cb),
                                  reg_heap := reg_heap reg @ [with_clock (reg_config reg) now]\<rparr>)))"

subsection \<open>The retry policy (retry_policy.rs)\<close>

datatype Disposition = Retryable | AuthRefresh | Terminal

record RetryPolicy =
  rp_retryable :: "nat list"
  rp_auth_refresh :: "nat list"
  rp_terminal :: "nat list"
  rp_default :: Disposition

definition classify :: "RetryPolicy \<Rightarrow> nat \<Rightarrow> Disposition option" where
  "classify p status =
     (if 200 \<le> status \<and> status < 300 then None
      else if status \<in> set (rp_auth_refresh p) then Some AuthRefresh
      else if status \<in> set (rp_terminal p) then Some Terminal
      else if status \<in> set (rp_retryable p) \<or> (500 \<le> status \<and> status < 600) then Some Retryable
      else Some (rp_default p))"

definition should_retry :: "RetryPolicy \<Rightarrow> nat \<Rightarrow> bool" where
  "should_retry p status \<longleftrightarrow> classify p status = Some Retryable"

definition policy_server :: RetryPolicy where
  "policy_server = \<lparr>rp_retryable = [429], rp_auth_refresh = [], rp_terminal = [], rp_default = Terminal\<rparr>"

definition client_storage :: RetryPolicy where
  "client_storage = \<lparr>rp_retryable = [], rp_auth_refresh = [401], rp_terminal = [400, 403, 404], rp_default = Retryable\<rparr>"

end
