(* ===== verification/Breaker_Correct.thy ===== *)
theory Breaker_Correct
  imports Circuit_Breaker
begin

text \<open>
  Correctness of the circuit breaker. The invariant of its cells holds in every interleaving of its
  operations, through the locale \<open>atomic_ops\<close>. Used by one caller at a time it refines a small state
  machine (\<open>spec_check\<close>, \<open>spec_record\<close>), recovers after every cool-down, and trips at the rate its
  presets state. Two interleavings show where concurrent callers break the probe accounting.
\<close>

subsection \<open>The window counts its failures\<close>

definition window_ok :: "SlidingWindow \<Rightarrow> bool" where
  "window_ok w \<longleftrightarrow> sw_failures w = length (filter snd (sw_entries w)) \<and> length (sw_entries w) \<le> MAX_WINDOW_ENTRIES"

lemma usize_dec_Suc [simp]: "usize_dec (Suc n) = n"
  by (simp add: usize_dec_def)

lemma usize_inc_small [simp]: "n \<noteq> u64_max \<Longrightarrow> usize_inc n = Suc n"
  by (simp add: usize_inc_def)

lemma usize_dec_inc [simp]: "n \<le> u64_max \<Longrightarrow> usize_dec (usize_inc n) = n"
  by (simp add: usize_dec_def usize_inc_def)

lemma window_small: "window_ok w \<Longrightarrow> sw_failures w \<le> 10000"
  by (auto simp: window_ok_def MAX_WINDOW_ENTRIES_def intro: order.trans [OF length_filter_le])

lemma failures_le_entries: "window_ok w \<Longrightarrow> sw_failures w \<le> sw_sample_count w"
  by (simp add: window_ok_def sw_sample_count_def)

lemma evict_front_eq:
  "failures = length (filter snd es) \<Longrightarrow>
   evict_front cutoff es failures =
     (dropWhile (\<lambda>e. fst e < cutoff) es, length (filter snd (dropWhile (\<lambda>e. fst e < cutoff) es)))"
  by (induction cutoff es failures rule: evict_front.induct) auto

lemma sw_new_ok [simp]: "window_ok sw_new"
  by (simp add: window_ok_def sw_new_def)

lemma sw_clear_ok [simp]: "window_ok (sw_clear w)"
  by (simp add: window_ok_def sw_clear_def)

lemma entries_push:
  "sw_entries (sw_push f t w) =
     (if MAX_WINDOW_ENTRIES \<le> length (sw_entries w) then tl (sw_entries w) else sw_entries w) @ [(t, f)]"
  by (auto simp: sw_push_def Let_def MAX_WINDOW_ENTRIES_def split: list.split)

lemma sw_push_ok: "window_ok w \<Longrightarrow> window_ok (sw_push f t w)"
proof -
  assume w: "window_ok w"
  have small: "length (filter snd xs) \<noteq> u64_max" if "length xs \<le> 10000" for xs :: "(nat \<times> bool) list"
  proof -
    have "length (filter snd xs) \<le> 10000" using length_filter_le that by (rule order.trans)
    then show ?thesis by (simp add: u64_max_def)
  qed
  show ?thesis
  proof (cases "sw_entries w")
    case Nil
    with w small [of "[]"] show ?thesis by (auto simp: window_ok_def sw_push_def Let_def MAX_WINDOW_ENTRIES_def)
  next
    case (Cons e es)
    obtain a b where e: "e = (a, b)" by (cases e)
    have len: "length es < 10000" and fl: "sw_failures w = length (filter snd (e # es))"
      using w Cons by (auto simp: window_ok_def MAX_WINDOW_ENTRIES_def)
    from len small [of es] small [of "e # es"] show ?thesis
      unfolding window_ok_def sw_push_def Let_def MAX_WINDOW_ENTRIES_def Cons e prod.case list.case
      using fl by (cases b; cases f) (auto simp: e Cons)
  qed
qed

lemma sw_evict_eq:
  "window_ok w \<Longrightarrow> sw_entries (sw_evict d now w) =
     (if now < d then sw_entries w else dropWhile (\<lambda>e. fst e < now - d) (sw_entries w))"
  by (simp add: sw_evict_def window_ok_def evict_front_eq)

lemma sw_evict_ok: "window_ok w \<Longrightarrow> window_ok (sw_evict d now w)"
  by (auto simp: sw_evict_def window_ok_def evict_front_eq intro: order.trans [OF length_dropWhile_le])

subsection \<open>Every interleaving keeps the cells well formed\<close>

definition cells_ok :: "Cells \<Rightarrow> bool" where
  "cells_ok c \<longleftrightarrow> c_state c \<in> {as_u8 Closed, as_u8 Open, as_u8 HalfOpen} \<and> window_ok (c_window c)"

definition breaker_op :: "op \<Rightarrow> bool" where
  "breaker_op a \<longleftrightarrow> (\<exists>cb. a = check cb \<or> (\<exists>out. a = record_outcome cb out) \<or> a = error_rate cb)
     \<or> a = is_open \<or> a = force_half_open"

lemma push_and_evict_ok: "cells_ok c \<Longrightarrow> cells_ok (push_and_evict cb f now c)"
  by (simp add: cells_ok_def push_and_evict_def sw_push_ok sw_evict_ok)

lemma keeps_observe: "keeps cells_ok k \<Longrightarrow> keeps cells_ok (observe_call e k)"
  by (auto simp: observe_call_def cells_ok_def intro!: keeps_intros)

lemma keeps_state: "(\<And>st. keeps cells_ok (k st)) \<Longrightarrow> keeps cells_ok (state k)"
  by (auto simp: state_def intro!: keeps_intros)

lemmas breaker_keeps = keeps_intros keeps_observe keeps_state

lemma keeps_trip: "keeps cells_ok k \<Longrightarrow> keeps cells_ok (trip cb prev reason k)"
  by (auto simp: trip_def cells_ok_def intro!: breaker_keeps)

lemma keeps_close: "keeps cells_ok k \<Longrightarrow> keeps cells_ok (close prev reason k)"
  by (auto simp: close_def cells_ok_def intro!: breaker_keeps)

lemma keeps_probe: "keeps cells_ok (try_half_open_probe cb)"
  by (auto simp: try_half_open_probe_def cells_ok_def Let_def intro!: breaker_keeps)

lemma keeps_check_open: "keeps cells_ok (check_open cb)"
  by (auto simp: check_open_def cas_state_def cells_ok_def Let_def intro!: breaker_keeps keeps_probe split: BreakerState.split)

lemma keeps_record: "keeps cells_ok (record_outcome cb out)"
  by (auto simp: record_outcome_def Let_def push_and_evict_ok
      intro!: breaker_keeps keeps_Access keeps_trip keeps_close split: BreakerState.split)

lemma breaker_op_keeps: "breaker_op a \<Longrightarrow> keeps cells_ok a"
  by (auto simp: breaker_op_def check_def is_open_def error_rate_def force_half_open_def Let_def cells_ok_def sw_evict_ok
      intro!: breaker_keeps keeps_record keeps_check_open keeps_probe keeps_Access split: BreakerState.split)

interpretation breaker: atomic_ops cells_ok breaker_op
  by unfold_locales (rule breaker_op_keeps)

text \<open>
  Property C32. Whatever operations any number of callers start, and however their atomic accesses
  interleave, the state byte is always one of the three states, so the fallback of \<open>from_u8\<close> is never
  taken, the window holds at most ten thousand samples and its failure counter, kept incrementally,
  is the number of failed samples in it, so it never wraps below zero.
\<close>

theorem interleaved_cells_ok:
  assumes "begins_only breaker_op events"
    and "sys_run events (now, snd (with_clock config start), replicate callers (Ret Recorded)) = (now', cells, threads)"
  shows "c_state cells = as_u8 (from_u8 (c_state cells))
     \<and> sw_failures (c_window cells) = length (filter snd (sw_entries (c_window cells)))
     \<and> length (sw_entries (c_window cells)) \<le> 10000"
proof -
  have "cells_ok (snd (with_clock config start))" by (simp add: cells_ok_def with_clock_def)
  from breaker.interleaving_inv [OF this assms(1), of now callers Recorded] assms(2)
  have "cells_ok cells" by simp
  then show ?thesis by (auto simp: cells_ok_def window_ok_def from_u8_def MAX_WINDOW_ENTRIES_def)
qed

theorem interleaved_cells_ok_witness:
  "let (now, cells, threads) = sys_run
      [Begin 0 (record_outcome (fst (with_clock config_server 0)) Failure), Run 0, Begin 1 is_open, Run 0, Run 1, Run 0]
      (5, snd (with_clock config_server 0), replicate 2 (Ret Recorded))
   in sw_entries (c_window cells) = [(5, True)] \<and> sw_failures (c_window cells) = 1"
proof -
  let ?cb = "fst (with_clock config_server 0)"
  let ?es = "[Begin 0 (record_outcome ?cb Failure), Run 0, Begin 1 is_open, Run 0, Run 1, Run 0] :: (Cells, answer) event list"
  obtain now' cells ts where r: "sys_run ?es (5, snd (with_clock config_server 0), replicate 2 (Ret Recorded)) = (now', cells, ts)"
    by (metis surj_pair)
  have "begins_only breaker_op ?es" by (auto simp: begins_only_def breaker_op_def)
  from interleaved_cells_ok [OF this r]
  have f: "sw_failures (c_window cells) = length (filter snd (sw_entries (c_window cells)))" by blast
  have "sw_entries (c_window cells) = [(5, True)]"
    using r by (auto simp: with_clock_def config_server_def record_outcome_def Let_def state_def load_def is_open_def
        from_u8_def push_and_evict_def sw_push_def sw_new_def MAX_WINDOW_ENTRIES_def sw_evict_def from_secs_def numeral_2_eq_2)
  with f r show ?thesis by simp
qed

subsection \<open>One caller at a time: the abstract breaker\<close>

text \<open>
  The abstract breaker keeps only what matters: the recent samples while closed, the time of the trip
  while open, the claimed slots and the time of the last claim while half open. Samples recorded while
  open are not part of it.
\<close>

datatype spec = SClosed "(nat \<times> bool) list" | SOpen nat | SHalf nat nat

datatype call = Check | Record Outcome

definition live_samples :: "CircuitBreaker \<Rightarrow> nat \<Rightarrow> (nat \<times> bool) list \<Rightarrow> (nat \<times> bool) list" where
  "live_samples cb now xs =
     filter (\<lambda>e. now \<le> fst e + bc_window_duration (cb_config cb)) (drop (length xs - 10000) xs)"

definition trips_on :: "CircuitBreaker \<Rightarrow> (nat \<times> bool) list \<Rightarrow> bool" where
  "trips_on cb xs \<longleftrightarrow> bc_min_samples (cb_config cb) \<le> length xs
     \<and> f64_ge (Finite (f64_ratio (length (filter snd xs)) (length xs))) (bc_error_rate_threshold (cb_config cb))"

definition cooled_down :: "CircuitBreaker \<Rightarrow> nat \<Rightarrow> nat \<Rightarrow> bool" where
  "cooled_down cb now since \<longleftrightarrow> bc_open_duration (cb_config cb) \<le> from_millis (now - since)"

fun spec_check :: "CircuitBreaker \<Rightarrow> (nat \<Rightarrow> nat) \<Rightarrow> spec \<Rightarrow> answer \<times> spec" where
  "spec_check cb c (SClosed xs) = (Admitted, SClosed xs)"
| "spec_check cb c (SOpen since) =
     (if cooled_down cb (elapsed_millis cb (c 0)) since then (Admitted, SHalf 1 (elapsed_millis cb (c 1)))
      else (BreakerOpen (bc_open_duration (cb_config cb) - from_millis (elapsed_millis cb (c 0) - since)), SOpen since))"
| "spec_check cb c (SHalf n claimed) =
     (let now = elapsed_millis cb (c 0)
      in if n < bc_half_open_max_probes (cb_config cb) then (Admitted, SHalf (n + 1) now)
         else if lease_millis cb \<le> now - claimed then (Admitted, SHalf n now)
         else (BreakerOpen (min HALF_OPEN_PROBE_BACKOFF (bc_open_duration (cb_config cb))), SHalf n claimed))"

fun spec_record :: "CircuitBreaker \<Rightarrow> (nat \<Rightarrow> nat) \<Rightarrow> Outcome \<Rightarrow> spec \<Rightarrow> spec" where
  "spec_record cb c out (SClosed xs) =
     (let ys = live_samples cb (c 0) (xs @ [(c 0, out = Failure)])
      in if trips_on cb ys then SOpen (elapsed_millis cb (c 1)) else SClosed ys)"
| "spec_record cb c out (SOpen since) = SOpen since"
| "spec_record cb c out (SHalf n claimed) = (if out = Failure then SOpen (elapsed_millis cb (c 1)) else SClosed [])"

fun spec_call :: "CircuitBreaker \<Rightarrow> call \<times> (nat \<Rightarrow> nat) \<Rightarrow> spec \<Rightarrow> answer \<times> spec" where
  "spec_call cb (Check, c) s = spec_check cb c s"
| "spec_call cb (Record out, c) s = (Recorded, spec_record cb c out s)"

fun do_call :: "CircuitBreaker \<Rightarrow> call \<times> (nat \<Rightarrow> nat) \<Rightarrow> Cells \<Rightarrow> answer \<times> Cells" where
  "do_call cb (Check, c) s = run_alone (check cb) c s"
| "do_call cb (Record out, c) s = run_alone (record_outcome cb out) c s"

fun answers :: "(call \<times> (nat \<Rightarrow> nat) \<Rightarrow> 's \<Rightarrow> answer \<times> 's) \<Rightarrow> (call \<times> (nat \<Rightarrow> nat)) list \<Rightarrow> 's \<Rightarrow> answer list" where
  "answers f [] s = []"
| "answers f (x # xs) s = (case f x s of (r, s') \<Rightarrow> r # answers f xs s')"

text \<open>
  The clock: every call reads it at most twice, readings never go back, and they stay within
  \<open>2^64\<close> milliseconds of the construction of the breaker.
\<close>

fun readings_ok :: "CircuitBreaker \<Rightarrow> nat \<Rightarrow> (call \<times> (nat \<Rightarrow> nat)) list \<Rightarrow> bool" where
  "readings_ok cb t [] = True"
| "readings_ok cb t ((call, c) # xs) = (t \<le> c 0 \<and> c 0 \<le> c 1 \<and> c 1 < cb_baseline cb + 2 ^ 64 * 1000000
     \<and> readings_ok cb (c 1) xs)"

fun abs_cells :: "Cells \<Rightarrow> spec" where
  "abs_cells c = (case from_u8 (c_state c) of
       Closed \<Rightarrow> SClosed (sw_entries (c_window c))
     | Open \<Rightarrow> SOpen (c_opened_at_millis c)
     | HalfOpen \<Rightarrow> SHalf (c_half_open_probes c) (c_probe_claimed_at_millis c))"

definition serial_ok :: "CircuitBreaker \<Rightarrow> nat \<Rightarrow> Cells \<Rightarrow> bool" where
  "serial_ok cb t c \<longleftrightarrow> cells_ok c \<and> cb_baseline cb \<le> t
     \<and> sorted (map fst (sw_entries (c_window c))) \<and> (\<forall>e\<in>set (sw_entries (c_window c)). fst e \<le> t)
     \<and> c_is_open_fast c = (c_state c = as_u8 Open)
     \<and> (c_state c \<noteq> as_u8 HalfOpen \<longrightarrow> c_half_open_probes c = 0)
     \<and> c_half_open_probes c \<le> bc_half_open_max_probes (cb_config cb)
     \<and> c_opened_at_millis c \<le> elapsed_millis cb t \<and> c_probe_claimed_at_millis c \<le> elapsed_millis cb t"

definition handle_ok :: "CircuitBreaker \<Rightarrow> bool" where
  "handle_ok cb \<longleftrightarrow> bc_enabled (cb_config cb) \<and> 1 \<le> bc_half_open_max_probes (cb_config cb)
     \<and> bc_half_open_max_probes (cb_config cb) \<le> u64_max"

lemma elapsed_exact: "t < cb_baseline cb + 2 ^ 64 * 1000000 \<Longrightarrow> elapsed_millis cb t = (t - cb_baseline cb) div 1000000"
proof -
  assume "t < cb_baseline cb + 2 ^ 64 * 1000000"
  then have "t - cb_baseline cb < 2 ^ 64 * 1000000" by simp
  then have "(t - cb_baseline cb) div 1000000 < 2 ^ 64" by (simp only: less_mult_imp_div_less)
  then show ?thesis unfolding elapsed_millis_def by (rule mod_less)
qed

lemma elapsed_mono: "a \<le> b \<Longrightarrow> b < cb_baseline cb + 2 ^ 64 * 1000000 \<Longrightarrow> elapsed_millis cb a \<le> elapsed_millis cb b"
  using elapsed_exact [of a cb] elapsed_exact [of b cb] by (simp add: div_le_mono diff_le_mono)

lemma dropWhile_sorted: "sorted (map fst xs) \<Longrightarrow> dropWhile (\<lambda>e. fst e < k) xs = filter (\<lambda>e. k \<le> fst e) xs"
  for xs :: "(nat \<times> 'b) list"
proof (induction xs)
  case (Cons x xs)
  then show ?case by (cases "fst x < k") (auto intro!: filter_True [symmetric])
qed simp

lemma window_record:
  assumes ok: "window_ok w" and srt: "sorted (map fst (sw_entries w))" and le: "\<forall>e\<in>set (sw_entries w). fst e \<le> now"
  shows "sw_entries (sw_evict (bc_window_duration (cb_config cb)) now (sw_push f now w))
       = live_samples cb now (sw_entries w @ [(now, f)])"
proof -
  have len: "length (sw_entries w) \<le> 10000" using ok by (simp add: window_ok_def MAX_WINDOW_ENTRIES_def)
  have p: "sw_entries (sw_push f now w) = drop (length (sw_entries w @ [(now, f)]) - 10000) (sw_entries w @ [(now, f)])"
  proof (cases "length (sw_entries w) = 10000")
    case True
    then show ?thesis by (cases "sw_entries w") (simp_all add: entries_push MAX_WINDOW_ENTRIES_def)
  next
    case False
    with len show ?thesis by (simp add: entries_push MAX_WINDOW_ENTRIES_def)
  qed
  have "sorted (map fst (sw_entries w @ [(now, f)]))" using srt le by (auto simp: sorted_append)
  then have s: "sorted (map fst (sw_entries (sw_push f now w)))" unfolding p by (simp only: drop_map [symmetric] sorted_wrt_drop)
  show ?thesis
    using sw_push_ok [OF ok, of f now] dropWhile_sorted [OF s, of "now - bc_window_duration (cb_config cb)"] p
    by (auto simp: sw_evict_eq live_samples_def intro!: filter_cong)
qed

lemma serial_check:
  assumes h: "handle_ok cb" and s: "serial_ok cb t s" and c: "readings_ok cb t [(Check, c)]"
  shows "fst (run_alone (check cb) c s) = fst (spec_check cb c (abs_cells s))
    \<and> abs_cells (snd (run_alone (check cb) c s)) = snd (spec_check cb c (abs_cells s))
    \<and> serial_ok cb (c 1) (snd (run_alone (check cb) c s))"
proof -
  have t: "t \<le> c 0" "c 0 \<le> c 1" "c 1 < cb_baseline cb + 2 ^ 64 * 1000000" using c by auto
  have e: "elapsed_millis cb t \<le> elapsed_millis cb (c 1)" "elapsed_millis cb (c 0) \<le> elapsed_millis cb (c 1)"
    using t by (auto intro: elapsed_mono)
  note defs = check_def state_def check_open_def cas_state_def try_half_open_probe_def observe_call_def Let_def
    from_u8_def cooled_down_def
  have en: "bc_enabled (cb_config cb)" "1 \<le> bc_half_open_max_probes (cb_config cb)" "bc_half_open_max_probes (cb_config cb) \<le> u64_max"
    using h by (auto simp: handle_ok_def)
  have st: "c_state s = 0 \<or> c_state s = 1 \<or> c_state s = 2" using s by (auto simp: serial_ok_def cells_ok_def)
  then show ?thesis
  proof (elim disjE)
    assume "c_state s = 0"
    with s t e en show ?thesis by (fastforce simp: defs serial_ok_def)
  next
    assume "c_state s = 1"
    with s t e en show ?thesis by (fastforce simp: defs serial_ok_def cells_ok_def u64_max_def)
  next
    assume "c_state s = 2"
    with s t e en show ?thesis by (fastforce simp: defs serial_ok_def cells_ok_def)
  qed
qed

lemma should_trip_iff: "window_ok w \<Longrightarrow> should_trip cb w \<longleftrightarrow> trips_on cb (sw_entries w)"
  by (auto simp: should_trip_def trips_on_def sw_error_rate_def sw_sample_count_def window_ok_def)

lemma live_samples_ok:
  assumes "sorted (map fst xs)" and "\<forall>e\<in>set xs. fst e \<le> now"
  shows "sorted (map fst (live_samples cb now (xs @ [(now, f)])))"
    and "\<forall>e\<in>set (live_samples cb now (xs @ [(now, f)])). fst e \<le> now"
proof -
  have "sorted (map fst (xs @ [(now, f)]))" using assms by (auto simp: sorted_append)
  then have "sorted (map fst (drop k (xs @ [(now, f)])))" for k by (simp only: drop_map [symmetric] sorted_wrt_drop)
  then show "sorted (map fst (live_samples cb now (xs @ [(now, f)])))"
    unfolding live_samples_def by (rule sorted_filter)
  show "\<forall>e\<in>set (live_samples cb now (xs @ [(now, f)])). fst e \<le> now"
    using assms by (auto simp: live_samples_def dest!: in_set_dropD)
qed

lemma serial_push:
  assumes s: "serial_ok cb t s" and t: "t \<le> now" "now \<le> u" "u < cb_baseline cb + 2 ^ 64 * 1000000"
  shows "serial_ok cb u (push_and_evict cb f now s)"
    and "sw_entries (c_window (push_and_evict cb f now s)) = live_samples cb now (sw_entries (c_window s) @ [(now, f)])"
    and "window_ok (c_window (push_and_evict cb f now s))"
proof -
  have w: "window_ok (c_window s)" "sorted (map fst (sw_entries (c_window s)))"
      "\<forall>e\<in>set (sw_entries (c_window s)). fst e \<le> now"
    using s t by (auto simp: serial_ok_def cells_ok_def)
  show ent: "sw_entries (c_window (push_and_evict cb f now s)) = live_samples cb now (sw_entries (c_window s) @ [(now, f)])"
    using window_record [OF w, of cb f] by (simp add: push_and_evict_def)
  show "window_ok (c_window (push_and_evict cb f now s))"
    using w by (simp add: push_and_evict_def sw_push_ok sw_evict_ok)
  have "elapsed_millis cb t \<le> elapsed_millis cb u" using t by (auto intro: elapsed_mono)
  then have "c_opened_at_millis s \<le> elapsed_millis cb u" "c_probe_claimed_at_millis s \<le> elapsed_millis cb u" "cb_baseline cb \<le> u"
    using s t by (auto simp: serial_ok_def)
  moreover have "cells_ok (push_and_evict cb f now s)" using s by (simp add: serial_ok_def push_and_evict_ok)
  ultimately show "serial_ok cb u (push_and_evict cb f now s)"
    using s live_samples_ok [OF w(2,3), of cb f] t(2) unfolding serial_ok_def ent
    by (auto simp: push_and_evict_def intro: order.trans)
qed

lemma serial_record:
  assumes h: "handle_ok cb" and s: "serial_ok cb t s" and c: "readings_ok cb t [(Record out, c)]"
  shows "fst (run_alone (record_outcome cb out) c s) = Recorded
    \<and> abs_cells (snd (run_alone (record_outcome cb out) c s)) = spec_record cb c out (abs_cells s)
    \<and> serial_ok cb (c 1) (snd (run_alone (record_outcome cb out) c s))"
proof -
  have t: "t \<le> c 0" "c 0 \<le> c 1" "c 1 < cb_baseline cb + 2 ^ 64 * 1000000" using c by auto
  note push = serial_push [OF s t, of "out = Failure"]
  have e: "elapsed_millis cb t \<le> elapsed_millis cb (c 1)" using t by (auto intro: elapsed_mono)
  have en: "bc_enabled (cb_config cb)" using h by (auto simp: handle_ok_def)
  note defs = record_outcome_def state_def Let_def from_u8_def observe_call_def trip_def close_def
  have frame: "c_state (push_and_evict cb f n s) = c_state s" "c_opened_at_millis (push_and_evict cb f n s) = c_opened_at_millis s" for f n
    by (simp_all add: push_and_evict_def)
  have st: "c_state s = 0 \<or> c_state s = 1 \<or> c_state s = 2" using s by (auto simp: serial_ok_def cells_ok_def)
  then show ?thesis
  proof (elim disjE)
    assume z: "c_state s = 0"
    show ?thesis
    proof (cases "trips_on cb (live_samples cb (c 0) (sw_entries (c_window s) @ [(c 0, out = Failure)]))")
      case True
      with z push en show ?thesis
        by (auto simp: defs should_trip_iff serial_ok_def cells_ok_def frame)
    next
      case False
      with z push en show ?thesis
        by (auto simp: defs should_trip_iff frame serial_ok_def cells_ok_def)
    qed
  next
    assume "c_state s = 1"
    with s push en show ?thesis by (auto simp: defs frame serial_ok_def cells_ok_def)
  next
    assume "c_state s = 2"
    with s t e en show ?thesis by (auto simp: defs serial_ok_def cells_ok_def sw_clear_def window_ok_def)
  qed
qed

lemma serial_call:
  assumes h: "handle_ok cb" and s: "serial_ok cb t s" and c: "readings_ok cb t [x]" and r: "do_call cb x s = (r, s')"
  shows "spec_call cb x (abs_cells s) = (r, abs_cells s') \<and> serial_ok cb (snd x 1) s'"
proof -
  obtain call c where x: "x = (call, c)" by (cases x)
  show ?thesis
  proof (cases call)
    case Check
    from serial_check [OF h s, of c] \<open>readings_ok cb t [x]\<close> r show ?thesis
      by (simp add: x Check del: abs_cells.simps)
  next
    case (Record out)
    from serial_record [OF h s, of out c] \<open>readings_ok cb t [x]\<close> r show ?thesis
      by (simp add: x Record del: abs_cells.simps)
  qed
qed

lemma readings_ok_Cons: "readings_ok cb t (x # xs) \<longleftrightarrow> readings_ok cb t [x] \<and> readings_ok cb (snd x 1) xs"
  by (cases x) auto

lemma serial_answers:
  "handle_ok cb \<Longrightarrow> serial_ok cb t s \<Longrightarrow> readings_ok cb t xs \<Longrightarrow>
   answers (do_call cb) xs s = answers (spec_call cb) xs (abs_cells s)"
proof (induction xs arbitrary: t s)
  case (Cons x xs)
  obtain r s' where r: "do_call cb x s = (r, s')" by fastforce
  have c: "readings_ok cb t [x]" "readings_ok cb (snd x 1) xs" using Cons.prems(3) by (simp_all add: readings_ok_Cons [of cb t x xs])
  from serial_call [OF Cons.prems(1,2) c(1) r] have
    "spec_call cb x (abs_cells s) = (r, abs_cells s')" "serial_ok cb (snd x 1) s'" by auto
  with Cons.IH [OF Cons.prems(1) this(2) c(2)] show ?case by (simp add: r del: abs_cells.simps)
qed simp

lemma fresh_serial_ok:
  "with_clock config start = (cb, s) \<Longrightarrow> serial_ok cb start s \<and> abs_cells s = SClosed [] \<and> cb_baseline cb = start"
  by (auto simp: with_clock_def serial_ok_def cells_ok_def sw_new_def window_ok_def from_u8_def)

lemma fresh_handle_ok:
  "with_clock config start = (cb, s) \<Longrightarrow> bc_enabled config \<Longrightarrow> bc_half_open_max_probes config \<le> u64_max \<Longrightarrow> handle_ok cb"
  by (auto simp: with_clock_def handle_ok_def u64_max_def)

text \<open>
  Property C30. Used by one caller at a time, the breaker refines its abstract state machine: for every
  sequence of checks and recorded outcomes, with any clock readings that do not go back, every answer,
  retry delays included, is the one the abstract machine gives. In particular the samples recorded while
  the breaker is open, the probe counter outside the half-open state and the evictions done at odd
  moments have no effect.
\<close>

theorem breaker_refines_spec:
  assumes "with_clock config start = (cb, cells)" and "bc_enabled config" and "bc_half_open_max_probes config \<le> u64_max"
    and "readings_ok cb start calls"
  shows "answers (do_call cb) calls cells = answers (spec_call cb) calls (SClosed [])"
  using serial_answers [OF fresh_handle_ok [OF assms(1-3)], of start cells calls] fresh_serial_ok [OF assms(1)] assms(4)
  by simp

theorem breaker_refines_spec_witness:
  "let (cb, cells) = with_clock (config_client\<lparr>bc_min_samples := 1\<rparr>) 0; calls = [(Check, \<lambda>_. 1), (Record Failure, \<lambda>_. 2), (Check, \<lambda>_. 3)]
   in answers (do_call cb) calls cells = [Admitted, Recorded, BreakerOpen (from_secs 60)]"
proof -
  define cb where "cb = fst (with_clock (config_client\<lparr>bc_min_samples := 1\<rparr>) 0)"
  define cells where "cells = snd (with_clock (config_client\<lparr>bc_min_samples := 1\<rparr>) 0)"
  define calls where "calls = [(Check, \<lambda>_::nat. 1::nat), (Record Failure, \<lambda>_. 2), (Check, \<lambda>_. 3)]"
  have "bc_enabled (config_client\<lparr>bc_min_samples := 1\<rparr>)" "bc_half_open_max_probes (config_client\<lparr>bc_min_samples := 1\<rparr>) \<le> u64_max"
    by (simp_all add: config_client_def u64_max_def)
  moreover have "readings_ok cb 0 calls" by (simp add: calls_def)
  ultimately have "answers (do_call cb) calls cells = answers (spec_call cb) calls (SClosed [])"
    using breaker_refines_spec [of "config_client\<lparr>bc_min_samples := 1\<rparr>" 0 cb cells calls] by (simp add: cb_def cells_def)
  also have "\<dots> = [Admitted, Recorded, BreakerOpen (from_secs 60)]"
  proof -
    have "(1/2 :: rat) \<le> f64_ratio 1 1" using f64_ratio_ge_half [of 1 1] by simp
    then show ?thesis
      by (simp add: calls_def cb_def with_clock_def config_client_def live_samples_def trips_on_def cooled_down_def
          from_secs_def from_millis_def elapsed_millis_def Let_def)
  qed
  finally show ?thesis by (simp add: cb_def cells_def calls_def Let_def case_prod_beta)
qed

subsection \<open>Recovery\<close>

fun time_after :: "nat \<Rightarrow> (call \<times> (nat \<Rightarrow> nat)) list \<Rightarrow> nat" where
  "time_after t [] = t"
| "time_after t (x # xs) = time_after (snd x 1) xs"

fun state_after :: "CircuitBreaker \<Rightarrow> (call \<times> (nat \<Rightarrow> nat)) list \<Rightarrow> Cells \<Rightarrow> Cells" where
  "state_after cb [] s = s"
| "state_after cb (x # xs) s = state_after cb xs (snd (do_call cb x s))"

lemma serial_state_after:
  "handle_ok cb \<Longrightarrow> serial_ok cb t s \<Longrightarrow> readings_ok cb t xs \<Longrightarrow> serial_ok cb (time_after t xs) (state_after cb xs s)"
proof (induction xs arbitrary: t s)
  case (Cons x xs)
  obtain r s' where r: "do_call cb x s = (r, s')" by fastforce
  have c: "readings_ok cb t [x]" "readings_ok cb (snd x 1) xs" using Cons.prems(3) by (simp_all add: readings_ok_Cons [of cb t x xs])
  from serial_call [OF Cons.prems(1,2) c(1) r] have "serial_ok cb (snd x 1) s'" by blast
  with Cons.IH [OF Cons.prems(1) this c(2)] show ?case by (simp add: r)
qed simp

lemma readings_ok_snoc: "readings_ok cb t (xs @ [x]) \<longleftrightarrow> readings_ok cb t xs \<and> readings_ok cb (time_after t xs) [x]"
proof (induction xs arbitrary: t)
  case (Cons y ys)
  then show ?case by (cases y) simp
qed simp

lemma cool_down_elapses:
  assumes "t + bc_open_duration (cb_config cb) + 1000000 \<le> now" and "now < cb_baseline cb + 2 ^ 64 * 1000000"
    and "cb_baseline cb \<le> t" and "x \<le> elapsed_millis cb t"
  shows "cooled_down cb (elapsed_millis cb now) x" and "lease_millis cb \<le> elapsed_millis cb now - x"
proof -
  let ?D = "bc_open_duration (cb_config cb)" and ?b = "cb_baseline cb"
  have et: "elapsed_millis cb t = (t - ?b) div 1000000" and en: "elapsed_millis cb now = (now - ?b) div 1000000"
    using assms by (auto intro!: elapsed_exact)
  have "(t - ?b) div 1000000 + (?D div 1000000 + 1) \<le> (now - ?b) div 1000000"
  proof -
    have "((t - ?b) div 1000000 + (?D div 1000000 + 1)) * 1000000 \<le> (t - ?b) + ?D + 1000000"
      by (simp add: add_mult_distrib add_mono)
    also have "\<dots> \<le> now - ?b" using assms by linarith
    finally show ?thesis by (simp add: less_eq_div_iff_mult_less_eq)
  qed
  then have k: "?D div 1000000 + 1 \<le> elapsed_millis cb now - x" using assms(4) et en by linarith
  have "?D \<le> (?D div 1000000 + 1) * 1000000" by (simp add: add_mult_distrib)
  also have "\<dots> \<le> (elapsed_millis cb now - x) * 1000000" using k by (rule mult_le_mono1)
  finally show "cooled_down cb (elapsed_millis cb now) x" by (simp add: cooled_down_def from_millis_def)
  show "lease_millis cb \<le> elapsed_millis cb now - x"
    using k mod_less_eq_dividend [of "?D div 1000000" "2 ^ 64"] by (simp add: lease_millis_def)
qed

text \<open>
  Property C31. The breaker never sheds traffic for good. After any sequence of checks and outcomes,
  probes whose outcome was never recorded included, a check that comes an open duration (and the
  millisecond that rounding may cost) after the last call is admitted; and if the request it admitted
  succeeds, the breaker is closed again.
\<close>

theorem breaker_recovers:
  assumes "with_clock config start = (cb, cells)" and "bc_enabled config" and "bc_half_open_max_probes config \<le> u64_max"
    and "readings_ok cb start (calls @ [(Check, c)])"
    and "time_after start calls + bc_open_duration config + 1000000 \<le> c 0"
  shows "fst (do_call cb (Check, c) (state_after cb calls cells)) = Admitted
     \<and> (c 1 \<le> d 0 \<and> d 0 \<le> d 1 \<and> d 1 < start + 2 ^ 64 * 1000000
        \<and> c_state (state_after cb calls cells) \<noteq> as_u8 Closed \<longrightarrow>
          abs_cells (snd (do_call cb (Record Success, d) (snd (do_call cb (Check, c) (state_after cb calls cells))))) = SClosed [])"
proof -
  let ?s = "state_after cb calls cells" and ?t = "time_after start calls"
  note app = readings_ok_snoc
  have h: "handle_ok cb" using assms by (auto intro: fresh_handle_ok)
  have base: "cb_baseline cb = start" and dur: "bc_open_duration (cb_config cb) = bc_open_duration config"
    using assms(1) by (auto simp: with_clock_def)
  have s: "serial_ok cb ?t ?s" using serial_state_after [OF h] fresh_serial_ok [OF assms(1)] assms(4) app by blast
  have c: "readings_ok cb ?t [(Check, c)]" using assms(4) app by blast
  note sc = serial_check [OF h s c]
  have cool: "x \<le> elapsed_millis cb ?t \<Longrightarrow> cooled_down cb (elapsed_millis cb (c 0)) x \<and> lease_millis cb \<le> elapsed_millis cb (c 0) - x" for x
    using cool_down_elapses [of ?t cb "c 0" x] assms(5) c s by (auto simp: dur serial_ok_def)
  have st: "c_state ?s = 0 \<or> c_state ?s = 1 \<or> c_state ?s = 2" using s by (auto simp: serial_ok_def cells_ok_def)
  have adm: "spec_check cb c (abs_cells ?s) = (Admitted, case abs_cells ?s of SClosed xs \<Rightarrow> SClosed xs
      | SOpen x \<Rightarrow> SHalf 1 (elapsed_millis cb (c 1))
      | SHalf n x \<Rightarrow> SHalf (if n < bc_half_open_max_probes (cb_config cb) then n + 1 else n) (elapsed_millis cb (c 0)))"
    using st cool s by (auto simp: from_u8_def serial_ok_def Let_def)
  obtain r s' where r: "do_call cb (Check, c) ?s = (r, s')" by fastforce
  have s': "abs_cells s' = snd (spec_check cb c (abs_cells ?s))" "serial_ok cb (c 1) s'" and ra: "r = Admitted"
    using sc r adm by (auto simp del: abs_cells.simps)
  have "abs_cells (snd (do_call cb (Record Success, d) s')) = SClosed []"
    if "c 1 \<le> d 0" "d 0 \<le> d 1" "d 1 < start + 2 ^ 64 * 1000000" "c_state ?s \<noteq> as_u8 Closed"
  proof -
    have "readings_ok cb (c 1) [(Record Success, d)]" using that by (simp add: base)
    from serial_record [OF h s'(2) this] s'(1) adm that(4) show ?thesis
      using st by (auto simp: from_u8_def split: if_splits)
  qed
  with ra show ?thesis by (simp only: r fst_conv snd_conv) blast
qed

theorem breaker_recovers_witness:
  "let (cb, cells) = with_clock config_server 0;
       calls = [(Check, \<lambda>_. 1)]
   in fst (do_call cb (Check, \<lambda>_. from_secs 11) (state_after cb calls cells)) = Admitted"
proof -
  define cb where "cb = fst (with_clock config_server 0)"
  define cells where "cells = snd (with_clock config_server 0)"
  have w: "with_clock config_server 0 = (cb, cells)" by (simp add: cb_def cells_def)
  have "bc_enabled config_server" "bc_half_open_max_probes config_server \<le> u64_max"
      "readings_ok cb 0 ([(Check, \<lambda>_. 1)] @ [(Check, \<lambda>_. from_secs 11)])"
      "time_after 0 [(Check, \<lambda>_. 1)] + bc_open_duration config_server + 1000000 \<le> from_secs 11"
    by (simp_all add: config_server_def u64_max_def from_secs_def)
  from breaker_recovers [OF w this] show ?thesis unfolding w Let_def prod.case by blast
qed

subsection \<open>Tripping\<close>

text \<open>
  The trip rule is exact for the presets. A breaker whose threshold is one half (both
  presets, and the environment default) trips on a window exactly when the window has at least the
  minimum number of samples and at least half of them failed; the rounding of the floating point
  division never changes the answer.
\<close>

theorem half_threshold_exact:
  assumes "window_ok w" and "bc_error_rate_threshold (cb_config cb) = Finite (1 / 2)" and "1 \<le> bc_min_samples (cb_config cb)"
  shows "should_trip cb w \<longleftrightarrow> bc_min_samples (cb_config cb) \<le> length (sw_entries w)
     \<and> length (sw_entries w) \<le> 2 * length (filter snd (sw_entries w))"
proof (cases "sw_entries w = []")
  case False
  have "length (sw_entries w) < 2 ^ 53" using assms(1) by (simp add: window_ok_def MAX_WINDOW_ENTRIES_def)
  with f64_ratio_ge_half [of "length (sw_entries w)" "length (filter snd (sw_entries w))"] False assms show ?thesis
    by (simp add: should_trip_iff trips_on_def)
qed (use assms in \<open>simp add: should_trip_def sw_sample_count_def\<close>)

theorem half_threshold_exact_witness:
  "should_trip \<lparr>cb_config = config_client, cb_baseline = 0\<rparr>
     \<lparr>sw_entries = [(1, True), (2, False), (3, True), (4, False), (5, True)], sw_failures = 3\<rparr>
   \<and> \<not> should_trip \<lparr>cb_config = config_client, cb_baseline = 0\<rparr>
     \<lparr>sw_entries = [(1, True), (2, False), (3, True), (4, False), (5, False)], sw_failures = 2\<rparr>"
  using half_threshold_exact [of "\<lparr>sw_entries = [(1, True), (2, False), (3, True), (4, False), (5, True)], sw_failures = 3\<rparr>"
      "\<lparr>cb_config = config_client, cb_baseline = 0\<rparr>"]
    half_threshold_exact [of "\<lparr>sw_entries = [(1, True), (2, False), (3, True), (4, False), (5, False)], sw_failures = 2\<rparr>"
      "\<lparr>cb_config = config_client, cb_baseline = 0\<rparr>"]
  by (simp add: window_ok_def MAX_WINDOW_ENTRIES_def config_client_def)

subsection \<open>Interleavings that break the probe accounting\<close>

text \<open>
  A breaker with one probe slot that one failure trips. Caller 0 records the failure and is interrupted
  between the stores of \<open>trip\<close>: the state is open, but the time of the trip is still the initial
  zero. Caller 1 therefore takes the cool-down for elapsed, moves the breaker to half open and is admitted
  as the probe. When caller 0 goes on, it clears the probe counter and sets the fast flag. The breaker is
  then half open with a probe in flight that is not counted, caller 2 is admitted as a second probe, and
  \<open>is_open\<close> answers that the breaker is open.
\<close>

definition racy_config :: BreakerConfig where
  "racy_config = config_server\<lparr>bc_min_samples := 1\<rparr>"

definition racy_breaker :: CircuitBreaker where
  "racy_breaker = fst (with_clock racy_config 0)"

definition racy_start :: "(Cells, answer) sys" where
  "racy_start = (from_secs 20, snd (with_clock racy_config 0), [Ret Recorded, Ret Recorded, Ret Recorded])"

definition trip_race :: "(Cells, answer) event list" where
  "trip_race = [Begin 0 (record_outcome racy_breaker Failure), Run 0, Run 0, Run 0, Run 0,
     Begin 1 (check racy_breaker), Run 1, Run 1, Run 1, Run 1, Run 1, Run 1, Run 1, Run 1, Run 1, Run 1,
     Run 0, Run 0, Run 0, Run 0, Run 0, Run 0, Run 0,
     Begin 2 (check racy_breaker), Run 2, Run 2, Run 2, Run 2, Run 2]"

lemma f64_ratio_one [simp]: "f64_ratio (Suc 0) (Suc 0) = 1"
  by (simp add: f64_ratio_def doublings.simps round_quotient_def)

lemmas race_simps = racy_start_def racy_breaker_def racy_config_def config_server_def with_clock_def record_outcome_def
  check_def check_open_def try_half_open_probe_def trip_def close_def cas_state_def state_def observe_call_def load_def store_def rmw_def
  from_u8_def push_and_evict_def should_trip_def sw_push_def sw_new_def sw_evict_def sw_error_rate_def sw_sample_count_def
  MAX_WINDOW_ENTRIES_def from_secs_def from_millis_def elapsed_millis_def lease_millis_def Let_def u64_max_def
  usize_inc_def usize_dec_def


theorem trip_race_admits_two_probes:
  "\<exists>now cells. sys_run trip_race racy_start = (now, cells, [Ret Recorded, Ret Admitted, Ret Admitted])
     \<and> c_state cells = as_u8 HalfOpen \<and> c_is_open_fast cells
     \<and> bc_half_open_max_probes (cb_config racy_breaker) = 1
     \<and> c_observed cells = [StateChange Open HalfOpen ''open_elapsed'', ProbeAdmission True,
         StateChange Closed Open ''trip'', OutcomeSeen Failure HalfOpen, ProbeAdmission True]"
  by (simp add: trip_race_def race_simps)

text \<open>
  The probe counter can also wrap. While a probe is in flight, caller 1 finds the only slot taken and is
  interrupted between its increment and the decrement that takes it back; the probe fails, and \<open>trip\<close>
  resets the counter to zero; the pending decrement then takes it to the largest \<open>usize\<close>. The comment
  in \<open>check_open\<close> relies on the counter being zero whenever the breaker is open.
\<close>

definition wrap_race :: "(Cells, answer) event list" where
  "wrap_race = [Begin 0 (record_outcome racy_breaker Failure), Run 0, Run 0, Run 0, Run 0, Run 0, Run 0, Run 0, Run 0,
       Run 0, Run 0, Run 0, Tick (from_secs 10),
     Begin 0 (check racy_breaker), Run 0, Run 0, Run 0, Run 0, Run 0, Run 0, Run 0, Run 0, Run 0, Run 0,
     Begin 1 (check racy_breaker), Run 1, Run 1, Run 1,
     Begin 0 (record_outcome racy_breaker Failure), Run 0, Run 0, Run 0, Run 0, Run 0, Run 0, Run 0, Run 0, Run 0, Run 0,
     Run 1]"

theorem wrap_race_probe_counter:
  "\<exists>now cells threads. sys_run wrap_race racy_start = (now, cells, threads)
     \<and> c_state cells = as_u8 Open \<and> c_half_open_probes cells = u64_max"
  by (simp add: wrap_race_def race_simps)

subsection \<open>Configuration, registry and retry policy\<close>

definition unusable :: "(string \<Rightarrow> f64 option) \<Rightarrow> string \<Rightarrow> string \<Rightarrow> bool" where
  "unusable parse_f64 knob v \<longleftrightarrow>
     (if knob = ''ERROR_RATE_THRESHOLD'' then parse_f64 v = None
      else if knob = ''ENABLED'' then parse_bool v = None
      else if knob = ''FAILURE_CODES'' then parse_failure_codes v = {}
      else parse_uint u64_max v = None)"

lemma lookup_or_default: "(\<And>v. get key = Some v \<Longrightarrow> parse v = None) \<Longrightarrow> lookup_or parse get key d = d"
  by (auto simp: lookup_or_def split: option.split)

lemma parse_failure_codes_le: "c \<in> parse_failure_codes s \<Longrightarrow> c \<le> u16_max"
  by (auto simp: parse_failure_codes_def map_filter_def dest: parse_uint_le)

text \<open>
  The variables of a configuration; that a configuration holds what the text of a variable says, in seconds where the variable
  counts seconds; and that two configurations agree on the field of a variable.
\<close>

definition knobs :: "string list" where
  "knobs = [''WINDOW_SECS'', ''MIN_SAMPLES'', ''ERROR_RATE_THRESHOLD'', ''OPEN_DURATION_SECS'', ''HALF_OPEN_MAX_PROBES'',
     ''FAILURE_CODES'', ''ENABLED'']"

definition takes_setting :: "(string \<Rightarrow> f64 option) \<Rightarrow> string \<Rightarrow> string \<Rightarrow> BreakerConfig \<Rightarrow> bool" where
  "takes_setting parse_f64 knob v cfg \<longleftrightarrow>
     (knob = ''WINDOW_SECS'' \<longrightarrow> parse_uint u64_max v = Some (bc_window_duration cfg div 1000000000)
        \<and> bc_window_duration cfg mod 1000000000 = 0)
     \<and> (knob = ''MIN_SAMPLES'' \<longrightarrow> parse_uint u64_max v = Some (bc_min_samples cfg))
     \<and> (knob = ''ERROR_RATE_THRESHOLD'' \<longrightarrow> parse_f64 v = Some (bc_error_rate_threshold cfg))
     \<and> (knob = ''OPEN_DURATION_SECS'' \<longrightarrow> parse_uint u64_max v = Some (bc_open_duration cfg div 1000000000)
        \<and> bc_open_duration cfg mod 1000000000 = 0)
     \<and> (knob = ''HALF_OPEN_MAX_PROBES'' \<longrightarrow> parse_uint u64_max v = Some (bc_half_open_max_probes cfg)
        \<or> parse_uint u64_max v = Some 0 \<and> bc_half_open_max_probes cfg = 1)
     \<and> (knob = ''FAILURE_CODES'' \<longrightarrow> bc_failure_codes cfg = parse_failure_codes v)
     \<and> (knob = ''ENABLED'' \<longrightarrow> parse_bool v = Some (bc_enabled cfg))"

definition same_setting :: "string \<Rightarrow> BreakerConfig \<Rightarrow> BreakerConfig \<Rightarrow> bool" where
  "same_setting knob a b \<longleftrightarrow>
     (knob = ''WINDOW_SECS'' \<longrightarrow> bc_window_duration a = bc_window_duration b)
     \<and> (knob = ''MIN_SAMPLES'' \<longrightarrow> bc_min_samples a = bc_min_samples b)
     \<and> (knob = ''ERROR_RATE_THRESHOLD'' \<longrightarrow> bc_error_rate_threshold a = bc_error_rate_threshold b)
     \<and> (knob = ''OPEN_DURATION_SECS'' \<longrightarrow> bc_open_duration a = bc_open_duration b)
     \<and> (knob = ''HALF_OPEN_MAX_PROBES'' \<longrightarrow> bc_half_open_max_probes a = bc_half_open_max_probes b)
     \<and> (knob = ''FAILURE_CODES'' \<longrightarrow> bc_failure_codes a = bc_failure_codes b)
     \<and> (knob = ''ENABLED'' \<longrightarrow> bc_enabled a = bc_enabled b)"

lemma same_settings_eq: "\<forall>knob\<in>set knobs. same_setting knob a b \<Longrightarrow> a = (b :: BreakerConfig)"
  by (simp add: knobs_def same_setting_def)

lemma usable_setting:
  assumes "knob \<in> set knobs" "get (prefix @ knob) = Some v" "\<not> unusable parse_f64 knob v"
  shows "takes_setting parse_f64 knob v (from_lookup_with_prefix parse_f64 prefix get)"
  using assms unfolding knobs_def
  by (simp, elim disjE)
    (auto simp: takes_setting_def unusable_def from_lookup_with_prefix_def lookup_or_def from_secs_def Let_def max_def)

lemma unusable_setting:
  assumes "knob \<in> set knobs" "\<forall>v. get (prefix @ knob) = Some v \<longrightarrow> unusable parse_f64 knob v"
  shows "same_setting knob (from_lookup_with_prefix parse_f64 prefix get) config_server"
  using assms unfolding knobs_def
  by (simp, elim disjE)
    (auto simp: same_setting_def unusable_def from_lookup_with_prefix_def lookup_or_def config_server_def Let_def split: option.split)

text \<open>
  Property C33. Every variable of the environment is read under its own name, and none makes the configuration unusable. A
  variable that parses sets its own field (an empty list of codes does not count as parsed, and a count of zero probes is
  raised to one); a variable that is missing or does not parse leaves its field at the default of the server preset,
  whatever the other variables hold, so that with no usable variable the configuration is that preset. Whatever the
  variables hold, at least one probe is allowed and the set of failure codes is a non-empty set of 16-bit codes.
\<close>

theorem env_config_safe:
  "1 \<le> bc_half_open_max_probes (from_lookup_with_prefix parse_f64 prefix get)
   \<and> bc_failure_codes (from_lookup_with_prefix parse_f64 prefix get) \<noteq> {}
   \<and> (\<forall>code\<in>bc_failure_codes (from_lookup_with_prefix parse_f64 prefix get). code \<le> u16_max)
   \<and> (\<forall>knob\<in>set knobs. \<forall>v. get (prefix @ knob) = Some v \<and> \<not> unusable parse_f64 knob v \<longrightarrow>
        takes_setting parse_f64 knob v (from_lookup_with_prefix parse_f64 prefix get))
   \<and> (\<forall>knob\<in>set knobs. (\<forall>v. get (prefix @ knob) = Some v \<longrightarrow> unusable parse_f64 knob v) \<longrightarrow>
        same_setting knob (from_lookup_with_prefix parse_f64 prefix get) config_server)
   \<and> ((\<forall>knob v. get (prefix @ knob) = Some v \<longrightarrow> unusable parse_f64 knob v) \<longrightarrow>
        from_lookup_with_prefix parse_f64 prefix get = config_server)"
proof -
  have codes: "default_failure_codes \<noteq> {}" "\<And>c. c \<in> default_failure_codes \<Longrightarrow> c \<le> u16_max"
    by (auto simp: default_failure_codes_def u16_max_def)
  have "1 \<le> bc_half_open_max_probes (from_lookup_with_prefix parse_f64 prefix get)"
    by (simp add: from_lookup_with_prefix_def Let_def)
  moreover have "bc_failure_codes (from_lookup_with_prefix parse_f64 prefix get) \<noteq> {}"
      "\<forall>code\<in>bc_failure_codes (from_lookup_with_prefix parse_f64 prefix get). code \<le> u16_max"
    using codes by (auto simp: from_lookup_with_prefix_def Let_def dest: parse_failure_codes_le split: option.split)
  moreover have "from_lookup_with_prefix parse_f64 prefix get = config_server"
    if "\<forall>knob v. get (prefix @ knob) = Some v \<longrightarrow> unusable parse_f64 knob v"
    using that by (intro same_settings_eq ballI unusable_setting) auto
  ultimately show ?thesis using usable_setting unusable_setting by blast
qed

text \<open>One usable variable and one that does not parse, and an environment in which nothing is usable.\<close>

definition sample_env :: "string \<Rightarrow> string option" where
  "sample_env k = (if k = ''CB_ENABLED'' then Some ''false'' else if k = ''CB_ERROR_RATE_THRESHOLD'' then Some ''half'' else None)"

theorem env_config_safe_witness:
  "\<not> bc_enabled (from_lookup_with_prefix (\<lambda>s. None) ''CB_'' sample_env)
   \<and> bc_error_rate_threshold (from_lookup_with_prefix (\<lambda>s. None) ''CB_'' sample_env) = Finite (1 / 2)
   \<and> from_lookup_with_prefix (\<lambda>s. None) ''CB_'' (\<lambda>k. if k = ''CB_ENABLED'' then Some ''yes'' else None) = config_server"
proof -
  let ?cfg = "from_lookup_with_prefix (\<lambda>s. None) ''CB_'' sample_env"
  have "''ENABLED'' \<in> set knobs" "sample_env (''CB_'' @ ''ENABLED'') = Some ''false''" "\<not> unusable (\<lambda>s. None) ''ENABLED'' ''false''"
    by (simp_all add: knobs_def sample_env_def unusable_def parse_bool_def)
  then have "takes_setting (\<lambda>s. None) ''ENABLED'' ''false'' ?cfg"
    using env_config_safe [of "\<lambda>s. None" "''CB_''" sample_env] by blast
  moreover have "same_setting ''ERROR_RATE_THRESHOLD'' ?cfg config_server"
    using env_config_safe [of "\<lambda>s. None" "''CB_''" sample_env] by (simp add: knobs_def sample_env_def unusable_def)
  moreover have "from_lookup_with_prefix (\<lambda>s. None) ''CB_'' (\<lambda>k. if k = ''CB_ENABLED'' then Some ''yes'' else None) = config_server"
    using env_config_safe [of "\<lambda>s. None" "''CB_''" "\<lambda>k. if k = ''CB_ENABLED'' then Some ''yes'' else None"]
    by (simp add: unusable_def parse_bool_def)
  ultimately show ?thesis by (simp add: takes_setting_def same_setting_def parse_bool_def config_server_def)
qed

text \<open>
  A threshold that is not a number is accepted from the environment and switches tripping off.
\<close>

theorem nan_threshold_never_trips:
  "bc_error_rate_threshold (cb_config cb) = NaN \<Longrightarrow> \<not> should_trip cb w"
  by (simp add: should_trip_def sw_error_rate_def)

text \<open>Keys keep their breaker, and two keys never share one.\<close>

definition registry_ok :: "CircuitBreakerRegistry \<Rightarrow> bool" where
  "registry_ok reg \<longleftrightarrow> inj_on (reg_breakers reg) (dom (reg_breakers reg))
     \<and> (\<forall>a\<in>ran (reg_breakers reg). a < length (reg_heap reg))"

lemma registry_new_ok: "registry_ok (registry_new config)"
  by (simp add: registry_ok_def registry_new_def)

lemma registry_get_ok:
  assumes "registry_ok reg"
  shows "registry_ok (snd (registry_get key now reg))"
  using assms
  by (auto simp: registry_ok_def registry_get_def Let_def inj_on_def ran_def split: option.split if_splits)

lemma registry_get_stable:
  assumes "registry_ok reg" and "registry_get key now reg = (Some a, reg')"
  shows "fst (registry_get key later (snd (registry_get key2 now2 reg'))) = Some a
     \<and> (key2 \<noteq> key \<longrightarrow> fst (registry_get key2 now2 reg') \<noteq> Some a)"
  using assms
  by (auto simp: registry_ok_def registry_get_def Let_def ran_def dom_def inj_on_def split: option.splits if_splits)
    (metis less_irrefl)

theorem server_retries_iff: "should_retry policy_server status \<longleftrightarrow> status = 429 \<or> (500 \<le> status \<and> status < 600)"
  by (auto simp: should_retry_def classify_def policy_server_def)

theorem client_storage_retries_iff:
  "should_retry client_storage status \<longleftrightarrow> \<not> (200 \<le> status \<and> status < 300) \<and> status \<notin> {400, 401, 403, 404}"
  by (auto simp: should_retry_def classify_def client_storage_def)

end
