(* ===== verification/Plan_Amend.thy ===== *)
theory Plan_Amend
  imports Checklist Criterion_Graph Audit_Parse
begin

text \<open>
  \<^verbatim>\<open>crates/codegen/xai-grok-shell/src/session/goal_replan.rs\<close>: amendments of the goal plan, which may
  only append criteria, add dependencies and widen write scopes. The group of \<open>plan_*\<close> definitions
  decides which requested changes survive, \<open>rewrite\<close> splices them into the text, and the rest is the
  producer of amendments. The subagent, its tool names and the JSON decoder are parameters.
\<close>

subsection \<open>Amendments and reports\<close>

definition MAX_APPENDED_CRITERIA :: nat where "MAX_APPENDED_CRITERIA = 3"
definition GOAL_AMENDER_MAX_RUNS :: nat where "GOAL_AMENDER_MAX_RUNS = 2"

record NewCriterion =
  nc_text :: string
  nc_write_scope :: "string list"
  nc_depends_on :: "nat list"

record PlanAmendment =
  pa_appended :: "NewCriterion list"
  pa_edges :: "(nat \<times> nat) list"
  pa_scopes :: "(nat \<times> string list) list"

definition amendment_is_empty :: "PlanAmendment \<Rightarrow> bool" where
  "amendment_is_empty a \<longleftrightarrow> pa_appended a = [] \<and> pa_edges a = [] \<and> pa_scopes a = []"

datatype Rejection =
    UnknownCriterion nat
  | SelfEdge nat
  | EdgeAlreadyDeclared nat nat
  | EdgeWouldCycle nat nat
  | UndeclaredScope nat
  | ScopeAlreadyCovered nat
  | NoDependencyTable
  | ChecklistMismatch nat nat
  | DuplicateCriterion
  | AppendCapReached

fun as_const_str :: "Rejection \<Rightarrow> string" where
  "as_const_str (UnknownCriterion c) = ''unknown_criterion''"
| "as_const_str (SelfEdge c) = ''self_edge''"
| "as_const_str (EdgeAlreadyDeclared c d) = ''edge_already_declared''"
| "as_const_str (EdgeWouldCycle c d) = ''edge_would_cycle''"
| "as_const_str (UndeclaredScope c) = ''undeclared_scope''"
| "as_const_str (ScopeAlreadyCovered c) = ''scope_already_covered''"
| "as_const_str NoDependencyTable = ''no_dependency_table''"
| "as_const_str (ChecklistMismatch c r) = ''checklist_mismatch''"
| "as_const_str DuplicateCriterion = ''duplicate_criterion''"
| "as_const_str AppendCapReached = ''append_cap_reached''"

record AmendmentReport =
  ar_appended :: "nat list"
  ar_edges :: "(nat \<times> nat) list"
  ar_scopes :: "(nat \<times> string list) list"
  ar_rejected :: "Rejection list"

definition report_changed :: "AmendmentReport \<Rightarrow> bool" where
  "report_changed r \<longleftrightarrow> ar_appended r \<noteq> [] \<or> ar_edges r \<noteq> [] \<or> ar_scopes r \<noteq> []"

subsection \<open>Change planning\<close>

text \<open>Push every normalised, non-empty path that is not yet in the list.\<close>

fun normalized_paths :: "string list \<Rightarrow> string list \<Rightarrow> string list" where
  "normalized_paths acc [] = acc"
| "normalized_paths acc (p # ps) =
     (let n = normalize_scope p
      in normalized_paths (if n \<noteq> [] \<and> n \<notin> set acc then acc @ [n] else acc) ps)"

fun append_loop :: "DualRow list \<Rightarrow> NewCriterion list \<Rightarrow> NewCriterion list \<Rightarrow> NewCriterion list \<times> Rejection list" where
  "append_loop rows out [] = (out, [])"
| "append_loop rows out (candidate # wanted) =
     (let txt = trim (nc_text candidate) in
      if txt = [] then append_loop rows out wanted
      else if MAX_APPENDED_CRITERIA \<le> length out then (out, [AppendCapReached])
      else if list_ex (\<lambda>r. eq_ignore_ascii_case (trim (dr_criterion r)) txt) rows
           \<or> list_ex (\<lambda>c. eq_ignore_ascii_case (nc_text c) txt) out
      then apsnd (Cons DuplicateCriterion) (append_loop rows out wanted)
      else append_loop rows (out @ [\<lparr>nc_text = txt, nc_write_scope = normalized_paths [] (nc_write_scope candidate),
             nc_depends_on = nc_depends_on candidate\<rparr>]) wanted)"

definition plan_appends :: "string \<Rightarrow> DualRow list \<Rightarrow> NewCriterion list \<Rightarrow> NewCriterion list \<times> Rejection list" where
  "plan_appends body rows wanted =
     (if wanted = [] then ([], [])
      else let numbered = extract_numbered_acceptance_criteria body
           in if length numbered \<noteq> length rows
              then ([], [ChecklistMismatch (length numbered) (length rows)])
              else append_loop rows [] wanted)"

definition filler_node :: "nat \<Rightarrow> CriterionNode" where
  "filler_node n = \<lparr>cn_number = n, cn_depends_on = [], cn_write_scope = []\<rparr>"

definition candidate_graph :: "CriterionGraph \<Rightarrow> nat \<Rightarrow> CriterionGraph" where
  "candidate_graph declared criteria =
     sort_key cn_number (foldl (\<lambda>nodes n. if list_ex (\<lambda>node. cn_number node = n) nodes then nodes else nodes @ [filler_node n])
       declared [1..<criteria + 1])"

text \<open>Updates of the first node with a number (\<open>iter_mut().find\<close>).\<close>

fun update_node :: "nat \<Rightarrow> (CriterionNode \<Rightarrow> CriterionNode) \<Rightarrow> CriterionGraph \<Rightarrow> CriterionGraph" where
  "update_node k f [] = []"
| "update_node k f (n # ns) = (if cn_number n = k then f n # ns else n # update_node k f ns)"

fun edge_loop :: "CriterionGraph \<Rightarrow> nat \<Rightarrow> (nat \<times> nat) list \<Rightarrow> (nat \<times> nat) list \<times> Rejection list" where
  "edge_loop candidate criteria [] = ([], [])"
| "edge_loop candidate criteria ((criterion, depends_on) # wanted) =
     (let reject = (\<lambda>r. apsnd (Cons r) (edge_loop candidate criteria wanted)) in
      if criterion = depends_on then reject (SelfEdge criterion)
      else case List.find (\<lambda>n. n = 0 \<or> criteria < n) [criterion, depends_on] of
        Some unknown \<Rightarrow> reject (UnknownCriterion unknown)
      | None \<Rightarrow>
          (case find_node candidate criterion of
             None \<Rightarrow> reject (UnknownCriterion criterion)
           | Some node \<Rightarrow>
               if depends_on \<in> set (cn_depends_on node) then reject (EdgeAlreadyDeclared criterion depends_on)
               else let grown = update_node criterion
                          (\<lambda>n. n\<lparr>cn_depends_on := cn_depends_on n @ [depends_on]\<rparr>) candidate
                    in if parallel_waves grown = None
                       then apsnd (Cons (EdgeWouldCycle criterion depends_on))
                              (edge_loop (update_node criterion
                                 (\<lambda>n. n\<lparr>cn_depends_on := filter (\<lambda>d. d \<noteq> depends_on) (cn_depends_on n)\<rparr>) grown) criteria wanted)
                       else apfst (Cons (criterion, depends_on)) (edge_loop grown criteria wanted)))"

definition plan_edges :: "CriterionGraph \<Rightarrow> nat \<Rightarrow> (nat \<times> nat) list \<Rightarrow> (nat \<times> nat) list \<times> Rejection list" where
  "plan_edges declared criteria wanted = edge_loop (candidate_graph declared criteria) criteria wanted"

fun added_paths :: "string list \<Rightarrow> string list \<Rightarrow> string list" where
  "added_paths have [] = []"
| "added_paths have (p # ps) =
     (let p = normalize_scope p in
      if p = [] then added_paths have ps
      else if list_ex (\<lambda>s. paths_overlap s p) have then added_paths have ps
      else p # added_paths (have @ [p]) ps)"

fun plan_scopes :: "CriterionGraph \<Rightarrow> (nat \<times> string list) list \<Rightarrow> (nat \<times> string list) list \<times> Rejection list" where
  "plan_scopes declared [] = ([], [])"
| "plan_scopes declared ((criterion, paths) # wanted) =
     (let reject = (\<lambda>r. apsnd (Cons r) (plan_scopes declared wanted)) in
      case find_node declared criterion of
        None \<Rightarrow> reject (UnknownCriterion criterion)
      | Some node \<Rightarrow>
          if cn_write_scope node = [] then reject (UndeclaredScope criterion)
          else let added = added_paths (cn_write_scope node) paths
               in if added = [] then reject (ScopeAlreadyCovered criterion)
                  else apfst (Cons (criterion, added)) (plan_scopes declared wanted))"

subsection \<open>Splicing into the text\<close>

definition escape_cell :: "string \<Rightarrow> string" where
  "escape_cell txt = escape_pipes txt"

fun last_in_section_loop :: "string \<Rightarrow> (string \<Rightarrow> bool) \<Rightarrow> nat option \<Rightarrow> nat option \<Rightarrow> nat \<Rightarrow> string list \<Rightarrow> nat option" where
  "last_in_section_loop section pred level found idx [] = found"
| "last_in_section_loop section pred None found idx (line # ls) =
     last_in_section_loop section pred (if is_section_header line section then Some (header_level line) else None)
       found (idx + 1) ls"
| "last_in_section_loop section pred (Some open) found idx (line # ls) =
     (if is_any_header line \<and> header_level line \<le> open then found
      else last_in_section_loop section pred (Some open) (if pred line then Some idx else found) (idx + 1) ls)"

definition last_line_in_section :: "string \<Rightarrow> string \<Rightarrow> (string \<Rightarrow> bool) \<Rightarrow> nat option" where
  "last_line_in_section body section pred = last_in_section_loop section pred None None 0 (lines body)"

definition listed_item :: "string \<Rightarrow> string option" where
  "listed_item line =
     (let t = trim line in
      case find_index (\<lambda>c. c = CHR ''.'' \<or> c = CHR '')'') t of
        None \<Rightarrow> None
      | Some i \<Rightarrow>
          (let num = take i t; rest = drop i t in
           if num = [] \<or> \<not> list_all is_ascii_digit num then None
           else let rest = trim (drop 1 rest) in if rest \<noteq> [] then Some rest else None))"

definition is_checklist_row :: "string \<Rightarrow> bool" where
  "is_checklist_row line =
     (let cells = table_cells line in
      3 \<le> length cells \<and> \<not> is_separator_row cells
      \<and> trim (cells ! 0) \<in> {''[x]'', ''[X]'', ''[ ]''} \<and> trim (cells ! 1) \<in> {''[x]'', ''[X]'', ''[ ]''})"

definition is_dependency_row :: "string \<Rightarrow> bool" where
  "is_dependency_row line =
     (let cells = table_cells line in
      3 \<le> length cells \<and> \<not> is_separator_row cells \<and> parse_number (cells ! 0) \<noteq> None)"

definition append_cell :: "string \<Rightarrow> string list \<Rightarrow> string" where
  "append_cell current add =
     (if add = [] then trim current
      else let parts = foldl (\<lambda>parts a. if a \<in> set parts then parts else parts @ [a]) (parse_list current) add
           in if parts = [] then ''-'' else join '', '' parts)"

definition indent_of :: "string \<Rightarrow> string" where
  "indent_of line = take (length line - length (trim_start line)) line"

definition cell_or_dash :: "string list \<Rightarrow> nat \<Rightarrow> string" where
  "cell_or_dash cells i = (if i < length cells then cells ! i else ''-'')"

definition rewrite_dependency_row ::
    "string \<Rightarrow> nat \<Rightarrow> (nat \<times> nat) list \<Rightarrow> (nat \<times> string list) list \<Rightarrow> string option" where
  "rewrite_dependency_row line number edges scopes =
     (let new_edges = map snd (filter (\<lambda>e. fst e = number) edges);
          new_scope = concat (map snd (filter (\<lambda>e. fst e = number) scopes))
      in if new_edges = [] \<and> new_scope = [] then None
         else let cells = table_cells line
              in Some (indent_of line @ ''| '' @ show_nat number
                   @ '' | '' @ append_cell (cell_or_dash cells 1) (map show_nat new_edges)
                   @ '' | '' @ append_cell (cell_or_dash cells 2) new_scope @ '' |''))"

definition criterion_line :: "nat \<Rightarrow> NewCriterion \<Rightarrow> string" where
  "criterion_line number c = show_nat number @ ''. '' @ nc_text c"

definition checklist_line :: "NewCriterion \<Rightarrow> string" where
  "checklist_line c = ''| [ ] | [ ] | '' @ escape_cell (nc_text c) @ '' |''"

definition dependency_line :: "(nat \<times> nat) list \<Rightarrow> nat \<Rightarrow> NewCriterion \<Rightarrow> string" where
  "dependency_line edges number c =
     (let deps = map (\<lambda>e. show_nat (snd e)) (filter (\<lambda>e. fst e = number) edges)
      in ''| '' @ show_nat number @ '' | '' @ append_cell ''-'' deps @ '' | '' @ append_cell ''-'' (nc_write_scope c) @ '' |'')"

definition numbered_from :: "nat \<Rightarrow> 'a list \<Rightarrow> (nat \<times> 'a) list" where
  "numbered_from k xs = zip [k..<k + length xs] xs"

text \<open>What the loop of \<open>rewrite\<close> writes for line \<open>idx\<close>: the line itself, then what is appended after it.\<close>

definition copied_line :: "nat option \<Rightarrow> (nat \<times> nat) list \<Rightarrow> (nat \<times> string list) list \<Rightarrow> string \<Rightarrow> string" where
  "copied_line last_dependency edges scopes line =
     (if last_dependency \<noteq> None \<and> is_dependency_row line
      then (case parse_number (table_cells line ! 0) of
              None \<Rightarrow> line
            | Some number \<Rightarrow>
                (case rewrite_dependency_row line number edges scopes of None \<Rightarrow> line | Some rewritten \<Rightarrow> rewritten))
      else line)"

definition rewrite_lines ::
    "string \<Rightarrow> nat \<Rightarrow> NewCriterion list \<Rightarrow> (nat \<times> nat) list \<Rightarrow> (nat \<times> string list) list \<Rightarrow> string list" where
  "rewrite_lines body existing appended edges scopes =
     (let last_criterion = last_line_in_section body ''acceptance criteria'' (\<lambda>l. listed_item l \<noteq> None);
          last_checklist = last_line_in_section body ''acceptance checklist'' is_checklist_row;
          last_dependency = last_line_in_section body GRAPH_SECTION is_dependency_row;
          new = numbered_from (existing + 1) appended
      in concat (map (\<lambda>(idx, line).
           copied_line last_dependency edges scopes line
           # (if Some idx = last_criterion then map (\<lambda>(k, c). criterion_line k c) new else [])
           @ (if Some idx = last_checklist then map checklist_line appended else [])
           @ (if Some idx = last_dependency then map (\<lambda>(k, c). dependency_line edges k c) new else []))
         (enumerate 0 (lines body))))"

definition rewrite ::
    "string \<Rightarrow> nat \<Rightarrow> NewCriterion list \<Rightarrow> (nat \<times> nat) list \<Rightarrow> (nat \<times> string list) list \<Rightarrow> string" where
  "rewrite body existing appended edges scopes =
     (let out = unlines (rewrite_lines body existing appended edges scopes)
      in if \<not> ends_with [NL] body \<and> ends_with [NL] out then butlast out else out)"

subsection \<open>Applying an amendment\<close>

definition own_edges :: "nat \<Rightarrow> NewCriterion list \<Rightarrow> (nat \<times> nat) list" where
  "own_edges existing appended =
     concat (map (\<lambda>(k, c). map (\<lambda>d. (k, d)) (nc_depends_on c)) (numbered_from (existing + 1) appended))"

definition apply_amendment :: "string \<Rightarrow> PlanAmendment \<Rightarrow> string \<times> AmendmentReport" where
  "apply_amendment body amendment =
     (let rows = parse_dual_rows body;
          existing = length rows;
          declared = parse_criterion_graph body;
          (appended, rejected_appends) = plan_appends body rows (pa_appended amendment);
          criteria = existing + length appended;
          wanted_edges = pa_edges amendment @ own_edges existing appended;
          (edges, rejected_edges, scopes, rejected_scopes) =
            (case declared of
               Some graph \<Rightarrow>
                 (let (edges, rej) = plan_edges graph criteria wanted_edges;
                      (scopes, rej') = plan_scopes graph (pa_scopes amendment)
                  in (edges, rej, scopes, rej'))
             | None \<Rightarrow> ([], if wanted_edges \<noteq> [] \<or> pa_scopes amendment \<noteq> [] then [NoDependencyTable] else [], [], []));
          report = \<lparr>ar_appended = [existing + 1..<existing + length appended + 1], ar_edges = edges, ar_scopes = scopes,
                    ar_rejected = rejected_appends @ rejected_edges @ rejected_scopes\<rparr>
      in if \<not> report_changed report then (body, report)
         else (rewrite body existing appended edges scopes, report))"

definition amend_plan_on_disk :: "PlanAmendment \<Rightarrow> plan_file \<Rightarrow> (io_error + AmendmentReport) \<times> plan_file" where
  "amend_plan_on_disk amendment file =
     (case pf_body file of
        None \<Rightarrow> (Inl ReadError, file)
      | Some body \<Rightarrow>
          (let (updated, report) = apply_amendment body amendment in
           if updated \<noteq> body then
             (if pf_writable file then (Inr report, file\<lparr>pf_body := Some updated\<rparr>) else (Inl WriteError, file))
           else (Inr report, file)))"

definition amendment_from_observed_writes :: "(nat \<times> string list) list \<Rightarrow> PlanAmendment" where
  "amendment_from_observed_writes observed =
     \<lparr>pa_appended = [], pa_edges = [],
      pa_scopes = filter (\<lambda>e. snd e \<noteq> []) (map (\<lambda>(criterion, paths). (criterion, normalized_paths [] paths)) observed)\<rparr>"

subsection \<open>The amendment writer\<close>

record ProposedCriterion =
  pc_text :: string
  pc_write_scope :: "string list"
  pc_depends_on :: "json list"

fun lenient_number :: "json \<Rightarrow> nat option" where
  "lenient_number (JNumber n) = opt_filter (\<lambda>n. n \<le> u32_max) n"
| "lenient_number (JString s) = parse_number s"
| "lenient_number _ = None"

text \<open>\<open>from_str\<close> is \<open>serde_json::from_str::<AmendmentProposal>\<close>, giving the list of criteria.\<close>

definition parse_amendment_proposal ::
    "(string \<Rightarrow> ProposedCriterion list option) \<Rightarrow> string \<Rightarrow> PlanAmendment option" where
  "parse_amendment_proposal from_str raw =
     (let proposal = (case from_str raw of
            Some p \<Rightarrow> Some p
          | None \<Rightarrow>
              (case (find_index (\<lambda>c. c = CHR ''{'') raw, rfind_index (\<lambda>c. c = CHR ''}'') raw) of
                 (Some start, Some finish) \<Rightarrow>
                   if start \<le> finish + 1 then from_str (take (finish + 1 - start) (drop start raw)) else None
               | _ \<Rightarrow> None))
      in map_option (\<lambda>criteria.
           \<lparr>pa_appended = map (\<lambda>c. \<lparr>nc_text = trim (pc_text c), nc_write_scope = pc_write_scope c,
                                   nc_depends_on = List.map_filter lenient_number (pc_depends_on c)\<rparr>)
                            (filter (\<lambda>c. trim (pc_text c) \<noteq> []) criteria),
            pa_edges = [], pa_scopes = []\<rparr>) proposal)"

definition MAX_QUOTED_FINDINGS :: nat where "MAX_QUOTED_FINDINGS = 12"

function replace_all :: "string \<Rightarrow> string \<Rightarrow> string \<Rightarrow> string" where
  "replace_all old new s =
     (if old = [] then s
      else case find_sub old s of
        None \<Rightarrow> s
      | Some i \<Rightarrow> take i s @ new @ replace_all old new (drop (i + length old) s))"
  by auto
termination
proof (relation "measure (\<lambda>(old, new, s). length s)", simp, goal_cases)
  case (1 old new s i)
  then have "i \<le> length s" "starts_with old (drop i s)" using find_sub_SomeD by auto
  then have "s \<noteq> []" using 1 by (auto simp: starts_with_iff)
  then show ?case using 1 by simp
qed

declare replace_all.simps [simp del]

definition render_amender_prompt ::
    "string \<Rightarrow> (string \<Rightarrow> string) \<Rightarrow> string \<Rightarrow> string \<Rightarrow> string \<Rightarrow> string list \<Rightarrow> string" where
  "render_amender_prompt template apply_tools plan_path amendment_path objective unattributed =
     apply_tools (replace_all ''{AMENDMENT_FILE}'' amendment_path (replace_all ''{PLAN_FILE}'' plan_path template))
     @ [NL, NL] @ ''OBJECTIVE:'' @ [NL] @ objective
     @ [NL, NL] @ ''UNATTRIBUTED FINDINGS:'' @ [NL]
     @ concat (map (\<lambda>f. ''- '' @ trim f @ [NL]) (take MAX_QUOTED_FINDINGS unattributed))"

datatype GoalAmenderOutcome = Proposed PlanAmendment | Nothing | FailedOpen

text \<open>
  \<open>spawn\<close> runs the subagent on the prompt, with the contents of the amendment file it finds, and gives
  its final message, or None for an error, and the contents of the file afterwards, None when it
  cannot be read. \<open>removed\<close> says whether removing the old file worked. The final message is only
  logged.
\<close>

definition run_goal_amender ::
    "(string option \<Rightarrow> string \<Rightarrow> string option \<times> string option) \<Rightarrow> (string \<Rightarrow> ProposedCriterion list option)
     \<Rightarrow> bool \<Rightarrow> string option \<Rightarrow> string \<Rightarrow> string list \<Rightarrow> GoalAmenderOutcome" where
  "run_goal_amender spawn from_str removed old_file prompt unattributed =
     (if unattributed = [] then Nothing
      else case spawn (if removed then None else old_file) prompt of
        (None, file) \<Rightarrow> FailedOpen
      | (Some response, None) \<Rightarrow> FailedOpen
      | (Some response, Some raw) \<Rightarrow>
          (case parse_amendment_proposal from_str raw of
             Some a \<Rightarrow> if pa_appended a \<noteq> [] then Proposed a else Nothing
           | None \<Rightarrow> FailedOpen))"

end
