(* ===== verification/Wave_Round.thy ===== *)
theory Wave_Round
  imports Session_Gate Fanout Plan_Amend
begin

text \<open>
  The two places where the session changes the contract on its own, in
  \<^verbatim>\<open>crates/codegen/xai-grok-shell/src/session/acp_session_impl/goal_support.rs\<close>: a wave of parallel workers,
  whose merges set Exec marks and widen write scopes, and the amendment writer, which turns findings
  that belong to no criterion into criteria. Both work on the session of \<open>Session_Gate\<close>, whose plan is
  the file they read and write.
\<close>

subsection \<open>The world around the two handlers\<close>

datatype goal_event =
    GoalFanoutDeclined string
  | GoalFanoutStarted "nat list"
  | GoalFanoutFinished "nat list" "nat list" nat
  | GoalPlanAmenderRan nat nat bool nat
  | GoalPlanAmended "nat list" "nat list" nat "string list"

text \<open>
  The state: the session, the repository the workers are merged into, the proposal file of the amendment
  writer and the events that were emitted.
\<close>

record 'r wave_state =
  wv_session :: Session
  wv_repo :: 'r
  wv_proposal :: "string option"
  wv_events :: "goal_event list"

text \<open>
  What the handlers ask of the outside. \<open>wh_meanwhile\<close> is what happens to the session while a handler
  waits for subagents (token records, a tool of the subagent that touches the plan); \<open>wh_mtime\<close> gives the
  modification time of the plan after a write.
\<close>

record 'r wave_host =
  wh_env :: env
  wh_fanout_max :: nat
  wh_worktrees_disposed :: bool
  wh_repo_available :: bool
  wh_coordinator :: "(SubagentRequest \<Rightarrow> spawn_reply) option"
  wh_session_id :: string
  wh_prompt_id :: "string option"
  wh_cwd :: string
  wh_new_id :: "nat \<Rightarrow> string"
  wh_apply_worktree :: "'r apply_worktree"
  wh_meanwhile :: "Session \<Rightarrow> Session"
  wh_plan_path :: string
  wh_plan_exists :: bool
  wh_plan_writable :: bool
  wh_mtime :: "nat option \<Rightarrow> nat option"
  wh_latency :: nat
  wh_proposal_removed :: bool
  wh_spawn_amender :: "string option \<Rightarrow> string \<Rightarrow> string option \<times> string option"
  wh_amender_template :: string
  wh_role_tools :: "string \<Rightarrow> string"
  wh_proposal_from_str :: "string \<Rightarrow> ProposedCriterion list option"

definition emit :: "goal_event \<Rightarrow> 'r wave_state \<Rightarrow> 'r wave_state" where
  "emit event w = w\<lparr>wv_events := wv_events w @ [event]\<rparr>"

definition on_session :: "(Session \<Rightarrow> Session) \<Rightarrow> 'r wave_state \<Rightarrow> 'r wave_state" where
  "on_session f w = w\<lparr>wv_session := f (wv_session w)\<rparr>"

text \<open>An operation on the plan file, run on the plan of the session; only a changed body is a write.\<close>

definition on_plan :: "'r wave_host \<Rightarrow> (plan_file \<Rightarrow> 'a \<times> plan_file) \<Rightarrow> 'r wave_state \<Rightarrow> 'a \<times> 'r wave_state" where
  "on_plan h f w =
     (let s = wv_session w;
          (result, file) = f \<lparr>pf_body = ss_plan s, pf_writable = wh_plan_writable h\<rparr>
      in (result, if pf_body file = ss_plan s then w
                  else on_session (\<lambda>s. s\<lparr>ss_plan := pf_body file, ss_plan_mtime := wh_mtime h (ss_plan_mtime s)\<rparr>) w))"

subsection \<open>Recording what a wave wrote\<close>

definition emit_plan_amended :: "AmendmentReport \<Rightarrow> 'r wave_state \<Rightarrow> 'r wave_state" where
  "emit_plan_amended report w =
     (if \<not> report_changed report then w
      else emit (GoalPlanAmended (ar_appended report) (map fst (ar_scopes report)) (length (ar_edges report))
             (map as_const_str (ar_rejected report))) w)"

definition record_observed_writes :: "'r wave_host \<Rightarrow> MergeOutcome list \<Rightarrow> 'r wave_state \<Rightarrow> 'r wave_state" where
  "record_observed_writes h merges w =
     (let amendment = amendment_from_observed_writes (observed_writes merges) in
      if amendment_is_empty amendment then w
      else case on_plan h (amend_plan_on_disk amendment) w of
        (Inr report, w) \<Rightarrow> emit_plan_amended report w
      | (Inl e, w) \<Rightarrow> w)"

subsection \<open>A wave\<close>

definition wave_spawner :: "'r wave_host \<Rightarrow> ChannelWorkerSpawner" where
  "wave_spawner h = \<lparr>sp_parent_session_id = wh_session_id h, sp_parent_prompt_id = wh_prompt_id h,
     sp_cwd = Some (wh_cwd h), sp_role_model = None, sp_role_agent_type = None\<rparr>"

definition settle_wave :: "'r wave_host \<Rightarrow> WorkerOutcome list \<Rightarrow> 'r wave_state \<Rightarrow> MergeOutcome list \<times> 'r wave_state" where
  "settle_wave h workers w =
     (let (merges, repo) = merge_wave (wh_apply_worktree h) (wh_session_id h) workers (wv_repo w);
          w = w\<lparr>wv_repo := repo\<rparr>;
          landed_ns = map merge_criterion (filter landed merges);
          w = (if landed_ns \<noteq> [] then snd (on_plan h (set_exec_marks_for_criteria landed_ns True) w) else w)
      in (merges, record_observed_writes h merges w))"

definition maybe_run_criterion_wave ::
    "'r wave_host \<Rightarrow> string \<Rightarrow> CriterionView list \<Rightarrow> 'r wave_state \<Rightarrow> string option \<times> 'r wave_state" where
  "maybe_run_criterion_wave h objective criteria w =
     (if wh_fanout_max h \<le> 1 then (None, w)
      else case plan_wave criteria (wh_fanout_max h) (wh_repo_available h) (wh_worktrees_disposed h) of
        Inl declined \<Rightarrow>
          (None, case declined of
             Disabled \<Rightarrow> w
           | NotEnoughReady _ \<Rightarrow> w
           | _ \<Rightarrow> emit (GoalFanoutDeclined (declined_str declined)) w)
      | Inr wave \<Rightarrow>
          (case wh_coordinator h of
             None \<Rightarrow> (None, w)
           | Some coordinator \<Rightarrow>
               (let numbers = map cv_number wave;
                    w = emit (GoalFanoutStarted numbers) w;
                    workers = run_wave coordinator (wave_spawner h) (wh_new_id h) objective wave;
                    w = on_session (wh_meanwhile h) w;
                    (merges, w) = settle_wave h workers w;
                    w = emit (GoalFanoutFinished numbers (map merge_criterion (filter landed merges)) (wh_latency h)) w
                in (Some (render_wave_report workers merges), w))))"

subsection \<open>The amendment writer\<close>

text \<open>The claim and the reading of its inputs, under one lock.\<close>

definition claim_amender :: "Session \<Rightarrow> (string \<times> string) option \<times> Session" where
  "claim_amender s =
     (let (won, t) = claim_amender_run GOAL_AMENDER_MAX_RUNS (ss_tracker s);
          s = s\<lparr>ss_tracker := t\<rparr>
      in (if \<not> won then None
          else map_option (\<lambda>g. (go_objective g, go_verifier_id g)) (gt_orchestration t), s))"

definition apply_proposal :: "'r wave_host \<Rightarrow> PlanAmendment \<Rightarrow> 'r wave_state \<Rightarrow> 'r wave_state" where
  "apply_proposal h amendment w =
     (case on_plan h (amend_plan_on_disk amendment) w of
        (Inr report, w) \<Rightarrow>
          (let w = emit_plan_amended report w
           in if report_changed report then on_session refresh_view w else w)
      | (Inl e, w) \<Rightarrow> w)"

text \<open>What follows a claim that was won, on a plan that exists.\<close>

definition run_claimed_amender :: "'r wave_host \<Rightarrow> string list \<Rightarrow> string \<Rightarrow> string \<Rightarrow> 'r wave_state \<Rightarrow> 'r wave_state" where
  "run_claimed_amender h unattributed objective verifier_id w =
     (let prompt = render_amender_prompt (wh_amender_template h) (wh_role_tools h) (wh_plan_path h)
            (amendment_proposal_file (wh_env h) verifier_id) objective unattributed;
          outcome = run_goal_amender (wh_spawn_amender h) (wh_proposal_from_str h) (wh_proposal_removed h)
            (wv_proposal w) prompt unattributed;
          w = on_session (wh_meanwhile h) w;
          w = w\<lparr>wv_proposal := snd (wh_spawn_amender h (if wh_proposal_removed h then None else wv_proposal w) prompt)\<rparr>;
          w = emit (GoalPlanAmenderRan (length unattributed)
                (case outcome of Proposed a \<Rightarrow> length (pa_appended a) | _ \<Rightarrow> 0)
                (outcome = FailedOpen) (wh_latency h)) w
      in case outcome of Proposed amendment \<Rightarrow> apply_proposal h amendment w | _ \<Rightarrow> w)"

definition amend_plan_for_unattributed_findings ::
    "'r wave_host \<Rightarrow> ClassifierFinding list \<Rightarrow> 'r wave_state \<Rightarrow> 'r wave_state" where
  "amend_plan_for_unattributed_findings h findings w =
     (let unattributed = map cf_message (filter (\<lambda>f. cf_criterion f = None) findings) in
      if unattributed = [] then w
      else if wh_coordinator h = None then w
      else
        let (claim, s) = claim_amender (wv_session w);
            w = w\<lparr>wv_session := s\<rparr>
        in case claim of
             None \<Rightarrow> w
           | Some (objective, verifier_id) \<Rightarrow>
               if \<not> wh_plan_exists h then w else run_claimed_amender h unattributed objective verifier_id w)"

end
