(* ===== verification/Section_Splice.thy ===== *)
theory Section_Splice
  imports Plan_Amend
begin

text \<open>
  Inserting lines into a section of a plan. Three readers scan a section for items (the checklist
  rows, the numbered criteria and the rows of the dependency table), and one editor inserts lines after
  the last item of each section and rewrites single lines. The locale \<open>section_reader\<close> is the contract
  of such a reader with the editor's notion of an item line: what the reader sees after the edit is what it
  saw before, line by line, followed by the items of the lines inserted for it.
\<close>

fun splice_lines :: "(string \<Rightarrow> string) \<Rightarrow> (nat \<Rightarrow> string list) \<Rightarrow> nat \<Rightarrow> string list \<Rightarrow> string list" where
  "splice_lines f ins idx [] = []"
| "splice_lines f ins idx (l # ls) = f l # ins idx @ splice_lines f ins (Suc idx) ls"

definition same_headers :: "(string \<Rightarrow> string) \<Rightarrow> bool" where
  "same_headers f \<longleftrightarrow> (\<forall>l. is_any_header (f l) = is_any_header l \<and> header_level (f l) = header_level l
     \<and> (\<forall>name. is_section_header (f l) name = is_section_header l name))"

lemma splice_lines_enumerate:
  "concat (map (\<lambda>(idx, l). f l # ins idx) (enumerate k ls)) = splice_lines f ins k ls"
  by (induction ls arbitrary: k) auto

lemma section_loop_plain:
  "\<forall>l\<in>set xs. \<not> is_any_header l \<Longrightarrow> section_loop name (Some open) (xs @ ys) = xs @ section_loop name (Some open) ys"
  "\<forall>l\<in>set xs. \<not> is_any_header l \<Longrightarrow> section_loop name None (xs @ ys) = section_loop name None ys"
  by (induction xs) (auto dest: section_header_is_header)

lemma last_in_section_ge:
  "last_in_section_loop name pred level found idx ls = Some j \<Longrightarrow> found = Some j \<or> idx \<le> j"
  by (induction name pred level found idx ls rule: last_in_section_loop.induct) (auto split: if_splits)

lemma last_in_section_found:
  "\<forall>j. found = Some j \<longrightarrow> j < idx \<Longrightarrow> last_in_section_loop name pred (Some open) found idx ls = found \<Longrightarrow>
   \<forall>l\<in>set (section_loop name (Some open) ls). \<not> pred l"
proof (induction ls arbitrary: found idx)
  case (Cons l ls)
  show ?case
  proof (cases "is_any_header l \<and> header_level l \<le> open")
    case False
    have "\<not> pred l"
    proof
      assume "pred l"
      then have r: "last_in_section_loop name pred (Some open) (Some idx) (Suc idx) ls = found"
        using Cons.prems(2) False by auto
      then have "found \<noteq> None"
      proof -
        have "last_in_section_loop name pred (Some open) (Some k) i xs \<noteq> None" for k i xs
          by (induction xs arbitrary: k i) auto
        with r show ?thesis by auto
      qed
      then obtain j where "found = Some j" by auto
      with r last_in_section_ge [of name pred "Some open" "Some idx" "Suc idx" ls j] Cons.prems(1) show False by auto
    qed
    with Cons.prems False have "last_in_section_loop name pred (Some open) found (Suc idx) ls = found" by auto
    then have "\<forall>l\<in>set (section_loop name (Some open) ls). \<not> pred l"
      using Cons.prems(1) by (intro Cons.IH [of found "Suc idx"]) (auto simp: less_SucI)
    with False \<open>\<not> pred l\<close> show ?thesis by auto
  qed auto
qed simp

lemma map_filter_None: "\<forall>x\<in>set xs. g x = None \<Longrightarrow> List.map_filter g xs = []"
  by (induction xs) (auto simp: map_filter_simps)

lemma map_filter_append: "List.map_filter g (xs @ ys) = List.map_filter g xs @ List.map_filter g ys"
  by (simp add: List.map_filter_def)

locale section_reader =
  fixes name :: string and item :: "string \<Rightarrow> 'a option" and pred :: "string \<Rightarrow> bool"
  assumes item_pred: "item l \<noteq> None \<Longrightarrow> pred l"
begin

lemma splice_section:
  assumes f: "same_headers f" and fp: "\<And>l. item (f l) \<noteq> None \<Longrightarrow> pred l"
    and ins: "\<And>i l. l \<in> set (ins i) \<Longrightarrow> \<not> is_any_header l"
    and other: "\<And>i. idx \<le> i \<Longrightarrow> Some i \<noteq> last_in_section_loop name pred level found idx ls \<Longrightarrow>
        List.map_filter item (ins i) = []"
    and fresh: "\<forall>j. found = Some j \<longrightarrow> j < idx"
  shows "List.map_filter item (section_loop name level (splice_lines f ins idx ls))
       = List.map_filter (\<lambda>l. item (f l)) (section_loop name level ls)
         @ (case last_in_section_loop name pred level found idx ls of
              Some j \<Rightarrow> if idx \<le> j then List.map_filter item (ins j) else [] | None \<Rightarrow> [])"
  using other fresh
proof (induction ls arbitrary: level found idx)
  case Nil
  then show ?case by (auto simp: map_filter_simps split: option.split)
next
  case (Cons l ls)
  note h = f [unfolded same_headers_def, rule_format, of l]
  show ?case
  proof (cases level)
    case None
    let ?lv = "if is_section_header l name then Some (header_level l) else None"
    have ih: "List.map_filter item (section_loop name ?lv (splice_lines f ins (Suc idx) ls))
       = List.map_filter (\<lambda>l. item (f l)) (section_loop name ?lv ls)
         @ (case last_in_section_loop name pred ?lv found (Suc idx) ls of
              Some j \<Rightarrow> if Suc idx \<le> j then List.map_filter item (ins j) else [] | None \<Rightarrow> [])"
      using Cons.prems None by (intro Cons.IH) (auto simp: less_SucI)
    have "Some idx \<noteq> last_in_section_loop name pred ?lv found (Suc idx) ls"
      using last_in_section_ge [of name pred ?lv found "Suc idx" ls idx] Cons.prems(2) by auto
    then have quiet: "List.map_filter item (ins idx) = []" using Cons.prems(1) [of idx] None by auto
    have step: "List.map_filter item (section_loop name level (splice_lines f ins idx (l # ls)))
        = List.map_filter item (section_loop name ?lv (splice_lines f ins (Suc idx) ls))"
      using h quiet ins section_loop_plain [of "ins idx"] None by (auto simp: map_filter_append)
    have "idx \<le> j \<longleftrightarrow> Suc idx \<le> j" if "last_in_section_loop name pred ?lv found (Suc idx) ls = Some j" for j
      using that last_in_section_ge [of name pred ?lv found "Suc idx" ls j] Cons.prems(2) by auto
    then show ?thesis unfolding step ih using None by (auto split: option.split)
  next
    case (Some lvl)
    show ?thesis
    proof (cases "is_any_header l \<and> header_level l \<le> lvl")
      case True
      then show ?thesis using Some h Cons.prems(2) by (auto simp: map_filter_simps split: option.split)
    next
      case False
      let ?found = "if pred l then Some idx else found"
      let ?r = "last_in_section_loop name pred (Some lvl) ?found (Suc idx) ls"
      have r: "last_in_section_loop name pred level found idx (l # ls) = ?r" using Some False by auto
      have ih: "List.map_filter item (section_loop name (Some lvl) (splice_lines f ins (Suc idx) ls))
         = List.map_filter (\<lambda>l. item (f l)) (section_loop name (Some lvl) ls)
           @ (case ?r of Some j \<Rightarrow> if Suc idx \<le> j then List.map_filter item (ins j) else [] | None \<Rightarrow> [])"
        using Cons.prems r by (intro Cons.IH) (auto simp: less_SucI)
      have step: "List.map_filter item (section_loop name level (splice_lines f ins idx (l # ls)))
          = List.map_filter item [f l] @ List.map_filter item (ins idx)
            @ List.map_filter item (section_loop name (Some lvl) (splice_lines f ins (Suc idx) ls))"
        using h False ins section_loop_plain(1) [of "ins idx"] Some by (auto simp: map_filter_append map_filter_simps split: option.split)
      have old: "List.map_filter (\<lambda>l. item (f l)) (section_loop name level (l # ls))
          = List.map_filter item [f l] @ List.map_filter (\<lambda>l. item (f l)) (section_loop name (Some lvl) ls)"
        using Some False by (auto simp: map_filter_simps split: option.split)
      show ?thesis
      proof (cases "?r = Some idx")
        case True
        then have "pred l" using last_in_section_ge [of name pred "Some lvl" ?found "Suc idx" ls idx] Cons.prems(2) by (auto split: if_splits)
        then have "\<forall>l\<in>set (section_loop name (Some lvl) ls). \<not> pred l"
          using True by (intro last_in_section_found [of "Some idx" "Suc idx"]) auto
        then have "List.map_filter (\<lambda>l. item (f l)) (section_loop name (Some lvl) ls) = []"
          using fp by (intro map_filter_None) blast
        then show ?thesis unfolding step old ih r using True by simp
      next
        case ne: False
        then have "List.map_filter item (ins idx) = []" using Cons.prems(1) [of idx] r by auto
        moreover have "idx \<le> j \<longleftrightarrow> Suc idx \<le> j" if "?r = Some j" for j
          using that ne by auto
        ultimately show ?thesis unfolding step old ih r by (auto split: option.split)
      qed
    qed
  qed
qed

lemma items_nonempty_last:
  assumes "List.map_filter item (section_loop name None ls) \<noteq> []"
  shows "last_in_section_loop name pred None None 0 ls \<noteq> None"
proof -
  have "last_in_section_loop name pred lv found idx xs \<noteq> None"
    if "found \<noteq> None \<or> List.map_filter item (section_loop name lv xs) \<noteq> []" for lv found idx xs
    using that
  proof (induction xs arbitrary: lv found idx)
    case (Cons l xs)
    then show ?case using item_pred [of l] by (cases lv) (auto simp: map_filter_simps split: if_splits option.splits)
  qed (auto simp: map_filter_simps)
  with assms show ?thesis by blast
qed

lemma splice_items:
  assumes f: "same_headers f" and fp: "\<And>l. item (f l) \<noteq> None \<Longrightarrow> pred l"
    and ins: "\<And>i l. l \<in> set (ins i) \<Longrightarrow> \<not> is_any_header l"
    and new: "\<And>i. List.map_filter item (ins i) = (if Some i = last_in_section_loop name pred None None 0 ls then news else [])"
    and some: "List.map_filter item (section_loop name None ls) \<noteq> [] \<or> news = []"
  shows "List.map_filter item (section_loop name None (splice_lines f ins 0 ls))
       = List.map_filter (\<lambda>l. item (f l)) (section_loop name None ls) @ news"
proof -
  let ?last = "last_in_section_loop name pred None None 0 ls"
  have "List.map_filter item (section_loop name None (splice_lines f ins 0 ls))
     = List.map_filter (\<lambda>l. item (f l)) (section_loop name None ls)
       @ (case ?last of Some j \<Rightarrow> if 0 \<le> j then List.map_filter item (ins j) else [] | None \<Rightarrow> [])"
    using new by (intro splice_section [OF f fp ins]) auto
  also have "(case ?last of Some j \<Rightarrow> if 0 \<le> j then List.map_filter item (ins j) else [] | None \<Rightarrow> []) = news"
    using some items_nonempty_last [of ls] new by (cases ?last) auto
  finally show ?thesis .
qed

end

end
