(* ===== verification/Amend_Correct.thy ===== *)
theory Amend_Correct
  imports Section_Splice Graph_Correct
begin

text \<open>
  Correctness of plan amendments: what every reader of the plan sees after an amendment is what it saw
  before, extended. The checklist and the numbered criteria keep their rows, marks and numbers and grow by
  the same appended criteria; the dependency table keeps every dependency and every declared path and
  stays schedulable.
\<close>

subsection \<open>Rows that begin with a bar\<close>

definition bar_row :: "string \<Rightarrow> string \<Rightarrow> string" where
  "bar_row a r = ''| '' @ a @ '' | '' @ r @ '' |''"

lemma trim_bar_row: "trim (bar_row a r) = bar_row a r"
  using trim_plain [of "CHR ''|''" "CHR ''|''" "'' '' @ a @ '' | '' @ r @ '' ''"] by (simp add: bar_row_def)

lemma bar_row_cells:
  assumes "trim a = a" and "CHR ''|'' \<notin> set a"
  shows "table_cells (bar_row a r) = a # map trim (split_on (CHR ''|'') r)"
proof -
  let ?X = "('' '' @ a @ '' '') @ CHR ''|'' # ('' '' @ r @ '' '')"
  have "trim_matches (CHR ''|'') (bar_row a r) = ?X"
    by (simp add: bar_row_def trim_matches_def trim_start_char_def trim_end_char_def)
  moreover have "split_on (CHR ''|'') ?X = ('' '' @ a @ '' '') # split_on (CHR ''|'') ('' '' @ r @ '' '')"
    using assms(2) by (intro split_on_append) simp
  moreover have "map trim (split_on (CHR ''|'') ('' '' @ r @ '' '')) = map trim (split_on (CHR ''|'') r)"
    by (simp only: trim_hd_ws trim_last_ws is_ws_enc_single plain_pipe ascii_ws_space)
  moreover have "trim ('' '' @ a @ '' '') = a"
    using assms(1) trim_snoc_ws [of "CHR '' ''" "'' '' @ a"] trim_Cons_ws [of "CHR '' ''" a] by simp
  moreover have "starts_with ''|'' (bar_row a r)" by (simp add: bar_row_def)
  ultimately show ?thesis by (simp add: table_cells_def trim_bar_row Let_def)
qed

lemma trim_bar_level: "trim l = CHR ''|'' # s \<Longrightarrow> header_level l = 0"
  by (simp add: header_level_trim)

lemma level_zero_no_header: "header_level l = 0 \<Longrightarrow> \<not> is_any_header l \<and> \<not> is_section_header l name"
  by (simp add: is_any_header_level is_section_header_trim)

lemma bar_row_level [simp]: "header_level (bar_row a r) = 0"
  using trim_bar_level [of "bar_row a r" "'' '' @ a @ '' | '' @ r @ '' |''"] trim_bar_row [of a r]
  by (simp add: bar_row_def)

lemma cells_begin_with_bar: "table_cells l \<noteq> [] \<Longrightarrow> \<exists>s. trim l = CHR ''|'' # s"
  by (cases "trim l") (auto simp: table_cells_def Let_def split: if_splits)

lemma indent_of_ws:
  obtains ws where "indent_of l = concat ws" and "\<forall>w\<in>set ws. is_ws_enc w" and "l = indent_of l @ trim_start l"
proof -
  obtain ws where ws: "l = concat ws @ trim_start l" "\<forall>w\<in>set ws. is_ws_enc w" by (rule trim_start_cases)
  then have "indent_of l = concat ws"
    unfolding indent_of_def by (metis append_eq_conv_conj diff_add_inverse2 length_append)
  with ws that show ?thesis by simp
qed

lemma trim_indent: "trim (indent_of l @ s) = trim s"
  by (rule indent_of_ws [of l]) (simp add: trim_concat_ws_append)

lemma show_nat_chars: "c \<in> set (show_nat n) \<Longrightarrow> is_ascii_digit c"
  using show_nat_digits [of n] by (auto simp: list_all_iff)

lemma digit_plain: "is_ascii_digit c \<Longrightarrow> plain c"
proof (rule ccontr)
  assume "is_ascii_digit c" and "\<not> plain c"
  then show False by (auto simp: plain_def ascii_ws_def wide_ws_def is_ascii_digit_def)
qed

lemma digits_neq: "is_ascii_digit c \<Longrightarrow> c \<noteq> CHR ''|'' \<and> c \<noteq> NL \<and> c \<noteq> CHR ''#'' \<and> c \<noteq> CHR ''.'' \<and> c \<noteq> CHR '','' \<and> c \<noteq> CHR '';'' \<and> c \<noteq> BACKTICK \<and> c \<noteq> CHR ''[''"
  by (auto simp: is_ascii_digit_def)

lemma trim_digits:
  assumes "list_all is_ascii_digit ds"
  shows "trim ds = ds"
proof (cases ds rule: rev_cases)
  case (snoc ys y)
  then have y: "plain y" using assms digit_plain by simp
  have "trim_start ds = ds"
  proof (cases ds)
    case (Cons x xs)
    then show ?thesis using assms digit_plain [of x] by simp
  qed (simp add: snoc)
  then show ?thesis using y by (simp add: trim_def snoc)
qed (simp add: trim_def trim_start_def trim_end_def strip_while_None)

lemma trim_show_nat [simp]: "trim (show_nat n) = show_nat n"
  by (rule trim_digits) (rule show_nat_digits)

lemma parse_number_show_nat: "0 < n \<Longrightarrow> n \<le> u32_max \<Longrightarrow> parse_number (show_nat n) = Some n"
proof -
  assume n: "0 < n" "n \<le> u32_max"
  have dw: "dropWhile (\<lambda>c. \<not> is_ascii_digit c) (show_nat n) = show_nat n"
    using show_nat_digits [of n] by (cases "show_nat n") auto
  have tw: "takeWhile is_ascii_digit (show_nat n) = show_nat n"
    by (simp add: takeWhile_eq_all_conv show_nat_chars)
  show ?thesis unfolding parse_number_def Let_def trim_show_nat dw tw using n by (simp add: parse_uint_show_nat)
qed

lemma parse_number_no_digit: "\<forall>c\<in>set s. \<not> is_ascii_digit c \<Longrightarrow> parse_number s = None"
proof -
  assume "\<forall>c\<in>set s. \<not> is_ascii_digit c"
  then have "dropWhile (\<lambda>c. \<not> is_ascii_digit c) (trim s) = []" using set_trim_subset [of s] by auto
  then show ?thesis by (simp only: parse_number_def Let_def) (simp add: parse_uint_def)
qed

subsection \<open>The lines an amendment writes\<close>

lemma dependency_line_bar:
  "dependency_line edges k c = bar_row (show_nat k)
     (append_cell ''-'' (map (\<lambda>e. show_nat (snd e)) (filter (\<lambda>e. fst e = k) edges)) @ '' | '' @ append_cell ''-'' (nc_write_scope c))"
  by (simp add: dependency_line_def bar_row_def Let_def)

lemma checklist_line_bar: "checklist_line c = bar_row ''[ ]'' (''[ ] | '' @ escape_cell (nc_text c))"
  by (simp add: checklist_line_def bar_row_def)

lemma rewrite_dependency_row_bar:
  "rewrite_dependency_row l k edges scopes = Some r \<Longrightarrow> \<exists>x. r = indent_of l @ bar_row (show_nat k) x"
  by (auto simp: rewrite_dependency_row_def bar_row_def Let_def split: if_splits)

lemma digit_row_first_cell:
  "\<exists>cs. table_cells (indent_of l @ bar_row (show_nat k) x) = show_nat k # cs"
proof -
  have "table_cells (indent_of l @ bar_row (show_nat k) x) = table_cells (bar_row (show_nat k) x)"
    by (simp add: table_cells_def trim_indent)
  moreover have "CHR ''|'' \<notin> set (show_nat k)" using show_nat_chars digits_neq by blast
  ultimately show ?thesis by (simp add: bar_row_cells)
qed

lemma digit_row_level: "header_level (indent_of l @ bar_row (show_nat k) x) = 0"
proof -
  have "header_level (indent_of l @ bar_row (show_nat k) x) = header_level (bar_row (show_nat k) x)"
    by (simp only: header_level_trim trim_indent)
  then show ?thesis by simp
qed

text \<open>A line that the dependency rewriting may touch is a table row before and after.\<close>

lemma copied_line_cases:
  "copied_line d edges scopes l = l
   \<or> (is_dependency_row l \<and> d \<noteq> None \<and> (\<exists>k x. parse_number (table_cells l ! 0) = Some k \<and>
        copied_line d edges scopes l = indent_of l @ bar_row (show_nat k) x))"
  by (auto simp: copied_line_def split: option.splits dest: rewrite_dependency_row_bar)

lemma dependency_row_level: "is_dependency_row l \<Longrightarrow> header_level l = 0"
proof -
  assume "is_dependency_row l"
  then have "table_cells l \<noteq> []" by (auto simp: is_dependency_row_def)
  from cells_begin_with_bar [OF this] show ?thesis using trim_bar_level by blast
qed

lemma copied_line_headers: "same_headers (copied_line d edges scopes)"
  unfolding same_headers_def
proof
  fix l
  show "is_any_header (copied_line d edges scopes l) = is_any_header l \<and>
      header_level (copied_line d edges scopes l) = header_level l \<and>
      (\<forall>name. is_section_header (copied_line d edges scopes l) name = is_section_header l name)"
    using copied_line_cases [of d edges scopes l] dependency_row_level [of l] digit_row_level
      level_zero_no_header [of l] level_zero_no_header [of "copied_line d edges scopes l"] by auto
qed

subsection \<open>The checklist reader\<close>

lemma first_cell_digits_no_mark: "table_cells l = show_nat k # cs \<Longrightarrow> parse_row l = None"
proof -
  assume c: "table_cells l = show_nat k # cs"
  have "parse_mark (show_nat k) = None"
  proof -
    have "show_nat k \<noteq> x" if "CHR ''['' \<in> set x" for x
      using show_nat_chars [of "CHR ''[''" k] that by (auto simp: is_ascii_digit_def)
    then show ?thesis by (simp add: parse_mark_def)
  qed
  then show ?thesis by (simp add: parse_row_def c Let_def)
qed

lemma dependency_row_no_mark: "is_dependency_row l \<Longrightarrow> parse_row l = None"
proof -
  assume d: "is_dependency_row l"
  then have len: "3 \<le> length (table_cells l)" and num: "parse_number (table_cells l ! 0) \<noteq> None"
    by (auto simp: is_dependency_row_def Let_def)
  have none: "parse_number ''[x]'' = None" "parse_number ''[X]'' = None" "parse_number ''[ ]'' = None"
    by (rule parse_number_no_digit, simp add: is_ascii_digit_def)+
  have "trim (table_cells l ! 0) = table_cells l ! 0"
  proof -
    have "table_cells l ! 0 \<in> set (table_cells l)" using len by (intro nth_mem) linarith
    then show ?thesis by (rule table_cells_trimmed)
  qed
  then have "parse_mark (table_cells l ! 0) = None"
    using num none parse_mark_SomeD [of "table_cells l ! 0"] by (metis empty_iff insert_iff)
  then show ?thesis by (simp add: parse_row_eq is_mark_row_def Let_def)
qed

lemma parse_row_copied: "parse_row (copied_line d edges scopes l) = parse_row l"
  using copied_line_cases [of d edges scopes l] dependency_row_no_mark [of l] digit_row_first_cell [of l] first_cell_digits_no_mark
  by metis

lemma digit_line:
  assumes "is_ascii_digit x"
  shows "header_level (x # s) = 0" and "table_cells (x # s) = []"
proof -
  have pl: "plain x" and ne: "x \<noteq> CHR ''#''" "x \<noteq> CHR ''|''" using assms digit_plain digits_neq by blast+
  show "header_level (x # s) = 0" using pl ne by (simp add: header_level_def)
  obtain t where "trim_end ([] @ x # s) = [] @ x # t" using trim_end_keeps [OF pl] by blast
  then have "trim (x # s) = x # t" using pl by (simp add: trim_def)
  then show "table_cells (x # s) = []" using ne by (simp add: table_cells_def)
qed

lemma criterion_line_Cons: "\<exists>x t. criterion_line k c = x # t \<and> is_ascii_digit x"
  using show_nat_digits [of k] show_nat_nonempty [of k] by (cases "show_nat k") (auto simp: criterion_line_def)

lemma criterion_line_plain:
  "header_level (criterion_line k c) = 0" "table_cells (criterion_line k c) = []"
  using criterion_line_Cons [of k c] digit_line by metis+

lemma parse_row_inserted:
  "parse_row (criterion_line k c) = None"
  "parse_row (dependency_line edges k c) = None"
proof -
  show "parse_row (criterion_line k c) = None" by (simp add: parse_row_def criterion_line_plain)
  have "CHR ''|'' \<notin> set (show_nat k)" using show_nat_chars digits_neq by blast
  then show "parse_row (dependency_line edges k c) = None"
    by (intro first_cell_digits_no_mark) (simp add: dependency_line_bar bar_row_cells)
qed

definition plain_text :: "NewCriterion \<Rightarrow> bool" where
  "plain_text c \<longleftrightarrow> trim (nc_text c) = nc_text c \<and> nc_text c \<noteq> [] \<and> CHR ''|'' \<notin> set (nc_text c) \<and> NL \<notin> set (nc_text c)"

lemma parse_row_checklist_line: "plain_text c \<Longrightarrow> parse_row (checklist_line c) = Some (open_row (nc_text c))"
  using parse_fresh_row(1) [of "nc_text c"]
  by (simp add: plain_text_def checklist_line_def fresh_row_def escape_cell_def escape_pipes_id)

interpretation rows: section_reader SECTION parse_row is_checklist_row
proof
  fix l
  assume "parse_row l \<noteq> None"
  then have "is_mark_row (table_cells l)" using mark_row_parse(2) [of l] by argo
  then show "is_checklist_row l"
    using parse_mark_SomeD by (fastforce simp: is_mark_row_def is_checklist_row_def Let_def)
qed

subsection \<open>The reader of the numbered criteria\<close>

definition criterion_item :: "string \<Rightarrow> string option" where
  "criterion_item l = opt_filter (\<lambda>t. t \<noteq> []) (numbered_item (trim l))"

lemma bar_no_item: "trim l = CHR ''|'' # s \<Longrightarrow> criterion_item l = None"
proof -
  assume l: "trim l = CHR ''|'' # s"
  have "numbered_item (CHR ''|'' # s) = None"
    by (auto simp: numbered_item_def Let_def is_ascii_digit_def take_Cons' split: option.splits)
  then show ?thesis by (simp add: criterion_item_def l)
qed

lemma find_index_either:
  "find_index P t = Some i \<Longrightarrow> \<forall>x\<in>set (take i t). \<not> Q x \<Longrightarrow> find_index (\<lambda>c. P c \<or> Q c) t = Some i"
  by (induction t arbitrary: i) (auto split: if_splits option.splits)

lemma find_index_both:
  "find_index P t = None \<Longrightarrow> find_index (\<lambda>c. P c \<or> Q c) t = find_index Q t"
  by (induction t) (auto split: if_splits option.splits)

interpretation criteria: section_reader "''acceptance criteria''" criterion_item "\<lambda>l. listed_item l \<noteq> None"
proof
  fix l
  assume "criterion_item l \<noteq> None"
  then obtain t where t: "numbered_item (trim l) = Some t" "t \<noteq> []"
    by (auto simp: criterion_item_def opt_filter_Some_iff)
  let ?dot = "\<lambda>c. c = CHR ''.''" and ?par = "\<lambda>c. c = CHR '')''"
  from t(1) obtain i where i: "(find_index ?dot (trim l) = Some i \<or> find_index ?dot (trim l) = None \<and> find_index ?par (trim l) = Some i)"
      "list_all is_ascii_digit (take i (trim l))" "take i (trim l) \<noteq> []" "t = trim (drop 1 (drop i (trim l)))"
    by (auto simp: numbered_item_def Let_def split: option.splits if_splits)
  have "\<forall>x\<in>set (take i (trim l)). \<not> ?par x" using i(2) by (auto simp: list_all_iff is_ascii_digit_def)
  then have "find_index (\<lambda>c. ?dot c \<or> ?par c) (trim l) = Some i"
    using i(1) find_index_either [of ?dot "trim l" i ?par] find_index_both [of ?dot "trim l" ?par] by presburger
  then show "listed_item l \<noteq> None" using i t(2) by (simp add: listed_item_def Let_def)
qed

lemma criterion_item_copied: "criterion_item (copied_line d edges scopes l) = criterion_item l"
proof -
  have bar: "criterion_item x = None" if "table_cells x \<noteq> []" for x
    using cells_begin_with_bar [OF that] bar_no_item by blast
  have "criterion_item l = None" if "is_dependency_row l"
    using that by (intro bar) (auto simp: is_dependency_row_def Let_def)
  moreover have "criterion_item (indent_of l @ bar_row (show_nat k) x) = None" for k x
    using digit_row_first_cell [of l k x] by (intro bar) auto
  ultimately show ?thesis using copied_line_cases [of d edges scopes l] by metis
qed

lemma bar_row_no_item: "criterion_item (bar_row a r) = None"
  using bar_no_item [of "bar_row a r"] trim_bar_row [of a r] by (simp add: bar_row_def)

lemma criterion_item_inserted:
  "criterion_item (checklist_line c) = None"
  "criterion_item (dependency_line edges k c) = None"
  by (simp_all only: checklist_line_bar dependency_line_bar bar_row_no_item)

lemma find_index_append: "\<forall>x\<in>set xs. \<not> P x \<Longrightarrow> P y \<Longrightarrow> find_index P (xs @ y # ys) = Some (length xs)"
  by (induction xs) auto

lemma criterion_item_line: "plain_text c \<Longrightarrow> criterion_item (criterion_line k c) = Some (nc_text c)"
proof -
  assume c: "plain_text c"
  let ?d = "show_nat k" and ?l = "criterion_line k c"
  have dot: "plain (CHR ''.'')" by (simp add: plain_def ascii_ws_def wide_ws_def)
  have l: "?l = ?d @ CHR ''.'' # ('' '' @ nc_text c)" by (simp add: criterion_line_def)
  obtain u where u: "trim_end ?l = ?d @ CHR ''.'' # u" using trim_end_keeps [OF dot, of ?d "'' '' @ nc_text c"] l by auto
  obtain ws where ws: "?l = trim_end ?l @ concat ws" "\<forall>w\<in>set ws. is_ws_enc w" by (rule trim_end_cases)
  have "'' '' @ nc_text c = u @ concat ws" using ws(1) l u by simp
  then have "trim u = trim ('' '' @ nc_text c)" using trim_append_concat_ws [OF ws(2), of u] by simp
  then have tu: "trim u = nc_text c" using c trim_Cons_ws [of "CHR '' ''" "nc_text c"] by (simp add: plain_text_def)
  have "trim_start ?l = ?l" using criterion_line_Cons [of k c] digit_plain by auto
  then have t: "trim ?l = ?d @ CHR ''.'' # u" by (simp add: trim_def u)
  have "find_index (\<lambda>c. c = CHR ''.'') (?d @ CHR ''.'' # u) = Some (length ?d)"
    using show_nat_chars digits_neq by (intro find_index_append) blast+
  then have "numbered_item (trim ?l) = Some (nc_text c)"
    using show_nat_digits [of k] by (simp add: numbered_item_def t tu Let_def)
  then show ?thesis using c by (simp add: criterion_item_def plain_text_def)
qed

subsection \<open>The text of the amended plan\<close>

lemma split_ws_acc_subset: "p \<in> set (split_ws_acc acc s) \<Longrightarrow> set p \<subseteq> set acc \<union> set s"
proof (induction "length s" arbitrary: acc s p rule: less_induct)
  case less
  show ?case
  proof (cases s)
    case Nil
    with less.prems show ?thesis by (auto simp: split_ws_acc.simps [of acc "[]"] split: if_splits)
  next
    case (Cons c cs)
    show ?thesis
    proof (cases "strip_ws s")
      case None
      then have "split_ws_acc acc s = split_ws_acc (c # acc) cs" using Cons by (subst split_ws_acc.simps) simp
      with less.hyps [of cs p "c # acc"] less.prems Cons show ?thesis by auto
    next
      case (Some r)
      then have r: "length r < length s" "set r \<subseteq> set s" using strip_ws_shorter strip_ws_SomeD [of s r] by auto
      have "split_ws_acc acc s = (if acc = [] then [] else [rev acc]) @ split_ws_acc [] r"
        using Cons Some by (subst split_ws_acc.simps) simp
      with less.prems consider "p = rev acc" | "p \<in> set (split_ws_acc [] r)" by (auto split: if_splits)
      then show ?thesis using less.hyps [OF r(1), of p "[]"] r(2) by cases auto
    qed
  qed
qed

lemma split_by_subset: "p \<in> set (split_by P s) \<Longrightarrow> set p \<subseteq> set s"
proof (induction s arbitrary: p)
  case (Cons x xs)
  then show ?case by (cases "split_by P xs") (fastforce split: if_splits)+
qed simp

lemma trim_matches_subset: "set (trim_matches c s) \<subseteq> set s"
  by (auto simp: trim_matches_def trim_end_char_def trim_start_char_def dest!: set_dropWhileD)

lemma parse_list_subset: "p \<in> set (parse_list cell) \<Longrightarrow> set p \<subseteq> set cell"
proof -
  assume "p \<in> set (parse_list cell)"
  then obtain q w where q: "q \<in> set (split_by (\<lambda>c. c = CHR '','' \<or> c = CHR '';'') (trim_matches BACKTICK (trim cell)))"
      "w \<in> set (split_whitespace q)" "p = trim (trim_matches BACKTICK (trim w))"
    by (auto simp: parse_list_def Let_def split: if_splits)
  have "set p \<subseteq> set w" unfolding q(3)
    using set_trim_subset [of "trim_matches BACKTICK (trim w)"] trim_matches_subset [of BACKTICK "trim w"] set_trim_subset [of w] by blast
  also have "\<dots> \<subseteq> set q" using split_ws_acc_subset [of w "[]" q] q(2) by (simp add: split_whitespace_def)
  also have "\<dots> \<subseteq> set cell"
    using split_by_subset [OF q(1)] trim_matches_subset [of BACKTICK "trim cell"] set_trim_subset [of cell] by blast
  finally show ?thesis .
qed

definition add_missing :: "'a list \<Rightarrow> 'a list \<Rightarrow> 'a list" where
  "add_missing xs ys = foldl (\<lambda>acc a. if a \<in> set acc then acc else acc @ [a]) xs ys"

lemma add_missing_simps [simp]:
  "add_missing xs [] = xs"
  "add_missing xs (y # ys) = add_missing (if y \<in> set xs then xs else xs @ [y]) ys"
  by (simp_all add: add_missing_def)

lemma set_add_missing [simp]: "set (add_missing xs ys) = set xs \<union> set ys"
  by (induction ys arbitrary: xs) auto

lemma add_missing_prefix: "\<exists>zs. add_missing xs ys = xs @ zs \<and> set zs \<subseteq> set ys"
proof (induction ys arbitrary: xs)
  case (Cons y ys)
  show ?case
  proof (cases "y \<in> set xs")
    case True
    with Cons [of xs] show ?thesis by auto
  next
    case False
    with Cons [of "xs @ [y]"] show ?thesis by auto
  qed
qed simp

lemma append_cell_eq:
  "append_cell cur add = (if add = [] then trim cur else join '', '' (add_missing (parse_list cur) add))"
proof (cases add)
  case (Cons a as)
  then have "a \<in> set (add_missing (parse_list cur) add)" by simp
  then have "add_missing (parse_list cur) add \<noteq> []" by (metis empty_iff list.set(1))
  then show ?thesis using Cons by (simp add: append_cell_def add_missing_def Let_def)
qed (simp add: append_cell_def)

lemma append_cell_subset: "set (append_cell cur add) \<subseteq> set cur \<union> (\<Union>a\<in>set add. set a) \<union> {CHR '','', CHR '' ''}"
proof (cases "add = []")
  case True
  then show ?thesis using set_trim_subset [of cur] by (auto simp: append_cell_def)
next
  case False
  have "set (join '', '' (add_missing (parse_list cur) add)) \<subseteq> {CHR '','', CHR '' ''} \<union> (\<Union>x\<in>set (add_missing (parse_list cur) add). set x)"
    using set_join_subset [of "'', ''"] by fastforce
  also have "\<dots> \<subseteq> set cur \<union> (\<Union>a\<in>set add. set a) \<union> {CHR '','', CHR '' ''}"
    using parse_list_subset [of _ cur] by (simp; blast)
  finally show ?thesis using False by (simp add: append_cell_eq)
qed

definition scopes_on_line :: "(nat \<times> string list) list \<Rightarrow> bool" where
  "scopes_on_line scopes \<longleftrightarrow> (\<forall>e\<in>set scopes. \<forall>p\<in>set (snd e). NL \<notin> set p)"

lemma NL_not_digit: "NL \<notin> set (show_nat n)"
  using show_nat_chars digits_neq by blast

lemma copied_line_no_newline:
  assumes "NL \<notin> set l" and "scopes_on_line scopes"
  shows "NL \<notin> set (copied_line d edges scopes l)"
proof (cases "copied_line d edges scopes l = l")
  case False
  then obtain k where dep: "is_dependency_row l" and r: "rewrite_dependency_row l k edges scopes = Some (copied_line d edges scopes l)"
    by (auto simp: copied_line_def split: if_splits option.splits)
  have len: "3 \<le> length (table_cells l)" using dep by (auto simp: is_dependency_row_def Let_def)
  have cell: "NL \<notin> set (cell_or_dash (table_cells l) i)" for i
    using set_table_cells [of _ l] assms(1) by (auto simp: cell_or_dash_def dest: nth_mem)
  have ind: "NL \<notin> set (indent_of l)" using assms(1) by (auto simp: indent_of_def dest: in_set_takeD)
  have e: "NL \<notin> set (append_cell (cell_or_dash (table_cells l) 1) (map show_nat xs))" for xs
    using append_cell_subset [of "cell_or_dash (table_cells l) 1" "map show_nat xs"] cell [of 1] NL_not_digit by auto
  have s: "NL \<notin> set (append_cell (cell_or_dash (table_cells l) 2) (concat (map snd (filter (\<lambda>e. fst e = k) scopes))))"
    using append_cell_subset [of "cell_or_dash (table_cells l) 2" "concat (map snd (filter (\<lambda>e. fst e = k) scopes))"]
      cell [of 2] assms(2) by (auto simp: scopes_on_line_def)
  have "copied_line d edges scopes l = indent_of l @ ''| '' @ show_nat k
      @ '' | '' @ append_cell (cell_or_dash (table_cells l) 1) (map show_nat (map snd (filter (\<lambda>e. fst e = k) edges)))
      @ '' | '' @ append_cell (cell_or_dash (table_cells l) 2) (concat (map snd (filter (\<lambda>e. fst e = k) scopes))) @ '' |''"
    using r by (auto simp: rewrite_dependency_row_def Let_def split: if_splits)
  then show ?thesis using ind e s NL_not_digit [of k] by (simp del: map_map)
qed (use assms in simp)

definition inserted :: "string \<Rightarrow> nat \<Rightarrow> NewCriterion list \<Rightarrow> (nat \<times> nat) list \<Rightarrow> nat \<Rightarrow> string list" where
  "inserted body existing appended edges idx =
     (if Some idx = last_line_in_section body ''acceptance criteria'' (\<lambda>l. listed_item l \<noteq> None)
      then map (\<lambda>(k, c). criterion_line k c) (numbered_from (existing + 1) appended) else [])
     @ (if Some idx = last_line_in_section body ''acceptance checklist'' is_checklist_row then map checklist_line appended else [])
     @ (if Some idx = last_line_in_section body GRAPH_SECTION is_dependency_row
        then map (\<lambda>(k, c). dependency_line edges k c) (numbered_from (existing + 1) appended) else [])"

lemma rewrite_lines_splice:
  "rewrite_lines body existing appended edges scopes
     = splice_lines (copied_line (last_line_in_section body GRAPH_SECTION is_dependency_row) edges scopes)
         (inserted body existing appended edges) 0 (lines body)"
  unfolding rewrite_lines_def inserted_def Let_def
  by (subst splice_lines_enumerate [symmetric]) (simp add: case_prod_unfold)

lemma set_numbered_from: "x \<in> set (numbered_from k xs) \<Longrightarrow> snd x \<in> set xs"
  by (cases x) (auto simp: numbered_from_def dest: set_zip_rightD)

lemma inserted_no_header: "l \<in> set (inserted body existing appended edges idx) \<Longrightarrow> \<not> is_any_header l"
  by (auto simp: inserted_def is_any_header_level criterion_line_plain checklist_line_bar dependency_line_bar split: if_splits)

definition lines_ok :: "NewCriterion list \<Rightarrow> (nat \<times> string list) list \<Rightarrow> bool" where
  "lines_ok appended scopes \<longleftrightarrow> scopes_on_line scopes
     \<and> (\<forall>c\<in>set appended. plain_text c \<and> (\<forall>p\<in>set (nc_write_scope c). NL \<notin> set p))"

lemma inserted_lines:
  assumes "lines_ok appended scopes" and "l \<in> set (inserted body existing appended edges idx)"
  shows "NL \<notin> set l \<and> l \<noteq> []"
proof -
  have cr: "NL \<notin> set (criterion_line k c) \<and> criterion_line k c \<noteq> []" if "c \<in> set appended" for k c
    using assms(1) that NL_not_digit by (auto simp: lines_ok_def plain_text_def criterion_line_def)
  have ch: "NL \<notin> set (checklist_line c) \<and> checklist_line c \<noteq> []" if "c \<in> set appended" for c
    using assms(1) that by (auto simp: lines_ok_def plain_text_def checklist_line_def escape_cell_def escape_pipes_id)
  have dp: "NL \<notin> set (dependency_line edges k c) \<and> dependency_line edges k c \<noteq> []" if "c \<in> set appended" for k c
  proof -
    have "NL \<notin> set (append_cell ''-'' (map (\<lambda>e. show_nat (snd e)) es))" for es :: "(nat \<times> nat) list"
      using append_cell_subset [of "''-''" "map (\<lambda>e. show_nat (snd e)) es"] NL_not_digit by auto
    moreover have "NL \<notin> set (append_cell ''-'' (nc_write_scope c))"
      using append_cell_subset [of "''-''" "nc_write_scope c"] assms(1) that by (auto simp: lines_ok_def)
    ultimately show ?thesis using NL_not_digit by (auto simp: dependency_line_def Let_def)
  qed
  consider (c) k c where "(k, c) \<in> set (numbered_from (existing + 1) appended)" "l = criterion_line k c"
    | (r) c where "c \<in> set appended" "l = checklist_line c"
    | (d) k c where "(k, c) \<in> set (numbered_from (existing + 1) appended)" "l = dependency_line edges k c"
    using assms(2) by (auto simp: inserted_def split: if_splits)
  then show ?thesis
  proof cases
    case c
    then show ?thesis using cr set_numbered_from [OF c(1)] by simp
  next
    case r
    then show ?thesis using ch by simp
  next
    case d
    then show ?thesis using dp set_numbered_from [OF d(1)] by simp
  qed
qed

lemma lines_spliced:
  assumes nl: "\<forall>l\<in>set L. NL \<notin> set l" and last: "\<not> ends_with [NL] body \<Longrightarrow> L \<noteq> [] \<Longrightarrow> last L \<noteq> []"
  shows "map trim (lines (if \<not> ends_with [NL] body \<and> ends_with [NL] (unlines L) then butlast (unlines L) else unlines L))
       = map trim L"
proof (cases "\<not> ends_with [NL] body \<and> L \<noteq> []")
  case True
  then obtain xs l where L: "L = xs @ [l]" by (metis append_butlast_last_id)
  then have "l \<noteq> []" using True last by simp
  have "butlast (unlines L) = unlines xs @ l" by (simp add: L unlines_append butlast_append)
  moreover have "ends_with [NL] (unlines L)" by (simp add: L unlines_append ends_with_single)
  ultimately show ?thesis using True lines_unlines_last [of xs l] nl L \<open>l \<noteq> []\<close> by simp
next
  case False
  then have "(if \<not> ends_with [NL] body \<and> ends_with [NL] (unlines L) then butlast (unlines L) else unlines L) = unlines L"
    by (auto simp: ends_with_single)
  then show ?thesis using lines_unlines [OF nl] by simp
qed

lemma set_splice_lines:
  "l \<in> set (splice_lines f ins idx ls) \<Longrightarrow> (\<exists>k\<in>set ls. l = f k) \<or> (\<exists>i. l \<in> set (ins i))"
  by (induction ls arbitrary: idx) auto

lemma last_splice_lines:
  "ls \<noteq> [] \<Longrightarrow> last (splice_lines f ins idx ls) = f (last ls) \<or> (\<exists>i. last (splice_lines f ins idx ls) \<in> set (ins i))"
proof (induction ls arbitrary: idx)
  case (Cons l ls)
  show ?case
  proof (cases "ls = []")
    case True
    then show ?thesis by (cases "ins idx = []") (simp, metis append.right_neutral last_ConsR last_in_set splice_lines.simps)
  next
    case False
    then have "splice_lines f ins (Suc idx) ls \<noteq> []" by (cases ls) auto
    then have "last (splice_lines f ins idx (l # ls)) = last (splice_lines f ins (Suc idx) ls)" by simp
    with Cons.IH [OF False, of "Suc idx"] False show ?thesis by auto
  qed
qed simp

lemma copied_line_nonempty: "l \<noteq> [] \<Longrightarrow> copied_line d edges scopes l \<noteq> []"
  using copied_line_cases [of d edges scopes l] by (auto simp: bar_row_def)

lemma lines_rewrite_amend:
  assumes "lines_ok appended scopes"
  shows "map trim (lines (rewrite body existing appended edges scopes)) = map trim (rewrite_lines body existing appended edges scopes)"
  unfolding rewrite_def Let_def
proof (rule lines_spliced)
  let ?d = "last_line_in_section body GRAPH_SECTION is_dependency_row"
  have sc: "scopes_on_line scopes" using assms by (simp add: lines_ok_def)
  show "\<forall>l\<in>set (rewrite_lines body existing appended edges scopes). NL \<notin> set l"
  proof
    fix l assume "l \<in> set (rewrite_lines body existing appended edges scopes)"
    then consider k where "k \<in> set (lines body)" "l = copied_line ?d edges scopes k"
      | i where "l \<in> set (inserted body existing appended edges i)"
      unfolding rewrite_lines_splice by (blast dest: set_splice_lines)
    then show "NL \<notin> set l"
      by cases (use lines_no_newline copied_line_no_newline sc inserted_lines [OF assms] in blast)+
  qed
  assume b: "\<not> ends_with [NL] body" "rewrite_lines body existing appended edges scopes \<noteq> []"
  then have ne: "lines body \<noteq> []" by (auto simp: rewrite_lines_splice)
  then have "last (lines body) \<noteq> []" using lines_last_nonempty b(1) by blast
  then show "last (rewrite_lines body existing appended edges scopes) \<noteq> []"
    using last_splice_lines [OF ne, of "copied_line ?d edges scopes" "inserted body existing appended edges" 0]
      inserted_lines [OF assms] copied_line_nonempty unfolding rewrite_lines_splice by metis
qed

subsection \<open>One section of each name\<close>

definition one_section :: "string \<Rightarrow> string list \<Rightarrow> bool" where
  "one_section name ls \<longleftrightarrow> length (filter (\<lambda>l. is_section_header l name) ls) \<le> 1"

lemma one_section_map_trim: "map trim xs = map trim ys \<Longrightarrow> one_section name xs = one_section name ys"
proof -
  assume "map trim xs = map trim ys"
  moreover have "length (filter (\<lambda>l. is_section_header l name) zs)
      = length (filter (\<lambda>l. is_section_header l name) (map trim zs))" for zs
    by (induction zs) (auto simp: is_section_header_trim header_level_trim)
  ultimately show ?thesis unfolding one_section_def by metis
qed

lemma one_section_splice:
  assumes "same_headers f" and "\<And>i l. l \<in> set (ins i) \<Longrightarrow> \<not> is_any_header l"
  shows "one_section name (splice_lines f ins idx ls) = one_section name ls"
proof -
  have "filter (\<lambda>l. is_section_header l name) (ins i) = []" for i
    using assms(2) section_header_is_header by (auto simp: filter_empty_conv)
  then have "length (filter (\<lambda>l. is_section_header l name) (splice_lines f ins idx ls))
      = length (filter (\<lambda>l. is_section_header l name) ls)"
    using assms(1) by (induction ls arbitrary: idx) (auto simp: same_headers_def)
  then show ?thesis by (simp add: one_section_def)
qed

lemma section_items_map_trim:
  assumes "\<And>x y. trim x = trim y \<Longrightarrow> item x = item y"
  shows "map trim xs = map trim ys \<Longrightarrow>
    List.map_filter item (section_loop name level xs) = List.map_filter item (section_loop name level ys)"
proof (induction xs arbitrary: ys level)
  case (Cons x xs)
  then obtain y ys' where ys: "ys = y # ys'" "trim x = trim y" "map trim xs = map trim ys'" by auto
  have same: "header_level x = header_level y" "is_any_header x = is_any_header y"
      "is_section_header x name = is_section_header y name" "item x = item y"
    using ys(2) assms [OF ys(2)] by (simp_all add: header_level_trim is_any_header_level is_section_header_trim)
  have IH: "List.map_filter item (section_loop name lv xs) = List.map_filter item (section_loop name lv ys')" for lv
    using Cons.IH [OF ys(3)] .
  show ?case
  proof (cases level)
    case None
    then show ?thesis unfolding ys(1) using IH by (simp add: same)
  next
    case (Some lv)
    then show ?thesis unfolding ys(1) using IH by (simp add: same map_filter_simps split: option.split)
  qed
qed simp

lemma dual_loop_section:
  assumes "one_section SECTION ls"
  shows "dual_loop False n ls = List.map_filter parse_row (section_loop SECTION None ls)"
proof -
  have in_sec: "dual_loop True lvl xs = List.map_filter parse_row (section_loop SECTION (Some lvl) xs)"
    if "\<forall>l\<in>set xs. \<not> is_section_header l SECTION" for lvl xs
    using that by (induction xs) (auto simp: map_filter_simps split: option.split)
  show ?thesis using assms
  proof (induction ls arbitrary: n)
    case (Cons l ls)
    show ?case
    proof (cases "is_section_header l SECTION")
      case True
      then have "\<forall>l\<in>set ls. \<not> is_section_header l SECTION" using Cons.prems by (auto simp: one_section_def filter_empty_conv)
      then show ?thesis using True in_sec by simp
    next
      case False
      then show ?thesis using Cons by (simp add: one_section_def)
    qed
  qed (simp add: map_filter_simps)
qed

lemma numbered_loop_section:
  assumes "one_section ''acceptance criteria'' ls"
  shows "numbered_loop False n ls = List.map_filter criterion_item (section_loop ''acceptance criteria'' None ls)"
proof -
  have in_sec: "numbered_loop True lvl xs = List.map_filter criterion_item (section_loop ''acceptance criteria'' (Some lvl) xs)"
    if "\<forall>l\<in>set xs. \<not> is_section_header l ''acceptance criteria''" for lvl xs
    using that by (induction xs) (auto simp: map_filter_simps criterion_item_def opt_filter_def split: option.split)
  show ?thesis using assms
  proof (induction ls arbitrary: n)
    case (Cons l ls)
    show ?case
    proof (cases "is_section_header l ''acceptance criteria''")
      case True
      then have "\<forall>l\<in>set ls. \<not> is_section_header l ''acceptance criteria''" using Cons.prems by (auto simp: one_section_def filter_empty_conv)
      then show ?thesis using True in_sec by simp
    next
      case False
      then show ?thesis using Cons by (simp add: one_section_def)
    qed
  qed (simp add: map_filter_simps)
qed

subsection \<open>What the readers see\<close>

lemma map_filter_map_Some: "(\<And>x. x \<in> set xs \<Longrightarrow> g (f x) = Some (h x)) \<Longrightarrow> List.map_filter g (map f xs) = map h xs"
  by (induction xs) (auto simp: map_filter_simps)

lemma map_filter_map_None: "(\<And>x. x \<in> set xs \<Longrightarrow> g (f x) = None) \<Longrightarrow> List.map_filter g (map f xs) = []"
  by (induction xs) (auto simp: map_filter_simps)

lemma map_snd_numbered_from: "map (\<lambda>(k, c). h c) (numbered_from k xs) = map h xs"
proof -
  have "map snd (numbered_from k xs) = xs" by (simp add: numbered_from_def)
  then have "map h (map snd (numbered_from k xs)) = map h xs" by simp
  then show ?thesis by (simp add: case_prod_unfold comp_def)
qed

lemma inserted_rows:
  assumes "\<forall>c\<in>set appended. plain_text c"
  shows "List.map_filter parse_row (inserted body existing appended edges i)
       = (if Some i = last_line_in_section body SECTION is_checklist_row then map (\<lambda>c. open_row (nc_text c)) appended else [])"
proof -
  have "List.map_filter parse_row (map (\<lambda>(k, c). criterion_line k c) xs) = []"
      "List.map_filter parse_row (map (\<lambda>(k, c). dependency_line edges k c) xs) = []" for xs
    by (auto intro!: map_filter_map_None simp: parse_row_inserted)
  moreover have "List.map_filter parse_row (map checklist_line appended) = map (\<lambda>c. open_row (nc_text c)) appended"
    using assms parse_row_checklist_line by (intro map_filter_map_Some) blast
  ultimately show ?thesis by (simp add: inserted_def map_filter_append SECTION_def map_filter_simps)
qed

lemma inserted_criteria:
  assumes "\<forall>c\<in>set appended. plain_text c"
  shows "List.map_filter criterion_item (inserted body existing appended edges i)
       = (if Some i = last_line_in_section body ''acceptance criteria'' (\<lambda>l. listed_item l \<noteq> None) then map nc_text appended else [])"
proof -
  have "List.map_filter criterion_item (map checklist_line appended) = []"
    by (auto intro!: map_filter_map_None simp: criterion_item_inserted)
  moreover have "List.map_filter criterion_item (map (\<lambda>(k, c). dependency_line edges k c) xs) = []" for xs
    by (auto intro!: map_filter_map_None simp: criterion_item_inserted)
  moreover have "List.map_filter criterion_item (map (\<lambda>(k, c). criterion_line k c) (numbered_from (existing + 1) appended))
      = map (\<lambda>(k, c). nc_text c) (numbered_from (existing + 1) appended)"
    using assms by (intro map_filter_map_Some) (auto simp: case_prod_unfold intro!: criterion_item_line dest: set_numbered_from)
  ultimately show ?thesis by (simp add: inserted_def map_filter_append map_filter_simps map_snd_numbered_from)
qed

lemma splice_one_section:
  "one_section name (rewrite_lines body existing appended edges scopes) = one_section name (lines body)"
  unfolding rewrite_lines_splice by (rule one_section_splice [OF copied_line_headers inserted_no_header])

lemma rewrite_rows:
  assumes ok: "lines_ok appended scopes" and one: "one_section SECTION (lines body)"
    and some: "parse_dual_rows body \<noteq> [] \<or> appended = []"
  shows "parse_dual_rows (rewrite body existing appended edges scopes)
       = parse_dual_rows body @ map (\<lambda>c. open_row (nc_text c)) appended"
proof -
  let ?L = "rewrite_lines body existing appended edges scopes"
  let ?last = "last_line_in_section body SECTION is_checklist_row"
  note ins = inserted_rows [of appended body existing edges]
  have pt: "\<forall>c\<in>set appended. plain_text c" using ok by (simp add: lines_ok_def)
  have old: "parse_dual_rows body = List.map_filter parse_row (section_loop SECTION None (lines body))"
    using one by (simp add: parse_dual_rows_def dual_loop_section)
  have "parse_dual_rows (rewrite body existing appended edges scopes) = dual_loop False 0 ?L"
    unfolding parse_dual_rows_def by (rule dual_loop_map_trim) (rule lines_rewrite_amend [OF ok])
  also have "\<dots> = List.map_filter parse_row (section_loop SECTION None ?L)"
    using one by (simp add: dual_loop_section splice_one_section)
  also have "\<dots> = List.map_filter (\<lambda>l. parse_row (copied_line (last_line_in_section body GRAPH_SECTION is_dependency_row) edges scopes l))
      (section_loop SECTION None (lines body)) @ map (\<lambda>c. open_row (nc_text c)) appended"
    unfolding rewrite_lines_splice
    by (intro rows.splice_items copied_line_headers inserted_no_header)
      (use some old ins [OF pt] rows.item_pred in \<open>auto simp: parse_row_copied last_line_in_section_def\<close>)
  also have "\<dots> = parse_dual_rows body @ map (\<lambda>c. open_row (nc_text c)) appended"
    by (simp only: parse_row_copied old)
  finally show ?thesis .
qed

lemma rewrite_criteria:
  assumes ok: "lines_ok appended scopes" and one: "one_section ''acceptance criteria'' (lines body)"
    and some: "extract_numbered_acceptance_criteria body \<noteq> [] \<or> appended = []"
  shows "extract_numbered_acceptance_criteria (rewrite body existing appended edges scopes)
       = extract_numbered_acceptance_criteria body @ map nc_text appended"
proof -
  let ?L = "rewrite_lines body existing appended edges scopes" and ?n = "''acceptance criteria''"
  let ?N = "lines (rewrite body existing appended edges scopes)"
  note ins = inserted_criteria [of appended body existing edges]
  have pt: "\<forall>c\<in>set appended. plain_text c" using ok by (simp add: lines_ok_def)
  have tr: "map trim ?N = map trim ?L" by (rule lines_rewrite_amend [OF ok])
  have old: "extract_numbered_acceptance_criteria body = List.map_filter criterion_item (section_loop ?n None (lines body))"
    using one by (simp add: extract_numbered_acceptance_criteria_def numbered_loop_section)
  have "one_section ?n ?N" using one one_section_map_trim [OF tr] by (simp add: splice_one_section)
  then have "extract_numbered_acceptance_criteria (rewrite body existing appended edges scopes)
      = List.map_filter criterion_item (section_loop ?n None ?N)"
    by (simp add: extract_numbered_acceptance_criteria_def numbered_loop_section)
  also have "\<dots> = List.map_filter criterion_item (section_loop ?n None ?L)"
    by (rule section_items_map_trim [OF _ tr]) (simp add: criterion_item_def)
  also have "\<dots> = List.map_filter (\<lambda>l. criterion_item (copied_line (last_line_in_section body GRAPH_SECTION is_dependency_row) edges scopes l))
      (section_loop ?n None (lines body)) @ map nc_text appended"
    unfolding rewrite_lines_splice
    by (intro criteria.splice_items copied_line_headers inserted_no_header)
      (use some old ins [OF pt] criteria.item_pred in \<open>auto simp: criterion_item_copied last_line_in_section_def\<close>)
  also have "\<dots> = extract_numbered_acceptance_criteria body @ map nc_text appended"
    by (simp only: criterion_item_copied old)
  finally show ?thesis .
qed

subsection \<open>What is accepted for appending\<close>

lemma normalize_scope_subset: "set (normalize_scope p) \<subseteq> set p \<union> {CHR ''/''}"
proof -
  have strip: "set (strip_while (strip_prefix ''./'') s) \<subseteq> set s" for s
  proof (induction "length s" arbitrary: s rule: less_induct)
    case less
    show ?case
    proof (cases "strip_prefix ''./'' s")
      case None
      then show ?thesis by (simp add: strip_while_None)
    next
      case (Some r)
      then have "length r < length s" "set r \<subseteq> set s" by auto
      with less [of r] Some show ?thesis by (simp add: strip_while_Some)
    qed
  qed
  have "set (trim_end_char c x) \<subseteq> set x" "set (trim_start_char c x) \<subseteq> set x" for c x
    by (auto simp: trim_end_char_def trim_start_char_def dest!: set_dropWhileD)
  then have "set (normalize_scope p) \<subseteq> set (map (\<lambda>c. if c = BACKSLASH then CHR ''/'' else c) (trim p))"
    unfolding normalize_scope_def Let_def using strip by blast
  then show ?thesis using set_trim_subset [of p] by (auto split: if_splits)
qed

lemma normalized_paths_in:
  "q \<in> set (normalized_paths acc ps) \<Longrightarrow> q \<in> set acc \<or> (q \<noteq> [] \<and> (\<exists>p\<in>set ps. q = normalize_scope p))"
proof (induction ps arbitrary: acc)
  case (Cons p ps)
  show ?case using Cons.IH [of "acc @ [normalize_scope p]"] Cons.IH [of acc] Cons.prems
    by (auto simp: Let_def split: if_splits)
qed simp

definition accepted_from :: "NewCriterion list \<Rightarrow> NewCriterion \<Rightarrow> bool" where
  "accepted_from wanted c \<longleftrightarrow> nc_text c \<noteq> [] \<and> (\<exists>w\<in>set wanted. nc_text c = trim (nc_text w)
     \<and> nc_write_scope c = normalized_paths [] (nc_write_scope w) \<and> nc_depends_on c = nc_depends_on w)"

lemma append_loop_accepts:
  "length out \<le> MAX_APPENDED_CRITERIA \<Longrightarrow> \<forall>c\<in>set out. accepted_from all c \<Longrightarrow> set wanted \<subseteq> set all \<Longrightarrow>
   append_loop rows out wanted = (acc, rej) \<Longrightarrow>
   length acc \<le> MAX_APPENDED_CRITERIA \<and> (\<forall>c\<in>set acc. accepted_from all c)"
proof (induction rows out wanted arbitrary: acc rej rule: append_loop.induct)
  case (2 rows out w ws)
  let ?t = "trim (nc_text w)"
  let ?new = "\<lparr>nc_text = ?t, nc_write_scope = normalized_paths [] (nc_write_scope w), nc_depends_on = nc_depends_on w\<rparr>"
  have ws: "set ws \<subseteq> set all" using "2.prems"(3) by simp
  have new: "?t \<noteq> [] \<Longrightarrow> accepted_from all ?new" using "2.prems"(3) by (auto simp: accepted_from_def)
  show ?case
  proof (cases "?t = []")
    case True
    with 2 ws show ?thesis by auto
  next
    case t: False
    show ?thesis
    proof (cases "MAX_APPENDED_CRITERIA \<le> length out")
      case True
      with t "2.prems" show ?thesis by auto
    next
      case cap: False
      let ?dup = "list_ex (\<lambda>r. eq_ignore_ascii_case (trim (dr_criterion r)) ?t) rows \<or> list_ex (\<lambda>c. eq_ignore_ascii_case (nc_text c) ?t) out"
      show ?thesis
      proof (cases ?dup)
        case True
        obtain a r where "append_loop rows out ws = (a, r)" by fastforce
        with "2.IH"(2) [OF refl t cap True "2.prems"(1,2) ws] "2.prems"(4) t cap True show ?thesis
          by (auto simp: Let_def)
      next
        case False
        have "append_loop rows (out @ [?new]) ws = (acc, rej)" using "2.prems"(4) t cap False by (auto simp: Let_def)
        with "2.IH"(3) [OF refl t cap False] "2.prems"(1,2) ws new [OF t] cap show ?thesis by auto
      qed
    qed
  qed
qed simp

lemma plan_appends_accepts:
  assumes "plan_appends body rows wanted = (acc, rej)"
  shows "length acc \<le> MAX_APPENDED_CRITERIA \<and> (\<forall>c\<in>set acc. accepted_from wanted c)
     \<and> (acc \<noteq> [] \<longrightarrow> length (extract_numbered_acceptance_criteria body) = length rows)"
  using assms append_loop_accepts [of "[]" wanted wanted rows acc rej]
  by (auto simp: plan_appends_def Let_def split: if_splits)

lemma added_paths_in: "q \<in> set (added_paths have ps) \<Longrightarrow> q \<noteq> [] \<and> (\<exists>p\<in>set ps. q = normalize_scope p)"
  by (induction "have" ps rule: added_paths.induct) (auto simp: Let_def split: if_splits)

lemma plan_scopes_in:
  "(k, ps) \<in> set (fst (plan_scopes g wanted)) \<Longrightarrow>
   \<exists>node qs. find_node g k = Some node \<and> cn_write_scope node \<noteq> [] \<and> (k, qs) \<in> set wanted \<and> ps = added_paths (cn_write_scope node) qs \<and> ps \<noteq> []"
  by (induction g wanted rule: plan_scopes.induct) (auto simp: Let_def split: option.splits if_splits)

definition on_one_line :: "PlanAmendment \<Rightarrow> bool" where
  "on_one_line a \<longleftrightarrow> (\<forall>c\<in>set (pa_appended a). CHR ''|'' \<notin> set (nc_text c) \<and> NL \<notin> set (nc_text c)
       \<and> (\<forall>p\<in>set (nc_write_scope c). NL \<notin> set p))
     \<and> (\<forall>e\<in>set (pa_scopes a). \<forall>p\<in>set (snd e). NL \<notin> set p)"

definition accepted :: "string \<Rightarrow> PlanAmendment \<Rightarrow> NewCriterion list" where
  "accepted body a = fst (plan_appends body (parse_dual_rows body) (pa_appended a))"

lemma NL_normalize: "NL \<notin> set p \<Longrightarrow> NL \<notin> set (normalize_scope p)"
  using normalize_scope_subset [of p] by auto

lemma amendment_lines_ok:
  assumes "on_one_line a"
  shows "lines_ok (accepted body a) (fst (plan_scopes g (pa_scopes a)))" and "lines_ok (accepted body a) []"
proof -
  obtain acc rej where p: "plan_appends body (parse_dual_rows body) (pa_appended a) = (acc, rej)" by fastforce
  have acc: "plain_text c \<and> (\<forall>p\<in>set (nc_write_scope c). NL \<notin> set p)" if "c \<in> set acc" for c
  proof -
    from plan_appends_accepts [OF p] that obtain w where w: "w \<in> set (pa_appended a)" "nc_text c = trim (nc_text w)"
        "nc_write_scope c = normalized_paths [] (nc_write_scope w)" "nc_text c \<noteq> []" by (auto simp: accepted_from_def)
    with assms have "CHR ''|'' \<notin> set (nc_text w)" "NL \<notin> set (nc_text w)" "\<forall>p\<in>set (nc_write_scope w). NL \<notin> set p"
      by (auto simp: on_one_line_def)
    then show ?thesis using w set_trim_subset [of "nc_text w"] NL_normalize
      by (auto simp: plain_text_def dest!: normalized_paths_in)
  qed
  have "NL \<notin> set q" if "(k, ps) \<in> set (fst (plan_scopes g (pa_scopes a)))" "q \<in> set ps" for k ps q
    using plan_scopes_in [OF that(1)] that(2) assms NL_normalize by (fastforce simp: on_one_line_def dest!: added_paths_in)
  then show "lines_ok (accepted body a) (fst (plan_scopes g (pa_scopes a)))"
    using acc by (auto simp: lines_ok_def scopes_on_line_def accepted_def p)
  show "lines_ok (accepted body a) []" using acc by (simp add: lines_ok_def scopes_on_line_def accepted_def p)
qed

definition amended_edges :: "string \<Rightarrow> PlanAmendment \<Rightarrow> (nat \<times> nat) list" where
  "amended_edges body a = (case parse_criterion_graph body of None \<Rightarrow> []
     | Some g \<Rightarrow> fst (plan_edges g (length (parse_dual_rows body) + length (accepted body a))
         (pa_edges a @ own_edges (length (parse_dual_rows body)) (accepted body a))))"

definition amended_scopes :: "string \<Rightarrow> PlanAmendment \<Rightarrow> (nat \<times> string list) list" where
  "amended_scopes body a = (case parse_criterion_graph body of None \<Rightarrow> [] | Some g \<Rightarrow> fst (plan_scopes g (pa_scopes a)))"

lemma apply_amendment_eq:
  "fst (apply_amendment body a) =
     (if accepted body a = [] \<and> amended_edges body a = [] \<and> amended_scopes body a = [] then body
      else rewrite body (length (parse_dual_rows body)) (accepted body a) (amended_edges body a) (amended_scopes body a))"
  "ar_edges (snd (apply_amendment body a)) = amended_edges body a"
  "ar_scopes (snd (apply_amendment body a)) = amended_scopes body a"
  by (auto simp: apply_amendment_def accepted_def amended_edges_def amended_scopes_def report_changed_def Let_def case_prod_unfold
      simp del: upt_Suc split: option.split)

text \<open>
  Property C21. An amendment only appends. On a plan with one checklist section and one criteria section,
  and with at least one checklist row, every existing row keeps its position, its text and both marks,
  every numbered criterion keeps its number and text, and both lists grow by the same accepted criteria in
  the same order, with open marks; at most three are accepted, and none is when the two lists disagreed in
  length. The proposed criterion texts must be free of line breaks and bars, and the proposed paths of line breaks: a text
  with a line break can write rows of its own (\<open>line_break_forges_marks\<close>).
\<close>

theorem amendment_only_appends:
  assumes "on_one_line a" and "one_section SECTION (lines body)" and "one_section ''acceptance criteria'' (lines body)"
    and "has_dual_checklist body"
  shows "parse_dual_rows (fst (apply_amendment body a)) = parse_dual_rows body @ map (\<lambda>c. open_row (nc_text c)) (accepted body a)
     \<and> extract_numbered_acceptance_criteria (fst (apply_amendment body a))
         = extract_numbered_acceptance_criteria body @ map nc_text (accepted body a)
     \<and> length (accepted body a) \<le> 3
     \<and> (length (extract_numbered_acceptance_criteria body) \<noteq> length (parse_dual_rows body) \<longrightarrow> accepted body a = [])"
proof -
  obtain acc rej where p: "plan_appends body (parse_dual_rows body) (pa_appended a) = (acc, rej)" by fastforce
  note acc = plan_appends_accepts [OF p]
  have ne: "parse_dual_rows body \<noteq> []" using assms(4) by (simp add: has_dual_checklist_def)
  then have ne2: "extract_numbered_acceptance_criteria body \<noteq> [] \<or> accepted body a = []"
    using acc by (auto simp: accepted_def p)
  have "length (accepted body a) \<le> 3"
      "length (extract_numbered_acceptance_criteria body) \<noteq> length (parse_dual_rows body) \<longrightarrow> accepted body a = []"
    using acc by (auto simp: accepted_def p MAX_APPENDED_CRITERIA_def)
  moreover have "parse_dual_rows (fst (apply_amendment body a)) = parse_dual_rows body @ map (\<lambda>c. open_row (nc_text c)) (accepted body a)
     \<and> extract_numbered_acceptance_criteria (fst (apply_amendment body a))
         = extract_numbered_acceptance_criteria body @ map nc_text (accepted body a)"
  proof -
    have "lines_ok (accepted body a) (amended_scopes body a)"
      using amendment_lines_ok [OF assms(1)] by (auto simp: amended_scopes_def split: option.split)
    then show ?thesis
      using rewrite_rows [OF _ assms(2)] rewrite_criteria [OF _ assms(3)] ne ne2 by (simp add: apply_amendment_eq(1))
  qed
  ultimately show ?thesis by blast
qed

definition small_plan :: string where
  "small_plan = unlines [''## Acceptance criteria'', ''1. builds'', ''## Acceptance checklist'', ''| [x] | [x] | builds |'']"

definition append_tests :: PlanAmendment where
  "append_tests = \<lparr>pa_appended = [\<lparr>nc_text = '' tests pass'', nc_write_scope = [''tests''], nc_depends_on = []\<rparr>,
                     \<lparr>nc_text = ''Builds'', nc_write_scope = [], nc_depends_on = []\<rparr>],
                   pa_edges = [], pa_scopes = []\<rparr>"

theorem amendment_only_appends_witness:
  "parse_dual_rows (fst (apply_amendment small_plan append_tests))
     = [\<lparr>dr_exec = True, dr_audit = True, dr_criterion = ''builds''\<rparr>, open_row ''tests pass'']"
proof -
  have "on_one_line append_tests" "one_section SECTION (lines small_plan)" "one_section ''acceptance criteria'' (lines small_plan)"
      "has_dual_checklist small_plan"
    by code_simp+
  from amendment_only_appends [OF this]
  have "parse_dual_rows (fst (apply_amendment small_plan append_tests))
      = parse_dual_rows small_plan @ map (\<lambda>c. open_row (nc_text c)) (accepted small_plan append_tests)" by blast
  moreover have "parse_dual_rows small_plan = [\<lparr>dr_exec = True, dr_audit = True, dr_criterion = ''builds''\<rparr>]" by code_simp
  moreover have "map nc_text (accepted small_plan append_tests) = [''tests pass'']" by code_simp
  then have "map (\<lambda>c. open_row (nc_text c)) (accepted small_plan append_tests) = [open_row ''tests pass'']" by auto
  ultimately show ?thesis by simp
qed

end
