(* ===== verification/Amend_Graph.thy ===== *)
theory Amend_Graph
  imports Amend_Correct
begin

text \<open>
  The dependency table of an amended plan: lists in table cells read back as written, every node keeps
  what it declared and gains exactly the accepted changes, and the schedule stays acyclic.
\<close>

subsection \<open>Lists in cells read back\<close>

definition ws_free :: "string \<Rightarrow> bool" where
  "ws_free w \<longleftrightarrow> (\<forall>a b. w = a @ b \<longrightarrow> strip_ws b = None)"

lemma ws_free_factor: "ws_free (p @ m @ q) \<Longrightarrow> ws_free m"
  unfolding ws_free_def
proof (intro allI impI)
  fix a b
  assume f: "\<forall>a b. p @ m @ q = a @ b \<longrightarrow> strip_ws b = None" and m: "m = a @ b"
  then have "strip_ws (b @ q) = None" using spec [OF spec [OF f, of "p @ a"], of "b @ q"] by simp
  then show "strip_ws b = None" by (rule strip_ws_prefix)
qed

lemma ws_free_Cons: "ws_free (c # w) \<Longrightarrow> ws_free w \<and> strip_ws (c # w) = None"
  using ws_free_factor [of "[c]" w "[]"] by (auto simp: ws_free_def)

lemma ws_free_trim: "ws_free w \<Longrightarrow> trim w = w"
proof -
  assume w: "ws_free w"
  have "strip_ws_rev (rev w) = None"
  proof (rule ccontr)
    assume "strip_ws_rev (rev w) \<noteq> None"
    then obtain r e where "is_ws_enc e" "rev w = rev e @ r" using strip_ws_rev_SomeD by blast
    then have "w = rev r @ e" by (simp add: rev_eq_append_conv)
    with w have "strip_ws (e @ []) = None" by (auto simp: ws_free_def)
    with \<open>is_ws_enc e\<close> show False using strip_ws_append [of e "[]"] by simp
  qed
  moreover have "strip_ws w = None" using w by (auto simp: ws_free_def)
  ultimately show ?thesis by (simp add: trim_def trim_start_None trim_end_None)
qed

lemma split_ws_acc_free: "ws_free w \<Longrightarrow> acc \<noteq> [] \<or> w \<noteq> [] \<Longrightarrow> split_ws_acc acc w = [rev acc @ w]"
proof (induction w arbitrary: acc)
  case (Cons c w)
  then have "split_ws_acc acc (c # w) = split_ws_acc (c # acc) w"
    using ws_free_Cons [of c w] by (subst split_ws_acc.simps) simp
  with Cons ws_free_Cons [of c w] show ?case by simp
qed (simp add: split_ws_acc.simps)

lemma split_whitespace_free: "ws_free w \<Longrightarrow> w \<noteq> [] \<Longrightarrow> split_whitespace w = [w] \<and> split_whitespace ('' '' @ w) = [w]"
proof -
  assume w: "ws_free w" "w \<noteq> []"
  have "strip_ws ('' '' @ w) = Some w" by (rule strip_ws_append) (simp add: is_ws_enc_single)
  then have "split_ws_acc [] ('' '' @ w) = split_ws_acc [] w" by (subst split_ws_acc.simps) simp
  then show ?thesis using split_ws_acc_free [OF w(1), of "[]"] w(2) by (simp add: split_whitespace_def)
qed

lemma split_ws_acc_tokens:
  "p \<in> set (split_ws_acc acc s) \<Longrightarrow> \<forall>a b. rev acc = a @ b \<longrightarrow> b \<noteq> [] \<longrightarrow> strip_ws (b @ s) = None \<Longrightarrow> ws_free p \<and> p \<noteq> []"
proof (induction "length s" arbitrary: acc s p rule: less_induct)
  case less
  have out: "ws_free (rev acc)"
    unfolding ws_free_def
  proof (intro allI impI)
    fix a b assume "rev acc = a @ b"
    then show "strip_ws b = None" using less.prems(2) strip_ws_prefix by (cases "b = []") auto
  qed
  show ?case
  proof (cases s)
    case Nil
    with less.prems(1) out show ?thesis by (auto simp: split_ws_acc.simps [of acc "[]"] split: if_splits)
  next
    case (Cons c cs)
    show ?thesis
    proof (cases "strip_ws s")
      case None
      have "split_ws_acc acc s = split_ws_acc (c # acc) cs" using Cons None by (subst split_ws_acc.simps) simp
      moreover have "\<forall>a b. rev (c # acc) = a @ b \<longrightarrow> b \<noteq> [] \<longrightarrow> strip_ws (b @ cs) = None"
      proof (intro allI impI)
        fix a b assume ab: "rev (c # acc) = a @ b" "b \<noteq> []"
        then obtain b' where b': "b = b' @ [c]" "rev acc = a @ b'" by (cases b rule: rev_cases) auto
        then show "strip_ws (b @ cs) = None" using less.prems(2) None Cons by (cases "b' = []") auto
      qed
      ultimately show ?thesis using less.hyps [of cs p "c # acc"] less.prems(1) Cons by auto
    next
      case (Some r)
      then have r: "length r < length s" using strip_ws_shorter by blast
      have "split_ws_acc acc s = (if acc = [] then [] else [rev acc]) @ split_ws_acc [] r"
        using Cons Some by (subst split_ws_acc.simps) simp
      with less.prems(1) consider "p = rev acc" "acc \<noteq> []" | "p \<in> set (split_ws_acc [] r)" by (auto split: if_splits)
      then show ?thesis using less.hyps [OF r, of p "[]"] out by cases auto
    qed
  qed
qed

definition clean_token :: "string \<Rightarrow> bool" where
  "clean_token t \<longleftrightarrow> t \<noteq> [] \<and> ws_free t \<and> CHR '','' \<notin> set t \<and> CHR '';'' \<notin> set t
     \<and> hd t \<noteq> BACKTICK \<and> last t \<noteq> BACKTICK"

lemma split_by_no_sep: "p \<in> set (split_by P s) \<Longrightarrow> c \<in> set p \<Longrightarrow> \<not> P c"
proof (induction s arbitrary: p)
  case (Cons x xs)
  then show ?case by (cases "split_by P xs") (fastforce split: if_splits)+
qed simp

lemma trim_matches_factor: "\<exists>p q. s = p @ trim_matches c s @ q"
proof -
  have "\<exists>p. s = p @ trim_start_char c s" unfolding trim_start_char_def by (metis takeWhile_dropWhile_id)
  moreover have "\<exists>q. x = trim_end_char c x @ q" for x
    unfolding trim_end_char_def by (metis rev_append rev_rev_ident takeWhile_dropWhile_id)
  ultimately show ?thesis unfolding trim_matches_def by metis
qed

lemma trim_matches_ends: "trim_matches c s \<noteq> [] \<Longrightarrow> hd (trim_matches c s) \<noteq> c \<and> last (trim_matches c s) \<noteq> c"
proof -
  assume ne: "trim_matches c s \<noteq> []"
  let ?x = "trim_start_char c s"
  have "?x \<noteq> []" using ne by (auto simp: trim_matches_def trim_end_char_def)
  then have hx: "hd ?x \<noteq> c" unfolding trim_start_char_def by (metis (full_types) hd_dropWhile)
  obtain q where q: "?x = trim_end_char c ?x @ q" unfolding trim_end_char_def by (metis rev_append rev_rev_ident takeWhile_dropWhile_id)
  have "hd (trim_end_char c ?x) = hd ?x" using ne q unfolding trim_matches_def by (metis hd_append2)
  moreover have "last (trim_end_char c ?x) \<noteq> c"
    using ne unfolding trim_matches_def trim_end_char_def by (metis (full_types) hd_dropWhile last_rev rev_is_Nil_conv)
  ultimately show ?thesis using hx by (simp add: trim_matches_def)
qed

lemma parse_list_clean: "p \<in> set (parse_list cell) \<Longrightarrow> clean_token p"
proof -
  assume "p \<in> set (parse_list cell)"
  then obtain q w where q: "q \<in> set (split_by (\<lambda>c. c = CHR '','' \<or> c = CHR '';'') (trim_matches BACKTICK (trim cell)))"
      "w \<in> set (split_whitespace q)" "p = trim (trim_matches BACKTICK (trim w))" "p \<noteq> []"
    by (auto simp: parse_list_def Let_def split: if_splits)
  have w: "ws_free w" using split_ws_acc_tokens [of w "[]" q] q(2) by (simp add: split_whitespace_def)
  have tw: "trim w = w" using w by (rule ws_free_trim)
  let ?m = "trim_matches BACKTICK w"
  have m: "ws_free ?m" using trim_matches_factor [of w BACKTICK] w ws_free_factor by metis
  then have p: "p = ?m" using q(3) ws_free_trim tw by simp
  have "set w \<subseteq> set q" using split_ws_acc_subset [of w "[]" q] q(2) by (simp add: split_whitespace_def)
  then have "set p \<subseteq> set q" using p trim_matches_subset [of BACKTICK w] by blast
  then show ?thesis
    using m p q(4) trim_matches_ends [of BACKTICK w] split_by_no_sep [OF q(1)] by (auto simp: clean_token_def)
qed

lemma split_by_absent: "\<forall>c\<in>set s. \<not> P c \<Longrightarrow> split_by P s = [s]"
  by (induction s) auto

lemma split_by_append: "\<forall>c\<in>set x. \<not> P c \<Longrightarrow> P d \<Longrightarrow> split_by P (x @ d # s) = x # split_by P s"
  by (induction x) auto

lemma split_by_join:
  assumes "\<forall>t\<in>set ts. \<forall>c\<in>set t. \<not> P c" and "P (CHR '','')" and "\<not> P (CHR '' '')" and "ts \<noteq> []"
  shows "split_by P (join '', '' ts) = hd ts # map (\<lambda>t. '' '' @ t) (tl ts)"
proof -
  have gen: "split_by P (x @ join '', '' ts) = (x @ hd ts) # map (\<lambda>t. '' '' @ t) (tl ts)"
    if "\<forall>c\<in>set x. \<not> P c" "\<forall>t\<in>set ts. \<forall>c\<in>set t. \<not> P c" "ts \<noteq> []" for x ts
    using that
  proof (induction ts arbitrary: x)
    case (Cons t ts)
    show ?case
    proof (cases ts)
      case Nil
      with Cons.prems split_by_absent [of "x @ t" P] show ?thesis by auto
    next
      case (Cons u us)
      have "join '', '' (t # ts) = t @ CHR '','' # ('' '' @ join '', '' ts)" using Cons by (simp add: join_Cons)
      then have "split_by P (x @ join '', '' (t # ts)) = (x @ t) # split_by P ('' '' @ join '', '' ts)"
        using split_by_append [of "x @ t" P "CHR '',''" "'' '' @ join '', '' ts"] Cons.prems assms(2)
        by (simp only: append_assoc) (simp add: ball_Un del: split_by.simps)
      with Cons.IH [of "'' ''"] Cons.prems assms(3) Cons show ?thesis by simp
    qed
  qed simp
  from gen [of "[]" ts] assms(1,4) show ?thesis by simp
qed

lemma plain_comma [simp]: "plain (CHR '','')"
  by (simp add: plain_def ascii_ws_def wide_ws_def)

lemma join_begin: "ts \<noteq> [] \<Longrightarrow> join '', '' ts = hd ts \<or> (\<exists>r. join '', '' ts = hd ts @ CHR '','' # r)"
  by (cases ts; cases "tl ts") (auto simp: join_Cons)

lemma join_end: "ts \<noteq> [] \<Longrightarrow> join '', '' ts = last ts \<or> (\<exists>r. join '', '' ts = r @ CHR '' '' # last ts)"
proof (induction ts)
  case (Cons t ts)
  show ?case
  proof (cases "ts = []")
    case False
    have "join '', '' (t # ts) = (t @ '','') @ CHR '' '' # join '', '' ts" using False by (simp add: join_Cons)
    with Cons.IH [OF False] False show ?thesis by (metis append.assoc append_Cons last_ConsR)
  qed simp
qed simp

lemma join_trim:
  assumes "\<forall>t\<in>set ts. clean_token t" and "ts \<noteq> []"
  shows "trim (join '', '' ts) = join '', '' ts"
proof -
  let ?J = "join '', '' ts"
  have f: "ws_free (hd ts)" "hd ts \<noteq> []" and g: "ws_free (last ts)" "last ts \<noteq> []" using assms by (auto simp: clean_token_def)
  have "strip_ws ?J = None"
    unfolding strip_ws_None_iff
  proof (intro allI impI notI)
    fix w r assume w: "is_ws_enc w" and J: "?J = w @ r"
    have nf: "hd ts \<noteq> w @ u" for u using f(1) w by (auto simp: ws_free_def strip_ws_None_iff)
    from join_begin [OF assms(2)] show False
    proof
      assume "?J = hd ts"
      with J nf show False by simp
    next
      assume "\<exists>s. ?J = hd ts @ CHR '','' # s"
      then obtain s where "hd ts @ CHR '','' # s = w @ r" using J by metis
      then obtain us where us: "w = hd ts @ us" "us @ r = CHR '','' # s"
        using nf by (metis append_eq_append_conv2)
      then have "us \<noteq> []" using nf [of "[]"] by auto
      then have "CHR '','' \<in> set w" using us by (cases us) auto
      with w plain_not_in_ws plain_comma show False by blast
    qed
  qed
  moreover have "strip_ws_rev (rev ?J) = None"
  proof (rule ccontr)
    assume "strip_ws_rev (rev ?J) \<noteq> None"
    then obtain r w where w: "is_ws_enc w" and rr: "rev ?J = rev w @ r" using strip_ws_rev_SomeD by blast
    then have J: "?J = rev r @ w" by (simp add: rev_eq_append_conv)
    have ng: "last ts \<noteq> u @ w" for u
      using g(1) strip_ws_append [OF w, of "[]"] by (auto simp: ws_free_def)
    from join_end [OF assms(2)] show False
    proof
      assume "?J = last ts"
      with J ng show False by simp
    next
      assume "\<exists>s. ?J = s @ CHR '' '' # last ts"
      then obtain s where "s @ CHR '' '' # last ts = rev r @ w" using J by metis
      then have "(s @ '' '') @ last ts = rev r @ w" by simp
      then obtain us where us: "w = us @ last ts" "rev r @ us = s @ '' ''"
        using ng by (metis append_eq_append_conv2)
      then have "us \<noteq> []" using ng [of "[]"] by auto
      then have "CHR '' '' \<in> set w" "2 \<le> length w" using us g(2) by (cases us rule: rev_cases; cases "last ts"; auto)+
      with w show False by (auto simp: is_ws_enc_def wide_ws_def)
    qed
  qed
  ultimately show ?thesis by (simp add: trim_def trim_start_None trim_end_None)
qed

lemma trim_matches_id: "s \<noteq> [] \<Longrightarrow> hd s \<noteq> c \<Longrightarrow> last s \<noteq> c \<Longrightarrow> trim_matches c s = s"
proof -
  assume s: "s \<noteq> []" "hd s \<noteq> c" "last s \<noteq> c"
  have a: "dropWhile (\<lambda>x. x = c) s = s" using s by (cases s) auto
  have "dropWhile (\<lambda>x. x = c) (rev s) = rev s" using s by (cases s rule: rev_cases) auto
  with a show ?thesis by (simp add: trim_matches_def trim_start_char_def trim_end_char_def)
qed

lemma clean_token_id: "clean_token t \<Longrightarrow> trim (trim_matches BACKTICK (trim t)) = t"
  by (simp add: clean_token_def ws_free_trim trim_matches_id)

lemma parse_list_join:
  assumes ts: "\<forall>t\<in>set ts. clean_token t" "ts \<noteq> []" and word: "to_ascii_lowercase (join '', '' ts) \<notin> set empty_words"
  shows "parse_list (join '', '' ts) = ts"
proof -
  let ?J = "join '', '' ts" and ?P = "\<lambda>c. c = CHR '','' \<or> c = CHR '';''"
  have h: "clean_token (hd ts)" and l: "clean_token (last ts)" using ts by auto
  have ne: "?J \<noteq> []" using join_begin [OF ts(2)] h by (auto simp: clean_token_def)
  have "hd ?J = hd (hd ts)" using join_begin [OF ts(2)] h by (auto simp: clean_token_def)
  moreover have "last ?J = last (last ts)" using join_end [OF ts(2)] l by (auto simp: clean_token_def)
  ultimately have "trim_matches BACKTICK (trim ?J) = ?J"
    using h l ne by (simp add: join_trim [OF ts] trim_matches_id clean_token_def)
  moreover have "split_by ?P ?J = hd ts # map (\<lambda>t. '' '' @ t) (tl ts)"
    using ts by (intro split_by_join) (auto simp: clean_token_def)
  moreover have "concat (map split_whitespace (hd ts # map (\<lambda>t. '' '' @ t) (tl ts))) = ts"
  proof -
    have "concat (map split_whitespace (map (\<lambda>t. '' '' @ t) us)) = us" if "\<forall>t\<in>set us. clean_token t" for us
      using that split_whitespace_free by (induction us) (auto simp: clean_token_def)
    from this [of "tl ts"] ts h split_whitespace_free [of "hd ts"] show ?thesis
      by (cases ts) (auto simp: clean_token_def)
  qed
  moreover have "map (\<lambda>s. trim (trim_matches BACKTICK (trim s))) ts = ts"
    using ts(1) clean_token_id by (intro map_idI) blast
  moreover have "filter (\<lambda>s. s \<noteq> []) ts = ts" using ts(1) by (intro filter_True) (auto simp: clean_token_def)
  ultimately show ?thesis using word by (simp add: parse_list_def Let_def)
qed

subsection \<open>A rewritten row reads back extended\<close>

definition clean_path :: "string \<Rightarrow> bool" where
  "clean_path p \<longleftrightarrow> clean_token p \<and> CHR ''|'' \<notin> set p \<and> to_ascii_lowercase p \<notin> set empty_words"

lemma plain_ws_free: "list_all plain w \<Longrightarrow> ws_free w"
  unfolding ws_free_def
proof (intro allI impI)
  fix a b assume "list_all plain w" "w = a @ b"
  then show "strip_ws b = None" by (cases b) auto
qed

lemma digits_ws_free: "list_all is_ascii_digit ds \<Longrightarrow> ws_free ds"
  by (rule plain_ws_free) (auto simp: list_all_iff digit_plain)

lemma show_nat_clean: "clean_path (show_nat n)"
proof -
  have d: "\<forall>c\<in>set (show_nat n). is_ascii_digit c" using show_nat_chars by blast
  then have low: "to_ascii_lowercase (show_nat n) = show_nat n"
    by (auto simp: to_ascii_lowercase_def ascii_lower_def is_ascii_digit_def intro!: map_idI)
  have "show_nat n \<notin> set empty_words"
  proof
    assume "show_nat n \<in> set empty_words"
    then have "\<exists>w\<in>set empty_words. w \<noteq> [] \<and> is_ascii_digit (hd w)" using d show_nat_nonempty [of n] by (metis hd_in_set)
    then show False by (auto simp: empty_words_def is_ascii_digit_def)
  qed
  moreover have "hd (show_nat n) \<in> set (show_nat n)" "last (show_nat n) \<in> set (show_nat n)" by simp_all
  ultimately show ?thesis
    using d digits_neq digits_ws_free [OF show_nat_digits [of n]] low by (auto simp: clean_path_def clean_token_def)
qed

lemma append_cell_reads_back:
  assumes "\<forall>p\<in>set add. clean_path p"
  shows "parse_list (append_cell cur add) = add_missing (parse_list cur) add"
proof (cases "add = []")
  case True
  then show ?thesis by (simp add: append_cell_def parse_list_def)
next
  case False
  let ?ts = "add_missing (parse_list cur) add"
  obtain a where a: "a \<in> set add" using False by (cases add) auto
  then have ne: "?ts \<noteq> []" by (metis UnI2 empty_iff list.set(1) set_add_missing)
  have clean: "\<forall>t\<in>set ?ts. clean_token t" using assms parse_list_clean by (auto simp: clean_path_def)
  have "to_ascii_lowercase (join '', '' ?ts) \<notin> set empty_words"
  proof (cases "tl ?ts = []")
    case True
    then obtain t where t: "?ts = [t]" using ne by (cases ?ts) auto
    then have "t = a" using a set_add_missing [of "parse_list cur" add] by (metis UnI2 empty_iff list.set_cases set_ConsD list.set(1))
    then show ?thesis using t a assms by (auto simp: clean_path_def)
  next
    case False
    then have "join '', '' ?ts = hd ?ts @ '', '' @ join '', '' (tl ?ts)" using ne by (cases ?ts) (auto simp: join_Cons)
    then have "CHR '','' \<in> set (join '', '' ?ts)" by (metis UnI1 UnI2 list.set_intros(1) set_append)
    then have "ascii_lower (CHR '','') \<in> set (to_ascii_lowercase (join '', '' ?ts))" by (simp add: to_ascii_lowercase_def)
    then have "CHR '','' \<in> set (to_ascii_lowercase (join '', '' ?ts))" by (simp add: ascii_lower_def)
    moreover have "CHR '','' \<notin> set w" if "w \<in> set empty_words" for w using that by (auto simp: empty_words_def)
    ultimately show ?thesis by blast
  qed
  then show ?thesis using parse_list_join [OF clean ne] False by (simp add: append_cell_eq)
qed

lemma parse_list_trim [simp]: "parse_list (trim c) = parse_list c"
  by (simp add: parse_list_def)

lemma append_cell_no_pipe:
  "CHR ''|'' \<notin> set cur \<Longrightarrow> \<forall>p\<in>set add. CHR ''|'' \<notin> set p \<Longrightarrow> CHR ''|'' \<notin> set (append_cell cur add)"
  using append_cell_subset [of cur add] by auto

lemma digit_row_parse:
  assumes k: "0 < k" "k \<le> u32_max" and c: "CHR ''|'' \<notin> set c1" "CHR ''|'' \<notin> set c2"
    and l: "trim l = bar_row (show_nat k) (c1 @ '' | '' @ c2)"
  shows "parse_node l = Some \<lparr>cn_number = k, cn_depends_on = List.map_filter parse_number (parse_list c1), cn_write_scope = parse_list c2\<rparr>"
proof -
  have np: "CHR ''|'' \<notin> set (show_nat k)" using show_nat_chars digits_neq by blast
  have "table_cells l = table_cells (bar_row (show_nat k) (c1 @ '' | '' @ c2))"
    using l trim_bar_row [of "show_nat k" "c1 @ '' | '' @ c2"] by (simp add: table_cells_def)
  also have "\<dots> = show_nat k # map trim (split_on (CHR ''|'') ((c1 @ '' '') @ CHR ''|'' # '' '' @ c2))"
    using np by (simp add: bar_row_cells)
  also have "split_on (CHR ''|'') ((c1 @ '' '') @ CHR ''|'' # '' '' @ c2) = [c1 @ '' '', '' '' @ c2]"
    using c by (subst split_on_append) (auto simp: split_on_absent)
  finally have cells: "table_cells l = [show_nat k, trim c1, trim c2]"
    using trim_snoc_ws [of "CHR '' ''" c1] trim_Cons_ws [of "CHR '' ''" c2] by simp
  have "\<not> is_separator_row [show_nat k, trim c1, trim c2]"
  proof -
    obtain x where x: "x \<in> set (show_nat k)" using show_nat_nonempty [of k] by (cases "show_nat k") auto
    then have "is_ascii_digit x" by (rule show_nat_chars)
    then have "\<not> (x = CHR ''-'' \<or> x = CHR '':'' \<or> x = CHR '' '')" by (auto simp: is_ascii_digit_def)
    with x show ?thesis by (auto simp: is_separator_row_def list_all_iff Let_def)
  qed
  then show ?thesis by (simp add: parse_node_def cells parse_number_show_nat [OF k] Let_def)
qed

definition node_extends :: "(nat \<times> nat) list \<Rightarrow> (nat \<times> string list) list \<Rightarrow> CriterionNode \<Rightarrow> CriterionNode \<Rightarrow> bool" where
  "node_extends edges scopes n n' \<longleftrightarrow> cn_number n' = cn_number n
     \<and> set (cn_depends_on n') = set (cn_depends_on n) \<union> {d. (cn_number n, d) \<in> set edges}
     \<and> set (cn_write_scope n') = set (cn_write_scope n) \<union> {p. \<exists>ps. (cn_number n, ps) \<in> set scopes \<and> p \<in> set ps}"

lemma parse_number_bounds: "parse_number c = Some k \<Longrightarrow> 0 < k \<and> k \<le> u32_max"
  by (auto simp: parse_number_def Let_def opt_filter_Some_iff dest: parse_uint_le)

lemma map_filter_numbers:
  assumes "\<forall>d\<in>set ds. 0 < d \<and> d \<le> u32_max"
  shows "set (List.map_filter parse_number (add_missing xs (map show_nat ds))) = set (List.map_filter parse_number xs) \<union> set ds"
proof -
  have mf: "set (List.map_filter parse_number ys) = {k. \<exists>y\<in>set ys. parse_number y = Some k}" for ys
    by (force simp: List.map_filter_def)
  have "{k. \<exists>y\<in>set xs \<union> show_nat ` set ds. parse_number y = Some k}
      = {k. \<exists>y\<in>set xs. parse_number y = Some k} \<union> {k. \<exists>y\<in>show_nat ` set ds. parse_number y = Some k}" by blast
  also have "{k. \<exists>y\<in>show_nat ` set ds. parse_number y = Some k} = set ds"
    using assms parse_number_show_nat by auto
  finally show ?thesis by (simp add: mf)
qed

lemma parse_node_dependency: "parse_node l \<noteq> None \<longleftrightarrow> is_dependency_row l"
  by (auto simp: parse_node_def is_dependency_row_def Let_def split: option.splits)

definition changes_clean :: "(nat \<times> nat) list \<Rightarrow> (nat \<times> string list) list \<Rightarrow> bool" where
  "changes_clean edges scopes \<longleftrightarrow> (\<forall>e\<in>set edges. 0 < snd e \<and> snd e \<le> u32_max) \<and> (\<forall>e\<in>set scopes. \<forall>p\<in>set (snd e). clean_path p)"

lemma copied_node:
  assumes ch: "changes_clean edges scopes" and n: "parse_node l = Some n"
  shows "\<exists>n'. parse_node (copied_line (Some j) edges scopes l) = Some n' \<and> node_extends edges scopes n n'"
proof -
  let ?cells = "table_cells l" and ?k = "cn_number n"
  have len: "3 \<le> length ?cells" and num: "parse_number (?cells ! 0) = Some ?k"
      and deps: "cn_depends_on n = List.map_filter parse_number (parse_list (?cells ! 1))" and sc: "cn_write_scope n = parse_list (?cells ! 2)"
    using n by (auto simp: parse_node_def Let_def split: if_splits option.splits)
  have dep: "is_dependency_row l" using n parse_node_dependency by blast
  let ?es = "map snd (filter (\<lambda>e. fst e = ?k) edges)" and ?ss = "concat (map snd (filter (\<lambda>e. fst e = ?k) scopes))"
  have es: "set ?es = {d. (?k, d) \<in> set edges}" and ss: "set ?ss = {p. \<exists>ps. (?k, ps) \<in> set scopes \<and> p \<in> set ps}"
    by force+
  have copied: "copied_line (Some j) edges scopes l = (case rewrite_dependency_row l ?k edges scopes of None \<Rightarrow> l | Some r \<Rightarrow> r)"
    by (simp add: copied_line_def dep num)
  show ?thesis
  proof (cases "?es = [] \<and> ?ss = []")
    case True
    then have "copied_line (Some j) edges scopes l = l" by (simp add: copied rewrite_dependency_row_def)
    then show ?thesis using n True es ss by (auto simp: node_extends_def)
  next
    case False
    let ?c1 = "append_cell (?cells ! 1) (map show_nat ?es)" and ?c2 = "append_cell (?cells ! 2) ?ss"
    have "copied_line (Some j) edges scopes l = indent_of l @ bar_row (show_nat ?k) (?c1 @ '' | '' @ ?c2)"
      using False len by (auto simp: copied rewrite_dependency_row_def bar_row_def cell_or_dash_def Let_def)
    then have tr: "trim (copied_line (Some j) edges scopes l) = bar_row (show_nat ?k) (?c1 @ '' | '' @ ?c2)"
      by (simp add: trim_indent trim_bar_row)
    have mem: "?cells ! 1 \<in> set ?cells" "?cells ! 2 \<in> set ?cells" using len by (auto intro!: nth_mem)
    have cl: "\<forall>p\<in>set ?ss. clean_path p" using ch by (auto simp: changes_clean_def)
    have cd: "\<forall>p\<in>set (map show_nat ?es). clean_path p" using show_nat_clean by auto
    have p1: "CHR ''|'' \<notin> set ?c1" using cd table_cells_no_pipe [OF mem(1)] by (intro append_cell_no_pipe) (auto simp: clean_path_def)
    have p2: "CHR ''|'' \<notin> set ?c2" using cl table_cells_no_pipe [OF mem(2)] by (intro append_cell_no_pipe) (auto simp: clean_path_def)
    have "parse_node (copied_line (Some j) edges scopes l)
        = Some \<lparr>cn_number = ?k, cn_depends_on = List.map_filter parse_number (parse_list ?c1), cn_write_scope = parse_list ?c2\<rparr>"
      using parse_number_bounds [OF num] p1 p2 tr by (intro digit_row_parse) auto
    moreover have "\<forall>d\<in>set ?es. 0 < d \<and> d \<le> u32_max" using ch by (auto simp: changes_clean_def)
    ultimately show ?thesis
      using es ss by (auto simp: node_extends_def append_cell_reads_back [OF cd] append_cell_reads_back [OF cl] map_filter_numbers deps sc simp del: map_map)
  qed
qed

subsection \<open>The amended table\<close>

definition scope_paths_ok :: "NewCriterion list \<Rightarrow> bool" where
  "scope_paths_ok appended \<longleftrightarrow> (\<forall>c\<in>set appended. \<forall>p\<in>set (nc_write_scope c). clean_path p)"

definition node_for :: "(nat \<times> nat) list \<Rightarrow> nat \<times> NewCriterion \<Rightarrow> CriterionNode \<Rightarrow> bool" where
  "node_for edges kc n \<longleftrightarrow> cn_number n = fst kc \<and> set (cn_depends_on n) = {d. (fst kc, d) \<in> set edges}
     \<and> set (cn_write_scope n) = set (nc_write_scope (snd kc))"

lemma dependency_line_node:
  assumes k: "0 < k" "k \<le> u32_max" and ch: "changes_clean edges scopes" and c: "\<forall>p\<in>set (nc_write_scope c). clean_path p"
  shows "\<exists>n. parse_node (dependency_line edges k c) = Some n \<and> node_for edges (k, c) n"
proof -
  let ?es = "map snd (filter (\<lambda>e. fst e = k) edges)"
  let ?c1 = "append_cell ''-'' (map show_nat ?es)" and ?c2 = "append_cell ''-'' (nc_write_scope c)"
  have l: "dependency_line edges k c = bar_row (show_nat k) (?c1 @ '' | '' @ ?c2)" by (simp add: dependency_line_bar comp_def)
  have cd: "\<forall>p\<in>set (map show_nat ?es). clean_path p" using show_nat_clean by auto
  have p: "CHR ''|'' \<notin> set ?c1" "CHR ''|'' \<notin> set ?c2"
    using append_cell_no_pipe [of "''-''" "map show_nat ?es"] append_cell_no_pipe [of "''-''" "nc_write_scope c"] cd c
    by (simp_all add: clean_path_def)
  have "parse_node (dependency_line edges k c)
      = Some \<lparr>cn_number = k, cn_depends_on = List.map_filter parse_number (parse_list ?c1), cn_write_scope = parse_list ?c2\<rparr>"
    by (rule digit_row_parse [OF k p]) (simp only: l trim_bar_row)
  moreover have "parse_list ''-'' = []" by code_simp
  moreover have "\<forall>d\<in>set ?es. 0 < d \<and> d \<le> u32_max" using ch by (auto simp: changes_clean_def)
  moreover have "set ?es = {d. (k, d) \<in> set edges}" by force
  ultimately show ?thesis
    using append_cell_reads_back [OF cd, of "''-''"] append_cell_reads_back [OF c, of "''-''"] map_filter_numbers [of ?es "[]"]
    by (auto simp: node_for_def map_filter_simps simp del: map_map)
qed

interpretation table: section_reader GRAPH_SECTION parse_node is_dependency_row
  by unfold_locales (simp only: parse_node_dependency)

lemma parse_node_trim: "trim x = trim y \<Longrightarrow> parse_node x = parse_node y"
  by (simp add: parse_node_def table_cells_def)

lemma parse_node_other:
  "parse_node (criterion_line k c) = None" "parse_node (checklist_line c) = None"
proof -
  show "parse_node (criterion_line k c) = None" by (simp add: parse_node_def criterion_line_plain)
  have "parse_number ''[ ]'' = None" by (rule parse_number_no_digit) (simp add: is_ascii_digit_def)
  then show "parse_node (checklist_line c) = None"
    by (simp add: parse_node_def checklist_line_bar bar_row_cells Let_def)
qed

lemma list_all2_map_filter:
  assumes "\<And>x. x \<in> set xs \<Longrightarrow> rel_option R (g x) (h x)"
  shows "list_all2 R (List.map_filter g xs) (List.map_filter h xs)"
  using assms
proof (induction xs)
  case (Cons x xs)
  then have "rel_option R (g x) (h x)" "list_all2 R (List.map_filter g xs) (List.map_filter h xs)" by auto
  then show ?case by (cases "g x"; cases "h x") (auto simp: map_filter_simps)
qed (simp add: map_filter_simps)

lemma map_filter_rel:
  assumes "\<And>x. x \<in> set xs \<Longrightarrow> \<exists>y. g (f x) = Some y \<and> R x y"
  shows "list_all2 R xs (List.map_filter g (map f xs))"
  using assms
proof (induction xs)
  case (Cons x xs)
  then obtain y where "g (f x) = Some y" "R x y" by auto
  with Cons show ?case by (simp add: map_filter_simps)
qed (simp add: map_filter_simps)

lemma numbered_from_bounds: "x \<in> set (numbered_from k xs) \<Longrightarrow> k \<le> fst x \<and> fst x < k + length xs"
  by (cases x) (auto simp: numbered_from_def dest: set_zip_leftD)

lemma rewrite_graph:
  assumes ok: "lines_ok appended scopes" and ch: "changes_clean edges scopes" and sc: "scope_paths_ok appended"
    and g: "parse_criterion_graph body = Some g" and small: "existing + length appended \<le> u32_max"
  shows "\<exists>g1 g2. parse_criterion_graph (rewrite body existing appended edges scopes) = Some (g1 @ g2)
     \<and> list_all2 (node_extends edges scopes) g g1
     \<and> list_all2 (node_for edges) (numbered_from (existing + 1) appended) g2"
proof -
  let ?L = "rewrite_lines body existing appended edges scopes" and ?ls = "lines body" and ?n = GRAPH_SECTION
  let ?last = "last_line_in_section body ?n is_dependency_row" and ?new = "numbered_from (existing + 1) appended"
  let ?news = "List.map_filter parse_node (map (\<lambda>(k, c). dependency_line edges k c) ?new)"
  have gs: "g = List.map_filter parse_node (section_loop ?n None ?ls)" "g \<noteq> []"
    using g by (auto simp: parse_criterion_graph_def section_lines_def Let_def split: if_splits)
  then obtain j where j: "?last = Some j"
    using table.items_nonempty_last [of ?ls] by (auto simp: last_line_in_section_def)
  have items: "List.map_filter parse_node (inserted body existing appended edges i) = (if Some i = ?last then ?news else [])" for i
  proof -
    have "List.map_filter parse_node (map (\<lambda>(k, c). criterion_line k c) xs) = []" for xs
      by (auto intro!: map_filter_map_None simp: parse_node_other)
    moreover have "List.map_filter parse_node (map checklist_line appended) = []"
      by (auto intro!: map_filter_map_None simp: parse_node_other)
    ultimately show ?thesis by (simp add: inserted_def map_filter_append map_filter_simps)
  qed
  have pred: "parse_node (copied_line ?last edges scopes l) \<noteq> None \<Longrightarrow> is_dependency_row l" for l
    using copied_line_cases [of ?last edges scopes l] parse_node_dependency [of l] by auto
  have "List.map_filter parse_node (section_loop ?n None (lines (rewrite body existing appended edges scopes)))
      = List.map_filter parse_node (section_loop ?n None ?L)"
    by (rule section_items_map_trim [OF parse_node_trim lines_rewrite_amend [OF ok]])
  also have "\<dots> = List.map_filter (\<lambda>l. parse_node (copied_line ?last edges scopes l)) (section_loop ?n None ?ls) @ ?news"
    unfolding rewrite_lines_splice
    by (intro table.splice_items copied_line_headers inserted_no_header)
      (use gs items pred in \<open>auto simp: last_line_in_section_def\<close>)
  finally have new: "List.map_filter parse_node (section_loop ?n None (lines (rewrite body existing appended edges scopes)))
      = List.map_filter (\<lambda>l. parse_node (copied_line ?last edges scopes l)) (section_loop ?n None ?ls) @ ?news" (is "_ = ?g1 @ _") .
  have ext: "list_all2 (node_extends edges scopes) g ?g1"
    unfolding gs(1)
  proof (rule list_all2_map_filter)
    fix l
    show "rel_option (node_extends edges scopes) (parse_node l) (parse_node (copied_line ?last edges scopes l))"
      using copied_node [OF ch, of l _ j] pred [of l] parse_node_dependency [of l] j by (cases "parse_node l") force+
  qed
  have "list_all2 (node_for edges) ?new ?news"
  proof (rule map_filter_rel)
    fix x assume x: "x \<in> set ?new"
    obtain k c where kc: "x = (k, c)" by (cases x)
    have "c \<in> set appended" "0 < k" "k \<le> u32_max" using set_numbered_from [OF x] numbered_from_bounds [OF x] small by (auto simp: kc)
    then show "\<exists>y. parse_node (case x of (k, c) \<Rightarrow> dependency_line edges k c) = Some y \<and> node_for edges x y"
      using dependency_line_node [OF _ _ ch] sc by (simp add: kc scope_paths_ok_def)
  qed
  moreover have "?g1 \<noteq> []" using ext gs(2) by auto
  ultimately show ?thesis using new ext
    by (auto simp: parse_criterion_graph_def section_lines_def Let_def)
qed

subsection \<open>Accepted edges keep the schedule\<close>

lemma update_node_add: "update_node a (\<lambda>n. n\<lparr>cn_depends_on := cn_depends_on n @ [b]\<rparr>) g = add_dependency a b g"
  by (induction g) auto

lemma update_node_undo:
  "find_node g a = Some n \<Longrightarrow> b \<notin> set (cn_depends_on n) \<Longrightarrow>
   update_node a (\<lambda>n. n\<lparr>cn_depends_on := filter (\<lambda>d. d \<noteq> b) (cn_depends_on n)\<rparr>) (add_dependency a b g) = g"
proof (induction g)
  case (Cons m g)
  show ?case
  proof (cases "cn_number m = a")
    case True
    then have "m = n" using Cons.prems(1) by (simp add: find_node_def)
    then have "filter (\<lambda>d. d \<noteq> b) (cn_depends_on m) = cn_depends_on m" using Cons.prems(2) by (auto intro: filter_True)
    then show ?thesis using True by simp
  next
    case False
    then show ?thesis using Cons by (simp add: find_node_def)
  qed
qed simp

lemma contract_member: "contract_ok k g \<Longrightarrow> a \<in> cn_number ` set g \<longleftrightarrow> 1 \<le> a \<and> a \<le> k"
proof -
  assume "contract_ok k g"
  then have "cn_number ` set g = set [1..<k + 1]" by (metis contract_numbers list.set_map)
  then show ?thesis by (auto simp del: upt_Suc)
qed

lemma edge_loop_ok:
  "contract_ok k C \<Longrightarrow> acyclic (dep_rel C) \<Longrightarrow> edge_loop C k wanted = (applied, rej) \<Longrightarrow>
   acyclic (dep_rel C \<union> set applied) \<and> (\<forall>(a, b)\<in>set applied. a \<noteq> b \<and> 1 \<le> a \<and> a \<le> k \<and> 1 \<le> b \<and> b \<le> k)"
proof (induction wanted arbitrary: C applied rej)
  case (Cons w wanted)
  obtain a b where w: "w = (a, b)" by (cases w)
  obtain es rs where rest: "edge_loop C k wanted = (es, rs)" by fastforce
  note IH = Cons.IH [OF Cons.prems(1,2) rest]
  let ?unknown = "List.find (\<lambda>n. n = 0 \<or> k < n) [a, b]"
  show ?case
  proof (cases "a = b \<or> ?unknown \<noteq> None \<or> find_node C a = None")
    case True
    then have "applied = es" using Cons.prems(3) rest by (auto simp: w Let_def split: option.splits if_splits)
    with IH show ?thesis by simp
  next
    case False
    then have ab: "a \<noteq> b" "1 \<le> a" "a \<le> k" "1 \<le> b" "b \<le> k" by (auto split: if_splits)
    from False obtain n where n: "find_node C a = Some n" by auto
    let ?G = "add_dependency a b C"
    show ?thesis
    proof (cases "b \<in> set (cn_depends_on n)")
      case True
      then have "applied = es" using Cons.prems(3) rest False n by (auto simp: w Let_def)
      with IH show ?thesis by simp
    next
      case b: False
      have G: "contract_ok k ?G" using Cons.prems(1) ab contract_member [OF Cons.prems(1), of b] by (auto intro: contract_add_dependency)
      show ?thesis
      proof (cases "parallel_waves ?G = None")
        case True
        then have "applied = es"
          using Cons.prems(3) rest False n b update_node_undo [OF n b] by (auto simp: w Let_def update_node_add)
        with IH show ?thesis by simp
      next
        case waves: False
        obtain es' rs' where r': "edge_loop ?G k wanted = (es', rs')" by fastforce
        have ap: "applied = (a, b) # es'" using Cons.prems(3) r' False n b waves by (auto simp: w Let_def update_node_add)
        have "acyclic (dep_rel ?G)" using waves waves_None_iff [OF contract_well_numbered [OF G]] by simp
        from Cons.IH [OF G this r'] have ih: "acyclic (dep_rel ?G \<union> set es')"
          "\<forall>(a, b)\<in>set es'. a \<noteq> b \<and> 1 \<le> a \<and> a \<le> k \<and> 1 \<le> b \<and> b \<le> k" by auto
        have "(a, b) \<in> dep_rel ?G" using n by (auto simp: dep_rel_def find_node_add_dependency)
        then have "dep_rel C \<union> set applied \<subseteq> dep_rel ?G \<union> set es'" using dep_rel_add_dependency_mono [of C a b] ap by auto
        then have "acyclic (dep_rel C \<union> set applied)" by (rule acyclic_subset [OF ih(1)])
        then show ?thesis using ih(2) ab ap by simp
      qed
    qed
  qed
qed simp

lemma sort_key_sorted: "sorted (map f xs) \<Longrightarrow> sort_key f xs = xs"
  by (induction xs) (auto simp: insort_is_Cons)

lemma candidate_fold:
  "distinct ns \<Longrightarrow>
   foldl (\<lambda>nodes n. if list_ex (\<lambda>node. cn_number node = n) nodes then nodes else nodes @ [filler_node n]) xs ns
     = xs @ map filler_node (filter (\<lambda>n. n \<notin> cn_number ` set xs) ns)"
proof (induction ns arbitrary: xs)
  case (Cons m ns)
  have f: "filter (\<lambda>n. n \<notin> insert m A) ns = filter (\<lambda>n. n \<notin> A) ns" for A using Cons.prems by (intro filter_cong) auto
  show ?case
  proof (cases "m \<in> cn_number ` set xs")
    case True
    then have "list_ex (\<lambda>node. cn_number node = m) xs" by (auto simp: list_ex_iff)
    with True Cons show ?thesis by auto
  next
    case False
    then have "\<not> list_ex (\<lambda>node. cn_number node = m) xs" by (auto simp: list_ex_iff)
    with False Cons f [of "cn_number ` set xs"] show ?thesis by (simp add: filler_node_def)
  qed
qed simp

lemma candidate_graph_eq:
  assumes "contract_ok k g"
  shows "candidate_graph g (k + m) = g @ map filler_node [k + 1..<k + m + 1]"
proof -
  have "filter (\<lambda>n. n \<notin> cn_number ` set g) [1..<k + m + 1] = [k + 1..<k + m + 1]"
  proof -
    have "[1..<k + m + 1] = [1..<k + 1] @ [k + 1..<k + m + 1]" using upt_add_eq_append [of 1 "k + 1" m] by simp
    moreover have "filter (\<lambda>n. n \<notin> cn_number ` set g) [1..<k + 1] = []"
      using contract_member [OF assms] by (auto simp: filter_empty_conv simp del: upt_Suc)
    moreover have "filter (\<lambda>n. n \<notin> cn_number ` set g) [k + 1..<k + m + 1] = [k + 1..<k + m + 1]"
      using contract_member [OF assms] by (intro filter_True) (auto simp del: upt_Suc)
    ultimately show ?thesis by (simp only: filter_append append_Nil)
  qed
  then have "candidate_graph g (k + m) = sort_key cn_number (g @ map filler_node [k + 1..<k + m + 1])"
    by (simp only: candidate_graph_def candidate_fold [OF distinct_upt])
  also have "\<dots> = g @ map filler_node [k + 1..<k + m + 1]"
  proof (rule sort_key_sorted)
    have "map cn_number (g @ map filler_node [k + 1..<k + m + 1]) = [1..<k + 1] @ [k + 1..<k + m + 1]"
      using contract_numbers [OF assms] by (simp add: filler_node_def comp_def del: upt_Suc)
    then show "sorted (map cn_number (g @ map filler_node [k + 1..<k + m + 1]))" by (simp add: sorted_append del: upt_Suc)
  qed
  finally show ?thesis .
qed

lemma candidate_contract:
  assumes "contract_ok k g"
  shows "contract_ok (k + m) (candidate_graph g (k + m))" and "dep_rel (candidate_graph g (k + m)) = dep_rel g"
proof -
  have eq: "candidate_graph g (k + m) = g @ map filler_node [k + 1..<k + m + 1]" by (rule candidate_graph_eq [OF assms])
  have "map cn_number (candidate_graph g (k + m)) = [1..<k + 1] @ [k + 1..<k + m + 1]"
    using contract_numbers [OF assms] by (simp add: eq filler_node_def comp_def del: upt_Suc)
  then have nums: "map cn_number (candidate_graph g (k + m)) = [1..<k + m + 1]"
    using upt_add_eq_append [of 1 "k + 1" m] by (simp add: add.commute add.left_commute del: upt_Suc)
  show "contract_ok (k + m) (candidate_graph g (k + m))"
  proof -
    have "cn_number n \<notin> set (cn_depends_on n) \<and> set (cn_depends_on n) \<subseteq> cn_number ` set (candidate_graph g (k + m))"
      if "n \<in> set (candidate_graph g (k + m))" for n
    proof (cases "n \<in> set g")
      case True
      with assms have "cn_number n \<notin> set (cn_depends_on n)" "set (cn_depends_on n) \<subseteq> cn_number ` set g" by (auto simp: contract_ok_def)
      then show ?thesis by (auto simp: eq)
    next
      case False
      then show ?thesis using that by (auto simp: eq filler_node_def)
    qed
    with nums show ?thesis by (simp add: contract_ok_def del: upt_Suc)
  qed
  have dist: "distinct (map cn_number (candidate_graph g (k + m)))" "distinct (map cn_number g)"
    using nums contract_numbers [OF assms] by (simp_all del: upt_Suc)
  have rel: "dep_rel h = {(a, b). \<exists>n\<in>set h. cn_number n = a \<and> b \<in> set (cn_depends_on n)}" if "distinct (map cn_number h)" for h
    using find_node_distinct [OF that] find_node_SomeD by (fastforce simp: dep_rel_def)
  show "dep_rel (candidate_graph g (k + m)) = dep_rel g"
    unfolding rel [OF dist(1)] rel [OF dist(2)] by (auto simp: eq filler_node_def simp del: upt_Suc)
qed

lemma list_all2_obtain: "list_all2 R xs ys \<Longrightarrow> y \<in> set ys \<Longrightarrow> \<exists>x\<in>set xs. R x y"
  by (induction rule: list_all2_induct) auto

lemma list_all2_numbers:
  assumes "list_all2 R xs ys" and "\<And>x y. R x y \<Longrightarrow> f x = h y"
  shows "map h ys = map f xs"
  using assms by (induction rule: list_all2_induct) auto

lemma extended_contract:
  assumes g: "contract_ok k g" "acyclic (dep_rel g \<union> set edges)"
    and es: "\<forall>(a, b)\<in>set edges. a \<noteq> b \<and> 1 \<le> a \<and> a \<le> k + length appended \<and> 1 \<le> b \<and> b \<le> k + length appended"
    and g1: "list_all2 (node_extends edges scopes) g g1" and g2: "list_all2 (node_for edges) (numbered_from (k + 1) appended) g2"
  shows "contract_ok (k + length appended) (g1 @ g2) \<and> acyclic (dep_rel (g1 @ g2))"
proof -
  let ?K = "k + length appended"
  have n1: "map cn_number g1 = [1..<k + 1]"
    using list_all2_numbers [OF g1, of cn_number cn_number] contract_numbers [OF g(1)] by (simp add: node_extends_def)
  have "map cn_number g2 = map fst (numbered_from (k + 1) appended)"
    by (rule list_all2_numbers [OF g2]) (simp add: node_for_def)
  then have n2: "map cn_number g2 = [k + 1..<?K + 1]" by (simp add: numbered_from_def del: upt_Suc)
  have nums: "map cn_number (g1 @ g2) = [1..<?K + 1]"
    using n1 n2 upt_add_eq_append [of 1 "k + 1" "length appended"] by (simp add: add.commute add.left_commute del: upt_Suc)
  then have rng: "cn_number ` set (g1 @ g2) = {1..?K}"
    by (metis atLeastLessThanSuc_atLeastAtMost add.commute list.set_map plus_1_eq_Suc set_upt)
  have rngg: "cn_number ` set g = {1..k}" by (intro set_eqI) (simp only: contract_member [OF g(1)] atLeastAtMost_iff)
  have node: "(\<exists>m\<in>set g. cn_number m = cn_number n \<and> d \<in> set (cn_depends_on m)) \<or> (cn_number n, d) \<in> set edges"
    if n: "n \<in> set (g1 @ g2)" "d \<in> set (cn_depends_on n)" for n d
  proof (cases "n \<in> set g1")
    case True
    with list_all2_obtain [OF g1] obtain m where "m \<in> set g" "node_extends edges scopes m n" by blast
    with n(2) show ?thesis by (auto simp: node_extends_def)
  next
    case False
    with n(1) have "n \<in> set g2" by simp
    with list_all2_obtain [OF g2] obtain kc where "node_for edges kc n" by blast
    with n(2) show ?thesis by (auto simp: node_for_def)
  qed
  have "d \<noteq> cn_number n \<and> d \<in> {1..?K}" if "n \<in> set (g1 @ g2)" "d \<in> set (cn_depends_on n)" for n d
  proof (cases "(cn_number n, d) \<in> set edges")
    case True
    with es show ?thesis by auto
  next
    case False
    with node [OF that] obtain m where m: "m \<in> set g" "cn_number m = cn_number n" "d \<in> set (cn_depends_on m)" by blast
    then have "d \<noteq> cn_number m" "d \<in> {1..k}" using g(1) unfolding contract_ok_def rngg by blast+
    with m show ?thesis by auto
  qed
  then have "cn_number n \<notin> set (cn_depends_on n) \<and> set (cn_depends_on n) \<subseteq> cn_number ` set (g1 @ g2)" if "n \<in> set (g1 @ g2)" for n
    unfolding rng using that by blast
  then have "contract_ok ?K (g1 @ g2)" using nums by (simp add: contract_ok_def del: upt_Suc)
  moreover have "dep_rel (g1 @ g2) \<subseteq> dep_rel g \<union> set edges"
  proof (rule subrelI)
    fix a b assume "(a, b) \<in> dep_rel (g1 @ g2)"
    then obtain n where n: "n \<in> set (g1 @ g2)" "cn_number n = a" "b \<in> set (cn_depends_on n)"
      using find_node_SomeD by (fastforce simp: dep_rel_def)
    have "distinct (map cn_number g)" using contract_numbers [OF g(1)] by (simp del: upt_Suc)
    then show "(a, b) \<in> dep_rel g \<union> set edges"
      using node [OF n(1,3)] n(2) find_node_distinct by (fastforce simp: dep_rel_def)
  qed
  then have "acyclic (dep_rel (g1 @ g2))" by (rule acyclic_subset [OF g(2)])
  ultimately show ?thesis by blast
qed

subsection \<open>The amended plan stays a contract\<close>

definition paths_clean :: "PlanAmendment \<Rightarrow> bool" where
  "paths_clean a \<longleftrightarrow> (\<forall>c\<in>set (pa_appended a). \<forall>p\<in>set (nc_write_scope c). normalize_scope p = [] \<or> clean_path (normalize_scope p))
     \<and> (\<forall>e\<in>set (pa_scopes a). \<forall>p\<in>set (snd e). normalize_scope p = [] \<or> clean_path (normalize_scope p))"

lemma accepted_paths_clean: "paths_clean a \<Longrightarrow> scope_paths_ok (accepted body a)"
proof -
  assume cl: "paths_clean a"
  obtain acc rej where p: "plan_appends body (parse_dual_rows body) (pa_appended a) = (acc, rej)" by fastforce
  show ?thesis
    unfolding scope_paths_ok_def
  proof (intro ballI)
    fix c q assume c: "c \<in> set (accepted body a)" and q: "q \<in> set (nc_write_scope c)"
    then obtain w where "w \<in> set (pa_appended a)" "nc_write_scope c = normalized_paths [] (nc_write_scope w)"
      using plan_appends_accepts [OF p] by (auto simp: accepted_def p accepted_from_def)
    with q cl show "clean_path q" by (auto simp: paths_clean_def dest!: normalized_paths_in)
  qed
qed

lemma amended_scopes_clean:
  "paths_clean a \<Longrightarrow> e \<in> set (amended_scopes body a) \<Longrightarrow> p \<in> set (snd e) \<Longrightarrow> clean_path p"
  by (cases e) (fastforce simp: amended_scopes_def paths_clean_def dest!: plan_scopes_in added_paths_in split: option.splits)

lemma amended_graph:
  assumes "on_one_line a" and "paths_clean a" and "parse_criterion_graph body = Some g"
    and "list_all (\<lambda>v. \<not> is_structural v) (validate g (length (parse_dual_rows body)))"
    and "length (parse_dual_rows body) + 3 \<le> u32_max"
  shows "\<exists>g1 g2. parse_criterion_graph (fst (apply_amendment body a)) = Some (g1 @ g2)
     \<and> list_all2 (node_extends (ar_edges (snd (apply_amendment body a))) (ar_scopes (snd (apply_amendment body a)))) g g1
     \<and> list_all2 (node_for (ar_edges (snd (apply_amendment body a))))
         (numbered_from (length (parse_dual_rows body) + 1) (accepted body a)) g2
     \<and> list_all (\<lambda>v. \<not> is_structural v) (validate (g1 @ g2) (length (parse_dual_rows body) + length (accepted body a)))"
proof -
  let ?k = "length (parse_dual_rows body)" and ?acc = "accepted body a"
  let ?es = "amended_edges body a" and ?ss = "amended_scopes body a"
  have g: "contract_ok ?k g" "acyclic (dep_rel g)" using assms(4) validate_structural_free_iff by blast+
  have len: "length ?acc \<le> 3"
    using plan_appends_accepts [of body "parse_dual_rows body" "pa_appended a"] by (cases "plan_appends body (parse_dual_rows body) (pa_appended a)") (auto simp: accepted_def MAX_APPENDED_CRITERIA_def)
  have "?es = fst (edge_loop (candidate_graph g (?k + length ?acc)) (?k + length ?acc) (pa_edges a @ own_edges ?k ?acc))"
    by (simp add: amended_edges_def assms(3) plan_edges_def)
  then obtain rej where "edge_loop (candidate_graph g (?k + length ?acc)) (?k + length ?acc) (pa_edges a @ own_edges ?k ?acc) = (?es, rej)"
    by (metis prod.collapse)
  from edge_loop_ok [OF candidate_contract(1) [OF g(1)] _ this]
  have es: "acyclic (dep_rel g \<union> set ?es)"
      "\<forall>(x, y)\<in>set ?es. x \<noteq> y \<and> 1 \<le> x \<and> x \<le> ?k + length ?acc \<and> 1 \<le> y \<and> y \<le> ?k + length ?acc"
    using g(2) by (auto simp: candidate_contract(2) [OF g(1)])
  have ch: "changes_clean ?es ?ss"
    using es(2) len assms(5) amended_scopes_clean [OF assms(2), of _ body] by (fastforce simp: changes_clean_def)
  have ok: "lines_ok ?acc ?ss" using amendment_lines_ok(1) [OF assms(1)] by (simp add: amended_scopes_def assms(3))
  have "\<exists>g1 g2. parse_criterion_graph (fst (apply_amendment body a)) = Some (g1 @ g2)
      \<and> list_all2 (node_extends ?es ?ss) g g1 \<and> list_all2 (node_for ?es) (numbered_from (?k + 1) ?acc) g2"
  proof (cases "?acc = [] \<and> ?es = [] \<and> ?ss = []")
    case True
    then show ?thesis using assms(3)
      by (intro exI [of _ g] exI [of _ "[]"]) (auto simp: apply_amendment_eq(1) numbered_from_def node_extends_def list_all2_same)
  next
    case False
    then show ?thesis
      using rewrite_graph [OF ok ch accepted_paths_clean [OF assms(2)] assms(3), of ?k] len assms(5)
      by (auto simp: apply_amendment_eq(1))
  qed
  then obtain g1 g2 where r: "parse_criterion_graph (fst (apply_amendment body a)) = Some (g1 @ g2)"
      "list_all2 (node_extends ?es ?ss) g g1" "list_all2 (node_for ?es) (numbered_from (?k + 1) ?acc) g2" by blast
  with extended_contract [OF g(1) es r(2,3)] show ?thesis
    unfolding apply_amendment_eq(2,3) validate_structural_free_iff by blast
qed

text \<open>
  Property C22. An amendment keeps the contract and only tightens it. On a plan whose dependency table is
  structurally valid, the amended plan's table lists every old criterion at its old place with exactly its old
  dependencies and paths plus the accepted ones, then one row for every appended criterion with its accepted
  dependencies and its paths; and the new table is again structurally valid for the grown number of
  criteria, so no accepted edge closes a cycle. The proposed criterion texts must be free of line breaks and bars; the proposed
  paths must be free of line breaks, blanks, bars, commas, semicolons and outer backticks, and not be one of the words a cell
  uses for nothing; and the row numbers must fit 32 bits.
\<close>

theorem amendment_keeps_contract:
  assumes "on_one_line a" and "paths_clean a" and "parse_criterion_graph body = Some g"
    and "list_all (\<lambda>v. \<not> is_structural v) (validate g (length (parse_dual_rows body)))"
    and "length (parse_dual_rows body) + 3 \<le> u32_max"
  shows "\<exists>g1 g2. parse_criterion_graph (fst (apply_amendment body a)) = Some (g1 @ g2)
     \<and> list_all2 (node_extends (ar_edges (snd (apply_amendment body a))) (ar_scopes (snd (apply_amendment body a)))) g g1
     \<and> list_all2 (node_for (ar_edges (snd (apply_amendment body a))))
         (numbered_from (length (parse_dual_rows body) + 1) (accepted body a)) g2
     \<and> list_all (\<lambda>v. \<not> is_structural v) (validate (g1 @ g2) (length (parse_dual_rows body) + length (accepted body a)))"
  by (rule amended_graph [OF assms])

definition contract_plan :: string where
  "contract_plan = unlines [''## Acceptance criteria'', ''1. builds'', ''## Acceptance checklist'', ''| [x] | [x] | builds |'',
     ''## Criterion dependencies'', ''| 1 | - | src |'']"

definition grow_contract :: PlanAmendment where
  "grow_contract = \<lparr>pa_appended = [\<lparr>nc_text = ''tests pass'', nc_write_scope = [''./tests''], nc_depends_on = [1]\<rparr>],
     pa_edges = [(1, 2)], pa_scopes = [(1, [''docs''])]\<rparr>"

lemma contract_plan_graph: "parse_criterion_graph contract_plan = Some [\<lparr>cn_number = 1, cn_depends_on = [], cn_write_scope = [''src'']\<rparr>]"
proof -
  have "section_lines contract_plan GRAPH_SECTION = [''| 1 | - | src |'']" "table_cells ''| 1 | - | src |'' = [''1'', ''-'', ''src'']"
    "\<not> is_separator_row [''1'', ''-'', ''src'']" "parse_list ''-'' = []" "parse_list ''src'' = [''src'']" by code_simp+
  then show ?thesis by (simp add: parse_criterion_graph_def parse_node_def List.map_filter_def small_numbers)
qed

theorem amendment_keeps_contract_witness:
  "\<exists>g. parse_criterion_graph (fst (apply_amendment contract_plan grow_contract)) = Some g
     \<and> list_all (\<lambda>v. \<not> is_structural v) (validate g 2)"
proof -
  have rows: "length (parse_dual_rows contract_plan) = 1" "length (accepted contract_plan grow_contract) = 1" by code_simp+
  have "on_one_line grow_contract" by code_simp
  moreover have "normalize_scope ''./tests'' = ''tests''" "normalize_scope ''docs'' = ''docs''" by code_simp+
  then have "paths_clean grow_contract"
    by (auto simp: paths_clean_def grow_contract_def clean_path_def clean_token_def empty_words_def to_ascii_lowercase_def ascii_lower_def
        plain_def ascii_ws_def wide_ws_def intro!: plain_ws_free)
  moreover have "list_all (\<lambda>v. \<not> is_structural v) (validate [\<lparr>cn_number = 1, cn_depends_on = [], cn_write_scope = [''src'']\<rparr>] (length (parse_dual_rows contract_plan)))"
    unfolding rows by code_simp
  moreover have "length (parse_dual_rows contract_plan) + 3 \<le> u32_max" unfolding rows by (simp add: u32_max_def)
  ultimately show ?thesis
    using amendment_keeps_contract [OF _ _ contract_plan_graph, of grow_contract] unfolding rows by (metis one_add_one)
qed

subsection \<open>Where the text surgery goes wrong\<close>

text \<open>
  The rewriting of dependency rows looks at every table row of the plan, not only at the rows of the
  dependency table: a row of another table with a number in its first cell is rewritten as well, and loses
  its first cell.
\<close>

definition risky_plan :: string where
  "risky_plan = unlines [''## Criterion dependencies'', ''| 1 | - | src |'', ''## Risks'', ''| Step 1 | low | none |'']"

theorem amendment_rewrites_other_tables:
  "''| Step 1 | low | none |'' \<in> set (lines risky_plan)
   \<and> ''| 1 | low | docs |'' \<in> set (rewrite_lines risky_plan 1 [] [] [(1, [''docs''])])"
proof -
  let ?l = "''| Step 1 | low | none |''" and ?d = "last_line_in_section risky_plan GRAPH_SECTION is_dependency_row"
  have ls: "lines risky_plan = [''## Criterion dependencies'', ''| 1 | - | src |'', ''## Risks'', ?l]"
    "section_loop GRAPH_SECTION None (lines risky_plan) = [''| 1 | - | src |'']" by code_simp+
  have "table_cells ''| 1 | - | src |'' = [''1'', ''-'', ''src'']" "\<not> is_separator_row [''1'', ''-'', ''src'']" by code_simp+
  then have "List.map_filter parse_node (section_loop GRAPH_SECTION None (lines risky_plan)) \<noteq> []"
    by (simp add: ls(2) parse_node_def List.map_filter_def small_numbers)
  then have d: "?d \<noteq> None" using table.items_nonempty_last by (simp add: last_line_in_section_def)
  have cells: "table_cells ?l = [''Step 1'', ''low'', ''none'']" "\<not> is_separator_row [''Step 1'', ''low'', ''none'']"
    "append_cell ''low'' [] = ''low''" "append_cell ''none'' [''docs''] = ''docs''" "indent_of ?l = []" "show_nat 1 = ''1''" by code_simp+
  have num: "parse_number ''Step 1'' = Some 1"
  proof -
    have "takeWhile is_ascii_digit (dropWhile (\<lambda>c. \<not> is_ascii_digit c) (trim ''Step 1'')) = ''1''"
      "takeWhile is_ascii_digit (dropWhile (\<lambda>c. \<not> is_ascii_digit c) (trim ''1'')) = ''1''" by code_simp+
    then show ?thesis using small_numbers(1) by (simp only: parse_number_def Let_def)
  qed
  have "copied_line ?d [] [(1, [''docs''])] ?l = ''| 1 | low | docs |''"
    using d cells num by (simp add: copied_line_def is_dependency_row_def rewrite_dependency_row_def cell_or_dash_def Let_def)
  moreover have "copied_line ?d [] [(1, [''docs''])] ?l \<in> set (rewrite_lines risky_plan 1 [] [] [(1, [''docs''])])"
    unfolding rewrite_lines_splice ls(1) by simp
  ultimately show ?thesis by (simp add: ls(1))
qed

text \<open>
  On a plan without a criteria section and a checklist the report says that a criterion was appended, and
  nothing is written.
\<close>

theorem append_reported_not_written:
  "fst (apply_amendment ''# Plan'' append_tests) = ''# Plan''
   \<and> ar_appended (snd (apply_amendment ''# Plan'' append_tests)) = [1, 2]"
  by code_simp

text \<open>
  With a second checklist heading the reader of the checklist goes on and the editor does not: the new row
  is inserted before the rows of the second section, whose numbers shift.
\<close>

definition two_checklists :: string where
  "two_checklists = unlines [''## Acceptance criteria'', ''1. builds'', ''2. runs'', ''## Acceptance checklist'', ''| [x] | [x] | builds |'',
     ''## Acceptance checklist'', ''| [x] | [x] | runs |'']"

theorem second_checklist_renumbered:
  "map dr_criterion (parse_dual_rows two_checklists) = [''builds'', ''runs'']
   \<and> map dr_criterion (parse_dual_rows (fst (apply_amendment two_checklists append_tests))) = [''builds'', ''tests pass'', ''runs'']"
  by code_simp

text \<open>
  The texts of appended criteria are written as they come. A line break in one of them writes further lines
  into the plan: here a checklist heading with a row that has both marks set, which is then read as the
  first criterion.
\<close>

definition open_plan :: string where
  "open_plan = unlines [''## Acceptance criteria'', ''1. builds'', ''## Acceptance checklist'', ''| [ ] | [ ] | builds |'']"

definition forging :: PlanAmendment where
  "forging = \<lparr>pa_appended = [\<lparr>nc_text = ''x'' @ [NL] @ ''## Acceptance checklist'' @ [NL] @ ''| [x] | [x] | y |'',
     nc_write_scope = [], nc_depends_on = []\<rparr>], pa_edges = [], pa_scopes = []\<rparr>"

theorem line_break_forges_marks:
  "parse_dual_rows open_plan = [open_row ''builds'']
   \<and> parse_dual_rows (fst (apply_amendment open_plan forging))
       = [\<lparr>dr_exec = True, dr_audit = True, dr_criterion = ''y''\<rparr>, open_row ''builds'', open_row ''x'']"
  by code_simp

end
