(* ===== verification/Wave_Correct.thy ===== *)
theory Wave_Correct
  imports Wave_Round Amend_Graph
begin

text \<open>
  What a wave and the amendment writer do to the plan: the Exec marks a wave sets are those of the merges
  that landed, two criteria that wrote the same file are not scheduled together again, and the
  amendment writer moves the finish line by a bounded amount over the life of a goal.
\<close>

subsection \<open>Setting marks leaves the dependency table alone\<close>

lemma mark_row_not_header: "is_mark_row (table_cells l) \<Longrightarrow> \<not> is_any_header l \<and> \<not> is_section_header l name"
proof -
  assume m: "is_mark_row (table_cells l)"
  then have "table_cells l \<noteq> []" by (auto simp: is_mark_row_def Let_def)
  then obtain s where s: "trim l = CHR ''|'' # s" using cells_begin_with_bar by blast
  then have "header_level l = 0" using trim_bar_level by blast
  then show ?thesis using s by (simp add: is_any_header_level section_header_is_header level_zero_no_header)
qed

lemma section_loop_marks:
  assumes "list_all2 (\<lambda>l l'. l' = l \<or> is_mark_row (table_cells l) \<and> l' = rewritten_row column checked (table_cells l)) ls ls'"
    and "\<And>l. is_mark_row (table_cells l) \<Longrightarrow> item l = None \<and> item (rewritten_row column checked (table_cells l)) = None"
  shows "List.map_filter item (section_loop name level ls') = List.map_filter item (section_loop name level ls)"
  using assms(1)
proof (induction ls ls' arbitrary: level rule: list_all2_induct)
  case (Cons l ls l' ls')
  show ?case
  proof (cases "l' = l")
    case True
    with Cons.IH show ?thesis by (cases level) (simp_all add: map_filter_simps split: option.split)
  next
    case False
    with Cons.hyps have m: "is_mark_row (table_cells l)" and l': "l' = rewritten_row column checked (table_cells l)" by auto
    then show ?thesis
      using Cons.IH mark_row_not_header [OF m] assms(2) [OF m] by (cases level) (simp_all add: map_filter_simps)
  qed
qed simp

lemma mark_cell_no_node: "parse_mark (table_cells l ! 0) \<noteq> None \<Longrightarrow> parse_node l = None"
proof -
  assume "parse_mark (table_cells l ! 0) \<noteq> None"
  then have "trim (table_cells l ! 0) \<in> {''[x]'', ''[X]'', ''[ ]''}" by (auto simp: parse_mark_def Let_def split: if_splits)
  then have "\<forall>x\<in>set (trim (table_cells l ! 0)). \<not> is_ascii_digit x" by (auto simp: is_ascii_digit_def)
  then have "parse_number (trim (table_cells l ! 0)) = None" by (rule parse_number_no_digit)
  then have "\<not> is_dependency_row l" by (simp add: is_dependency_row_def Let_def parse_number_def)
  then show ?thesis using parse_node_dependency by blast
qed

lemma mark_rows_no_node:
  assumes "is_mark_row (table_cells l)"
  shows "parse_node l = None \<and> parse_node (rewritten_row column checked (table_cells l)) = None"
  using assms by (intro conjI mark_cell_no_node)
    (auto simp: rewritten_row_cells [OF assms] is_mark_row_def split: Column.split)

lemma marks_keep_graph: "parse_criterion_graph (rewrite_marks_where body column checked sel) = parse_criterion_graph body"
proof -
  let ?L = "rewrite_loop column checked sel False 0 0 (lines body)"
  have "List.map_filter parse_node (section_loop GRAPH_SECTION None (lines (rewrite_marks_where body column checked sel)))
      = List.map_filter parse_node (section_loop GRAPH_SECTION None ?L)"
    using section_items_map_trim [OF parse_node_trim lines_rewrite] .
  also have "\<dots> = List.map_filter parse_node (section_loop GRAPH_SECTION None (lines body))"
    by (rule section_loop_marks [OF rewrite_loop_lines]) (rule mark_rows_no_node)
  finally show ?thesis by (simp add: parse_criterion_graph_def section_lines_def)
qed

lemma marks_keep_sections: "one_section name (lines (rewrite_marks_where body column checked sel)) = one_section name (lines body)"
proof -
  have "filter (\<lambda>l. is_section_header l name) ls' = filter (\<lambda>l. is_section_header l name) ls"
    if "list_all2 (\<lambda>l l'. l' = l \<or> is_mark_row (table_cells l) \<and> l' = rewritten_row column checked (table_cells l)) ls ls'" for ls ls'
    using that by (induction rule: list_all2_induct) (auto dest: mark_row_not_header)
  from this [OF rewrite_loop_lines] show ?thesis
    unfolding one_section_map_trim [OF lines_rewrite] by (simp add: one_section_def)
qed

subsection \<open>The Exec marks of a wave\<close>

lemma settle_criteria: "map merge_criterion (fst (settle_wave h workers w)) = map wo_criterion (sort_key wo_criterion workers)"
  by (simp add: settle_wave_def Let_def case_prod_unfold merge_wave_def merge_loop_criteria)

lemma on_plan_simps [simp]:
  "wv_events (snd (on_plan h f w)) = wv_events w" "wv_repo (snd (on_plan h f w)) = wv_repo w"
  "ss_plan (wv_session (snd (on_plan h f w))) = pf_body (snd (f \<lparr>pf_body = ss_plan (wv_session w), pf_writable = wh_plan_writable h\<rparr>))"
  "fst (on_plan h f w) = fst (f \<lparr>pf_body = ss_plan (wv_session w), pf_writable = wh_plan_writable h\<rparr>)"
  "ss_tracker (wv_session (snd (on_plan h f w))) = ss_tracker (wv_session w)"
  by (simp_all add: on_plan_def Let_def case_prod_unfold on_session_def)

lemma emit_simps [simp]:
  "wv_events (emit e w) = wv_events w @ [e]" "wv_session (emit e w) = wv_session w" "wv_repo (emit e w) = wv_repo w"
  "wv_proposal (emit e w) = wv_proposal w"
  by (simp_all add: emit_def)

lemma amended_session: "wv_session (emit_plan_amended r w) = wv_session w"
  by (simp add: emit_plan_amended_def)

text \<open>The plan after the observed writes were recorded.\<close>

definition with_observed_writes :: "MergeOutcome list \<Rightarrow> string \<Rightarrow> string" where
  "with_observed_writes merges body = fst (apply_amendment body (amendment_from_observed_writes (observed_writes merges)))"

lemma empty_amendment: "amendment_is_empty a \<Longrightarrow> fst (apply_amendment body a) = body"
  by (auto simp: amendment_is_empty_def apply_amendment_eq accepted_def amended_edges_def amended_scopes_def plan_appends_def
      plan_edges_def own_edges_def numbered_from_def split: option.split)

lemma record_observed_plan:
  assumes "ss_plan (wv_session w) = Some body" and "wh_plan_writable h"
  shows "ss_plan (wv_session (record_observed_writes h merges w)) = Some (with_observed_writes merges body)"
proof (cases "amendment_is_empty (amendment_from_observed_writes (observed_writes merges))")
  case True
  then show ?thesis using assms empty_amendment by (simp add: record_observed_writes_def with_observed_writes_def)
next
  case False
  let ?a = "amendment_from_observed_writes (observed_writes merges)"
  obtain r v where rv: "on_plan h (amend_plan_on_disk ?a) w = (r, v)" by fastforce
  have "ss_plan (wv_session (snd (on_plan h (amend_plan_on_disk ?a) w))) = Some (fst (apply_amendment body ?a))"
    using assms by (simp add: amend_plan_on_disk_def case_prod_unfold Let_def)
  then have "ss_plan (wv_session v) = Some (with_observed_writes merges body)" by (simp add: rv with_observed_writes_def)
  then show ?thesis using False rv by (cases r) (simp_all add: record_observed_writes_def Let_def amended_session)
qed

text \<open>The paths the merges report lie on one line each.\<close>

definition one_line_paths :: "MergeOutcome list \<Rightarrow> bool" where
  "one_line_paths merges = list_all (\<lambda>m. list_all (\<lambda>p. NL \<notin> set p) (written_paths m)) merges"

lemma observed_one_line: "one_line_paths merges \<Longrightarrow> on_one_line (amendment_from_observed_writes (observed_writes merges))"
proof -
  assume o: "one_line_paths merges"
  have "NL \<notin> set p" if "q \<in> set merges" "p \<in> set (normalized_paths [] (written_paths q))" for p q
  proof -
    from that(2) obtain r where "r \<in> set (written_paths q)" "p = normalize_scope r"
      using normalized_paths_in [of p "[]" "written_paths q"] by auto
    then show ?thesis using o that(1) NL_normalize by (auto simp: one_line_paths_def list_all_iff)
  qed
  then show ?thesis by (auto simp: on_one_line_def amendment_from_observed_writes_def observed_writes_def)
qed

lemma observed_accepts_nothing: "accepted body (amendment_from_observed_writes obs) = []"
  by (simp add: accepted_def amendment_from_observed_writes_def plan_appends_def)

lemma observed_writes_keep_rows:
  assumes "one_line_paths merges" and "one_section SECTION (lines body)"
  shows "parse_dual_rows (with_observed_writes merges body) = parse_dual_rows body"
proof -
  let ?a = "amendment_from_observed_writes (observed_writes merges)"
  have "lines_ok [] (amended_scopes body ?a)"
    using amendment_lines_ok [OF observed_one_line [OF assms(1)], of body] observed_accepts_nothing [of body "observed_writes merges"]
    by (auto simp: amended_scopes_def split: option.split)
  from rewrite_rows [OF this assms(2)] show ?thesis
    by (simp add: with_observed_writes_def apply_amendment_eq observed_accepts_nothing)
qed

lemma set_exec_plan:
  assumes "ss_plan (wv_session w) = Some body" and "wh_plan_writable h"
  shows "ss_plan (wv_session (snd (on_plan h (set_exec_marks_for_criteria ns True) w)))
    = Some (if ns = [] then body else rewrite_marks_where body Exec True (\<lambda>n. n \<in> set ns))"
proof -
  have "List.member ns = (\<lambda>n. n \<in> set ns)" by auto
  then show ?thesis using assms by (simp add: set_exec_marks_for_criteria_def rewrite_plan_def update_plan_def Let_def)
qed

text \<open>The plan a settled wave leaves behind.\<close>

definition settled_plan :: "MergeOutcome list \<Rightarrow> string \<Rightarrow> string" where
  "settled_plan merges body =
     with_observed_writes merges
       (let ns = map merge_criterion (filter landed merges)
        in if ns = [] then body else rewrite_marks_where body Exec True (\<lambda>n. n \<in> set ns))"

definition tick_landed :: "'r wave_host \<Rightarrow> MergeOutcome list \<Rightarrow> 'r \<Rightarrow> 'r wave_state \<Rightarrow> 'r wave_state" where
  "tick_landed h merges repo w =
     (let ns = map merge_criterion (filter landed merges); w = w\<lparr>wv_repo := repo\<rparr>
      in if ns \<noteq> [] then snd (on_plan h (set_exec_marks_for_criteria ns True) w) else w)"

lemma settle_wave_eq:
  "settle_wave h workers w = (merges, w') \<Longrightarrow> \<exists>repo. w' = record_observed_writes h merges (tick_landed h merges repo w)"
  by (auto simp: settle_wave_def tick_landed_def Let_def split: prod.splits)

lemma settle_plan:
  assumes "settle_wave h workers w = (merges, w')" and "ss_plan (wv_session w) = Some body" and "wh_plan_writable h"
  shows "ss_plan (wv_session w') = Some (settled_plan merges body)"
proof -
  let ?ns = "map merge_criterion (filter landed merges)"
  obtain repo where w': "w' = record_observed_writes h merges (tick_landed h merges repo w)" using settle_wave_eq [OF assms(1)] by blast
  have "ss_plan (wv_session (tick_landed h merges repo w)) = Some (if ?ns = [] then body else rewrite_marks_where body Exec True (\<lambda>n. n \<in> set ?ns))"
    using set_exec_plan [of "w\<lparr>wv_repo := repo\<rparr>" body h ?ns] assms(2,3) by (simp add: tick_landed_def Let_def)
  from record_observed_plan [OF this assms(3), of merges] show ?thesis by (simp add: w' settled_plan_def Let_def)
qed

lemma settled_rows:
  assumes "one_line_paths merges" and "one_section SECTION (lines body)" and "no_blank_rows body"
  shows "parse_dual_rows (settled_plan merges body)
    = mark_rows Exec True (\<lambda>n. n \<in> merge_criterion ` set (filter landed merges)) 1 (parse_dual_rows body)"
proof -
  have no: "mark_rows Exec True (\<lambda>n. False) k rows = rows" for k rows by (induction rows arbitrary: k) auto
  have sec: "one_section SECTION (lines (rewrite_marks_where body Exec True sel))" for sel
    using assms(2) by (simp add: marks_keep_sections)
  show ?thesis
  proof (cases "filter landed merges = []")
    case True
    then show ?thesis
      using observed_writes_keep_rows [OF assms(1,2)] no by (simp add: settled_plan_def del: set_filter)
  next
    case False
    then show ?thesis
      using rewrite_marks_rows [OF assms(3)] observed_writes_keep_rows [OF assms(1) sec] by (simp add: settled_plan_def Let_def)
  qed
qed

definition wave_workers :: "'r wave_host \<Rightarrow> (SubagentRequest \<Rightarrow> spawn_reply) \<Rightarrow> string \<Rightarrow> CriterionView list \<Rightarrow> WorkerOutcome list" where
  "wave_workers h coordinator objective wave = run_wave coordinator (wave_spawner h) (wh_new_id h) objective wave"

definition wave_merges :: "'r wave_host \<Rightarrow> WorkerOutcome list \<Rightarrow> 'r \<Rightarrow> MergeOutcome list" where
  "wave_merges h workers repo = fst (merge_wave (wh_apply_worktree h) (wh_session_id h) workers repo)"

definition reports_one_line :: "'r apply_worktree \<Rightarrow> bool" where
  "reports_one_line apply_worktree \<longleftrightarrow>
     (\<forall>request repo files root. fst (apply_worktree request repo) = Inr (Success files root)
        \<longrightarrow> (\<forall>f\<in>set files. NL \<notin> set (gf_path f)))
   \<and> (\<forall>request repo files conflicts. fst (apply_worktree request repo) = Inr (Conflicts files conflicts)
        \<longrightarrow> (\<forall>c\<in>set conflicts. NL \<notin> set (fc_path c)))"

lemma merge_loop_one_line: "reports_one_line aw \<Longrightarrow> one_line_paths (fst (merge_loop aw sid ws repo))"
proof (induction ws arbitrary: repo)
  case (Cons w ws)
  have "list_all (\<lambda>p. NL \<notin> set p) (written_paths (fst (merge_worker aw sid w repo)))"
  proof (cases "wo_error w = None \<and> wo_worktree w \<noteq> None")
    case True
    then obtain wt where wt: "wo_error w = None" "wo_worktree w = Some wt" by auto
    let ?q = "\<lparr>aw_session_id = sid, aw_worktree_path = wt, aw_mode = Merge\<rparr>"
    obtain r repo' where aw: "aw ?q repo = (r, repo')" by fastforce
    have r: "fst (aw ?q repo) = r" by (simp add: aw)
    show ?thesis
    proof (cases r)
      case (Inr a)
      have "list_all (\<lambda>p. NL \<notin> set p) (case a of Success fs _ \<Rightarrow> map gf_path fs | Conflicts _ cs \<Rightarrow> map fc_path cs)"
        using Cons.prems r Inr unfolding reports_one_line_def list_all_iff
        by (cases a) (fastforce, fastforce)
      then show ?thesis using wt aw Inr by (cases a) (simp_all add: merge_worker_def Let_def)
    qed (simp add: merge_worker_def wt aw)
  qed (auto simp: merge_worker_def Let_def split: option.split)
  with Cons show ?case by (simp add: one_line_paths_def case_prod_unfold Let_def)
qed (simp add: one_line_paths_def)

lemma wave_merges_one_line: "reports_one_line (wh_apply_worktree h) \<Longrightarrow> one_line_paths (wave_merges h workers repo)"
  by (simp add: wave_merges_def merge_wave_def merge_loop_one_line)

lemma wave_run:
  assumes "plan_wave criteria (wh_fanout_max h) (wh_repo_available h) (wh_worktrees_disposed h) = Inr wave"
    and "wh_coordinator h = Some coordinator"
  shows "\<exists>w0 w1 e. maybe_run_criterion_wave h objective criteria w
      = (Some (render_wave_report (wave_workers h coordinator objective wave)
          (wave_merges h (wave_workers h coordinator objective wave) (wv_repo w))), emit e w1)
    \<and> settle_wave h (wave_workers h coordinator objective wave) w0
        = (wave_merges h (wave_workers h coordinator objective wave) (wv_repo w), w1)
    \<and> wv_session w0 = wh_meanwhile h (wv_session w)"
proof -
  let ?ws = "wave_workers h coordinator objective wave"
  let ?w0 = "on_session (wh_meanwhile h) (emit (GoalFanoutStarted (map cv_number wave)) w)"
  obtain ms w1 where st: "settle_wave h ?ws ?w0 = (ms, w1)" by fastforce
  then have "ms = wave_merges h ?ws (wv_repo w)"
    by (auto simp: settle_wave_def wave_merges_def on_session_def Let_def case_prod_unfold)
  moreover have "\<not> wh_fanout_max h \<le> 1" using assms(1) by (simp add: plan_wave_Inr_iff)
  ultimately have "maybe_run_criterion_wave h objective criteria w = (Some (render_wave_report ?ws (wave_merges h ?ws (wv_repo w))),
      emit (GoalFanoutFinished (map cv_number wave) (map merge_criterion (filter landed ms)) (wh_latency h)) w1)"
    using st assms by (simp add: maybe_run_criterion_wave_def wave_workers_def Let_def)
  moreover have "wv_session ?w0 = wh_meanwhile h (wv_session w)" by (simp add: on_session_def)
  ultimately show ?thesis using st \<open>ms = _\<close> by blast
qed

text \<open>
  Property C23. A wave ticks exactly what it merged. When a wave is planned and a coordinator is there,
  the wave runs, every criterion of the wave is merged or skipped once, and the checklist of the plan
  afterwards is the one before with the Exec mark set on exactly the criteria whose merge landed: no
  worker marks its own work, a conflicting or failed one stays open, and no Audit mark changes. The
  plan must be writable, with one checklist section and no blank rows, and git must report paths
  without line breaks.
\<close>

theorem wave_ticks_landed:
  assumes "plan_wave criteria (wh_fanout_max h) (wh_repo_available h) (wh_worktrees_disposed h) = Inr wave"
    and "wh_coordinator h = Some coordinator"
    and "ss_plan (wh_meanwhile h (wv_session w)) = Some body" and "wh_plan_writable h"
    and "no_blank_rows body" and "one_section SECTION (lines body)" and "reports_one_line (wh_apply_worktree h)"
  shows "\<exists>w' merges plan. maybe_run_criterion_wave h objective criteria w
        = (Some (render_wave_report (wave_workers h coordinator objective wave) merges), w')
     \<and> merges = wave_merges h (wave_workers h coordinator objective wave) (wv_repo w)
     \<and> mset (map merge_criterion merges) = mset (map cv_number wave)
     \<and> ss_plan (wv_session w') = Some plan
     \<and> parse_dual_rows plan = mark_rows Exec True (\<lambda>n. n \<in> merge_criterion ` set (filter landed merges)) 1 (parse_dual_rows body)"
proof -
  let ?ws = "wave_workers h coordinator objective wave"
  let ?ms = "wave_merges h ?ws (wv_repo w)"
  from wave_run [OF assms(1,2), of objective w] obtain w0 w1 e where
    run: "maybe_run_criterion_wave h objective criteria w = (Some (render_wave_report ?ws ?ms), emit e w1)"
    and st: "settle_wave h ?ws w0 = (?ms, w1)" and w0: "wv_session w0 = wh_meanwhile h (wv_session w)" by blast
  have "ss_plan (wv_session (emit e w1)) = Some (settled_plan ?ms body)"
    using settle_plan [OF st] assms(3,4) w0 by simp
  moreover have "mset (map merge_criterion ?ms) = mset (map cv_number wave)"
  proof -
    have "map merge_criterion ?ms = map wo_criterion (sort_key wo_criterion ?ws)" using settle_criteria [of h ?ws w0] st by simp
    then have "mset (map merge_criterion ?ms) = mset (map wo_criterion ?ws)" by (metis mset_map mset_sort)
    then show ?thesis by (simp add: wave_workers_def run_wave_criteria del: mset_map)
  qed
  ultimately show ?thesis
    using run settled_rows [OF wave_merges_one_line [OF assms(7)] assms(6,5)] by blast
qed

definition wave_session :: "string \<Rightarrow> Session" where
  "wave_session body = \<lparr>ss_tracker = running_goal, ss_token_records = [], ss_harness_enabled = True, ss_posture = True,
     ss_goal_loop_active = True, ss_plan = Some body, ss_plan_mtime = None, ss_total_tokens = 0, ss_conversation = [],
     ss_pending_completions = [], ss_ui = [], ss_output = []\<rparr>"

definition wave_world :: "string \<Rightarrow> nat wave_state" where
  "wave_world body = \<lparr>wv_session = wave_session body, wv_repo = 0, wv_proposal = None, wv_events = []\<rparr>"

text \<open>The first worker to be merged lands; every later one conflicts with it in the same file.\<close>

definition same_file :: "nat apply_worktree" where
  "same_file req repo =
     (if repo = 0
      then (Inr (Success [\<lparr>gf_path = ''src/lib.rs'', gf_old_path = None, gf_change_type = Edit, gf_staged = None, gf_additions = 1,
              gf_deletions = 0, gf_patch = None, gf_patch_bytes = None, gf_patch_lines = None, gf_old_text = None,
              gf_new_text = None\<rparr>] ''/repo''), 1)
      else (Inr (Conflicts [] [\<lparr>fc_path = ''src/lib.rs'', fc_change_type = Edit, fc_base = None, fc_ours = None, fc_theirs = None\<rparr>]), repo))"

definition worker_done :: "SubagentRequest \<Rightarrow> spawn_reply" where
  "worker_done req = Replied \<lparr>rs_success = True, rs_output = ''done'', rs_error = None, rs_cancelled = False,
     rs_subagent_id = ''a'', rs_child_session_id = ''c'', rs_tool_calls = 1, rs_turns = 1, rs_duration_ms = 1, rs_tokens_used = 1,
     rs_worktree_path = Some ''/wt'', rs_backgrounded = False\<rparr>"

definition wave_host_sample :: "nat wave_host" where
  "wave_host_sample = \<lparr>wh_env = sample_env 9, wh_fanout_max = 3, wh_worktrees_disposed = False, wh_repo_available = True,
     wh_coordinator = Some worker_done, wh_session_id = ''s'', wh_prompt_id = None, wh_cwd = ''/repo'', wh_new_id = show_nat,
     wh_apply_worktree = same_file, wh_meanwhile = (\<lambda>s. s), wh_plan_path = ''/p'', wh_plan_exists = True, wh_plan_writable = True,
     wh_mtime = (\<lambda>_. None), wh_latency = 0, wh_proposal_removed = True, wh_spawn_amender = (\<lambda>_ _. (Some ''Done'', Some ''x'')),
     wh_amender_template = [], wh_role_tools = (\<lambda>s. s),
     wh_proposal_from_str = (\<lambda>_. Some [\<lparr>pc_text = ''add tests'', pc_write_scope = [], pc_depends_on = []\<rparr>])\<rparr>"

definition ready_row :: "nat \<Rightarrow> string \<Rightarrow> CriterionView" where
  "ready_row n t = \<lparr>cv_number = n, cv_text = t, cv_exec = False, cv_audit = False, cv_depends_on = [], cv_write_scope = [t],
     cv_wave = None, cv_deferred = False\<rparr>"

definition checklist_only :: string where
  "checklist_only = unlines [''## Acceptance checklist'', ''| [ ] | [ ] | left |'', ''| [ ] | [ ] | right |'']"

theorem wave_ticks_landed_witness:
  "\<exists>plan. ss_plan (wv_session (snd (maybe_run_criterion_wave wave_host_sample ''goal'' [ready_row 1 ''left'', ready_row 2 ''right'']
        (wave_world checklist_only)))) = Some plan
     \<and> map dr_exec (parse_dual_rows plan) = [True, False]"
proof -
  let ?h = wave_host_sample and ?cs = "[ready_row 1 ''left'', ready_row 2 ''right'']" and ?w = "wave_world checklist_only"
  let ?ms = "wave_merges ?h (wave_workers ?h worker_done ''goal'' ?cs) (wv_repo ?w)"
  have "reports_one_line same_file" by (auto simp: reports_one_line_def same_file_def)
  moreover have "plan_wave ?cs 3 True False = Inr ?cs" "no_blank_rows checklist_only" "one_section SECTION (lines checklist_only)"
    by code_simp+
  ultimately obtain w' plan where w': "maybe_run_criterion_wave ?h ''goal'' ?cs ?w
      = (Some (render_wave_report (wave_workers ?h worker_done ''goal'' ?cs) ?ms), w')"
      "ss_plan (wv_session w') = Some plan"
      "parse_dual_rows plan = mark_rows Exec True (\<lambda>n. n \<in> merge_criterion ` set (filter landed ?ms)) 1 (parse_dual_rows checklist_only)"
    using wave_ticks_landed [of ?cs ?h ?cs worker_done ?w checklist_only "''goal''"]
    by (auto simp: wave_host_sample_def wave_world_def wave_session_def)
  have "parse_dual_rows checklist_only = [mk_row ''left'' False, mk_row ''right'' False]" by code_simp
  moreover have "?ms = [Landed 1 [''src/lib.rs''], Conflicted 2 [''src/lib.rs'']]" by code_simp
  ultimately have "map dr_exec (parse_dual_rows plan) = [True, False]" using w'(3) by (simp add: mk_row_def)
  with w' show ?thesis by simp
qed

subsection \<open>The amendment writer over the life of a goal\<close>

text \<open>
  Any sequence of the two handlers. \<open>amender_runs\<close> is the persisted counter of the goal; without a goal no
  run can be claimed.
\<close>

datatype 'r handler = Wave "'r wave_host" string "CriterionView list" | Amend "'r wave_host" "ClassifierFinding list"

fun handle :: "'r handler \<Rightarrow> 'r wave_state \<Rightarrow> 'r wave_state" where
  "handle (Wave h objective criteria) w = snd (maybe_run_criterion_wave h objective criteria w)"
| "handle (Amend h findings) w = amend_plan_for_unattributed_findings h findings w"

definition amender_runs :: "Session \<Rightarrow> nat" where
  "amender_runs s = (case gt_orchestration (ss_tracker s) of Some g \<Rightarrow> go_amender_runs g | None \<Rightarrow> GOAL_AMENDER_MAX_RUNS)"

fun step_host :: "'r handler \<Rightarrow> 'r wave_host" where
  "step_host (Wave h _ _) = h"
| "step_host (Amend h _) = h"

definition keeps_runs :: "'r handler \<Rightarrow> bool" where
  "keeps_runs st \<longleftrightarrow> (\<forall>s. amender_runs s \<le> amender_runs (wh_meanwhile (step_host st) s))"

fun spawns :: "goal_event \<Rightarrow> bool" where
  "spawns (GoalPlanAmenderRan _ _ _ _) = True"
| "spawns _ = False"

fun appended_by :: "goal_event \<Rightarrow> nat" where
  "appended_by (GoalPlanAmended ns _ _ _) = length ns"
| "appended_by _ = 0"

text \<open>What a handler may do with a budget of \<open>n\<close> runs.\<close>

definition within_budget :: "nat \<Rightarrow> 'r wave_state \<Rightarrow> 'r wave_state \<Rightarrow> bool" where
  "within_budget n w w' \<longleftrightarrow> (\<exists>es. wv_events w' = wv_events w @ es
     \<and> length (filter spawns es) \<le> n \<and> sum_list (map appended_by es) \<le> 3 * n
     \<and> amender_runs (wv_session w) + n \<le> amender_runs (wv_session w'))"

lemma within_budget_refl: "within_budget 0 w w"
  by (simp add: within_budget_def)

lemma within_budget_trans: "within_budget n w w' \<Longrightarrow> within_budget m w' w'' \<Longrightarrow> within_budget (n + m) w w''"
proof -
  assume "within_budget n w w'" "within_budget m w' w''"
  then obtain es es' where "wv_events w' = wv_events w @ es" "wv_events w'' = (wv_events w @ es) @ es'"
      "length (filter spawns es) \<le> n" "length (filter spawns es') \<le> m" "sum_list (map appended_by es) \<le> 3 * n"
      "sum_list (map appended_by es') \<le> 3 * m" "amender_runs (wv_session w) + n \<le> amender_runs (wv_session w')"
      "amender_runs (wv_session w') + m \<le> amender_runs (wv_session w'')"
    unfolding within_budget_def by auto
  then show ?thesis unfolding within_budget_def by (intro exI [of _ "es @ es'"]) auto
qed

lemma quiet_step:
  assumes "wv_events w' = wv_events w @ es" and "\<forall>e\<in>set es. \<not> spawns e \<and> appended_by e = 0"
    and "amender_runs (wv_session w) \<le> amender_runs (wv_session w')"
  shows "within_budget 0 w w'"
proof -
  have "sum_list (map appended_by es) = 0" using assms(2) by (induction es) auto
  then show ?thesis using assms unfolding within_budget_def by (intro exI [of _ es]) (auto simp: filter_empty_conv)
qed

lemma appended_le: "length (ar_appended (snd (apply_amendment body a))) = length (accepted body a)" "length (accepted body a) \<le> 3"
proof -
  show "length (ar_appended (snd (apply_amendment body a))) = length (accepted body a)"
    by (simp add: apply_amendment_def accepted_def Let_def case_prod_unfold del: upt_Suc split: option.split)
  show "length (accepted body a) \<le> 3"
    using plan_appends_accepts [of body "parse_dual_rows body" "pa_appended a"]
    by (cases "plan_appends body (parse_dual_rows body) (pa_appended a)") (auto simp: accepted_def MAX_APPENDED_CRITERIA_def)
qed

lemma on_plan_report: "fst (on_plan h (amend_plan_on_disk a) w) = Inr r \<Longrightarrow> \<exists>body. r = snd (apply_amendment body a)"
  by (auto simp: amend_plan_on_disk_def Let_def case_prod_unfold split: option.splits if_splits)

lemma amended_events: "\<exists>es. wv_events (emit_plan_amended r w) = wv_events w @ es \<and> (\<forall>e\<in>set es. \<not> spawns e)
    \<and> sum_list (map appended_by es) \<le> length (ar_appended r)"
  by (cases "report_changed r") (auto simp: emit_plan_amended_def)

lemma runs_cong: "ss_tracker s = ss_tracker s' \<Longrightarrow> amender_runs s = amender_runs s'"
  by (simp add: amender_runs_def)

lemma observed_quiet: "within_budget 0 w (record_observed_writes h merges w)"
proof (cases "amendment_is_empty (amendment_from_observed_writes (observed_writes merges))")
  case True
  then show ?thesis by (simp add: record_observed_writes_def within_budget_refl)
next
  case False
  let ?a = "amendment_from_observed_writes (observed_writes merges)"
  obtain r v where rv: "on_plan h (amend_plan_on_disk ?a) w = (r, v)" by fastforce
  have v: "wv_events v = wv_events w" "amender_runs (wv_session v) = amender_runs (wv_session w)"
    using on_plan_simps(1,5) [of h "amend_plan_on_disk ?a" w] rv by (auto intro: runs_cong)
  show ?thesis
  proof (cases r)
    case (Inl e)
    then show ?thesis using False rv v quiet_step [of v w "[]"] by (simp add: record_observed_writes_def)
  next
    case (Inr report)
    then obtain body where "report = snd (apply_amendment body ?a)" using on_plan_report [of h ?a w] rv by auto
    then have "ar_appended report = []" using appended_le(1) [of body ?a] observed_accepts_nothing by simp
    moreover obtain es where es: "wv_events (emit_plan_amended report v) = wv_events v @ es" "\<forall>e\<in>set es. \<not> spawns e"
        "sum_list (map appended_by es) \<le> length (ar_appended report)" using amended_events [of report v] by blast
    ultimately have "\<forall>e\<in>set es. \<not> spawns e \<and> appended_by e = 0" by (auto simp: sum_list_eq_0_iff)
    then show ?thesis
      using False rv v Inr es(1) quiet_step [of "emit_plan_amended report v" w es] by (simp add: record_observed_writes_def Let_def amended_session)
  qed
qed

lemma settle_quiet:
  assumes "settle_wave h workers w = (merges, w')"
  shows "within_budget 0 w w'"
proof -
  obtain repo where w': "w' = record_observed_writes h merges (tick_landed h merges repo w)" using settle_wave_eq [OF assms] by blast
  have "within_budget 0 w (tick_landed h merges repo w)"
    by (intro quiet_step [where es = "[]"]) (auto simp: tick_landed_def Let_def intro!: eq_refl runs_cong)
  then show ?thesis using w' within_budget_trans [of 0 w _ 0] observed_quiet by (metis add_0)
qed

lemma wave_quiet:
  assumes "keeps_runs (Wave h objective criteria)"
  shows "within_budget 0 w (snd (maybe_run_criterion_wave h objective criteria w))"
proof (cases "plan_wave criteria (wh_fanout_max h) (wh_repo_available h) (wh_worktrees_disposed h)")
  case (Inl d)
  then show ?thesis
    using within_budget_refl [of w] quiet_step [of _ w "[_]"]
    by (auto simp: maybe_run_criterion_wave_def split: FanoutDeclined.split)
next
  case (Inr wave)
  show ?thesis
  proof (cases "wh_fanout_max h \<le> 1 \<or> wh_coordinator h = None")
    case True
    then show ?thesis using Inr within_budget_refl [of w] by (auto simp: maybe_run_criterion_wave_def)
  next
    case False
    then obtain coordinator where c: "wh_coordinator h = Some coordinator" by auto
    let ?ws = "run_wave coordinator (wave_spawner h) (wh_new_id h) objective wave"
    let ?w0 = "on_session (wh_meanwhile h) (emit (GoalFanoutStarted (map cv_number wave)) w)"
    obtain ms w1 where st: "settle_wave h ?ws ?w0 = (ms, w1)" by fastforce
    let ?e = "GoalFanoutFinished (map cv_number wave) (map merge_criterion (filter landed ms)) (wh_latency h)"
    have "within_budget 0 w ?w0"
      using assms by (intro quiet_step [where es = "[GoalFanoutStarted (map cv_number wave)]"]) (auto simp: keeps_runs_def on_session_def)
    moreover have "within_budget 0 w1 (emit ?e w1)" by (intro quiet_step [where es = "[?e]"]) auto
    ultimately have "within_budget 0 w (emit ?e w1)"
      using settle_quiet [OF st] within_budget_trans [of 0 _ _ 0] by (metis add_0)
    then show ?thesis using Inr False c st by (simp add: maybe_run_criterion_wave_def Let_def)
  qed
qed

lemma refresh_view_runs: "amender_runs (refresh_view s) = amender_runs s"
  by (cases "gt_orchestration (ss_tracker s)"; cases "ss_plan s")
    (simp_all add: refresh_view_def on_tracker_def force_refresh_criteria_view_def refresh_criteria_view_def map_orchestration_def amender_runs_def)

lemma proposal_events:
  "\<exists>es. wv_events (apply_proposal h a w) = wv_events w @ es \<and> (\<forall>e\<in>set es. \<not> spawns e) \<and> sum_list (map appended_by es) \<le> 3
     \<and> amender_runs (wv_session (apply_proposal h a w)) = amender_runs (wv_session w)"
proof -
  obtain r v where rv: "on_plan h (amend_plan_on_disk a) w = (r, v)" by fastforce
  have v: "wv_events v = wv_events w" "amender_runs (wv_session v) = amender_runs (wv_session w)"
    using on_plan_simps(1,5) [of h "amend_plan_on_disk a" w] rv by (auto intro: runs_cong)
  show ?thesis
  proof (cases r)
    case (Inl e)
    then show ?thesis using rv v by (simp add: apply_proposal_def)
  next
    case (Inr report)
    then obtain body where "report = snd (apply_amendment body a)" using on_plan_report [of h a w] rv by auto
    then have "length (ar_appended report) \<le> 3" using appended_le [of body a] by simp
    moreover obtain es where "wv_events (emit_plan_amended report v) = wv_events v @ es" "\<forall>e\<in>set es. \<not> spawns e"
        "sum_list (map appended_by es) \<le> length (ar_appended report)" using amended_events [of report v] by blast
    ultimately show ?thesis
      using rv v Inr by (intro exI [of _ es]) (auto simp: apply_proposal_def Let_def amended_session on_session_def refresh_view_runs)
  qed
qed

lemma claim_runs:
  assumes "claim_amender s = (claim, s')"
  shows "amender_runs s' = (if claim = None then amender_runs s else Suc (amender_runs s))"
    and "claim \<noteq> None \<Longrightarrow> amender_runs s < 2"
  using assms by (auto simp: claim_amender_def claim_amender_run_def amender_runs_def GOAL_AMENDER_MAX_RUNS_def Let_def
      split: option.splits if_splits prod.splits)

lemma claimed_amender_events:
  "\<exists>e es. wv_events (run_claimed_amender h un objective vid w) = wv_events w @ e # es \<and> (\<forall>e\<in>set es. \<not> spawns e)
     \<and> appended_by e = 0 \<and> sum_list (map appended_by es) \<le> 3
     \<and> amender_runs (wv_session (run_claimed_amender h un objective vid w)) = amender_runs (wh_meanwhile h (wv_session w))"
proof -
  obtain outcome e v where r: "run_claimed_amender h un objective vid w = (case outcome of Proposed a \<Rightarrow> apply_proposal h a v | _ \<Rightarrow> v)"
      and v: "wv_events v = wv_events w @ [e]" "appended_by e = 0" "wv_session v = wh_meanwhile h (wv_session w)"
    unfolding run_claimed_amender_def Let_def on_session_def by (fastforce simp del: wave_state.simps(1))
  have "\<exists>es. wv_events (apply_proposal h a v) = wv_events w @ e # es \<and> (\<forall>e\<in>set es. \<not> spawns e) \<and> sum_list (map appended_by es) \<le> 3
      \<and> amender_runs (wv_session (apply_proposal h a v)) = amender_runs (wh_meanwhile h (wv_session w))" for a
    using proposal_events [of h a v] v by auto
  then show ?thesis unfolding r using v by (cases outcome) (auto intro: exI [of _ e])
qed

lemma amend_step:
  assumes "keeps_runs (Amend h findings)"
  shows "\<exists>n. within_budget n w (amend_plan_for_unattributed_findings h findings w) \<and> (n = 0 \<or> n = 1 \<and> amender_runs (wv_session w) < 2)"
proof (cases "map cf_message (filter (\<lambda>f. cf_criterion f = None) findings) = [] \<or> wh_coordinator h = None")
  case True
  then show ?thesis using within_budget_refl [of w] by (intro exI [of _ 0]) (auto simp: amend_plan_for_unattributed_findings_def Let_def)
next
  case False
  obtain claim s where c: "claim_amender (wv_session w) = (claim, s)" by fastforce
  note runs = claim_runs [OF c]
  let ?w = "w\<lparr>wv_session := s\<rparr>" and ?r = "amend_plan_for_unattributed_findings h findings w"
  let ?un = "map cf_message (filter (\<lambda>f. cf_criterion f = None) findings)"
  show ?thesis
  proof (cases "claim = None \<or> \<not> wh_plan_exists h")
    case True
    then have "?r = ?w" using False c by (auto simp: amend_plan_for_unattributed_findings_def Let_def split: option.split)
    moreover have "within_budget 0 w ?w" using runs by (intro quiet_step [where es = "[]"]) auto
    ultimately show ?thesis by auto
  next
    case go: False
    then obtain objective vid where cl: "claim = Some (objective, vid)" by auto
    have r: "?r = run_claimed_amender h ?un objective vid ?w"
      using False go c cl by (auto simp: amend_plan_for_unattributed_findings_def Let_def)
    obtain e es where es: "wv_events ?r = wv_events w @ e # es" "\<forall>e\<in>set es. \<not> spawns e" "appended_by e = 0"
        "sum_list (map appended_by es) \<le> 3" "amender_runs (wv_session ?r) = amender_runs (wh_meanwhile h s)"
      unfolding r using claimed_amender_events [of h ?un objective vid ?w] by auto
    moreover have "Suc (amender_runs (wv_session w)) \<le> amender_runs (wh_meanwhile h s)"
      using assms runs(1) cl by (auto simp: keeps_runs_def dest: spec [of _ s])
    ultimately have "within_budget 1 w ?r" unfolding within_budget_def by (intro exI [of _ "e # es"]) (auto simp: filter_empty_conv)
    then show ?thesis using runs(2) cl by auto
  qed
qed

lemma handle_step:
  "keeps_runs st \<Longrightarrow> \<exists>n. within_budget n w (handle st w) \<and> (n = 0 \<or> n = 1 \<and> amender_runs (wv_session w) < 2)"
proof (cases st)
  case (Wave h objective criteria)
  then show "keeps_runs st \<Longrightarrow> ?thesis" using wave_quiet by (intro exI [of _ 0]) simp
next
  case (Amend h findings)
  then show "keeps_runs st \<Longrightarrow> ?thesis" using amend_step by simp
qed

text \<open>
  Property C24. The finish line moves by a bounded amount. Over any sequence of waves and amendment
  rounds of one goal, whatever the models and the host answer, the amendment writer is spawned at most
  as often as the persisted counter leaves of its two runs, and all amendments together append at most
  three criteria per run left. What happens while a handler waits must not lower the counter.
\<close>

theorem amender_bounded:
  assumes "\<forall>st\<in>set steps. keeps_runs st"
  shows "\<exists>es. wv_events (fold handle steps w) = wv_events w @ es
     \<and> length (filter spawns es) \<le> 2 - amender_runs (wv_session w)
     \<and> sum_list (map appended_by es) \<le> 3 * (2 - amender_runs (wv_session w))"
proof -
  have "\<exists>n \<le> 2 - amender_runs (wv_session w). within_budget n w (fold handle steps w)"
    using assms
  proof (induction steps arbitrary: w)
    case Nil
    then show ?case using within_budget_refl [of w] by (intro exI [of _ 0]) simp
  next
    case (Cons st steps)
    obtain n where n: "within_budget n w (handle st w)" "n = 0 \<or> n = 1 \<and> amender_runs (wv_session w) < 2"
      using handle_step [of st w] Cons.prems by auto
    then have le: "amender_runs (wv_session w) + n \<le> amender_runs (wv_session (handle st w))" by (auto simp: within_budget_def)
    obtain m where m: "m \<le> 2 - amender_runs (wv_session (handle st w))" "within_budget m (handle st w) (fold handle steps (handle st w))"
      using Cons by fastforce
    then show ?case using within_budget_trans [OF n(1) m(2)] le n(2) by (intro exI [of _ "n + m"]) auto
  qed
  then obtain n where n: "n \<le> 2 - amender_runs (wv_session w)" "within_budget n w (fold handle steps w)" by blast
  then have "3 * n \<le> 3 * (2 - amender_runs (wv_session w))" by simp
  then show ?thesis using n unfolding within_budget_def by (meson le_trans)
qed

theorem amender_bounded_witness:
  "\<exists>es. wv_events (fold handle [Amend wave_host_sample [\<lparr>cf_criterion = None, cf_message = ''no tests''\<rparr>]] (wave_world checklist_only)) = es
     \<and> length (filter spawns es) \<le> 2 \<and> sum_list (map appended_by es) \<le> 6"
proof -
  let ?st = "Amend wave_host_sample [\<lparr>cf_criterion = None, cf_message = ''no tests''\<rparr>]"
  have "amender_runs (wv_session (wave_world checklist_only)) = 0" by code_simp
  moreover have "keeps_runs ?st" by (simp add: keeps_runs_def wave_host_sample_def)
  ultimately show ?thesis using amender_bounded [of "[?st]" "wave_world checklist_only"] by (simp add: wave_world_def)
qed

subsection \<open>Two criteria that wrote the same file\<close>

lemma add_dependency_scopes: "map cn_write_scope (add_dependency l e g) = map cn_write_scope g"
  by (induction g) auto

lemma serialize_step_scopes:
  "serialize_step k g = Some g' \<Longrightarrow> map cn_write_scope g' = map cn_write_scope g \<and> map cn_number g' = map cn_number g"
  by (auto simp: serialize_step_def Let_def add_dependency_scopes split: list.splits prod.splits option.splits if_splits)

lemma serialize_scopes:
  "map cn_write_scope (serialize_conflicts k g) = map cn_write_scope g \<and> map cn_number (serialize_conflicts k g) = map cn_number g"
proof (induction k g rule: serialize_conflicts.induct)
  case (1 k g)
  show ?case
  proof (cases "serialize_step k g")
    case None
    then show ?thesis by (subst (1 2) serialize_conflicts.simps) simp
  next
    case (Some g')
    then have "serialize_conflicts k g = serialize_conflicts k g'" by (subst serialize_conflicts.simps) simp
    then show ?thesis using 1 [OF Some] serialize_step_scopes [OF Some] by simp
  qed
qed

text \<open>A row of the view shows the write scope its node declares.\<close>

lemma view_scope:
  assumes "parse_criterion_graph body = Some g" and "list_all (\<lambda>v. \<not> is_structural v) (validate g (length (parse_dual_rows body)))"
    and "c \<in> set (build_criteria_view body deferred)" and "n \<in> set g" and "cn_number n = cv_number c"
  shows "cv_write_scope c = cn_write_scope n"
proof -
  let ?k = "length (parse_dual_rows body)"
  let ?l = "load_criterion_graph body ?k"
  have l: "?l = serialize_conflicts ?k g" using assms(1,2) by (simp add: load_criterion_graph_def)
  have dist: "distinct (map cn_number g)"
    using assms(2) contract_numbers [of ?k g] by (simp add: validate_structural_free_iff del: upt_Suc)
  from assms(4) obtain i where i: "i < length g" "g ! i = n" by (auto simp: in_set_conv_nth)
  have len: "length ?l = length g" using arg_cong [OF conjunct2 [OF serialize_scopes [of ?k g]], of length] l by simp
  have num: "cn_number (?l ! i) = cn_number n" and sc: "cn_write_scope (?l ! i) = cn_write_scope n"
    using arg_cong [OF conjunct2 [OF serialize_scopes [of ?k g]], of "\<lambda>xs. xs ! i"]
      arg_cong [OF conjunct1 [OF serialize_scopes [of ?k g]], of "\<lambda>xs. xs ! i"] l len i by simp_all
  have "find_node ?l (cn_number (?l ! i)) = Some (?l ! i)"
    using dist serialize_scopes [of ?k g] l len i by (intro find_node_distinct) simp_all
  moreover from assms(3) obtain j where "c = view_row ?l deferred (Suc j) (parse_dual_rows body ! j)" by (auto simp: view_rows)
  moreover have "cv_number c = cn_number (?l ! i)" using num assms(5) by simp
  ultimately show ?thesis using sc by (simp add: view_row_def Let_def)
qed

lemma literal_prefix_covers: "prefix_at_boundary (literal_prefix p) p"
proof (cases "find_index (\<lambda>c. c = CHR ''*'' \<or> c = CHR ''?'' \<or> c = CHR ''['') p")
  case (Some i)
  show ?thesis
  proof (cases "rfind_index (\<lambda>c. c = CHR ''/'') (take i p)")
    case (Some j)
    then have j: "j < length (take i p)" "take i p ! j = CHR ''/''" using rfind_index_SomeD by fastforce+
    then have "take i p = take j (take i p) @ CHR ''/'' # drop (Suc j) (take i p)" by (metis id_take_nth_drop)
    then have "p = take j (take i p) @ CHR ''/'' # (drop (Suc j) (take i p) @ drop i p)" by (metis append_Cons append.assoc append_take_drop_id)
    then show ?thesis
      using Some \<open>find_index _ p = Some i\<close> by (auto simp: literal_prefix_def Let_def prefix_at_boundary_iff)
  qed (simp add: literal_prefix_def \<open>find_index _ p = Some i\<close> prefix_at_boundary_iff)
qed (simp add: literal_prefix_def prefix_at_boundary_iff)

lemma paths_overlap_refl: "paths_overlap p p"
  by (simp add: paths_overlap_def prefix_at_boundary_refl)

lemma added_paths_cover:
  "p \<in> set ps \<Longrightarrow> normalize_scope p = p \<Longrightarrow> p \<noteq> [] \<Longrightarrow> \<exists>s\<in>set have \<union> set (added_paths have ps). paths_overlap s p"
proof (induction ps arbitrary: "have")
  case (Cons q ps)
  show ?case
  proof (cases "p = q")
    case True
    then show ?thesis using Cons.prems paths_overlap_refl by (auto simp: list_ex_iff Let_def)
  next
    case False
    with Cons.prems have "p \<in> set ps" by simp
    with Cons.IH [of "have"] Cons.IH [of "have @ [normalize_scope q]"] Cons.prems show ?thesis
      by (auto simp: Let_def)
  qed
qed simp

lemma plan_scopes_cover:
  assumes "(c, ps) \<in> set wanted" "find_node g c = Some n" "cn_write_scope n \<noteq> []"
    and "p \<in> set ps" "normalize_scope p = p" "p \<noteq> []"
  shows "\<exists>s. (s \<in> set (cn_write_scope n) \<or> (\<exists>qs. (c, qs) \<in> set (fst (plan_scopes g wanted)) \<and> s \<in> set qs)) \<and> paths_overlap s p"
  using assms(1)
proof (induction wanted)
  case (Cons e wanted)
  obtain d qs where e: "e = (d, qs)" by fastforce
  have mono: "set (fst (plan_scopes g wanted)) \<subseteq> set (fst (plan_scopes g (e # wanted)))"
    by (auto simp: e Let_def split: option.split)
  show ?case
  proof (cases "e = (c, ps)")
    case True
    then have "added_paths (cn_write_scope n) ps \<noteq> [] \<Longrightarrow> (c, added_paths (cn_write_scope n) ps) \<in> set (fst (plan_scopes g (e # wanted)))"
      using assms(2,3) by (simp add: Let_def)
    then show ?thesis using added_paths_cover [OF assms(4-6), of "cn_write_scope n"] by (metis Un_iff empty_iff empty_set)
  next
    case False
    with Cons mono show ?thesis by auto
  qed
qed simp

text \<open>A path as git reports it: already normal, and free of the separators of a table cell.\<close>

definition git_path :: "string \<Rightarrow> bool" where
  "git_path p \<longleftrightarrow> normalize_scope p = p \<and> clean_path p \<and> NL \<notin> set p"

definition git_paths :: "MergeOutcome list \<Rightarrow> bool" where
  "git_paths merges = list_all (\<lambda>m. list_all git_path (written_paths m)) merges"

text \<open>Nothing that is declared or was written lies below the path: it is a file and not a directory.\<close>

definition names_file :: "CriterionGraph \<Rightarrow> MergeOutcome list \<Rightarrow> string \<Rightarrow> bool" where
  "names_file g merges p \<longleftrightarrow> (\<forall>s\<in>\<Union>(set ` cn_write_scope ` set g) \<union> \<Union>(set ` written_paths ` set merges).
     paths_overlap s p \<longrightarrow> covers s p)"

lemma observed_scope: "m \<in> set merges \<Longrightarrow> p \<in> set (written_paths m) \<Longrightarrow> git_path p \<Longrightarrow>
   \<exists>ps. (merge_criterion m, ps) \<in> set (pa_scopes (amendment_from_observed_writes (observed_writes merges))) \<and> p \<in> set ps"
proof -
  assume m: "m \<in> set merges" "p \<in> set (written_paths m)" and p: "git_path p"
  then have ne: "normalize_scope p \<noteq> []" by (simp add: git_path_def clean_path_def clean_token_def)
  have "q \<in> set (normalized_paths acc ps)" if "q \<in> set acc" for q acc ps
    using that by (induction ps arbitrary: acc) (auto simp: Let_def)
  then have "p \<in> set (normalized_paths acc ps)" if "p \<in> set ps" for acc ps
    using that p ne by (induction ps arbitrary: acc) (auto simp: Let_def git_path_def)
  then have "p \<in> set (normalized_paths [] (written_paths m))" using m(2) by blast
  then show ?thesis using m
    by (intro exI [of _ "normalized_paths [] (written_paths m)"])
      (force simp: amendment_from_observed_writes_def observed_writes_def)
qed

lemma observed_paths:
  assumes "git_paths merges" and "(c, ps) \<in> set (pa_scopes (amendment_from_observed_writes (observed_writes merges)))" and "p \<in> set ps"
  shows "git_path p \<and> p \<in> \<Union>(set ` written_paths ` set merges)"
proof -
  obtain m where m: "m \<in> set merges" "ps = normalized_paths [] (written_paths m)"
    using assms(2) by (auto simp: amendment_from_observed_writes_def observed_writes_def)
  then obtain q where q: "q \<in> set (written_paths m)" "p = normalize_scope q" using assms(3) normalized_paths_in [of p "[]"] by auto
  moreover have "git_path q" using assms(1) m q by (auto simp: git_paths_def list_all_iff)
  ultimately show ?thesis using m by (auto simp: git_path_def)
qed

lemma observed_paths_clean: "git_paths merges \<Longrightarrow> paths_clean (amendment_from_observed_writes (observed_writes merges))"
  using observed_paths [of merges] by (fastforce simp: paths_clean_def git_path_def amendment_from_observed_writes_def)

lemma git_paths_one_line: "git_paths merges \<Longrightarrow> one_line_paths merges"
  by (auto simp: git_paths_def one_line_paths_def git_path_def list_all_iff)

text \<open>In the amended graph the scope of a criterion that wrote a file covers that file, or is still undeclared.\<close>

lemma amended_scope_covers:
  assumes "git_paths merges" and "names_file g merges p" and "m \<in> set merges" and "p \<in> set (written_paths m)"
    and "distinct (map cn_number g)" and "n \<in> set g" and "cn_number n = merge_criterion m"
    and "node_extends edges (fst (plan_scopes g (pa_scopes (amendment_from_observed_writes (observed_writes merges))))) n n'"
  shows "cn_write_scope n' = [] \<or> (\<exists>s\<in>set (cn_write_scope n'). covers s p)"
proof -
  let ?wanted = "pa_scopes (amendment_from_observed_writes (observed_writes merges))"
  have n: "find_node g (merge_criterion m) = Some n" using find_node_distinct [OF assms(5,6)] assms(7) by simp
  have sc: "set (cn_write_scope n') = set (cn_write_scope n) \<union> {q. \<exists>qs. (merge_criterion m, qs) \<in> set (fst (plan_scopes g ?wanted)) \<and> q \<in> set qs}"
    using assms(7,8) by (simp add: node_extends_def)
  have p: "git_path p" using assms(1,3,4) by (auto simp: git_paths_def list_all_iff)
  show ?thesis
  proof (cases "cn_write_scope n = []")
    case True
    then have "set (cn_write_scope n') = {}" using sc plan_scopes_in [of "merge_criterion m" _ g ?wanted] n by fastforce
    then show ?thesis by simp
  next
    case False
    obtain ps where ps: "(merge_criterion m, ps) \<in> set ?wanted" "p \<in> set ps" using observed_scope [OF assms(3,4) p] by blast
    obtain s where s: "s \<in> set (cn_write_scope n')" "paths_overlap s p"
      using plan_scopes_cover [OF ps(1) n False ps(2)] p sc by (auto simp: git_path_def clean_path_def clean_token_def)
    have "s \<in> \<Union>(set ` cn_write_scope ` set g) \<union> \<Union>(set ` written_paths ` set merges)"
    proof (cases "s \<in> set (cn_write_scope n)")
      case False
      then obtain qs where "(merge_criterion m, qs) \<in> set (fst (plan_scopes g ?wanted))" "s \<in> set qs" using s(1) sc by auto
      then obtain rs r where "(merge_criterion m, rs) \<in> set ?wanted" "r \<in> set rs" "s = normalize_scope r"
        using plan_scopes_in [of "merge_criterion m" qs g ?wanted] added_paths_in by blast
      then show ?thesis using observed_paths [OF assms(1)] by (auto simp: git_path_def)
    qed (use assms(6) in auto)
    then show ?thesis using assms(2) s by (auto simp: names_file_def)
  qed
qed

text \<open>The graph of the plan a settled wave leaves behind.\<close>

lemma settled_graph:
  assumes "git_paths merges" and "one_section SECTION (lines body)" and "no_blank_rows body"
    and "parse_criterion_graph body = Some g"
    and "list_all (\<lambda>v. \<not> is_structural v) (validate g (length (parse_dual_rows body)))" and "length (parse_dual_rows body) + 3 \<le> u32_max"
  shows "\<exists>g' edges. parse_criterion_graph (settled_plan merges body) = Some g'
     \<and> list_all2 (node_extends edges (fst (plan_scopes g (pa_scopes (amendment_from_observed_writes (observed_writes merges)))))) g g'
     \<and> list_all (\<lambda>v. \<not> is_structural v) (validate g' (length (parse_dual_rows (settled_plan merges body))))"
proof -
  let ?ns = "map merge_criterion (filter landed merges)" and ?a = "amendment_from_observed_writes (observed_writes merges)"
  let ?b = "if ?ns = [] then body else rewrite_marks_where body Exec True (\<lambda>n. n \<in> set ?ns)"
  have plan: "settled_plan merges body = fst (apply_amendment ?b ?a)" by (simp add: settled_plan_def with_observed_writes_def Let_def)
  have rows: "length (parse_dual_rows (settled_plan merges body)) = length (parse_dual_rows body)"
    unfolding settled_rows [OF git_paths_one_line [OF assms(1)] assms(2,3)] by (simp add: mark_rows_def)
  have b: "parse_criterion_graph ?b = Some g" "length (parse_dual_rows ?b) = length (parse_dual_rows body)"
    using assms(4) marks_keep_graph rewrite_marks_rows [OF assms(3)] by (auto simp: mark_rows_def)
  have acc: "accepted ?b ?a = []" by (rule observed_accepts_nothing)
  have "amended_scopes ?b ?a = fst (plan_scopes g (pa_scopes ?a))" using b(1) by (simp add: amended_scopes_def)
  moreover from amended_graph [OF observed_one_line [OF git_paths_one_line [OF assms(1)]] observed_paths_clean [OF assms(1)] b(1)]
  obtain g1 g2 where "parse_criterion_graph (fst (apply_amendment ?b ?a)) = Some (g1 @ g2)"
      "list_all2 (node_extends (amended_edges ?b ?a) (amended_scopes ?b ?a)) g g1" "list_all2 (node_for (amended_edges ?b ?a)) [] g2"
      "list_all (\<lambda>v. \<not> is_structural v) (validate (g1 @ g2) (length (parse_dual_rows body)))"
    using assms(5,6) unfolding b(2) apply_amendment_eq(2,3) acc by (auto simp: numbered_from_def)
  ultimately show ?thesis unfolding plan [symmetric] rows by auto
qed

text \<open>
  A collision is not scheduled again. When the merges of a wave report that two criteria wrote
  the same file (landed or in conflict), the plan the wave leaves behind declares it for both, and no
  later wave planned from that plan, whatever was deferred since, runs the two criteria together, as long
  as claims are in dependency order. The plan must be writable, with one checklist without blank rows and
  a structurally sound dependency table; git must report normal paths.
\<close>

theorem collision_not_repeated:
  assumes "settle_wave h workers w = (merges, w')" and "ss_plan (wv_session w) = Some body" and "wh_plan_writable h"
    and "git_paths merges" and "one_section SECTION (lines body)" and "no_blank_rows body"
    and "parse_criterion_graph body = Some g"
    and "list_all (\<lambda>v. \<not> is_structural v) (validate g (length (parse_dual_rows body)))" and "length (parse_dual_rows body) + 3 \<le> u32_max"
    and "m1 \<in> set merges" "m2 \<in> set merges" "merge_criterion m1 \<noteq> merge_criterion m2"
    and "p \<in> set (written_paths m1)" "p \<in> set (written_paths m2)" and "names_file g merges p"
  shows "\<exists>plan. ss_plan (wv_session w') = Some plan
     \<and> (\<forall>deferred fanout repo disposed wave. claims_closed (build_criteria_view plan deferred) \<longrightarrow>
          plan_wave (build_criteria_view plan deferred) fanout repo disposed = Inr wave \<longrightarrow>
          \<not> {merge_criterion m1, merge_criterion m2} \<subseteq> cv_number ` set wave)"
proof -
  let ?plan = "settled_plan merges body" and ?k = "length (parse_dual_rows body)"
  let ?ss = "fst (plan_scopes g (pa_scopes (amendment_from_observed_writes (observed_writes merges))))"
  obtain g' edges where g': "parse_criterion_graph ?plan = Some g'" "list_all2 (node_extends edges ?ss) g g'"
      "list_all (\<lambda>v. \<not> is_structural v) (validate g' (length (parse_dual_rows ?plan)))"
    using settled_graph [OF assms(4-9)] by blast
  have dist: "distinct (map cn_number g)" and dist': "distinct (map cn_number g')"
    using assms(8) g'(3) contract_numbers [of ?k g] contract_numbers [of "length (parse_dual_rows ?plan)" g']
    by (simp_all add: validate_structural_free_iff del: upt_Suc)
  have scope: "cv_write_scope c = [] \<or> (\<exists>s\<in>set (cv_write_scope c). covers s p)"
    if "c \<in> set (build_criteria_view ?plan deferred)" "cv_number c = merge_criterion m" "m \<in> set merges" "p \<in> set (written_paths m)"
    for c m deferred
  proof -
    have "cv_number c \<in> cn_number ` set g'"
      using that(1) g'(3) contract_numbers [of "length (parse_dual_rows ?plan)" g']
      by (auto simp: validate_structural_free_iff view_rows view_number simp flip: set_map simp del: upt_Suc)
    then obtain n' where n': "n' \<in> set g'" "cn_number n' = cv_number c" by auto
    then obtain n where n: "n \<in> set g" "node_extends edges ?ss n n'" using g'(2) by (auto simp: list_all2_conv_all_nth in_set_conv_nth) blast
    then have "cn_number n = merge_criterion m" using n' that(2) by (simp add: node_extends_def)
    from amended_scope_covers [OF assms(4,15) that(3,4) dist n(1) this n(2)] show ?thesis
      using view_scope [OF g'(1,3) that(1) n'(1)] n'(2) by simp
  qed
  have "\<not> {merge_criterion m1, merge_criterion m2} \<subseteq> cv_number ` set wave"
    if "claims_closed (build_criteria_view ?plan deferred)" "plan_wave (build_criteria_view ?plan deferred) fanout repo disposed = Inr wave"
    for deferred fanout repo disposed wave
  proof
    note w = wave_facts [OF that(2,1)]
    assume "{merge_criterion m1, merge_criterion m2} \<subseteq> cv_number ` set wave"
    then obtain a b where ab: "a \<in> set wave" "cv_number a = merge_criterion m1" "b \<in> set wave" "cv_number b = merge_criterion m2" by auto
    then have "overlapping_scope (cv_write_scope a) (cv_write_scope b) = None" using w assms(12) by metis
    then have "cv_write_scope a \<noteq> []" "cv_write_scope b \<noteq> []" and no: "\<forall>x\<in>set (cv_write_scope a). \<forall>y\<in>set (cv_write_scope b). \<not> paths_overlap x y"
      by (simp_all add: overlapping_scope_None_iff)
    then obtain x y where "x \<in> set (cv_write_scope a)" "covers x p" "y \<in> set (cv_write_scope b)" "covers y p"
      using scope [of a deferred m1] scope [of b deferred m2] ab w assms(10,11,13,14) by blast
    then show False using no prefix_at_boundary_linear unfolding covers_def paths_overlap_def Let_def by blast
  qed
  then show ?thesis using settle_plan [OF assms(1-3)] by blast
qed

lemma lib_git_path: "git_path ''src/lib.rs''"
proof -
  have "normalize_scope ''src/lib.rs'' = ''src/lib.rs''" by code_simp
  then show ?thesis
    by (auto simp: git_path_def clean_path_def clean_token_def empty_words_def to_ascii_lowercase_def ascii_lower_def
        plain_def ascii_ws_def wide_ws_def intro!: plain_ws_free)
qed

theorem collision_not_repeated_witness:
  "\<exists>plan. ss_plan (wv_session (snd (settle_wave wave_host_sample [sample_worker 2 ''/w2'', sample_worker 3 ''/w3''] (wave_world two_ready_plan))))
        = Some plan
     \<and> (\<forall>fanout wave. claims_closed (build_criteria_view plan []) \<longrightarrow>
          plan_wave (build_criteria_view plan []) fanout True False = Inr wave \<longrightarrow> \<not> {2, 3} \<subseteq> cv_number ` set wave)"
proof -
  let ?ws = "[sample_worker 2 ''/w2'', sample_worker 3 ''/w3'']" and ?w = "wave_world two_ready_plan"
  let ?ms = "[Landed 2 [''src/lib.rs''], Conflicted 3 [''src/lib.rs'']]" and ?p = "''src/lib.rs''"
  let ?g = "[mk_node 1 [] ''src/base.rs'', mk_node 2 [1] ''src/left/**'', mk_node 3 [1] ''src/right.rs'']"
  have "fst (settle_wave wave_host_sample ?ws ?w) = ?ms"
  proof -
    have "fst (merge_wave same_file ''s'' ?ws 0) = ?ms" by code_simp
    then show ?thesis by (simp add: settle_wave_def case_prod_unfold Let_def wave_host_sample_def wave_world_def)
  qed
  then have st: "settle_wave wave_host_sample ?ws ?w = (?ms, snd (settle_wave wave_host_sample ?ws ?w))" by (metis prod.collapse)
  have rows: "length (parse_dual_rows two_ready_plan) = 3" by code_simp
  have "section_lines two_ready_plan GRAPH_SECTION =
      [''| # | Depends on | Write scope |'', ''| 1 | - | src/base.rs |'', ''| 2 | 1 | src/left/** |'', ''| 3 | 1 | src/right.rs |'']" by code_simp
  then have g: "parse_criterion_graph two_ready_plan = Some ?g"
    by (simp add: parse_criterion_graph_def List.map_filter_def sample_nodes)
  have "list_all (\<lambda>v. \<not> is_structural v) (validate ?g 3)" "no_blank_rows two_ready_plan" "one_section SECTION (lines two_ready_plan)" by code_simp+
  moreover have "names_file ?g ?ms ?p"
  proof -
    have "\<not> paths_overlap ''src/base.rs'' ?p" "\<not> paths_overlap ''src/left/**'' ?p" "\<not> paths_overlap ''src/right.rs'' ?p" "covers ?p ?p"
      by code_simp+
    then show ?thesis by (simp add: names_file_def mk_node_def)
  qed
  moreover have "git_paths ?ms" by (simp add: git_paths_def lib_git_path)
  ultimately obtain plan where "ss_plan (wv_session (snd (settle_wave wave_host_sample ?ws ?w))) = Some plan"
      "\<forall>deferred fanout repo disposed wave. claims_closed (build_criteria_view plan deferred) \<longrightarrow>
          plan_wave (build_criteria_view plan deferred) fanout repo disposed = Inr wave \<longrightarrow> \<not> {2, 3} \<subseteq> cv_number ` set wave"
    using collision_not_repeated [OF st, of two_ready_plan ?g "?ms ! 0" "?ms ! 1" ?p] rows g
    by (auto simp: wave_world_def wave_session_def wave_host_sample_def u32_max_def)
  then show ?thesis by blast
qed

end
