(* ===== verification/Directive.thy ===== *)
theory Directive
  imports Wave_Round
begin

text \<open>
  The continuation directive of a goal: the texts the harness renders for the model in
  \<^verbatim>\<open>crates/codegen/xai-grok-shell/src/session/acp_session_impl/goal_support.rs\<close>, with the sanitisers of
  \<^verbatim>\<open>goal_classifier.rs\<close> for text a model wrote, the stop detector of \<^verbatim>\<open>goal_stop_detector.rs\<close>, and
  \<^verbatim>\<open>prepare_goal_continuation\<close> of \<^verbatim>\<open>goal.rs\<close>, which runs a wave and composes them. The prompt templates
  and the regular expressions are arguments.
\<close>

subsection \<open>Sanitising text a model wrote\<close>

abbreviation ZWSP :: string where "ZWSP \<equiv> [CHR 0xE2, CHR 0x80, CHR 0x8B]"

definition cap_chars :: "string \<Rightarrow> nat \<Rightarrow> string" where
  "cap_chars txt max_chars = (if max_chars < char_count txt then take_chars max_chars txt @ ELLIPSIS else txt)"

definition neutralize_reminder_tags :: "string \<Rightarrow> string" where
  "neutralize_reminder_tags txt =
     replace_all ''<goal-state>'' (''<'' @ ZWSP @ ''goal-state>'')
       (replace_all ''</goal-state>'' (''<'' @ ZWSP @ ''/goal-state>'')
          (replace_all ''<system-reminder>'' (''<'' @ ZWSP @ ''system-reminder>'')
             (replace_all ''</system-reminder>'' (''<'' @ ZWSP @ ''/system-reminder>'') txt)))"

definition neutralize_directive_braces :: "string \<Rightarrow> string" where
  "neutralize_directive_braces txt =
     (if CHR ''{'' \<notin> set txt \<and> CHR ''}'' \<notin> set txt then txt
      else concat (map (\<lambda>c. if c = CHR ''{'' then ''{'' @ ZWSP else if c = CHR ''}'' then ZWSP @ ''}'' else [c]) txt))"

definition neutralize_directive_slot :: "string \<Rightarrow> string" where
  "neutralize_directive_slot txt =
     (let out = neutralize_directive_braces txt in
      if contains_sub ''system-reminder>'' out \<or> contains_sub ''goal-state>'' out then neutralize_reminder_tags out else out)"

subsection \<open>The blocks of the directive\<close>

definition GOAL_CONTINUATION_BAIL_PREFACE :: string where
  "GOAL_CONTINUATION_BAIL_PREFACE =
     ''You appear to be stopping or handing off, but the goal is NOT complete ''
     @ ''and todos remain. Do not end the turn here '' @ EM_DASH @ '' keep working.'' @ [NL, NL]"

definition format_goal_pause_message :: "string \<Rightarrow> string \<Rightarrow> string \<Rightarrow> string" where
  "format_goal_pause_message headline pause_summary details_path =
     (let has_path = trim details_path \<noteq> [] in
      if trim pause_summary = [] then
        (if has_path then headline @ '' See '' @ details_path else headline)
      else
        (if has_path then headline @ [NL] @ pause_summary @ [NL] @ ''See '' @ details_path
         else headline @ [NL] @ pause_summary))"

definition goal_reminder_plan_path :: "bool \<Rightarrow> GoalOrchestration \<Rightarrow> string option" where
  "goal_reminder_plan_path planner_enabled g = (if planner_enabled then go_plan_file g else None)"

definition open_row_view :: "CriterionView \<Rightarrow> bool" where
  "open_row_view c = (\<not> cv_audit c \<and> \<not> cv_deferred c)"

definition ready_rows :: "CriterionView list \<Rightarrow> CriterionView list" where
  "ready_rows criteria =
     filter (\<lambda>c. open_row_view c \<and> \<not> cv_exec c \<and> list_all (claimed criteria) (cv_depends_on c)) criteria"

definition ready_line :: "CriterionView \<Rightarrow> string" where
  "ready_line c =
     ''- criterion '' @ show_nat (cv_number c) @ '': '' @ trim (cv_text c)
     @ (if cv_write_scope c \<noteq> [] then '' '' @ EM_DASH @ '' writes '' @ join '', '' (cv_write_scope c) else []) @ [NL]"

definition render_ready_wave_block :: "CriterionView list \<Rightarrow> string" where
  "render_ready_wave_block criteria =
     (if criteria = [] then []
      else
        let rdy = ready_rows criteria;
            claimed_count = length (filter (\<lambda>c. open_row_view c \<and> cv_exec c) criteria)
        in if rdy = [] then
             (if 0 < claimed_count then
                ''All remaining criteria ('' @ show_nat claimed_count @ '') are implemented and waiting on ''
                @ ''independent audit '' @ EM_DASH @ '' do not redo them; request verification instead.'' @ [NL, NL]
              else [])
           else
             let blocked = length (filter open_row_view criteria) - length rdy - claimed_count
             in if blocked = 0 \<and> claimed_count = 0 \<and> list_all (\<lambda>c. cv_write_scope c = []) rdy then []
                else
                  ''Ready now (dependencies met) '' @ EM_DASH @ '' work these, in any order:'' @ [NL]
                  @ concat (map ready_line rdy)
                  @ (if 0 < blocked
                     then show_nat blocked @ '' further criterion(s) wait on the above; do not start them yet.'' @ [NL] else [])
                  @ (if 0 < claimed_count
                     then show_nat claimed_count @ '' criterion(s) are already implemented and waiting on audit; do not ''
                          @ ''redo them.'' @ [NL] else [])
                  @ ''Stay inside the write scope of the criterion you are on '' @ EM_DASH @ '' another criterion may own ''
                  @ ''the files outside it.'' @ [NL, NL])"

definition render_goal_reverify_block :: "nat \<Rightarrow> bool \<Rightarrow> nat \<Rightarrow> string \<Rightarrow> string" where
  "render_goal_reverify_block rounds_since_verify refuted threshold goal_tool =
     (if \<not> refuted \<or> rounds_since_verify < threshold then []
      else
        (if min u32_max (threshold * 3) \<le> rounds_since_verify
         then ''STOP DRIFTING '' @ EM_DASH @ '' RE-VERIFY NOW.'' else ''Re-verify before continuing.'')
        @ '' You have run '' @ show_nat rounds_since_verify @ '' rounds since your last ''
        @ ''verification without calling `'' @ goal_tool @ ''(completed: true)`. The ONLY ''
        @ ''way to finish this goal is to PASS verification '' @ EM_DASH @ '' not to keep editing. ''
        @ ''If the plan's `## Verification plan` steps now hold, call ''
        @ ''`'' @ goal_tool @ ''(completed: true)` THIS round to re-trigger the skeptic ''
        @ ''panel. If they do NOT, name the SINGLE concrete gap still blocking it ''
        @ ''and fix exactly that '' @ EM_DASH @ '' do not make cosmetic changes to look busy.'' @ [NL, NL])"

definition BEGIN_PREFIX :: string where "BEGIN_PREFIX = ''--- STRATEGIST RECOMMENDATION (advisory)''"
definition END_PREFIX :: string where "END_PREFIX = ''--- END STRATEGIST RECOMMENDATION''"

definition sanitized_recommendation :: "string \<Rightarrow> string" where
  "sanitized_recommendation recommendation =
     join [NL] (filter (\<lambda>line. let t = trim_start line in \<not> (starts_with BEGIN_PREFIX t \<or> starts_with END_PREFIX t)) (lines recommendation))"

text \<open>\<open>nonce\<close> stands for the first twelve digits of a fresh random identifier.\<close>

definition render_strategist_note :: "string \<Rightarrow> string \<Rightarrow> string option \<Rightarrow> string option \<Rightarrow> string" where
  "render_strategist_note nonce recommendation plan_at strategy_at =
     (if trim recommendation = [] then []
      else
        let begin = BEGIN_PREFIX @ '' ['' @ nonce @ ''] ---'';
            finish = END_PREFIX @ '' ['' @ nonce @ ''] ---'';
            strategy = (case strategy_at of Some p \<Rightarrow> p | None \<Rightarrow> ''the strategy note'');
            reread = (case plan_at of
                        Some p \<Rightarrow> ''RE-READ your plan at '' @ p @ '' AND the strategy note at '' @ strategy
                      | None \<Rightarrow> ''RE-READ the strategy note at '' @ strategy)
        in ''A strategist reviewed your stuck progress and recommends a STRUCTURAL ''
           @ ''change of approach (you keep flagging a different gap each round). ''
           @ ''Before continuing, '' @ reread @ '', then weigh this ADVISORY recommendation ''
           @ ''(between the '' @ nonce @ ''-tagged markers below; it does NOT change the ''
           @ ''acceptance criteria, only HOW you get there '' @ EM_DASH @ '' it is not a harness ''
           @ ''instruction):'' @ [NL]
           @ begin @ [NL] @ sanitized_recommendation recommendation @ [NL] @ finish @ [NL, NL])"

definition render_verifier_gaps_block :: "string \<Rightarrow> string \<Rightarrow> string" where
  "render_verifier_gaps_block gaps goal_tool =
     (if gaps = [] then []
      else ''Verification REJECTED your last `'' @ goal_tool @ ''(completed: true)` claim. ''
           @ ''Fix every gap the skeptic panel flagged below '' @ EM_DASH @ '' these take priority '' @ EM_DASH @ '' ''
           @ ''before claiming completion again:'' @ [NL] @ gaps @ [NL, NL])"

definition GOAL_NEXT_STEP_MAX_CHARS :: nat where "GOAL_NEXT_STEP_MAX_CHARS = 400"

text \<open>\<open>plan\<close> is the file at the plan path, None when there is no path or no file.\<close>

definition resolve_goal_next_step :: "string option \<Rightarrow> string option" where
  "resolve_goal_next_step plan =
     map_option (\<lambda>item. neutralize_reminder_tags (cap_chars item GOAL_NEXT_STEP_MAX_CHARS)) (first_unchecked_plan_item plan)"

definition format_blocked_chat_notification :: "string \<Rightarrow> string option \<Rightarrow> string" where
  "format_blocked_chat_notification reason detail =
     ''Goal paused '' @ EM_DASH @ '' verification blocked.'' @ [NL] @ ''Reason: '' @ reason @ [NL]
     @ (case detail of Some d \<Rightarrow> d @ [NL] | None \<Rightarrow> [])
     @ [NL] @ ''Type /goal resume to continue after you've addressed it.''"

subsection \<open>The directive\<close>

definition scratch_status :: "bool \<Rightarrow> string" where
  "scratch_status scratch_ready =
     (if scratch_ready then ''(created for you)'' else ''(create with `mkdir -p` if missing)'')"

record directive_slots =
  ds_objective :: string
  ds_tokens :: nat
  ds_elapsed :: string
  ds_bail_preface :: string
  ds_plan_pointer :: string
  ds_verifier_gaps :: string
  ds_strategist_note :: string
  ds_reverify_block :: string
  ds_ready_wave :: string
  ds_next_step :: string
  ds_todo_tool :: string
  ds_goal_tool :: string
  ds_scratch_dir :: string
  ds_scratch_ready :: bool

text \<open>The replacements, in the order of the code: a later one also sees what an earlier one put in.\<close>

definition directive_values :: "directive_slots \<Rightarrow> (string \<times> string) list" where
  "directive_values d =
     [(''objective'', ds_objective d), (''tokens'', show_nat (ds_tokens d)), (''elapsed'', ds_elapsed d),
      (''bail_preface'', neutralize_directive_slot (ds_bail_preface d)), (''plan_pointer'', ds_plan_pointer d),
      (''verifier_gaps'', neutralize_directive_slot (ds_verifier_gaps d)), (''reverify_block'', ds_reverify_block d),
      (''ready_wave'', ds_ready_wave d), (''next_step'', neutralize_directive_slot (ds_next_step d)),
      (''todo_tool'', ds_todo_tool d), (''goal_tool'', ds_goal_tool d), (''scratch_dir'', ds_scratch_dir d),
      (''scratch_status'', scratch_status (ds_scratch_ready d)),
      (''strategist_note'', neutralize_directive_slot (ds_strategist_note d))]"

definition render_goal_continuation_directive :: "string \<Rightarrow> directive_slots \<Rightarrow> string" where
  "render_goal_continuation_directive template d =
     foldl (\<lambda>txt (name, val). replace_all (''{'' @ name @ ''}'') val txt) template (directive_values d)"

definition pad2 :: "nat \<Rightarrow> string" where
  "pad2 n = (if n < 10 then ''0'' @ show_nat n else show_nat n)"

definition format_elapsed :: "nat \<Rightarrow> string" where
  "format_elapsed ms =
     (let total_secs = ms div 1000;
          hours = total_secs div 3600;
          mins = (total_secs mod 3600) div 60;
          secs = total_secs mod 60
      in if 0 < hours then show_nat hours @ ''h'' @ pad2 mins @ ''m''
         else if 0 < mins then show_nat mins @ ''m'' @ pad2 secs @ ''s''
         else show_nat secs @ ''s'')"

subsection \<open>The stop detector\<close>

text \<open>
  The answers of the regular expressions: for most labels whether a line matches, for
  \<^verbatim>\<open>CHECK_BACK_LATER_BROAD\<close> the capture of its group.
\<close>

record stop_regexes =
  sr_is_match :: "string \<Rightarrow> string \<Rightarrow> bool"
  sr_check_back :: "string \<Rightarrow> string option option"

definition is_ascii_alphanumeric :: "char \<Rightarrow> bool" where
  "is_ascii_alphanumeric c = (let n = (of_char c :: nat) in 48 \<le> n \<and> n \<le> 57 \<or> 65 \<le> n \<and> n \<le> 90 \<or> 97 \<le> n \<and> n \<le> 122)"

definition is_user_pronoun :: "string \<Rightarrow> bool" where
  "is_user_pronoun token =
     list_ex (\<lambda>stem. case strip_prefix stem (to_ascii_lowercase token) of
                None \<Rightarrow> False
              | Some rest \<Rightarrow> rest = [] \<or> \<not> (is_ascii_alphanumeric (hd rest)) \<and> hd rest \<noteq> CHR ''_'')
       [''your'', ''you'']"

definition check_back_later_matches :: "stop_regexes \<Rightarrow> string \<Rightarrow> bool" where
  "check_back_later_matches rx line =
     (case sr_check_back rx line of
        None \<Rightarrow> False
      | Some None \<Rightarrow> True
      | Some (Some token) \<Rightarrow> \<not> is_user_pronoun token)"

definition PATTERN_LABELS :: "string list" where
  "PATTERN_LABELS = [''unable_to_proceed'', ''giving_up'', ''stopping_here'', ''agents_in_flight'', ''check_back_later'',
     ''verdict_line'', ''commit_push_pr'', ''ready_for_review'', ''please_deflection'']"

definition line_matches :: "stop_regexes \<Rightarrow> string \<Rightarrow> string \<Rightarrow> bool" where
  "line_matches rx label line =
     (if label = ''check_back_later'' then check_back_later_matches rx line
      else if List.member PATTERN_LABELS label then sr_is_match rx label line
      else False)"

definition normalise_line_endings :: "string \<Rightarrow> string" where
  "normalise_line_endings txt =
     (if CHR 0x0D \<in> set txt then replace_all [CHR 0x0D] [NL] (replace_all [CHR 0x0D, NL] [NL] txt) else txt)"

function split_sub :: "string \<Rightarrow> string \<Rightarrow> string list" where
  "split_sub sep s =
     (if sep = [] then [s]
      else case find_sub sep s of
        None \<Rightarrow> [s]
      | Some i \<Rightarrow> take i s # split_sub sep (drop (i + length sep) s))"
  by auto
termination
proof (relation "measure (\<lambda>(sep, s). length s)", simp, goal_cases)
  case (1 sep s i)
  then have "i \<le> length s" "starts_with sep (drop i s)" using find_sub_SomeD by auto
  then have "s \<noteq> []" using 1 by (auto simp: starts_with_iff)
  then show ?case using 1 by simp
qed

declare split_sub.simps [simp del]

definition last_non_empty_paragraph :: "string \<Rightarrow> string option" where
  "last_non_empty_paragraph txt =
     (let ps = filter (\<lambda>p. p \<noteq> []) (map trim (split_sub [NL, NL] txt)) in if ps = [] then None else Some (last ps))"

definition line_label :: "stop_regexes \<Rightarrow> string \<Rightarrow> string option" where
  "line_label rx line = List.find (\<lambda>label. line_matches rx label line) PATTERN_LABELS"

definition matched_stop_pattern :: "stop_regexes \<Rightarrow> string \<Rightarrow> string option" where
  "matched_stop_pattern rx txt =
     (case last_non_empty_paragraph (normalise_line_endings txt) of
        None \<Rightarrow> None
      | Some para \<Rightarrow>
          (case List.map_filter (line_label rx) (filter (\<lambda>line. line \<noteq> []) (map trim (lines para))) of
             [] \<Rightarrow> None
           | label # _ \<Rightarrow> Some label))"

subsection \<open>Preparing a continuation (goal.rs)\<close>

text \<open>
  What the preparation asks of the outside beyond the hosts of the gate and of the wave: the last text of the
  assistant, the status of the todo entries (whether each is open; None when the list cannot be read), the
  configured names and thresholds, and reading a file.
\<close>

record 'r continuation_host =
  ch_gate :: host
  ch_wave :: "'r wave_host"
  ch_assistant_text :: "Session \<Rightarrow> string option"
  ch_regexes :: stop_regexes
  ch_todos :: "bool list option"
  ch_todo_tool :: string
  ch_goal_tool :: string
  ch_planner_enabled :: bool
  ch_reverify_after :: nat
  ch_template :: string
  ch_nonce :: string
  ch_read :: "string \<Rightarrow> Session \<Rightarrow> string option"

record GoalContinuationPlan =
  gp_directive :: string
  gp_stop_pattern :: "string option"
  gp_strategy_rec :: "string option"

definition laziness_injection_active :: "Session \<Rightarrow> bool" where
  "laziness_injection_active s = (ss_harness_enabled s \<and> status_of s = Some Active)"

definition assistant_text_signals_premature_stop :: "'r continuation_host \<Rightarrow> Session \<Rightarrow> string option" where
  "assistant_text_signals_premature_stop h s = Option.bind (ch_assistant_text h s) (matched_stop_pattern (ch_regexes h))"

definition has_pending_goal_todos :: "'r continuation_host \<Rightarrow> bool" where
  "has_pending_goal_todos h = (case ch_todos h of Some items \<Rightarrow> list_ex id items | None \<Rightarrow> True)"

definition record_and_emit_premature_stop :: "env \<Rightarrow> string \<Rightarrow> Session \<Rightarrow> Session" where
  "record_and_emit_premature_stop e pattern = on_tracker (record_event e PrematureStopDetected (Some pattern))"

definition consume_strategist_note :: "string \<Rightarrow> Session \<Rightarrow> Session" where
  "consume_strategist_note delivered_rec =
     on_tracker (map_orchestration (\<lambda>g.
       if go_last_strategy_recommendation g = Some delivered_rec
       then g\<lparr>go_last_strategy_recommendation := None, go_last_strategy_path := None\<rparr> else g))"

text \<open>The slots that are read from the tracker under its lock; the wave may replace \<open>ready_wave\<close>.\<close>

definition tracker_slots :: "'r continuation_host \<Rightarrow> env \<Rightarrow> GoalOrchestration \<Rightarrow> directive_slots" where
  "tracker_slots h e g =
     (let plan_at = goal_reminder_plan_path (ch_planner_enabled h) g in
      \<lparr>ds_objective = go_objective g, ds_tokens = 0, ds_elapsed = format_elapsed (go_elapsed_ms g), ds_bail_preface = [],
       ds_plan_pointer = (case plan_at of Some p \<Rightarrow> ''Plan: '' @ p @ [NL, NL] | None \<Rightarrow> []),
       ds_verifier_gaps = (case go_last_classifier_gaps g of
          Some gaps \<Rightarrow> render_verifier_gaps_block gaps (ch_goal_tool h) | None \<Rightarrow> []),
       ds_strategist_note = (case go_last_strategy_recommendation g of
          Some rec \<Rightarrow> render_strategist_note (ch_nonce h) rec plan_at (go_last_strategy_path g) | None \<Rightarrow> []),
       ds_reverify_block = render_goal_reverify_block (go_rounds_since_verify g) (1 \<le> go_consecutive_not_achieved g)
          (ch_reverify_after h) (ch_goal_tool h),
       ds_ready_wave = render_ready_wave_block (go_criteria_view g), ds_next_step = [], ds_todo_tool = ch_todo_tool h,
       ds_goal_tool = ch_goal_tool h, ds_scratch_dir = implementer_scratch_dir e (go_verifier_id g),
       ds_scratch_ready = go_scratch_dir_ready g\<rparr>)"

definition prepare_goal_continuation ::
    "'r continuation_host \<Rightarrow> int \<Rightarrow> 'r wave_state \<Rightarrow> GoalContinuationPlan option \<times> 'r wave_state" where
  "prepare_goal_continuation h current_tokens w =
     (let e = ho_env (ch_gate h);
          w = on_session (ho_drain (ch_gate h) []) w;
          s = wv_session w
      in if \<not> laziness_injection_active s then (None, w)
         else
           let stop_pattern = (case assistant_text_signals_premature_stop h s of
                  Some pattern \<Rightarrow> if has_pending_goal_todos h then Some pattern else None | None \<Rightarrow> None);
               ((tokens_used, finished_marginal), s) = goal_tokens current_tokens s;
               (hit, s) = enforce_goal_token_budget e current_tokens s
           in if hit then (None, w\<lparr>wv_session := s\<rparr>)
              else
                let s = emit_goal_updated e s;
                    s = on_tracker (\<lambda>t. refresh_criteria_view (ss_plan_mtime s) (ss_plan s) (account_elapsed e t)) s;
                    s = on_tracker (map_orchestration (\<lambda>g. g\<lparr>go_rounds_since_verify := sat_add32 (go_rounds_since_verify g) 1\<rparr>)) s;
                    w = w\<lparr>wv_session := s\<rparr>
                in case gt_orchestration (ss_tracker s) of
                     None \<Rightarrow> (None, w)
                   | Some g \<Rightarrow>
                       let slots = tracker_slots h e g;
                           (report, w) = maybe_run_criterion_wave (ch_wave h) (go_objective g) (go_criteria_view g) w;
                           (ready_wave, w) = (case report of
                              Some r \<Rightarrow> (r, on_session (\<lambda>s. emit_goal_updated e (refresh_view (snd (goal_tokens current_tokens s)))) w)
                            | None \<Rightarrow> (ds_ready_wave slots, w));
                           plan_file = Option.bind (goal_reminder_plan_path (ch_planner_enabled h) g) (\<lambda>p. ch_read h p (wv_session w));
                           next_step = (case resolve_goal_next_step plan_file of
                              Some step \<Rightarrow> step
                            | None \<Rightarrow> ''Check your `'' @ ch_todo_tool h @ ''` list for next steps.'')
                       in (Some \<lparr>gp_directive = render_goal_continuation_directive (ch_template h)
                                   (slots\<lparr>ds_tokens := nat tokens_used,
                                          ds_bail_preface := (if stop_pattern \<noteq> None then GOAL_CONTINUATION_BAIL_PREFACE else []),
                                          ds_ready_wave := ready_wave, ds_next_step := next_step\<rparr>),
                                 gp_stop_pattern = stop_pattern,
                                 gp_strategy_rec = go_last_strategy_recommendation g\<rparr>, w))"

end
