(* ===== verification/Tag_Breaking.thy ===== *)
theory Tag_Breaking
  imports Plan_Amend
begin

text \<open>
  Sanitisers that break tags. Text a model wrote is shown to another model inside a frame of tags; a
  sanitiser replaces every occurrence of a tag by a text that looks like it and is not one. The locale
  \<open>tag_breaker\<close> is the contract between the tags and what replaces them under which a chain of such
  replacements leaves no tag behind: one replacement may not complete a tag that an earlier one removed.
\<close>

subsection \<open>Replacing, one position at a time\<close>

lemma replace_all_Nil [simp]: "old \<noteq> [] \<Longrightarrow> replace_all old new [] = []"
  by (simp add: replace_all.simps)

lemma replace_all_match: "old \<noteq> [] \<Longrightarrow> replace_all old new (old @ s) = new @ replace_all old new s"
proof -
  assume "old \<noteq> []"
  then obtain c cs where "old @ s = c # cs" "starts_with old (c # cs)" by (cases old) (auto simp: starts_with_iff)
  then have "find_sub old (old @ s) = Some 0" by simp
  then show ?thesis using \<open>old \<noteq> []\<close> by (subst replace_all.simps) simp
qed

lemma replace_all_skip:
  assumes "old \<noteq> []" and "\<not> starts_with old (c # cs)"
  shows "replace_all old new (c # cs) = c # replace_all old new cs"
proof -
  have "find_sub old (c # cs) = map_option Suc (find_sub old cs)" using assms by simp
  then show ?thesis using assms(1) by (cases "find_sub old cs") (simp_all add: replace_all.simps [of old new "c # cs"] replace_all.simps [of old new cs])
qed

lemma replace_all_cases:
  assumes "old \<noteq> []"
  obtains "s = []" | r where "s = old @ r" "replace_all old new s = new @ replace_all old new r"
  | c cs where "s = c # cs" "\<not> starts_with old s" "replace_all old new s = c # replace_all old new cs"
proof (cases "starts_with old s")
  case True
  then obtain r where "s = old @ r" by (auto simp: starts_with_iff)
  then show ?thesis using that(2) replace_all_match [OF assms] by blast
next
  case False
  then show ?thesis using that(1,3) replace_all_skip [OF assms] by (cases s) auto
qed

subsection \<open>The contract\<close>

lemma absent_Cons: "t \<noteq> [] \<Longrightarrow> \<not> contains_sub t (c # cs) \<longleftrightarrow> \<not> starts_with t (c # cs) \<and> \<not> contains_sub t cs"
  by (simp add: contains_sub_def)

text \<open>
  Every tag is an opening angle bracket and a tail without one; what a tag is replaced by begins with an
  angle bracket, and no angle bracket in it is followed by a character a tag goes on with.
\<close>

locale tag_breaker =
  fixes tags :: "string set" and broken :: "string \<Rightarrow> string"
  assumes tag_shape: "t \<in> tags \<Longrightarrow> \<exists>q. t = CHR ''<'' # q \<and> q \<noteq> [] \<and> CHR ''<'' \<notin> set q"
    and broken_opens: "t \<in> tags \<Longrightarrow> \<exists>w. broken t = CHR ''<'' # w"
    and broken_safe:
      "t \<in> tags \<Longrightarrow> u \<in> tags \<Longrightarrow> broken t = a @ CHR ''<'' # b \<Longrightarrow> b \<noteq> [] \<and> hd b \<noteq> hd (tl u)"
begin

lemma tag_nonempty: "t \<in> tags \<Longrightarrow> t \<noteq> []"
  using tag_shape by fastforce

text \<open>Breaking tags changes nothing before the first angle bracket.\<close>

lemma replaced_prefix:
  assumes "old \<in> tags" and "CHR ''<'' \<notin> set q"
  shows "starts_with q (replace_all old (broken old) s) \<longleftrightarrow> starts_with q s"
  using assms(2)
proof (induction q arbitrary: s)
  case Nil
  then show ?case by (simp add: starts_with_iff)
next
  case (Cons d q)
  have ne: "old \<noteq> []" using assms(1) tag_nonempty by blast
  show ?case
  proof (cases rule: replace_all_cases [OF ne, where s = s and new = "broken old"])
    case 1
    then show ?thesis using ne by simp
  next
    case (2 r)
    then show ?thesis using Cons.prems broken_opens [OF assms(1)] tag_shape [OF assms(1)] by (auto simp: starts_with_iff)
  next
    case (3 c cs)
    then show ?thesis using Cons by (auto simp: starts_with_def)
  qed
qed

lemma absent_append:
  assumes "u \<in> tags" and "\<And>a b. p = a @ CHR ''<'' # b \<Longrightarrow> b \<noteq> [] \<and> hd b \<noteq> hd (tl u)"
  shows "contains_sub u (p @ s) \<longleftrightarrow> contains_sub u s"
  using assms(2)
proof (induction p)
  case (Cons c p)
  have "\<not> starts_with u ((c # p) @ s)"
  proof
    assume "starts_with u ((c # p) @ s)"
    moreover obtain q where q: "u = CHR ''<'' # q" "q \<noteq> []" using tag_shape [OF assms(1)] by blast
    ultimately have "c = CHR ''<''" "\<exists>r. p @ s = q @ r" by (auto simp: starts_with_iff)
    then have "hd p = hd q" "p \<noteq> []" using Cons.prems [of "[]" p] q(2) by (auto simp: hd_append dest: arg_cong [of _ _ hd])
    then show False using Cons.prems [of "[]" p] \<open>c = CHR ''<''\<close> q(1) by simp
  qed
  moreover have "contains_sub u (p @ s) \<longleftrightarrow> contains_sub u s"
  proof (rule Cons.IH)
    fix a b assume "p = a @ CHR ''<'' # b"
    then show "b \<noteq> [] \<and> hd b \<noteq> hd (tl u)" using Cons.prems [of "c # a" b] by simp
  qed
  ultimately show ?case using tag_nonempty [OF assms(1)] absent_Cons [of u c "p @ s"] by simp
qed simp

lemma replace_breaks:
  assumes "old \<in> tags" and "u \<in> tags"
  shows "contains_sub u (replace_all old (broken old) s) \<Longrightarrow> u \<noteq> old \<and> contains_sub u s"
proof (induction s rule: length_induct)
  case (1 s)
  have ne: "old \<noteq> []" "u \<noteq> []" using assms tag_nonempty by blast+
  show ?case
  proof (cases rule: replace_all_cases [OF ne(1), where s = s and new = "broken old"])
    case 1
    then show ?thesis using "1.prems" ne by (simp add: contains_sub_def)
  next
    case (2 r)
    then have "contains_sub u (replace_all old (broken old) r)"
      using "1.prems" absent_append [OF assms(2), of "broken old"] broken_safe [OF assms] by simp
    then have "u \<noteq> old \<and> contains_sub u r" using "1.IH" [rule_format, of r] 2(1) ne(1) by simp
    then show ?thesis using 2(1) by (metis append.assoc contains_sub_iff)
  next
    case (3 c cs)
    show ?thesis
    proof (cases "starts_with u (replace_all old (broken old) s)")
      case True
      obtain q where q: "u = CHR ''<'' # q" "CHR ''<'' \<notin> set q" using tag_shape [OF assms(2)] by blast
      then have "c = CHR ''<''" "starts_with q (replace_all old (broken old) cs)" using True 3(3) by (auto simp: starts_with_iff)
      then have "starts_with u s" using replaced_prefix [OF assms(1) q(2)] q(1) 3(1) by (auto simp: starts_with_iff)
      then show ?thesis using 3(1,2) by (auto simp: contains_sub_def)
    next
      case False
      then have "contains_sub u (replace_all old (broken old) cs)" using "1.prems" 3(3) absent_Cons [OF ne(2), of c] by auto
      then show ?thesis using "1.IH" 3(1) absent_Cons [OF ne(2), of c cs] by auto
    qed
  qed
qed

text \<open>A chain of replacements, each done only where it is wanted, over text that lacks the tags not wanted.\<close>

lemma chain_breaks:
  assumes "set ts \<subseteq> tags" and "u \<in> tags" and "contains_sub u (foldl (\<lambda>s t. replace_all t (broken t) s) s ts)"
  shows "u \<notin> set ts \<and> contains_sub u s"
  using assms
proof (induction ts arbitrary: s)
  case (Cons t ts)
  then have "u \<notin> set ts \<and> contains_sub u (replace_all t (broken t) s)" by simp
  then show ?case using replace_breaks [of t u s] Cons.prems(1,2) by auto
qed simp

lemma chain_removes: "set ts \<subseteq> tags \<Longrightarrow> u \<in> set ts \<Longrightarrow> \<not> contains_sub u (foldl (\<lambda>s t. replace_all t (broken t) s) s ts)"
  using chain_breaks by blast

end

end
