(* ===== verification/Evidence.thy ===== *)
theory Evidence
  imports Directive
begin

text \<open>
  The evidence packet of the verification panel
  (\<^verbatim>\<open>crates/codegen/xai-grok-shell/src/session/goal_classifier/evidence.rs\<close>): the paths a diff touches, the packet
  every auditor gets, the sanitisers of the text in it, and the summary composed over several rounds. The
  capture of the diff itself (git, the walk over the workspace) is an argument of its users.
\<close>

subsection \<open>Cutting bytes at a character boundary\<close>

definition is_char_boundary :: "string \<Rightarrow> nat \<Rightarrow> bool" where
  "is_char_boundary s i \<longleftrightarrow> i = 0 \<or> i = length s \<or> i < length s \<and> \<not> utf8_cont (s ! i)"

fun boundary_below :: "string \<Rightarrow> nat \<Rightarrow> nat" where
  "boundary_below s 0 = 0"
| "boundary_below s (Suc n) = (if is_char_boundary s (Suc n) then Suc n else boundary_below s n)"

definition GOAL_CLASSIFIER_DIFF_MAX_BYTES :: nat where "GOAL_CLASSIFIER_DIFF_MAX_BYTES = 256 * 1024"

definition truncate_diff :: "string \<Rightarrow> string" where
  "truncate_diff raw =
     (if length raw \<le> GOAL_CLASSIFIER_DIFF_MAX_BYTES then raw
      else take (boundary_below raw GOAL_CLASSIFIER_DIFF_MAX_BYTES) raw
           @ [NL] @ ''... (diff truncated, '' @ show_nat (length raw - GOAL_CLASSIFIER_DIFF_MAX_BYTES)
           @ '' bytes elided) ...'' @ [NL])"

lemma boundary_below_le: "boundary_below s n \<le> n"
  by (induction s n rule: boundary_below.induct) auto

lemma boundary_below_boundary: "is_char_boundary s (boundary_below s n)"
  by (induction s n rule: boundary_below.induct) (auto simp: is_char_boundary_def)

subsection \<open>The changed files\<close>

definition rsplit_once :: "string \<Rightarrow> string \<Rightarrow> (string \<times> string) option" where
  "rsplit_once p s =
     map_option (\<lambda>i. (take (length s - i - length p) s, drop (length s - i) s)) (find_sub (rev p) (rev s))"

definition extract_changed_files :: "string \<Rightarrow> string list" where
  "extract_changed_files diff =
     remdups_adj (sort (filter (\<lambda>p. p \<noteq> [])
       (List.map_filter (\<lambda>rest. map_option snd (rsplit_once '' b/'' rest))
          (List.map_filter (strip_prefix ''diff --git '') (lines diff)))))"

abbreviation REPLACEMENT :: string where "REPLACEMENT \<equiv> [CHR 0xEF, CHR 0xBF, CHR 0xBD]"

text \<open>The control characters are those of ASCII and U+0080 to U+009F.\<close>

definition ascii_control :: "char \<Rightarrow> bool" where
  "ascii_control c \<longleftrightarrow> (of_char c :: nat) < 0x20 \<or> (of_char c :: nat) = 0x7F"

definition c1_control :: "char \<Rightarrow> bool" where
  "c1_control c \<longleftrightarrow> 0x80 \<le> (of_char c :: nat) \<and> (of_char c :: nat) < 0xA0"

definition line_breaking :: "string \<Rightarrow> nat option" where
  "line_breaking s =
     (case s of
        [] \<Rightarrow> None
      | c # cs \<Rightarrow>
          if ascii_control c then Some 1
          else if c = CHR 0xC2 \<and> cs \<noteq> [] \<and> c1_control (hd cs) then Some 2
          else if starts_with [CHR 0xE2, CHR 0x80, CHR 0xA8] s \<or> starts_with [CHR 0xE2, CHR 0x80, CHR 0xA9] s then Some 3
          else None)"

function sanitize_path_control_chars :: "string \<Rightarrow> string" where
  "sanitize_path_control_chars s =
     (case s of
        [] \<Rightarrow> []
      | c # cs \<Rightarrow>
          (case line_breaking s of
             Some n \<Rightarrow> REPLACEMENT @ sanitize_path_control_chars (drop n s)
           | None \<Rightarrow> c # sanitize_path_control_chars cs))"
  by auto
termination
  by (relation "measure length") (auto simp: line_breaking_def split: if_splits)

declare sanitize_path_control_chars.simps [simp del]

subsection \<open>The packet\<close>

definition SANITIZE_TAGS :: "string list" where
  "SANITIZE_TAGS = [''</system-reminder>'', ''</goal-state>'', ''</classifier-evidence>'', ''</changes>'', ''</final_response>'']"

definition escape_tag :: "string \<Rightarrow> string \<Rightarrow> string" where
  "escape_tag out t = (if contains_sub t out then replace_all t (''<<!--esc-->'' @ tl t) out else out)"

definition sanitize_final_response :: "string \<Rightarrow> string" where
  "sanitize_final_response txt =
     (if \<not> list_ex (\<lambda>t. contains_sub t txt) SANITIZE_TAGS then txt else foldl escape_tag txt SANITIZE_TAGS)"

datatype ChangesRef = ChangesFile string | ChangesUnavailable

definition CHANGES_UNAVAILABLE :: string where "CHANGES_UNAVAILABLE = ''(unavailable)''"
definition PLAN_UNAVAILABLE :: string where "PLAN_UNAVAILABLE = ''(unavailable)''"
definition PLAN_CHANGES_NONE :: string where "PLAN_CHANGES_NONE = ''(none)''"
definition CHANGED_FILES_MAX :: nat where "CHANGED_FILES_MAX = 300"

definition changed_file_line :: "string \<Rightarrow> string" where
  "changed_file_line path = ''- '' @ sanitize_final_response (sanitize_path_control_chars path) @ [NL]"

definition build_classifier_evidence_packet ::
    "string \<Rightarrow> ChangesRef \<Rightarrow> string list \<Rightarrow> string option \<Rightarrow> string option \<Rightarrow> string \<Rightarrow> string" where
  "build_classifier_evidence_packet objective changes changed_files plan_file plan_changes final_response =
     ''OBJECTIVE:'' @ [NL] @ objective
     @ [NL, NL] @ ''CHANGES_FILE: '' @ (case changes of ChangesFile p \<Rightarrow> p | ChangesUnavailable \<Rightarrow> CHANGES_UNAVAILABLE)
     @ [NL, NL] @ ''CHANGED_FILES:'' @ [NL]
     @ (if changed_files = [] then ''(none captured)'' @ [NL]
        else concat (map changed_file_line (take CHANGED_FILES_MAX changed_files))
             @ (if CHANGED_FILES_MAX < length changed_files
                then ''('' @ ELLIPSIS @ '' and '' @ show_nat (length changed_files - CHANGED_FILES_MAX) @ '' more)'' @ [NL]
                else []))
     @ [NL] @ ''PLAN_FILE: '' @ (case plan_file of Some p \<Rightarrow> p | None \<Rightarrow> PLAN_UNAVAILABLE)
     @ [NL, NL] @ ''PLAN_CHANGES:''
     @ (case plan_changes of
          Some diff \<Rightarrow> [NL] @ diff @ (if ends_with [NL] diff then [] else [NL])
        | None \<Rightarrow> '' '' @ PLAN_CHANGES_NONE @ [NL])
     @ [NL] @ ''FINAL_RESPONSE:'' @ [NL] @ final_response @ [NL]"

subsection \<open>The summary over several rounds\<close>

definition FIRST_FINAL_RESPONSE_MAX_CHARS :: nat where "FIRST_FINAL_RESPONSE_MAX_CHARS = 4096"

record ComposedFinalResponse =
  fr_to_send :: string
  fr_to_persist :: "string option"

definition compose_verifier_final_response :: "string option \<Rightarrow> string \<Rightarrow> ComposedFinalResponse" where
  "compose_verifier_final_response first current =
     (case first of
        None \<Rightarrow>
          \<lparr>fr_to_send = current,
           fr_to_persist = (if trim current = [] then None else Some (take_chars FIRST_FINAL_RESPONSE_MAX_CHARS current))\<rparr>
      | Some anchor \<Rightarrow>
          (let note = trim current in
           \<lparr>fr_to_send = (if note = [] \<or> note = trim anchor then anchor
                          else anchor @ [NL, NL] @ ''## Changes this round'' @ [NL] @ note),
            fr_to_persist = None\<rparr>))"

end
