(* ===== verification/Evidence_Correct.thy ===== *)
theory Evidence_Correct
  imports Evidence Tag_Breaking
begin

text \<open>
  The evidence packet cannot be steered by the workspace: the text of an agent closes no frame, and a file
  name stays on the line of its file.
\<close>

subsection \<open>Closing tags\<close>

definition escaped :: "string \<Rightarrow> string" where
  "escaped t = ''<<!--esc-->'' @ tl t"

interpretation evidence_frame: tag_breaker "set SANITIZE_TAGS" escaped
proof unfold_locales
  show "\<exists>q. t = CHR ''<'' # q \<and> q \<noteq> [] \<and> CHR ''<'' \<notin> set q" if "t \<in> set SANITIZE_TAGS" for t
    using that by (auto simp: SANITIZE_TAGS_def)
  show "\<exists>w. escaped t = CHR ''<'' # w" for t by (simp add: escaped_def)
  show "b \<noteq> [] \<and> hd b \<noteq> hd (tl u)" if "t \<in> set SANITIZE_TAGS" "u \<in> set SANITIZE_TAGS" "escaped t = a @ CHR ''<'' # b" for t u a b
  proof -
    have u: "hd (tl u) = CHR ''/''" using that(2) by (auto simp: SANITIZE_TAGS_def)
    have no: "CHR ''<'' \<notin> set (''!--esc-->'' @ tl t)" using that(1) by (auto simp: SANITIZE_TAGS_def)
    have e: "CHR ''<'' # CHR ''<'' # ''!--esc-->'' @ tl t = a @ CHR ''<'' # b" using that(3) by (simp add: escaped_def)
    show ?thesis
    proof (cases a rule: remdups_adj.cases)
      case (3 x y c)
      then have "''!--esc-->'' @ tl t = c @ CHR ''<'' # b" using e by simp
      then show ?thesis using no by (metis in_set_conv_decomp)
    qed (use e u in auto)
  qed
qed

lemma replace_all_absent: "\<not> contains_sub t s \<Longrightarrow> replace_all t new s = s"
  by (subst replace_all.simps) (auto simp: contains_sub_def split: option.split)

lemma escape_tag_eq: "escape_tag s t = replace_all t (escaped t) s"
  by (simp add: escape_tag_def escaped_def replace_all_absent)

lemma sanitize_chain: "sanitize_final_response s = foldl (\<lambda>s t. replace_all t (escaped t) s) s SANITIZE_TAGS"
proof -
  have "foldl (\<lambda>s t. replace_all t (escaped t) s) s ts = s" if "\<forall>t\<in>set ts. \<not> contains_sub t s" for ts
    using that by (induction ts) (simp_all add: replace_all_absent)
  then show ?thesis by (simp add: sanitize_final_response_def escape_tag_eq [abs_def] list_ex_iff)
qed

theorem sanitized_closes_nothing: "t \<in> set SANITIZE_TAGS \<Longrightarrow> \<not> contains_sub t (sanitize_final_response s)"
  unfolding sanitize_chain by (rule evidence_frame.chain_removes) simp_all

subsection \<open>One line per changed file\<close>

lemma set_replace_all: "set (replace_all old new s) \<subseteq> set s \<union> set new"
proof (induction old new s rule: replace_all.induct)
  case (1 old new s)
  show ?case
  proof (cases "old = [] \<or> find_sub old s = None")
    case True
    then show ?thesis by (subst replace_all.simps) auto
  next
    case False
    then obtain i where i: "old \<noteq> []" "find_sub old s = Some i" by auto
    from "1.IH" [OF this] i show ?thesis
      by (subst replace_all.simps) (auto dest: in_set_takeD in_set_dropD)
  qed
qed

lemma set_sanitize: "set (sanitize_final_response s) \<subseteq> set s \<union> (\<Union>t\<in>set SANITIZE_TAGS. set (escaped t))"
proof -
  have "set (foldl (\<lambda>s t. replace_all t (escaped t) s) s ts) \<subseteq> set s \<union> (\<Union>t\<in>set ts. set (escaped t))" for ts
  proof (induction ts arbitrary: s)
    case (Cons t ts)
    from Cons [of "replace_all t (escaped t) s"] set_replace_all [of t "escaped t" s] show ?case by auto
  qed simp
  then show ?thesis unfolding sanitize_chain .
qed

lemma no_control: "c \<in> set (sanitize_path_control_chars s) \<Longrightarrow> \<not> ascii_control c"
proof (induction s rule: sanitize_path_control_chars.induct)
  case (1 s)
  show ?case
  proof (cases s)
    case Nil
    then show ?thesis using "1.prems" by (simp add: sanitize_path_control_chars.simps [of "[]"])
  next
    case (Cons d s')
    show ?thesis
    proof (cases "line_breaking s")
      case None
      then have "\<not> ascii_control d" using Cons by (auto simp: line_breaking_def split: if_splits)
      moreover have "c = d \<or> c \<in> set (sanitize_path_control_chars s')"
        using "1.prems" None Cons by (subst (asm) sanitize_path_control_chars.simps) auto
      ultimately show ?thesis using "1.IH"(1) [OF Cons None] by blast
    next
      case (Some n)
      then have "c \<in> set REPLACEMENT \<or> c \<in> set (sanitize_path_control_chars (drop n s))"
        using "1.prems" Cons by (subst (asm) sanitize_path_control_chars.simps) auto
      moreover have "c \<in> set REPLACEMENT \<Longrightarrow> \<not> ascii_control c" by (auto simp: ascii_control_def)
      ultimately show ?thesis using "1.IH"(2) [OF Cons Some] by blast
    qed
  qed
qed

lemma file_line_clean:
  "NL \<notin> set (sanitize_final_response (sanitize_path_control_chars p))" "CR \<notin> set (sanitize_final_response (sanitize_path_control_chars p))"
proof -
  have "ascii_control NL" "ascii_control CR" by (simp_all add: ascii_control_def)
  then have "NL \<notin> set (sanitize_path_control_chars p)" "CR \<notin> set (sanitize_path_control_chars p)" using no_control by blast+
  moreover have "NL \<notin> (\<Union>t\<in>set SANITIZE_TAGS. set (escaped t))" "CR \<notin> (\<Union>t\<in>set SANITIZE_TAGS. set (escaped t))"
    by (auto simp: SANITIZE_TAGS_def escaped_def)
  ultimately show "NL \<notin> set (sanitize_final_response (sanitize_path_control_chars p))"
    "CR \<notin> set (sanitize_final_response (sanitize_path_control_chars p))"
    using set_sanitize [of "sanitize_path_control_chars p"] by blast+
qed

lemma strip_cr_absent: "CR \<notin> set l \<Longrightarrow> strip_cr l = l"
  by (metis last_in_set strip_cr_def)

text \<open>
  Whatever the names of the changed files, the section of the packet that lists them has exactly one line per file,
  in order, and none of these lines closes a frame: a file name cannot forge another section of the packet.
\<close>

theorem packet_one_line_per_file:
  "lines (concat (map changed_file_line files)) =
     map (\<lambda>p. ''- '' @ sanitize_final_response (sanitize_path_control_chars p)) files
   \<and> (\<forall>p. \<forall>t\<in>set SANITIZE_TAGS. \<not> contains_sub t (sanitize_final_response (sanitize_path_control_chars p)))"
proof -
  let ?l = "\<lambda>p. ''- '' @ sanitize_final_response (sanitize_path_control_chars p)"
  have "concat (map changed_file_line files) = unlines (map ?l files)"
    by (induction files) (simp_all add: changed_file_line_def)
  moreover have "strip_cr (?l p) = ?l p" for p
    by (rule strip_cr_absent) (use file_line_clean(2) [of p] in simp)
  then have "map strip_cr (map ?l files) = map ?l files" by simp
  moreover have "\<forall>l\<in>set (map ?l files). NL \<notin> set l" using file_line_clean(1) by auto
  ultimately show ?thesis using lines_unlines [of "map ?l files"] sanitized_closes_nothing by simp
qed

end
