(* ===== verification/Role_Spawn.thy ===== *)
theory Role_Spawn
  imports Directive Resumption
begin

text \<open>
  How the goal harness spawns the agents that play its roles: the tool names a role's prompt is
  rendered with (\<^verbatim>\<open>crates/codegen/xai-grok-shell/src/session/goal_role_tools.rs\<close>), the attempt on the configured
  model with one retry on the session's own (\<^verbatim>\<open>goal_planner.rs\<close>), and the request to the coordinator of
  agents (\<^verbatim>\<open>goal_classifier.rs\<close>).

  A spawn is a program over shared memory (\<open>act\<close>): the coordinator's answer is one access, in which the
  agent changes the files it changes. The coordinator is an argument.
\<close>

subsection \<open>Tool names\<close>

record RoleToolNames =
  tn_read :: string
  tn_list :: string
  tn_search :: string
  tn_write :: string
  tn_execute :: string
  tn_web_search :: string
  tn_web_fetch :: string
  tn_toolset_tools :: string

definition is_safe_tool_name :: "string \<Rightarrow> bool" where
  "is_safe_tool_name name \<longleftrightarrow> name \<noteq> [] \<and> list_all (\<lambda>c. is_ascii_alphanumeric c \<or> c \<in> set ''_-.'') name"

definition sanitized_tool_name :: "string option \<Rightarrow> string option" where
  "sanitized_tool_name name = opt_filter is_safe_tool_name name"

definition sanitized_or_default :: "string option \<Rightarrow> string \<Rightarrow> string" where
  "sanitized_or_default name fallback = (case sanitized_tool_name name of Some n \<Rightarrow> n | None \<Rightarrow> fallback)"

definition first_safe_tool_name :: "string option \<Rightarrow> string option \<Rightarrow> string option" where
  "first_safe_tool_name primary fallback =
     (case sanitized_tool_name primary of Some n \<Rightarrow> Some n | None \<Rightarrow> sanitized_tool_name fallback)"

definition from_parts ::
    "string option \<Rightarrow> string option \<Rightarrow> string option \<Rightarrow> string option \<Rightarrow> string option \<Rightarrow> string option \<Rightarrow> string option
     \<Rightarrow> string \<Rightarrow> RoleToolNames" where
  "from_parts read list search write execute web_search web_fetch toolset_tools =
     \<lparr>tn_read = sanitized_or_default read ''read_file'', tn_list = sanitized_or_default list ''list_dir'',
      tn_search = sanitized_or_default search ''grep'', tn_write = sanitized_or_default write ''write'',
      tn_execute = sanitized_or_default execute ''run_terminal_command'',
      tn_web_search = sanitized_or_default web_search ''web_search'',
      tn_web_fetch = sanitized_or_default web_fetch ''web_fetch'', tn_toolset_tools = toolset_tools\<rparr>"

definition inherit_defaults :: RoleToolNames where
  "inherit_defaults = from_parts None None None None None None None []"

definition from_parent ::
    "string option \<Rightarrow> string option \<Rightarrow> string option \<Rightarrow> string option \<Rightarrow> string option \<Rightarrow> string option \<Rightarrow> string option
     \<Rightarrow> string option \<Rightarrow> RoleToolNames" where
  "from_parent read list search write edit execute web_search web_fetch =
     from_parts read list search (first_safe_tool_name write edit) execute web_search web_fetch []"

text \<open>The kinds of tool a description of an agent type names; the hash map is an association list.\<close>

datatype ToolKind = KRead | KListDir | KSearch | KWrite | KEdit | KExecute | KWebSearch | KWebFetch | KOther string

definition enumerate_toolset_tools :: "(ToolKind \<times> string) list \<Rightarrow> string" where
  "enumerate_toolset_tools tool_names =
     (let names = filter is_safe_tool_name (map snd tool_names) in
      if names = [] then []
      else [NL, NL] @ ''Tools available to you for this review: ''
           @ join '', '' (map (\<lambda>n. [BACKTICK] @ n @ [BACKTICK]) (remdups_adj (sort names))) @ ''.'')"

definition from_summary :: "(ToolKind \<times> string) list \<Rightarrow> RoleToolNames" where
  "from_summary tool_names =
     (let get = map_of tool_names in
      from_parts (get KRead) (get KListDir) (get KSearch) (first_safe_tool_name (get KWrite) (get KEdit)) (get KExecute)
        (get KWebSearch) (get KWebFetch) (enumerate_toolset_tools tool_names))"

definition resolve_tool :: "RoleToolNames \<Rightarrow> string \<Rightarrow> string option" where
  "resolve_tool tn token =
     map_of [(''READ_TOOL'', tn_read tn), (''LIST_TOOL'', tn_list tn), (''SEARCH_TOOL'', tn_search tn),
             (''WRITE_TOOL'', tn_write tn), (''EXECUTE_TOOL'', tn_execute tn), (''WEB_SEARCH_TOOL'', tn_web_search tn),
             (''WEB_FETCH_TOOL'', tn_web_fetch tn), (''TOOLSET_TOOLS'', tn_toolset_tools tn)] token"

definition resolved_at :: "RoleToolNames \<Rightarrow> string \<Rightarrow> (string \<times> string) option" where
  "resolved_at tn after =
     (case find_index (\<lambda>c. c = CHR ''}'') after of
        Some close \<Rightarrow> map_option (\<lambda>value. (value, drop (close + 1) after)) (resolve_tool tn (take close after))
      | None \<Rightarrow> None)"

function apply_tool_names :: "RoleToolNames \<Rightarrow> string \<Rightarrow> string" where
  "apply_tool_names tn rest =
     (case find_index (\<lambda>c. c = CHR ''{'') rest of
        None \<Rightarrow> rest
      | Some brace \<Rightarrow>
          take brace rest
          @ (case resolved_at tn (drop (brace + 1) rest) of
               Some (value, beyond) \<Rightarrow> value @ apply_tool_names tn beyond
             | None \<Rightarrow> CHR ''{'' # apply_tool_names tn (drop (brace + 1) rest)))"
  by auto
termination
proof (relation "measure (\<lambda>(tn, rest). length rest)", simp, goal_cases)
  case (1 tn rest brace)
  then have "brace < length rest" using find_index_SomeD by blast
  then show ?case by simp
next
  case (2 tn rest brace v w beyond)
  then have "brace < length rest" using find_index_SomeD by blast
  moreover have "length beyond \<le> length (drop (brace + 1) rest)"
    using 2 by (auto simp: resolved_at_def split: option.splits)
  ultimately show ?case by simp
qed

declare apply_tool_names.simps [simp del]

subsection \<open>Spawning\<close>

record RoleSpawnOverride =
  so_model :: "string option"
  so_agent_type :: "string option"

definition is_explicit :: "RoleSpawnOverride \<Rightarrow> bool" where
  "is_explicit o' \<longleftrightarrow> so_model o' \<noteq> None \<or> so_agent_type o' \<noteq> None"

definition effective_role_model_id :: "string option \<Rightarrow> string \<Rightarrow> string" where
  "effective_role_model_id override_model parent = (case override_model of Some m \<Rightarrow> m | None \<Rightarrow> parent)"

record RoleRenderedPrompt =
  rp_primary :: string
  rp_fallback :: string

datatype SpawnError = TransportError string | RuntimeError string bool

fun spawn_cancelled :: "SpawnError \<Rightarrow> bool" where
  "spawn_cancelled (RuntimeError m c) = c"
| "spawn_cancelled (TransportError d) = False"

type_synonym spawned = "SpawnError + string"

text \<open>
  The retry, in the style of continuations: \<open>spawn\<close> is one attempt (model, harness, prompt), \<open>note\<close> the
  telemetry of the retry, \<open>k\<close> what follows.
\<close>

definition spawn_with_fail_open_retry ::
    "RoleSpawnOverride \<Rightarrow> ('s \<Rightarrow> 's) \<Rightarrow> RoleRenderedPrompt
     \<Rightarrow> (string option \<Rightarrow> string option \<Rightarrow> string \<Rightarrow> (spawned \<Rightarrow> ('s, 'r) act) \<Rightarrow> ('s, 'r) act)
     \<Rightarrow> (spawned \<Rightarrow> ('s, 'r) act) \<Rightarrow> ('s, 'r) act" where
  "spawn_with_fail_open_retry o' note prompt spawn k =
     (if \<not> is_explicit o' then spawn None None (rp_primary prompt) k
      else spawn (so_model o') (so_agent_type o') (rp_primary prompt)
             (\<lambda>first. case first of
                Inr text \<Rightarrow> k first
              | Inl e \<Rightarrow> if spawn_cancelled e then k first
                         else store note (spawn None None (rp_fallback prompt) k)))"

text \<open>The request an auditor is spawned with, and what its reply amounts to.\<close>

record ChannelSpawner =
  cs_parent_session_id :: string
  cs_parent_prompt_id :: "string option"
  cs_cwd :: "string option"

definition SKEPTIC_FORK_CONTEXT :: bool where "SKEPTIC_FORK_CONTEXT = False"
definition GOAL_ROLE_SUBAGENT_TYPE :: string where "GOAL_ROLE_SUBAGENT_TYPE = ''general-purpose''"
definition GOAL_CLASSIFIER_SUBAGENT_DESCRIPTION :: string where
  "GOAL_CLASSIFIER_SUBAGENT_DESCRIPTION = ''goal achievement skeptic''"

definition skeptic_request ::
    "ChannelSpawner \<Rightarrow> string \<Rightarrow> string option \<Rightarrow> string option \<Rightarrow> string option \<Rightarrow> string \<Rightarrow> SubagentRequest" where
  "skeptic_request sp i resume_from model harness prompt =
     \<lparr>sr_id = i, sr_prompt = prompt, sr_description = GOAL_CLASSIFIER_SUBAGENT_DESCRIPTION,
      sr_subagent_type = GOAL_ROLE_SUBAGENT_TYPE, sr_parent_session_id = cs_parent_session_id sp,
      sr_parent_prompt_id = cs_parent_prompt_id sp, sr_resume_from = resume_from, sr_cwd = cs_cwd sp,
      sr_runtime_overrides = default_overrides\<lparr>ov_model := model, ov_harness_agent_type := harness\<rparr>,
      sr_run_in_background = False, sr_surface_completion = False, sr_fork_context = SKEPTIC_FORK_CONTEXT\<rparr>"

fun spawn_result :: "spawn_reply \<Rightarrow> spawned" where
  "spawn_result SendFailed = Inl (TransportError ''subagent coordinator channel closed'')"
| "spawn_result ResultDropped = Inl (TransportError ''subagent result channel dropped'')"
| "spawn_result (Replied r) =
     (if \<not> rs_success r
      then Inl (RuntimeError (case rs_error r of Some m \<Rightarrow> m | None \<Rightarrow> ''unknown error'') (rs_cancelled r))
      else Inr (rs_output r))"

definition send_one ::
    "(SubagentRequest \<Rightarrow> 's \<Rightarrow> spawn_reply \<times> 's) \<Rightarrow> ChannelSpawner \<Rightarrow> string \<Rightarrow> string option
     \<Rightarrow> string option \<Rightarrow> string option \<Rightarrow> string \<Rightarrow> (spawned \<Rightarrow> ('s, 'r) act) \<Rightarrow> ('s, 'r) act" where
  "send_one coordinator sp i resume_from model harness prompt k =
     Access (\<lambda>s. case coordinator (skeptic_request sp i resume_from model harness prompt) s of
                  (reply, s') \<Rightarrow> (s', k (spawn_result reply)))"

subsection \<open>What the renderer keeps\<close>

lemma apply_tool_names_text:
  assumes "CHR ''{'' \<notin> set t"
  shows "apply_tool_names tn (t @ s) = t @ apply_tool_names tn s"
proof -
  have "find_index (\<lambda>c. c = CHR ''{'') (t @ s) = map_option (\<lambda>i. length t + i) (find_index (\<lambda>c. c = CHR ''{'') s)"
    using assms by (cases "find_index (\<lambda>c. c = CHR ''{'') s"; induction t) auto
  then show ?thesis
    by (subst (1 2) apply_tool_names.simps) (auto split: option.splits simp: add.commute)
qed

lemma apply_tool_names_slot:
  assumes "resolve_tool tn token = Some value" and "CHR ''}'' \<notin> set token"
  shows "apply_tool_names tn (''{'' @ token @ ''}'' @ s) = value @ apply_tool_names tn s"
proof -
  have "find_index (\<lambda>c. c = CHR ''}'') (token @ CHR ''}'' # s) = Some (length token)"
    using assms(2) by (induction token) auto
  then have "resolved_at tn (token @ CHR ''}'' # s) = Some (value, s)" using assms(1) by (simp add: resolved_at_def)
  then show ?thesis by (subst apply_tool_names.simps) simp
qed

lemma tool_names_safe: "is_safe_tool_name (sanitized_or_default name fallback) \<or> sanitized_or_default name fallback = fallback"
  by (auto simp: sanitized_or_default_def sanitized_tool_name_def opt_filter_Some_iff split: option.splits)

end
