(* ===== verification/Skeptic_Panel.thy ===== *)
theory Skeptic_Panel
  imports Role_Spawn Evidence
begin

text \<open>
  The adversarial verification panel of a goal
  (\<^verbatim>\<open>crates/codegen/xai-grok-shell/src/session/goal_classifier.rs\<close>): the artefact paths and their validation, the
  verdict an auditor leaves in a file or in its last message, the vote, the texts built from the
  refutations, and the stage that runs the panel.

  The state the auditors share is the file store and the log of events. An auditor is a program over
  that state (\<open>act\<close>), so that auditors that run at the same time interleave. The JSON reader, the
  coordinator of agents, the capture of the diff and the prompt texts are arguments.
\<close>

subsection \<open>Artefact paths\<close>

definition GOAL_CLASSIFIER_DETAILS_PATH_TEMPLATE :: string where
  "GOAL_CLASSIFIER_DETAILS_PATH_TEMPLATE = ''goal-classifier-{verifier_id}-{attempt}.md''"
definition GOAL_CLASSIFIER_CHANGES_PATH_TEMPLATE :: string where
  "GOAL_CLASSIFIER_CHANGES_PATH_TEMPLATE = ''goal-classifier-{verifier_id}-{attempt}.patch''"
definition GOAL_VERIFIER_VERDICT_PATH_TEMPLATE :: string where
  "GOAL_VERIFIER_VERDICT_PATH_TEMPLATE = ''goal-verdict-{verifier_id}-{attempt}-{skeptic_idx}.json''"
definition GOAL_VERIFIER_DETAILS_PATH_TEMPLATE :: string where
  "GOAL_VERIFIER_DETAILS_PATH_TEMPLATE = ''goal-classifier-{verifier_id}-{attempt}-skeptic-{skeptic_idx}.md''"

definition scratch_rooted :: "env \<Rightarrow> string \<Rightarrow> string \<Rightarrow> string" where
  "scratch_rooted e verifier_id name = path_join (goal_scratch_root e verifier_id) name"

definition stage_path :: "env \<Rightarrow> string \<Rightarrow> string \<Rightarrow> nat \<Rightarrow> string" where
  "stage_path e tmpl verifier_id attempt =
     scratch_rooted e verifier_id
       (replace_all ''{attempt}'' (show_nat attempt) (replace_all ''{verifier_id}'' verifier_id tmpl))"

definition format_details_path :: "env \<Rightarrow> string \<Rightarrow> nat \<Rightarrow> string" where
  "format_details_path e = stage_path e GOAL_CLASSIFIER_DETAILS_PATH_TEMPLATE"

definition format_changes_path :: "env \<Rightarrow> string \<Rightarrow> nat \<Rightarrow> string" where
  "format_changes_path e = stage_path e GOAL_CLASSIFIER_CHANGES_PATH_TEMPLATE"

definition skeptic_path :: "env \<Rightarrow> string \<Rightarrow> string \<Rightarrow> nat \<Rightarrow> nat \<Rightarrow> string" where
  "skeptic_path e tmpl verifier_id attempt skeptic_idx =
     scratch_rooted e verifier_id
       (replace_all ''{skeptic_idx}'' (show_nat skeptic_idx)
          (replace_all ''{attempt}'' (show_nat attempt) (replace_all ''{verifier_id}'' verifier_id tmpl)))"

definition format_verdict_path :: "env \<Rightarrow> string \<Rightarrow> nat \<Rightarrow> nat \<Rightarrow> string" where
  "format_verdict_path e = skeptic_path e GOAL_VERIFIER_VERDICT_PATH_TEMPLATE"

definition format_verifier_details_path :: "env \<Rightarrow> string \<Rightarrow> nat \<Rightarrow> nat \<Rightarrow> string" where
  "format_verifier_details_path e = skeptic_path e GOAL_VERIFIER_DETAILS_PATH_TEMPLATE"

datatype PathValidationError = UnsafeComponent | UnresolvedSubstitution | OutsideAllowedPrefix

definition validate_details_path_in_root :: "string \<Rightarrow> string \<Rightarrow> PathValidationError option" where
  "validate_details_path_in_root path temp_root =
     (if contains_sub ''..'' path \<or> CHR 0x00 \<in> set path then Some UnsafeComponent
      else if list_ex (\<lambda>p. starts_with p path) [''/etc'', ''/proc'', ''/sys'', ''/dev''] then Some UnsafeComponent
      else if starts_with ''~'' path then Some UnsafeComponent
      else if contains_sub ''${'' path \<or> CHR ''{'' \<in> set path \<or> CHR ''}'' \<in> set path then Some UnresolvedSubstitution
      else if \<not> path_starts_with path temp_root then Some OutsideAllowedPrefix
      else None)"

definition validate_details_path :: "env \<Rightarrow> string \<Rightarrow> PathValidationError option" where
  "validate_details_path e path = validate_details_path_in_root path (env_temp_dir e)"

subsection \<open>Assigning models to the panel\<close>

definition GOAL_VERIFIER_SKEPTIC_MIN :: nat where "GOAL_VERIFIER_SKEPTIC_MIN = 1"
definition GOAL_VERIFIER_SKEPTIC_MAX :: nat where "GOAL_VERIFIER_SKEPTIC_MAX = 5"

definition expand_skeptic_assignment :: "GoalRoleModel list \<Rightarrow> GoalRoleModel list \<Rightarrow> nat \<Rightarrow> GoalRoleModel list" where
  "expand_skeptic_assignment existing pool n =
     (if pool = [] \<or> n \<le> length existing then existing
      else existing @ map (\<lambda>i. pool ! (i mod length pool)) [length existing..<n])"

subsection \<open>One verdict\<close>

text \<open>\<^verbatim>\<open>trim_end_matches\<close> with a set of characters.\<close>

definition trim_end_set :: "char list \<Rightarrow> string \<Rightarrow> string" where
  "trim_end_set cs s = rev (dropWhile (\<lambda>c. c \<in> set cs) (rev s))"

definition parse_skeptic_terminal_response :: "string \<Rightarrow> bool option" where
  "parse_skeptic_terminal_response txt =
     (let ls = filter (\<lambda>l. l \<noteq> [])
                 (map (\<lambda>l. trim (trim_end_set ''.!'' (trim_matches BACKTICK l)))
                    (filter (\<lambda>l. \<not> starts_with [BACKTICK, BACKTICK, BACKTICK] l) (map trim (lines txt))))
      in if ls = [''Refuted''] then Some True else if ls = [''Not Refuted''] then Some False else None)"

datatype SkepticConfidence = High | Medium | Low | Unknown

definition confidence_parse :: "string \<Rightarrow> SkepticConfidence" where
  "confidence_parse s =
     (let t = to_ascii_lowercase (trim s) in
      if t = ''high'' then High else if t = ''medium'' then Medium else if t = ''low'' then Low else Unknown)"

fun confidence_str :: "SkepticConfidence \<Rightarrow> string" where
  "confidence_str High = ''high''"
| "confidence_str Medium = ''medium''"
| "confidence_str Low = ''low''"
| "confidence_str Unknown = ''unknown''"

fun confidence_rank :: "SkepticConfidence \<Rightarrow> nat" where
  "confidence_rank High = 0"
| "confidence_rank Medium = 1"
| "confidence_rank Low = 2"
| "confidence_rank Unknown = 3"

datatype SkepticBlocking = NotBlocking | Contradiction | Unverifiable

definition blocking_parse :: "string \<Rightarrow> SkepticBlocking" where
  "blocking_parse s =
     (let t = to_ascii_lowercase (trim s) in
      if t = ''contradiction'' then Contradiction else if t = ''unverifiable'' then Unverifiable else NotBlocking)"

definition is_blocking :: "SkepticBlocking \<Rightarrow> bool" where
  "is_blocking b \<longleftrightarrow> b \<noteq> NotBlocking"

record Finding =
  fi_kind :: string
  fi_location :: string
  fi_criterion :: "nat option"
  fi_detail :: string

definition first_integer_u64 :: "string \<Rightarrow> nat option" where
  "first_integer_u64 s =
     (case find_index is_ascii_digit s of
        None \<Rightarrow> None
      | Some start \<Rightarrow>
          (let rest = drop start s;
               finish = (case find_index (\<lambda>c. \<not> is_ascii_digit c) rest of Some i \<Rightarrow> i | None \<Rightarrow> length rest)
           in parse_uint u64_max (take finish rest)))"

definition deserialize_criterion :: "json \<Rightarrow> nat option" where
  "deserialize_criterion v =
     opt_filter (\<lambda>n. n \<le> u32_max \<and> 0 < n)
       (case v of JNumber n \<Rightarrow> n | JString s \<Rightarrow> first_integer_u64 s | _ \<Rightarrow> None)"

definition finding_is_empty :: "Finding \<Rightarrow> bool" where
  "finding_is_empty f \<longleftrightarrow> trim (fi_kind f) = [] \<and> trim (fi_location f) = [] \<and> trim (fi_detail f) = []"

record SkepticVerdict =
  sv_refuted :: bool
  sv_evidence :: string
  sv_confidence :: SkepticConfidence
  sv_blocking :: SkepticBlocking
  sv_details_md :: string
  sv_findings :: "Finding list"

text \<open>
  What the JSON reader gives back: every field optional, and the criterion of a finding still a JSON
  value (absent is \<open>None\<close>), which \<open>deserialize_criterion\<close> reads.
\<close>

record FindingRaw =
  fw_kind :: string
  fw_location :: string
  fw_criterion :: "json option"
  fw_detail :: string

record SkepticVerdictRaw =
  vw_refuted :: "bool option"
  vw_evidence :: "string option"
  vw_confidence :: "string option"
  vw_blocking :: "string option"
  vw_details_md :: "string option"
  vw_findings :: "FindingRaw list option"

definition finding_of :: "FindingRaw \<Rightarrow> Finding" where
  "finding_of w = \<lparr>fi_kind = fw_kind w, fi_location = fw_location w,
                   fi_criterion = Option.bind (fw_criterion w) deserialize_criterion, fi_detail = fw_detail w\<rparr>"

definition parse_verdict_json :: "(string \<Rightarrow> SkepticVerdictRaw option) \<Rightarrow> string \<Rightarrow> SkepticVerdict option" where
  "parse_verdict_json from_str body =
     Option.bind (from_str (trim body)) (\<lambda>raw.
     Option.bind (vw_refuted raw) (\<lambda>refuted.
     Option.bind (vw_evidence raw) (\<lambda>evidence.
     if trim evidence = [] then None
     else Option.bind (vw_confidence raw) (\<lambda>confidence.
       Some \<lparr>sv_refuted = refuted, sv_evidence = evidence, sv_confidence = confidence_parse confidence,
             sv_blocking = (case vw_blocking raw of Some b \<Rightarrow> blocking_parse b | None \<Rightarrow> NotBlocking),
             sv_details_md = (case vw_details_md raw of Some d \<Rightarrow> d | None \<Rightarrow> []),
             sv_findings = filter (\<lambda>f. \<not> finding_is_empty f)
                             (map finding_of (case vw_findings raw of Some fs \<Rightarrow> fs | None \<Rightarrow> []))\<rparr>))))"

record SkepticResult =
  sk_idx :: nat
  sk_refuted :: bool
  sk_confidence :: SkepticConfidence
  sk_blocking :: SkepticBlocking
  sk_evidence :: string
  sk_findings :: "Finding list"
  sk_fallback_note :: "string option"
  sk_latency_ms :: nat

subsection \<open>The vote\<close>

definition cold :: "SkepticResult list \<Rightarrow> SkepticResult list" where
  "cold results = filter (\<lambda>r. 1 \<le> sk_idx r) results"

definition aggregate_skeptic_verdicts :: "SkepticResult list \<Rightarrow> nat \<times> nat \<times> bool" where
  "aggregate_skeptic_verdicts results =
     (let seats = length results in
      if seats = 0 then (0, 0, False)
      else
        let refuted_count = length (filter sk_refuted results);
            (needed, not_refuted) =
              (if seats \<le> 1 then (1, seats - refuted_count)
               else (length (cold results) div 2 + 1, length (filter (\<lambda>r. \<not> sk_refuted r) (cold results))))
        in (refuted_count, seats, needed \<le> not_refuted))"

subsection \<open>Texts built from the refutations\<close>

definition GAPS_EVIDENCE_MAX_CHARS :: nat where "GAPS_EVIDENCE_MAX_CHARS = 800"
definition PRIOR_GAPS_MAX_CHARS :: nat where "PRIOR_GAPS_MAX_CHARS = 4000"
definition GAPS_MAX_FINDINGS :: nat where "GAPS_MAX_FINDINGS = 12"

definition sanitize_evidence :: "string \<Rightarrow> string" where
  "sanitize_evidence evidence = neutralize_reminder_tags (cap_chars (trim evidence) GAPS_EVIDENCE_MAX_CHARS)"

definition sanitize_prior_gaps :: "string \<Rightarrow> string" where
  "sanitize_prior_gaps gaps = neutralize_reminder_tags (cap_chars (trim gaps) PRIOR_GAPS_MAX_CHARS)"

definition render_finding :: "Finding \<Rightarrow> string" where
  "render_finding f =
     (let kind = (if trim (fi_kind f) = [] then ''finding'' else trim (fi_kind f));
          loc = trim (fi_location f);
          detail = trim (fi_detail f);
          tail = kind @ (if loc = [] then [] else '' '' @ MIDDLE_DOT @ '' '' @ loc)
                      @ (if detail = [] then [] else '' '' @ EM_DASH @ '' '' @ detail)
      in case fi_criterion f of
           Some c \<Rightarrow> ''criterion '' @ show_nat c @ '' '' @ MIDDLE_DOT @ '' '' @ sanitize_evidence tail
         | None \<Rightarrow> sanitize_evidence tail)"

definition render_refuter_bullet :: "SkepticResult \<Rightarrow> string" where
  "render_refuter_bullet r =
     (let header = ''- [skeptic '' @ show_nat (sk_idx r) @ '', '' @ confidence_str (sk_confidence r) @ '']'' in
      if sk_findings r \<noteq> [] then
        header @ [NL] @ join [NL] (map (\<lambda>f. ''  - '' @ render_finding f) (take GAPS_MAX_FINDINGS (sk_findings r)))
      else if trim (sk_evidence r) \<noteq> [] then header @ '' '' @ sanitize_evidence (trim (sk_evidence r))
      else case sk_fallback_note r of
             Some note \<Rightarrow> ''- [skeptic '' @ show_nat (sk_idx r) @ ''] no verdict produced: '' @ sanitize_evidence note
           | None \<Rightarrow> ''- [skeptic '' @ show_nat (sk_idx r) @ ''] refuted (no evidence)'')"

definition refuters_by_confidence :: "SkepticResult list \<Rightarrow> SkepticResult list" where
  "refuters_by_confidence results = sort_key (\<lambda>r. confidence_rank (sk_confidence r)) (filter sk_refuted results)"

definition build_gaps_summary :: "SkepticResult list \<Rightarrow> string" where
  "build_gaps_summary results = join [NL] (map render_refuter_bullet (refuters_by_confidence results))"

definition build_gaps_findings :: "SkepticResult list \<Rightarrow> ClassifierFinding list" where
  "build_gaps_findings results =
     concat (map (\<lambda>r. map (\<lambda>f. \<lparr>cf_criterion = fi_criterion f, cf_message = render_finding f\<rparr>)
                          (take GAPS_MAX_FINDINGS (sk_findings r)))
               (refuters_by_confidence results))"

definition PAUSE_GROUP_FIXABLE :: string where "PAUSE_GROUP_FIXABLE = ''Model-fixable gaps''"
definition PAUSE_GROUP_CONTRADICTION :: string where "PAUSE_GROUP_CONTRADICTION = ''Contradictions (objective/plan conflict)''"
definition PAUSE_GROUP_UNVERIFIABLE :: string where "PAUSE_GROUP_UNVERIFIABLE = ''Unverifiable in this environment''"

definition pause_group :: "SkepticResult list \<Rightarrow> SkepticBlocking \<times> string \<Rightarrow> string option" where
  "pause_group refuters g =
     (case g of (class, header) \<Rightarrow>
        let bullets = map render_refuter_bullet (filter (\<lambda>r. sk_blocking r = class) refuters) in
        if bullets = [] then None else Some (header @ '':'' @ [NL] @ join [NL] bullets))"

definition build_pause_summary :: "SkepticResult list \<Rightarrow> string" where
  "build_pause_summary results =
     join [NL] (List.map_filter (pause_group (refuters_by_confidence results))
       [(NotBlocking, PAUSE_GROUP_FIXABLE), (Contradiction, PAUSE_GROUP_CONTRADICTION),
        (Unverifiable, PAUSE_GROUP_UNVERIFIABLE)])"

subsection \<open>The stall fingerprint\<close>

definition SCRATCH_MARKERS :: "string list" where
  "SCRATCH_MARKERS = [''/tmp/'', ''/var/folders/'', ''/private/tmp/'']"

definition has_scratch :: "string \<Rightarrow> bool" where
  "has_scratch t \<longleftrightarrow> list_ex (\<lambda>m. contains_sub m t) SCRATCH_MARKERS"

definition normalize_scratch_paths :: "string \<Rightarrow> string" where
  "normalize_scratch_paths txt =
     (if \<not> has_scratch txt then txt
      else join '' '' (map (\<lambda>tok. if has_scratch tok then ''<scratch>'' else tok) (split_whitespace txt)))"

definition refuter_fingerprint_source :: "SkepticResult \<Rightarrow> string" where
  "refuter_fingerprint_source r =
     (if trim (sk_evidence r) = [] then (case sk_fallback_note r of Some n \<Rightarrow> n | None \<Rightarrow> []) else sk_evidence r)"

text \<open>
  Trimming the characters around a word that are not part of a citation; the bytes of a character outside
  ASCII are all trimmed. Splitting on single whitespace characters yields the words of
  \<open>split_whitespace\<close> and empty pieces, which hold no citation.
\<close>

definition citation_char :: "char \<Rightarrow> bool" where
  "citation_char c \<longleftrightarrow> is_ascii_alphanumeric c \<or> c \<in> set ''./_-:''"

definition trim_citation :: "string \<Rightarrow> string" where
  "trim_citation raw =
     rev (dropWhile (\<lambda>c. \<not> citation_char c) (rev (dropWhile (\<lambda>c. \<not> citation_char c) raw)))"

definition split_once :: "char \<Rightarrow> string \<Rightarrow> (string \<times> string) option" where
  "split_once c s = map_option (\<lambda>i. (take i s, drop (i + 1) s)) (find_index (\<lambda>d. d = c) s)"

definition citation_token :: "string \<Rightarrow> string option" where
  "citation_token raw =
     Option.bind (split_once (CHR '':'') (trim_citation raw)) (\<lambda>(path, rest).
       let line = hd (split_on (CHR '':'') rest) in
       if path \<noteq> [] \<and> (CHR ''/'' \<in> set path \<or> CHR ''.'' \<in> set path) \<and> line \<noteq> [] \<and> list_all is_ascii_digit line
       then Some (to_ascii_lowercase path @ '':'' @ line) else None)"

definition extract_path_line_tokens :: "string \<Rightarrow> string list" where
  "extract_path_line_tokens txt = List.map_filter citation_token (split_whitespace txt)"

definition gap_fingerprint :: "string list \<Rightarrow> string" where
  "gap_fingerprint raw_evidence =
     (let normalized = map normalize_scratch_paths raw_evidence;
          cited = concat (map extract_path_line_tokens normalized);
          tokens = (if cited = [] then filter (\<lambda>e. e \<noteq> []) (map (\<lambda>e. to_ascii_lowercase (trim e)) normalized) else cited)
      in join [NL] (remdups_adj (sort tokens)))"

subsection \<open>The goal kind of a plan\<close>

datatype GoalKind = CodeChange | Analysis | Research

definition trim_set :: "char list \<Rightarrow> string \<Rightarrow> string" where
  "trim_set cs s = trim_end_set cs (dropWhile (\<lambda>c. c \<in> set cs) s)"

definition goal_kind_value :: "string \<Rightarrow> string" where
  "goal_kind_value line = trim (trim_set (BACKTICK # ''*_'') (trim line))"

definition goal_kind_of :: "string \<Rightarrow> GoalKind option" where
  "goal_kind_of v =
     (let t = map (\<lambda>c. if c = CHR '' '' \<or> c = CHR ''_'' then CHR ''-'' else c) (to_ascii_lowercase v) in
      if t = ''code-change'' then Some CodeChange else if t = ''analysis'' then Some Analysis
      else if t = ''research'' then Some Research else None)"

fun goal_kind_loop :: "string list \<Rightarrow> GoalKind option" where
  "goal_kind_loop [] = None"
| "goal_kind_loop (line # ls) =
     (if \<not> eq_ignore_ascii_case (trim line) ''## Goal kind'' then goal_kind_loop ls
      else case dropWhile (\<lambda>l. goal_kind_value l = []) ls of
             [] \<Rightarrow> None
           | l # _ \<Rightarrow> goal_kind_of (goal_kind_value l))"

definition parse_goal_kind :: "string \<Rightarrow> GoalKind option" where
  "parse_goal_kind plan = goal_kind_loop (lines plan)"

subsection \<open>The state and the world of the panel\<close>

datatype GoalClassifierFailOpenReason = Timeout | SamplerError | Aborted | FileWriteFailed | GoalNotActiveAtResolve

fun fail_open_str :: "GoalClassifierFailOpenReason \<Rightarrow> string" where
  "fail_open_str Timeout = ''timeout''"
| "fail_open_str SamplerError = ''sampler_error''"
| "fail_open_str Aborted = ''aborted''"
| "fail_open_str FileWriteFailed = ''file_write_failed''"
| "fail_open_str GoalNotActiveAtResolve = ''goal_not_active_at_resolve''"

datatype panel_event =
    GoalClassifierFired nat nat string
  | GoalClassifierFailOpen string nat nat
  | GoalVerifierSkepticVerdict nat nat bool string nat
  | GoalVerifierAggregateVerdict nat nat nat bool
  | GoalClassifierVerdictEvent GoalClassifierVerdict nat nat
  | GoalRoleModelFailOpen nat

record panel_state =
  pn_files :: "string \<Rightarrow> string option"
  pn_events :: "panel_event list"

text \<open>
  \<open>ph_coordinator\<close> runs an agent: it answers and changes files. \<open>ph_capture\<close> captures the diff against a
  baseline commit (the patch and the changed files), \<open>ph_git_diff\<close> compares two files (exit code and
  output), \<open>ph_skeptic_env\<close> is the environment an auditor finds when it secures its directories, and
  \<open>ph_clock\<close>, \<open>ph_ids\<close> are the clock readings and the fresh identifiers.
\<close>

record panel_host =
  ph_env :: env
  ph_skeptic_env :: "nat \<Rightarrow> env"
  ph_root_error :: string
  ph_coordinator :: "SubagentRequest \<Rightarrow> panel_state \<Rightarrow> spawn_reply \<times> panel_state"
  ph_spawner :: ChannelSpawner
  ph_overrides :: "RoleSpawnOverride list"
  ph_from_json :: "string \<Rightarrow> SkepticVerdictRaw option"
  ph_writable :: "string \<Rightarrow> bool"
  ph_capture :: "string option \<Rightarrow> panel_state \<Rightarrow> (string \<times> string list) option"
  ph_git_diff :: "string \<Rightarrow> string \<Rightarrow> panel_state \<Rightarrow> (int option \<times> string) option"
  ph_cold_template :: string
  ph_resume_template :: string
  ph_lens :: "GoalKind \<Rightarrow> string"
  ph_clock :: "nat \<Rightarrow> nat"
  ph_ids :: "nat \<Rightarrow> string"

definition emit_event :: "panel_event \<Rightarrow> panel_state \<Rightarrow> panel_state" where
  "emit_event ev s = s\<lparr>pn_events := pn_events s @ [ev]\<rparr>"

definition write_file :: "panel_host \<Rightarrow> string \<Rightarrow> string \<Rightarrow> panel_state \<Rightarrow> panel_state" where
  "write_file h path body s = (if ph_writable h path then s\<lparr>pn_files := (pn_files s)(path \<mapsto> body)\<rparr> else s)"

subsection \<open>The prompt of an auditor\<close>

record SkepticInputs =
  si_objective :: string
  si_final_response :: string
  si_plan_file :: "string option"
  si_plan_changes :: "string option"
  si_changes_ref :: ChangesRef
  si_changed_files :: "string list"
  si_verifier_id :: string
  si_attempt :: nat
  si_kind_lens :: string
  si_implementer_scratch :: string
  si_scratch_dir_ready :: bool
  si_prior_gaps :: "string option"

definition prior_gaps_rendered :: "string option \<Rightarrow> string" where
  "prior_gaps_rendered prior_gaps =
     (case prior_gaps of
        Some g \<Rightarrow> if trim g \<noteq> [] then sanitize_prior_gaps g else ''(none '' @ EM_DASH @ '' first verification round)''
      | None \<Rightarrow> ''(none '' @ EM_DASH @ '' first verification round)'')"

definition render_verifier_prompt ::
    "string \<Rightarrow> SkepticInputs \<Rightarrow> string \<Rightarrow> string \<Rightarrow> string \<Rightarrow> RoleToolNames \<Rightarrow> bool \<Rightarrow> string" where
  "render_verifier_prompt tmpl i details_path verdict_path skeptic_scratch tool_names scratch_ready =
     (let user_prompt = build_classifier_evidence_packet (si_objective i) (si_changes_ref i) (si_changed_files i)
                          (si_plan_file i) (si_plan_changes i) (si_final_response i);
          status = (if scratch_ready then ''Both dirs have been created for you.''
                    else ''Create your own scratch dir with `mkdir -p` if it is missing.'');
          rendered = foldl (\<lambda>t (slot, v). replace_all slot v t) tmpl
            [(''{KIND_LENS}'', si_kind_lens i), (''{DETAILS_FILE}'', details_path), (''{VERDICT_FILE}'', verdict_path),
             (''{SKEPTIC_SCRATCH}'', skeptic_scratch), (''{IMPLEMENTER_SCRATCH}'', si_implementer_scratch i),
             (''{SCRATCH_STATUS}'', status), (''{PRIOR_GAPS}'', prior_gaps_rendered (si_prior_gaps i))]
      in apply_tool_names tool_names rendered @ [NL, NL] @ user_prompt)"

subsection \<open>One auditor\<close>

definition skeptic_failure :: "nat \<Rightarrow> string \<Rightarrow> nat \<Rightarrow> SkepticResult" where
  "skeptic_failure idx note latency_ms =
     \<lparr>sk_idx = idx, sk_refuted = True, sk_confidence = Unknown, sk_blocking = NotBlocking, sk_evidence = [], sk_findings = [],
      sk_fallback_note = Some note, sk_latency_ms = latency_ms\<rparr>"

definition elapsed_ms :: "nat \<Rightarrow> nat \<Rightarrow> nat" where
  "elapsed_ms started now = (now - started) mod 2 ^ 64"

definition fail_with :: "nat \<Rightarrow> string \<Rightarrow> nat \<Rightarrow> (panel_state, SkepticResult) act" where
  "fail_with idx note started = Clock (\<lambda>now. Ret (skeptic_failure idx note (elapsed_ms started now)))"

definition vote_of :: "nat \<Rightarrow> SkepticVerdict \<Rightarrow> nat \<Rightarrow> SkepticResult" where
  "vote_of idx v latency_ms =
     \<lparr>sk_idx = idx, sk_refuted = sv_refuted v, sk_confidence = sv_confidence v, sk_blocking = sv_blocking v,
      sk_evidence = sv_evidence v, sk_findings = sv_findings v, sk_fallback_note = None, sk_latency_ms = latency_ms\<rparr>"

definition token_vote :: "nat \<Rightarrow> string \<Rightarrow> nat \<Rightarrow> SkepticResult" where
  "token_vote idx terminal latency_ms =
     (case parse_skeptic_terminal_response terminal of
        Some refuted \<Rightarrow>
          \<lparr>sk_idx = idx, sk_refuted = refuted, sk_confidence = Unknown, sk_blocking = NotBlocking, sk_evidence = [],
           sk_findings = [], sk_fallback_note = Some ''verdict JSON missing/malformed; used terminal token'',
           sk_latency_ms = latency_ms\<rparr>
      | None \<Rightarrow>
          skeptic_failure idx
            (''verdict JSON missing/malformed AND terminal token unrecognised: '' @ take_chars 120 terminal) latency_ms)"

definition read_skeptic_verdict ::
    "panel_host \<Rightarrow> nat \<Rightarrow> string \<Rightarrow> string \<Rightarrow> string \<Rightarrow> nat \<Rightarrow> (panel_state, SkepticResult) act" where
  "read_skeptic_verdict h idx details_raw verdict_raw terminal started =
     load (\<lambda>s. pn_files s verdict_raw) (\<lambda>json_body.
       case Option.bind json_body (parse_verdict_json (ph_from_json h)) of
         Some v \<Rightarrow>
           load (\<lambda>s. pn_files s details_raw) (\<lambda>report.
             let file_empty = (case report of Some r \<Rightarrow> trim r = [] | None \<Rightarrow> True);
                 finish = Clock (\<lambda>now. Ret (vote_of idx v (elapsed_ms started now)))
             in if file_empty \<and> trim (sv_details_md v) \<noteq> []
                then store (write_file h details_raw (sv_details_md v)) finish else finish)
       | None \<Rightarrow> Clock (\<lambda>now. Ret (token_vote idx terminal (elapsed_ms started now))))"

definition show_bool :: "bool \<Rightarrow> string" where "show_bool b = (if b then ''true'' else ''false'')"

fun spawn_failure_note :: "SpawnError \<Rightarrow> string" where
  "spawn_failure_note (TransportError d) = ''transport error: '' @ d"
| "spawn_failure_note (RuntimeError message cancelled) = ''runtime error (cancelled='' @ show_bool cancelled @ ''): '' @ message"

definition spawn_classifier ::
    "panel_host \<Rightarrow> string \<Rightarrow> nat \<Rightarrow> RoleRenderedPrompt \<Rightarrow> string option
     \<Rightarrow> (spawned \<Rightarrow> (panel_state, SkepticResult) act) \<Rightarrow> (panel_state, SkepticResult) act" where
  "spawn_classifier h i idx prompt resume_from k =
     (let o' = (if idx < length (ph_overrides h) then ph_overrides h ! idx else \<lparr>so_model = None, so_agent_type = None\<rparr>) in
      spawn_with_fail_open_retry o' (emit_event (GoalRoleModelFailOpen idx)) prompt
        (send_one (ph_coordinator h) (ph_spawner h) i resume_from) k)"

definition run_one_skeptic ::
    "panel_host \<Rightarrow> nat \<Rightarrow> SkepticInputs \<Rightarrow> string \<Rightarrow> string option \<Rightarrow> RoleToolNames \<Rightarrow> RoleToolNames
     \<Rightarrow> (panel_state, SkepticResult) act" where
  "run_one_skeptic h idx i spawn_id resume_from tool_names inherit_tool_names =
     Clock (\<lambda>started.
       case ensure_goal_scratch_root (ph_skeptic_env h idx) (si_verifier_id i) of
         None \<Rightarrow> fail_with idx (''internal: could not secure the goal scratch root: '' @ ph_root_error h) started
       | Some root \<Rightarrow>
           let skeptic_scratch = skeptic_scratch_dir (ph_env h) (si_verifier_id i) idx;
               scratch_ready = (si_scratch_dir_ready i \<and> env_mkdirs (ph_skeptic_env h idx) skeptic_scratch);
               details_raw = format_verifier_details_path (ph_env h) (si_verifier_id i) (si_attempt i) idx;
               verdict_raw = format_verdict_path (ph_env h) (si_verifier_id i) (si_attempt i) idx;
               prompt = (\<lambda>tmpl. \<lparr>rp_primary = render_verifier_prompt tmpl i details_raw verdict_raw skeptic_scratch
                                                  tool_names scratch_ready,
                                 rp_fallback = render_verifier_prompt tmpl i details_raw verdict_raw skeptic_scratch
                                                  inherit_tool_names scratch_ready\<rparr>);
               read = (\<lambda>terminal. read_skeptic_verdict h idx details_raw verdict_raw terminal started);
               cold_spawn = spawn_classifier h spawn_id idx (prompt (ph_cold_template h)) None
                              (\<lambda>r. case r of Inr terminal \<Rightarrow> read terminal
                                          | Inl e \<Rightarrow> fail_with idx (spawn_failure_note e) started)
           in if validate_details_path (ph_env h) details_raw \<noteq> None \<or> validate_details_path (ph_env h) verdict_raw \<noteq> None
              then fail_with idx ''internal: unsafe per-skeptic file path'' started
              else case resume_from of
                     Some prior \<Rightarrow>
                       spawn_classifier h spawn_id idx (prompt (ph_resume_template h)) (Some prior)
                         (\<lambda>r. case r of Inr terminal \<Rightarrow> read terminal | Inl e \<Rightarrow> cold_spawn)
                   | None \<Rightarrow> cold_spawn)"

subsection \<open>The stage\<close>

datatype GoalClassifierOutcome =
    Achieved string
  | NotAchieved string string "ClassifierFinding list" string string
  | BlockedOutcome string string
  | FailOpenAchieved GoalClassifierFailOpenReason string

record VerificationStageResult =
  vs_outcome :: GoalClassifierOutcome
  vs_skeptic0_session_id :: "string option"
  vs_panel_ran :: bool

record VerificationStageInputs =
  vi_objective :: string
  vi_final_response :: string
  vi_baseline_commit :: "string option"
  vi_verifier_id :: string
  vi_attempt :: nat
  vi_model_id :: string
  vi_plan_file :: "string option"
  vi_plan_baseline_file :: "string option"
  vi_implementer_scratch_dir :: string
  vi_scratch_dir_ready :: bool
  vi_skeptic_count :: nat
  vi_max_runs :: nat
  vi_prior_skeptic0_session_id :: "string option"
  vi_prior_gaps :: "string option"
  vi_tool_names :: "RoleToolNames list"
  vi_inherit_tool_names :: RoleToolNames

definition maybe_write_classifier_placeholder ::
    "panel_host \<Rightarrow> string \<Rightarrow> string \<Rightarrow> string \<Rightarrow> panel_state \<Rightarrow> bool \<times> panel_state" where
  "maybe_write_classifier_placeholder h path headline body s =
     (case pn_files s path of
        Some c \<Rightarrow> if c \<noteq> [] then (True, s)
                  else (ph_writable h path, write_file h path (''# '' @ headline @ [NL, NL] @ body @ [NL]) s)
      | None \<Rightarrow> (ph_writable h path, write_file h path (''# '' @ headline @ [NL, NL] @ body @ [NL]) s))"

definition maybe_write_fail_open_placeholder ::
    "panel_host \<Rightarrow> string \<Rightarrow> GoalClassifierFailOpenReason \<Rightarrow> panel_state \<Rightarrow> bool \<times> panel_state" where
  "maybe_write_fail_open_placeholder h path reason =
     maybe_write_classifier_placeholder h path (''Verification fail-open: '' @ fail_open_str reason)
       (''The verification stage did not produce a verdict (infra-class ''
        @ ''failure). The harness treated the goal as Achieved as a ''
        @ ''fail-open fallback. No skeptic analysis was captured.'' @ [NL, NL]
        @ ''## Reason'' @ [NL, NL] @ fail_open_str reason)"

definition record_fail_open ::
    "panel_host \<Rightarrow> GoalClassifierFailOpenReason \<Rightarrow> nat \<Rightarrow> string option \<Rightarrow> string \<Rightarrow> panel_state
     \<Rightarrow> VerificationStageResult \<times> panel_state" where
  "record_fail_open h reason attempt details_path details_raw s =
     (let s1 = emit_event (GoalClassifierFailOpen (fail_open_str reason) attempt (elapsed_ms (ph_clock h 0) (ph_clock h 1))) s;
          (written, s2) = (case details_path of
                             Some p \<Rightarrow> maybe_write_fail_open_placeholder h p reason s1
                           | None \<Rightarrow> (False, s1))
      in (\<lparr>vs_outcome = FailOpenAchieved reason (if written then details_raw else []), vs_skeptic0_session_id = None,
           vs_panel_ran = False\<rparr>, s2))"

definition capture_plan_changes :: "panel_host \<Rightarrow> string \<Rightarrow> string \<Rightarrow> panel_state \<Rightarrow> string option" where
  "capture_plan_changes h baseline current s =
     (if pn_files s baseline = None \<or> pn_files s current = None then None
      else case ph_git_diff h baseline current s of
             Some (code, diff) \<Rightarrow> if code = Some 1 \<and> trim diff \<noteq> [] then Some (truncate_diff diff) else None
           | None \<Rightarrow> None)"

definition tool_names_for :: "VerificationStageInputs \<Rightarrow> nat \<Rightarrow> RoleToolNames" where
  "tool_names_for inputs idx =
     (if idx < length (vi_tool_names inputs) then vi_tool_names inputs ! idx else inherit_defaults)"

definition skeptic_act ::
    "panel_host \<Rightarrow> VerificationStageInputs \<Rightarrow> SkepticInputs \<Rightarrow> string option \<Rightarrow> nat \<Rightarrow> (panel_state, SkepticResult) act" where
  "skeptic_act h inputs i resume_from idx =
     run_one_skeptic h idx i (ph_ids h idx) resume_from (tool_names_for inputs idx) (vi_inherit_tool_names inputs)"

definition panel_size :: "VerificationStageInputs \<Rightarrow> nat" where
  "panel_size inputs = min GOAL_VERIFIER_SKEPTIC_MAX (max GOAL_VERIFIER_SKEPTIC_MIN (vi_skeptic_count inputs))"

text \<open>The panel: the results, whether skeptic 0 refuted decisively, and its identifier.\<close>

definition run_panel ::
    "panel_host \<Rightarrow> (nat + nat) list \<Rightarrow> VerificationStageInputs \<Rightarrow> SkepticInputs \<Rightarrow> panel_state
     \<Rightarrow> (SkepticResult list \<times> bool \<times> string option) \<times> panel_state" where
  "run_panel h sched inputs i s =
     (let n = panel_size inputs in
      if 1 < n then
        let (first, s1) = run_alone (skeptic_act h inputs i (vi_prior_skeptic0_session_id inputs) 0) (ph_clock h) s;
            high_refute = (sk_refuted first \<and> sk_confidence first = High)
        in if high_refute \<and> \<not> is_blocking (sk_blocking first) then (([first], True, Some (ph_ids h 0)), s1)
           else
             let (rest, s2) = join_all sched (ph_clock h 0) (ph_clock h) (map (skeptic_act h inputs i None) [1..<n]) s1
             in ((first # rest, high_refute, Some (ph_ids h 0)), s2)
      else
        let (results, s1) = join_all sched (ph_clock h 0) (ph_clock h) (map (skeptic_act h inputs i None) [0..<n]) s
        in ((results, False, None), s1))"

definition GOAL_VERIFIER_PANEL_MAX_BYTES :: nat where "GOAL_VERIFIER_PANEL_MAX_BYTES = 512 * 1024"

definition cap_panel_details :: "string \<Rightarrow> string" where
  "cap_panel_details body =
     (if length body \<le> GOAL_VERIFIER_PANEL_MAX_BYTES then body
      else let cutoff = boundary_below body GOAL_VERIFIER_PANEL_MAX_BYTES in
           take cutoff body
           @ [NL] @ ''... (panel details truncated, '' @ show_nat (length body - cutoff) @ '' bytes elided) ...'' @ [NL])"

definition render_skeptic_panel_details ::
    "env \<Rightarrow> SkepticResult list \<Rightarrow> nat \<Rightarrow> nat \<Rightarrow> bool \<Rightarrow> string \<Rightarrow> nat \<Rightarrow> string" where
  "render_skeptic_panel_details e results refuted_count seats achieved verifier_id attempt =
     (let paths = map (\<lambda>r. format_verifier_details_path e verifier_id attempt (sk_idx r)) (sort_key sk_idx results);
          gaps = build_gaps_summary results
      in cap_panel_details
           (''# Goal verification '' @ EM_DASH @ (if achieved then '' Achieved'' else '' Not Achieved'') @ [NL, NL]
            @ show_nat refuted_count @ '' of '' @ show_nat seats
            @ (if achieved then '' skeptics refuted; survives the panel.'' else '' skeptics refuted; panel rejected the claim.'')
            @ [NL, NL]
            @ (if \<not> achieved \<and> gaps \<noteq> [] then ''## Gaps to fix'' @ [NL, NL] @ gaps @ [NL, NL] else [])
            @ (if paths = [] then []
               else (if achieved then ''Per-skeptic reports: ''
                     else ''Fix the gaps above '' @ EM_DASH @ '' they are what matters. For the full reasoning ''
                          @ ''behind each, open the per-skeptic report files: '')
                    @ join '', '' paths @ [NL])))"

definition all_blocking :: "SkepticResult list \<Rightarrow> bool" where
  "all_blocking results \<longleftrightarrow>
     list_ex sk_refuted results \<and> list_all (\<lambda>r. is_blocking (sk_blocking r)) (filter sk_refuted results)"

definition panel_outcome :: "SkepticResult list \<Rightarrow> bool \<Rightarrow> string \<Rightarrow> GoalClassifierOutcome" where
  "panel_outcome results achieved details_raw =
     (if achieved then Achieved details_raw
      else if all_blocking results then BlockedOutcome details_raw (build_pause_summary results)
      else NotAchieved details_raw (build_gaps_summary results) (build_gaps_findings results) (build_pause_summary results)
             (gap_fingerprint (map refuter_fingerprint_source (filter sk_refuted results))))"

definition conclude_panel ::
    "panel_host \<Rightarrow> VerificationStageInputs \<Rightarrow> SkepticResult list \<times> bool \<times> string option \<Rightarrow> panel_state
     \<Rightarrow> VerificationStageResult \<times> panel_state" where
  "conclude_panel h inputs p s =
     (case p of (results, decisive_refute, skeptic0_session_id) \<Rightarrow>
        let details_raw = format_details_path (ph_env h) (vi_verifier_id inputs) (vi_attempt inputs);
            s1 = fold (\<lambda>r. emit_event (GoalVerifierSkepticVerdict (vi_attempt inputs) (sk_idx r) (sk_refuted r)
                                         (confidence_str (sk_confidence r)) (sk_latency_ms r))) results s;
            (refuted_count, seats, quorum_achieved) = aggregate_skeptic_verdicts results;
            achieved = (quorum_achieved \<and> \<not> decisive_refute);
            s2 = emit_event (GoalVerifierAggregateVerdict (vi_attempt inputs) refuted_count seats achieved) s1;
            s3 = write_file h details_raw
                   (render_skeptic_panel_details (ph_env h) results refuted_count seats achieved (vi_verifier_id inputs)
                      (vi_attempt inputs)) s2;
            s4 = emit_event (GoalClassifierVerdictEvent (if achieved then VerdictAchieved else VerdictNotAchieved)
                   (vi_attempt inputs) (elapsed_ms (ph_clock h 0) (ph_clock h 1))) s3
        in (\<lparr>vs_outcome = panel_outcome results achieved details_raw, vs_skeptic0_session_id = skeptic0_session_id,
             vs_panel_ran = True\<rparr>, s4))"

definition skeptic_inputs ::
    "panel_host \<Rightarrow> VerificationStageInputs \<Rightarrow> ChangesRef \<Rightarrow> string list \<Rightarrow> panel_state \<Rightarrow> SkepticInputs" where
  "skeptic_inputs h inputs changes_ref changed_files s =
     (let plan_changes = (case (vi_plan_baseline_file inputs, vi_plan_file inputs) of
                            (Some baseline, Some current) \<Rightarrow> capture_plan_changes h baseline current s
                          | _ \<Rightarrow> None);
          goal_kind = Option.bind (vi_plan_file inputs) (\<lambda>p. Option.bind (pn_files s p) parse_goal_kind)
      in \<lparr>si_objective = vi_objective inputs, si_final_response = sanitize_final_response (vi_final_response inputs),
          si_plan_file = vi_plan_file inputs, si_plan_changes = map_option sanitize_final_response plan_changes,
          si_changes_ref = changes_ref, si_changed_files = changed_files, si_verifier_id = vi_verifier_id inputs,
          si_attempt = vi_attempt inputs, si_kind_lens = (case goal_kind of Some k \<Rightarrow> ph_lens h k | None \<Rightarrow> []),
          si_implementer_scratch = vi_implementer_scratch_dir inputs, si_scratch_dir_ready = vi_scratch_dir_ready inputs,
          si_prior_gaps = vi_prior_gaps inputs\<rparr>)"

definition run_verification_stage ::
    "panel_host \<Rightarrow> (nat + nat) list \<Rightarrow> VerificationStageInputs \<Rightarrow> panel_state \<Rightarrow> VerificationStageResult \<times> panel_state" where
  "run_verification_stage h sched inputs s =
     (let e = ph_env h;
          s0 = emit_event (GoalClassifierFired (vi_attempt inputs) (vi_max_runs inputs) (vi_model_id inputs)) s;
          details_raw = format_details_path e (vi_verifier_id inputs) (vi_attempt inputs);
          changes_raw = format_changes_path e (vi_verifier_id inputs) (vi_attempt inputs)
      in if validate_details_path e details_raw \<noteq> None then record_fail_open h FileWriteFailed (vi_attempt inputs) None [] s0
         else if ensure_goal_scratch_root e (vi_verifier_id inputs) = None
         then record_fail_open h FileWriteFailed (vi_attempt inputs) None [] s0
         else if validate_details_path e changes_raw \<noteq> None
         then record_fail_open h FileWriteFailed (vi_attempt inputs) (Some details_raw) details_raw s0
         else
           let go = (\<lambda>changes_ref changed_files s.
                 let (p, s') = run_panel h sched inputs (skeptic_inputs h inputs changes_ref changed_files s) s
                 in conclude_panel h inputs p s')
           in case ph_capture h (vi_baseline_commit inputs) s0 of
                Some (diff, changed_files) \<Rightarrow>
                  if ph_writable h changes_raw then go (ChangesFile changes_raw) changed_files (write_file h changes_raw diff s0)
                  else record_fail_open h FileWriteFailed (vi_attempt inputs) (Some details_raw) details_raw s0
              | None \<Rightarrow> go ChangesUnavailable [] s0)"

end
