(* ===== verification/Panel_Correct.thy ===== *)
theory Panel_Correct
  imports Skeptic_Panel Directive_Correct Tracker_Correct
begin

text \<open>
  Correctness of the verification panel: what an approval rests on, that the order in which the auditors
  finish does not matter, what a rejection reports, and that the stall fingerprint does not depend on the
  order of the auditors.
\<close>

subsection \<open>What one auditor can vote\<close>

text \<open>
  \<open>M\<close> are the steps of an execution, each a state before and after. \<open>replied\<close>: a step of the execution is an agent that ran under
  an identifier, with a context of its own, and answered. \<open>authored\<close>: a step is an agent that ran under the identifier and left a
  text in a file that did not hold it before.
\<close>

definition replied :: "panel_host \<Rightarrow> (panel_state \<times> panel_state \<Rightarrow> bool) \<Rightarrow> string \<Rightarrow> string option \<Rightarrow> spawned \<Rightarrow> bool" where
  "replied h M i resume_from answer \<longleftrightarrow>
     (\<exists>req t. M (t, snd (ph_coordinator h req t)) \<and> sr_id req = i \<and> sr_resume_from req = resume_from \<and> \<not> sr_fork_context req
        \<and> spawn_result (fst (ph_coordinator h req t)) = answer)"

definition authored :: "panel_host \<Rightarrow> (panel_state \<times> panel_state \<Rightarrow> bool) \<Rightarrow> string \<Rightarrow> string \<Rightarrow> string \<Rightarrow> bool" where
  "authored h M i path body \<longleftrightarrow>
     (\<exists>req t. M (t, snd (ph_coordinator h req t)) \<and> sr_id req = i \<and> pn_files t path \<noteq> Some body
        \<and> pn_files (snd (ph_coordinator h req t)) path = Some body)"

definition approves :: "panel_host \<Rightarrow> string \<Rightarrow> string \<Rightarrow> panel_state \<Rightarrow> bool" where
  "approves h verdict_raw terminal t \<longleftrightarrow>
     (case Option.bind (pn_files t verdict_raw) (parse_verdict_json (ph_from_json h)) of
        Some v \<Rightarrow> \<not> sv_refuted v
      | None \<Rightarrow> parse_skeptic_terminal_response terminal = Some False)"

text \<open>
  A vote of auditor \<open>k\<close> that does not refute: an agent spawned afresh under its identifier answered, and when the auditor's verdict
  file was read it held a verdict that does not refute, or held none and the answer was the approving token. An
  approval is such a vote whose verdict an agent of this auditor wrote during the execution.
\<close>

definition voted :: "panel_host \<Rightarrow> string \<Rightarrow> nat \<Rightarrow> (panel_state \<times> panel_state \<Rightarrow> bool) \<Rightarrow> nat \<Rightarrow> bool" where
  "voted h verifier_id attempt M k \<longleftrightarrow>
     (\<exists>t terminal. M (t, t) \<and> replied h M (ph_ids h k) None (Inr terminal)
        \<and> approves h (format_verdict_path (ph_env h) verifier_id attempt k) terminal t)"

definition approval :: "panel_host \<Rightarrow> string \<Rightarrow> nat \<Rightarrow> (panel_state \<times> panel_state \<Rightarrow> bool) \<Rightarrow> nat \<Rightarrow> bool" where
  "approval h verifier_id attempt M k \<longleftrightarrow>
     (\<exists>t terminal. M (t, t) \<and> replied h M (ph_ids h k) None (Inr terminal)
        \<and> approves h (format_verdict_path (ph_env h) verifier_id attempt k) terminal t
        \<and> (\<forall>body. pn_files t (format_verdict_path (ph_env h) verifier_id attempt k) = Some body \<longrightarrow>
             authored h M (ph_ids h k) (format_verdict_path (ph_env h) verifier_id attempt k) body))"

lemma returns_send_one:
  assumes "returns M (send_one (ph_coordinator h) (ph_spawner h) i rf model harness prompt k) r"
  shows "\<exists>ans. replied h M i rf ans \<and> returns M (k ans) r"
proof -
  let ?req = "skeptic_request (ph_spawner h) i rf model harness prompt"
  obtain t where "M (t, snd (ph_coordinator h ?req t))" "returns M (k (spawn_result (fst (ph_coordinator h ?req t)))) r"
    using assms unfolding send_one_def returns_Access_iff by (auto simp: case_prod_unfold)
  moreover have "replied h M i rf (spawn_result (fst (ph_coordinator h ?req t)))"
    unfolding replied_def using calculation(1)
    by (intro exI [of _ ?req] exI [of _ t]) (simp add: skeptic_request_def SKEPTIC_FORK_CONTEXT_def)
  ultimately show ?thesis by blast
qed

lemma returns_spawn:
  assumes "returns M (spawn_classifier h i idx prompt rf k) r"
  shows "\<exists>ans. replied h M i rf ans \<and> returns M (k ans) r"
proof -
  have "\<exists>ans. replied h M i rf ans \<and> returns M (k ans) r"
    if "returns M (case ans of Inr txt \<Rightarrow> k ans
                   | Inl e \<Rightarrow> if spawn_cancelled e then k ans
                             else store nt (send_one (ph_coordinator h) (ph_spawner h) i rf None None p k)) r"
      and "replied h M i rf ans" for ans nt p
    using that returns_send_one [of M h i rf None None p k r] by (auto simp: returns_store split: sum.splits if_splits)
  then show ?thesis
    using assms unfolding spawn_classifier_def spawn_with_fail_open_retry_def Let_def
    by (auto split: if_splits dest!: returns_send_one)
qed

lemma returns_read:
  assumes "returns M (read_skeptic_verdict h idx details_raw verdict_raw terminal started) r"
  shows "sk_idx r = idx \<and> (sk_refuted r \<or> (\<exists>t. M (t, t) \<and> approves h verdict_raw terminal t))"
  using assms unfolding read_skeptic_verdict_def approves_def
  by (auto simp: returns_load returns_store vote_of_def token_vote_def skeptic_failure_def Let_def
      split: option.splits if_splits; fastforce)

lemma returns_fail_with: "returns M (fail_with idx note started) r \<Longrightarrow> sk_idx r = idx \<and> sk_refuted r"
  by (auto simp: fail_with_def skeptic_failure_def)

text \<open>What a spawn followed by reading the verdict can return.\<close>

lemma returns_spawn_read:
  assumes "returns M (spawn_classifier h i idx prompt rf
             (\<lambda>a. case a of Inr terminal \<Rightarrow> read_skeptic_verdict h idx details_raw verdict_raw terminal started
                         | Inl e \<Rightarrow> otherwise e)) r"
    and "\<And>e. returns M (otherwise e) r \<Longrightarrow> P"
    and "\<And>terminal. replied h M i rf (Inr terminal) \<Longrightarrow> sk_idx r = idx \<Longrightarrow>
           sk_refuted r \<or> (\<exists>t. M (t, t) \<and> approves h verdict_raw terminal t) \<Longrightarrow> P"
  shows P
proof -
  obtain ans where ans: "replied h M i rf ans"
    "returns M (case ans of Inr terminal \<Rightarrow> read_skeptic_verdict h idx details_raw verdict_raw terminal started
                | Inl e \<Rightarrow> otherwise e) r"
    using returns_spawn [OF assms(1)] by blast
  show P
  proof (cases ans)
    case (Inl e)
    then show ?thesis using ans(2) assms(2) by simp
  next
    case (Inr terminal)
    then show ?thesis using ans assms(3) [of terminal] returns_read [of M h idx details_raw verdict_raw terminal started r] by simp
  qed
qed

lemma returns_cold:
  assumes "returns M (skeptic_act h inputs i None k) r"
  shows "sk_idx r = k \<and> (sk_refuted r \<or> voted h (si_verifier_id i) (si_attempt i) M k)"
  using assms unfolding skeptic_act_def run_one_skeptic_def
  by (auto simp: Let_def voted_def split: option.splits if_splits elim!: returns_spawn_read dest!: returns_fail_with)

lemma returns_idx:
  assumes "returns M (skeptic_act h inputs i rf k) r"
  shows "sk_idx r = k"
  using assms unfolding skeptic_act_def run_one_skeptic_def
  by (auto simp: Let_def split: option.splits if_splits elim!: returns_spawn_read dest!: returns_fail_with)

subsection \<open>What the panel returns\<close>

text \<open>
  The panel: skeptic 0 first and then the cold auditors, or skeptic 0 alone when its refutation ends the
  panel at once or the panel has one seat.
\<close>

lemma panel_size_bounds: "1 \<le> panel_size inputs" "panel_size inputs \<le> 5"
  by (auto simp: panel_size_def GOAL_VERIFIER_SKEPTIC_MIN_def GOAL_VERIFIER_SKEPTIC_MAX_def)

definition panel_steps ::
    "panel_host \<Rightarrow> (nat + nat) list \<Rightarrow> VerificationStageInputs \<Rightarrow> SkepticInputs \<Rightarrow> panel_state \<Rightarrow> (panel_state \<times> panel_state) list" where
  "panel_steps h sched inputs i s =
     (let n = panel_size inputs; cold_steps = (\<lambda>m. join_trace sched (ph_clock h 0) (ph_clock h) (map (skeptic_act h inputs i None) [m..<n])) in
      if 1 < n then
        let zero = skeptic_act h inputs i (vi_prior_skeptic0_session_id inputs) 0;
            (first, s1) = run_alone zero (ph_clock h) s
        in alone_trace zero (ph_clock h) s
           @ (if sk_refuted first \<and> sk_confidence first = High \<and> \<not> is_blocking (sk_blocking first) then [] else cold_steps 1 s1)
      else cold_steps 0 s)"

abbreviation in_steps :: "'a list \<Rightarrow> 'a \<Rightarrow> bool" where
  "in_steps tr \<equiv> (\<lambda>st. st \<in> set tr)"

lemma panel_sole:
  assumes "run_panel h sched inputs i s = ((results, decisive, sid), s')" and "panel_size inputs = 1"
  shows "\<exists>r. results = [r] \<and> \<not> decisive
           \<and> (sk_refuted r \<or> voted h (si_verifier_id i) (si_attempt i) (in_steps (panel_steps h sched inputs i s)) 0)"
proof -
  let ?M = "in_steps (panel_steps h sched inputs i s)"
  have j: "join_all sched (ph_clock h 0) (ph_clock h) [skeptic_act h inputs i None 0] s = (results, s')" and d: "\<not> decisive"
    using assms by (auto simp: run_panel_def Let_def split: prod.splits)
  have tr: "\<forall>t\<in>set (join_trace sched (ph_clock h 0) (ph_clock h) [skeptic_act h inputs i None 0] s). ?M t"
    using assms(2) by (simp add: panel_steps_def Let_def)
  obtain r where "results = [r]" using join_all_returns(1) [OF tr] j by (cases results) auto
  then show ?thesis using join_all_returns(2) [OF tr, of 0] j returns_cold d by fastforce
qed

lemma panel_fan_out:
  assumes "run_panel h sched inputs i s = ((results, decisive, sid), s')" and "1 < panel_size inputs"
  obtains (decisive) first where "results = [first]" "decisive" "sk_refuted first" "sk_confidence first = High"
      "\<not> is_blocking (sk_blocking first)" "sk_idx first = 0"
  | (full) first rest where "results = first # rest" "sk_idx first = 0" "length rest = panel_size inputs - 1"
      "decisive \<longleftrightarrow> sk_refuted first \<and> sk_confidence first = High"
      "\<And>j. j < length rest \<Longrightarrow> sk_idx (rest ! j) = Suc j \<and> (sk_refuted (rest ! j)
         \<or> voted h (si_verifier_id i) (si_attempt i) (in_steps (panel_steps h sched inputs i s)) (Suc j))"
proof -
  let ?ops = "map (skeptic_act h inputs i None) [1..<panel_size inputs]" and ?M = "in_steps (panel_steps h sched inputs i s)"
  let ?zero = "skeptic_act h inputs i (vi_prior_skeptic0_session_id inputs) 0"
  obtain first s1 where f: "run_alone ?zero (ph_clock h) s = (first, s1)" by fastforce
  have idx0: "sk_idx first = 0" using returns_idx [OF run_alone_returns [of ?zero "ph_clock h" s "\<lambda>_. True"]] f by simp
  show thesis
  proof (cases "sk_refuted first \<and> sk_confidence first = High \<and> \<not> is_blocking (sk_blocking first)")
    case True
    then show ?thesis using assms f idx0 by (intro decisive [of first]) (auto simp: run_panel_def)
  next
    case False
    obtain rest s2 where j: "join_all sched (ph_clock h 0) (ph_clock h) ?ops s1 = (rest, s2)" by fastforce
    have tr: "\<forall>t\<in>set (join_trace sched (ph_clock h 0) (ph_clock h) ?ops s1). ?M t"
      using assms(2) f False by (auto simp: panel_steps_def Let_def)
    have "results = first # rest" "decisive \<longleftrightarrow> sk_refuted first \<and> sk_confidence first = High"
      using assms f j False by (auto simp: run_panel_def Let_def)
    moreover have "length rest = panel_size inputs - 1" using join_all_returns(1) [OF tr] j by simp
    moreover have "sk_idx (rest ! k) = Suc k \<and> (sk_refuted (rest ! k) \<or> voted h (si_verifier_id i) (si_attempt i) ?M (Suc k))"
      if "k < length rest" for k
      using returns_cold [of ?M h inputs i "Suc k" "rest ! k"] join_all_returns [OF tr] j that by simp
    ultimately show ?thesis using idx0 by (intro full [of first rest]) auto
  qed
qed

lemma cold_panel:
  assumes "sk_idx first = 0" and "\<And>j. j < length rest \<Longrightarrow> sk_idx (rest ! j) = Suc j"
  shows "cold (first # rest) = rest"
proof -
  have "filter (\<lambda>r. 1 \<le> sk_idx r) rest = rest" using assms(2) by (auto simp: filter_id_conv in_set_conv_nth)
  then show ?thesis using assms(1) by (simp add: cold_def)
qed

lemma quorum_full:
  assumes "sk_idx first = 0" and "\<And>j. j < length rest \<Longrightarrow> sk_idx (rest ! j) = Suc j" and "rest \<noteq> []"
  shows "snd (snd (aggregate_skeptic_verdicts (first # rest))) \<longleftrightarrow> length rest < 2 * length (filter (\<lambda>r. \<not> sk_refuted r) rest)"
  using assms(3) cold_panel [OF assms(1,2)] by (auto simp: aggregate_skeptic_verdicts_def Let_def)

lemma quorum_sole: "snd (snd (aggregate_skeptic_verdicts [r])) \<longleftrightarrow> \<not> sk_refuted r"
  by (simp add: aggregate_skeptic_verdicts_def)

lemma record_fail_open_result:
  "record_fail_open h reason attempt dp dr s = (r, s') \<Longrightarrow> \<exists>d. vs_outcome r = FailOpenAchieved reason d \<and> \<not> vs_panel_ran r"
  by (auto simp: record_fail_open_def Let_def split: prod.splits)

lemma conclude_panel_result:
  "conclude_panel h inputs (results, decisive, sid) s = (r, s') \<Longrightarrow>
   vs_outcome r = panel_outcome results (snd (snd (aggregate_skeptic_verdicts results)) \<and> \<not> decisive)
     (format_details_path (ph_env h) (vi_verifier_id inputs) (vi_attempt inputs)) \<and> vs_panel_ran r \<and> vs_skeptic0_session_id r = sid"
  by (auto simp: conclude_panel_def Let_def split: prod.splits)

text \<open>
  What the panel starts with: the stage notes that it fired and writes the captured diff. The stage either fails open before any
  auditor runs, or concludes from the panel.
\<close>

definition panel_start :: "panel_host \<Rightarrow> VerificationStageInputs \<Rightarrow> panel_state \<Rightarrow> SkepticInputs \<times> panel_state" where
  "panel_start h inputs s =
     (let s0 = emit_event (GoalClassifierFired (vi_attempt inputs) (vi_max_runs inputs) (vi_model_id inputs)) s;
          changes_raw = format_changes_path (ph_env h) (vi_verifier_id inputs) (vi_attempt inputs)
      in case ph_capture h (vi_baseline_commit inputs) s0 of
           Some (diff, changed_files) \<Rightarrow>
             let s1 = write_file h changes_raw diff s0 in (skeptic_inputs h inputs (ChangesFile changes_raw) changed_files s1, s1)
         | None \<Rightarrow> (skeptic_inputs h inputs ChangesUnavailable [] s0, s0))"

definition stage_steps ::
    "panel_host \<Rightarrow> (nat + nat) list \<Rightarrow> VerificationStageInputs \<Rightarrow> panel_state \<Rightarrow> (panel_state \<times> panel_state) list" where
  "stage_steps h sched inputs s = (case panel_start h inputs s of (i, s1) \<Rightarrow> panel_steps h sched inputs i s1)"

definition concludes ::
    "panel_host \<Rightarrow> (nat + nat) list \<Rightarrow> VerificationStageInputs \<Rightarrow> panel_state \<Rightarrow> VerificationStageResult \<Rightarrow> bool" where
  "concludes h sched inputs s r \<longleftrightarrow>
     (\<exists>results decisive s2. run_panel h sched inputs (fst (panel_start h inputs s)) (snd (panel_start h inputs s))
            = ((results, decisive, vs_skeptic0_session_id r), s2)
        \<and> vs_outcome r = panel_outcome results (snd (snd (aggregate_skeptic_verdicts results)) \<and> \<not> decisive)
            (format_details_path (ph_env h) (vi_verifier_id inputs) (vi_attempt inputs)))"

lemma panel_start_inputs:
  "si_verifier_id (fst (panel_start h inputs s)) = vi_verifier_id inputs" "si_attempt (fst (panel_start h inputs s)) = vi_attempt inputs"
  by (simp_all add: panel_start_def skeptic_inputs_def Let_def split: option.split)

lemma stage_cases:
  assumes "run_verification_stage h sched inputs s = (r, s')"
  shows "(\<exists>d. vs_outcome r = FailOpenAchieved FileWriteFailed d) \<and> \<not> vs_panel_ran r \<or> concludes h sched inputs s r \<and> vs_panel_ran r"
proof -
  have "concludes h sched inputs s r \<and> vs_panel_ran r"
    if "(case run_panel h sched inputs (fst (panel_start h inputs s)) (snd (panel_start h inputs s)) of
          (p, s2) \<Rightarrow> conclude_panel h inputs p s2) = (r, s')"
  proof -
    obtain results decisive sid s2
      where p: "run_panel h sched inputs (fst (panel_start h inputs s)) (snd (panel_start h inputs s)) = ((results, decisive, sid), s2)"
      by (metis prod.exhaust)
    then have "conclude_panel h inputs (results, decisive, sid) s2 = (r, s')" using that by simp
    from conclude_panel_result [OF this] show ?thesis unfolding concludes_def using p by fastforce
  qed
  then show ?thesis using assms record_fail_open_result [of h FileWriteFailed "vi_attempt inputs" _ _ _ r s']
    unfolding run_verification_stage_def panel_start_def Let_def by (fastforce split: if_splits option.splits)
qed

subsection \<open>Verdicts an auditor's own agent wrote\<close>

lemma replace_all_snoc: "old \<noteq> [] \<Longrightarrow> c \<noteq> last old \<Longrightarrow> replace_all old new (s @ [c]) = replace_all old new s @ [c]"
proof (induction s rule: length_induct)
  case (1 s)
  show ?case
  proof (cases rule: replace_all_cases [OF 1(2), where s = s and new = new])
    case 1
    have "\<not> starts_with old [c]" using "1.prems" by (auto simp: starts_with_iff Cons_eq_append_conv)
    then show ?thesis using 1 replace_all_skip [OF "1.prems"(1), of c "[]" new] "1.prems"(1) by simp
  next
    case (2 r)
    then have "replace_all old new (r @ [c]) = replace_all old new r @ [c]" using "1.IH" "1.prems" by simp
    then show ?thesis using 2 replace_all_match [OF "1.prems"(1), of new "r @ [c]"] by simp
  next
    case (3 d cs)
    then have "replace_all old new (cs @ [c]) = replace_all old new cs @ [c]" using "1.IH" "1.prems" by simp
    moreover have "\<not> starts_with old (d # cs @ [c])"
    proof
      assume "starts_with old (d # cs @ [c])"
      then obtain r where r: "s @ [c] = old @ r" using 3(1) by (auto simp: starts_with_iff)
      then show False using 3(2) "1.prems"(2) by (cases r rule: rev_cases) (auto simp: starts_with_iff)
    qed
    ultimately show ?thesis using 3 replace_all_skip [OF "1.prems"(1), of d "cs @ [c]" new] by simp
  qed
qed

lemma path_join_snoc: "\<exists>p. path_join base (name @ [c]) = p @ [c]"
  by (simp add: path_join_def)

text \<open>The endings of the artefact paths keep the verdict files apart from the files the harness writes.\<close>

lemma path_endings:
  "\<exists>p. format_verdict_path e v a k = p @ ''n''" "\<exists>p. format_verifier_details_path e v a k = p @ ''d''"
  "\<exists>p. format_changes_path e v a = p @ ''h''"
proof -
  have snoc: "\<exists>p. skeptic_path e (t @ [c]) v a k = p @ [c]" "\<exists>p. stage_path e (t @ [c]) v a = p @ [c]"
    if "c \<noteq> CHR ''}''" for t c
    using that path_join_snoc by (simp_all add: skeptic_path_def stage_path_def scratch_rooted_def replace_all_snoc)
  show "\<exists>p. format_verdict_path e v a k = p @ ''n''"
    using snoc(1) [of "CHR ''n''" "''goal-verdict-{verifier_id}-{attempt}-{skeptic_idx}.jso''"]
    by (simp add: format_verdict_path_def GOAL_VERIFIER_VERDICT_PATH_TEMPLATE_def)
  show "\<exists>p. format_verifier_details_path e v a k = p @ ''d''"
    using snoc(1) [of "CHR ''d''" "''goal-classifier-{verifier_id}-{attempt}-skeptic-{skeptic_idx}.m''"]
    by (simp add: format_verifier_details_path_def GOAL_VERIFIER_DETAILS_PATH_TEMPLATE_def)
  show "\<exists>p. format_changes_path e v a = p @ ''h''"
    using snoc(2) [of "CHR ''h''" "''goal-classifier-{verifier_id}-{attempt}.patc''"]
    by (simp add: format_changes_path_def GOAL_CLASSIFIER_CHANGES_PATH_TEMPLATE_def)
qed

lemma verdict_paths_apart:
  "format_verdict_path e v a k \<noteq> format_verifier_details_path e' v' a' j" "format_verdict_path e v a k \<noteq> format_changes_path e' v' a'"
  using path_endings(1) [of e v a k] path_endings(2) [of e' v' a' j] path_endings(3) [of e' v' a'] by auto

text \<open>
  What the auditors' agents are assumed to respect: an agent leaves the verdict files of the other auditors alone. Then every text
  a verdict file holds during the panel, when it held none at the start, is one an agent of its own auditor wrote.
\<close>

definition agents_separate :: "panel_host \<Rightarrow> string \<Rightarrow> nat \<Rightarrow> bool" where
  "agents_separate h verifier_id attempt \<longleftrightarrow>
     (\<forall>j<5. \<forall>k<5. \<forall>req t. j \<noteq> k \<and> sr_id req = ph_ids h j \<longrightarrow>
        pn_files (snd (ph_coordinator h req t)) (format_verdict_path (ph_env h) verifier_id attempt k)
          = pn_files t (format_verdict_path (ph_env h) verifier_id attempt k))"

definition verdicts_own :: "panel_host \<Rightarrow> string \<Rightarrow> nat \<Rightarrow> (panel_state \<times> panel_state \<Rightarrow> bool) \<Rightarrow> panel_state \<Rightarrow> bool" where
  "verdicts_own h verifier_id attempt M t \<longleftrightarrow>
     (\<forall>k<5. \<forall>body. pn_files t (format_verdict_path (ph_env h) verifier_id attempt k) = Some body \<longrightarrow>
        authored h M (ph_ids h k) (format_verdict_path (ph_env h) verifier_id attempt k) body)"

lemma verdicts_own_emit [simp]: "verdicts_own h v a M (emit_event e t) = verdicts_own h v a M t"
  by (simp add: verdicts_own_def emit_event_def)

lemma verdicts_own_write:
  "(\<And>k. format_verdict_path (ph_env h) v a k \<noteq> path) \<Longrightarrow> verdicts_own h v a M t \<Longrightarrow> verdicts_own h v a M (write_file h path body t)"
  by (simp add: verdicts_own_def write_file_def)

lemma send_one_own:
  assumes "agents_separate h v a" and "j < 5" and "\<And>ans. keeps_at M (verdicts_own h v a M) (k ans)"
  shows "keeps_at M (verdicts_own h v a M) (send_one (ph_coordinator h) (ph_spawner h) (ph_ids h j) rf model harness prompt k)"
  unfolding send_one_def case_prod_unfold
proof (rule keeps_at_Access, intro conjI)
  let ?req = "skeptic_request (ph_spawner h) (ph_ids h j) rf model harness prompt"
  fix t
  assume M: "M (t, fst (snd (ph_coordinator h ?req t), k (spawn_result (fst (ph_coordinator h ?req t)))))" and ok: "verdicts_own h v a M t"
  have i: "sr_id ?req = ph_ids h j" by (simp add: skeptic_request_def)
  have "authored h M (ph_ids h l) (format_verdict_path (ph_env h) v a l) body"
    if "l < 5" "pn_files (snd (ph_coordinator h ?req t)) (format_verdict_path (ph_env h) v a l) = Some body" for l body
  proof (cases "pn_files t (format_verdict_path (ph_env h) v a l) = Some body")
    case True
    then show ?thesis using ok that(1) by (simp add: verdicts_own_def)
  next
    case False
    then have "l = j" using assms(1,2) i that unfolding agents_separate_def by metis
    then show ?thesis using False that(2) M i unfolding authored_def by (intro exI [of _ ?req] exI [of _ t]) simp
  qed
  then show "verdicts_own h v a M (fst (snd (ph_coordinator h ?req t), k (spawn_result (fst (ph_coordinator h ?req t)))))"
    by (simp add: verdicts_own_def)
qed (simp add: assms(3))

lemma spawn_own:
  assumes "agents_separate h v a" and "j < 5" and "\<And>ans. keeps_at M (verdicts_own h v a M) (k ans)"
  shows "keeps_at M (verdicts_own h v a M) (spawn_classifier h (ph_ids h j) idx prompt rf k)"
proof -
  have retry: "keeps_at M (verdicts_own h v a M)
      (store (emit_event e) (send_one (ph_coordinator h) (ph_spawner h) (ph_ids h j) rf None None q k))" for e q
    by (intro keeps_at_store send_one_own assms) simp_all
  show ?thesis unfolding spawn_classifier_def spawn_with_fail_open_retry_def Let_def
    by (auto intro!: send_one_own assms retry split: sum.split)
qed

lemma fail_with_own: "keeps_at M ok (fail_with idx note started)"
  unfolding fail_with_def by (intro keeps_at_Clock keeps_at_Ret)

lemma read_own:
  "keeps_at M (verdicts_own h v a M)
     (read_skeptic_verdict h idx (format_verifier_details_path (ph_env h) v' a' j) verdict_raw terminal started)"
  unfolding read_skeptic_verdict_def Let_def
  by (auto split: option.split intro!: keeps_at_load keeps_at_store keeps_at_Clock keeps_at_Ret verdicts_own_write verdict_paths_apart)

lemma skeptic_act_own:
  assumes "agents_separate h v a" and "k < 5"
  shows "keeps_at M (verdicts_own h v a M) (skeptic_act h inputs i rf k)"
  unfolding skeptic_act_def run_one_skeptic_def Let_def
  by (auto split: option.split sum.split intro!: keeps_at_Clock spawn_own [OF assms] fail_with_own read_own)

lemma panel_own:
  assumes "agents_separate h v a" and "verdicts_own h v a M s" and "\<forall>st\<in>set (panel_steps h sched inputs i s). M st"
  shows "\<forall>st\<in>set (panel_steps h sched inputs i s). verdicts_own h v a M (fst st)"
proof -
  have acts: "\<forall>op\<in>set (map (skeptic_act h inputs i None) [m..<panel_size inputs]). keeps_at M (verdicts_own h v a M) op" for m
    using skeptic_act_own [OF assms(1)] panel_size_bounds(2) [of inputs] by auto
  show ?thesis
  proof (cases "1 < panel_size inputs")
    case False
    then have steps: "panel_steps h sched inputs i s
        = join_trace sched (ph_clock h 0) (ph_clock h) (map (skeptic_act h inputs i None) [0..<panel_size inputs]) s"
      by (simp add: panel_steps_def Let_def)
    show ?thesis using join_keeps_at [OF acts assms(2)] assms(3) unfolding steps by blast
  next
    case True
    let ?zero = "skeptic_act h inputs i (vi_prior_skeptic0_session_id inputs) 0"
    obtain first s1 where f: "run_alone ?zero (ph_clock h) s = (first, s1)" by fastforce
    let ?cold = "if sk_refuted first \<and> sk_confidence first = High \<and> \<not> is_blocking (sk_blocking first) then []
      else join_trace sched (ph_clock h 0) (ph_clock h) (map (skeptic_act h inputs i None) [1..<panel_size inputs]) s1"
    have steps: "panel_steps h sched inputs i s = alone_trace ?zero (ph_clock h) s @ ?cold"
      using True f by (simp add: panel_steps_def Let_def)
    have M: "\<forall>st\<in>set (alone_trace ?zero (ph_clock h) s). M st" "\<forall>st\<in>set ?cold. M st"
      using assms(3) unfolding steps set_append by blast+
    have z: "keeps_at M (verdicts_own h v a M) ?zero" using skeptic_act_own [OF assms(1)] by simp
    have zero: "verdicts_own h v a M s1" "\<forall>st\<in>set (alone_trace ?zero (ph_clock h) s). verdicts_own h v a M (fst st)"
      using alone_keeps_at [OF z assms(2) M(1)] f by simp_all
    have "\<forall>st\<in>set ?cold. verdicts_own h v a M (fst st)"
      using join_keeps_at [OF acts zero(1)] M(2) by (simp split: if_splits)
    then show ?thesis using zero(2) unfolding steps set_append by blast
  qed
qed

lemma voted_approval:
  assumes "voted h v a M k" and "\<forall>st. M st \<longrightarrow> verdicts_own h v a M (fst st)" and "k < 5"
  shows "approval h v a M k"
  using assms unfolding voted_def approval_def verdicts_own_def by (metis fst_conv)

text \<open>
  Property C8. The verification stage approves a goal only on explicit, independent approvals of this panel. When no verdict file
  of this attempt exists at the start of the stage and no agent touches the verdict file of another auditor, whatever the order in
  which the auditors run: with one seat, the sole auditor approved; with more, strictly more than half of the auditors
  other than skeptic 0 approved. Each counted approval is that of an agent spawned afresh in a step of this very execution (no
  earlier session resumed, no context of the implementer), which answered, and whose verdict file, when it was read, held a
  verdict that does not refute and that an agent of the same auditor wrote during this panel (or held no readable verdict, and the
  agent's whole answer was the approving token). A failed, cancelled, silent or malformed auditor never counts. Without the first
  condition a verdict left by an earlier attempt would count, since the stage does not remove it
  (\<open>silent_auditor_votes_as_predecessor\<close>).
\<close>

theorem achieved_by_independent_majority:
  assumes "vs_outcome (fst (run_verification_stage h sched inputs s)) = Achieved d"
    and "\<forall>k<5. pn_files s (format_verdict_path (ph_env h) (vi_verifier_id inputs) (vi_attempt inputs) k) = None"
    and "agents_separate h (vi_verifier_id inputs) (vi_attempt inputs)"
  shows "let n = panel_size inputs; seats = (if n = 1 then [0] else [1..<n]);
           M = (\<lambda>step. step \<in> set (stage_steps h sched inputs s))
         in \<exists>approvals \<subseteq> set seats. length seats < 2 * card approvals
              \<and> (\<forall>k\<in>approvals. approval h (vi_verifier_id inputs) (vi_attempt inputs) M k)"
proof -
  let ?v = "vi_verifier_id inputs" and ?a = "vi_attempt inputs" and ?M = "in_steps (stage_steps h sched inputs s)"
  obtain r s' where r: "run_verification_stage h sched inputs s = (r, s')" by fastforce
  have o: "vs_outcome r = Achieved d" using assms(1) r by simp
  obtain i s1 where start: "panel_start h inputs s = (i, s1)" by fastforce
  have steps: "stage_steps h sched inputs s = panel_steps h sched inputs i s1" by (simp add: stage_steps_def start)
  have i: "si_verifier_id i = ?v" "si_attempt i = ?a" using panel_start_inputs [of h inputs s] start by simp_all
  obtain results decisive s2 where p: "run_panel h sched inputs i s1 = ((results, decisive, vs_skeptic0_session_id r), s2)"
    and v: "snd (snd (aggregate_skeptic_verdicts results))" "\<not> decisive"
    using stage_cases [OF r] o start by (auto simp: concludes_def panel_outcome_def split: if_splits)
  have "verdicts_own h ?v ?a ?M s" using assms(2) by (simp add: verdicts_own_def)
  then have "verdicts_own h ?v ?a ?M (snd (panel_start h inputs s))"
    by (auto simp: panel_start_def Let_def split: option.split intro!: verdicts_own_write verdict_paths_apart)
  then have own: "\<forall>st. ?M st \<longrightarrow> verdicts_own h ?v ?a ?M (fst st)"
    using panel_own [OF assms(3), of ?M s1 sched inputs i] start steps by simp
  have approved: "voted h (si_verifier_id i) (si_attempt i) (in_steps (panel_steps h sched inputs i s1)) k \<Longrightarrow> k < panel_size inputs
      \<Longrightarrow> approval h ?v ?a ?M k" for k
    using voted_approval [OF _ own] panel_size_bounds(2) [of inputs] steps i by simp
  show ?thesis
  proof (cases "panel_size inputs = 1")
    case True
    from panel_sole [OF p True] v(1) have "approval h ?v ?a ?M 0" using True by (intro approved) (auto simp: quorum_sole)
    then show ?thesis using True by (auto simp: Let_def intro!: exI [of _ "{0}"])
  next
    case False
    then have n: "1 < panel_size inputs" using panel_size_bounds(1) [of inputs] by simp
    from p n show ?thesis
    proof (cases rule: panel_fan_out)
      case (full first rest)
      let ?ok = "{j. j < length rest \<and> \<not> sk_refuted (rest ! j)}"
      have "rest \<noteq> []" using full(3) n by auto
      then have "length rest < 2 * card ?ok"
        using quorum_full [OF full(2), of rest] full(5) v(1) by (simp add: full(1) length_filter_conv_card)
      moreover have "card (Suc ` ?ok) = card ?ok" by (simp add: card_image)
      moreover have "Suc ` ?ok \<subseteq> {1..<panel_size inputs}" using full(3) n by auto
      moreover have "approval h ?v ?a ?M k" if "k \<in> Suc ` ?ok" for k
        using that full(3,5) by (intro approved) auto
      ultimately show ?thesis using False full(3) by (auto simp: Let_def intro!: exI [of _ "Suc ` ?ok"])
    qed (use v in simp)
  qed
qed

text \<open>A panel of three: the agents answer by token only, each with the token \<open>answers\<close> gives its identifier.\<close>

definition token_host :: "(string \<Rightarrow> spawn_reply) \<Rightarrow> panel_host" where
  "token_host answers =
     \<lparr>ph_env = sample_env 0, ph_skeptic_env = (\<lambda>_. sample_env 0), ph_root_error = [],
      ph_coordinator = (\<lambda>req s. (answers (sr_id req), s)),
      ph_spawner = \<lparr>cs_parent_session_id = [], cs_parent_prompt_id = None, cs_cwd = None\<rparr>, ph_overrides = [], ph_from_json = (\<lambda>_. None),
      ph_writable = (\<lambda>_. True), ph_capture = (\<lambda>_ _. None), ph_git_diff = (\<lambda>_ _ _. None), ph_cold_template = [],
      ph_resume_template = [], ph_lens = (\<lambda>_. []), ph_clock = (\<lambda>_. 0), ph_ids = show_nat\<rparr>"

definition sample_inputs :: "nat \<Rightarrow> VerificationStageInputs" where
  "sample_inputs seats =
     \<lparr>vi_objective = ''ship'', vi_final_response = ''done'', vi_baseline_commit = None, vi_verifier_id = ''v'', vi_attempt = 1,
      vi_model_id = ''m'', vi_plan_file = None, vi_plan_baseline_file = None, vi_implementer_scratch_dir = ''/tmp/i'',
      vi_scratch_dir_ready = True, vi_skeptic_count = seats, vi_max_runs = 10, vi_prior_skeptic0_session_id = None,
      vi_prior_gaps = None, vi_tool_names = [], vi_inherit_tool_names = inherit_defaults\<rparr>"

definition no_files :: panel_state where "no_files = \<lparr>pn_files = (\<lambda>_. None), pn_events = []\<rparr>"

definition answers_with :: "string list \<Rightarrow> string \<Rightarrow> spawn_reply" where
  "answers_with refuters i =
     Replied \<lparr>rs_success = True, rs_output = (if i \<in> set refuters then ''Refuted'' else ''Not Refuted''), rs_error = None,
              rs_cancelled = False, rs_subagent_id = i, rs_child_session_id = i, rs_tool_calls = 0, rs_turns = 0,
              rs_duration_ms = 0, rs_tokens_used = 0, rs_worktree_path = None, rs_backgrounded = False\<rparr>"

definition outcome_of :: "panel_host \<Rightarrow> nat \<Rightarrow> GoalClassifierOutcome" where
  "outcome_of h seats = vs_outcome (fst (run_verification_stage h [] (sample_inputs seats) no_files))"

lemma sample_paths_valid:
  "validate_details_path (sample_env 0) (format_details_path (sample_env 0) ''v'' 1) = None"
  "validate_details_path (sample_env 0) (format_changes_path (sample_env 0) ''v'' 1) = None"
  "k < 3 \<Longrightarrow> validate_details_path (sample_env 0) (format_verifier_details_path (sample_env 0) ''v'' 1 k) = None"
  "k < 3 \<Longrightarrow> validate_details_path (sample_env 0) (format_verdict_path (sample_env 0) ''v'' 1 k) = None"
proof -
  show "validate_details_path (sample_env 0) (format_details_path (sample_env 0) ''v'' 1) = None"
    "validate_details_path (sample_env 0) (format_changes_path (sample_env 0) ''v'' 1) = None" by code_simp+
  have "list_all (\<lambda>k. validate_details_path (sample_env 0) (format_verifier_details_path (sample_env 0) ''v'' 1 k) = None
          \<and> validate_details_path (sample_env 0) (format_verdict_path (sample_env 0) ''v'' 1 k) = None) [0, 1, 2]" by code_simp
  then show "k < 3 \<Longrightarrow> validate_details_path (sample_env 0) (format_verifier_details_path (sample_env 0) ''v'' 1 k) = None"
    "k < 3 \<Longrightarrow> validate_details_path (sample_env 0) (format_verdict_path (sample_env 0) ''v'' 1 k) = None"
    by (auto simp: numeral_3_eq_3 less_Suc_eq numeral_2_eq_2)
qed

lemma sample_root: "ensure_goal_scratch_root (sample_env 0) v = Some (goal_scratch_root (sample_env 0) v)"
  by (simp add: ensure_goal_scratch_root_def sample_env_def)

lemma elapsed_zero [simp]: "elapsed_ms n n = 0"
  by (simp add: elapsed_ms_def)

lemma no_json: "Option.bind x (parse_verdict_json (\<lambda>_. None)) = None"
  by (cases x) (simp_all add: parse_verdict_json_def)

definition inheriting :: "RoleSpawnOverride list \<Rightarrow> bool" where
  "inheriting overrides = list_all (\<lambda>o'. \<not> is_explicit o') overrides"

lemma token_act:
  assumes "si_verifier_id i = ''v''" "si_attempt i = 1" "k < 3" "inheriting overrides"
  shows "run_alone (skeptic_act ((token_host a)\<lparr>ph_overrides := overrides\<rparr>) inputs i None k) (\<lambda>_. 0) s =
    (case spawn_result (a (show_nat k)) of Inr t \<Rightarrow> token_vote k t 0 | Inl e \<Rightarrow> skeptic_failure k (spawn_failure_note e) 0, s)"
proof -
  have "k < length overrides \<Longrightarrow> \<not> is_explicit (overrides ! k)"
    using assms(4) by (simp add: inheriting_def list_all_length)
  moreover have "\<not> is_explicit \<lparr>so_model = None, so_agent_type = None\<rparr>" by (simp add: is_explicit_def)
  ultimately show ?thesis
    using sample_paths_valid(3,4) [OF assms(3)] assms(1,2)
    by (auto simp: skeptic_act_def run_one_skeptic_def token_host_def sample_root Let_def spawn_classifier_def
        spawn_with_fail_open_retry_def send_one_def skeptic_request_def run_alone_Access read_skeptic_verdict_def fail_with_def
        no_json split: sum.splits)
qed

lemma token_host_sel:
  "ph_clock (token_host a) = (\<lambda>_. 0)" "ph_ids (token_host a) = show_nat" "ph_env (token_host a) = sample_env 0"
  "ph_capture (token_host a) = (\<lambda>_ _. None)"
  by (simp_all add: token_host_def)

lemma sample_inputs_sel:
  "panel_size (sample_inputs 3) = 3" "vi_prior_skeptic0_session_id (sample_inputs n) = None" "vi_attempt (sample_inputs n) = 1"
  "vi_verifier_id (sample_inputs n) = ''v''"
  by (simp_all add: panel_size_def sample_inputs_def GOAL_VERIFIER_SKEPTIC_MIN_def GOAL_VERIFIER_SKEPTIC_MAX_def)

definition answered_vote :: "(string \<Rightarrow> spawn_reply) \<Rightarrow> nat \<Rightarrow> SkepticResult" where
  "answered_vote a k = (case spawn_result (a (show_nat k)) of Inr t \<Rightarrow> token_vote k t 0
      | Inl e \<Rightarrow> skeptic_failure k (spawn_failure_note e) 0)"

lemma token_stage:
  assumes "panel_size inputs = 3" "vi_prior_skeptic0_session_id inputs = None" "vi_attempt inputs = 1"
    "vi_verifier_id inputs = ''v''" "inheriting overrides"
  shows "vs_outcome (fst (run_verification_stage ((token_host a)\<lparr>ph_overrides := overrides\<rparr>) [] inputs s)) =
     (let results = map (answered_vote a) [0, 1, 2]
      in panel_outcome results (snd (snd (aggregate_skeptic_verdicts results))) ''/tmp/grok-goal-v/goal-classifier-v-1.md'')"
proof -
  let ?h = "(token_host a)\<lparr>ph_overrides := overrides\<rparr>" and ?v = "[answered_vote a 0, answered_vote a 1, answered_vote a 2]"
  let ?s = "emit_event (GoalClassifierFired 1 (vi_max_runs inputs) (vi_model_id inputs)) s"
  let ?i = "skeptic_inputs ?h inputs ChangesUnavailable [] ?s"
  have act: "run_alone (skeptic_act ?h inputs ?i None k) (\<lambda>_. 0) s1 = (answered_vote a k, s1)" if "k < 3" for k s1
    unfolding answered_vote_def by (rule token_act) (use that assms in \<open>simp_all add: skeptic_inputs_def Let_def\<close>)
  have zero: "show_nat 0 = ''0''" by code_simp
  have seats: "[Suc 0..<3] = [Suc 0, 2]" by code_simp
  have "sk_confidence (answered_vote a 0) = Unknown"
    by (auto simp: answered_vote_def token_vote_def skeptic_failure_def split: sum.splits option.splits)
  then have p: "run_panel ?h [] inputs ?i ?s = ((?v, False, Some ''0''), ?s)"
    using act [of 0] act [of 1] act [of 2]
    by (simp add: run_panel_def token_host_sel assms join_all_def zero seats)
  have d: "format_details_path (sample_env 0) ''v'' 1 = ''/tmp/grok-goal-v/goal-classifier-v-1.md''" by code_simp
  obtain r s' where r: "conclude_panel ?h inputs (?v, False, Some ''0'') ?s = (r, s')" by fastforce
  have "run_verification_stage ?h [] inputs s = (r, s')"
    using p r sample_paths_valid(1,2) by (simp add: run_verification_stage_def Let_def token_host_sel assms sample_root)
  then show ?thesis using conclude_panel_result [OF r] d by (simp add: token_host_sel assms Let_def)
qed

lemma token_panel:
  "outcome_of (token_host a) 3 =
     (let results = map (answered_vote a) [0, 1, 2]
      in panel_outcome results (snd (snd (aggregate_skeptic_verdicts results))) ''/tmp/grok-goal-v/goal-classifier-v-1.md'')"
proof -
  have "(token_host a)\<lparr>ph_overrides := []\<rparr> = token_host a" by (simp add: token_host_def)
  then show ?thesis using token_stage [of "sample_inputs 3" "[]" a no_files]
    by (simp add: outcome_of_def sample_inputs_sel inheriting_def)
qed

lemma approved_without_zero: "outcome_of (token_host (answers_with [''0''])) 3 = Achieved ''/tmp/grok-goal-v/goal-classifier-v-1.md''"
  unfolding token_panel by code_simp

text \<open>A panel of three whose agents each leave an approving verdict in the auditor's own file.\<close>

definition good_verdict :: SkepticVerdictRaw where
  "good_verdict = \<lparr>vw_refuted = Some False, vw_evidence = Some ''ran the tests'', vw_confidence = Some ''high'', vw_blocking = None,
     vw_details_md = None, vw_findings = None\<rparr>"

definition says_written :: "string \<Rightarrow> spawn_reply" where
  "says_written i =
     Replied \<lparr>rs_success = True, rs_output = ''verdict written'', rs_error = None, rs_cancelled = False, rs_subagent_id = i,
              rs_child_session_id = i, rs_tool_calls = 0, rs_turns = 0, rs_duration_ms = 0, rs_tokens_used = 0,
              rs_worktree_path = None, rs_backgrounded = False\<rparr>"

definition verdict_writer :: "SubagentRequest \<Rightarrow> panel_state \<Rightarrow> spawn_reply \<times> panel_state" where
  "verdict_writer req s =
     (says_written (sr_id req),
      case find (\<lambda>k. show_nat k = sr_id req) [0..<5] of
        Some k \<Rightarrow> s\<lparr>pn_files := (pn_files s)(format_verdict_path (sample_env 0) ''v'' 1 k \<mapsto> ''ok'')\<rparr>
      | None \<Rightarrow> s)"

definition verdict_host :: panel_host where
  "verdict_host = (token_host (answers_with []))\<lparr>ph_coordinator := verdict_writer,
     ph_from_json := (\<lambda>body. if body = ''ok'' then Some good_verdict else None)\<rparr>"

lemma find_auditor: "find (\<lambda>k. show_nat k = i) [0..<5] = Some k \<longleftrightarrow> k < 5 \<and> i = show_nat k"
  by (auto simp: find_Some_iff show_nat_inject)

lemma verdict_writer_file:
  "k < 5 \<Longrightarrow> sr_id req = show_nat k \<Longrightarrow>
   snd (verdict_writer req s) = s\<lparr>pn_files := (pn_files s)(format_verdict_path (sample_env 0) ''v'' 1 k \<mapsto> ''ok'')\<rparr>"
  using find_auditor [of "sr_id req" k] by (simp add: verdict_writer_def)

lemma verdict_host_sel:
  "ph_clock verdict_host = (\<lambda>_. 0)" "ph_ids verdict_host = show_nat" "ph_env verdict_host = sample_env 0"
  "ph_capture verdict_host = (\<lambda>_ _. None)" "ph_coordinator verdict_host = verdict_writer"
  by (simp_all add: verdict_host_def token_host_def)

definition good_vote :: "nat \<Rightarrow> SkepticResult" where
  "good_vote k = vote_of k (the (parse_verdict_json (ph_from_json verdict_host) ''ok'')) 0"

lemma verdict_act:
  assumes "si_verifier_id i = ''v''" "si_attempt i = 1" "k < 3"
  shows "run_alone (skeptic_act verdict_host inputs i None k) (\<lambda>_. 0) s =
    (good_vote k, s\<lparr>pn_files := (pn_files s)(format_verdict_path (sample_env 0) ''v'' 1 k \<mapsto> ''ok'')\<rparr>)"
proof -
  let ?s = "s\<lparr>pn_files := (pn_files s)(format_verdict_path (sample_env 0) ''v'' 1 k \<mapsto> ''ok'')\<rparr>"
  have json: "parse_verdict_json (ph_from_json verdict_host) ''ok'' = Some \<lparr>sv_refuted = False, sv_evidence = ''ran the tests'',
      sv_confidence = High, sv_blocking = NotBlocking, sv_details_md = [], sv_findings = []\<rparr>" by code_simp
  have trim: "trim [] = []" by code_simp
  have read: "run_alone (read_skeptic_verdict verdict_host k d (format_verdict_path (sample_env 0) ''v'' 1 k) t 0) (\<lambda>_. 0) ?s
      = (good_vote k, ?s)" for d t
    by (simp add: read_skeptic_verdict_def json good_vote_def trim Let_def)
  have "fst (verdict_writer req s) = says_written (sr_id req)" for req by (simp add: verdict_writer_def)
  then have writer: "verdict_writer (skeptic_request sp (show_nat k) rf m hn prompt) s = (says_written (show_nat k), ?s)" for sp rf m hn prompt
    using verdict_writer_file [of k "skeptic_request sp (show_nat k) rf m hn prompt" s] assms(3)
    by (auto intro!: prod_eqI simp: skeptic_request_def)
  have "ph_overrides verdict_host = []" "ph_skeptic_env verdict_host = (\<lambda>_. sample_env 0)" by (simp_all add: verdict_host_def token_host_def)
  moreover have "\<not> is_explicit \<lparr>so_model = None, so_agent_type = None\<rparr>" by (simp add: is_explicit_def)
  ultimately show ?thesis
    using sample_paths_valid(3,4) [OF assms(3)] assms(1,2)
    by (simp add: skeptic_act_def run_one_skeptic_def verdict_host_sel sample_root Let_def spawn_classifier_def
        spawn_with_fail_open_retry_def send_one_def run_alone_Access writer says_written_def read [simplified])
qed

lemma verdict_panel: "vs_outcome (fst (run_verification_stage verdict_host [] (sample_inputs 3) no_files))
    = Achieved ''/tmp/grok-goal-v/goal-classifier-v-1.md''"
proof -
  let ?s = "emit_event (GoalClassifierFired 1 (vi_max_runs (sample_inputs 3)) (vi_model_id (sample_inputs 3))) no_files"
  let ?i = "skeptic_inputs verdict_host (sample_inputs 3) ChangesUnavailable [] ?s"
  have i: "si_verifier_id ?i = ''v''" "si_attempt ?i = 1" by (simp_all add: skeptic_inputs_def sample_inputs_sel Let_def)
  have seats: "[Suc 0..<3] = [Suc 0, 2]" by code_simp
  have nz: "\<not> sk_refuted (good_vote 0)" by code_simp
  obtain s2 where p: "run_panel verdict_host [] (sample_inputs 3) ?i ?s = ((map good_vote [0, 1, 2], False, Some (show_nat 0)), s2)"
    using verdict_act [OF i, of 0] verdict_act [OF i, of 1] verdict_act [OF i, of 2] nz
    by (simp add: run_panel_def verdict_host_sel sample_inputs_sel join_all_def seats)
  have d: "format_details_path (sample_env 0) ''v'' 1 = ''/tmp/grok-goal-v/goal-classifier-v-1.md''" by code_simp
  obtain r s' where r: "conclude_panel verdict_host (sample_inputs 3) (map good_vote [0, 1, 2], False, Some (show_nat 0)) s2 = (r, s')"
    by fastforce
  have "run_verification_stage verdict_host [] (sample_inputs 3) no_files = (r, s')"
    using p r sample_paths_valid(1,2) by (simp add: run_verification_stage_def Let_def verdict_host_sel sample_inputs_sel sample_root)
  moreover have "snd (snd (aggregate_skeptic_verdicts (map good_vote [0, 1, 2])))" by code_simp
  ultimately show ?thesis using conclude_panel_result [OF r] d by (simp add: verdict_host_sel sample_inputs_sel panel_outcome_def)
qed

lemma verdict_paths_distinct: "j < 5 \<Longrightarrow> k < 5 \<Longrightarrow> j \<noteq> k \<Longrightarrow> format_verdict_path (sample_env 0) ''v'' 1 j \<noteq> format_verdict_path (sample_env 0) ''v'' 1 k"
proof -
  have "distinct (map (format_verdict_path (sample_env 0) ''v'' 1) [0, 1, 2, 3, 4])" by code_simp
  moreover assume "j < 5" "k < 5" "j \<noteq> k"
  ultimately show ?thesis by (auto simp: less_Suc_eq numeral_eq_Suc)
qed

theorem achieved_by_independent_majority_witness:
  "let M = (\<lambda>step. step \<in> set (stage_steps verdict_host [] (sample_inputs 3) no_files))
   in \<exists>approvals \<subseteq> {1, 2}. 2 < 2 * card approvals \<and> (\<forall>k\<in>approvals. approval verdict_host ''v'' 1 M k)"
proof -
  have "agents_separate verdict_host ''v'' 1"
    using verdict_writer_file verdict_paths_distinct by (fastforce simp: agents_separate_def verdict_host_sel)
  moreover have "{1..<3} = {1, 2 :: nat}" by auto
  ultimately show ?thesis
    using achieved_by_independent_majority [OF verdict_panel] by (simp add: sample_inputs_sel verdict_host_sel no_files_def Let_def)
qed

text \<open>
  One dissenting auditor of three decides, unless it is skeptic 0: two of the three auditors do not refute
  and the goal is rejected. The comment on the default size of the panel says a lone outlier cannot decide
  the outcome, and the one on the summary of gaps says a rejection implies a majority of refutations.
\<close>

theorem lone_dissenter_decides:
  "outcome_of (token_host (answers_with [''2''])) 3
   = NotAchieved ''/tmp/grok-goal-v/goal-classifier-v-1.md''
       ''- [skeptic 2] no verdict produced: verdict JSON missing/malformed; used terminal token'' []
       (''Model-fixable gaps:'' @ [NL] @ ''- [skeptic 2] no verdict produced: verdict JSON missing/malformed; used terminal token'')
       ''verdict json missing/malformed; used terminal token''"
  unfolding token_panel by code_simp

subsection \<open>What a rejection reports\<close>

definition tag_free :: "string \<Rightarrow> bool" where
  "tag_free s \<longleftrightarrow> (\<forall>t\<in>set frame_tags. \<not> contains_sub t s)"

lemma frame_tag_facts: "t \<in> set frame_tags \<Longrightarrow> t \<noteq> [] \<and> hd t = CHR ''<'' \<and> NL \<notin> set t"
  by (auto simp: frame_tags_def)

lemma tag_free_sanitize [simp]: "tag_free (sanitize_evidence s)"
  using tags_removed by (auto simp: tag_free_def sanitize_evidence_def)

lemma tag_free_prefix:
  assumes "CHR ''<'' \<notin> set p" and "tag_free s" shows "tag_free (p @ s)"
  unfolding tag_free_def
proof
  fix t assume t: "t \<in> set frame_tags"
  have "\<not> contains_sub t (p @ s)" using assms(1)
  proof (induction p)
    case Nil
    then show ?case using assms(2) t by (simp add: tag_free_def)
  next
    case (Cons c p)
    then have "\<not> starts_with t (c # p @ s)" using frame_tag_facts [OF t] by (cases t) (auto simp: starts_with_iff)
    then show ?case using Cons absent_Cons [of t c "p @ s"] frame_tag_facts [OF t] by simp
  qed
  then show "\<not> contains_sub t (p @ s)" .
qed

lemma tag_free_text: "CHR ''<'' \<notin> set p \<Longrightarrow> tag_free p"
  using tag_free_prefix [of p "[]"] frame_tag_facts by (auto simp: tag_free_def contains_sub_iff)

lemma tag_free_newline:
  assumes "tag_free x" and "tag_free y" shows "tag_free (x @ NL # y)"
  unfolding tag_free_def
proof
  fix t assume t: "t \<in> set frame_tags"
  have "\<not> contains_sub t x \<Longrightarrow> \<not> contains_sub t (x @ NL # y)"
  proof (induction x)
    case Nil
    have "\<not> starts_with t (NL # y)" using frame_tag_facts [OF t] by (cases t) (auto simp: starts_with_iff)
    then show ?case using absent_Cons [of t NL y] frame_tag_facts [OF t] assms(2) t by (simp add: tag_free_def)
  next
    case (Cons c x)
    have a: "\<not> starts_with t (c # x)" "\<not> contains_sub t x" using Cons.prems absent_Cons [of t c x] frame_tag_facts [OF t] by simp_all
    have "\<not> starts_with t ((c # x) @ NL # y)"
    proof
      assume "starts_with t ((c # x) @ NL # y)"
      then obtain b where "(c # x) @ NL # y = t @ b" by (auto simp: starts_with_iff)
      then obtain us where "c # x = t @ us \<or> (c # x) @ us = t \<and> NL # y = us @ b"
        by (metis append_eq_append_conv2)
      then show False using a(1) frame_tag_facts [OF t] by (cases us) (auto simp: starts_with_iff)
    qed
    then show ?case using Cons.IH a(2) absent_Cons [of t c "x @ NL # y"] frame_tag_facts [OF t] by simp
  qed
  then show "\<not> contains_sub t (x @ NL # y)" using assms(1) t by (simp add: tag_free_def)
qed

lemma tag_free_join: "\<forall>x\<in>set xs. tag_free x \<Longrightarrow> tag_free (join [NL] xs)"
proof (induction xs)
  case (Cons x xs)
  then show ?case by (cases xs) (auto intro: tag_free_newline)
qed (simp add: tag_free_text)

lemma show_nat_no_angle [simp]: "CHR ''<'' \<notin> set (show_nat n)"
  using show_nat_digits [of n] by (auto simp: list_all_iff is_ascii_digit_def)

lemma tag_free_finding: "tag_free (render_finding f)"
  by (auto simp: render_finding_def Let_def split: option.split intro!: tag_free_prefix
      [of "''criterion '' @ show_nat c @ '' '' @ MIDDLE_DOT @ '' ''" for c, simplified])

lemma tag_free_bullet: "tag_free (render_refuter_bullet r)"
proof -
  let ?header = "''- [skeptic '' @ show_nat (sk_idx r) @ '', '' @ confidence_str (sk_confidence r) @ '']''"
  have h: "CHR ''<'' \<notin> set ?header" by (cases "sk_confidence r") auto
  have "tag_free (?header @ NL # join [NL] (map (\<lambda>f. ''  - '' @ render_finding f) (take GAPS_MAX_FINDINGS (sk_findings r))))"
    using tag_free_newline [OF tag_free_text [OF h] tag_free_join] tag_free_prefix [of "''  - ''", OF _ tag_free_finding] by simp
  moreover have "tag_free (?header @ '' '' @ sanitize_evidence e)" for e
    using tag_free_prefix [of "?header @ '' ''" "sanitize_evidence e"] h by simp
  moreover have "tag_free (''- [skeptic '' @ show_nat n @ ''] no verdict produced: '' @ sanitize_evidence e)" for n e
    using tag_free_prefix [of "''- [skeptic '' @ show_nat n @ ''] no verdict produced: ''" "sanitize_evidence e"] by simp
  moreover have "tag_free (''- [skeptic '' @ show_nat n @ ''] refuted (no evidence)'')" for n
    by (rule tag_free_text) simp
  ultimately show ?thesis by (simp add: render_refuter_bullet_def Let_def split: option.split)
qed

lemma refuters_iff: "r \<in> set (refuters_by_confidence results) \<longleftrightarrow> r \<in> set results \<and> sk_refuted r"
  by (simp add: refuters_by_confidence_def)

lemma bullet_nonempty [simp]: "render_refuter_bullet r \<noteq> []"
  by (simp add: render_refuter_bullet_def Let_def split: option.split)

lemma join_nonempty: "xs \<noteq> [] \<Longrightarrow> \<forall>x\<in>set xs. x \<noteq> [] \<Longrightarrow> join sep xs \<noteq> []"
  by (induction sep xs rule: join.induct) auto

lemma refuters_nonempty: "list_ex sk_refuted results \<Longrightarrow> refuters_by_confidence results \<noteq> []"
  using refuters_iff [of _ results] by (auto simp: list_ex_iff)

lemma gaps_summary_nonempty: "list_ex sk_refuted results \<Longrightarrow> build_gaps_summary results \<noteq> []"
  unfolding build_gaps_summary_def using refuters_nonempty by (intro join_nonempty) auto

lemma pause_group_ok: "pause_group rs (b, header) = Some g \<Longrightarrow> CHR ''<'' \<notin> set header \<Longrightarrow> g \<noteq> [] \<and> tag_free g"
  using tag_free_newline [OF tag_free_text [of "header @ '':''"] tag_free_join] tag_free_bullet
  by (fastforce simp: pause_group_def Let_def split: if_splits)

text \<open>The groups of the pause summary, in order.\<close>

definition pause_groups :: "SkepticResult list \<Rightarrow> string list" where
  "pause_groups results =
     List.map_filter (pause_group (refuters_by_confidence results))
       [(NotBlocking, PAUSE_GROUP_FIXABLE), (Contradiction, PAUSE_GROUP_CONTRADICTION),
        (Unverifiable, PAUSE_GROUP_UNVERIFIABLE)]"

lemma map_filter_mem: "y \<in> set (List.map_filter f xs) \<longleftrightarrow> (\<exists>x\<in>set xs. f x = Some y)"
  by (force simp: List.map_filter_def)

lemma pause_groups_ok: "g \<in> set (pause_groups results) \<Longrightarrow> g \<noteq> [] \<and> tag_free g"
  unfolding pause_groups_def map_filter_mem
  by (auto simp: PAUSE_GROUP_FIXABLE_def PAUSE_GROUP_CONTRADICTION_def PAUSE_GROUP_UNVERIFIABLE_def dest!: pause_group_ok)

lemma pause_groups_nonempty:
  assumes "list_ex sk_refuted results" shows "pause_groups results \<noteq> []"
proof -
  obtain r where "r \<in> set (refuters_by_confidence results)"
    using refuters_nonempty [OF assms] by (cases "refuters_by_confidence results") auto
  then have "\<exists>header g. pause_group (refuters_by_confidence results) (sk_blocking r, header) = Some g
      \<and> (sk_blocking r, header) \<in> {(NotBlocking, PAUSE_GROUP_FIXABLE), (Contradiction, PAUSE_GROUP_CONTRADICTION),
           (Unverifiable, PAUSE_GROUP_UNVERIFIABLE)}"
    by (cases "sk_blocking r") (auto simp: pause_group_def Let_def filter_empty_conv)
  then have "\<exists>g. g \<in> set (pause_groups results)" unfolding pause_groups_def map_filter_mem by fastforce
  then show ?thesis by auto
qed

lemma pause_summary_ok:
  "tag_free (build_pause_summary results)" "list_ex sk_refuted results \<Longrightarrow> build_pause_summary results \<noteq> []"
proof -
  have eq: "build_pause_summary results = join [NL] (pause_groups results)" by (simp add: build_pause_summary_def pause_groups_def)
  show "tag_free (build_pause_summary results)" unfolding eq by (rule tag_free_join) (use pause_groups_ok in blast)
  show "build_pause_summary results \<noteq> []" if "list_ex sk_refuted results"
    unfolding eq by (rule join_nonempty) (use pause_groups_ok pause_groups_nonempty [OF that] in blast)+
qed

lemma rejected_has_refuter:
  assumes "run_panel h sched inputs i s = ((results, decisive, sid), s')"
    and "\<not> (snd (snd (aggregate_skeptic_verdicts results)) \<and> \<not> decisive)"
  shows "list_ex sk_refuted results"
proof (cases "panel_size inputs = 1")
  case True
  from panel_sole [OF assms(1) True] assms(2) show ?thesis by (auto simp: quorum_sole)
next
  case False
  then have n: "1 < panel_size inputs" using panel_size_bounds(1) [of inputs] by simp
  from assms(1) n show ?thesis
  proof (cases rule: panel_fan_out)
    case (full first rest)
    have "rest \<noteq> []" using full(3) n by auto
    then have "\<not> decisive \<Longrightarrow> filter (\<lambda>r. \<not> sk_refuted r) rest \<noteq> rest"
      using quorum_full [OF full(2), of rest] full(5) assms(2) by (auto simp: full(1))
    then show ?thesis using full(1,4) by (auto simp: list_ex_iff filter_id_conv)
  qed simp
qed

definition report_ok :: "SkepticResult list \<Rightarrow> GoalClassifierOutcome \<Rightarrow> bool" where
  "report_ok results outcome \<longleftrightarrow>
     (case outcome of
        Achieved d \<Rightarrow> True
      | NotAchieved d gaps findings message fingerprint \<Rightarrow>
          (\<exists>x\<in>set results. sk_refuted x \<and> \<not> is_blocking (sk_blocking x))
          \<and> gaps = build_gaps_summary results \<and> gaps \<noteq> [] \<and> tag_free gaps \<and> tag_free message
          \<and> (\<forall>f\<in>set findings. tag_free (cf_message f))
      | BlockedOutcome d message \<Rightarrow>
          (\<exists>x\<in>set results. sk_refuted x) \<and> (\<forall>x\<in>set results. sk_refuted x \<longrightarrow> is_blocking (sk_blocking x))
          \<and> message = build_pause_summary results \<and> message \<noteq> [] \<and> tag_free message
      | FailOpenAchieved reason d \<Rightarrow> False)"

lemma panel_outcome_report_ok:
  assumes "\<not> achieved \<Longrightarrow> list_ex sk_refuted results"
  shows "report_ok results (panel_outcome results achieved d)"
proof -
  have "tag_free (build_gaps_summary results)"
    unfolding build_gaps_summary_def by (rule tag_free_join) (simp add: tag_free_bullet)
  moreover have "\<forall>f\<in>set (build_gaps_findings results). tag_free (cf_message f)"
    by (auto simp: build_gaps_findings_def tag_free_finding)
  ultimately show ?thesis
    using assms pause_summary_ok [of results] gaps_summary_nonempty [of results]
    by (auto simp: report_ok_def panel_outcome_def all_blocking_def list_ex_iff list_all_iff)
qed

text \<open>
  Property C10. When the panel has run and does not approve, its report is usable and inert: some auditor
  refuted; a retry is asked for when some refutation is not a blocker, with a non-empty summary of the
  gaps, and a decision of the user when all are; and no text shown to the model or the user (the summary,
  the message of every finding, the pause message) holds a frame tag, whatever the auditors wrote.
\<close>

theorem rejection_is_reported:
  assumes "run_verification_stage h sched inputs s = (r, s')" and "vs_panel_ran r"
  shows "\<exists>i s1 results decisive s2.
    run_panel h sched inputs i s1 = ((results, decisive, vs_skeptic0_session_id r), s2) \<and> report_ok results (vs_outcome r)"
proof -
  obtain i s1 results decisive s2 where p: "run_panel h sched inputs i s1 = ((results, decisive, vs_skeptic0_session_id r), s2)"
    and o: "vs_outcome r = panel_outcome results (snd (snd (aggregate_skeptic_verdicts results)) \<and> \<not> decisive)
              (format_details_path (ph_env h) (vi_verifier_id inputs) (vi_attempt inputs))"
    using stage_cases [OF assms(1)] assms(2) unfolding concludes_def by blast
  have "report_ok results (vs_outcome r)" unfolding o by (rule panel_outcome_report_ok) (use rejected_has_refuter [OF p] in blast)
  with p show ?thesis by blast
qed

theorem rejection_is_reported_witness:
  "let (r, s') = run_verification_stage (token_host (answers_with [''2''])) [] (sample_inputs 3) no_files in
   vs_panel_ran r \<and> (\<exists>d gaps findings message fingerprint.
     vs_outcome r = NotAchieved d gaps findings message fingerprint \<and> gaps \<noteq> [] \<and> tag_free gaps)"
proof -
  let ?h = "token_host (answers_with [''2''])"
  obtain r s' where r: "run_verification_stage ?h [] (sample_inputs 3) no_files = (r, s')" by fastforce
  have o: "vs_outcome r = outcome_of ?h 3" by (simp add: outcome_of_def r)
  then have "vs_panel_ran r" using stage_cases [OF r] lone_dissenter_decides by auto
  from rejection_is_reported [OF r this] this show ?thesis
    using o [unfolded lone_dissenter_decides] by (auto simp: r report_ok_def)
qed

subsection \<open>The stall fingerprint\<close>

lemma distinct_adjacent: "sorted xs \<Longrightarrow> distinct (remdups_adj (xs :: string list))"
  by (induction xs rule: remdups_adj.induct) (auto simp: order.antisym)

lemma dedup_sort: "remdups_adj (sort xs) = sorted_list_of_set (set (xs :: string list))"
  using sorted_list_of_set.idem_if_sorted_distinct [of "remdups_adj (sort xs)"] distinct_adjacent [of "sort xs"]
  by (simp add: sorted_remdups_adj)

text \<open>
  The stall fingerprint of a rejection depends only on the set of the refuters' texts: not on the
  order of the auditors, on repetitions, on their confidence or on skeptic numbers. And it is the sorted list,
  without duplicates, of the citations; with no citation, of the lower-cased texts.
\<close>

theorem fingerprint_order_free:
  "(set xs = set ys \<longrightarrow> gap_fingerprint xs = gap_fingerprint ys)
   \<and> (let cited = \<Union>(set (map (\<lambda>e. set (extract_path_line_tokens (normalize_scratch_paths e))) xs))
      in cited \<noteq> {} \<longrightarrow> gap_fingerprint xs = join [NL] (sorted_list_of_set cited))"
proof -
  let ?cited = "\<lambda>xs. concat (map extract_path_line_tokens (map normalize_scratch_paths xs))"
  have "set xs = set ys \<Longrightarrow> set (?cited xs) = set (?cited ys)" by auto
  then have "set xs = set ys \<Longrightarrow> gap_fingerprint xs = gap_fingerprint ys"
    by (auto simp: gap_fingerprint_def dedup_sort Let_def)
  moreover have "\<Union>(set (map (\<lambda>e. set (extract_path_line_tokens (normalize_scratch_paths e))) xs)) = set (?cited xs)" by auto
  moreover have "set (?cited xs) \<noteq> {} \<Longrightarrow> gap_fingerprint xs = join [NL] (sorted_list_of_set (set (?cited xs)))"
    by (auto simp: gap_fingerprint_def dedup_sort Let_def)
  ultimately show ?thesis by (simp only: Let_def) blast
qed

theorem fingerprint_order_free_witness:
  "set [''a.rs:1'', ''b.rs:2''] = set [''b.rs:2'', ''a.rs:1'', ''b.rs:2'']
   \<and> gap_fingerprint [''a.rs:1'', ''b.rs:2''] = gap_fingerprint [''b.rs:2'', ''a.rs:1'', ''b.rs:2'']"
  using fingerprint_order_free [of "[''a.rs:1'', ''b.rs:2'']" "[''b.rs:2'', ''a.rs:1'', ''b.rs:2'']"] by auto

subsection \<open>Artefact paths\<close>

lemma split_on_part: "part \<in> set (split_on c s) \<Longrightarrow> contains_sub part s"
proof (induction s arbitrary: part)
  case (Cons d s)
  show ?case
  proof (cases "part \<in> set (split_on c s)")
    case True
    then show ?thesis using Cons.IH contains_sub_iff by (metis append_Cons)
  next
    case False
    obtain x xs where x: "split_on c s = x # xs" by (cases "split_on c s") auto
    have "\<exists>r. s = x @ r" using join_split_on [of c s] x by (cases xs) auto
    then show ?thesis using Cons.prems False x by (auto simp: contains_sub_iff split: if_splits; metis append_Cons append_Nil)
  qed
qed (simp add: contains_sub_iff)

text \<open>
  A validated artefact path lies under the temporary directory, component by component, and has no component that
  leads out of it.
\<close>

theorem validated_path_confined:
  assumes "validate_details_path e path = None"
  shows "path_starts_with path (env_temp_dir e)" and "ParentDir \<notin> set (components path)"
proof -
  have "\<not> contains_sub ''..'' path" and "path_starts_with path (env_temp_dir e)"
    using assms by (auto simp: validate_details_path_def validate_details_path_in_root_def split: if_splits)
  then show "path_starts_with path (env_temp_dir e)" and "ParentDir \<notin> set (components path)"
    using split_on_part [of "''..''" "CHR ''/''" path] by (auto simp: components_def)
qed

text \<open>
  With a temporary directory under a forbidden prefix (a common choice is \<^verbatim>\<open>/dev/shm\<close>) no artefact path validates: the
  stage ends without an auditor every time, so no claim of completion can ever be verified.
\<close>

theorem forbidden_temp_dir_fails_open:
  assumes "env_temp_dir (ph_env h) = ''/dev/shm''"
  shows "\<exists>d. vs_outcome (fst (run_verification_stage h sched inputs s)) = FailOpenAchieved FileWriteFailed d"
proof -
  have name: "\<exists>n. replace_all ''{attempt}'' w (replace_all ''{verifier_id}'' v GOAL_CLASSIFIER_DETAILS_PATH_TEMPLATE) = CHR ''g'' # n" for v w
    by (simp add: GOAL_CLASSIFIER_DETAILS_PATH_TEMPLATE_def replace_all_skip starts_with_iff)
  have "validate_details_path (ph_env h) (format_details_path (ph_env h) v a) \<noteq> None" for v a
    using name [of "show_nat a" v]
    by (auto simp add: validate_details_path_def validate_details_path_in_root_def format_details_path_def stage_path_def
        scratch_rooted_def goal_scratch_root_def path_join_def assms starts_with_iff ends_with_iff)
  then show ?thesis
    by (auto simp: run_verification_stage_def record_fail_open_def Let_def split: prod.split)
qed

end
