(* ===== verification/Panel_Schedule.thy ===== *)
theory Panel_Schedule
  imports Panel_Correct
begin

text \<open>
  The auditors of a panel run at the same time. When every agent keeps to the files that are its own, the
  outcome of the panel does not depend on the order in which the agents happen to act and finish.
\<close>

subsection \<open>Agents that keep to their files\<close>

text \<open>\<open>owned k\<close> are the files of auditor \<open>k\<close>; its view is every file that is not another's.\<close>

definition view :: "(nat \<Rightarrow> string set) \<Rightarrow> nat \<Rightarrow> panel_state \<Rightarrow> string \<Rightarrow> string option" where
  "view owned k s = (\<lambda>p. if \<exists>j. j \<noteq> k \<and> p \<in> owned j then None else pn_files s p)"

definition agents_confined :: "panel_host \<Rightarrow> (nat \<Rightarrow> string set) \<Rightarrow> bool" where
  "agents_confined h owned \<longleftrightarrow>
     (\<forall>k req s. sr_id req = ph_ids h k \<longrightarrow>
        (\<forall>p. p \<notin> owned k \<longrightarrow> pn_files (snd (ph_coordinator h req s)) p = pn_files s p)
        \<and> (\<forall>s'. view owned k s = view owned k s' \<longrightarrow>
             fst (ph_coordinator h req s) = fst (ph_coordinator h req s')
             \<and> view owned k (snd (ph_coordinator h req s)) = view owned k (snd (ph_coordinator h req s'))))"

definition owns_reports :: "panel_host \<Rightarrow> string \<Rightarrow> nat \<Rightarrow> (nat \<Rightarrow> string set) \<Rightarrow> bool" where
  "owns_reports h verifier_id attempt owned \<longleftrightarrow>
     (\<forall>k<5. format_verdict_path (ph_env h) verifier_id attempt k \<in> owned k
          \<and> format_verifier_details_path (ph_env h) verifier_id attempt k \<in> owned k)
     \<and> (\<forall>j k. j \<noteq> k \<longrightarrow> owned j \<inter> owned k = {})"

lemma view_eq_iff:
  "view owned k s = view owned k s' \<longleftrightarrow> (\<forall>p. (\<forall>j. j \<noteq> k \<longrightarrow> p \<notin> owned j) \<longrightarrow> pn_files s p = pn_files s' p)"
  by (auto simp: view_def fun_eq_iff)

lemma view_other: "(\<And>p. p \<notin> owned k \<Longrightarrow> pn_files s' p = pn_files s p) \<Longrightarrow> j \<noteq> k \<Longrightarrow> view owned j s' = view owned j s"
  unfolding view_eq_iff by metis

lemma view_read:
  "view owned k s = view owned k s' \<Longrightarrow> p \<in> owned k \<Longrightarrow> (\<And>j. j \<noteq> k \<Longrightarrow> owned j \<inter> owned k = {}) \<Longrightarrow> pn_files s p = pn_files s' p"
  unfolding view_eq_iff by blast

lemma view_write:
  "view owned k s = view owned k s' \<Longrightarrow> view owned k (write_file h p body s) = view owned k (write_file h p body s')"
  unfolding view_eq_iff write_file_def by simp

lemma view_emit [simp]: "view owned k (emit_event e s) = view owned k s"
  unfolding view_eq_iff emit_event_def by simp

subsection \<open>One auditor is confined\<close>

definition no_latency :: "SkepticResult \<Rightarrow> SkepticResult" where
  "no_latency r = r\<lparr>sk_latency_ms := 0\<rparr>"

lemma observed_load [simp]: "observed p (load sel k) s = observed p (k (sel s)) s"
  by (simp add: load_def)

lemma observed_store [simp]: "observed p (store upd k) s = observed p k (upd s)"
  by (simp add: store_def)

lemma no_latency_votes [simp]:
  "no_latency (vote_of idx v l) = vote_of idx v 0"
  "no_latency (skeptic_failure idx note l) = skeptic_failure idx note 0"
  "no_latency (token_vote idx terminal l) = token_vote idx terminal 0"
  by (simp_all add: no_latency_def vote_of_def skeptic_failure_def token_vote_def split: option.split)

lemma observed_fail_with [simp]: "observed no_latency (fail_with idx note started) s = skeptic_failure idx note 0"
  by (simp add: fail_with_def)

lemma observed_read:
  "observed no_latency (read_skeptic_verdict h idx d v terminal started) s = observed no_latency (read_skeptic_verdict h idx d v terminal started') s"
  by (simp add: read_skeptic_verdict_def Let_def split: option.split)

lemma observed_send_one:
  "(\<And>a s. observed p (k a) s = observed p (k' a) s) \<Longrightarrow>
   observed p (send_one c sp i rf m hn prompt k) s = observed p (send_one c sp i rf m hn prompt k') s"
  by (simp add: send_one_def case_prod_unfold)

lemma observed_spawn:
  assumes "\<And>a s. observed p (k a) s = observed p (k' a) s"
  shows "observed p (spawn_classifier h i idx prompt rf k) s = observed p (spawn_classifier h i idx prompt rf k') s"
  unfolding spawn_classifier_def spawn_with_fail_open_retry_def Let_def
  by (simp add: observed_send_one [OF assms], intro impI conjI observed_send_one)
    (auto split: sum.split intro!: observed_send_one assms)

lemma confined_fail_with: "confined (view owned) no_latency k (fail_with idx note started)"
  unfolding fail_with_def by (intro confined_Clock confined_Ret) (simp add: unclocked_def)

lemma confined_send_one:
  assumes "agents_confined h owned" and "\<And>a. confined (view owned) p k (c a)"
  shows "confined (view owned) p k (send_one (ph_coordinator h) (ph_spawner h) (ph_ids h k) rf m hn prompt c)"
  unfolding send_one_def case_prod_unfold
proof (rule confined_Access)
  let ?req = "skeptic_request (ph_spawner h) (ph_ids h k) rf m hn prompt"
  let ?f = "\<lambda>s. (snd (ph_coordinator h ?req s), c (spawn_result (fst (ph_coordinator h ?req s))))"
  have "sr_id ?req = ph_ids h k" by (simp add: skeptic_request_def)
  note agent = assms(1) [unfolded agents_confined_def, rule_format, OF this]
  have local: "\<And>p s. p \<notin> owned k \<Longrightarrow> pn_files (snd (ph_coordinator h ?req s)) p = pn_files s p"
    "\<And>s s'. view owned k s = view owned k s' \<Longrightarrow> fst (ph_coordinator h ?req s) = fst (ph_coordinator h ?req s')
       \<and> view owned k (snd (ph_coordinator h ?req s)) = view owned k (snd (ph_coordinator h ?req s'))"
    using agent by blast+
  show "local_access (view owned) k ?f"
    unfolding local_access_def
  proof (intro conjI allI impI)
    fix s j assume "j \<noteq> k"
    then show "view owned j (fst (?f s)) = view owned j s" using view_other [of owned k, OF local(1)] by simp
  next
    fix s s' assume "view owned k s = view owned k s'"
    from local(2) [OF this] show "view owned k (fst (?f s)) = view owned k (fst (?f s'))" "snd (?f s) = snd (?f s')" by simp_all
  qed
qed (simp add: assms(2))

lemma confined_spawn:
  assumes "agents_confined h owned" and "\<And>a. confined (view owned) p k (c a)"
  shows "confined (view owned) p k (spawn_classifier h (ph_ids h k) idx prompt rf c)"
proof -
  have retry: "confined (view owned) p k (store (emit_event e) (send_one (ph_coordinator h) (ph_spawner h) (ph_ids h k) rf None None q c))" for e q
    by (intro confined_store confined_send_one assms) simp_all
  show ?thesis
    unfolding spawn_classifier_def spawn_with_fail_open_retry_def Let_def
    by (auto intro!: confined_send_one assms retry split: sum.split)
qed

lemma confined_read:
  assumes "owns_reports h v a owned" and "k < 5"
  shows "confined (view owned) no_latency k
    (read_skeptic_verdict h idx (format_verifier_details_path (ph_env h) v a k) (format_verdict_path (ph_env h) v a k) terminal started)"
proof -
  let ?d = "format_verifier_details_path (ph_env h) v a k"
  have own: "?d \<in> owned k" "format_verdict_path (ph_env h) v a k \<in> owned k" "\<And>j. j \<noteq> k \<Longrightarrow> owned j \<inter> owned k = {}"
    using assms unfolding owns_reports_def by blast+
  have reads: "pn_files s ?d = pn_files s' ?d"
    "pn_files s (format_verdict_path (ph_env h) v a k) = pn_files s' (format_verdict_path (ph_env h) v a k)"
    if "view owned k s = view owned k s'" for s s'
    using view_read [OF that] own by blast+
  have ret: "confined (view owned) no_latency k (Clock (\<lambda>now. Ret (vote_of idx vd (elapsed_ms started now))))"
    "confined (view owned) no_latency k (Clock (\<lambda>now. Ret (token_vote idx terminal (elapsed_ms started now))))" for vd
    by (intro confined_Clock confined_Ret; simp add: unclocked_def)+
  have wr: "confined (view owned) no_latency k (store (write_file h ?d body) c)" if "confined (view owned) no_latency k c" for body c
  proof (rule confined_store [OF that])
    fix s j assume "j \<noteq> k"
    then show "view owned j (write_file h ?d body s) = view owned j s" using own(1) by (intro view_other) (auto simp: write_file_def)
  qed (rule view_write)
  show ?thesis
    unfolding read_skeptic_verdict_def Let_def
    by (rule confined_load) (auto split: option.split intro!: confined_load ret wr intro: reads)
qed

lemma confined_act:
  assumes "agents_confined h owned" and "owns_reports h (si_verifier_id i) (si_attempt i) owned" and "k < 5"
  shows "confined (view owned) no_latency k (skeptic_act h inputs i None k)"
proof -
  note spawn = confined_spawn [OF assms(1)] and read = confined_read [OF assms(2,3)]
  show ?thesis
    unfolding skeptic_act_def run_one_skeptic_def
  proof (rule confined_Clock, goal_cases)
    case (1 started)
    then show ?case
      by (auto simp: Let_def split: option.split sum.split intro!: confined_fail_with spawn read)
  next
    case 2
    have "observed no_latency (case r of Inr terminal \<Rightarrow> read_skeptic_verdict h k d v terminal n | Inl e \<Rightarrow> fail_with k (spawn_failure_note e) n) s
        = observed no_latency (case r of Inr terminal \<Rightarrow> read_skeptic_verdict h k d v terminal m | Inl e \<Rightarrow> fail_with k (spawn_failure_note e) m) s"
      for r d v n m s by (cases r) (simp_all add: observed_read [of h k d v _ n _ m])
    then show ?case unfolding unclocked_def
      by (auto simp: Let_def split: option.split intro!: observed_spawn)
  qed
qed

lemma cold_panel_results:
  assumes "agents_confined h owned" and "owns_reports h (si_verifier_id i) (si_attempt i) owned" and "n \<le> 5"
  shows "map no_latency (fst (join_all sched now c (map (skeptic_act h inputs i None) [m..<n]) s)) =
         map (\<lambda>k. observed no_latency (skeptic_act h inputs i None k) s) [m..<n]"
proof -
  have "all_confined (view owned) no_latency m (map (skeptic_act h inputs i None) [m..<n])"
    using confined_act [OF assms(1,2)] assms(3) by (auto simp: all_confined_def)
  from join_all_confined [OF this] show ?thesis by (simp add: comp_def)
qed

subsection \<open>The outcome does not depend on the schedule\<close>

lemma no_latency_sel [simp]:
  "sk_idx (no_latency r) = sk_idx r" "sk_refuted (no_latency r) = sk_refuted r" "sk_confidence (no_latency r) = sk_confidence r"
  "sk_blocking (no_latency r) = sk_blocking r" "sk_evidence (no_latency r) = sk_evidence r" "sk_findings (no_latency r) = sk_findings r"
  "sk_fallback_note (no_latency r) = sk_fallback_note r"
  by (simp_all add: no_latency_def)

lemma filter_no_latency: "(\<And>r. P (no_latency r) = P r) \<Longrightarrow> filter P (map no_latency rs) = map no_latency (filter P rs)"
  by (induction rs) auto

lemma sort_no_latency: "sort_key (\<lambda>r. confidence_rank (sk_confidence r)) (map no_latency rs) = map no_latency (sort_key (\<lambda>r. confidence_rank (sk_confidence r)) rs)"
proof -
  have "insort_key f (no_latency x) (map no_latency ys) = map no_latency (insort_key f x ys)"
    if "\<And>r. f (no_latency r) = f r" for f :: "SkepticResult \<Rightarrow> nat" and x ys
    using that by (induction ys) auto
  then show ?thesis by (induction rs) (auto simp: sort_key_def)
qed

lemma bullet_no_latency [simp]: "render_refuter_bullet (no_latency r) = render_refuter_bullet r"
  by (simp add: render_refuter_bullet_def Let_def split: option.split)

lemma aggregate_no_latency: "aggregate_skeptic_verdicts (map no_latency rs) = aggregate_skeptic_verdicts rs"
  by (simp add: aggregate_skeptic_verdicts_def cold_def filter_no_latency Let_def)

lemma refuters_no_latency: "refuters_by_confidence (map no_latency rs) = map no_latency (refuters_by_confidence rs)"
  by (simp add: refuters_by_confidence_def filter_no_latency sort_no_latency)

lemma outcome_no_latency: "panel_outcome (map no_latency rs) achieved d = panel_outcome rs achieved d"
proof -
  have "pause_group (map no_latency xs) = pause_group xs" for xs
    by (rule ext, rule prod.induct) (simp add: pause_group_def filter_no_latency Let_def comp_def)
  then have "build_pause_summary (map no_latency rs) = build_pause_summary rs"
    by (simp add: build_pause_summary_def refuters_no_latency)
  moreover have "build_gaps_summary (map no_latency rs) = build_gaps_summary rs"
    "build_gaps_findings (map no_latency rs) = build_gaps_findings rs"
    by (simp_all add: build_gaps_summary_def build_gaps_findings_def refuters_no_latency comp_def)
  moreover have "refuter_fingerprint_source (no_latency r) = refuter_fingerprint_source r" for r
    by (simp add: refuter_fingerprint_source_def)
  moreover have "all_blocking (map no_latency rs) = all_blocking rs" by (auto simp: all_blocking_def list_ex_iff list_all_iff)
  ultimately show ?thesis by (simp add: panel_outcome_def filter_no_latency comp_def)
qed

lemma run_panel_schedule:
  assumes "agents_confined h owned" and "owns_reports h (si_verifier_id i) (si_attempt i) owned"
  shows "map no_latency (fst (fst (run_panel h sched inputs i s))) = map no_latency (fst (fst (run_panel h sched' inputs i s)))
    \<and> snd (fst (run_panel h sched inputs i s)) = snd (fst (run_panel h sched' inputs i s))"
  unfolding run_panel_def
  using cold_panel_results [OF assms panel_size_bounds(2) [of inputs]]
  by (simp add: Let_def case_prod_unfold del: upt_Suc)

text \<open>
  Property C9. The outcome of the verification stage, the identifier it hands on and whether the panel ran do
  not depend on the schedule of the auditors, provided the agents are confined: each auditor has files of its own, disjoint from
  those of the others and including its verdict and report files; an agent of an auditor changes only files of this auditor; and
  neither its reply nor what it writes depends on the files of other auditors.
\<close>

theorem verification_schedule_free:
  assumes "agents_confined h owned" and "owns_reports h (vi_verifier_id inputs) (vi_attempt inputs) owned"
  shows "fst (run_verification_stage h sched inputs s) = fst (run_verification_stage h sched' inputs s)"
proof -
  have result: "fst (conclude_panel h inputs (rs, dec, sid) s1) =
      \<lparr>vs_outcome = panel_outcome (map no_latency rs) (snd (snd (aggregate_skeptic_verdicts (map no_latency rs))) \<and> \<not> dec)
         (format_details_path (ph_env h) (vi_verifier_id inputs) (vi_attempt inputs)), vs_skeptic0_session_id = sid, vs_panel_ran = True\<rparr>"
    for rs dec sid s1
    by (auto simp: conclude_panel_def Let_def outcome_no_latency aggregate_no_latency split: prod.split)
  have same: "fst (conclude_panel h inputs (fst (run_panel h sched inputs i s1)) t)
      = fst (conclude_panel h inputs (fst (run_panel h sched' inputs i s1)) t')"
    if "si_verifier_id i = vi_verifier_id inputs" "si_attempt i = vi_attempt inputs" for i s1 t t'
    using run_panel_schedule [OF assms(1), of i sched inputs s1 sched'] assms(2) that
    by (cases "fst (run_panel h sched inputs i s1)"; cases "fst (run_panel h sched' inputs i s1)") (simp add: result)
  have "si_verifier_id (skeptic_inputs h inputs c f t) = vi_verifier_id inputs" "si_attempt (skeptic_inputs h inputs c f t) = vi_attempt inputs"
    for c f t by (simp_all add: skeptic_inputs_def Let_def)
  note same [OF this]
  then show ?thesis
    unfolding run_verification_stage_def by (simp add: Let_def case_prod_unfold split: option.split)
qed

definition own_reports :: "nat \<Rightarrow> string set" where
  "own_reports k = (if k < 5 then {format_verdict_path (sample_env 0) ''v'' 1 k, format_verifier_details_path (sample_env 0) ''v'' 1 k} else {})"

lemma own_reports_disjoint: "j \<noteq> k \<Longrightarrow> own_reports j \<inter> own_reports k = {}"
proof -
  have "distinct (concat (map (\<lambda>k. [format_verdict_path (sample_env 0) ''v'' 1 k, format_verifier_details_path (sample_env 0) ''v'' 1 k]) [0, 1, 2, 3, 4]))"
    by code_simp
  then show "j \<noteq> k \<Longrightarrow> own_reports j \<inter> own_reports k = {}"
    by (auto simp: own_reports_def less_Suc_eq numeral_eq_Suc)
qed

text \<open>The agents of the panel of three, each writing its verdict into its own file, are confined to their files.\<close>

lemma verdict_host_confined: "agents_confined verdict_host own_reports"
  unfolding agents_confined_def
proof (intro allI impI)
  fix k and req :: SubagentRequest and s :: panel_state
  assume i: "sr_id req = ph_ids verdict_host k"
  let ?f = "format_verdict_path (sample_env 0) ''v'' 1 k"
  have after: "snd (verdict_writer req t) = (if k < 5 then t\<lparr>pn_files := (pn_files t)(?f \<mapsto> ''ok'')\<rparr> else t)" for t
  proof (cases "k < 5")
    case False
    then have "find (\<lambda>k. show_nat k = sr_id req) [0..<5] = None" using find_auditor [of "sr_id req"] i
      by (cases "find (\<lambda>k. show_nat k = sr_id req) [0..<5]") (auto simp: verdict_host_sel show_nat_inject)
    then show ?thesis using False by (simp add: verdict_writer_def)
  qed (use verdict_writer_file [of k req t] i in \<open>simp add: verdict_host_sel\<close>)
  have "fst (verdict_writer req t) = says_written (sr_id req)" for t by (simp add: verdict_writer_def)
  then show "(\<forall>p. p \<notin> own_reports k \<longrightarrow> pn_files (snd (ph_coordinator verdict_host req s)) p = pn_files s p)
      \<and> (\<forall>s'. view own_reports k s = view own_reports k s' \<longrightarrow>
           fst (ph_coordinator verdict_host req s) = fst (ph_coordinator verdict_host req s')
           \<and> view own_reports k (snd (ph_coordinator verdict_host req s)) = view own_reports k (snd (ph_coordinator verdict_host req s')))"
    by (auto simp: verdict_host_sel after own_reports_def view_eq_iff)
qed

theorem verification_schedule_free_witness:
  "fst (run_verification_stage verdict_host [Inl 1, Inr 5, Inl 0, Inl 0] (sample_inputs 3) no_files)
   = fst (run_verification_stage verdict_host [] (sample_inputs 3) no_files)"
proof (rule verification_schedule_free [OF verdict_host_confined])
  show "owns_reports verdict_host (vi_verifier_id (sample_inputs 3)) (vi_attempt (sample_inputs 3)) own_reports"
    using own_reports_disjoint by (auto simp: owns_reports_def own_reports_def verdict_host_sel sample_inputs_sel)
qed

subsection \<open>Verdicts of an earlier attempt\<close>

text \<open>
  The verdict file of an auditor is named by the goal, the attempt and the auditor, and is not removed before
  the auditor runs. Resuming a paused goal restarts the attempts at one. An auditor that then ends without
  writing a verdict votes with the verdict its predecessor left, whatever its own answer is; the comments
  promise a refuting vote for a missing verdict.
\<close>

lemma spawn_succeeds:
  assumes "\<And>req. sr_id req = i \<Longrightarrow> ph_coordinator h req s = (reply, s)" and "spawn_result reply = Inr terminal"
  shows "observed p (spawn_classifier h i idx prompt rf k) s = observed p (k (Inr terminal)) s"
  by (simp add: spawn_classifier_def spawn_with_fail_open_retry_def send_one_def skeptic_request_def assms Let_def)

theorem silent_auditor_votes_as_predecessor:
  assumes "\<And>req. sr_id req = ph_ids h k \<Longrightarrow> ph_coordinator h req s = (reply, s)" and "spawn_result reply = Inr terminal"
    and "ensure_goal_scratch_root (ph_skeptic_env h k) (si_verifier_id i) \<noteq> None"
    and "validate_details_path (ph_env h) (format_verifier_details_path (ph_env h) (si_verifier_id i) (si_attempt i) k) = None"
    and "validate_details_path (ph_env h) (format_verdict_path (ph_env h) (si_verifier_id i) (si_attempt i) k) = None"
    and "Option.bind (pn_files s (format_verdict_path (ph_env h) (si_verifier_id i) (si_attempt i) k))
           (parse_verdict_json (ph_from_json h)) = Some v"
  shows "observed no_latency (skeptic_act h inputs i None k) s = vote_of k v 0"
  using assms(3-6)
  by (auto simp: skeptic_act_def run_one_skeptic_def Let_def spawn_succeeds [OF assms(1,2)] read_skeptic_verdict_def split: option.split)

lemma resumed_goal_restarts_attempts:
  "gt_orchestration t = Some g \<Longrightarrow> is_paused (go_status g) \<Longrightarrow>
   map_option go_classifier_runs_attempted (gt_orchestration (snd (resume e t))) = Some 0"
  by (auto simp: resume_def Let_def record_event_def append_history_def map_orchestration_def reset_classifier_stall_fields_def
      reset_strategist_fields_def)

end
