(* ===== verification/Role_Override.thy ===== *)
theory Role_Override
  imports Role_Spawn
begin

text \<open>
  Which model and harness a role of the goal runs on
  (\<^verbatim>\<open>crates/codegen/xai-grok-shell/src/session/acp_session_impl/goal.rs\<close>). A configured pair is
  committed only when its model is known and selectable, its harness can be represented, and the
  coordinator describes a toolset that is sufficient for the role; any other answer lets the role inherit
  the model of the session. Answers of the coordinator are remembered while a panel is put together, except
  that it was unavailable.
\<close>

subsection \<open>Capabilities\<close>

record SubagentTypeSummary =
  sm_tool_names :: "(ToolKind \<times> string) list"
  sm_can_read :: bool
  sm_can_search :: bool
  sm_can_execute :: bool

datatype SubagentDescribeOutcome =
    DescribeOk SubagentTypeSummary
  | DescribeUnknown "string list"
  | DescribeNotAllowed "string list"
  | DescribeDisabled
  | DescribeUnavailable

datatype RoleCapability = SkepticCapability | StrategistCapability

fun is_satisfied :: "RoleCapability \<Rightarrow> SubagentTypeSummary \<Rightarrow> bool" where
  "is_satisfied SkepticCapability m = (sm_can_read m \<and> sm_can_search m)"
| "is_satisfied StrategistCapability m = (sm_can_read m \<and> sm_can_search m \<and> sm_can_execute m)"

datatype GoalRoleModelFailOpenReason =
    ModelUnknown | ModelUnauthorized | HarnessFlavorUnsupported | ToolsetUnavailable | ToolsetUnknown
  | ToolsetNotAllowed | ToolsetDisabled | ToolsetIncapable

datatype role_event =
    RoleModelFailOpen string "nat option" GoalRoleModelFailOpenReason
  | RoleModelResolved string "nat option" string string

text \<open>
  The catalog of models, which harnesses are strict, and the coordinator: its \<open>k\<close>th answer about a harness. The
  state is the memory of answers, the harnesses that were asked about, and the events.
\<close>

record ModelEntry =
  me_model :: string
  me_user_selectable :: bool

record role_host =
  rh_models :: "(string \<times> ModelEntry) list"
  rh_strict :: "string \<Rightarrow> bool"
  rh_describe :: "nat \<Rightarrow> string \<Rightarrow> SubagentDescribeOutcome"

record PanelResolveCache =
  pc_describe :: "string \<Rightarrow> SubagentDescribeOutcome option"
  pc_asked :: "string list"
  pc_events :: "role_event list"

definition empty_cache :: PanelResolveCache where
  "empty_cache = \<lparr>pc_describe = Map.empty, pc_asked = [], pc_events = []\<rparr>"

definition find_model_by_id :: "(string \<times> ModelEntry) list \<Rightarrow> string \<Rightarrow> ModelEntry option" where
  "find_model_by_id models model_id =
     (case map_of models model_id of
        Some m \<Rightarrow> Some m
      | None \<Rightarrow> List.find (\<lambda>m. me_model m = model_id) (map snd models))"

definition subagent_harness_flavor_is_representable :: "string \<Rightarrow> bool" where
  "subagent_harness_flavor_is_representable agent_type = False"

subsection \<open>Resolving a pair\<close>

definition inherit_override :: RoleSpawnOverride where
  "inherit_override = \<lparr>so_model = None, so_agent_type = None\<rparr>"

definition emit_role :: "role_event \<Rightarrow> PanelResolveCache \<Rightarrow> PanelResolveCache" where
  "emit_role ev c = c\<lparr>pc_events := pc_events c @ [ev]\<rparr>"

text \<open>The answer of the coordinator about a harness, asked at most once unless it is unavailable.\<close>

definition describe_harness ::
    "role_host \<Rightarrow> string \<Rightarrow> PanelResolveCache \<Rightarrow> SubagentDescribeOutcome \<times> PanelResolveCache" where
  "describe_harness h agent_type c =
     (case pc_describe c agent_type of
        Some outcome \<Rightarrow> (outcome, c)
      | None \<Rightarrow>
          (let outcome = rh_describe h (length (pc_asked c)) agent_type;
               c = c\<lparr>pc_asked := pc_asked c @ [agent_type]\<rparr>
           in if outcome = DescribeUnavailable then (outcome, c)
              else (outcome, c\<lparr>pc_describe := (pc_describe c)(agent_type \<mapsto> outcome)\<rparr>)))"

fun describe_refusal :: "RoleCapability \<Rightarrow> SubagentDescribeOutcome \<Rightarrow> GoalRoleModelFailOpenReason option" where
  "describe_refusal capability (DescribeOk summary) =
     (if is_satisfied capability summary then None else Some ToolsetIncapable)"
| "describe_refusal capability (DescribeUnknown available) = Some ToolsetUnknown"
| "describe_refusal capability (DescribeNotAllowed allowed) = Some ToolsetNotAllowed"
| "describe_refusal capability DescribeDisabled = Some ToolsetDisabled"
| "describe_refusal capability DescribeUnavailable = Some ToolsetUnavailable"

definition resolve_goal_role_override ::
    "role_host \<Rightarrow> string \<Rightarrow> nat option \<Rightarrow> GoalRoleModel \<Rightarrow> RoleCapability \<Rightarrow> PanelResolveCache
     \<Rightarrow> RoleSpawnOverride \<times> PanelResolveCache" where
  "resolve_goal_role_override h role skeptic_idx pair capability c =
     (let fail_open = (\<lambda>reason c. (inherit_override, emit_role (RoleModelFailOpen role skeptic_idx reason) c)) in
      case find_model_by_id (rh_models h) (gm_model pair) of
        None \<Rightarrow> fail_open ModelUnknown c
      | Some entry \<Rightarrow>
          if \<not> me_user_selectable entry then fail_open ModelUnauthorized c
          else if rh_strict h (gm_agent_type pair) \<and> \<not> subagent_harness_flavor_is_representable (gm_agent_type pair)
          then fail_open HarnessFlavorUnsupported c
          else
            let (outcome, c) = describe_harness h (gm_agent_type pair) c in
            case describe_refusal capability outcome of
              Some reason \<Rightarrow> fail_open reason c
            | None \<Rightarrow> (\<lparr>so_model = Some (gm_model pair), so_agent_type = Some (gm_agent_type pair)\<rparr>,
                       emit_role (RoleModelResolved role skeptic_idx (gm_model pair) (gm_agent_type pair)) c))"

definition role_tool_names_from :: "RoleSpawnOverride \<Rightarrow> PanelResolveCache \<Rightarrow> RoleToolNames \<Rightarrow> RoleToolNames" where
  "role_tool_names_from o' c inherit =
     (case so_agent_type o' of
        Some harness \<Rightarrow> (case pc_describe c harness of
                          Some (DescribeOk summary) \<Rightarrow> from_summary (sm_tool_names summary)
                        | _ \<Rightarrow> inherit)
      | None \<Rightarrow> inherit)"

datatype GoalRoleModelChoice = InheritCurrent | Explicit GoalRoleModel

definition resolve_goal_single_role_override ::
    "role_host \<Rightarrow> string \<Rightarrow> GoalRoleModelChoice \<Rightarrow> RoleCapability \<Rightarrow> RoleToolNames
     \<Rightarrow> (RoleSpawnOverride \<times> RoleToolNames \<times> RoleToolNames) \<times> PanelResolveCache" where
  "resolve_goal_single_role_override h role choice capability inherit =
     (case choice of
        InheritCurrent \<Rightarrow> ((inherit_override, inherit, inherit), empty_cache)
      | Explicit pair \<Rightarrow>
          (let (o', c) = resolve_goal_role_override h role None pair capability empty_cache
           in ((o', role_tool_names_from o' c inherit, inherit), c)))"

text \<open>The overrides of a panel, index by index, with one memory for all.\<close>

fun resolve_panel_overrides ::
    "role_host \<Rightarrow> GoalRoleModel list \<Rightarrow> nat list \<Rightarrow> PanelResolveCache \<Rightarrow> RoleSpawnOverride list \<times> PanelResolveCache" where
  "resolve_panel_overrides h assignment [] c = ([], c)"
| "resolve_panel_overrides h assignment (idx # rest) c =
     (let (o', c) = (if idx < length assignment
                     then resolve_goal_role_override h ''skeptic'' (Some idx) (assignment ! idx) SkepticCapability c
                     else (inherit_override, c));
          (os, c) = resolve_panel_overrides h assignment rest c
      in (o' # os, c))"

subsection \<open>What an override stands for\<close>

lemma describe_refusal_None_iff:
  "describe_refusal capability outcome = None \<longleftrightarrow> (\<exists>m. outcome = DescribeOk m \<and> is_satisfied capability m)"
  by (cases "(capability, outcome)" rule: describe_refusal.cases) auto

lemma describe_harness_memory:
  assumes "describe_harness h a c = (outcome, c')" "outcome \<noteq> DescribeUnavailable"
  shows "pc_describe c' a = Some outcome"
  using assms by (auto simp: describe_harness_def Let_def split: option.splits if_splits)

text \<open>A committed override is the configured pair, on a harness whose described toolset is sufficient.\<close>

theorem committed_override_capable:
  assumes "resolve_goal_role_override h role idx pair capability c = (o', c')"
  shows "o' = inherit_override
    \<or> o' = \<lparr>so_model = Some (gm_model pair), so_agent_type = Some (gm_agent_type pair)\<rparr>
       \<and> (\<exists>entry. find_model_by_id (rh_models h) (gm_model pair) = Some entry \<and> me_user_selectable entry)
       \<and> (\<exists>m. pc_describe c' (gm_agent_type pair) = Some (DescribeOk m) \<and> is_satisfied capability m
             \<and> role_tool_names_from o' c' inherit = from_summary (sm_tool_names m))"
proof (cases "o' = inherit_override")
  case False
  obtain outcome c1 where d: "describe_harness h (gm_agent_type pair) c = (outcome, c1)" by fastforce
  have o: "o' = \<lparr>so_model = Some (gm_model pair), so_agent_type = Some (gm_agent_type pair)\<rparr>"
    and c': "pc_describe c' = pc_describe c1"
    and e: "\<exists>entry. find_model_by_id (rh_models h) (gm_model pair) = Some entry \<and> me_user_selectable entry"
    and n: "describe_refusal capability outcome = None"
    using assms False d by (auto simp: resolve_goal_role_override_def Let_def emit_role_def split: option.splits if_splits)
  obtain m where m: "outcome = DescribeOk m" "is_satisfied capability m" using n describe_refusal_None_iff by blast
  then have "pc_describe c' (gm_agent_type pair) = Some (DescribeOk m)" using describe_harness_memory [OF d] c' by simp
  then show ?thesis using o e m by (simp add: role_tool_names_from_def)
qed simp

text \<open>
  A harness the coordinator answered about is not asked about again: only unavailable answers repeat.
\<close>

definition memory_ok :: "role_host \<Rightarrow> PanelResolveCache \<Rightarrow> bool" where
  "memory_ok h c \<longleftrightarrow>
     (\<forall>k < length (pc_asked c). rh_describe h k (pc_asked c ! k) \<noteq> DescribeUnavailable \<longrightarrow>
        pc_describe c (pc_asked c ! k) \<noteq> None \<and> pc_asked c ! k \<notin> set (drop (k + 1) (pc_asked c)))"

lemma memory_ok_empty [simp]: "memory_ok h empty_cache"
  by (simp add: memory_ok_def empty_cache_def)

lemma memory_ok_describe:
  assumes "memory_ok h c" and "describe_harness h a c = (outcome, c')"
  shows "memory_ok h c'"
proof (cases "pc_describe c a")
  case None
  have asked: "pc_asked c' = pc_asked c @ [a]" and kept: "pc_describe c b \<noteq> None \<Longrightarrow> pc_describe c' b \<noteq> None"
    and new: "rh_describe h (length (pc_asked c)) a \<noteq> DescribeUnavailable \<Longrightarrow> pc_describe c' a \<noteq> None" for b
    using assms(2) None by (auto simp: describe_harness_def Let_def split: if_splits)
  show ?thesis
    unfolding memory_ok_def
  proof (intro allI impI)
    fix k assume k: "k < length (pc_asked c')" and answered: "rh_describe h k (pc_asked c' ! k) \<noteq> DescribeUnavailable"
    show "pc_describe c' (pc_asked c' ! k) \<noteq> None \<and> pc_asked c' ! k \<notin> set (drop (k + 1) (pc_asked c'))"
    proof (cases "k = length (pc_asked c)")
      case True
      then show ?thesis using answered new asked by simp
    next
      case False
      then have lt: "k < length (pc_asked c)" using k asked by simp
      then have same: "pc_asked c' ! k = pc_asked c ! k" using asked by (simp add: nth_append)
      then have "pc_describe c (pc_asked c ! k) \<noteq> None" "pc_asked c ! k \<notin> set (drop (k + 1) (pc_asked c))"
        using assms(1) lt answered unfolding memory_ok_def by auto
      moreover from this(1) None have "pc_asked c ! k \<noteq> a" by auto
      ultimately show ?thesis using kept same asked lt by simp
    qed
  qed
qed (use assms in \<open>auto simp: describe_harness_def\<close>)

lemma memory_ok_emit [simp]: "memory_ok h (emit_role ev c) = memory_ok h c"
  by (simp add: memory_ok_def emit_role_def)

lemma memory_ok_resolve:
  assumes "memory_ok h c" and "resolve_goal_role_override h role idx pair capability c = (o', c')"
  shows "memory_ok h c'"
proof -
  obtain outcome c1 where d: "describe_harness h (gm_agent_type pair) c = (outcome, c1)" by fastforce
  then have "memory_ok h c1" using memory_ok_describe assms(1) by blast
  then show ?thesis using assms d
    by (auto simp: resolve_goal_role_override_def Let_def split: option.splits if_splits)
qed

theorem panel_resolution_asks_once:
  "memory_ok h c \<Longrightarrow> memory_ok h (snd (resolve_panel_overrides h assignment idxs c))"
proof (induction idxs arbitrary: c)
  case (Cons idx rest)
  obtain o' c1 where r: "(if idx < length assignment
      then resolve_goal_role_override h ''skeptic'' (Some idx) (assignment ! idx) SkepticCapability c
      else (inherit_override, c)) = (o', c1)" by fastforce
  then have "memory_ok h c1" using memory_ok_resolve Cons.prems by (auto split: if_splits)
  then have "memory_ok h (snd (resolve_panel_overrides h assignment rest c1))" by (rule Cons.IH)
  then show ?case using r by (auto simp: Let_def split: prod.split)
qed simp

end
