(* ===== verification/Strategist.thy ===== *)
theory Strategist
  imports Role_Override
begin

text \<open>
  The strategist (\<^verbatim>\<open>crates/codegen/xai-grok-shell/src/session/goal_strategist.rs\<close> and
  \<^verbatim>\<open>maybe_run_goal_strategist\<close> of \<^verbatim>\<open>acp_session_impl/goal_support.rs\<close>). After several rejections in a row
  an agent is asked for a structural remedy, which it writes to a note of its own. It is advisory: every
  failure lets the goal go on. The plan is the contract of the verification, so the runner copies it before the
  agent starts and puts it back afterwards.
\<close>

definition strategist_should_fire :: "nat \<Rightarrow> nat \<Rightarrow> nat \<Rightarrow> bool" where
  "strategist_should_fire consecutive last_fired every \<longleftrightarrow> every > 0 \<and> sat_add32 last_fired every \<le> consecutive"

subsection \<open>The plan on disk\<close>

text \<open>
  What lies at the path of the plan; a write follows a link and leaves it in place. \<open>sl_stat\<close>, \<open>sl_read\<close>, \<open>sl_write\<close> and \<open>sl_remove\<close> say whether the file system
  answers the respective request on it.
\<close>

datatype plan_node = NodeAbsent | NodeFile string | NodeSymlink | NodeDirectory

record plan_slot =
  sl_node :: plan_node
  sl_stat :: bool
  sl_read :: bool
  sl_write :: bool
  sl_remove :: bool

datatype PlanSnapshot = SnapAbsent | SnapPresent string | SnapUnsafe

datatype GoalStrategistRestoreFailReason = WriteFailed | RemoveFailed | SymlinkTamper

fun restore_fail_str :: "GoalStrategistRestoreFailReason \<Rightarrow> string" where
  "restore_fail_str SymlinkTamper = ''symlink_tamper''"
| "restore_fail_str WriteFailed = ''write_failed''"
| "restore_fail_str RemoveFailed = ''remove_failed''"

definition read_slot :: "plan_slot \<Rightarrow> string option" where
  "read_slot sl = (case sl_node sl of NodeFile body \<Rightarrow> if sl_read sl then Some body else None | _ \<Rightarrow> None)"

definition plan_guard_capture :: "plan_slot \<Rightarrow> PlanSnapshot" where
  "plan_guard_capture sl =
     (if \<not> sl_stat sl then SnapUnsafe
      else case sl_node sl of
        NodeAbsent \<Rightarrow> SnapAbsent
      | NodeSymlink \<Rightarrow> SnapUnsafe
      | _ \<Rightarrow> (case read_slot sl of Some body \<Rightarrow> SnapPresent body | None \<Rightarrow> SnapUnsafe))"

definition write_slot :: "string \<Rightarrow> plan_slot \<Rightarrow> bool \<times> plan_slot" where
  "write_slot body sl =
     (if \<not> sl_write sl \<or> sl_node sl = NodeDirectory then (False, sl)
      else (True, if sl_node sl = NodeSymlink then sl else sl\<lparr>sl_node := NodeFile body\<rparr>))"

definition remove_slot :: "plan_slot \<Rightarrow> bool \<times> plan_slot" where
  "remove_slot sl =
     (if \<not> sl_remove sl \<or> sl_node sl = NodeDirectory then (False, sl) else (True, sl\<lparr>sl_node := NodeAbsent\<rparr>))"

definition restore_core :: "PlanSnapshot \<Rightarrow> plan_slot \<Rightarrow> GoalStrategistRestoreFailReason option \<times> plan_slot" where
  "restore_core snapshot sl =
     (case snapshot of
        SnapUnsafe \<Rightarrow> (None, sl)
      | SnapPresent orig \<Rightarrow>
          if sl_stat sl \<and> sl_node sl = NodeSymlink then (Some SymlinkTamper, sl)
          else if read_slot sl = Some orig then (None, sl)
          else (case write_slot orig sl of (ok, sl') \<Rightarrow> (if ok then None else Some WriteFailed, sl'))
      | SnapAbsent \<Rightarrow>
          if \<not> sl_stat sl \<or> sl_node sl = NodeAbsent then (None, sl)
          else if sl_node sl = NodeSymlink then (Some SymlinkTamper, sl)
          else (case remove_slot sl of (ok, sl') \<Rightarrow> (if ok then None else Some RemoveFailed, sl')))"

text \<open>The guard: \<open>restore\<close> acts once; dropping the guard restores when nothing did before.\<close>

record PlanGuard =
  pg_snapshot :: PlanSnapshot
  pg_armed :: bool

definition plan_guard_restore ::
    "PlanGuard \<Rightarrow> plan_slot \<Rightarrow> GoalStrategistRestoreFailReason option \<times> PlanGuard \<times> plan_slot" where
  "plan_guard_restore g sl =
     (if \<not> pg_armed g then (None, g, sl)
      else case restore_core (pg_snapshot g) sl of (reason, sl') \<Rightarrow> (reason, g\<lparr>pg_armed := False\<rparr>, sl'))"

definition plan_guard_drop :: "PlanGuard \<Rightarrow> plan_slot \<Rightarrow> plan_slot" where
  "plan_guard_drop g sl = snd (snd (plan_guard_restore g sl))"

subsection \<open>One run\<close>

datatype GoalStrategistFailReason = FailTransport | FailRuntime | FailAborted | FailMissingStrategy

fun strategist_fail_str :: "GoalStrategistFailReason \<Rightarrow> string" where
  "strategist_fail_str FailTransport = ''transport''"
| "strategist_fail_str FailAborted = ''aborted''"
| "strategist_fail_str FailRuntime = ''runtime''"
| "strategist_fail_str FailMissingStrategy = ''missing_strategy_file''"

datatype GoalStrategistOutcome = Advised string string nat | StrategistFailOpen GoalStrategistFailReason nat

datatype strategist_event =
    GoalStrategistFired nat nat nat string
  | GoalStrategistContractRestoreFailed string nat
  | GoalStrategistFailed string nat nat nat
  | GoalStrategistCompleted nat nat nat
  | GoalStrategistRetried

record strategist_files =
  sg_plan :: plan_slot
  sg_note :: "string option"
  sg_events :: "strategist_event list"

text \<open>
  The agent answers a request and changes the files; \<open>sh_lossy\<close> replaces what is not UTF-8 in the note, and
  \<open>sh_latency\<close> is the time the run took.
\<close>

record strategist_host =
  sh_coordinator :: "(SubagentRequest \<Rightarrow> strategist_files \<Rightarrow> spawn_reply \<times> strategist_files) option"
  sh_spawner :: ChannelSpawner
  sh_new_id :: string
  sh_lossy :: "string \<Rightarrow> string"
  sh_latency :: nat
  sh_template :: string
  sh_traces_dir :: string
  sh_roles :: role_host
  sh_role_choice :: GoalRoleModelChoice
  sh_inherit_tool_names :: RoleToolNames
  sh_model_id :: string
  sh_every :: nat

definition GOAL_STRATEGIST_SUBAGENT_DESCRIPTION :: string where
  "GOAL_STRATEGIST_SUBAGENT_DESCRIPTION = ''goal strategist''"
definition GOAL_STRATEGIST_RECOMMENDATION_MAX_CHARS :: nat where
  "GOAL_STRATEGIST_RECOMMENDATION_MAX_CHARS = 4096"

definition emit_strategist :: "strategist_event \<Rightarrow> strategist_files \<Rightarrow> strategist_files" where
  "emit_strategist ev f = f\<lparr>sg_events := sg_events f @ [ev]\<rparr>"

definition strategist_request ::
    "ChannelSpawner \<Rightarrow> string \<Rightarrow> string option \<Rightarrow> string option \<Rightarrow> string \<Rightarrow> SubagentRequest" where
  "strategist_request sp i model harness prompt =
     \<lparr>sr_id = i, sr_prompt = prompt, sr_description = GOAL_STRATEGIST_SUBAGENT_DESCRIPTION,
      sr_subagent_type = GOAL_ROLE_SUBAGENT_TYPE, sr_parent_session_id = cs_parent_session_id sp,
      sr_parent_prompt_id = cs_parent_prompt_id sp, sr_resume_from = None, sr_cwd = cs_cwd sp,
      sr_runtime_overrides = default_overrides\<lparr>ov_model := model, ov_harness_agent_type := harness\<rparr>,
      sr_run_in_background = False, sr_surface_completion = False, sr_fork_context = False\<rparr>"

definition strategist_send_one ::
    "(SubagentRequest \<Rightarrow> 's \<Rightarrow> spawn_reply \<times> 's) \<Rightarrow> ChannelSpawner \<Rightarrow> string
     \<Rightarrow> string option \<Rightarrow> string option \<Rightarrow> string \<Rightarrow> (spawned \<Rightarrow> ('s, 'r) act) \<Rightarrow> ('s, 'r) act" where
  "strategist_send_one coordinator sp i model harness prompt k =
     Access (\<lambda>s. case coordinator (strategist_request sp i model harness prompt) s of
                  (reply, s') \<Rightarrow> (s', k (spawn_result reply)))"

definition spawn_strategist ::
    "strategist_host \<Rightarrow> (SubagentRequest \<Rightarrow> strategist_files \<Rightarrow> spawn_reply \<times> strategist_files) \<Rightarrow> RoleSpawnOverride
     \<Rightarrow> RoleRenderedPrompt \<Rightarrow> strategist_files \<Rightarrow> spawned \<times> strategist_files" where
  "spawn_strategist h coordinator o' prompt =
     run_alone (spawn_with_fail_open_retry o' (emit_strategist GoalStrategistRetried) prompt
       (strategist_send_one coordinator (sh_spawner h) (sh_new_id h)) Ret) (\<lambda>i. 0)"

record GoalStrategistInputs =
  gi_objective :: string
  gi_plan_file :: string
  gi_strategy_file :: string
  gi_scratch_root :: string
  gi_attempt :: nat
  gi_consecutive_failures :: nat
  gi_model_id :: string
  gi_tool_names :: RoleToolNames
  gi_inherit_tool_names :: RoleToolNames

definition render_strategist_prompt :: "strategist_host \<Rightarrow> GoalStrategistInputs \<Rightarrow> RoleToolNames \<Rightarrow> string" where
  "render_strategist_prompt h i tool_names =
     apply_tool_names tool_names
       (replace_all ''{SCRATCH_ROOT}'' (gi_scratch_root i)
          (replace_all ''{SESSION_TRACES_DIR}'' (sh_traces_dir h)
             (replace_all ''{PLAN_FILE}'' (gi_plan_file i)
                (replace_all ''{STRATEGY_FILE}'' (gi_strategy_file i) (sh_template h)))))
     @ [NL, NL] @ ''ROUND: failed '' @ show_nat (gi_consecutive_failures i) @ '' verification rounds in a row.''
     @ [NL, NL] @ ''OBJECTIVE:'' @ [NL] @ gi_objective i @ [NL]"

definition read_recommendation :: "(string \<Rightarrow> string) \<Rightarrow> string option \<Rightarrow> string option" where
  "read_recommendation lossy bytes =
     (case bytes of
        None \<Rightarrow> None
      | Some b \<Rightarrow>
          if b = [] then None
          else (let trimmed = trim (lossy b) in
                if trimmed = [] then None else Some (take_chars GOAL_STRATEGIST_RECOMMENDATION_MAX_CHARS trimmed)))"

definition strategist_record_fail_open ::
    "strategist_host \<Rightarrow> GoalStrategistInputs \<Rightarrow> GoalStrategistFailReason \<Rightarrow> strategist_files
     \<Rightarrow> GoalStrategistOutcome \<times> strategist_files" where
  "strategist_record_fail_open h i reason f =
     (StrategistFailOpen reason (sh_latency h),
      emit_strategist (GoalStrategistFailed (strategist_fail_str reason) (gi_attempt i) (gi_consecutive_failures i)
        (sh_latency h)) f)"

definition run_goal_strategist ::
    "strategist_host \<Rightarrow> (SubagentRequest \<Rightarrow> strategist_files \<Rightarrow> spawn_reply \<times> strategist_files) \<Rightarrow> RoleSpawnOverride
     \<Rightarrow> GoalStrategistInputs \<Rightarrow> strategist_files \<Rightarrow> GoalStrategistOutcome \<times> strategist_files" where
  "run_goal_strategist h coordinator o' i f =
     (let f = emit_strategist (GoalStrategistFired (gi_attempt i) (gi_consecutive_failures i) (sh_every h) (gi_model_id i)) f;
          guard = \<lparr>pg_snapshot = plan_guard_capture (sg_plan f), pg_armed = True\<rparr>;
          prompt = \<lparr>rp_primary = render_strategist_prompt h i (gi_tool_names i),
                    rp_fallback = render_strategist_prompt h i (gi_inherit_tool_names i)\<rparr>;
          (reply, f) = spawn_strategist h coordinator o' prompt f;
          (failed, guard, slot) = plan_guard_restore guard (sg_plan f);
          f = f\<lparr>sg_plan := slot\<rparr>;
          f = (case failed of
                 Some reason \<Rightarrow> emit_strategist (GoalStrategistContractRestoreFailed (restore_fail_str reason) (gi_attempt i)) f
               | None \<Rightarrow> f);
          (outcome, f) =
            (case reply of
               Inl (TransportError detail) \<Rightarrow> strategist_record_fail_open h i FailTransport f
             | Inl (RuntimeError message cancelled) \<Rightarrow>
                 strategist_record_fail_open h i (if cancelled then FailAborted else FailRuntime) f
             | Inr response \<Rightarrow>
                 (case read_recommendation (sh_lossy h) (sg_note f) of
                    None \<Rightarrow> strategist_record_fail_open h i FailMissingStrategy f
                  | Some recommendation \<Rightarrow>
                      (Advised (gi_strategy_file i) recommendation (sh_latency h),
                       emit_strategist (GoalStrategistCompleted (gi_attempt i) (gi_consecutive_failures i) (sh_latency h)) f)))
      in (outcome, f\<lparr>sg_plan := plan_guard_drop guard (sg_plan f)\<rparr>))"

text \<open>A run whose turn is cancelled while the agent works: \<open>partial\<close> is what the agent had done to the files.\<close>

definition cancel_goal_strategist ::
    "GoalStrategistInputs \<Rightarrow> strategist_host \<Rightarrow> (strategist_files \<Rightarrow> strategist_files) \<Rightarrow> strategist_files \<Rightarrow> strategist_files" where
  "cancel_goal_strategist i h partial f =
     (let f = emit_strategist (GoalStrategistFired (gi_attempt i) (gi_consecutive_failures i) (sh_every h) (gi_model_id i)) f;
          guard = \<lparr>pg_snapshot = plan_guard_capture (sg_plan f), pg_armed = True\<rparr>;
          f = partial f
      in f\<lparr>sg_plan := plan_guard_drop guard (sg_plan f)\<rparr>)"

subsection \<open>The call of the session\<close>

text \<open>
  The first half of \<^verbatim>\<open>maybe_run_goal_strategist\<close>: nothing without a coordinator or a goal, else one run. The second
  half settles the bonus that the claim of the run granted: it is revoked unless the run gave advice.
\<close>

definition strategist_advice ::
    "env \<Rightarrow> strategist_host \<Rightarrow> nat \<Rightarrow> nat \<Rightarrow> GoalTracker \<Rightarrow> strategist_files
     \<Rightarrow> GoalStrategistOutcome option \<times> strategist_files" where
  "strategist_advice e h attempt consecutive_failures t f =
     (case (sh_coordinator h, gt_orchestration t) of
        (Some coordinator, Some g) \<Rightarrow>
          (let ((o', tool_names, inherit), cache) =
                 resolve_goal_single_role_override (sh_roles h) ''strategist'' (sh_role_choice h) StrategistCapability
                   (sh_inherit_tool_names h);
               (outcome, f) = run_goal_strategist h coordinator o'
                 \<lparr>gi_objective = go_objective g, gi_plan_file = plan_path t, gi_strategy_file = strategy_path t,
                  gi_scratch_root = goal_scratch_root e (go_verifier_id g), gi_attempt = attempt,
                  gi_consecutive_failures = consecutive_failures,
                  gi_model_id = effective_role_model_id (so_model o') (sh_model_id h),
                  gi_tool_names = tool_names, gi_inherit_tool_names = inherit\<rparr> f
           in (Some outcome, f))
      | _ \<Rightarrow> (None, f))"

fun strategist_settle :: "GoalStrategistOutcome option \<Rightarrow> GoalTracker \<Rightarrow> GoalTracker" where
  "strategist_settle (Some (Advised path recommendation latency)) = record_strategy_recommendation path recommendation"
| "strategist_settle _ = revoke_strategist_cap_bonus"

subsection \<open>The contract survives the strategist\<close>

lemma restore_core_file:
  assumes "restore_core (SnapPresent body) sl = (reason, sl')"
  shows "reason = None \<Longrightarrow> sl_node sl' = NodeFile body \<or> sl_node sl' = NodeSymlink \<and> \<not> sl_stat sl'"
  using assms by (auto simp: restore_core_def write_slot_def read_slot_def split: if_splits plan_node.splits)

lemma restore_core_absent:
  assumes "restore_core SnapAbsent sl = (reason, sl')"
  shows "reason = None \<Longrightarrow> sl_stat sl \<Longrightarrow> sl_node sl' = NodeAbsent"
  using assms by (auto simp: restore_core_def remove_slot_def split: if_splits)

lemma drop_after_restore:
  assumes "plan_guard_restore g sl = (reason, g', sl')" and "pg_armed g"
  shows "plan_guard_drop g' sl'' = sl''"
  using assms by (auto simp: plan_guard_restore_def plan_guard_drop_def split: prod.splits)

lemma emit_strategist_simps [simp]:
  "sg_plan (emit_strategist ev f) = sg_plan f" "sg_note (emit_strategist ev f) = sg_note f"
  "sg_events (emit_strategist ev f) = sg_events f @ [ev]"
  by (simp_all add: emit_strategist_def)

text \<open>
  Property C29. The strategist cannot rewrite the contract it advises on. Whatever the agent does to the plan, a plan that was a readable file holds the same bytes after the run, or the run
  reported that it could not put them back, or a link lies there that cannot even be inspected.
\<close>

theorem strategist_keeps_contract:
  assumes "sl_stat (sg_plan f)" and "read_slot (sg_plan f) = Some body"
    and "run_goal_strategist h coordinator o' i f = (outcome, f')"
  shows "sl_node (sg_plan f') = NodeFile body
    \<or> (\<exists>reason. GoalStrategistContractRestoreFailed (restore_fail_str reason) (gi_attempt i) \<in> set (sg_events f'))
    \<or> sl_node (sg_plan f') = NodeSymlink \<and> \<not> sl_stat (sg_plan f')"
proof -
  have snap: "plan_guard_capture (sg_plan f) = SnapPresent body"
    using assms(1,2) by (auto simp: plan_guard_capture_def read_slot_def split: plan_node.splits if_splits)
  let ?f0 = "emit_strategist (GoalStrategistFired (gi_attempt i) (gi_consecutive_failures i) (sh_every h) (gi_model_id i)) f"
  obtain reply f1 where spawn: "spawn_strategist h coordinator o'
      \<lparr>rp_primary = render_strategist_prompt h i (gi_tool_names i),
       rp_fallback = render_strategist_prompt h i (gi_inherit_tool_names i)\<rparr> ?f0 = (reply, f1)" by fastforce
  obtain reason g1 sl1 where rest: "plan_guard_restore \<lparr>pg_snapshot = SnapPresent body, pg_armed = True\<rparr> (sg_plan f1) = (reason, g1, sl1)"
    by (metis prod_cases3)
  have dropped: "plan_guard_drop g1 sl = sl" for sl using drop_after_restore [OF rest] by simp
  have good: "reason = None \<Longrightarrow> sl_node sl1 = NodeFile body \<or> sl_node sl1 = NodeSymlink \<and> \<not> sl_stat sl1"
    using rest restore_core_file by (fastforce simp: plan_guard_restore_def split: prod.splits)
  have "sg_plan f' = sl1 \<and> (\<forall>r. reason = Some r \<longrightarrow>
      GoalStrategistContractRestoreFailed (restore_fail_str r) (gi_attempt i) \<in> set (sg_events f'))"
    using assms(3) spawn rest snap dropped
    by (auto simp: run_goal_strategist_def Let_def strategist_record_fail_open_def
          split: sum.splits SpawnError.splits option.splits)
  then show ?thesis using good by (cases reason) auto
qed

definition quiet_strategist :: strategist_host where
  "quiet_strategist = \<lparr>sh_coordinator = None, sh_spawner = \<lparr>cs_parent_session_id = [], cs_parent_prompt_id = None, cs_cwd = None\<rparr>,
     sh_new_id = [], sh_lossy = (\<lambda>s. s), sh_latency = 0, sh_template = [], sh_traces_dir = [],
     sh_roles = \<lparr>rh_models = [], rh_strict = (\<lambda>_. False), rh_describe = (\<lambda>_ _. DescribeUnavailable)\<rparr>,
     sh_role_choice = InheritCurrent, sh_inherit_tool_names = inherit_defaults, sh_model_id = [], sh_every = 3\<rparr>"

definition overwriting_agent :: "SubagentRequest \<Rightarrow> strategist_files \<Rightarrow> spawn_reply \<times> strategist_files" where
  "overwriting_agent req f =
     (Replied \<lparr>rs_success = True, rs_output = ''Done'', rs_error = None, rs_cancelled = False, rs_subagent_id = ''a'',
        rs_child_session_id = ''a'', rs_tool_calls = 0, rs_turns = 0, rs_duration_ms = 0, rs_tokens_used = 0,
        rs_worktree_path = None, rs_backgrounded = False\<rparr>,
      f\<lparr>sg_plan := (sg_plan f)\<lparr>sl_node := NodeFile ''nothing to do''\<rparr>\<rparr>)"

theorem strategist_keeps_contract_witness:
  "\<exists>i outcome f'. run_goal_strategist quiet_strategist overwriting_agent inherit_override i
      \<lparr>sg_plan = \<lparr>sl_node = NodeFile ''contract'', sl_stat = True, sl_read = True, sl_write = True, sl_remove = True\<rparr>,
       sg_note = None, sg_events = []\<rparr> = (outcome, f')
    \<and> (sl_node (sg_plan f') = NodeFile ''contract''
      \<or> (\<exists>reason. GoalStrategistContractRestoreFailed (restore_fail_str reason) (gi_attempt i) \<in> set (sg_events f'))
      \<or> sl_node (sg_plan f') = NodeSymlink \<and> \<not> sl_stat (sg_plan f'))"
proof -
  define f where "f = \<lparr>sg_plan = \<lparr>sl_node = NodeFile ''contract'', sl_stat = True, sl_read = True, sl_write = True,
      sl_remove = True\<rparr>, sg_note = None, sg_events = []\<rparr>"
  define i where "i = \<lparr>gi_objective = ''ship'', gi_plan_file = ''/p'', gi_strategy_file = ''/s'', gi_scratch_root = ''/tmp'',
      gi_attempt = 1, gi_consecutive_failures = 3, gi_model_id = ''m'', gi_tool_names = inherit_defaults,
      gi_inherit_tool_names = inherit_defaults\<rparr>"
  obtain outcome f' where run: "run_goal_strategist quiet_strategist overwriting_agent inherit_override i f = (outcome, f')"
    by fastforce
  have "sl_stat (sg_plan f)" "read_slot (sg_plan f) = Some ''contract''" by (simp_all add: f_def read_slot_def)
  from strategist_keeps_contract [OF this run] run show ?thesis unfolding f_def by blast
qed

text \<open>So it is on a cancelled run, when the agent left a file the harness can write.\<close>

theorem cancelled_strategist_keeps_contract:
  assumes "sl_stat (sg_plan f)" and "read_slot (sg_plan f) = Some body"
    and "let sl = sg_plan (partial (emit_strategist (GoalStrategistFired (gi_attempt i) (gi_consecutive_failures i)
              (sh_every h) (gi_model_id i)) f))
         in sl_node sl \<noteq> NodeSymlink \<and> sl_node sl \<noteq> NodeDirectory \<and> sl_write sl"
  shows "sl_node (sg_plan (cancel_goal_strategist i h partial f)) = NodeFile body"
proof -
  have snap: "plan_guard_capture (sg_plan f) = SnapPresent body"
    using assms(1,2) by (auto simp: plan_guard_capture_def read_slot_def split: plan_node.splits if_splits)
  show ?thesis using assms(3) snap
    by (auto simp: cancel_goal_strategist_def Let_def plan_guard_drop_def plan_guard_restore_def restore_core_def write_slot_def
          read_slot_def split: if_splits plan_node.splits)
qed

text \<open>
  The note is not removed before the run: an agent that answers and writes nothing has its predecessor's note taken
  for its advice.
\<close>

theorem stale_note_counts_as_advice:
  assumes "sg_note f = Some note" and "read_recommendation (sh_lossy h) (Some note) = Some recommendation"
    and "\<not> is_explicit o'"
    and "\<And>req f. \<exists>r. rs_success r \<and> coordinator req f = (Replied r, f)"
  shows "\<exists>latency. fst (run_goal_strategist h coordinator o' i f) = Advised (gi_strategy_file i) recommendation latency"
proof -
  let ?f0 = "emit_strategist (GoalStrategistFired (gi_attempt i) (gi_consecutive_failures i) (sh_every h) (gi_model_id i)) f"
  have "\<exists>out. spawn_strategist h coordinator o' prompt g = (Inr out, g)" for prompt g
  proof -
    obtain r where "rs_success r" "coordinator (strategist_request (sh_spawner h) (sh_new_id h) None None (rp_primary prompt)) g = (Replied r, g)"
      using assms(4) by blast
    then show ?thesis using assms(3)
      by (simp add: spawn_strategist_def spawn_with_fail_open_retry_def strategist_send_one_def run_alone_Access)
  qed
  then obtain out where spawn: "spawn_strategist h coordinator o'
      \<lparr>rp_primary = render_strategist_prompt h i (gi_tool_names i),
       rp_fallback = render_strategist_prompt h i (gi_inherit_tool_names i)\<rparr> ?f0 = (Inr out, ?f0)" by blast
  obtain reason g1 sl1 where rest: "plan_guard_restore \<lparr>pg_snapshot = plan_guard_capture (sg_plan f), pg_armed = True\<rparr>
      (sg_plan f) = (reason, g1, sl1)" by (metis prod_cases3)
  show ?thesis using assms(1,2) by (cases reason) (simp_all add: run_goal_strategist_def Let_def spawn rest)
qed

end
