(* ===== verification/Goal_Drain.thy ===== *)
theory Goal_Drain
  imports Skeptic_Panel Wave_Round Strategist Det_Gate
begin

text \<open>
  The drain of goal updates (\<^verbatim>\<open>drain_goal_updates_with_extra\<close> of
  \<^verbatim>\<open>crates/codegen/xai-grok-shell/src/session/acp_session_impl/goal.rs\<close> and what it calls): the one place where a
  claim of completion is turned into a verdict. The claims come from a queue, from the caller and from a channel;
  each passes a ladder of guards, then the plan's own checks and the verification panel, whose outcome is recorded
  on the goal. Every claim from the caller or the channel carries a reply slot.
\<close>

subsection \<open>Replies\<close>

datatype RejectReason =
    BlockSeenInDrain | BlockedAgainstNonActive | PostCap | NonActive | HarnessDisabled | PendingQueueEvicted
  | DroppedAfterPauseInDrain | OrchestrationVanished | StatusChangedDuringClassifier
  | InFlightOrchestrationVanished | ExecChecklistIncomplete

datatype UpdateGoalAck =
    Accepted string
  | ClassifierAchieved string
  | ClassifierFailOpenAchieved string
  | ClassifierNotAchieved string nat nat
  | ClassifierCapReached string nat
  | ClassifierStalled string nat
  | ClassifierBlocked string
  | CompletedWithoutClassifier
  | ClassifierConcurrentInFlight string nat nat
  | DeferredToTurnEnd nat
  | Rejected RejectReason string

datatype DrainPurpose = MidTurn | TurnEnd

text \<open>The reply slot of a claim is a number; a claim from the queue was answered when it was queued.\<close>

datatype DrainSource = PendingSource UpdateGoalInput | ChannelSource UpdateGoalInput nat

fun into_parts :: "DrainSource \<Rightarrow> UpdateGoalInput \<times> nat option" where
  "into_parts (PendingSource i) = (i, None)"
| "into_parts (ChannelSource i tx) = (i, Some tx)"

definition GOAL_CLASSIFIER_PENDING_QUEUE_CAP :: nat where "GOAL_CLASSIFIER_PENDING_QUEUE_CAP = 4"

record GoalClassifierPolicy =
  cp_enabled :: bool
  cp_max_runs :: nat

datatype drain_event =
    GoalClassifierDroppedAfterCap nat
  | GoalClassifierFailClosed string nat
  | GoalClassifierMidTurnDeferred nat
  | GoalClassifierPendingQueueCleared nat
  | GoalClassifierCapReached nat
  | GoalDeterministicGateFailed nat "nat option"

subsection \<open>State and surroundings\<close>

text \<open>
  The session with the repository and the amendment writer around it (\<open>dn_wave\<close>), the files the agents see and the
  events of the panel, the events of the strategist and of the choice of models, the streak of blocked reports and the flag of a running
  verification, the channel, the replies that were sent, and the drain's events. The last field is a ghost: every
  start of the verification stage, with what it started from.
\<close>

record stage_start =
  st_host :: panel_host
  st_schedule :: "(nat + nat) list"
  st_inputs :: VerificationStageInputs
  st_files :: panel_state

record 'r drain_state =
  dn_wave :: "'r wave_state"
  dn_panel :: panel_state
  dn_strategist_events :: "strategist_event list"
  dn_role_events :: "role_event list"
  dn_streak :: nat
  dn_in_flight :: bool
  dn_channel :: "(UpdateGoalInput \<times> nat) list"
  dn_acks :: "(nat \<times> UpdateGoalAck) list"
  dn_events :: "drain_event list"
  dn_stages :: "stage_start list"

text \<open>
  \<open>dh_shell\<close> runs a check, \<open>dh_meanwhile\<close> is what happens to the session while the drain waits for agents,
  \<open>dh_cancel\<close> whether the turn is cancelled while attempt \<open>n\<close> is being verified and \<open>dh_partial\<close> what the auditors
  had done by then; \<open>dh_fire_latency\<close> is the time since the verification was begun.
\<close>

record 'r drain_host =
  dh_wave :: "'r wave_host"
  dh_panel :: panel_host
  dh_schedule :: "nat \<Rightarrow> (nat + nat) list"
  dh_strategist :: strategist_host
  dh_roles :: role_host
  dh_shell :: "string \<Rightarrow> panel_state \<Rightarrow> cmd_result \<times> panel_state"
  dh_has_coordinator :: bool
  dh_enabled :: bool
  dh_max_runs :: nat
  dh_skeptic_count :: nat
  dh_skeptic_pool :: "GoalRoleModel list"
  dh_current_model_only :: bool
  dh_strategist_every :: nat
  dh_model_id :: string
  dh_inherit_tool_names :: RoleToolNames
  dh_final_response :: "Session \<Rightarrow> string option"
  dh_read_error :: string
  dh_fire_latency :: nat
  dh_meanwhile :: "Session \<Rightarrow> Session"
  dh_cancel :: "nat \<Rightarrow> bool"
  dh_partial :: "panel_state \<Rightarrow> panel_state"

abbreviation dn_session :: "'r drain_state \<Rightarrow> Session" where
  "dn_session d \<equiv> wv_session (dn_wave d)"

abbreviation dh_env :: "'r drain_host \<Rightarrow> env" where
  "dh_env h \<equiv> wh_env (dh_wave h)"

definition upd_session :: "(Session \<Rightarrow> Session) \<Rightarrow> 'r drain_state \<Rightarrow> 'r drain_state" where
  "upd_session f d = d\<lparr>dn_wave := on_session f (dn_wave d)\<rparr>"

definition upd_tracker :: "(GoalTracker \<Rightarrow> GoalTracker) \<Rightarrow> 'r drain_state \<Rightarrow> 'r drain_state" where
  "upd_tracker f = upd_session (on_tracker f)"

definition upd_plan :: "'r drain_host \<Rightarrow> (plan_file \<Rightarrow> 'a \<times> plan_file) \<Rightarrow> 'r drain_state \<Rightarrow> 'a \<times> 'r drain_state" where
  "upd_plan h f d = (let (a, w) = on_plan (dh_wave h) f (dn_wave d) in (a, d\<lparr>dn_wave := w\<rparr>))"

definition emit_drain :: "drain_event \<Rightarrow> 'r drain_state \<Rightarrow> 'r drain_state" where
  "emit_drain ev d = d\<lparr>dn_events := dn_events d @ [ev]\<rparr>"

definition emit_fail_open :: "nat \<Rightarrow> nat \<Rightarrow> 'r drain_state \<Rightarrow> 'r drain_state" where
  "emit_fail_open attempt latency d =
     d\<lparr>dn_panel := emit_event (GoalClassifierFailOpen (fail_open_str GoalNotActiveAtResolve) attempt latency) (dn_panel d)\<rparr>"

definition try_send_ack :: "nat option \<Rightarrow> UpdateGoalAck \<Rightarrow> 'r drain_state \<Rightarrow> 'r drain_state" where
  "try_send_ack ack_tx ack d = (case ack_tx of Some tx \<Rightarrow> d\<lparr>dn_acks := dn_acks d @ [(tx, ack)]\<rparr> | None \<Rightarrow> d)"

text \<open>
  An action of agents or of the shell on the files. The plan is the file at its path: what the action leaves there is the
  plan of the session afterwards.
\<close>

definition loaded_files :: "'r drain_state \<Rightarrow> panel_state" where
  "loaded_files d =
     (dn_panel d)\<lparr>pn_files := (pn_files (dn_panel d))(plan_path (ss_tracker (dn_session d)) := ss_plan (dn_session d))\<rparr>"

definition with_files :: "'r drain_host \<Rightarrow> (panel_state \<Rightarrow> 'a \<times> panel_state) \<Rightarrow> 'r drain_state \<Rightarrow> 'a \<times> 'r drain_state" where
  "with_files h f d =
     (let p = plan_path (ss_tracker (dn_session d));
          (a, ps) = f (loaded_files d);
          d = d\<lparr>dn_panel := ps\<rparr>
      in (a, if pn_files ps p = ss_plan (dn_session d) then d
             else upd_session (\<lambda>s. s\<lparr>ss_plan := pn_files ps p, ss_plan_mtime := wh_mtime (dh_wave h) (ss_plan_mtime s)\<rparr>) d))"

subsection \<open>Recording verdicts and deferring\<close>

datatype GapsUpdate = GapsSet string "ClassifierFinding list" | GapsClear | GapsPreserve

fun update_gaps :: "GapsUpdate \<Rightarrow> GoalOrchestration \<Rightarrow> GoalOrchestration" where
  "update_gaps (GapsSet summary findings) g =
     g\<lparr>go_last_classifier_gaps := Some summary, go_last_classifier_findings := findings\<rparr>"
| "update_gaps GapsClear g = g\<lparr>go_last_classifier_gaps := None, go_last_classifier_findings := []\<rparr>"
| "update_gaps GapsPreserve g = g"

definition record_verdict_on_orchestration ::
    "env \<Rightarrow> GoalClassifierVerdict \<Rightarrow> string option \<Rightarrow> GapsUpdate \<Rightarrow> GoalTracker \<Rightarrow> GoalTracker" where
  "record_verdict_on_orchestration e verdict details_path gaps =
     map_orchestration (\<lambda>g.
       (update_gaps gaps (g\<lparr>go_last_classifier_verdict := Some verdict,
           go_last_classifier_details_path :=
             (case details_path of Some p \<Rightarrow> Some p | None \<Rightarrow> go_last_classifier_details_path g)\<rparr>))
       \<lparr>go_last_classifier_at := Some (env_timestamp e)\<rparr>)"

definition open_criteria :: "Session \<Rightarrow> nat list" where
  "open_criteria s =
     (case ss_plan s of
        None \<Rightarrow> []
      | Some body \<Rightarrow> map (\<lambda>(i, r). i + 1)
          (filter (\<lambda>(i, r). \<not> (dr_exec r \<and> dr_audit r)) (enumerate 0 (parse_dual_rows body))))"

definition has_reachable_open_criterion :: "nat list \<Rightarrow> GoalOrchestration option \<Rightarrow> bool" where
  "has_reachable_open_criterion open_ns snapshot =
     (case snapshot of
        None \<Rightarrow> False
      | Some g \<Rightarrow>
          \<not> list_ex (\<lambda>d. dc_criterion d = None) (go_deferred_criteria g)
          \<and> list_ex (\<lambda>n. \<not> list_ex (\<lambda>d. dc_criterion d = Some n) (go_deferred_criteria g)) open_ns)"

definition findings_localized :: "ClassifierFinding list \<Rightarrow> bool" where
  "findings_localized findings \<longleftrightarrow>
     findings \<noteq> [] \<and> length (List.map_filter cf_criterion findings) = length findings"

definition stopped_after_message :: "nat \<Rightarrow> string list \<Rightarrow> string" where
  "stopped_after_message attempt report =
     ''Goal stopped after '' @ show_nat attempt @ '' verification attempts: no reachable acceptance ''
     @ ''criteria remain.'' @ [NL] @ ''Deferred:'' @ [NL] @ join [NL] (map (\<lambda>line. ''- '' @ line) report)"

definition defer_refuted_or_end_run ::
    "env \<Rightarrow> ClassifierFinding list \<Rightarrow> string \<Rightarrow> string \<Rightarrow> string \<Rightarrow> nat \<Rightarrow> Session \<Rightarrow> bool \<times> Session" where
  "defer_refuted_or_end_run e findings why details_path pause_summary attempt s =
     (let refuted = List.map_filter cf_criterion findings;
          criteria_total = acceptance_criteria_total s;
          open_ns = open_criteria s;
          s = on_tracker (\<lambda>t.
                if findings_localized findings then fold (\<lambda>c t. snd (defer_criterion (Some c) why t)) refuted t
                else snd (defer_criterion None why t)) s;
          exhausted = (all_remaining_work_deferred criteria_total (ss_tracker s)
                       \<or> \<not> has_reachable_open_criterion open_ns (gt_orchestration (ss_tracker s)));
          s = (if exhausted then s else on_tracker grant_fresh_classifier_budget s)
      in if \<not> exhausted then (False, s)
         else
           (True, snd (auto_pause_goal_if_active_with_message e PauseVerification
              (format_goal_pause_message (stopped_after_message attempt (deferral_report (ss_tracker s))) pause_summary details_path) s)))"

definition auto_pause_for_classifier_blocked :: "env \<Rightarrow> string \<Rightarrow> string \<Rightarrow> Session \<Rightarrow> Session" where
  "auto_pause_for_classifier_blocked e details_path pause_summary s =
     snd (auto_pause_goal_if_active_with_message e PauseVerification
       (format_goal_pause_message
          (''Goal verification found no model-fixable path '' @ EM_DASH @ '' paused for your decision.'')
          pause_summary details_path) s)"

definition resolve_goal_classifier_policy :: "'r drain_host \<Rightarrow> Session \<Rightarrow> GoalClassifierPolicy" where
  "resolve_goal_classifier_policy h s =
     \<lparr>cp_enabled = dh_enabled h,
      cp_max_runs = sat_add32 (dh_max_runs h)
        (case gt_orchestration (ss_tracker s) of Some g \<Rightarrow> go_strategist_cap_bonus g | None \<Rightarrow> 0)\<rparr>"

definition reserve_classifier_attempt_slot :: "GoalClassifierPolicy \<Rightarrow> GoalTracker \<Rightarrow> nat option \<times> GoalTracker" where
  "reserve_classifier_attempt_slot policy t =
     (case gt_orchestration t of
        None \<Rightarrow> (None, t)
      | Some g \<Rightarrow>
          (let n = sat_add32 (go_classifier_runs_attempted g) 1
           in (Some n, t\<lparr>gt_orchestration := Some (g\<lparr>go_classifier_runs_attempted := n,
                 go_classifier_max_runs := Some (cp_max_runs policy), go_rounds_since_verify := 0\<rparr>)\<rparr>)))"

definition at_cap :: "GoalOrchestration \<Rightarrow> bool" where
  "at_cap g \<longleftrightarrow> go_status g = BackOffPaused
     \<and> (case go_classifier_max_runs g of Some cap \<Rightarrow> cap \<le> go_classifier_runs_attempted g | None \<Rightarrow> False)"

definition cap_just_reached :: "Session \<Rightarrow> bool" where
  "cap_just_reached s = (case gt_orchestration (ss_tracker s) of Some g \<Rightarrow> at_cap g | None \<Rightarrow> False)"

definition goal_is_paused :: "Session \<Rightarrow> bool" where
  "goal_is_paused s = (case status_of s of Some st \<Rightarrow> is_paused st | None \<Rightarrow> False)"

subsection \<open>The verification of a claim\<close>

definition gate_details :: "nat \<Rightarrow> nat \<Rightarrow> CheckFailure \<Rightarrow> string" where
  "gate_details attempt max_runs f =
     ''# Goal verification '' @ EM_DASH @ '' deterministic gate (attempt '' @ show_nat attempt @ ''/'' @ show_nat max_runs @ '')''
     @ [NL, NL] @ ''A check declared in the plan's '' @ [BACKTICK] @ ''## Deterministic checks'' @ [BACKTICK]
     @ '' failed, so the skeptic panel was not run.'' @ [NL, NL]
     @ ''- command: '' @ [BACKTICK] @ xf_command f @ [BACKTICK] @ [NL]
     @ ''- criterion: '' @ (case xf_criterion f of Some c \<Rightarrow> show_nat c | None \<Rightarrow> ''goal-wide'') @ [NL, NL]
     @ ''## Output tail'' @ [NL, NL] @ replicate 3 BACKTICK @ [NL] @ xf_detail f @ [NL] @ replicate 3 BACKTICK @ [NL]"

definition gate_outcome :: "string \<Rightarrow> CheckFailure \<Rightarrow> GoalClassifierOutcome" where
  "gate_outcome details_path f =
     (let message = finding_message f in
      NotAchieved details_path message [\<lparr>cf_criterion = xf_criterion f, cf_message = message\<rparr>]
        (PAUSE_GROUP_FIXABLE @ '':'' @ [NL] @ ''- '' @ message) (gap_fingerprint [message]))"

definition deterministic_gate_rejection ::
    "'r drain_host \<Rightarrow> string option \<Rightarrow> string \<Rightarrow> nat \<Rightarrow> nat \<Rightarrow> 'r drain_state
     \<Rightarrow> GoalClassifierOutcome option \<times> 'r drain_state" where
  "deterministic_gate_rejection h plan_file verifier_id attempt max_runs d =
     (let (failure, d) = with_files h (\<lambda>ps. gate_failure (dh_shell h) (Option.bind plan_file (pn_files ps)) ps) d;
          d = upd_session (dh_meanwhile h) d
      in case failure of
           None \<Rightarrow> (None, d)
         | Some f \<Rightarrow>
             (let details_path = format_details_path (ph_env (dh_panel h)) verifier_id attempt;
                  d = (if ensure_goal_scratch_root (ph_env (dh_panel h)) verifier_id = None then d
                       else d\<lparr>dn_panel := write_file (dh_panel h) details_path (gate_details attempt max_runs f) (dn_panel d)\<rparr>);
                  d = emit_drain (GoalDeterministicGateFailed attempt (xf_criterion f)) d
              in (Some (gate_outcome details_path f), d)))"

text \<open>The model and the tool names of every auditor; the assignment is frozen on the goal.\<close>

definition skeptic_assignment ::
    "'r drain_host \<Rightarrow> nat \<Rightarrow> 'r drain_state \<Rightarrow> (RoleSpawnOverride list \<times> RoleToolNames list) \<times> 'r drain_state" where
  "skeptic_assignment h n d =
     (if dh_current_model_only h then ((replicate n inherit_override, replicate n (dh_inherit_tool_names h)), d)
      else
        let (assignment, d) =
              (case gt_orchestration (ss_tracker (dn_session d)) of
                 Some g \<Rightarrow>
                   (let expanded = expand_skeptic_assignment (go_skeptic_model_assignment g) (dh_skeptic_pool h) n
                    in (expanded, upd_tracker (map_orchestration (\<lambda>g. g\<lparr>go_skeptic_model_assignment := expanded\<rparr>)) d))
               | None \<Rightarrow> ([], d));
            (overrides, cache) = resolve_panel_overrides (dh_roles h) assignment [0..<n] empty_cache
        in ((overrides, map (\<lambda>o'. role_tool_names_from o' cache (dh_inherit_tool_names h)) overrides),
            d\<lparr>dn_role_events := dn_role_events d @ pc_events cache\<rparr>))"

definition stage_inputs ::
    "'r drain_host \<Rightarrow> GoalOrchestration \<Rightarrow> nat \<Rightarrow> nat \<Rightarrow> string \<Rightarrow> RoleToolNames list \<Rightarrow> VerificationStageInputs" where
  "stage_inputs h g attempt max_runs final_response tool_names =
     \<lparr>vi_objective = go_objective g, vi_final_response = final_response,
      vi_baseline_commit = go_changes_baseline_commit g, vi_verifier_id = go_verifier_id g, vi_attempt = attempt,
      vi_model_id = dh_model_id h, vi_plan_file = go_plan_file g, vi_plan_baseline_file = go_plan_baseline_file g,
      vi_implementer_scratch_dir = implementer_scratch_dir (ph_env (dh_panel h)) (go_verifier_id g),
      vi_scratch_dir_ready = go_scratch_dir_ready g, vi_skeptic_count = dh_skeptic_count h, vi_max_runs = max_runs,
      vi_prior_skeptic0_session_id = go_skeptic0_session_id g, vi_prior_gaps = go_last_classifier_gaps g,
      vi_tool_names = tool_names, vi_inherit_tool_names = dh_inherit_tool_names h\<rparr>"

definition clamped_skeptics :: "'r drain_host \<Rightarrow> nat" where
  "clamped_skeptics h = min GOAL_VERIFIER_SKEPTIC_MAX (max GOAL_VERIFIER_SKEPTIC_MIN (dh_skeptic_count h))"

text \<open>The panel for one attempt, with the composed final response and the anchor to keep when it ran.\<close>

definition run_panel_for_drain ::
    "'r drain_host \<Rightarrow> GoalOrchestration \<Rightarrow> nat \<Rightarrow> nat \<Rightarrow> ComposedFinalResponse \<Rightarrow> 'r drain_state
     \<Rightarrow> GoalClassifierOutcome \<times> 'r drain_state" where
  "run_panel_for_drain h g attempt max_runs composed d =
     (let ((overrides, tool_names), d) = skeptic_assignment h (clamped_skeptics h) d;
          start = \<lparr>st_host = (dh_panel h)\<lparr>ph_overrides := overrides\<rparr>, st_schedule = dh_schedule h attempt,
                   st_inputs = stage_inputs h g attempt max_runs (fr_to_send composed) tool_names, st_files = loaded_files d\<rparr>;
          d = d\<lparr>dn_stages := dn_stages d @ [start]\<rparr>;
          (result, d) = with_files h (run_verification_stage (st_host start) (st_schedule start) (st_inputs start)) d;
          d = upd_session (dh_meanwhile h) d;
          d = (if vs_panel_ran result
               then upd_tracker (map_orchestration (\<lambda>g. g\<lparr>go_skeptic0_session_id := vs_skeptic0_session_id result,
                      go_first_final_response := (case fr_to_persist composed of
                        Some anchor \<Rightarrow> Some anchor | None \<Rightarrow> go_first_final_response g)\<rparr>)) d
               else d)
      in (vs_outcome result, d))"

definition run_verification_stage_for_drain ::
    "'r drain_host \<Rightarrow> nat \<Rightarrow> nat \<Rightarrow> 'r drain_state \<Rightarrow> GoalClassifierOutcome \<times> 'r drain_state" where
  "run_verification_stage_for_drain h attempt max_runs d =
     (case gt_orchestration (ss_tracker (dn_session d)) of
        None \<Rightarrow> (FailOpenAchieved GoalNotActiveAtResolve [], d)
      | Some g \<Rightarrow>
          (case deterministic_gate_rejection h (go_plan_file g) (go_verifier_id g) attempt max_runs d of
             (Some outcome, d) \<Rightarrow> (outcome, d)
           | (None, d) \<Rightarrow>
               if \<not> dh_has_coordinator h then (FailOpenAchieved SamplerError [], d)
               else run_panel_for_drain h g attempt max_runs
                      (compose_verifier_final_response (go_first_final_response g)
                        (case dh_final_response h (dn_session d) of Some r \<Rightarrow> r | None \<Rightarrow> [])) d))"

subsection \<open>Applying an outcome\<close>

definition count_tokens :: "'r drain_state \<Rightarrow> 'r drain_state" where
  "count_tokens d = upd_session (\<lambda>s. snd (goal_tokens (ss_total_tokens s) s)) d"

definition apply_achieved :: "'r drain_host \<Rightarrow> string \<Rightarrow> 'r drain_state \<Rightarrow> UpdateGoalAck \<times> 'r drain_state" where
  "apply_achieved h details_path d =
     (let d = upd_session clear_pending_classifier_completions d;
          d = snd (upd_plan h (set_all_audit_marks True) d);
          d = upd_tracker (\<lambda>t. reset_strategist_state
                (record_verdict_on_orchestration (dh_env h) VerdictAchieved (Some details_path) GapsClear t)) d;
          shown = (case Option.bind (gt_orchestration (ss_tracker (dn_session d))) go_last_classifier_details_path of
                     Some p \<Rightarrow> p | None \<Rightarrow> details_path)
      in (ClassifierAchieved shown, upd_session (emit_goal_updated (dh_env h)) d))"

definition clear_refuted_marks :: "'r drain_host \<Rightarrow> ClassifierFinding list \<Rightarrow> 'r drain_state \<Rightarrow> 'r drain_state" where
  "clear_refuted_marks h findings d =
     (let d = upd_session (\<lambda>s. on_tracker (refresh_criteria_view (ss_plan_mtime s) (ss_plan s)) s) d;
          refuted = List.map_filter cf_criterion findings
      in snd (upd_plan h
           (if findings_localized findings
            then set_audit_marks_for_criteria (with_dependents (view_of (dn_session d)) refuted) False
            else set_all_audit_marks False) d))"

definition plan_slot_of :: "'r drain_host \<Rightarrow> Session \<Rightarrow> plan_slot" where
  "plan_slot_of h s =
     \<lparr>sl_node = (case ss_plan s of Some body \<Rightarrow> NodeFile body | None \<Rightarrow> NodeAbsent), sl_stat = True, sl_read = True,
      sl_write = wh_plan_writable (dh_wave h), sl_remove = wh_plan_writable (dh_wave h)\<rparr>"

definition maybe_run_goal_strategist :: "'r drain_host \<Rightarrow> nat \<Rightarrow> nat \<Rightarrow> 'r drain_state \<Rightarrow> 'r drain_state" where
  "maybe_run_goal_strategist h attempt consecutive_failures d =
     (let s = dn_session d;
          note_path = strategy_path (ss_tracker s);
          (outcome, f) = strategist_advice (dh_env h) (dh_strategist h) attempt consecutive_failures (ss_tracker s)
            \<lparr>sg_plan = plan_slot_of h s, sg_note = pn_files (dn_panel d) note_path, sg_events = []\<rparr>
      in case outcome of
           None \<Rightarrow> upd_tracker revoke_strategist_cap_bonus d
         | Some out \<Rightarrow>
             (let d = d\<lparr>dn_panel := (dn_panel d)\<lparr>pn_files := (pn_files (dn_panel d))(note_path := sg_note f)\<rparr>,
                        dn_strategist_events := dn_strategist_events d @ sg_events f\<rparr>;
                  d = (if read_slot (sg_plan f) = ss_plan s then d
                       else upd_session (\<lambda>s. s\<lparr>ss_plan := read_slot (sg_plan f),
                              ss_plan_mtime := wh_mtime (dh_wave h) (ss_plan_mtime s)\<rparr>) d);
                  d = upd_session (dh_meanwhile h) d
              in upd_tracker (strategist_settle (Some out)) d))"

text \<open>
  The ladder below the cap: an unchanged gap asks for a new strategy first, and gives up on the refuted criteria when it
  survives one. \<open>Inl\<close> is the reply of a run that ended.
\<close>

definition stall_ladder ::
    "'r drain_host \<Rightarrow> string \<Rightarrow> ClassifierFinding list \<Rightarrow> string \<Rightarrow> string \<Rightarrow> nat \<Rightarrow> 'r drain_state
     \<Rightarrow> (UpdateGoalAck + bool) \<times> 'r drain_state" where
  "stall_ladder h details_path findings pause_summary fingerprint attempt d =
     (let (stalled, t) = (if fingerprint = [] then (False, ss_tracker (dn_session d))
                          else record_classifier_stall fingerprint (ss_tracker (dn_session d)));
          d = upd_tracker (\<lambda>_. t) d;
          tried = (case gt_orchestration t of Some g \<Rightarrow> go_strategist_cap_bonus g > 0 | None \<Rightarrow> False)
      in if stalled \<and> tried then
           (let (ended, s) = defer_refuted_or_end_run (dh_env h) findings ''the same gap survived a change of strategy''
                  details_path pause_summary attempt (dn_session d);
                d = upd_session (\<lambda>_. s) d
            in if ended then (Inl (ClassifierStalled details_path attempt), d) else (Inr False, d))
         else (Inr stalled, d))"

definition escalate_strategy :: "'r drain_host \<Rightarrow> bool \<Rightarrow> nat \<Rightarrow> 'r drain_state \<Rightarrow> 'r drain_state" where
  "escalate_strategy h forced attempt d =
     (let (claimed, t) = claim_strategist_fire
            (\<lambda>consecutive last_fired. forced \<or> strategist_should_fire consecutive last_fired (dh_strategist_every h))
            (ss_tracker (dn_session d));
          d = upd_tracker (\<lambda>_. t) d
      in case claimed of Some n \<Rightarrow> maybe_run_goal_strategist h attempt n d | None \<Rightarrow> d)"

definition apply_not_achieved ::
    "'r drain_host \<Rightarrow> GoalClassifierPolicy \<Rightarrow> nat \<Rightarrow> string \<Rightarrow> string \<Rightarrow> ClassifierFinding list \<Rightarrow> string \<Rightarrow> string
     \<Rightarrow> 'r drain_state \<Rightarrow> UpdateGoalAck \<times> 'r drain_state" where
  "apply_not_achieved h policy attempt details_path gaps_summary findings pause_summary fingerprint d =
     (let d = clear_refuted_marks h findings d;
          d = d\<lparr>dn_wave := amend_plan_for_unattributed_findings (dh_wave h) findings (dn_wave d)\<rparr>;
          d = upd_tracker (\<lambda>t. snd (record_not_achieved_streak
                (record_verdict_on_orchestration (dh_env h) VerdictNotAchieved (Some details_path)
                   (GapsSet gaps_summary findings) t))) d;
          (ended, d) =
            (if cp_max_runs policy \<le> attempt then
               (let d = emit_drain (GoalClassifierCapReached attempt) d;
                    (ended, s) = defer_refuted_or_end_run (dh_env h) findings
                      (''verification refuted it '' @ show_nat attempt @ '' times without progress; '' @ ''see '' @ details_path)
                      details_path pause_summary attempt (dn_session d)
                in (ended, upd_session (\<lambda>_. s) d))
             else (False, d))
      in if ended then (ClassifierCapReached details_path attempt, d)
         else case stall_ladder h details_path findings pause_summary fingerprint attempt d of
                (Inl ack, d) \<Rightarrow> (ack, d)
              | (Inr forced, d) \<Rightarrow>
                  (ClassifierNotAchieved details_path attempt (cp_max_runs policy),
                   upd_session (emit_goal_updated (dh_env h)) (escalate_strategy h forced attempt d)))"

definition apply_blocked :: "'r drain_host \<Rightarrow> string \<Rightarrow> string \<Rightarrow> 'r drain_state \<Rightarrow> UpdateGoalAck \<times> 'r drain_state" where
  "apply_blocked h details_path pause_summary d =
     (let d = upd_tracker (\<lambda>t. reset_strategist_state (reset_classifier_stall (rollback_classifier_attempt
                (record_verdict_on_orchestration (dh_env h) VerdictNotAchieved (Some details_path) GapsClear t)))) d
      in (ClassifierBlocked details_path,
          upd_session (auto_pause_for_classifier_blocked (dh_env h) details_path pause_summary) d))"

definition fail_open_message :: "GoalClassifierFailOpenReason \<Rightarrow> string" where
  "fail_open_message reason =
     ''Verification infrastructure failed ('' @ fail_open_str reason @ ''); task is NOT complete. ''
     @ ''Retry verification after fixing environment issues.''"

definition apply_fail_open ::
    "'r drain_host \<Rightarrow> GoalClassifierFailOpenReason \<Rightarrow> string \<Rightarrow> 'r drain_state \<Rightarrow> UpdateGoalAck \<times> 'r drain_state" where
  "apply_fail_open h reason details_path d =
     (let d = upd_session clear_pending_classifier_completions d;
          d = upd_tracker (\<lambda>t. snd (record_not_achieved_streak
                (record_verdict_on_orchestration (dh_env h) VerdictNotAchieved
                   (if details_path = [] then None else Some details_path) (GapsSet (fail_open_message reason) []) t))) d;
          d = snd (upd_plan h (set_all_audit_marks False) d)
      in (ClassifierFailOpenAchieved (fail_open_str reason), upd_session (emit_goal_updated (dh_env h)) d))"

definition apply_classifier_outcome ::
    "'r drain_host \<Rightarrow> GoalClassifierPolicy \<Rightarrow> nat \<Rightarrow> GoalClassifierOutcome \<Rightarrow> 'r drain_state
     \<Rightarrow> UpdateGoalAck \<times> 'r drain_state" where
  "apply_classifier_outcome h policy attempt outcome d =
     (let d = count_tokens d in
      case outcome of
        Achieved details_path \<Rightarrow> apply_achieved h details_path d
      | NotAchieved details_path gaps_summary findings pause_summary fingerprint \<Rightarrow>
          apply_not_achieved h policy attempt details_path gaps_summary findings pause_summary fingerprint d
      | BlockedOutcome details_path pause_summary \<Rightarrow> apply_blocked h details_path pause_summary d
      | FailOpenAchieved reason details_path \<Rightarrow> apply_fail_open h reason details_path d)"

text \<open>A second claim while a verification is running is counted as a rejection, without a panel.\<close>

definition concurrent_details_body :: "nat \<Rightarrow> nat \<Rightarrow> string" where
  "concurrent_details_body attempt max_runs =
     ''# Goal classifier '' @ EM_DASH @ '' Not Achieved (synthetic)'' @ [NL, NL]
     @ ''**Attempt:** '' @ show_nat attempt @ '' of '' @ show_nat max_runs @ [NL]
     @ ''**Reason:** ConcurrentInFlight'' @ [NL, NL]
     @ ''The harness short-circuited this '' @ [BACKTICK] @ ''update_goal(completed: true)'' @ [BACKTICK] @ '' call ''
     @ ''because a classifier was already in flight for the previous completion ''
     @ ''attempt. The second attempt was accounted as Not Achieved (counting ''
     @ ''toward '' @ [BACKTICK] @ ''classifier_max_runs'' @ [BACKTICK] @ '') to bound model retry spam.'' @ [NL, NL]
     @ ''No sampler call was made; no token cost was incurred for this attempt.'' @ [NL]"

definition concurrent_gaps_summary :: string where
  "concurrent_gaps_summary =
     ''- a verification was already running for the previous ''
     @ ''completion attempt; this duplicate '' @ [BACKTICK] @ ''completed: true'' @ [BACKTICK]
     @ '' was rejected without re-running the panel''"

definition account_not_achieved_without_sampler ::
    "'r drain_host \<Rightarrow> GoalClassifierPolicy \<Rightarrow> 'r drain_state \<Rightarrow> (nat \<times> string \<times> bool) option \<times> 'r drain_state" where
  "account_not_achieved_without_sampler h policy d =
     (case gt_orchestration (ss_tracker (dn_session d)) of
        None \<Rightarrow> (None, d)
      | Some g \<Rightarrow>
          (let attempt = sat_add32 (go_classifier_runs_attempted g) 1;
               verifier_id = go_verifier_id g;
               d = upd_tracker (map_orchestration (\<lambda>g. g\<lparr>go_classifier_runs_attempted := attempt,
                     go_classifier_max_runs := Some (cp_max_runs policy)\<rparr>)) d;
               details_path = format_details_path (ph_env (dh_panel h)) verifier_id attempt;
               wrote_details = (ensure_goal_scratch_root (ph_env (dh_panel h)) verifier_id \<noteq> None
                                \<and> ph_writable (dh_panel h) details_path);
               d = (if wrote_details
                    then d\<lparr>dn_panel := write_file (dh_panel h) details_path
                            (concurrent_details_body attempt (cp_max_runs policy)) (dn_panel d)\<rparr> else d);
               shown = (if wrote_details then details_path else []);
               d = upd_tracker (\<lambda>t. snd (record_not_achieved_streak
                     (record_verdict_on_orchestration (dh_env h) VerdictNotAchieved
                        (if wrote_details then Some details_path else None) GapsPreserve t))) d;
               cap_reached = (cp_max_runs policy \<le> attempt);
               d = (if cap_reached then
                      upd_session (\<lambda>s. snd (defer_refuted_or_end_run (dh_env h) []
                          (''verification could not complete in '' @ show_nat attempt @ '' attempts'') shown
                          (PAUSE_GROUP_FIXABLE @ '':'' @ [NL] @ concurrent_gaps_summary) attempt s))
                        (emit_drain (GoalClassifierCapReached attempt) d)
                    else upd_session (emit_goal_updated (dh_env h)) (count_tokens d))
           in (Some (attempt, shown, cap_reached), d)))"

subsection \<open>One claim\<close>

definition reject :: "nat option \<Rightarrow> RejectReason \<Rightarrow> string \<Rightarrow> 'r drain_state \<Rightarrow> 'r drain_state" where
  "reject ack_tx reason detail = try_send_ack ack_tx (Rejected reason detail)"

text \<open>A report that the work is blocked; the flag says whether the run ended on it. The streak is a \<^verbatim>\<open>u32\<close> that wraps.\<close>

definition handle_blocked ::
    "'r drain_host \<Rightarrow> string \<Rightarrow> string option \<Rightarrow> nat option \<Rightarrow> 'r drain_state \<Rightarrow> bool \<times> 'r drain_state" where
  "handle_blocked h reason detail ack_tx d =
     (let streak = (dn_streak d + 1) mod 2 ^ 32;
          d = d\<lparr>dn_streak := streak\<rparr>
      in if streak < 3 then
           (False, try_send_ack ack_tx (Accepted (''Blocked attempt '' @ show_nat streak @ ''/3 recorded. The harness needs ''
              @ ''3 consecutive blocked attempts before pausing the goal '' @ EM_DASH
              @ '' continue retrying or refining the approach.'')) d)
         else
           let chat_text = format_blocked_chat_notification reason detail;
               blocker = (case detail of Some m \<Rightarrow> reason @ [NL] @ m | None \<Rightarrow> reason);
               (outcome, s) = defer_blocker_or_end_run (dh_env h) blocker (dn_session d);
               d = upd_session (\<lambda>_. s) d
           in case outcome of
                Some summary \<Rightarrow>
                  (do_run_ended summary,
                   try_send_ack ack_tx (Accepted (do_ack summary)) ((upd_session (send_output chat_text) d)\<lparr>dn_streak := 0\<rparr>))
              | None \<Rightarrow> (False, reject ack_tx BlockedAgainstNonActive ''Goal is not Active; blocked_reason ignored'' d))"

definition handle_message :: "'r drain_host \<Rightarrow> int \<Rightarrow> string option \<Rightarrow> nat option \<Rightarrow> 'r drain_state \<Rightarrow> 'r drain_state" where
  "handle_message h current_tokens message ack_tx d =
     (let d = upd_session (\<lambda>s. emit_goal_updated (dh_env h) (snd (goal_tokens current_tokens s))) d
      in try_send_ack ack_tx (Accepted (case message of Some m \<Rightarrow> m @ ''.'' | None \<Rightarrow> ''Goal updated.'')) d)"

definition complete_without_classifier :: "'r drain_host \<Rightarrow> int \<Rightarrow> nat option \<Rightarrow> 'r drain_state \<Rightarrow> 'r drain_state" where
  "complete_without_classifier h current_tokens ack_tx d =
     (let d = upd_session (\<lambda>s. clear_pending_classifier_completions (snd (goal_tokens current_tokens s))) d;
          d = snd (upd_plan h (set_all_audit_marks True) d);
          d = upd_tracker (\<lambda>t. reset_strategist_state
                (record_verdict_on_orchestration (dh_env h) VerdictAchieved None GapsClear t)) d
      in try_send_ack ack_tx CompletedWithoutClassifier (upd_session (emit_goal_updated (dh_env h)) d))"

definition non_active_meta :: "Session \<Rightarrow> (nat \<times> bool) option" where
  "non_active_meta s =
     (case gt_orchestration (ss_tracker s) of
        Some g \<Rightarrow> if go_status g = Active then None else Some (go_classifier_runs_attempted g, at_cap g)
      | None \<Rightarrow> Some (0, False))"

definition drop_non_active :: "nat \<Rightarrow> bool \<Rightarrow> nat option \<Rightarrow> 'r drain_state \<Rightarrow> 'r drain_state" where
  "drop_non_active attempts_seen post_cap ack_tx d =
     (if post_cap then
        reject ack_tx PostCap (''Classifier cap already reached ('' @ show_nat attempts_seen @ '' attempts); goal ''
          @ ''is BackOff-paused. Do not call update_goal again until the user resumes.'')
          (emit_drain (GoalClassifierDroppedAfterCap attempts_seen) d)
      else reject ack_tx NonActive ''Goal is not Active; cannot mark complete'' (emit_fail_open attempts_seen 0 d))"

definition defer_to_turn_end :: "UpdateGoalInput \<Rightarrow> nat option \<Rightarrow> 'r drain_state \<Rightarrow> 'r drain_state" where
  "defer_to_turn_end cmd ack_tx d =
     (let q = ss_pending_completions (dn_session d);
          full = (GOAL_CLASSIFIER_PENDING_QUEUE_CAP \<le> length q);
          d = (if full then emit_drain (GoalClassifierFailClosed ''pending_queue_full'' 0) d else d);
          q = (if full then tl q else q) @ [cmd];
          d = upd_session (\<lambda>s. s\<lparr>ss_pending_completions := q\<rparr>) d;
          d = emit_drain (GoalClassifierMidTurnDeferred (length q)) d
      in try_send_ack ack_tx (DeferredToTurnEnd (length q)) d)"

text \<open>Handlers of a claim that may pause the goal return whether the rest of the drain is to be dropped.\<close>

definition reject_concurrent ::
    "'r drain_host \<Rightarrow> GoalClassifierPolicy \<Rightarrow> nat option \<Rightarrow> 'r drain_state \<Rightarrow> bool \<times> 'r drain_state" where
  "reject_concurrent h policy ack_tx d =
     (let d = emit_drain (GoalClassifierFailClosed ''concurrent_in_flight'' 0) d in
      case account_not_achieved_without_sampler h policy d of
        (Some (attempt, details_path, cap_reached), d) \<Rightarrow>
          if cap_reached then
            (cap_just_reached (dn_session d), try_send_ack ack_tx (ClassifierCapReached details_path attempt) d)
          else (False, try_send_ack ack_tx (ClassifierConcurrentInFlight details_path attempt (cp_max_runs policy)) d)
      | (None, d) \<Rightarrow>
          (False, reject ack_tx InFlightOrchestrationVanished
                    ''Goal orchestration vanished during in-flight short-circuit'' d))"

definition emit_goal_verifying :: "'r drain_host \<Rightarrow> int \<Rightarrow> 'r drain_state \<Rightarrow> 'r drain_state" where
  "emit_goal_verifying h current_tokens d =
     (if \<not> ss_harness_enabled (dn_session d) then d
      else upd_session (\<lambda>s. on_tracker (\<lambda>t. map_orchestration (\<lambda>g. g\<lparr>go_verifying_in_flight := True\<rparr>) (account_elapsed (dh_env h) t))
             (snd (goal_tokens current_tokens s))) d)"

definition clear_verifying_latch :: "'r drain_state \<Rightarrow> 'r drain_state" where
  "clear_verifying_latch = upd_tracker (map_orchestration (\<lambda>g. g\<lparr>go_verifying_in_flight := False\<rparr>))"

definition refund_slot :: "'r drain_state \<Rightarrow> 'r drain_state" where
  "refund_slot = upd_tracker (\<lambda>t.
     if tracker_status t \<in> {Some BackOffPaused, Some NoProgressPaused, Some Blocked} then t
     else rollback_classifier_attempt t)"

definition release_in_flight :: "'r drain_state \<Rightarrow> 'r drain_state" where
  "release_in_flight d = d\<lparr>dn_in_flight := False\<rparr>"

text \<open>
  A verification, from the claim of the flag to its release. The first flag says that the turn was cancelled while the
  auditors worked: then only the guards act.
\<close>

definition verify_claim ::
    "'r drain_host \<Rightarrow> GoalClassifierPolicy \<Rightarrow> int \<Rightarrow> nat option \<Rightarrow> 'r drain_state \<Rightarrow> bool \<times> bool \<times> 'r drain_state" where
  "verify_claim h policy current_tokens ack_tx d =
     (let d = d\<lparr>dn_in_flight := True\<rparr>;
          (slot, t) = reserve_classifier_attempt_slot policy (ss_tracker (dn_session d));
          d = upd_tracker (\<lambda>_. t) d
      in case slot of
           None \<Rightarrow>
             (False, False, release_in_flight (reject ack_tx OrchestrationVanished
                ''Goal orchestration vanished before classifier could start'' (emit_fail_open 0 (dh_fire_latency h) d)))
         | Some attempt \<Rightarrow>
             (let d = emit_goal_verifying h current_tokens d in
              if dh_cancel h attempt then
                (True, False, release_in_flight (refund_slot (clear_verifying_latch
                   (upd_session (dh_meanwhile h) (snd (with_files h (\<lambda>ps. ((), dh_partial h ps)) d))))))
              else
                let (outcome, d) = run_verification_stage_for_drain h attempt (cp_max_runs policy) d;
                    d = clear_verifying_latch d
                in if status_of (dn_session d) \<noteq> Some Active then
                     (False, False, release_in_flight (refund_slot (reject ack_tx StatusChangedDuringClassifier
                        ''Goal transitioned to non-Active during classifier run''
                        (emit_fail_open attempt (dh_fire_latency h) d))))
                   else
                     let (ack, d) = apply_classifier_outcome h policy attempt outcome d
                     in (False, goal_is_paused (dn_session d), release_in_flight (try_send_ack ack_tx ack d))))"

definition handle_completion ::
    "'r drain_host \<Rightarrow> DrainPurpose \<Rightarrow> int \<Rightarrow> UpdateGoalInput \<Rightarrow> nat option \<Rightarrow> 'r drain_state \<Rightarrow> bool \<times> bool \<times> 'r drain_state" where
  "handle_completion h purpose current_tokens cmd ack_tx d =
     (let d = d\<lparr>dn_streak := 0\<rparr>;
          d = snd (upd_plan h ensure_dual_checklist_on_disk d);
          s = dn_session d
      in case require_exec_complete (plan_path (ss_tracker s))
                (case ss_plan s of Some body \<Rightarrow> Inr body | None \<Rightarrow> Inl (dh_read_error h)) of
           Inl detail \<Rightarrow> (False, False, reject ack_tx ExecChecklistIncomplete detail d)
         | Inr _ \<Rightarrow>
             (let policy = resolve_goal_classifier_policy h s in
              if \<not> cp_enabled policy then (False, False, complete_without_classifier h current_tokens ack_tx d)
              else case non_active_meta s of
                Some (attempts_seen, post_cap) \<Rightarrow> (False, False, drop_non_active attempts_seen post_cap ack_tx d)
              | None \<Rightarrow>
                  if purpose = MidTurn then (False, False, defer_to_turn_end cmd ack_tx d)
                  else if dn_in_flight d then
                    (let (paused, d) = reject_concurrent h policy ack_tx d in (False, paused, d))
                  else verify_claim h policy current_tokens ack_tx d))"

subsection \<open>The drain\<close>

record drain_locals =
  lc_block_seen :: bool
  lc_cap_dropped :: nat
  lc_auto_paused :: bool

definition handle_source ::
    "'r drain_host \<Rightarrow> DrainPurpose \<Rightarrow> int \<Rightarrow> DrainSource \<Rightarrow> drain_locals \<Rightarrow> 'r drain_state
     \<Rightarrow> bool \<times> drain_locals \<times> 'r drain_state" where
  "handle_source h purpose current_tokens source l d =
     (let (cmd, ack_tx) = into_parts source in
      if lc_auto_paused l then
        (False, l\<lparr>lc_cap_dropped := sat_add32 (lc_cap_dropped l) 1\<rparr>,
         reject ack_tx DroppedAfterPauseInDrain (''Goal auto-paused during verification; this completion was ''
           @ ''dropped without further verification'') d)
      else if lc_block_seen l then
        (False, l, reject ack_tx BlockSeenInDrain ''Goal just transitioned to Blocked by a prior update in this drain'' d)
      else case ug_blocked_reason cmd of
        Some reason \<Rightarrow>
          (let (ended, d) = handle_blocked h reason (ug_message cmd) ack_tx d in (False, l\<lparr>lc_block_seen := ended\<rparr>, d))
      | None \<Rightarrow>
          if ug_completed cmd \<noteq> Some True then (False, l, handle_message h current_tokens (ug_message cmd) ack_tx d)
          else
            let (cancelled, paused, d) = handle_completion h purpose current_tokens cmd ack_tx d
            in (cancelled, l\<lparr>lc_auto_paused := paused\<rparr>, d))"

fun drain_loop ::
    "'r drain_host \<Rightarrow> DrainPurpose \<Rightarrow> int \<Rightarrow> DrainSource list \<Rightarrow> drain_locals \<Rightarrow> 'r drain_state
     \<Rightarrow> bool \<times> drain_locals \<times> 'r drain_state" where
  "drain_loop h purpose current_tokens [] l d = (False, l, d)"
| "drain_loop h purpose current_tokens (source # rest) l d =
     (case handle_source h purpose current_tokens source l d of
        (cancelled, l, d) \<Rightarrow> if cancelled then (True, l, d) else drain_loop h purpose current_tokens rest l d)"

definition harness_disabled_detail :: string where
  "harness_disabled_detail =
     ''Goal mode is not active for this session (no /goal run in progress); update_goal has no effect.''"

text \<open>The drain; the flag says that the turn was cancelled before the drain was through.\<close>

definition drain_goal_updates_with_extra ::
    "'r drain_host \<Rightarrow> int \<Rightarrow> DrainPurpose \<Rightarrow> (UpdateGoalInput \<times> nat) list \<Rightarrow> 'r drain_state \<Rightarrow> bool \<times> 'r drain_state" where
  "drain_goal_updates_with_extra h current_tokens purpose extra d =
     (let live = extra @ dn_channel d;
          d' = d\<lparr>dn_channel := []\<rparr>
      in if \<not> ss_harness_enabled (dn_session d) then
           (False, fold (\<lambda>(i, tx). reject (Some tx) HarnessDisabled harness_disabled_detail) live d')
         else
           let pending = (if purpose = TurnEnd then ss_pending_completions (dn_session d) else []);
               d = (if purpose = TurnEnd then upd_session clear_pending_classifier_completions d' else d');
               (cancelled, l, d) = drain_loop h purpose current_tokens
                 (map PendingSource pending @ map (\<lambda>(i, tx). ChannelSource i tx) live)
                 \<lparr>lc_block_seen = False, lc_cap_dropped = 0, lc_auto_paused = False\<rparr> d
           in (cancelled, if \<not> cancelled \<and> 0 < lc_cap_dropped l
                          then emit_drain (GoalClassifierPendingQueueCleared (lc_cap_dropped l)) d else d))"

end
