(* ===== verification/Drain_Correct.thy ===== *)
theory Drain_Correct
  imports Goal_Drain Session_Correct Panel_Correct
begin

text \<open>
  What the drain of goal updates guarantees. The part of a goal that decides about its completion is its status and
  its last verdict, the key of the session. The locale \<open>key_relation\<close> is the contract of a relation between keys that
  survives a pause and a rejection; every step of the drain that does not record an approval then respects the
  relation. Its extension \<open>any_verdict\<close> also survives approvals, and then the whole drain respects it. Interpreted
  with \<open>not completed meanwhile\<close> and \<open>not approved meanwhile\<close> this gives the two main results: a drain completes no
  goal, and it records an approval only when a panel gave one.
\<close>

subsection \<open>The key of a session\<close>

type_synonym goal_key = "(GoalStatus \<times> GoalClassifierVerdict option) option"

definition tkey :: "GoalTracker \<Rightarrow> goal_key" where
  "tkey t = map_option (\<lambda>g. (go_status g, go_last_classifier_verdict g)) (gt_orchestration t)"

abbreviation key_of :: "Session \<Rightarrow> goal_key" where
  "key_of s \<equiv> tkey (ss_tracker s)"

lemma tkey_status: "tracker_status t = map_option fst (tkey t)"
  by (simp add: tracker_status_def tkey_def option.map_comp comp_def)

lemma tkey_map:
  "tkey (map_orchestration f t) = map_option (\<lambda>g. (go_status (f g), go_last_classifier_verdict (f g))) (gt_orchestration t)"
  by (simp add: tkey_def map_orchestration_def option.map_comp comp_def)

lemma tkey_same:
  assumes "\<And>g. go_status (f g) = go_status g \<and> go_last_classifier_verdict (f g) = go_last_classifier_verdict g"
  shows "tkey (map_orchestration f t) = tkey t"
  unfolding tkey_map using assms by (simp add: tkey_def)

lemma on_tracker_simps [simp]:
  "ss_tracker (on_tracker f s) = f (ss_tracker s)" "ss_plan (on_tracker f s) = ss_plan s"
  "ss_plan_mtime (on_tracker f s) = ss_plan_mtime s" "ss_pending_completions (on_tracker f s) = ss_pending_completions s"
  "ss_harness_enabled (on_tracker f s) = ss_harness_enabled s" "ss_total_tokens (on_tracker f s) = ss_total_tokens s"
  by (simp_all add: on_tracker_def)

lemmas tkey_unfold = tkey_def Let_def split_beta

lemma tkey_ops [simp]:
  "tkey (account_elapsed e t) = tkey t"
  "tkey (refresh_criteria_view m p t) = tkey t"
  "tkey (snd (defer_criterion c why t)) = tkey t"
  "tkey (snd (record_not_achieved_streak t)) = tkey t"
  "tkey (snd (record_classifier_stall fp t)) = tkey t"
  "tkey (snd (claim_strategist_fire pr t)) = tkey t"
  "tkey (snd (claim_amender_run n t)) = tkey t"
  "tkey (snd (reserve_classifier_attempt_slot policy t)) = tkey t"
  by (auto simp: tkey_unfold account_elapsed_def flush_elapsed_def refresh_criteria_view_def defer_criterion_def
        record_not_achieved_streak_def record_classifier_stall_def note_fingerprint_def claim_strategist_fire_def
        claim_amender_run_def reset_classifier_stall_fields_def reserve_classifier_attempt_slot_def split: option.splits)

lemma tkey_resets [simp]:
  "tkey (reset_strategist_state t) = tkey t"
  "tkey (reset_classifier_stall t) = tkey t"
  "tkey (rollback_classifier_attempt t) = tkey t"
  "tkey (grant_fresh_classifier_budget t) = tkey t"
  "tkey (revoke_strategist_cap_bonus t) = tkey t"
  "tkey (record_strategy_recommendation path r t) = tkey t"
  by (simp_all add: tkey_def map_orchestration_def option.map_comp comp_def reset_strategist_state_def reset_strategist_fields_def
        reset_classifier_stall_def reset_classifier_stall_fields_def rollback_classifier_attempt_def
        grant_fresh_classifier_budget_def revoke_strategist_cap_bonus_def record_strategy_recommendation_def)

lemma tkey_settle [simp]: "tkey (strategist_settle outcome t) = tkey t"
  by (cases outcome rule: strategist_settle.cases) simp_all

lemma tkey_record [simp]:
  "tkey (record_verdict_on_orchestration e v p gaps t) = map_option (\<lambda>(st, _). (st, Some v)) (tkey t)"
proof -
  have "go_status (update_gaps gaps g) = go_status g" "go_last_classifier_verdict (update_gaps gaps g) = go_last_classifier_verdict g" for g
    by (cases gaps; simp)+
  then show ?thesis by (simp add: record_verdict_on_orchestration_def tkey_def option.map_comp comp_def map_orchestration_def)
qed

lemma tkey_defer_fold [simp]: "tkey (fold (\<lambda>c t. snd (defer_criterion (Some c) why t)) cs t) = tkey t"
  by (induction cs arbitrary: t) simp_all

lemma tkey_pause: "tkey (snd (pause_with_message e PauseVerification msg t)) =
    (case tkey t of Some (Active, v) \<Rightarrow> Some (Blocked, v) | k \<Rightarrow> k)"
  by (auto simp: pause_with_message_def pause_inner_def tkey_def Let_def record_event_def append_history_def
        flush_elapsed_def entry_now_def map_orchestration_def split: option.splits GoalStatus.splits)

subsection \<open>The key through the operations of the session\<close>

lemma key_ops [simp]:
  "key_of (snd (goal_tokens c s)) = key_of s"
  "key_of (emit_goal_updated e s) = key_of s"
  "key_of (clear_pending_classifier_completions s) = key_of s"
  "key_of (send_output txt s) = key_of s"
  "key_of (refresh_view s) = key_of s"
  "key_of (s\<lparr>ss_plan := p, ss_plan_mtime := m\<rparr>) = key_of s"
proof -
  show "key_of (snd (goal_tokens c s)) = key_of s"
    by (auto simp: goal_tokens_def tkey_def ratchet_tokens_def Let_def split: option.splits prod.splits)
  show "key_of (refresh_view s) = key_of s"
    by (simp add: refresh_view_def force_refresh_criteria_view_def tkey_same)
qed (simp_all add: emit_goal_updated_def clear_pending_classifier_completions_def send_output_def)

definition paused_key :: "goal_key \<Rightarrow> goal_key" where
  "paused_key k = (case k of Some (Active, v) \<Rightarrow> Some (Blocked, v) | _ \<Rightarrow> k)"

lemma key_auto_pause [simp]:
  "key_of (snd (auto_pause_goal_if_active_with_message e PauseVerification msg s)) = paused_key (key_of s)"
proof (cases "status_of s = Some Active")
  case True
  then obtain v where "key_of s = Some (Active, v)" by (auto simp: tkey_status)
  then show ?thesis using True
    by (simp add: auto_pause_goal_if_active_with_message_def auto_pause_goal_if_active_inner_def Let_def paused_key_def tkey_pause)
next
  case False
  then show ?thesis
    by (auto simp: auto_pause_goal_if_active_with_message_def auto_pause_goal_if_active_inner_def paused_key_def tkey_status
          split: option.split GoalStatus.split)
qed

lemma key_defer_blocker: "key_of (snd (defer_blocker_or_end_run e b s)) \<in> {key_of s, paused_key (key_of s)}"
  by (auto simp: defer_blocker_or_end_run_def Let_def)

lemma key_defer_refuted: "key_of (snd (defer_refuted_or_end_run e fs why dp ps n s)) \<in> {key_of s, paused_key (key_of s)}"
  by (auto simp: defer_refuted_or_end_run_def Let_def)

subsection \<open>Frames of the drain\<close>

abbreviation dkey :: "'r drain_state \<Rightarrow> goal_key" where
  "dkey d \<equiv> key_of (dn_session d)"

lemma upd_session_simps [simp]:
  "dn_session (upd_session f d) = f (dn_session d)" "dn_panel (upd_session f d) = dn_panel d"
  "dn_acks (upd_session f d) = dn_acks d" "dn_stages (upd_session f d) = dn_stages d"
  "dn_in_flight (upd_session f d) = dn_in_flight d" "dn_channel (upd_session f d) = dn_channel d"
  by (simp_all add: upd_session_def on_session_def)

lemma upd_tracker_simps [simp]:
  "dn_session (upd_tracker f d) = on_tracker f (dn_session d)" "dn_panel (upd_tracker f d) = dn_panel d"
  "dn_acks (upd_tracker f d) = dn_acks d" "dn_stages (upd_tracker f d) = dn_stages d"
  "dn_in_flight (upd_tracker f d) = dn_in_flight d" "dn_channel (upd_tracker f d) = dn_channel d"
  by (simp_all add: upd_tracker_def)

lemma drain_emit_simps [simp]:
  "dn_session (emit_drain ev d) = dn_session d" "dn_acks (emit_drain ev d) = dn_acks d"
  "dn_stages (emit_drain ev d) = dn_stages d" "dn_in_flight (emit_drain ev d) = dn_in_flight d"
  "dn_session (emit_fail_open n l d) = dn_session d" "dn_acks (emit_fail_open n l d) = dn_acks d"
  "dn_stages (emit_fail_open n l d) = dn_stages d" "dn_in_flight (emit_fail_open n l d) = dn_in_flight d"
  "dn_session (try_send_ack tx a d) = dn_session d" "dn_stages (try_send_ack tx a d) = dn_stages d"
  "dn_in_flight (try_send_ack tx a d) = dn_in_flight d"
  "dn_session (reject tx r m d) = dn_session d" "dn_stages (reject tx r m d) = dn_stages d"
  "dn_in_flight (reject tx r m d) = dn_in_flight d"
  by (simp_all add: emit_drain_def emit_fail_open_def try_send_ack_def reject_def split: option.split)

lemma wave_session_plan:
  "\<exists>p m. wv_session (snd (on_plan h f w)) = (wv_session w)\<lparr>ss_plan := p, ss_plan_mtime := m\<rparr>"
proof -
  have "\<exists>p m. s = s\<lparr>ss_plan := p, ss_plan_mtime := m\<rparr>" for s :: Session
    by (rule exI [of _ "ss_plan s"], rule exI [of _ "ss_plan_mtime s"]) simp
  then show ?thesis by (auto simp: on_plan_def Let_def on_session_def split: prod.splits)
qed

lemma on_plan_key: "on_plan h f w = (a, w') \<Longrightarrow> key_of (wv_session w') = key_of (wv_session w)"
  using wave_session_plan [of h f w] by auto

lemma upd_plan_simps [simp]:
  "dn_acks (snd (upd_plan h f d)) = dn_acks d" "dn_stages (snd (upd_plan h f d)) = dn_stages d"
  "dn_in_flight (snd (upd_plan h f d)) = dn_in_flight d"
  "ss_pending_completions (dn_session (snd (upd_plan h f d))) = ss_pending_completions (dn_session d)"
  "ss_tracker (dn_session (snd (upd_plan h f d))) = ss_tracker (dn_session d)"
  using wave_session_plan [of "dh_wave h" f "dn_wave d"] by (auto simp: upd_plan_def Let_def split: prod.splits)

lemma with_files_simps [simp]:
  "dn_acks (snd (with_files h f d)) = dn_acks d" "dn_stages (snd (with_files h f d)) = dn_stages d"
  "dn_in_flight (snd (with_files h f d)) = dn_in_flight d"
  "ss_pending_completions (dn_session (snd (with_files h f d))) = ss_pending_completions (dn_session d)"
  "ss_tracker (dn_session (snd (with_files h f d))) = ss_tracker (dn_session d)"
  by (simp_all add: with_files_def Let_def split: prod.splits)

lemma fst_with_files: "fst (with_files h f d) = fst (f (loaded_files d))"
  by (simp add: with_files_def Let_def split: prod.splits)

lemma dkey_assignment [simp]: "dkey (snd (skeptic_assignment h n d)) = dkey d"
  by (auto simp: skeptic_assignment_def Let_def split_beta tkey_same split: option.split)

lemma dkey_quick [simp]:
  "dkey (handle_message h n m tx d) = dkey d"
  "dkey (drop_non_active k b tx d) = dkey d"
  "dkey (defer_to_turn_end cmd tx d) = dkey d"
  "dkey (emit_goal_verifying h n d) = dkey d"
  "dkey (clear_verifying_latch d) = dkey d"
  "dkey (refund_slot d) = dkey d"
  "dkey (release_in_flight d) = dkey d"
  by (simp_all add: handle_message_def drop_non_active_def defer_to_turn_end_def Let_def emit_goal_verifying_def
        clear_verifying_latch_def refund_slot_def release_in_flight_def tkey_same)

subsection \<open>Relations that survive pauses and rejections\<close>

definition quiet :: "(goal_key \<Rightarrow> goal_key \<Rightarrow> bool) \<Rightarrow> 'r drain_host \<Rightarrow> bool" where
  "quiet R h \<longleftrightarrow> (\<forall>s. R (key_of s) (key_of (dh_meanwhile h s))) \<and> (\<forall>s. R (key_of s) (key_of (wh_meanwhile (dh_wave h) s)))"

locale key_relation =
  fixes R :: "goal_key \<Rightarrow> goal_key \<Rightarrow> bool"
  assumes same: "R k k"
    and chain: "R k k' \<Longrightarrow> R k' k'' \<Longrightarrow> R k k''"
    and pausing: "R k (paused_key k)"
    and rejecting: "R k (map_option (\<lambda>(st, _). (st, Some VerdictNotAchieved)) k)"
begin

lemma quietD:
  assumes "quiet R h"
  shows "R (key_of s) (key_of (dh_meanwhile h s))" "R (key_of s) (key_of (wh_meanwhile (dh_wave h) s))"
  using assms by (simp_all add: quiet_def)

lemma rel_amend:
  assumes "quiet R h"
  shows "R (key_of (wv_session w)) (key_of (wv_session (amend_plan_for_unattributed_findings (dh_wave h) fs w)))"
proof -
  have proposal: "R k (key_of (wv_session (apply_proposal (dh_wave h) a w)))" if "R k (key_of (wv_session w))" for k a w
    using that
    by (auto simp: apply_proposal_def emit_plan_amended_def emit_def on_session_def Let_def dest: on_plan_key
          split: prod.splits sum.splits)
  have run: "R (key_of (wv_session w)) (key_of (wv_session (run_claimed_amender (dh_wave h) us o' v w)))" for us o' v w
    using quietD(2) [OF assms, of "wv_session w"]
    by (auto simp: run_claimed_amender_def Let_def emit_def on_session_def split: GoalAmenderOutcome.splits intro!: proposal)
  obtain claim s where c: "claim_amender (wv_session w) = (claim, s)" by fastforce
  then have s: "key_of s = key_of (wv_session w)" by (auto simp: claim_amender_def Let_def split_beta)
  show ?thesis
    using run [of "w\<lparr>wv_session := s\<rparr>"] s same
    by (auto simp: amend_plan_for_unattributed_findings_def Let_def c split: option.splits)
qed

lemma rel_paused: "k' \<in> {k, paused_key k} \<Longrightarrow> R k k'"
  using same pausing by blast

lemma meanwhile_after_plan:
  "quiet R h \<Longrightarrow> R (key_of s) (key_of (dh_meanwhile h (s\<lparr>ss_plan := p, ss_plan_mtime := m\<rparr>)))"
  using quietD(1) [of h "s\<lparr>ss_plan := p, ss_plan_mtime := m\<rparr>"] by simp

lemma rel_strategist:
  assumes "quiet R h"
  shows "R (dkey d) (dkey (maybe_run_goal_strategist h a n d))"
  using quietD(1) [OF assms] meanwhile_after_plan [OF assms] by (auto simp: maybe_run_goal_strategist_def Let_def same split: prod.splits option.splits)

lemma rel_escalate: "quiet R h \<Longrightarrow> R (dkey d) (dkey (escalate_strategy h forced a d))"
  using rel_strategist [of h "upd_tracker (\<lambda>_. snd (claim_strategist_fire pr (ss_tracker (dn_session d)))) d" a for pr]
  by (simp add: escalate_strategy_def Let_def split_beta same split: option.split)

lemma rel_stall: "R (dkey d) (dkey (snd (stall_ladder h dp fs ps fp a d)))"
proof -
  let ?d = "upd_tracker (\<lambda>_. snd (if fp = [] then (False, ss_tracker (dn_session d))
              else record_classifier_stall fp (ss_tracker (dn_session d)))) d"
  have "dkey ?d = dkey d" by simp
  then show ?thesis
    using rel_paused [OF key_defer_refuted [of "dh_env h" fs "''the same gap survived a change of strategy''" dp ps a "dn_session ?d"]]
    by (auto simp: stall_ladder_def Let_def split_beta same)
qed

lemma rel_not_achieved:
  assumes "quiet R h"
  shows "R (dkey d) (dkey (snd (apply_not_achieved h policy a dp gs fs ps fp d)))"
proof -
  define d1 where "d1 = clear_refuted_marks h fs d"
  define d2 where "d2 = d1\<lparr>dn_wave := amend_plan_for_unattributed_findings (dh_wave h) fs (dn_wave d1)\<rparr>"
  define d3 where "d3 = upd_tracker (\<lambda>t. snd (record_not_achieved_streak
      (record_verdict_on_orchestration (dh_env h) VerdictNotAchieved (Some dp) (GapsSet gs fs) t))) d2"
  define why where "why = ''verification refuted it '' @ show_nat a @ '' times without progress; '' @ ''see '' @ dp"
  define d4 where "d4 = (if cp_max_runs policy \<le> a
      then upd_session (\<lambda>_. snd (defer_refuted_or_end_run (dh_env h) fs why dp ps a (dn_session d3)))
             (emit_drain (GoalClassifierCapReached a) d3) else d3)"
  have "dkey d1 = dkey d" by (simp add: d1_def clear_refuted_marks_def Let_def)
  moreover have "R (dkey d1) (dkey d2)" using rel_amend [OF assms, of "dn_wave d1"] by (simp add: d2_def)
  moreover have "R (dkey d2) (dkey d3)" using rejecting by (simp add: d3_def)
  moreover have "R (dkey d3) (dkey d4)"
    using rel_paused [OF key_defer_refuted [of "dh_env h" fs why dp ps a "dn_session d3"]] same by (simp add: d4_def)
  ultimately have upto: "R (dkey d) (dkey d4)" using chain by metis
  obtain r d5 where st: "stall_ladder h dp fs ps fp a d4 = (r, d5)" by fastforce
  then have "R (dkey d) (dkey d5)" using upto chain rel_stall [of d4 h dp fs ps fp a] by auto
  moreover have "R (dkey d5) (dkey (escalate_strategy h forced a d5))" for forced using rel_escalate [OF assms] .
  ultimately have "R (dkey d) (dkey d5)" "R (dkey d) (dkey (escalate_strategy h forced a d5))" for forced
    using chain by blast+
  then show ?thesis
    using upto st
    by (auto simp: apply_not_achieved_def Let_def d1_def [symmetric] d2_def [symmetric] d3_def [symmetric] split_beta
          d4_def why_def split: sum.split if_splits)
qed

lemma rel_apply:
  assumes "quiet R h" and "\<And>dp. outcome \<noteq> Achieved dp"
  shows "R (dkey d) (dkey (snd (apply_classifier_outcome h policy a outcome d)))"
proof -
  have c: "dkey (count_tokens d) = dkey d" by (simp add: count_tokens_def)
  show ?thesis
  proof (cases outcome)
    case (NotAchieved dp gs fs ps fp)
    then show ?thesis using rel_not_achieved [OF assms(1), of "count_tokens d"] c by (simp add: apply_classifier_outcome_def)
  next
    case (BlockedOutcome dp ps)
    have "R (dkey d) (paused_key (map_option (\<lambda>(st, _). (st, Some VerdictNotAchieved)) (dkey d)))"
      using rejecting pausing chain by blast
    then show ?thesis using BlockedOutcome
      by (simp add: apply_classifier_outcome_def apply_blocked_def auto_pause_for_classifier_blocked_def Let_def c)
  next
    case (FailOpenAchieved reason dp)
    then show ?thesis using rejecting by (simp add: apply_classifier_outcome_def apply_fail_open_def Let_def c)
  qed (use assms(2) in blast)
qed

lemma rel_gate:
  assumes "quiet R h"
  shows "R (dkey d) (dkey (snd (deterministic_gate_rejection h pf v a m d)))"
proof -
  let ?w = "with_files h (\<lambda>ps. gate_failure (dh_shell h) (Option.bind pf (pn_files ps)) ps) d"
  have "R (dkey d) (key_of (dh_meanwhile h (dn_session (snd ?w))))"
    using quietD(1) [OF assms, of "dn_session (snd ?w)"] by simp
  then show ?thesis by (simp add: deterministic_gate_rejection_def Let_def split_beta split: option.split)
qed

lemma rel_panel:
  assumes "quiet R h"
  shows "R (dkey d) (dkey (snd (run_panel_for_drain h g a m c d)))"
proof -
  have "R (dkey d) (key_of (dh_meanwhile h s))" if "key_of s = dkey d" for s using quietD(1) [OF assms, of s] that by simp
  then show ?thesis by (simp add: run_panel_for_drain_def Let_def split_beta tkey_same)
qed

lemma rel_stage:
  assumes "quiet R h"
  shows "R (dkey d) (dkey (snd (run_verification_stage_for_drain h a m d)))"
proof (cases "gt_orchestration (ss_tracker (dn_session d))")
  case (Some g)
  obtain r d1 where gate: "deterministic_gate_rejection h (go_plan_file g) (go_verifier_id g) a m d = (r, d1)" by fastforce
  then have "R (dkey d) (dkey d1)" using rel_gate [OF assms, of d "go_plan_file g" "go_verifier_id g" a m] by simp
  then show ?thesis using rel_panel [OF assms, of d1] chain Some gate
    by (auto simp: run_verification_stage_for_drain_def split: option.split)
qed (simp add: run_verification_stage_for_drain_def same)

lemma rel_blocked: "R (dkey d) (dkey (snd (handle_blocked h reason detail tx d)))"
proof -
  have "R (dkey d) (key_of (snd (defer_blocker_or_end_run e b (dn_session d))))" for e b
    by (rule rel_paused [OF key_defer_blocker])
  then show ?thesis by (auto simp: handle_blocked_def Let_def split_beta same split: option.split)
qed

lemma rel_concurrent: "R (dkey d) (dkey (snd (reject_concurrent h policy tx d)))"
proof -
  have "R (dkey d) (dkey (snd (account_not_achieved_without_sampler h policy d)))" for d
  proof (cases "gt_orchestration (ss_tracker (dn_session d))")
    case (Some g)
    have deferred: "R (dkey d) (key_of (snd (defer_refuted_or_end_run e fs why dp ps n s)))"
      if "key_of s = map_option (\<lambda>(st, _). (st, Some VerdictNotAchieved)) (dkey d)" for e fs why dp ps n s
      using rel_paused [OF key_defer_refuted [of e fs why dp ps n s]] that rejecting chain by metis
    show ?thesis using rejecting
      by (auto simp: account_not_achieved_without_sampler_def Let_def Some count_tokens_def tkey_same intro!: deferred)
  qed (simp add: account_not_achieved_without_sampler_def same)
  from this [of "emit_drain (GoalClassifierFailClosed ''concurrent_in_flight'' 0) d"] show ?thesis
    by (auto simp: reject_concurrent_def Let_def split: prod.splits option.splits)
qed

end

locale any_verdict = key_relation +
  assumes approving: "R k (map_option (\<lambda>(st, _). (st, Some VerdictAchieved)) k)"
begin

lemma rel_apply_any:
  assumes "quiet R h"
  shows "R (dkey d) (dkey (snd (apply_classifier_outcome h policy a outcome d)))"
proof (cases outcome)
  case (Achieved dp)
  then show ?thesis using approving
    by (simp add: apply_classifier_outcome_def apply_achieved_def Let_def count_tokens_def)
qed (use rel_apply [OF assms] in auto)

lemma rel_verify:
  assumes "quiet R h"
  shows "R (dkey d) (dkey (snd (snd (verify_claim h policy n tx d))))"
proof -
  define d1 where "d1 = upd_tracker (\<lambda>_. snd (reserve_classifier_attempt_slot policy (ss_tracker (dn_session d)))) (d\<lparr>dn_in_flight := True\<rparr>)"
  have d1: "dkey (emit_goal_verifying h n d1) = dkey d" "dkey d1 = dkey d" by (simp_all add: d1_def)
  have cancelled: "R (dkey d) (key_of (dh_meanwhile h s))" if "key_of s = dkey d" for s using quietD(1) [OF assms, of s] that by simp
  show ?thesis
  proof (cases "fst (reserve_classifier_attempt_slot policy (ss_tracker (dn_session d)))")
    case (Some a)
    obtain outcome d2 where st: "run_verification_stage_for_drain h a (cp_max_runs policy) (emit_goal_verifying h n d1) = (outcome, d2)"
      by fastforce
    have stage: "R (dkey d) (dkey d2)"
      using rel_stage [OF assms, of "emit_goal_verifying h n d1" a "cp_max_runs policy"] st d1 by simp
    have applied: "R (dkey d) (dkey (snd (apply_classifier_outcome h policy a outcome (clear_verifying_latch d2))))"
      using chain [OF stage] rel_apply_any [OF assms, of "clear_verifying_latch d2"] by simp
    show ?thesis
      using Some st d1 stage applied
      by (auto simp: verify_claim_def Let_def split_beta d1_def [symmetric] d1 intro!: cancelled)
  qed (simp add: verify_claim_def Let_def split_beta d1_def [symmetric] d1 same)
qed

lemma rel_completion:
  assumes "quiet R h"
  shows "R (dkey d) (dkey (snd (snd (handle_completion h purpose n cmd tx d))))"
proof -
  define d1 where "d1 = snd (upd_plan h ensure_dual_checklist_on_disk (d\<lparr>dn_streak := 0\<rparr>))"
  have d1: "dkey d1 = dkey d" by (simp add: d1_def)
  have "R (dkey d) (dkey (complete_without_classifier h n tx d1))"
    using approving d1 by (simp add: complete_without_classifier_def Let_def)
  then show ?thesis
    using d1 same rel_concurrent [of d1] rel_verify [OF assms, of d1]
    by (auto simp: handle_completion_def Let_def d1_def [symmetric] split_beta split: sum.split option.split)
qed

lemma rel_source:
  assumes "quiet R h"
  shows "R (dkey d) (dkey (snd (snd (handle_source h purpose n source l d))))"
  using rel_completion [OF assms] rel_blocked same
  by (auto simp: handle_source_def Let_def split_beta split: option.split)

end

subsection \<open>From one claim to the drain\<close>

lemma loop_respects:
  assumes "\<And>d. S d d" and "\<And>d d' d''. S d d' \<Longrightarrow> S d' d'' \<Longrightarrow> S d d''"
    and "\<And>source l d. S d (snd (snd (handle_source h purpose n source l d)))"
  shows "S d (snd (snd (drain_loop h purpose n sources l d)))"
proof (induction sources arbitrary: l d)
  case (Cons source rest)
  obtain c l1 d1 where eq: "handle_source h purpose n source l d = (c, l1, d1)" by (metis prod_cases3)
  then have "S d d1" using assms(3) [of d source l] by simp
  moreover from this have "S d (snd (snd (drain_loop h purpose n rest l1 d1)))" using Cons.IH [of d1 l1] assms(2) by blast
  ultimately show ?case by (simp add: eq)
qed (simp add: assms(1))

lemma drain_respects:
  assumes "\<And>d. S d d" and "\<And>d d' d''. S d d' \<Longrightarrow> S d' d'' \<Longrightarrow> S d d''"
    and "\<And>source l d. S d (snd (snd (handle_source h purpose n source l d)))"
    and "\<And>d. S d (d\<lparr>dn_channel := []\<rparr>)" and "\<And>d. S d (upd_session clear_pending_classifier_completions d)"
    and "\<And>ev d. S d (emit_drain ev d)" and "\<And>tx r m d. S d (reject tx r m d)"
  shows "S d (snd (drain_goal_updates_with_extra h n purpose extra d))"
proof -
  have rejected: "S d0 (fold (\<lambda>(i, tx). reject (Some tx) r m) live d0)" for live :: "(UpdateGoalInput \<times> nat) list" and r m d0
  proof (induction live arbitrary: d0)
    case (Cons x live)
    show ?case using assms(2) [OF assms(7) Cons.IH, of d0 "Some (snd x)" r m] by (simp add: split_beta)
  qed (simp add: assms(1))
  define d1 where "d1 = (if purpose = TurnEnd then upd_session clear_pending_classifier_completions (d\<lparr>dn_channel := []\<rparr>) else d\<lparr>dn_channel := []\<rparr>)"
  have "S d d1" using assms(2) [OF assms(4) assms(5), of d] assms(4) [of d] by (simp add: d1_def)
  moreover have "S d1 (snd (snd (drain_loop h purpose n sources l d1)))" for sources l
    by (rule loop_respects) (fact assms(1), fact assms(2), fact assms(3))
  ultimately have loop: "S d (snd (snd (drain_loop h purpose n sources l d1)))" for sources l
    by (rule assms(2))
  have "S d (emit_drain ev (snd (snd (drain_loop h purpose n sources l d1))))" for ev sources l
    using assms(2) [OF loop assms(6)] .
  moreover have "S d (fold (\<lambda>(i, tx). reject (Some tx) r m) live (d\<lparr>dn_channel := []\<rparr>))"
    for live :: "(UpdateGoalInput \<times> nat) list" and r m
    using assms(2) [OF assms(4) rejected] .
  ultimately show ?thesis using loop
    by (simp add: drain_goal_updates_with_extra_def Let_def split_beta d1_def [symmetric] del: fold_append)
qed

subsection \<open>A drain completes no goal\<close>

definition not_completed :: "goal_key \<Rightarrow> goal_key \<Rightarrow> bool" where
  "not_completed k k' \<longleftrightarrow> (map_option fst k' = Some Complete \<longrightarrow> map_option fst k = Some Complete)"

interpretation completion: any_verdict not_completed
  by unfold_locales (auto simp: not_completed_def paused_key_def split: option.splits GoalStatus.splits)

definition completes_nothing :: "(Session \<Rightarrow> Session) \<Rightarrow> bool" where
  "completes_nothing f \<longleftrightarrow> (\<forall>s. status_of (f s) = Some Complete \<longrightarrow> status_of s = Some Complete)"

lemma quiet_completion:
  "quiet not_completed h \<longleftrightarrow> completes_nothing (dh_meanwhile h) \<and> completes_nothing (wh_meanwhile (dh_wave h))"
  by (simp add: quiet_def not_completed_def completes_nothing_def tkey_status)

lemma drain_completes_nothing:
  assumes "completes_nothing (dh_meanwhile h)" and "completes_nothing (wh_meanwhile (dh_wave h))"
    and "status_of (dn_session (snd (drain_goal_updates_with_extra h n purpose extra d))) = Some Complete"
  shows "status_of (dn_session d) = Some Complete"
proof -
  have "quiet not_completed h" using assms(1,2) by (simp add: quiet_completion)
  then have "not_completed (dkey d) (dkey (snd (drain_goal_updates_with_extra h n purpose extra d)))"
    by (intro drain_respects [of "\<lambda>d d'. not_completed (dkey d) (dkey d')"])
       (auto intro: completion.same completion.chain completion.rel_source)
  then show ?thesis using assms(3) by (simp add: not_completed_def tkey_status)
qed

subsection \<open>An approval is earned\<close>

definition not_approved :: "goal_key \<Rightarrow> goal_key \<Rightarrow> bool" where
  "not_approved k k' \<longleftrightarrow> (Option.bind k' snd = Some VerdictAchieved \<longrightarrow> Option.bind k snd = Some VerdictAchieved)"

lemma recorded_verdict [simp]: "Option.bind (map_option (\<lambda>(st, _). (st, v)) k) snd = (if k = None then None else v)"
  by (cases k) auto

interpretation approval: key_relation not_approved
  by unfold_locales (auto simp: not_approved_def paused_key_def split: option.splits GoalStatus.splits prod.splits)

definition verdict_of :: "Session \<Rightarrow> GoalClassifierVerdict option" where
  "verdict_of s = Option.bind (gt_orchestration (ss_tracker s)) go_last_classifier_verdict"

lemma verdict_key: "verdict_of s = Option.bind (key_of s) snd"
  by (cases "gt_orchestration (ss_tracker s)") (simp_all add: verdict_of_def tkey_def)

definition approves_nothing :: "(Session \<Rightarrow> Session) \<Rightarrow> bool" where
  "approves_nothing f \<longleftrightarrow> (\<forall>s. verdict_of (f s) = Some VerdictAchieved \<longrightarrow> verdict_of s = Some VerdictAchieved)"

lemma quiet_approval:
  "quiet not_approved h \<longleftrightarrow> approves_nothing (dh_meanwhile h) \<and> approves_nothing (wh_meanwhile (dh_wave h))"
  by (simp add: quiet_def not_approved_def approves_nothing_def verdict_key)

text \<open>A start of the stage whose panel approves, and the relation that an approval is new only with such a start.\<close>

definition approving_start :: "stage_start \<Rightarrow> bool" where
  "approving_start st \<longleftrightarrow>
     (\<exists>dp. vs_outcome (fst (run_verification_stage (st_host st) (st_schedule st) (st_inputs st) (st_files st))) = Achieved dp)"

definition earned :: "'r drain_state \<Rightarrow> 'r drain_state \<Rightarrow> bool" where
  "earned d d' \<longleftrightarrow> (\<exists>starts. dn_stages d' = dn_stages d @ starts
     \<and> (not_approved (dkey d) (dkey d') \<or> (\<exists>st\<in>set starts. approving_start st)))"

lemma earned_refl: "earned d d"
  by (simp add: earned_def approval.same)

lemma earned_trans: "earned d d' \<Longrightarrow> earned d' d'' \<Longrightarrow> earned d d''"
  unfolding earned_def by (auto intro: approval.chain)

lemma earned_same: "dn_stages d' = dn_stages d \<Longrightarrow> not_approved (dkey d) (dkey d') \<Longrightarrow> earned d d'"
  by (simp add: earned_def)

text \<open>What applying an outcome leaves alone.\<close>

lemma strategist_frame [simp]:
  "dn_stages (maybe_run_goal_strategist h a n d) = dn_stages d" "dn_acks (maybe_run_goal_strategist h a n d) = dn_acks d"
  "dn_in_flight (maybe_run_goal_strategist h a n d) = dn_in_flight d"
  by (simp_all add: maybe_run_goal_strategist_def Let_def split_beta split: option.split)

lemma escalate_frame [simp]:
  "dn_stages (escalate_strategy h forced a d) = dn_stages d" "dn_acks (escalate_strategy h forced a d) = dn_acks d"
  "dn_in_flight (escalate_strategy h forced a d) = dn_in_flight d"
  by (simp_all add: escalate_strategy_def Let_def split_beta split: option.split)

lemma stall_frame [simp]:
  "dn_stages (snd (stall_ladder h dp fs ps fp a d)) = dn_stages d" "dn_acks (snd (stall_ladder h dp fs ps fp a d)) = dn_acks d"
  "dn_in_flight (snd (stall_ladder h dp fs ps fp a d)) = dn_in_flight d"
  by (simp_all add: stall_ladder_def Let_def split_beta)

lemma clear_marks_frame [simp]:
  "dn_stages (clear_refuted_marks h fs d) = dn_stages d" "dn_acks (clear_refuted_marks h fs d) = dn_acks d"
  "dn_in_flight (clear_refuted_marks h fs d) = dn_in_flight d"
  by (simp_all add: clear_refuted_marks_def Let_def)

lemma not_achieved_frame [simp]:
  "dn_stages (snd (apply_not_achieved h policy a dp gs fs ps fp d)) = dn_stages d"
  "dn_acks (snd (apply_not_achieved h policy a dp gs fs ps fp d)) = dn_acks d"
  "dn_in_flight (snd (apply_not_achieved h policy a dp gs fs ps fp d)) = dn_in_flight d"
proof -
  have eq: "(case x of (Inl ack, d) \<Rightarrow> (ack, d) | (Inr forced, d) \<Rightarrow> (n, upd_session f (escalate_strategy h forced a d)))
      = (case fst x of Inl ack \<Rightarrow> (ack, snd x) | Inr forced \<Rightarrow> (n, upd_session f (escalate_strategy h forced a (snd x))))"
    for x :: "(UpdateGoalAck + bool) \<times> 'a drain_state" and n f
    by (cases x) (simp split: sum.split)
  show "dn_stages (snd (apply_not_achieved h policy a dp gs fs ps fp d)) = dn_stages d"
    "dn_acks (snd (apply_not_achieved h policy a dp gs fs ps fp d)) = dn_acks d"
    "dn_in_flight (snd (apply_not_achieved h policy a dp gs fs ps fp d)) = dn_in_flight d"
    by (auto simp: apply_not_achieved_def Let_def split_beta eq split: sum.split)
qed

lemma apply_frame [simp]:
  "dn_stages (snd (apply_classifier_outcome h policy a outcome d)) = dn_stages d"
  "dn_acks (snd (apply_classifier_outcome h policy a outcome d)) = dn_acks d"
  "dn_in_flight (snd (apply_classifier_outcome h policy a outcome d)) = dn_in_flight d"
  by (simp_all add: apply_classifier_outcome_def apply_achieved_def apply_blocked_def apply_fail_open_def count_tokens_def Let_def
        split: GoalClassifierOutcome.split)

lemma stage_for_drain_starts:
  assumes "run_verification_stage_for_drain h a m d = (outcome, d')"
  obtains starts where "dn_stages d' = dn_stages d @ starts" "\<And>dp. outcome = Achieved dp \<Longrightarrow> \<exists>st\<in>set starts. approving_start st"
proof (cases "gt_orchestration (ss_tracker (dn_session d))")
  case None
  then show ?thesis using that [of "[]"] assms by (auto simp: run_verification_stage_for_drain_def)
next
  case (Some g)
  obtain r d1 where gate: "deterministic_gate_rejection h (go_plan_file g) (go_verifier_id g) a m d = (r, d1)" by fastforce
  then have d1: "dn_stages d1 = dn_stages d" and r: "\<And>o1. r = Some o1 \<Longrightarrow> \<exists>dp f. o1 = gate_outcome dp f"
    by (auto simp: deterministic_gate_rejection_def Let_def split_beta split: option.splits)
  have panel: "\<exists>st. dn_stages (snd (run_panel_for_drain h g a m c d1)) = dn_stages d1 @ [st]
      \<and> (\<forall>dp. fst (run_panel_for_drain h g a m c d1) = Achieved dp \<longrightarrow> approving_start st)" for c
  proof -
    have "dn_stages (snd (skeptic_assignment h n d1)) = dn_stages d1" for n
      by (auto simp: skeptic_assignment_def Let_def split_beta split: option.split)
    then show ?thesis
      by (simp add: run_panel_for_drain_def Let_def split_beta fst_with_files loaded_files_def approving_start_def)
  qed
  show ?thesis
  proof (cases "r = None \<and> dh_has_coordinator h")
    case False
    then show ?thesis using that [of "[]"] assms Some gate d1 r
      by (auto simp: run_verification_stage_for_drain_def gate_outcome_def Let_def split: option.splits if_splits)
  next
    case True
    then show ?thesis using that assms Some gate d1 panel
      by (simp add: run_verification_stage_for_drain_def) (metis fst_conv list.set_intros(1) snd_conv)
  qed
qed

subsection \<open>Every approval comes from a panel\<close>

lemma guards_frame [simp]:
  "dn_stages (emit_goal_verifying h n d) = dn_stages d" "dn_acks (emit_goal_verifying h n d) = dn_acks d"
  "dn_in_flight (emit_goal_verifying h n d) = dn_in_flight d"
  "dn_stages (clear_verifying_latch d) = dn_stages d" "dn_acks (clear_verifying_latch d) = dn_acks d"
  "dn_in_flight (clear_verifying_latch d) = dn_in_flight d"
  "dn_stages (refund_slot d) = dn_stages d" "dn_acks (refund_slot d) = dn_acks d"
  "dn_in_flight (refund_slot d) = dn_in_flight d"
  "dn_stages (release_in_flight d) = dn_stages d" "dn_acks (release_in_flight d) = dn_acks d"
  "dn_in_flight (release_in_flight d) = False"
  by (simp_all add: emit_goal_verifying_def clear_verifying_latch_def refund_slot_def release_in_flight_def)

lemma concurrent_frame [simp]:
  "dn_stages (snd (account_not_achieved_without_sampler h policy d)) = dn_stages d"
  "dn_acks (snd (account_not_achieved_without_sampler h policy d)) = dn_acks d"
  "dn_in_flight (snd (account_not_achieved_without_sampler h policy d)) = dn_in_flight d"
  by (simp_all add: account_not_achieved_without_sampler_def Let_def count_tokens_def split: option.split)

lemma quick_stages [simp]:
  "dn_stages (handle_message h n m tx d) = dn_stages d"
  "dn_stages (drop_non_active k b tx d) = dn_stages d"
  "dn_stages (defer_to_turn_end cmd tx d) = dn_stages d"
  "dn_stages (complete_without_classifier h n tx d) = dn_stages d"
  "dn_stages (snd (handle_blocked h reason detail tx d)) = dn_stages d"
  "dn_stages (snd (reject_concurrent h policy tx d)) = dn_stages d"
  using concurrent_frame(1) [of h policy "emit_drain (GoalClassifierFailClosed ''concurrent_in_flight'' 0) d"]
  by (simp_all add: handle_message_def drop_non_active_def defer_to_turn_end_def complete_without_classifier_def
        handle_blocked_def reject_concurrent_def Let_def split_beta split: option.split prod.split)

lemma earned_verify:
  assumes "quiet not_approved h"
  shows "earned d (snd (snd (verify_claim h policy n tx d)))"
proof -
  define d1 where "d1 = upd_tracker (\<lambda>_. snd (reserve_classifier_attempt_slot policy (ss_tracker (dn_session d)))) (d\<lparr>dn_in_flight := True\<rparr>)"
  have d1: "dkey d1 = dkey d" "dn_stages d1 = dn_stages d" by (simp_all add: d1_def)
  have cancelled: "not_approved (dkey d) (key_of (dh_meanwhile h s))" if "key_of s = dkey d" for s
    using approval.quietD(1) [OF assms, of s] that by simp
  show ?thesis
  proof (cases "fst (reserve_classifier_attempt_slot policy (ss_tracker (dn_session d)))")
    case None
    then show ?thesis
      by (intro earned_same) (simp_all add: verify_claim_def Let_def split_beta d1_def [symmetric] d1 approval.same)
  next
    case (Some a)
    obtain outcome d2 where st: "run_verification_stage_for_drain h a (cp_max_runs policy) (emit_goal_verifying h n d1) = (outcome, d2)"
      by fastforce
    obtain starts where starts: "dn_stages d2 = dn_stages d @ starts"
        "\<And>dp. outcome = Achieved dp \<Longrightarrow> \<exists>st\<in>set starts. approving_start st"
      by (rule stage_for_drain_starts [OF st]) (auto simp: d1)
    have stage: "not_approved (dkey d) (dkey d2)"
      using approval.rel_stage [OF assms, of "emit_goal_verifying h n d1" a "cp_max_runs policy"] st d1 by simp
    have applied: "not_approved (dkey d) (dkey (snd (apply_classifier_outcome h policy a outcome (clear_verifying_latch d2))))"
      if "\<And>dp. outcome \<noteq> Achieved dp"
      using approval.chain [OF stage] approval.rel_apply [OF assms that, where d = "clear_verifying_latch d2"] by simp
    show ?thesis
    proof (cases "dh_cancel h a")
      case True
      then show ?thesis using Some
        by (intro earned_same) (auto simp: verify_claim_def Let_def split_beta d1_def [symmetric] d1 intro!: cancelled)
    next
      case False
      then show ?thesis using Some st starts stage applied
        by (auto simp: earned_def verify_claim_def Let_def split_beta d1_def [symmetric])
    qed
  qed
qed

lemma earned_source:
  assumes "quiet not_approved h" and "dh_enabled h"
  shows "earned d (snd (snd (handle_source h purpose n source l d)))"
proof -
  have completion: "earned d (snd (snd (handle_completion h purpose n cmd tx d)))" for cmd tx
  proof -
    define d1 where "d1 = snd (upd_plan h ensure_dual_checklist_on_disk (d\<lparr>dn_streak := 0\<rparr>))"
    have d1: "dkey d1 = dkey d" "dn_stages d1 = dn_stages d" by (simp_all add: d1_def)
    have "earned d1 (snd (snd (handle_completion h purpose n cmd tx d)))"
      using assms(2) earned_verify [OF assms(1), of d1] approval.rel_concurrent [of d1] approval.same
      by (auto simp: handle_completion_def Let_def d1_def [symmetric] resolve_goal_classifier_policy_def split_beta
            intro!: earned_same split: sum.split option.split)
    then show ?thesis by (simp add: earned_def d1)
  qed
  show ?thesis
    using approval.rel_blocked approval.same
    by (auto simp: handle_source_def Let_def split_beta intro!: completion earned_same split: option.split)
qed

subsection \<open>Every claim is answered\<close>

definition slot_list :: "nat option \<Rightarrow> nat list" where
  "slot_list tx = (case tx of Some n \<Rightarrow> [n] | None \<Rightarrow> [])"

text \<open>The reply slots that were used, in order; \<open>answers tx d d'\<close>: a step used exactly the slot \<open>tx\<close>.\<close>

abbreviation used_slots :: "'r drain_state \<Rightarrow> nat list" where
  "used_slots d \<equiv> map fst (dn_acks d)"

definition answers :: "nat option \<Rightarrow> 'r drain_state \<Rightarrow> 'r drain_state \<Rightarrow> bool" where
  "answers tx d d' \<longleftrightarrow> used_slots d' = used_slots d @ slot_list tx"

lemma used_slots_ack [simp]: "used_slots (try_send_ack tx a d) = used_slots d @ slot_list tx"
  by (simp add: try_send_ack_def slot_list_def split: option.split)

lemma used_slots_reject [simp]: "used_slots (reject tx r m d) = used_slots d @ slot_list tx"
  by (simp add: reject_def)

lemma stage_acks [simp]: "dn_acks (snd (run_verification_stage_for_drain h a m d)) = dn_acks d"
proof (cases "gt_orchestration (ss_tracker (dn_session d))")
  case (Some g)
  have panel: "dn_acks (snd (run_panel_for_drain h g a m c d1)) = dn_acks d1" for c d1
    by (simp add: run_panel_for_drain_def skeptic_assignment_def Let_def split_beta split: option.split)
  obtain r d1 where gate: "deterministic_gate_rejection h (go_plan_file g) (go_verifier_id g) a m d = (r, d1)" by fastforce
  then have "dn_acks d1 = dn_acks d"
    by (auto simp: deterministic_gate_rejection_def Let_def split_beta split: option.splits)
  then show ?thesis using Some gate panel by (simp add: run_verification_stage_for_drain_def split: option.split)
qed (simp add: run_verification_stage_for_drain_def)

lemma answers_quick:
  "answers tx d (handle_message h n m tx d)"
  "answers tx d (drop_non_active k b tx d)"
  "answers tx d (defer_to_turn_end cmd tx d)"
  "answers tx d (complete_without_classifier h n tx d)"
  "answers tx d (snd (handle_blocked h reason detail tx d))"
  "answers tx d (snd (reject_concurrent h policy tx d))"
  using concurrent_frame(2) [of h policy "emit_drain (GoalClassifierFailClosed ''concurrent_in_flight'' 0) d"]
  by (simp_all add: answers_def handle_message_def drop_non_active_def defer_to_turn_end_def complete_without_classifier_def
        handle_blocked_def reject_concurrent_def Let_def split_beta split: option.split prod.split)

lemma answers_concurrent: "reject_concurrent h policy tx d = (p, d') \<Longrightarrow> answers tx d d'"
  using answers_quick(6) [of tx d h policy] by simp

lemma answers_verify:
  assumes "verify_claim h policy n tx d = (cancelled, paused, d')"
  shows "if cancelled then dn_acks d' = dn_acks d else answers tx d d'"
  using assms by (auto simp: verify_claim_def answers_def Let_def split_beta split: option.splits if_splits)

lemma answers_source:
  assumes "handle_source h purpose n source l d = (cancelled, l', d')"
  shows "if cancelled then dn_acks d' = dn_acks d else answers (snd (into_parts source)) d d'"
proof -
  obtain cmd tx where parts: "into_parts source = (cmd, tx)" by fastforce
  define d1 where "d1 = snd (upd_plan h ensure_dual_checklist_on_disk (d\<lparr>dn_streak := 0\<rparr>))"
  have d1: "dn_acks d1 = dn_acks d" by (simp add: d1_def)
  then have same: "answers tx d e \<longleftrightarrow> answers tx d1 e" for e by (simp add: answers_def)
  have completion: "if c then dn_acks e = dn_acks d else answers tx d e"
    if "handle_completion h purpose n cmd tx d = (c, p, e)" for c p e
    using that answers_verify [of h _ n tx d1] d1
    by (auto simp: handle_completion_def Let_def d1_def [symmetric] same answers_quick answers_concurrent split_beta
          split: sum.splits option.splits if_splits) (auto simp: answers_def)
  obtain c p e where eq: "handle_completion h purpose n cmd tx d = (c, p, e)" by (metis prod_cases3)
  show ?thesis
    using assms completion [OF eq] parts
    by (auto simp: handle_source_def Let_def eq split_beta answers_quick split: option.splits if_splits)
       (auto simp: answers_def)
qed

lemma loop_answers:
  assumes "drain_loop h purpose n sources l d = (cancelled, l', d')"
  shows "\<exists>answered unanswered. List.map_filter (snd \<circ> into_parts) sources = answered @ unanswered
    \<and> used_slots d' = used_slots d @ answered \<and> (cancelled \<or> unanswered = [])"
  using assms
proof (induction sources arbitrary: l d)
  case Nil
  then show ?case by simp
next
  case (Cons source rest)
  obtain c l1 d1 where eq: "handle_source h purpose n source l d = (c, l1, d1)" by (metis prod_cases3)
  note one = answers_source [OF eq]
  have slots: "List.map_filter (snd \<circ> into_parts) (source # rest) =
      slot_list (snd (into_parts source)) @ List.map_filter (snd \<circ> into_parts) rest"
    by (simp add: List.map_filter_simps slot_list_def split: option.split)
  show ?case
  proof (cases c)
    case True
    then have "used_slots d' = used_slots d @ []" "cancelled" using Cons.prems one eq by simp_all
    then show ?thesis by blast
  next
    case False
    then have "drain_loop h purpose n rest l1 d1 = (cancelled, l', d')" using Cons.prems eq by simp
    then obtain answered unanswered where "List.map_filter (snd \<circ> into_parts) rest = answered @ unanswered"
      "used_slots d' = used_slots d1 @ answered" "cancelled \<or> unanswered = []"
      using Cons.IH by blast
    moreover from this have "used_slots d' = used_slots d @ slot_list (snd (into_parts source)) @ answered"
      using False one by (simp add: answers_def)
    ultimately show ?thesis unfolding slots by (metis append.assoc)
  qed
qed

lemma live_slots:
  "List.map_filter (snd \<circ> into_parts) (map PendingSource pending @ map (\<lambda>(i, tx). ChannelSource i tx) live) = map snd live"
  by (simp add: List.map_filter_def filter_map comp_def split_beta)

lemma drain_answers:
  "let (cancelled, d') = drain_goal_updates_with_extra h n purpose extra d in
   \<exists>answered unanswered. map snd (extra @ dn_channel d) = answered @ unanswered
     \<and> map fst (dn_acks d') = map fst (dn_acks d) @ answered \<and> (cancelled \<or> unanswered = [])"
proof -
  define live where "live = extra @ dn_channel d"
  have rejected: "used_slots (fold (\<lambda>(i, tx). reject (Some tx) r m) xs d0) = used_slots d0 @ map snd xs"
    for xs :: "(UpdateGoalInput \<times> nat) list" and r m d0
    by (induction xs arbitrary: d0) (auto simp: slot_list_def)
  define d1 where "d1 = (if purpose = TurnEnd then upd_session clear_pending_classifier_completions (d\<lparr>dn_channel := []\<rparr>) else d\<lparr>dn_channel := []\<rparr>)"
  obtain c l e where loop: "drain_loop h purpose n
      (map PendingSource (if purpose = TurnEnd then ss_pending_completions (dn_session d) else [])
       @ map (\<lambda>(i, tx). ChannelSource i tx) live)
      \<lparr>lc_block_seen = False, lc_cap_dropped = 0, lc_auto_paused = False\<rparr> d1 = (c, l, e)" by (metis prod_cases3)
  have "dn_acks d1 = dn_acks d" by (simp add: d1_def)
  with loop_answers [OF loop] show ?thesis
    by (auto simp: drain_goal_updates_with_extra_def Let_def live_def [symmetric] d1_def [symmetric] loop live_slots rejected
          simp del: map_append fold_append)
qed

text \<open>
  Property C4. Every claim that waits for a reply gets exactly one, in the order of the claims: the replies a drain sends go to the
  reply slots of the caller's claims, then of the claims in the channel, one after the other, until all are
  served; only a drain whose turn was cancelled leaves a tail without a reply. So no tool call hangs on a drain that
  ran to its end, and none is answered twice, whatever the guards, the checks, the auditors and the strategist did.
\<close>

theorem claims_answered_once:
  "let (cancelled, d') = drain_goal_updates_with_extra h n purpose extra d in
   \<exists>answered unanswered. map snd (extra @ dn_channel d) = answered @ unanswered
     \<and> map fst (dn_acks d') = map fst (dn_acks d) @ answered \<and> (cancelled \<or> unanswered = [])"
  by (rule drain_answers)

subsection \<open>One verification at a time\<close>

lemma budget_pending [simp]: "ss_pending_completions (snd (goal_tokens c s)) = ss_pending_completions s"
  by (auto simp: goal_tokens_def Let_def split: option.splits prod.splits)

definition exclusive :: "DrainPurpose \<Rightarrow> 'r drain_state \<Rightarrow> 'r drain_state \<Rightarrow> bool" where
  "exclusive purpose d d' \<longleftrightarrow> dn_in_flight d' = dn_in_flight d
     \<and> (dn_in_flight d \<or> purpose = MidTurn \<longrightarrow> dn_stages d' = dn_stages d)
     \<and> (purpose = MidTurn \<and> length (ss_pending_completions (dn_session d)) \<le> GOAL_CLASSIFIER_PENDING_QUEUE_CAP
        \<longrightarrow> length (ss_pending_completions (dn_session d')) \<le> GOAL_CLASSIFIER_PENDING_QUEUE_CAP)"

lemma exclusive_trans: "exclusive purpose d d' \<Longrightarrow> exclusive purpose d' d'' \<Longrightarrow> exclusive purpose d d''"
  by (auto simp: exclusive_def)

lemma quick_in_flight [simp]:
  "dn_in_flight (handle_message h n m tx d) = dn_in_flight d"
  "dn_in_flight (drop_non_active k b tx d) = dn_in_flight d"
  "dn_in_flight (defer_to_turn_end cmd tx d) = dn_in_flight d"
  "dn_in_flight (complete_without_classifier h n tx d) = dn_in_flight d"
  "dn_in_flight (snd (handle_blocked h reason detail tx d)) = dn_in_flight d"
  "dn_in_flight (snd (reject_concurrent h policy tx d)) = dn_in_flight d"
  using concurrent_frame(3) [of h policy "emit_drain (GoalClassifierFailClosed ''concurrent_in_flight'' 0) d"]
  by (simp_all add: handle_message_def drop_non_active_def defer_to_turn_end_def complete_without_classifier_def
        handle_blocked_def reject_concurrent_def Let_def split_beta split: option.split prod.split)

lemma verify_releases [simp]: "dn_in_flight (snd (snd (verify_claim h policy n tx d))) = False"
  by (simp add: verify_claim_def Let_def split_beta split: option.split)

lemma session_frame [simp]:
  "dn_session (emit_fail_open a b d) = dn_session d" "dn_session (emit_drain ev d) = dn_session d"
  by (simp_all add: emit_fail_open_def emit_drain_def)

lemma pending_blocked: "length (ss_pending_completions (snd (defer_blocker_or_end_run e b s))) \<le> length (ss_pending_completions s)"
  by (auto simp: defer_blocker_or_end_run_def Let_def auto_pause_goal_if_active_with_message_def
        auto_pause_goal_if_active_inner_def clear_pending_classifier_completions_def emit_goal_updated_def refresh_view_def
        split: option.split)

lemma quick_pending:
  "ss_pending_completions (dn_session (handle_message h n m tx d)) = ss_pending_completions (dn_session d)"
  "ss_pending_completions (dn_session (drop_non_active k b tx d)) = ss_pending_completions (dn_session d)"
  "length (ss_pending_completions (dn_session d)) \<le> GOAL_CLASSIFIER_PENDING_QUEUE_CAP
     \<Longrightarrow> length (ss_pending_completions (dn_session (defer_to_turn_end cmd tx d))) \<le> GOAL_CLASSIFIER_PENDING_QUEUE_CAP"
  "ss_pending_completions (dn_session (complete_without_classifier h n tx d)) = []"
  "length (ss_pending_completions (dn_session (snd (handle_blocked h reason detail tx d)))) \<le> length (ss_pending_completions (dn_session d))"
  using pending_blocked
  by (auto simp: handle_message_def drop_non_active_def defer_to_turn_end_def complete_without_classifier_def
        emit_goal_updated_def clear_pending_classifier_completions_def handle_blocked_def send_output_def Let_def split_beta
        GOAL_CLASSIFIER_PENDING_QUEUE_CAP_def split: option.split)

lemma exclusive_source: "exclusive purpose d (snd (snd (handle_source h purpose n source l d)))"
proof -
  have completion: "exclusive purpose d (snd (snd (handle_completion h purpose n cmd tx d)))" for cmd tx
  proof -
    define d1 where "d1 = snd (upd_plan h ensure_dual_checklist_on_disk (d\<lparr>dn_streak := 0\<rparr>))"
    have d1: "exclusive purpose d d1" "dn_in_flight d1 = dn_in_flight d" by (simp_all add: d1_def exclusive_def)
    have "exclusive purpose d1 (snd (snd (handle_completion h purpose n cmd tx d)))"
      by (auto simp: handle_completion_def Let_def d1_def [symmetric] split_beta exclusive_def quick_pending d1(2)
            split: sum.split option.split)
    then show ?thesis using d1(1) exclusive_trans by blast
  qed
  show ?thesis
    using completion order.trans [OF quick_pending(5)]
    by (auto simp: handle_source_def Let_def split_beta exclusive_def quick_pending split: option.split)
qed

text \<open>
  Property C5. Verifications exclude each other and queued claims stay few. A drain, cancelled or not, leaves the flag of a running
  verification as it found it. While that flag is set, and in the middle of a turn, a drain starts no panel at all,
  whatever claims arrive. And a drain in the middle of a turn keeps the queue of postponed claims within its cap of four.
\<close>

theorem verification_exclusive:
  assumes "drain_goal_updates_with_extra h n purpose extra d = (cancelled, d')"
  shows "dn_in_flight d' = dn_in_flight d
    \<and> (dn_in_flight d \<or> purpose = MidTurn \<longrightarrow> dn_stages d' = dn_stages d)
    \<and> (purpose = MidTurn \<and> length (ss_pending_completions (dn_session d)) \<le> 4
         \<longrightarrow> length (ss_pending_completions (dn_session d')) \<le> 4)"
proof -
  have "exclusive purpose d (snd (drain_goal_updates_with_extra h n purpose extra d))"
  proof (rule drain_respects)
    show "exclusive purpose d d''" if "exclusive purpose d d'" "exclusive purpose d' d''" for d d' d'' :: "'a drain_state"
      using exclusive_trans that by blast
  qed (auto simp: exclusive_source, auto simp: exclusive_def clear_pending_classifier_completions_def)
  then show ?thesis by (simp add: exclusive_def GOAL_CLASSIFIER_PENDING_QUEUE_CAP_def assms)
qed

text \<open>
  Property C3. An approval is always a panel's. With the verification switched on, and nothing else that records approvals while the
  drain waits, a drain turns the verdict of the goal into Achieved only if in one of the verification stages it started
  the panel approved: no check, no failure of the infrastructure, no second claim, no cancellation and no strategist
  leads to an approval.
\<close>

theorem approval_needs_panel:
  assumes on: "dh_enabled h" and quiet: "approves_nothing (dh_meanwhile h)" "approves_nothing (wh_meanwhile (dh_wave h))"
    and run: "drain_goal_updates_with_extra h n purpose extra d = (cancelled, d')"
    and new: "verdict_of (dn_session d) \<noteq> Some VerdictAchieved" "verdict_of (dn_session d') = Some VerdictAchieved"
  shows "\<exists>starts st dp. dn_stages d' = dn_stages d @ starts \<and> st \<in> set starts
     \<and> vs_outcome (fst (run_verification_stage (st_host st) (st_schedule st) (st_inputs st) (st_files st))) = GoalClassifierOutcome.Achieved dp"
proof -
  have q: "quiet not_approved h" using quiet by (simp add: quiet_approval)
  have "earned d (snd (drain_goal_updates_with_extra h n purpose extra d))"
  proof (rule drain_respects)
    show "earned d d''" if "earned d d'" "earned d' d''" for d d' d'' :: "'a drain_state" using earned_trans that by blast
  qed (auto simp: earned_refl earned_source [OF q on] intro!: earned_same approval.same)
  then show ?thesis using new by (auto simp: run earned_def not_approved_def verdict_key approving_start_def)
qed

subsection \<open>From the claim to the completed goal\<close>

text \<open>A host of the round end whose drain is the drain of this theory, in one of the surroundings \<open>H\<close>.\<close>

definition runs_drain :: "'r drain_host set \<Rightarrow> host \<Rightarrow> bool" where
  "runs_drain H h \<longleftrightarrow> (\<forall>xs s. \<exists>dh\<in>H. \<exists>n extra d. map fst extra = xs \<and> dn_session d = s
     \<and> ho_drain h xs s = dn_session (snd (drain_goal_updates_with_extra dh n TurnEnd extra d)))"

text \<open>
  Property C2. The gate is the only way to a completed goal, with the real drain of goal updates in it. If nothing outside completes
  goals while agents run, a round end leaves a goal complete that was not complete before only by deciding it done:
  the turn ends with the machine done, the latest verdict is Achieved, and no criterion of the refreshed view is open,
  that is, every one is executed or deferred. In particular no claim, check, panel or strategist completes a goal by
  itself.
\<close>

theorem only_accepted_work_completes:
  assumes drain: "runs_drain H h"
    and quiet: "\<forall>dh\<in>H. completes_nothing (dh_meanwhile dh) \<and> completes_nothing (wh_meanwhile (dh_wave dh))"
    and before: "status_of s \<noteq> Some Complete"
    and round: "run_doggy_round_end h tools machine ledger s = (action, machine', ledger', s')"
    and after: "status_of s' = Some Complete"
  shows "action = EndTurn \<and> tm_status machine' = StatusDone \<and> doggy_verification_outcome s' = VerificationOutcome.Achieved
     \<and> unclaimed_criteria (view_of s') = []"
proof (rule completion_needs_acceptance [OF _ before round after])
  show "\<forall>xs s. status_of (ho_drain h xs s) = Some Complete \<longrightarrow> status_of s = Some Complete"
    using drain quiet drain_completes_nothing unfolding runs_drain_def by metis
qed

subsection \<open>Samples\<close>

definition calm_wave :: "unit wave_host" where
  "calm_wave = \<lparr>wh_env = sample_env 9, wh_fanout_max = 1, wh_worktrees_disposed = False, wh_repo_available = False,
     wh_coordinator = None, wh_session_id = ''s'', wh_prompt_id = None, wh_cwd = ''/repo'', wh_new_id = show_nat,
     wh_apply_worktree = (\<lambda>_ r. (Inl [], r)), wh_meanwhile = (\<lambda>s. s), wh_plan_path = ''/p'', wh_plan_exists = True,
     wh_plan_writable = True, wh_mtime = (\<lambda>_. None), wh_latency = 0, wh_proposal_removed = True,
     wh_spawn_amender = (\<lambda>_ _. (None, None)), wh_amender_template = [], wh_role_tools = (\<lambda>s. s),
     wh_proposal_from_str = (\<lambda>_. None)\<rparr>"

definition no_roles :: role_host where
  "no_roles = \<lparr>rh_models = [], rh_strict = (\<lambda>_. False), rh_describe = (\<lambda>_ _. DescribeUnavailable)\<rparr>"

definition calm_drain :: "unit drain_host" where
  "calm_drain =
     \<lparr>dh_wave = calm_wave, dh_panel = token_host (answers_with [''0'']), dh_schedule = (\<lambda>_. []),
      dh_strategist = \<lparr>sh_coordinator = None, sh_spawner = \<lparr>cs_parent_session_id = [], cs_parent_prompt_id = None, cs_cwd = None\<rparr>,
        sh_new_id = [], sh_lossy = (\<lambda>s. s), sh_latency = 0, sh_template = [], sh_traces_dir = [], sh_roles = no_roles,
        sh_role_choice = InheritCurrent, sh_inherit_tool_names = inherit_defaults, sh_model_id = [], sh_every = 3\<rparr>,
      dh_roles = no_roles, dh_shell = (\<lambda>_ ps. (TimedOut, ps)), dh_has_coordinator = True, dh_enabled = True, dh_max_runs = 10,
      dh_skeptic_count = 3, dh_skeptic_pool = [], dh_current_model_only = True, dh_strategist_every = 3, dh_model_id = ''m'',
      dh_inherit_tool_names = inherit_defaults, dh_final_response = (\<lambda>_. None), dh_read_error = [], dh_fire_latency = 0,
      dh_meanwhile = (\<lambda>s. s), dh_cancel = (\<lambda>_. False), dh_partial = (\<lambda>ps. ps)\<rparr>"

definition at_rest :: "Session \<Rightarrow> unit drain_state" where
  "at_rest s =
     \<lparr>dn_wave = \<lparr>wv_session = s, wv_repo = (), wv_proposal = None, wv_events = []\<rparr>, dn_panel = no_files,
      dn_strategist_events = [], dn_role_events = [], dn_streak = 0, dn_in_flight = False, dn_channel = [], dn_acks = [],
      dn_events = [], dn_stages = []\<rparr>"

definition drained_host :: host where
  "drained_host = idle_host\<lparr>ho_drain :=
     (\<lambda>xs s. dn_session (snd (drain_goal_updates_with_extra calm_drain 0 TurnEnd (map (\<lambda>i. (i, 0)) xs) (at_rest s))))\<rparr>"

theorem only_accepted_work_completes_witness:
  "case run_doggy_round_end drained_host [] machine_new ledger_new accepted_session of
     (action, machine', _, s') \<Rightarrow> action = EndTurn \<and> tm_status machine' = StatusDone
       \<and> doggy_verification_outcome s' = VerificationOutcome.Achieved"
proof -
  obtain a m' l' s' where r: "run_doggy_round_end drained_host [] machine_new ledger_new accepted_session = (a, m', l', s')"
    by (metis prod_cases4)
  have "map fst (map (\<lambda>i. (i, 0 :: nat)) xs) = xs \<and> dn_session (at_rest s) = s \<and> ho_drain drained_host xs s =
      dn_session (snd (drain_goal_updates_with_extra calm_drain 0 TurnEnd (map (\<lambda>i. (i, 0)) xs) (at_rest s)))" for xs s
    by (simp add: at_rest_def drained_host_def comp_def)
  then have "runs_drain {calm_drain} drained_host" unfolding runs_drain_def by blast
  moreover have "completes_nothing (dh_meanwhile calm_drain)" "completes_nothing (wh_meanwhile (dh_wave calm_drain))"
    by (simp_all add: calm_drain_def calm_wave_def completes_nothing_def)
  moreover have "ho_drain drained_host [] accepted_session = accepted_session"
    by (simp add: drained_host_def drain_goal_updates_with_extra_def at_rest_def Let_def upd_session_def on_session_def
          clear_pending_classifier_completions_def accepted_session_def)
  moreover have "status_of accepted_session \<noteq> Some Complete" by (rule accepted_session_goal) (simp add: tracker_status_def)
  ultimately show ?thesis
    using only_accepted_work_completes [of "{calm_drain}" drained_host accepted_session "[]" machine_new ledger_new a m' l' s']
      r accepted_session_round [of drained_host] by simp
qed

definition claiming_session :: Session where
  "claiming_session = accepted_session\<lparr>
     ss_tracker := map_orchestration (\<lambda>g. g\<lparr>go_verifier_id := ''v'', go_last_classifier_verdict := None\<rparr>) running_goal,
     ss_plan := Some (unlines [''## Acceptance checklist'', ''| [x] | [ ] | it works |''])\<rparr>"

lemma claiming_goal:
  obtains g where "gt_orchestration (ss_tracker claiming_session) = Some g" "go_status g = Active" "go_verifier_id g = ''v''"
    "go_last_classifier_verdict g = None" "go_plan_file g = None" "go_classifier_runs_attempted g = 0"
    "go_skeptic0_session_id g = None"
  by (simp add: claiming_session_def running_goal_def map_orchestration_def create_goal_def Let_def record_event_def
      append_history_def new_orchestration_def tracker_new_def request_def)

lemma verify_approves:
  assumes "fst (reserve_classifier_attempt_slot policy (ss_tracker (dn_session d))) = Some a" and "\<not> dh_cancel h a"
    and "run_verification_stage_for_drain h a (cp_max_runs policy) (emit_goal_verifying h n
      (upd_tracker (\<lambda>_. snd (reserve_classifier_attempt_slot policy (ss_tracker (dn_session d)))) (d\<lparr>dn_in_flight := True\<rparr>)))
      = (GoalClassifierOutcome.Achieved dp, d2)" and "dkey d2 = Some (Active, v)"
  shows "\<exists>paused d'. verify_claim h policy n tx d = (False, paused, d') \<and> dkey d' = Some (Active, Some VerdictAchieved)"
proof -
  have "dkey (snd (apply_classifier_outcome h policy a (GoalClassifierOutcome.Achieved dp) (clear_verifying_latch d2)))
      = Some (Active, Some VerdictAchieved)"
    by (simp add: apply_classifier_outcome_def apply_achieved_def count_tokens_def Let_def assms(4))
  then show ?thesis using assms by (auto simp: verify_claim_def Let_def split_beta tkey_status)
qed

lemma calm_sel:
  "dh_panel calm_drain = token_host (answers_with [''0''])" "dh_schedule calm_drain = (\<lambda>_. [])" "dh_has_coordinator calm_drain"
  "dh_current_model_only calm_drain" "dh_meanwhile calm_drain = (\<lambda>s. s)" "\<not> dh_cancel calm_drain a" "dh_enabled calm_drain"
  "dh_skeptic_count calm_drain = 3" "wh_plan_writable (dh_wave calm_drain)" "wh_meanwhile (dh_wave calm_drain) = (\<lambda>s. s)"
  by (simp_all add: calm_drain_def calm_wave_def)

lemma calm_stage:
  assumes "gt_orchestration (ss_tracker (dn_session d)) = Some g" "go_verifier_id g = ''v''" "go_plan_file g = None"
    "go_skeptic0_session_id g = None"
  shows "\<exists>dp d2. run_verification_stage_for_drain calm_drain 1 m d = (GoalClassifierOutcome.Achieved dp, d2) \<and> dkey d2 = dkey d"
proof -
  obtain d1 where gate: "deterministic_gate_rejection calm_drain None ''v'' 1 m d = (None, d1)" and d1: "dn_wave d1 = dn_wave d"
    by (simp add: deterministic_gate_rejection_def with_files_def loaded_files_def gate_failure_def calm_sel Let_def
          upd_session_def on_session_def)
  have size: "clamped_skeptics calm_drain = 3"
    by (simp add: clamped_skeptics_def calm_sel GOAL_VERIFIER_SKEPTIC_MIN_def GOAL_VERIFIER_SKEPTIC_MAX_def)
  have "inheriting (replicate 3 inherit_override)"
    by (simp add: inheriting_def is_explicit_def inherit_override_def list_all_length)
  moreover have "panel_size (stage_inputs calm_drain g 1 m fr names) = 3" for fr names
    by (simp add: panel_size_def stage_inputs_def calm_sel GOAL_VERIFIER_SKEPTIC_MIN_def GOAL_VERIFIER_SKEPTIC_MAX_def)
  ultimately have outcome: "vs_outcome (fst (run_verification_stage
      ((token_host (answers_with [''0'']))\<lparr>ph_overrides := replicate 3 inherit_override\<rparr>) [] (stage_inputs calm_drain g 1 m fr names) s))
      = GoalClassifierOutcome.Achieved ''/tmp/grok-goal-v/goal-classifier-v-1.md''" for fr names s
    using token_stage [of "stage_inputs calm_drain g 1 m fr names" "replicate 3 inherit_override" "answers_with [''0'']" s]
      approved_without_zero [unfolded token_panel] assms(2,4)
    by (simp add: stage_inputs_def)
  have "fst (run_panel_for_drain calm_drain g 1 m c d1) = GoalClassifierOutcome.Achieved ''/tmp/grok-goal-v/goal-classifier-v-1.md''" for c
    by (simp add: run_panel_for_drain_def skeptic_assignment_def calm_sel size Let_def split_beta fst_with_files outcome
          del: One_nat_def)
  moreover have "dkey (snd (run_panel_for_drain calm_drain g 1 m c d1)) = dkey d" for c
    by (simp add: run_panel_for_drain_def Let_def split_beta tkey_same calm_sel d1)
  moreover have "run_verification_stage_for_drain calm_drain 1 m d = run_panel_for_drain calm_drain g 1 m
      (compose_verifier_final_response (go_first_final_response g)
        (case dh_final_response calm_drain (dn_session d1) of Some r \<Rightarrow> r | None \<Rightarrow> [])) d1"
    by (simp add: run_verification_stage_for_drain_def assms gate calm_sel del: One_nat_def)
  ultimately show ?thesis by (simp add: prod_eq_iff del: One_nat_def)
qed

lemma claiming_plan:
  "ensure_dual_checklist_on_disk \<lparr>pf_body = ss_plan claiming_session, pf_writable = True\<rparr>
     = (Inr False, \<lparr>pf_body = ss_plan claiming_session, pf_writable = True\<rparr>)"
  "require_exec_complete p (case ss_plan claiming_session of Some body \<Rightarrow> Inr body | None \<Rightarrow> Inl e) = Inr ()"
proof -
  let ?body = "unlines [''## Acceptance checklist'', ''| [x] | [ ] | it works |'']"
  have "ensure_dual_checklist_on_disk \<lparr>pf_body = Some ?body, pf_writable = True\<rparr>
      = (Inr False, \<lparr>pf_body = Some ?body, pf_writable = True\<rparr>)" by code_simp
  then show "ensure_dual_checklist_on_disk \<lparr>pf_body = ss_plan claiming_session, pf_writable = True\<rparr>
     = (Inr False, \<lparr>pf_body = ss_plan claiming_session, pf_writable = True\<rparr>)" by (simp add: claiming_session_def)
  have "parse_dual_rows ?body = [\<lparr>dr_exec = True, dr_audit = False, dr_criterion = ''it works''\<rparr>]" by code_simp
  then show "require_exec_complete p (case ss_plan claiming_session of Some body \<Rightarrow> Inr body | None \<Rightarrow> Inl e) = Inr ()"
    by (simp add: claiming_session_def require_exec_complete_def)
qed

lemma claim_approved:
  "\<exists>d'. drain_goal_updates_with_extra calm_drain 0 TurnEnd [(acceptance_request, 7)] (at_rest claiming_session) = (False, d')
     \<and> verdict_of (dn_session d') = Some VerdictAchieved"
proof -
  let ?d = "at_rest claiming_session" and ?pol = "resolve_goal_classifier_policy calm_drain claiming_session"
  obtain g where g: "gt_orchestration (ss_tracker claiming_session) = Some g" "go_status g = Active" "go_verifier_id g = ''v''"
    "go_last_classifier_verdict g = None" "go_plan_file g = None" "go_classifier_runs_attempted g = 0" "go_skeptic0_session_id g = None"
    by (rule claiming_goal)
  have s: "dn_session ?d = claiming_session" "\<not> dn_in_flight ?d" "dn_channel ?d = []" by (simp_all add: at_rest_def)
  define t where "t = snd (reserve_classifier_attempt_slot ?pol (ss_tracker claiming_session))"
  define d1 where "d1 = emit_goal_verifying calm_drain 0 (upd_tracker (\<lambda>_. t) (?d\<lparr>dn_in_flight := True\<rparr>))"
  have slot: "fst (reserve_classifier_attempt_slot ?pol (ss_tracker claiming_session)) = Some 1"
    by (simp add: reserve_classifier_attempt_slot_def g Let_def sat_add32_def u32_max_def)
  have "\<exists>g'. gt_orchestration (ss_tracker (dn_session d1)) = Some g' \<and> go_verifier_id g' = ''v'' \<and> go_plan_file g' = None
      \<and> go_skeptic0_session_id g' = None"
    by (auto simp: d1_def t_def emit_goal_verifying_def reserve_classifier_attempt_slot_def g s Let_def account_elapsed_def
          flush_elapsed_def map_orchestration_def goal_tokens_def ratchet_tokens_def split: option.splits prod.splits)
  then obtain dp d2 where stage: "run_verification_stage_for_drain calm_drain 1 (cp_max_runs ?pol) d1 = (GoalClassifierOutcome.Achieved dp, d2)"
    and "dkey d2 = dkey d1" using calm_stage by metis
  moreover have "dkey d1 = Some (Active, None)" by (simp add: d1_def t_def s) (simp add: tkey_def g)
  ultimately obtain paused d' where verified: "verify_claim calm_drain ?pol 0 (Some 7) ?d = (False, paused, d')"
    "dkey d' = Some (Active, Some VerdictAchieved)"
    using verify_approves [of ?pol ?d 1 calm_drain 0 dp d2 None "Some 7"] slot by (auto simp: d1_def t_def s calm_sel)
  have on: "cp_enabled ?pol" by (simp add: resolve_goal_classifier_policy_def calm_sel)
  have plan: "snd (upd_plan calm_drain ensure_dual_checklist_on_disk (?d\<lparr>dn_streak := 0\<rparr>)) = ?d"
    using claiming_plan(1) by (simp add: upd_plan_def on_plan_def calm_sel at_rest_def Let_def)
  have "handle_completion calm_drain TurnEnd 0 acceptance_request (Some 7) ?d = (False, paused, d')"
    using verified g by (simp add: handle_completion_def plan s Let_def non_active_meta_def claiming_plan(2) on)
  then have "handle_source calm_drain TurnEnd 0 (ChannelSource acceptance_request 7)
      \<lparr>lc_block_seen = False, lc_cap_dropped = 0, lc_auto_paused = False\<rparr> ?d
      = (False, \<lparr>lc_block_seen = False, lc_cap_dropped = 0, lc_auto_paused = paused\<rparr>, d')"
    by (simp add: handle_source_def acceptance_request_def)
  moreover have "upd_session clear_pending_classifier_completions (?d\<lparr>dn_channel := []\<rparr>) = ?d"
    by (simp add: upd_session_def on_session_def at_rest_def clear_pending_classifier_completions_def claiming_session_def
          accepted_session_def)
  moreover have "ss_harness_enabled claiming_session" "ss_pending_completions claiming_session = []"
    by (simp_all add: claiming_session_def accepted_session_def)
  ultimately show ?thesis using verified(2)
    by (simp add: drain_goal_updates_with_extra_def s Let_def verdict_key)
qed

theorem approval_needs_panel_witness:
  "\<exists>d' starts st dp. drain_goal_updates_with_extra calm_drain 0 TurnEnd [(acceptance_request, 7)] (at_rest claiming_session) = (False, d')
     \<and> dn_stages d' = starts \<and> st \<in> set starts
     \<and> vs_outcome (fst (run_verification_stage (st_host st) (st_schedule st) (st_inputs st) (st_files st))) = GoalClassifierOutcome.Achieved dp"
proof -
  obtain d' where d': "drain_goal_updates_with_extra calm_drain 0 TurnEnd [(acceptance_request, 7)] (at_rest claiming_session) = (False, d')"
    "verdict_of (dn_session d') = Some VerdictAchieved" using claim_approved by blast
  have "approves_nothing (dh_meanwhile calm_drain)" "approves_nothing (wh_meanwhile (dh_wave calm_drain))"
    by (simp_all add: approves_nothing_def calm_sel)
  moreover have "verdict_of (dn_session (at_rest claiming_session)) \<noteq> Some VerdictAchieved"
    by (rule claiming_goal) (simp add: at_rest_def verdict_of_def)
  ultimately show ?thesis
    using approval_needs_panel [OF calm_sel(7) _ _ d'(1) _ d'(2)] d'(1) by (auto simp: at_rest_def)
qed

theorem verification_exclusive_witness:
  "dn_stages (snd (drain_goal_updates_with_extra calm_drain 0 MidTurn [(acceptance_request, 7)] (at_rest claiming_session))) = []"
proof -
  obtain c d' where eq: "drain_goal_updates_with_extra calm_drain 0 MidTurn [(acceptance_request, 7)] (at_rest claiming_session) = (c, d')"
    by fastforce
  have "dn_stages (at_rest claiming_session) = []" by (simp add: at_rest_def)
  then show ?thesis using verification_exclusive [OF eq] by (simp add: eq)
qed

end
