(* ===== verification/Goal_Planner.thy ===== *)
theory Goal_Planner
  imports Role_Spawn
begin

text \<open>
  Starting and resuming a goal: the planner (\<^verbatim>\<open>crates/codegen/xai-grok-shell/src/session/goal_planner.rs\<close>), its retries and
  the harness's own plan (\<^verbatim>\<open>maybe_run_goal_planner\<close> and \<^verbatim>\<open>write_fallback_plan\<close> of \<^verbatim>\<open>acp_session_impl/goal_support.rs\<close>), and
  \<^verbatim>\<open>setup_goal\<close> and \<^verbatim>\<open>resume_goal\<close> of \<^verbatim>\<open>acp_session_impl/goal.rs\<close> with the reminder they render. The planner agent
  answers a request and leaves something, or nothing, in the plan file; templates and tool names are arguments.
\<close>

subsection \<open>One attempt of the planner\<close>

datatype GoalPlannerFailClosedReason = PlanTransport | PlanRuntime | PlanAborted | PlanMissing | PlanFileWriteFailed

fun planner_fail_str :: "GoalPlannerFailClosedReason \<Rightarrow> string" where
  "planner_fail_str PlanTransport = ''transport''"
| "planner_fail_str PlanRuntime = ''runtime''"
| "planner_fail_str PlanAborted = ''aborted''"
| "planner_fail_str PlanMissing = ''missing_plan_file''"
| "planner_fail_str PlanFileWriteFailed = ''file_write_failed''"

datatype GoalPlannerOutcome = Planned string nat | FailClosed GoalPlannerFailClosedReason nat

datatype planner_event =
    GoalPlannerFired nat nat string
  | GoalPlannerCompleted nat nat
  | GoalPlannerFailClosed string nat nat
  | GoalPlannerRetried

text \<open>What an attempt works on: the plan file and the events.\<close>

record planner_files =
  pa_plan :: "string option"
  pa_events :: "planner_event list"

text \<open>
  \<open>po_dir_ok\<close> says whether the directory of the plan can be made in an attempt, \<open>po_copy_ok\<close> whether the plan can be copied, and
  \<open>po_meanwhile\<close> is what happens to the session while the planner works.
\<close>

record GoalToolNames =
  tn_goal :: string
  tn_task :: string
  tn_todo :: string

record planner_host =
  po_env :: env
  po_enabled :: bool
  po_coordinator :: "(SubagentRequest \<Rightarrow> planner_files \<Rightarrow> spawn_reply \<times> planner_files) option"
  po_spawner :: ChannelSpawner
  po_new_id :: "nat \<Rightarrow> string"
  po_template :: string
  po_role_tools :: RoleToolNames
  po_model_id :: string
  po_dir_ok :: "nat \<Rightarrow> bool"
  po_writable :: bool
  po_copy_ok :: bool
  po_mtime :: "nat option \<Rightarrow> nat option"
  po_latency :: "nat \<Rightarrow> nat"
  po_meanwhile :: "Session \<Rightarrow> Session"
  po_goal_tool :: "string option"
  po_names :: GoalToolNames
  po_rules_template :: string
  po_discipline_template :: string
  po_plan_block_template :: string

definition GOAL_PLANNER_MAX_RUNS :: nat where "GOAL_PLANNER_MAX_RUNS = 3"
definition GOAL_PLANNER_SUBAGENT_DESCRIPTION :: string where "GOAL_PLANNER_SUBAGENT_DESCRIPTION = ''goal plan writer''"

record GoalPlannerInputs =
  pi_objective :: string
  pi_context :: string
  pi_plan_file :: string
  pi_attempt :: nat
  pi_model_id :: string
  pi_tool_names :: RoleToolNames
  pi_inherit_tool_names :: RoleToolNames

definition emit_planner :: "planner_event \<Rightarrow> planner_files \<Rightarrow> planner_files" where
  "emit_planner ev f = f\<lparr>pa_events := pa_events f @ [ev]\<rparr>"

definition planner_request ::
    "ChannelSpawner \<Rightarrow> string \<Rightarrow> string option \<Rightarrow> string option \<Rightarrow> string \<Rightarrow> SubagentRequest" where
  "planner_request sp i model harness prompt =
     \<lparr>sr_id = i, sr_prompt = prompt, sr_description = GOAL_PLANNER_SUBAGENT_DESCRIPTION,
      sr_subagent_type = GOAL_ROLE_SUBAGENT_TYPE, sr_parent_session_id = cs_parent_session_id sp,
      sr_parent_prompt_id = cs_parent_prompt_id sp, sr_resume_from = None, sr_cwd = cs_cwd sp,
      sr_runtime_overrides = default_overrides\<lparr>ov_model := model, ov_harness_agent_type := harness\<rparr>,
      sr_run_in_background = False, sr_surface_completion = False, sr_fork_context = True\<rparr>"

definition planner_send_one ::
    "(SubagentRequest \<Rightarrow> 's \<Rightarrow> spawn_reply \<times> 's) \<Rightarrow> ChannelSpawner \<Rightarrow> string
     \<Rightarrow> string option \<Rightarrow> string option \<Rightarrow> string \<Rightarrow> (spawned \<Rightarrow> ('s, 'r) act) \<Rightarrow> ('s, 'r) act" where
  "planner_send_one coordinator sp i model harness prompt k =
     Access (\<lambda>s. case coordinator (planner_request sp i model harness prompt) s of
                  (reply, s') \<Rightarrow> (s', k (spawn_result reply)))"

definition spawn_planner ::
    "planner_host \<Rightarrow> (SubagentRequest \<Rightarrow> planner_files \<Rightarrow> spawn_reply \<times> planner_files) \<Rightarrow> RoleSpawnOverride \<Rightarrow> string
     \<Rightarrow> RoleRenderedPrompt \<Rightarrow> planner_files \<Rightarrow> spawned \<times> planner_files" where
  "spawn_planner h coordinator o' i prompt =
     run_alone (spawn_with_fail_open_retry o' (emit_planner GoalPlannerRetried) prompt
       (planner_send_one coordinator (po_spawner h) i) Ret) (\<lambda>i. 0)"

definition parse_terminal_response :: "string \<Rightarrow> bool" where
  "parse_terminal_response response \<longleftrightarrow> trim response = ''Done''"

definition render_planner_prompt :: "planner_host \<Rightarrow> GoalPlannerInputs \<Rightarrow> RoleToolNames \<Rightarrow> string" where
  "render_planner_prompt h i tool_names =
     apply_tool_names tool_names (replace_all ''{PLAN_FILE}'' (pi_plan_file i) (po_template h))
     @ [NL, NL] @ ''OBJECTIVE:'' @ [NL] @ pi_objective i
     @ [NL, NL] @ ''CONTEXT:'' @ [NL] @ pi_context i @ [NL]"

definition record_fail_closed ::
    "planner_host \<Rightarrow> GoalPlannerFailClosedReason \<Rightarrow> nat \<Rightarrow> planner_files \<Rightarrow> GoalPlannerOutcome \<times> planner_files" where
  "record_fail_closed h reason attempt f =
     (FailClosed reason (po_latency h attempt),
      emit_planner (GoalPlannerFailClosed (planner_fail_str reason) attempt (po_latency h attempt)) f)"

definition run_goal_planner ::
    "planner_host \<Rightarrow> (SubagentRequest \<Rightarrow> planner_files \<Rightarrow> spawn_reply \<times> planner_files) \<Rightarrow> RoleSpawnOverride
     \<Rightarrow> GoalPlannerInputs \<Rightarrow> planner_files \<Rightarrow> GoalPlannerOutcome \<times> planner_files" where
  "run_goal_planner h coordinator o' i f =
     (let attempt = pi_attempt i;
          f = emit_planner (GoalPlannerFired attempt GOAL_PLANNER_MAX_RUNS (pi_model_id i)) f
      in if \<not> po_dir_ok h attempt then record_fail_closed h PlanFileWriteFailed attempt f
         else
           let prompt = \<lparr>rp_primary = render_planner_prompt h i (pi_tool_names i),
                         rp_fallback = render_planner_prompt h i (pi_inherit_tool_names i)\<rparr>
           in case spawn_planner h coordinator o' (po_new_id h attempt) prompt f of
                (Inl (TransportError detail), f) \<Rightarrow> record_fail_closed h PlanTransport attempt f
              | (Inl (RuntimeError message cancelled), f) \<Rightarrow>
                  record_fail_closed h (if cancelled then PlanAborted else PlanRuntime) attempt f
              | (Inr response, f) \<Rightarrow>
                  if pa_plan f = None \<or> pa_plan f = Some [] then record_fail_closed h PlanMissing attempt f
                  else
                    let file = snd (ensure_dual_checklist_on_disk \<lparr>pf_body = pa_plan f, pf_writable = po_writable h\<rparr>)
                    in (Planned (pi_plan_file i) (po_latency h attempt),
                        emit_planner (GoalPlannerCompleted attempt (po_latency h attempt)) (f\<lparr>pa_plan := pf_body file\<rparr>)))"

text \<open>The diagnostics of the contract, which the runner only logs.\<close>

definition criteria_count :: "string \<Rightarrow> nat" where
  "criteria_count body =
     (let rows = length (parse_dual_rows body)
      in if 0 < rows then rows else length (extract_numbered_acceptance_criteria body))"

definition contract_violations :: "string option \<Rightarrow> string list option" where
  "contract_violations plan =
     (case plan of
        None \<Rightarrow> None
      | Some body \<Rightarrow>
          (case parse_criterion_graph body of
             None \<Rightarrow> None
           | Some declared \<Rightarrow>
               (let violations = map violation_message (validate declared (criteria_count body))
                in if violations = [] then None else Some violations)))"

subsection \<open>The harness's own plan\<close>

definition one_line_objective :: "string \<Rightarrow> string" where
  "one_line_objective s =
     (let flattened = join '' '' (split_whitespace s)
      in if flattened = [] then ''Achieve the stated objective.'' else flattened)"

definition truncate_chars :: "string \<Rightarrow> nat \<Rightarrow> string" where
  "truncate_chars s max_chars = (if char_count s \<le> max_chars then s else take_chars max_chars s @ ELLIPSIS)"

definition fallback_plan_body :: "string \<Rightarrow> string" where
  "fallback_plan_body objective =
     (let criterion = one_line_objective objective;
          headline = truncate_chars criterion 120
      in unlines
        [''# Plan: '' @ headline,
         [],
         ''## Goal kind'',
         ''code-change'',
         [],
         ''## Acceptance criteria'',
         ''1. '' @ criterion,
         [],
         ''## Acceptance checklist'',
         ''| Exec | Audit | Criterion |'',
         ''|------|-------|-----------|'',
         ''| [ ] | [ ] | '' @ criterion @ '' |'',
         [],
         ''## Criterion dependencies'',
         ''| # | Depends on | Write scope |'',
         ''|---|------------|-------------|'',
         ''| 1 | - | - |'',
         [],
         ''## Verification plan'',
         ''1. gating: observe on the real deliverable that the objective holds as ''
           @ ''stated, judging the shipped outcome rather than any self-report.'',
         [],
         ''## Non-goals'',
         ''- Anything the objective does not ask for.'',
         [],
         ''## Assumed scope'',
         ''Unknown '' @ EM_DASH @ '' this plan was written by the harness after the planner ''
           @ ''subagent failed, so no scope survey was performed.'',
         [],
         ''## Risks / Contradictions'',
         ''- The planner subagent did not produce a plan, so the objective was ''
           @ ''not decomposed into independently checkable criteria. Verification ''
           @ ''judges the objective as one whole.''])"

subsection \<open>Planning a goal\<close>

text \<open>
  The session with the copy of the plan, the planner's events and the per-goal counters; the updates of the session mode
  are a log.
\<close>

record planner_state =
  pl_session :: Session
  pl_baseline :: "string option"
  pl_events :: "planner_event list"
  pl_continuation_streak :: nat
  pl_blocked_streak :: nat
  pl_turn_task_ids :: "string list"
  pl_mode_updates :: "string list"

definition pl_map :: "(Session \<Rightarrow> Session) \<Rightarrow> planner_state \<Rightarrow> planner_state" where
  "pl_map f p = p\<lparr>pl_session := f (pl_session p)\<rparr>"

definition set_plan :: "planner_host \<Rightarrow> string option \<Rightarrow> Session \<Rightarrow> Session" where
  "set_plan h body s =
     s\<lparr>ss_plan := body, ss_plan_mtime := po_mtime h (ss_plan_mtime s)\<rparr>"

definition emit_goal_planning :: "int \<Rightarrow> planner_host \<Rightarrow> Session \<Rightarrow> Session" where
  "emit_goal_planning current_tokens h s =
     (if \<not> ss_harness_enabled s then s
      else on_tracker (\<lambda>t. map_orchestration (\<lambda>g. g\<lparr>go_planning_in_flight := True\<rparr>) (account_elapsed (po_env h) t))
             (snd (goal_tokens current_tokens s)))"

definition write_fallback_plan :: "planner_host \<Rightarrow> string \<Rightarrow> Session \<Rightarrow> bool \<times> Session" where
  "write_fallback_plan h objective s =
     (if po_writable h then
        (True, send_output (''Planner subagent failed; continuing with a harness-written plan that ''
           @ ''treats the objective as one acceptance criterion.'') (set_plan h (Some (fallback_plan_body objective)) s))
      else (False, s))"

definition planner_failure_pause_message :: string where
  "planner_failure_pause_message = ''Planning failed; resume with /goal to retry.''"

datatype PlannerResolution = ResolvedPlan string | UserAborted | Unwritable

text \<open>The attempts; the second component is the reason of the last failure.\<close>

fun planner_attempts ::
    "planner_host \<Rightarrow> (SubagentRequest \<Rightarrow> planner_files \<Rightarrow> spawn_reply \<times> planner_files) \<Rightarrow> (nat \<Rightarrow> GoalPlannerInputs)
     \<Rightarrow> GoalPlannerFailClosedReason option \<Rightarrow> nat list \<Rightarrow> planner_files
     \<Rightarrow> (string option \<times> GoalPlannerFailClosedReason option) \<times> planner_files" where
  "planner_attempts h coordinator inputs last_reason [] f = ((None, last_reason), f)"
| "planner_attempts h coordinator inputs last_reason (attempt # rest) f =
     (case run_goal_planner h coordinator \<lparr>so_model = None, so_agent_type = None\<rparr> (inputs attempt) f of
        (Planned plan_file latency, f) \<Rightarrow> ((Some plan_file, last_reason), f)
      | (FailClosed reason latency, f) \<Rightarrow>
          if reason = PlanAborted then ((None, Some reason), f)
          else planner_attempts h coordinator inputs (Some reason) rest f)"

definition resolve_planner ::
    "planner_host \<Rightarrow> string \<Rightarrow> string \<Rightarrow> string option \<Rightarrow> GoalPlannerFailClosedReason option \<Rightarrow> Session \<Rightarrow> PlannerResolution \<times> Session" where
  "resolve_planner h objective plan_file planned last_reason s =
     (case planned of
        Some p \<Rightarrow> (ResolvedPlan p, s)
      | None \<Rightarrow>
          if last_reason = Some PlanAborted then (UserAborted, s)
          else case write_fallback_plan h objective s of
                 (True, s) \<Rightarrow> (ResolvedPlan plan_file, s)
               | (False, s) \<Rightarrow> (Unwritable, s))"

text \<open>A plan is recorded on the goal, and copied once as the baseline of later edits.\<close>

definition adopt_plan :: "planner_host \<Rightarrow> string \<Rightarrow> planner_state \<Rightarrow> planner_state" where
  "adopt_plan h plan_file p =
     (let t = ss_tracker (pl_session p);
          dst = plan_baseline_path t;
          need_baseline = (case gt_orchestration t of Some g \<Rightarrow> go_plan_baseline_file g = None | None \<Rightarrow> False);
          p = pl_map (on_tracker (map_orchestration (\<lambda>g. g\<lparr>go_plan_file := Some plan_file\<rparr>))) p
      in if need_baseline \<and> po_copy_ok h \<and> ss_plan (pl_session p) \<noteq> None
         then pl_map (on_tracker (map_orchestration (\<lambda>g. g\<lparr>go_plan_baseline_file := Some dst\<rparr>)))
                (p\<lparr>pl_baseline := ss_plan (pl_session p)\<rparr>)
         else p)"

definition settle_planner :: "planner_host \<Rightarrow> PlannerResolution \<Rightarrow> planner_state \<Rightarrow> planner_state" where
  "settle_planner h resolution p =
     (case resolution of
        ResolvedPlan plan_file \<Rightarrow> adopt_plan h plan_file p
      | _ \<Rightarrow> pl_map (\<lambda>s. snd (auto_pause_goal_if_active_with_message (po_env h) PauseUser planner_failure_pause_message s)) p)"

definition planner_inputs :: "planner_host \<Rightarrow> string \<Rightarrow> string \<Rightarrow> nat \<Rightarrow> GoalPlannerInputs" where
  "planner_inputs h objective plan_file attempt =
     \<lparr>pi_objective = objective, pi_context = [], pi_plan_file = plan_file, pi_attempt = attempt,
      pi_model_id = effective_role_model_id None (po_model_id h), pi_tool_names = po_role_tools h,
      pi_inherit_tool_names = po_role_tools h\<rparr>"

text \<open>The badge goes off on every way out.\<close>

definition clear_planning :: "planner_host \<Rightarrow> planner_state \<Rightarrow> planner_state" where
  "clear_planning h =
     pl_map (\<lambda>s. emit_goal_updated (po_env h)
       (on_tracker (map_orchestration (\<lambda>g. g\<lparr>go_planning_in_flight := False\<rparr>)) (snd (goal_tokens (ss_total_tokens s) s))))"

definition maybe_run_goal_planner :: "planner_host \<Rightarrow> string \<Rightarrow> planner_state \<Rightarrow> planner_state" where
  "maybe_run_goal_planner h objective p =
     (case (po_enabled h, po_coordinator h, gt_orchestration (ss_tracker (pl_session p))) of
        (True, Some coordinator, Some g) \<Rightarrow>
          if go_plan_file g \<noteq> None then p
          else
            let plan_file = plan_path (ss_tracker (pl_session p));
                p = pl_map (\<lambda>s. emit_goal_planning (ss_total_tokens s) h s) p;
                ((planned, last_reason), f) = planner_attempts h coordinator (planner_inputs h objective plan_file) None
                  [1..<GOAL_PLANNER_MAX_RUNS + 1] \<lparr>pa_plan = ss_plan (pl_session p), pa_events = []\<rparr>;
                p = pl_map (\<lambda>s. po_meanwhile h (set_plan h (pa_plan f) s)) (p\<lparr>pl_events := pl_events p @ pa_events f\<rparr>);
                (resolution, s) = resolve_planner h objective plan_file planned last_reason (pl_session p);
                p = settle_planner h resolution (p\<lparr>pl_session := s\<rparr>)
            in clear_planning h p
      | _ \<Rightarrow> p)"

subsection \<open>The reminder\<close>

definition render_goal_task_discipline :: "planner_host \<Rightarrow> GoalToolNames \<Rightarrow> string" where
  "render_goal_task_discipline h names = replace_all ''{TODO_TOOL}'' (tn_todo names) (po_discipline_template h)"

definition render_goal_plan_block :: "planner_host \<Rightarrow> string \<Rightarrow> GoalToolNames \<Rightarrow> string" where
  "render_goal_plan_block h path names =
     replace_all ''{TODO_TOOL}'' (tn_todo names) (replace_all ''{PLAN_PATH}'' path (po_plan_block_template h))"

definition render_goal_rules ::
    "planner_host \<Rightarrow> string \<Rightarrow> GoalToolNames \<Rightarrow> string \<Rightarrow> string \<Rightarrow> string option \<Rightarrow> string \<Rightarrow> bool \<Rightarrow> string" where
  "render_goal_rules h objective names block_recap goal_state plan_at scratch_dir scratch_ready =
     fold (\<lambda>(slot, new). replace_all slot new)
       [(''{OBJECTIVE}'', objective), (''{GOAL_TOOL}'', tn_goal names), (''{TASK_TOOL}'', tn_task names),
        (''{TODO_TOOL}'', tn_todo names),
        (''{PLAN_BLOCK}'', case plan_at of Some path \<Rightarrow> render_goal_plan_block h path names | None \<Rightarrow> []),
        (''{BLOCK_RECAP}'', block_recap), (''{DISCIPLINE_BLOCK}'', render_goal_task_discipline h names),
        (''{GOAL_STATE}'', goal_state), (''{SCRATCH_DIR}'', scratch_dir),
        (''{SCRATCH_STATUS}'',
          if scratch_ready then ''The dir has been created for you.''
          else ''Create it with '' @ [BACKTICK] @ ''mkdir -p'' @ [BACKTICK] @ '' if it does not already exist.'')]
       (po_rules_template h)"

definition goal_rules_for :: "planner_host \<Rightarrow> string \<Rightarrow> string \<Rightarrow> GoalOrchestration \<Rightarrow> string" where
  "goal_rules_for h block_recap goal_state g =
     render_goal_rules h (go_objective g) (po_names h) block_recap goal_state
       (goal_reminder_plan_path (po_enabled h) g) (implementer_scratch_dir (po_env h) (go_verifier_id g))
       (go_scratch_dir_ready g)"

subsection \<open>Setting up and resuming\<close>

definition warn_if_completion_tool_missing :: "planner_host \<Rightarrow> Session \<Rightarrow> Session" where
  "warn_if_completion_tool_missing h s =
     (if po_goal_tool h \<noteq> None then s
      else send_output
        (''Warning: the active toolset exposes no goal-update tool, so this goal has no way ''
         @ ''to report completion or a blocker. It will run until the token budget is spent. ''
         @ ''Switch to a toolset that includes it before relying on an unattended run.'') s)"

text \<open>A new goal, before it is planned.\<close>

definition start_goal :: "planner_host \<Rightarrow> string \<Rightarrow> string \<Rightarrow> int option \<Rightarrow> string option \<Rightarrow> planner_state \<Rightarrow> planner_state" where
  "start_goal h goal_id objective token_budget baseline_commit p =
     (let p = pl_map (warn_if_completion_tool_missing h) p;
          token_baseline = ss_total_tokens (pl_session p);
          p = pl_map (on_tracker (create_goal (po_env h) goal_id objective token_budget token_baseline
                (env_timestamp (po_env h)) baseline_commit)) p;
          p = pl_map clear_pending_classifier_completions (p\<lparr>pl_turn_task_ids := []\<rparr>);
          p = p\<lparr>pl_continuation_streak := 0, pl_blocked_streak := 0\<rparr>
      in pl_map (\<lambda>s. emit_goal_updated (po_env h) (snd (goal_tokens token_baseline s))) p)"

definition setup_goal ::
    "planner_host \<Rightarrow> string \<Rightarrow> string \<Rightarrow> int option \<Rightarrow> string option \<Rightarrow> planner_state \<Rightarrow> string option \<times> planner_state" where
  "setup_goal h goal_id objective token_budget baseline_commit p =
     (let p = maybe_run_goal_planner h objective (start_goal h goal_id objective token_budget baseline_commit p)
      in (map_option (\<lambda>g. ''<system-reminder>'' @ [NL] @ goal_rules_for h [] [] (g\<lparr>go_objective := objective\<rparr>) @ [NL]
            @ ''Start now.'' @ [NL] @ ''</system-reminder>'' @ [NL, NL]) (gt_orchestration (ss_tracker (pl_session p))), p))"

datatype GoalResumeOutcome = ResumeInference string string | ResumeMessage string

definition block_recap_text :: "GoalStatus \<Rightarrow> string option \<Rightarrow> string" where
  "block_recap_text previous_status previous_message =
     (case (previous_status, previous_message) of
        (Blocked, Some msg) \<Rightarrow>
          ''Previous state: Blocked.'' @ [NL] @ ''Previous block reason: '' @ msg @ [NL]
          @ ''Re-evaluate whether the blocker has been addressed. If yes, continue ''
          @ ''working. If no, you may block again with an updated reason.'' @ [NL, NL]
      | (InfraPaused, Some msg) \<Rightarrow>
          ''Previous state: Paused (infrastructure error).'' @ [NL] @ ''Previous error: '' @ msg @ [NL]
          @ ''The prior turn failed due to infrastructure. Retry when the error ''
          @ ''condition is resolved.'' @ [NL, NL]
      | (InfraPaused, None) \<Rightarrow>
          ''Previous state: Paused (infrastructure error).'' @ [NL]
          @ ''The prior turn failed due to infrastructure. Retry when the error ''
          @ ''condition is resolved.'' @ [NL, NL]
      | _ \<Rightarrow> [])"

text \<open>A resumed goal without a plan is planned again; the flag says that it is still active afterwards.\<close>

definition retry_planning :: "planner_host \<Rightarrow> planner_state \<Rightarrow> bool \<times> planner_state" where
  "retry_planning h p =
     (case gt_orchestration (ss_tracker (pl_session p)) of
        Some g \<Rightarrow>
          if go_status g = Active \<and> go_plan_file g = None
          then (let p = maybe_run_goal_planner h (go_objective g) p
                in (status_of (pl_session p) = Some Active, p))
          else (True, p)
      | None \<Rightarrow> (True, p))"

text \<open>The rest of a resume, after the transition: re-arm the goal, plan if needed, and render the reminder.\<close>

definition continue_resumed ::
    "planner_host \<Rightarrow> string \<Rightarrow> GoalStatus \<Rightarrow> string option \<Rightarrow> bool \<Rightarrow> planner_state \<Rightarrow> GoalResumeOutcome \<times> planner_state" where
  "continue_resumed h user_msg previous_status previous_message was_resumed p =
     (let p = p\<lparr>pl_continuation_streak := 0, pl_blocked_streak := 0\<rparr>;
          p = (pl_map (\<lambda>s. s\<lparr>ss_posture := True\<rparr>) p)\<lparr>pl_mode_updates := pl_mode_updates p @ [''goal'']\<rparr>;
          (active, p) = (if was_resumed then retry_planning h p else (True, p))
      in if \<not> active then (ResumeMessage ''Planning failed again; goal paused.'', p)
         else
           let s = pl_session p;
               ((tokens_used, finished), s) = goal_tokens (ss_total_tokens s) s;
               s = emit_goal_updated (po_env h) s;
               s = on_tracker (account_elapsed (po_env h)) s;
               p = p\<lparr>pl_session := s\<rparr>
           in case gt_orchestration (ss_tracker s) of
                None \<Rightarrow> (ResumeMessage ''Goal state is missing.'', p)
              | Some g \<Rightarrow>
                  (let goal_state = ''<goal-state>'' @ [NL] @ ''Status: Active'' @ [NL] @ ''Tokens: '' @ show_int tokens_used
                         @ '' | Elapsed: '' @ format_elapsed (go_elapsed_ms g) @ [NL] @ ''</goal-state>'' @ [NL, NL]
                   in (ResumeInference (''<system-reminder>'' @ [NL]
                         @ goal_rules_for h (block_recap_text previous_status previous_message) goal_state g @ [NL]
                         @ ''Continue working now.'' @ [NL] @ ''</system-reminder>'') user_msg, p)))"

definition resume_goal :: "planner_host \<Rightarrow> planner_state \<Rightarrow> GoalResumeOutcome \<times> planner_state" where
  "resume_goal h p =
     (case gt_orchestration (ss_tracker (pl_session p)) of
        None \<Rightarrow> (ResumeMessage ''No goal set. Use /goal <objective> to start one.'', p)
      | Some g \<Rightarrow>
          if is_paused (go_status g) then
            continue_resumed h ''Goal resumed.'' (go_status g) (go_pause_message g) True
              (pl_map (on_tracker (\<lambda>t. snd (resume (po_env h) t))) p)
          else if go_status g = Complete then
            (ResumeMessage ''Goal is already complete. Use /goal <objective> to start a new one.'', p)
          else if go_status g = BudgetLimited then
            (ResumeMessage ''Goal is budget-limited. Use /goal clear, then /goal <objective>.'', p)
          else continue_resumed h (''Goal nudged '' @ EM_DASH @ '' refreshing context.'') Active None False p)"

end
