(* ===== verification/Planner_Correct.thy ===== *)
theory Planner_Correct
  imports Goal_Planner Session_Correct Amend_Graph
begin

text \<open>
  Planning a goal is total: unless the user stops the planner or the plan cannot be written, a goal that is planned has
  a plan afterwards, and the plan the harness writes itself reads back as the one criterion it is meant to be.
\<close>

subsection \<open>One line\<close>

lemma ws_enc_space: "is_ws_enc w \<Longrightarrow> CHR '' '' \<in> set w \<Longrightarrow> length w = 1"
  by (auto simp: is_ws_enc_def wide_ws_def)

lemma strip_ws_token: "ws_free p \<Longrightarrow> p \<noteq> [] \<Longrightarrow> strip_ws (p @ CHR '' '' # q) = None"
  unfolding strip_ws_None_iff
proof (intro allI impI notI)
  fix w r
  assume p: "ws_free p" "p \<noteq> []" and w: "is_ws_enc w" "p @ CHR '' '' # q = w @ r"
  have "\<not> (\<exists>x. p = w @ x)"
  proof
    assume "\<exists>x. p = w @ x"
    then obtain x where "p = w @ x" ..
    with p(1) have "strip_ws (w @ x) = None" by (auto simp: ws_free_def)
    with w(1) show False by simp
  qed
  with w(2) obtain y where y: "w = p @ y" "CHR '' '' # q = y @ r" by (metis append_eq_append_conv2 append_Nil2)
  with \<open>\<not> (\<exists>x. p = w @ x)\<close> have "y \<noteq> []" by auto
  with y p(2) ws_enc_space [OF w(1)] show False by (cases y) auto
qed

lemma ws_free_rev: "ws_free w \<Longrightarrow> strip_ws_rev (rev w) = None"
proof (rule ccontr)
  assume w: "ws_free w" and "strip_ws_rev (rev w) \<noteq> None"
  then obtain r e where "is_ws_enc e" "rev w = rev e @ r" using strip_ws_rev_SomeD by blast
  then have "w = rev r @ e" by (simp add: rev_eq_append_conv)
  with w have "strip_ws (e @ []) = None" by (auto simp: ws_free_def)
  with \<open>is_ws_enc e\<close> show False using strip_ws_append [of e "[]"] by simp
qed

lemma strip_ws_rev_token: "ws_free q \<Longrightarrow> q \<noteq> [] \<Longrightarrow> strip_ws_rev (rev (p @ CHR '' '' # q)) = None"
proof (rule ccontr)
  assume q: "ws_free q" "q \<noteq> []" and "strip_ws_rev (rev (p @ CHR '' '' # q)) \<noteq> None"
  then obtain w r where w: "is_ws_enc w" "rev (p @ CHR '' '' # q) = rev w @ r" using strip_ws_rev_SomeD by blast
  then have eq: "p @ CHR '' '' # q = rev r @ w" by (metis rev_append rev_rev_ident)
  have "q \<noteq> x @ w" for x
  proof
    assume "q = x @ w"
    with q(1) have "strip_ws (w @ []) = None" by (auto simp: ws_free_def)
    with w(1) show False using strip_ws_append [of w "[]"] by simp
  qed
  with eq obtain y where "w = y @ CHR '' '' # q" by (auto simp: append_eq_append_conv2 Cons_eq_append_conv)
  with q(2) ws_enc_space [OF w(1)] show False by (cases q) auto
qed

lemma join_snoc: "us \<noteq> [] \<Longrightarrow> join sep (us @ [u]) = join sep us @ sep @ u"
proof (induction us)
  case (Cons a us)
  then show ?case by (cases "us = []") (simp_all add: join_Cons)
qed simp

lemma trim_tokens:
  assumes "\<forall>t\<in>set ts. ws_free t \<and> t \<noteq> []"
  shows "trim (join '' '' ts) = join '' '' ts"
proof -
  have "strip_ws (join '' '' ts) = None"
  proof (cases ts)
    case (Cons t us)
    then show ?thesis using assms strip_ws_token by (cases us) (auto simp: ws_free_def)
  qed simp
  moreover have "strip_ws_rev (rev (join '' '' ts)) = None"
  proof (cases ts rule: rev_cases)
    case (snoc us u)
    then show ?thesis using assms ws_free_rev strip_ws_rev_token [of u "join '' '' us"]
      by (cases "us = []") (auto simp: join_snoc)
  qed simp
  ultimately show ?thesis by (simp add: trim_def trim_start_None trim_end_None)
qed

lemma one_line_objective_ok:
  shows "trim (one_line_objective s) = one_line_objective s" (is ?trim)
    and "one_line_objective s \<noteq> []" (is ?nonempty)
    and "NL \<notin> set (one_line_objective s)" (is ?line)
    and "CHR ''|'' \<notin> set s \<Longrightarrow> CHR ''|'' \<notin> set (one_line_objective s)" (is "_ \<Longrightarrow> ?pipe")
proof -
  have tokens: "\<forall>t\<in>set (split_whitespace s). ws_free t \<and> t \<noteq> []"
    using split_ws_acc_tokens [of _ "[]" s] by (simp add: split_whitespace_def)
  have default: "trim ''Achieve the stated objective.'' = ''Achieve the stated objective.''" by code_simp
  show ?trim using trim_tokens [OF tokens] default by (simp add: one_line_objective_def Let_def)
  show ?nonempty by (simp add: one_line_objective_def Let_def)
  have nl: "NL \<notin> set t" if "t \<in> set (split_whitespace s)" for t
  proof
    assume "NL \<in> set t"
    then obtain a b where "t = a @ [NL] @ b" by (metis append_Cons append_Nil split_list)
    with tokens that have "strip_ws ([NL] @ b) = None" by (auto simp: ws_free_def)
    then show False using strip_ws_append [of "[NL]" b] by (simp add: is_ws_enc_def ascii_ws_def)
  qed
  then have "NL \<notin> set (join '' '' (split_whitespace s))" using set_join_subset [of "'' ''" "split_whitespace s"] by auto
  then show ?line by (simp add: one_line_objective_def Let_def)
  assume "CHR ''|'' \<notin> set s"
  then have "CHR ''|'' \<notin> set t" if "t \<in> set (split_whitespace s)" for t
    using split_ws_acc_subset [of t "[]" s] that by (auto simp: split_whitespace_def)
  then have "CHR ''|'' \<notin> set (join '' '' (split_whitespace s))" using set_join_subset [of "'' ''" "split_whitespace s"] by auto
  then show ?pipe by (simp add: one_line_objective_def Let_def)
qed

subsection \<open>The harness's own plan reads back\<close>

definition fallback_head :: "string \<Rightarrow> string list" where
  "fallback_head c =
     [''# Plan: '' @ truncate_chars c 120, [], ''## Goal kind'', ''code-change'', [], ''## Acceptance criteria'', ''1. '' @ c, []]"

definition fallback_tail :: "string list" where
  "fallback_tail =
     [[], ''## Criterion dependencies'', ''| # | Depends on | Write scope |'', ''|---|------------|-------------|'', ''| 1 | - | - |'',
      [], ''## Verification plan'',
      ''1. gating: observe on the real deliverable that the objective holds as stated, judging the shipped outcome rather than any self-report.'',
      [], ''## Non-goals'', ''- Anything the objective does not ask for.'', [], ''## Assumed scope'',
      ''Unknown '' @ EM_DASH @ '' this plan was written by the harness after the planner subagent failed, so no scope survey was performed.'',
      [], ''## Risks / Contradictions'',
      ''- The planner subagent did not produce a plan, so the objective was not decomposed into independently checkable criteria. Verification judges the objective as one whole.'']"

lemma fallback_lines:
  "fallback_plan_body objective = unlines (fallback_head (one_line_objective objective)
     @ [''## Acceptance checklist'', ''| Exec | Audit | Criterion |'', ''|------|-------|-----------|'',
        fresh_row (one_line_objective objective)] @ fallback_tail)"
  by (simp add: fallback_plan_body_def fallback_head_def fallback_tail_def fresh_row_def Let_def)

lemma plan_title_not_checklist: "\<not> is_section_header (''# Plan: '' @ x) SECTION"
proof -
  obtain t where "trim_end ([] @ CHR ''P'' # ''lan: '' @ x) = [] @ CHR ''P'' # t"
    using trim_end_keeps [of "CHR ''P''" "[]"] by (auto simp: plain_def ascii_ws_def wide_ws_def)
  moreover have "trim_start (CHR ''P'' # ''lan: '' @ x) = CHR ''P'' # ''lan: '' @ x"
    by (rule trim_start_None) (simp add: strip_ws_def ascii_ws_def wide_ws_def)
  moreover have "trim_start ([CHR '' ''] @ CHR ''P'' # ''lan: '' @ x) = trim_start (CHR ''P'' # ''lan: '' @ x)"
    by (rule trim_start_ws) (simp add: is_ws_enc_def ascii_ws_def)
  ultimately have "trim ('' Plan: '' @ x) = CHR ''P'' # t" by (simp add: trim_def)
  moreover have "trim_start (''# Plan: '' @ x) = ''# Plan: '' @ x"
    by (rule trim_start_None) (simp add: strip_ws_def ascii_ws_def wide_ws_def)
  moreover have "ascii_lower (CHR ''P'') \<noteq> ascii_lower (CHR ''a'')" by code_simp
  ultimately show ?thesis
    by (simp add: is_section_header_def trim_start_char_def Let_def eq_ignore_ascii_case_def SECTION_def to_ascii_lowercase_def)
qed

lemma numbered_not_header: "\<not> is_any_header (''1. '' @ x)"
proof -
  have "trim_start (''1. '' @ x) = ''1. '' @ x" by (rule trim_start_None) (simp add: strip_ws_def ascii_ws_def wide_ws_def)
  then show ?thesis by (simp add: is_any_header_def)
qed

lemma take_chars_subset: "set (take_chars n s) \<subseteq> set s"
  by (induction n s rule: take_chars.induct) (auto split: nat.splits)

lemma fallback_head_ok:
  assumes "NL \<notin> set c"
  shows "\<forall>l\<in>set (fallback_head c). \<not> is_section_header l SECTION"
    and "\<forall>l\<in>set (fallback_head c). NL \<notin> set l"
proof -
  have "\<not> is_section_header [] SECTION" "\<not> is_section_header ''## Goal kind'' SECTION" "\<not> is_section_header ''code-change'' SECTION"
    "\<not> is_section_header ''## Acceptance criteria'' SECTION"
    by code_simp+
  then show "\<forall>l\<in>set (fallback_head c). \<not> is_section_header l SECTION"
    using plan_title_not_checklist [of "truncate_chars c 120"] numbered_not_header [of c] section_header_is_header
    by (auto simp: fallback_head_def)
  show "\<forall>l\<in>set (fallback_head c). NL \<notin> set l"
    using assms take_chars_subset [of 120 c] by (auto simp: fallback_head_def truncate_chars_def)
qed

lemma fallback_tail_ok: "dual_loop True 2 fallback_tail = []" "\<forall>l\<in>set fallback_tail. NL \<notin> set l"
proof -
  have "parse_row [] = None" "\<not> is_section_header [] SECTION" "\<not> is_any_header []"
    "\<not> is_section_header ''## Criterion dependencies'' SECTION" "is_any_header ''## Criterion dependencies''"
    "header_level ''## Criterion dependencies'' = 2"
    by code_simp+
  then show "dual_loop True 2 fallback_tail = []" by (simp add: fallback_tail_def)
  show "\<forall>l\<in>set fallback_tail. NL \<notin> set l" by (simp add: fallback_tail_def)
qed

text \<open>
  The plan the harness writes when the planner fails is read back as the single open criterion it stands
  for, the objective on one line, when the objective holds no table separator; so there is one criterion to implement
  and to audit.
\<close>

theorem fallback_plan_reads_back:
  assumes "CHR ''|'' \<notin> set objective"
  shows "parse_dual_rows (fallback_plan_body objective) = [open_row (one_line_objective objective)]"
proof -
  let ?c = "one_line_objective objective"
  let ?mid = "[''## Acceptance checklist'', ''| Exec | Audit | Criterion |'', ''|------|-------|-----------|'']"
  note c = one_line_objective_ok [of objective]
  have row: "parse_row (fresh_row ?c) = Some (open_row ?c)" "\<not> is_any_header (fresh_row ?c)" "\<not> is_section_header (fresh_row ?c) SECTION"
    using parse_fresh_row [OF c(1,2) c(4) [OF assms]] by blast+
  have mid: "is_section_header ''## Acceptance checklist'' SECTION" "header_level ''## Acceptance checklist'' = 2"
    "\<not> is_section_header ''| Exec | Audit | Criterion |'' SECTION" "\<not> is_any_header ''| Exec | Audit | Criterion |''"
    "parse_row ''| Exec | Audit | Criterion |'' = None"
    "\<not> is_section_header ''|------|-------|-----------|'' SECTION" "\<not> is_any_header ''|------|-------|-----------|''"
    "parse_row ''|------|-------|-----------|'' = None"
    by code_simp+
  have nl: "\<forall>l\<in>set (fallback_head ?c @ (?mid @ [fresh_row ?c]) @ fallback_tail). NL \<notin> set l"
    using fallback_head_ok(2) [OF c(3)] fallback_tail_ok(2) c(3) by (auto simp: fresh_row_def)
  have "lines (fallback_plan_body objective) = map strip_cr (fallback_head ?c @ (?mid @ [fresh_row ?c]) @ fallback_tail)"
    using lines_unlines_append [OF nl, of "[]"] by (simp add: fallback_lines lines_def)
  moreover have "dual_loop i v (map strip_cr ls) = dual_loop i v ls" for i v ls
    by (rule dual_loop_map_trim) simp
  ultimately have "parse_dual_rows (fallback_plan_body objective)
      = dual_loop False 0 (fallback_head ?c @ (?mid @ [fresh_row ?c]) @ fallback_tail)"
    by (simp only: parse_dual_rows_def)
  also have "\<dots> = dual_loop False 0 ((?mid @ [fresh_row ?c]) @ fallback_tail)"
    by (rule dual_loop_skip [OF fallback_head_ok(1) [OF c(3)]])
  finally show ?thesis using mid row fallback_tail_ok(1) by simp
qed

theorem fallback_plan_reads_back_witness:
  "parse_dual_rows (fallback_plan_body (''ship'' @ [NL] @ ''the  release'')) = [open_row ''ship the release'']"
proof -
  have "one_line_objective (''ship'' @ [NL] @ ''the  release'') = ''ship the release''" by code_simp
  then show ?thesis using fallback_plan_reads_back [of "''ship'' @ [NL] @ ''the  release''"] by simp
qed

subsection \<open>A planned goal has a plan\<close>

lemma spawn_planner_inherit:
  "\<not> is_explicit o' \<Longrightarrow> spawn_planner h coordinator o' i prompt f =
     (case coordinator (planner_request (po_spawner h) i None None (rp_primary prompt)) f of (reply, f') \<Rightarrow> (spawn_result reply, f'))"
  by (simp add: spawn_planner_def spawn_with_fail_open_retry_def planner_send_one_def run_alone_Access split: prod.split)

lemma ensure_section_nonempty: "body \<noteq> [] \<Longrightarrow> ensure_dual_checklist_section body \<noteq> []"
  by (auto simp: ensure_dual_checklist_section_def ensure_newline_def Let_def checklist_table_def split: option.split)

lemma ensure_on_disk_nonempty:
  assumes "pa_plan f = Some body" "body \<noteq> []"
  shows "\<exists>b. pf_body (snd (ensure_dual_checklist_on_disk \<lparr>pf_body = pa_plan f, pf_writable = w\<rparr>)) = Some b \<and> b \<noteq> []"
  using assms ensure_section_nonempty by (auto simp: ensure_dual_checklist_on_disk_def update_plan_def Let_def)

lemma emit_planner_simps [simp]: "pa_plan (emit_planner ev f) = pa_plan f" "pa_events (emit_planner ev f) = pa_events f @ [ev]"
  by (simp_all add: emit_planner_def)

definition never_cancelled :: "(SubagentRequest \<Rightarrow> planner_files \<Rightarrow> spawn_reply \<times> planner_files) \<Rightarrow> bool" where
  "never_cancelled coordinator \<longleftrightarrow>
     (\<forall>req f r f'. coordinator req f = (Replied r, f') \<longrightarrow> rs_success r \<or> \<not> rs_cancelled r)"

lemma run_planner_outcome:
  assumes "run_goal_planner h coordinator o' i f = (outcome, f')"
  shows "outcome = Planned p latency \<Longrightarrow> p = pi_plan_file i \<and> (\<exists>b. pa_plan f' = Some b \<and> b \<noteq> [])"
    and "outcome = FailClosed reason latency \<Longrightarrow> never_cancelled coordinator \<Longrightarrow> \<not> is_explicit o' \<Longrightarrow> reason \<noteq> PlanAborted"
proof -
  show "outcome = Planned p latency \<Longrightarrow> p = pi_plan_file i \<and> (\<exists>b. pa_plan f' = Some b \<and> b \<noteq> [])"
    using assms ensure_on_disk_nonempty
    by (fastforce simp: run_goal_planner_def record_fail_closed_def Let_def split: if_splits prod.splits sum.splits SpawnError.splits)
  assume out: "outcome = FailClosed reason latency" and calm: "never_cancelled coordinator" and "\<not> is_explicit o'"
  have "\<not> (spawn_result reply = Inl (RuntimeError m True) \<and> coordinator req g = (reply, g'))" for reply m req g g'
    using calm by (cases reply) (auto simp: never_cancelled_def)
  with out \<open>\<not> is_explicit o'\<close> assms show "reason \<noteq> PlanAborted"
    by (auto simp: run_goal_planner_def record_fail_closed_def Let_def spawn_planner_inherit
        split: if_splits prod.splits sum.splits SpawnError.splits)
qed

lemma attempts_planned:
  assumes "planner_attempts h coordinator inputs last_reason attempts f = ((Some p, reason), f')"
    and "\<forall>a. pi_plan_file (inputs a) = path"
  shows "p = path \<and> (\<exists>b. pa_plan f' = Some b \<and> b \<noteq> [])"
  using assms
proof (induction attempts arbitrary: f last_reason)
  case (Cons a as)
  then show ?case using run_planner_outcome(1)
    by (auto split: prod.splits GoalPlannerOutcome.splits if_splits) blast+
qed simp

lemma attempts_uncancelled:
  assumes "planner_attempts h coordinator inputs last_reason attempts f = ((None, reason), f')"
    and "never_cancelled coordinator" and "last_reason \<noteq> Some PlanAborted"
  shows "reason \<noteq> Some PlanAborted"
  using assms
proof (induction attempts arbitrary: f last_reason)
  case (Cons a as)
  show ?case
  proof (cases "run_goal_planner h coordinator \<lparr>so_model = None, so_agent_type = None\<rparr> (inputs a) f")
    case (Pair outcome f1)
    with Cons run_planner_outcome(2) [OF Pair] show ?thesis
      by (cases outcome) (auto simp: is_explicit_def split: if_splits)
  qed
qed simp

text \<open>What planning is about: the plan file, and the goal's status and plan.\<close>

definition plan_part :: "Session \<Rightarrow> string option \<times> (GoalStatus \<times> string option) option" where
  "plan_part s = (ss_plan s, map_option (\<lambda>g. (go_status g, go_plan_file g)) (gt_orchestration (ss_tracker s)))"

named_theorems plan_frame \<open>operations that keep the plan file and the goal's status and plan\<close>

lemma goal_tokens_plan [plan_frame]: "plan_part (snd (goal_tokens c s)) = plan_part s"
  by (auto simp: goal_tokens_def plan_part_def ratchet_tokens_def Let_def split_beta split: option.split)

lemma emit_updated_plan [plan_frame]: "plan_part (emit_goal_updated e s) = plan_part s"
  by (auto simp: emit_goal_updated_def on_tracker_def plan_part_def refresh_criteria_view_def map_orchestration_def
      account_elapsed_def flush_elapsed_def split: option.split)

lemma latch_plan [plan_frame]:
  "plan_part (on_tracker (map_orchestration (\<lambda>g. g\<lparr>go_planning_in_flight := b\<rparr>)) s) = plan_part s"
  by (simp add: plan_part_def on_tracker_def map_orchestration_def option.map_comp comp_def)

lemma elapsed_plan [plan_frame]: "plan_part (on_tracker (account_elapsed e) s) = plan_part s"
  by (auto simp: plan_part_def on_tracker_def map_orchestration_def account_elapsed_def flush_elapsed_def split: option.split)

lemma on_tracker_comp: "on_tracker (\<lambda>t. f (g t)) s = on_tracker f (on_tracker g s)"
  by (simp add: on_tracker_def)

lemma emit_planning_plan [plan_frame]: "plan_part (emit_goal_planning c h s) = plan_part s"
  by (simp add: emit_goal_planning_def on_tracker_comp plan_frame)

lemma output_plan [plan_frame]: "plan_part (send_output x s) = plan_part s"
  by (simp add: send_output_def plan_part_def)

lemma plan_part_status: "status_of s = map_option fst (snd (plan_part s))"
  by (simp add: plan_part_def tracker_status_def option.map_comp comp_def)

lemma set_plan_part: "plan_part (set_plan h body s) = (body, snd (plan_part s))"
  by (simp add: set_plan_def plan_part_def)

lemma adopt_part:
  "plan_part (pl_session (adopt_plan h path p)) =
     (ss_plan (pl_session p), map_option (\<lambda>(st, _). (st, Some path)) (snd (plan_part (pl_session p))))"
  by (auto simp: adopt_plan_def Let_def pl_map_def on_tracker_def map_orchestration_def plan_part_def option.map_comp comp_def)

text \<open>The badge is off when planning has ended.\<close>

lemma latch_off:
  "gt_orchestration (ss_tracker (pl_session (clear_planning h p))) = Some g \<Longrightarrow> \<not> go_planning_in_flight g"
  by (auto simp: clear_planning_def pl_map_def emit_goal_updated_def on_tracker_def refresh_criteria_view_def map_orchestration_def
      account_elapsed_def flush_elapsed_def split: option.splits if_splits)

lemma clear_planning_part [plan_frame]: "plan_part (pl_session (clear_planning h p)) = plan_part (pl_session p)"
  by (simp add: clear_planning_def pl_map_def plan_frame)

text \<open>A run of the planner, taken apart: the attempts, then what they resolve to.\<close>

definition attempts_on ::
    "planner_host \<Rightarrow> (SubagentRequest \<Rightarrow> planner_files \<Rightarrow> spawn_reply \<times> planner_files) \<Rightarrow> string \<Rightarrow> Session
     \<Rightarrow> (string option \<times> GoalPlannerFailClosedReason option) \<times> planner_files" where
  "attempts_on h coordinator objective s =
     planner_attempts h coordinator (planner_inputs h objective (plan_path (ss_tracker s))) None
       [1..<GOAL_PLANNER_MAX_RUNS + 1] \<lparr>pa_plan = ss_plan s, pa_events = []\<rparr>"

lemma three_attempts:
  "attempts_on h coordinator objective s =
     planner_attempts h coordinator (planner_inputs h objective (plan_path (ss_tracker s))) None [1, 2, 3]
       \<lparr>pa_plan = ss_plan s, pa_events = []\<rparr>"
proof -
  have "[1..<GOAL_PLANNER_MAX_RUNS + 1] = [1, 2, 3]" by (simp add: GOAL_PLANNER_MAX_RUNS_def upt_rec)
  then show ?thesis unfolding attempts_on_def by (rule arg_cong)
qed

lemma planning_run:
  assumes on: "po_enabled h" "po_coordinator h = Some coordinator"
    and undisturbed: "\<forall>s. plan_part (po_meanwhile h s) = plan_part s"
    and goal: "plan_part (pl_session p) = (plan, Some (status, None))"
    and att: "attempts_on h coordinator objective (pl_session p) = ((planned, reason), f)"
  obtains s1 where "plan_part s1 = (pa_plan f, Some (status, None))"
    and "maybe_run_goal_planner h objective p = clear_planning h (settle_planner h
      (fst (resolve_planner h objective (plan_path (ss_tracker (pl_session p))) planned reason s1))
      (p\<lparr>pl_events := pl_events p @ pa_events f,
         pl_session := snd (resolve_planner h objective (plan_path (ss_tracker (pl_session p))) planned reason s1)\<rparr>))"
proof -
  let ?s0 = "emit_goal_planning (ss_total_tokens (pl_session p)) h (pl_session p)"
  obtain g where g: "gt_orchestration (ss_tracker (pl_session p)) = Some g" "go_plan_file g = None"
    using goal by (auto simp: plan_part_def)
  have part0: "plan_part ?s0 = (plan, Some (status, None))" using goal by (simp add: plan_frame)
  then have "ss_plan ?s0 = ss_plan (pl_session p)" using goal by (simp add: plan_part_def)
  then have run: "maybe_run_goal_planner h objective p = clear_planning h (settle_planner h
      (fst (resolve_planner h objective (plan_path (ss_tracker (pl_session p))) planned reason (po_meanwhile h (set_plan h (pa_plan f) ?s0))))
      (p\<lparr>pl_events := pl_events p @ pa_events f, pl_session := snd (resolve_planner h objective
           (plan_path (ss_tracker (pl_session p))) planned reason (po_meanwhile h (set_plan h (pa_plan f) ?s0)))\<rparr>))"
    using on g att by (simp add: maybe_run_goal_planner_def attempts_on_def Let_def pl_map_def split_beta)
  have "plan_part (po_meanwhile h (set_plan h (pa_plan f) ?s0)) = (pa_plan f, Some (status, None))"
    using undisturbed part0 by (simp add: set_plan_part)
  then show ?thesis using that run by blast
qed

text \<open>
  Property C27. Planning cannot leave an unattended goal without a plan. When a goal has no plan, the planner is on, nobody stops
  the planner and the plan file can be written, the goal keeps its status and ends up with a plan that is on disk and not
  empty, whatever the planner agent does and however often it fails; the badge that says so is off again.
\<close>

theorem planning_yields_plan:
  assumes on: "po_enabled h" "po_coordinator h = Some coordinator"
    and calm: "never_cancelled coordinator" and writable: "po_writable h"
    and undisturbed: "\<forall>s. plan_part (po_meanwhile h s) = plan_part s"
    and goal: "gt_orchestration (ss_tracker (pl_session p)) = Some g" "go_plan_file g = None"
    and run: "maybe_run_goal_planner h objective p = p'"
  shows "\<exists>g' body. gt_orchestration (ss_tracker (pl_session p')) = Some g' \<and> go_status g' = go_status g
    \<and> go_plan_file g' = Some (plan_path (ss_tracker (pl_session p))) \<and> \<not> go_planning_in_flight g'
    \<and> ss_plan (pl_session p') = Some body \<and> body \<noteq> []"
proof -
  let ?path = "plan_path (ss_tracker (pl_session p))"
  obtain planned reason f where att: "attempts_on h coordinator objective (pl_session p) = ((planned, reason), f)"
    by (metis prod.exhaust)
  have "plan_part (pl_session p) = (ss_plan (pl_session p), Some (go_status g, None))" using goal by (simp add: plan_part_def)
  then obtain s1 where part1: "plan_part s1 = (pa_plan f, Some (go_status g, None))"
    and run1: "maybe_run_goal_planner h objective p = clear_planning h (settle_planner h
      (fst (resolve_planner h objective ?path planned reason s1))
      (p\<lparr>pl_events := pl_events p @ pa_events f, pl_session := snd (resolve_planner h objective ?path planned reason s1)\<rparr>))"
    using planning_run [OF on undisturbed _ att] by blast
  have "\<exists>body s2. resolve_planner h objective ?path planned reason s1 = (ResolvedPlan ?path, s2)
      \<and> plan_part s2 = (Some body, Some (go_status g, None)) \<and> body \<noteq> []"
  proof (cases planned)
    case (Some path)
    have "path = ?path \<and> (\<exists>b. pa_plan f = Some b \<and> b \<noteq> [])"
      by (rule attempts_planned [OF att [unfolded Some attempts_on_def]]) (simp add: planner_inputs_def)
    then show ?thesis using part1 Some by (auto simp: resolve_planner_def)
  next
    case None
    have "reason \<noteq> Some PlanAborted" using attempts_uncancelled [OF att [unfolded None attempts_on_def] calm] by simp
    then show ?thesis using part1 None writable
      by (auto simp: resolve_planner_def write_fallback_plan_def plan_frame set_plan_part fallback_lines fallback_head_def)
  qed
  then obtain body s2 where r: "resolve_planner h objective ?path planned reason s1 = (ResolvedPlan ?path, s2)"
      "plan_part s2 = (Some body, Some (go_status g, None))" "body \<noteq> []"
    by blast
  then have "plan_part (pl_session p') = (Some body, Some (go_status g, Some ?path))"
    using run run1 by (auto simp: plan_frame settle_planner_def adopt_part) (simp add: plan_part_def)+
  then obtain g' where g': "gt_orchestration (ss_tracker (pl_session p')) = Some g'" "go_status g' = go_status g"
      "go_plan_file g' = Some ?path" "ss_plan (pl_session p') = Some body"
    by (auto simp: plan_part_def)
  moreover have "\<not> go_planning_in_flight g'" using g'(1) latch_off run run1 by auto
  ultimately show ?thesis using r(3) by blast
qed

text \<open>Attempts are bounded, and a planner the user stops is not run again.\<close>

definition fired :: "planner_event list \<Rightarrow> nat" where
  "fired evs = length (filter (\<lambda>ev. case ev of GoalPlannerFired a m i \<Rightarrow> True | _ \<Rightarrow> False) evs)"

definition keeps_log :: "(SubagentRequest \<Rightarrow> planner_files \<Rightarrow> spawn_reply \<times> planner_files) \<Rightarrow> bool" where
  "keeps_log coordinator \<longleftrightarrow> (\<forall>req f. pa_events (snd (coordinator req f)) = pa_events f)"

lemma fired_append [simp]: "fired (a @ b) = fired a + fired b" by (simp add: fired_def)

lemma run_planner_fires_once:
  assumes "run_goal_planner h coordinator o' i f = (outcome, f')" and "keeps_log coordinator" and "\<not> is_explicit o'"
  shows "fired (pa_events f') = Suc (fired (pa_events f))"
proof -
  have log: "pa_events g' = pa_events g" if "coordinator req g = (reply, g')" for req g reply g'
    using assms(2) that by (metis keeps_log_def snd_conv)
  show ?thesis using assms(1,3) log
    by (auto simp: run_goal_planner_def record_fail_closed_def Let_def spawn_planner_inherit fired_def
        split: if_splits prod.splits sum.splits SpawnError.splits)
qed

theorem planner_attempts_bounded:
  assumes "planner_attempts h coordinator inputs last_reason attempts f = (r, f')" and "keeps_log coordinator"
  shows "fired (pa_events f') \<le> fired (pa_events f) + length attempts"
  using assms
proof (induction attempts arbitrary: f last_reason)
  case (Cons a as)
  show ?case
  proof (cases "run_goal_planner h coordinator \<lparr>so_model = None, so_agent_type = None\<rparr> (inputs a) f")
    case (Pair outcome f1)
    have "fired (pa_events f1) = Suc (fired (pa_events f))"
      by (rule run_planner_fires_once [OF Pair Cons.prems(2)]) (simp add: is_explicit_def)
    with Cons Pair show ?thesis by (cases outcome) (fastforce split: if_splits)+
  qed
qed simp

subsection \<open>Resuming\<close>

lemma resume_activates:
  assumes "gt_orchestration t = Some g" and "is_paused (go_status g)"
  shows "tracker_status (snd (resume e t)) = Some Active"
  using assms by (simp add: resume_def Let_def)
    (simp add: tracker_status_def reset_classifier_stall_fields_def reset_strategist_fields_def)

text \<open>The counters of a goal are not part of planning.\<close>

definition counters :: "planner_state \<Rightarrow> nat \<times> nat" where
  "counters p = (pl_continuation_streak p, pl_blocked_streak p)"

lemma planner_counters: "counters (maybe_run_goal_planner h objective p) = counters p"
proof -
  have "counters (pl_map f q) = counters q" for f q by (simp add: counters_def pl_map_def)
  moreover have "counters (settle_planner h r q) = counters q" for r q
    by (cases r) (simp_all add: settle_planner_def adopt_plan_def Let_def counters_def pl_map_def)
  moreover have "counters (q\<lparr>pl_session := s\<rparr>) = counters q" "counters (q\<lparr>pl_events := ev\<rparr>) = counters q" for q s ev
    by (simp_all add: counters_def)
  ultimately show ?thesis
    by (simp add: maybe_run_goal_planner_def clear_planning_def Let_def split_beta split: bool.split option.split)
qed

lemma retry_planning_active:
  assumes "retry_planning h p = (True, p')" and "status_of (pl_session p) = Some Active"
  shows "status_of (pl_session p') = Some Active \<and> counters p' = counters p"
  using assms planner_counters by (auto simp: retry_planning_def Let_def split: option.splits if_splits)

lemma continue_resumed_active:
  assumes run: "continue_resumed h msg st pm was_resumed p = (ResumeInference reminder m, p')"
    and active: "status_of (pl_session p) = Some Active"
  shows "status_of (pl_session p') = Some Active \<and> counters p' = (0, 0)"
proof -
  define q where "q = (pl_map (\<lambda>s. s\<lparr>ss_posture := True\<rparr>) (p\<lparr>pl_continuation_streak := 0, pl_blocked_streak := 0\<rparr>))
      \<lparr>pl_mode_updates := pl_mode_updates p @ [''goal'']\<rparr>"
  obtain act q' where retry: "(if was_resumed then retry_planning h q else (True, q)) = (act, q')" by fastforce
  have q: "status_of (pl_session q) = Some Active" "counters q = (0, 0)"
    using active by (simp_all add: q_def pl_map_def counters_def)
  obtain toks s where toks: "goal_tokens (ss_total_tokens (pl_session q')) (pl_session q') = (toks, s)" by fastforce
  have "act" using run retry by (auto simp: continue_resumed_def q_def pl_map_def Let_def split: if_splits)
  then have q': "status_of (pl_session q') = Some Active" "counters q' = (0, 0)"
    using retry retry_planning_active [of h q q'] q by (auto split: if_splits)
  have "p' = q'\<lparr>pl_session := on_tracker (account_elapsed (po_env h)) (emit_goal_updated (po_env h) s)\<rparr>"
    using run retry \<open>act\<close> toks
    by (auto simp: continue_resumed_def q_def pl_map_def Let_def split_beta split: if_splits option.splits)
  moreover have "plan_part s = plan_part (pl_session q')" using goal_tokens_plan [of "ss_total_tokens (pl_session q')" "pl_session q'"] toks
    by simp
  ultimately show ?thesis using q' by (simp add: plan_part_status plan_frame counters_def)
qed

text \<open>
  Property C28. Resuming drives only a goal that runs. When a resume hands the model a reminder to go on, the goal is active, also
  after planning it again, and both counters that end a run are back at zero; a resume that cannot get the goal running
  ends with a message.
\<close>

theorem resume_drives_active_goal:
  assumes "resume_goal h p = (ResumeInference reminder m, p')"
  shows "status_of (pl_session p') = Some Active \<and> pl_continuation_streak p' = 0 \<and> pl_blocked_streak p' = 0"
proof -
  obtain g where g: "gt_orchestration (ss_tracker (pl_session p)) = Some g"
    using assms by (auto simp: resume_goal_def split: option.splits)
  let ?t = "ss_tracker (pl_session p)"
  have "status_of (pl_session p') = Some Active \<and> counters p' = (0, 0)"
  proof (cases "is_paused (go_status g)")
    case True
    then show ?thesis using assms g resume_activates [OF g True, of "po_env h"]
      by (intro continue_resumed_active) (auto simp: resume_goal_def pl_map_def on_tracker_def)
  next
    case False
    then have "go_status g = Active" using assms g by (cases "go_status g") (auto simp: resume_goal_def)
    with False show ?thesis using assms g status_Some [OF g]
      by (intro continue_resumed_active) (auto simp: resume_goal_def)
  qed
  then show ?thesis by (simp add: counters_def)
qed

text \<open>A paused goal that has a plan always gets going again.\<close>

lemma resume_part:
  assumes "gt_orchestration (ss_tracker s) = Some g" and "is_paused (go_status g)"
  shows "plan_part (on_tracker (\<lambda>t. snd (resume e t)) s) = (ss_plan s, Some (Active, go_plan_file g))"
  using assms by (simp add: resume_def Let_def plan_part_def on_tracker_def record_event_def append_history_def
      map_orchestration_def reset_classifier_stall_fields_def reset_strategist_fields_def)

lemma goal_present: "snd (plan_part s) \<noteq> None \<longleftrightarrow> gt_orchestration (ss_tracker s) \<noteq> None"
  by (simp add: plan_part_def)

theorem planned_goal_resumes:
  assumes g: "gt_orchestration (ss_tracker (pl_session p)) = Some g" "is_paused (go_status g)" "go_plan_file g \<noteq> None"
  shows "\<exists>reminder p'. resume_goal h p = (ResumeInference reminder ''Goal resumed.'', p')"
proof -
  define q where "q = (pl_map (\<lambda>s. s\<lparr>ss_posture := True\<rparr>) ((pl_map (on_tracker (\<lambda>t. snd (resume (po_env h) t))) p)
      \<lparr>pl_continuation_streak := 0, pl_blocked_streak := 0\<rparr>))\<lparr>pl_mode_updates := pl_mode_updates p @ [''goal'']\<rparr>"
  have part: "plan_part (pl_session q) = (ss_plan (pl_session p), Some (Active, go_plan_file g))"
    using resume_part [OF g(1,2), of "po_env h"] by (simp add: q_def pl_map_def plan_part_def)
  then have "retry_planning h q = (True, q)"
    using g(3) by (auto simp: retry_planning_def plan_part_def split: option.splits)
  moreover obtain toks s where toks: "goal_tokens (ss_total_tokens (pl_session q)) (pl_session q) = (toks, s)" by fastforce
  moreover have "plan_part s = plan_part (pl_session q)"
    using goal_tokens_plan [of "ss_total_tokens (pl_session q)" "pl_session q"] toks by simp
  then have "gt_orchestration (ss_tracker (on_tracker (account_elapsed (po_env h)) (emit_goal_updated (po_env h) s))) \<noteq> None"
    unfolding goal_present [symmetric] plan_frame by (simp add: part)
  ultimately show ?thesis using g(1,2)
    by (auto simp: resume_goal_def continue_resumed_def q_def pl_map_def Let_def split_beta split: option.split)
qed

subsection \<open>What planning does not guard against\<close>

text \<open>An agent that answers as it should and leaves the files alone.\<close>

definition idle_planner :: "SubagentRequest \<Rightarrow> planner_files \<Rightarrow> spawn_reply \<times> planner_files" where
  "idle_planner req f =
     (Replied \<lparr>rs_success = True, rs_output = ''Done'', rs_error = None, rs_cancelled = False, rs_subagent_id = ''a'',
        rs_child_session_id = ''a'', rs_tool_calls = 0, rs_turns = 0, rs_duration_ms = 0, rs_tokens_used = 0,
        rs_worktree_path = None, rs_backgrounded = False\<rparr>, f)"

text \<open>An agent the user stops.\<close>

definition stopped_planner :: "SubagentRequest \<Rightarrow> planner_files \<Rightarrow> spawn_reply \<times> planner_files" where
  "stopped_planner req f =
     (Replied \<lparr>rs_success = False, rs_output = [], rs_error = None, rs_cancelled = True, rs_subagent_id = ''a'',
        rs_child_session_id = ''a'', rs_tool_calls = 0, rs_turns = 0, rs_duration_ms = 0, rs_tokens_used = 0,
        rs_worktree_path = None, rs_backgrounded = False\<rparr>, f)"

lemma created_plan [simp]:
  "\<exists>g. gt_orchestration (create_goal e i ob tb base at' commit t) = Some g \<and> go_status g = Active \<and> go_plan_file g = None"
  by (simp add: create_goal_def Let_def record_event_def append_history_def map_orchestration_def new_orchestration_def)

lemma start_goal_part: "plan_part (pl_session (start_goal h i objective tb commit p)) = (ss_plan (pl_session p), Some (Active, None))"
proof -
  have create: "plan_part (on_tracker (create_goal e i ob tb b at' c) s) = (ss_plan s, Some (Active, None))" for e ob b at' c s
    using created_plan [of e i ob tb b at' c "ss_tracker s"] by (auto simp: plan_part_def on_tracker_def)
  have clear: "plan_part (clear_pending_classifier_completions s) = plan_part s" for s
    by (simp add: clear_pending_classifier_completions_def plan_part_def)
  have warn: "ss_plan (warn_if_completion_tool_missing h s) = ss_plan s" for s
    by (simp add: warn_if_completion_tool_missing_def send_output_def)
  show ?thesis by (simp add: start_goal_def Let_def pl_map_def plan_frame clear create warn)
qed

text \<open>
  The plan of an earlier goal stays on disk, and a plan is taken for the planner's when it is there: an agent that answers
  and writes nothing has the old plan adopted for the new goal, whatever the new objective is.
\<close>

theorem stale_plan_adopted:
  assumes on: "po_enabled h" "po_coordinator h = Some idle_planner" and dir: "po_dir_ok h 1"
    and undisturbed: "\<forall>s. plan_part (po_meanwhile h s) = plan_part s"
    and old: "ss_plan (pl_session p) = Some old" "has_dual_checklist old"
  shows "\<exists>path. plan_part (pl_session (snd (setup_goal h i objective tb commit p))) = (Some old, Some (Active, Some path))"
proof -
  define q where "q = start_goal h i objective tb commit p"
  let ?path = "plan_path (ss_tracker (pl_session q))"
  have part: "plan_part (pl_session q) = (Some old, Some (Active, None))" by (simp add: q_def start_goal_part old)
  then have plan: "ss_plan (pl_session q) = Some old" by (simp add: plan_part_def)
  have ne: "old \<noteq> []" using old(2) by (auto simp: has_dual_checklist_def parse_dual_rows_def lines_def)
  have kept: "ensure_dual_checklist_on_disk \<lparr>pf_body = Some old, pf_writable = w\<rparr> = (Inr False, \<lparr>pf_body = Some old, pf_writable = w\<rparr>)" for w
    using old(2) by (simp add: ensure_dual_checklist_on_disk_def update_plan_def ensure_dual_checklist_section_def)
  have "\<exists>evs. attempts_on h idle_planner objective (pl_session q) = ((Some ?path, None), \<lparr>pa_plan = Some old, pa_events = evs\<rparr>)"
    using dir ne plan kept
    by (simp add: three_attempts run_goal_planner_def spawn_planner_inherit is_explicit_def idle_planner_def Let_def
        planner_inputs_def emit_planner_def)
  then obtain evs where att: "attempts_on h idle_planner objective (pl_session q)
      = ((Some ?path, None), \<lparr>pa_plan = Some old, pa_events = evs\<rparr>)" by blast
  obtain s1 where s1: "plan_part s1 = (Some old, Some (Active, None))"
    and run: "maybe_run_goal_planner h objective q = clear_planning h (settle_planner h
      (fst (resolve_planner h objective ?path (Some ?path) None s1))
      (q\<lparr>pl_events := pl_events q @ evs, pl_session := snd (resolve_planner h objective ?path (Some ?path) None s1)\<rparr>))"
    using planning_run [OF on undisturbed part att] by auto
  then have "ss_plan s1 = Some old" by (simp add: plan_part_def)
  then have "plan_part (pl_session (maybe_run_goal_planner h objective q)) = (Some old, Some (Active, Some ?path))"
    using run s1 by (simp add: plan_frame settle_planner_def resolve_planner_def adopt_part)
  then show ?thesis by (simp add: setup_goal_def Let_def q_def)
qed

text \<open>
  A planner that is stopped pauses the goal and is not run again; but setting up a goal goes on all the same, and hands the
  model the reminder to start on the goal just paused.
\<close>

theorem setup_starts_paused_goal:
  assumes on: "po_enabled h" "po_coordinator h = Some stopped_planner" and dir: "po_dir_ok h 1"
    and undisturbed: "\<forall>s. plan_part (po_meanwhile h s) = plan_part s"
  shows "status_of (pl_session (snd (setup_goal h i objective tb commit p))) = Some UserPaused
    \<and> fst (setup_goal h i objective tb commit p) \<noteq> None"
proof -
  define q where "q = start_goal h i objective tb commit p"
  let ?path = "plan_path (ss_tracker (pl_session q))"
  have part: "plan_part (pl_session q) = (ss_plan (pl_session p), Some (Active, None))" by (simp add: q_def start_goal_part)
  obtain f where att: "attempts_on h stopped_planner objective (pl_session q) = ((None, Some PlanAborted), f)"
    using dir by (simp add: three_attempts run_goal_planner_def spawn_planner_inherit is_explicit_def stopped_planner_def
        Let_def planner_inputs_def record_fail_closed_def)
  obtain s1 where s1: "plan_part s1 = (pa_plan f, Some (Active, None))"
    and run: "maybe_run_goal_planner h objective q = clear_planning h (settle_planner h
      (fst (resolve_planner h objective ?path None (Some PlanAborted) s1))
      (q\<lparr>pl_events := pl_events q @ pa_events f, pl_session := snd (resolve_planner h objective ?path None (Some PlanAborted) s1)\<rparr>))"
    using planning_run [OF on undisturbed part att] by auto
  have "status_of s1 = Some Active" by (simp add: plan_part_status s1)
  then have "status_of (pl_session (maybe_run_goal_planner h objective q)) = Some UserPaused"
    unfolding run plan_part_status plan_frame
    by (simp add: settle_planner_def resolve_planner_def pl_map_def plan_part_status [symmetric])
  then show ?thesis by (auto simp: setup_goal_def Let_def q_def tracker_status_def)
qed

text \<open>A separator in the objective does not come back as it was written.\<close>

theorem pipe_objective_respaced: "map dr_criterion (parse_dual_rows (fallback_plan_body ''a|b'')) = [''a | b'']"
  by code_simp

subsection \<open>Samples\<close>

definition failing_planner :: planner_host where
  "failing_planner = \<lparr>po_env = sample_env 9, po_enabled = True, po_coordinator = Some (\<lambda>req f. (SendFailed, f)),
     po_spawner = \<lparr>cs_parent_session_id = [], cs_parent_prompt_id = None, cs_cwd = None\<rparr>, po_new_id = show_nat, po_template = [],
     po_role_tools = inherit_defaults, po_model_id = [], po_dir_ok = (\<lambda>_. True), po_writable = True, po_copy_ok = True,
     po_mtime = (\<lambda>_. Some 1), po_latency = (\<lambda>_. 0), po_meanwhile = (\<lambda>s. s), po_goal_tool = None,
     po_names = \<lparr>tn_goal = ''update_goal'', tn_task = ''spawn_subagent'', tn_todo = ''todo_write''\<rparr>, po_rules_template = [],
     po_discipline_template = [], po_plan_block_template = []\<rparr>"

definition unplanned :: planner_state where
  "unplanned = \<lparr>pl_session = accepted_session, pl_baseline = None, pl_events = [], pl_continuation_streak = 2,
     pl_blocked_streak = 1, pl_turn_task_ids = [], pl_mode_updates = []\<rparr>"

lemma unplanned_goal:
  obtains g where "gt_orchestration (ss_tracker (pl_session unplanned)) = Some g" "go_status g = Active" "go_plan_file g = None"
  by (simp add: unplanned_def accepted_session_def running_goal_def map_orchestration_def create_goal_def Let_def record_event_def
      append_history_def new_orchestration_def tracker_new_def request_def)

theorem planning_yields_plan_witness:
  "\<exists>g' body. gt_orchestration (ss_tracker (pl_session (maybe_run_goal_planner failing_planner ''ship it'' unplanned))) = Some g'
    \<and> go_status g' = Active \<and> go_plan_file g' \<noteq> None
    \<and> ss_plan (pl_session (maybe_run_goal_planner failing_planner ''ship it'' unplanned)) = Some body \<and> body \<noteq> []"
proof -
  obtain g where g: "gt_orchestration (ss_tracker (pl_session unplanned)) = Some g" "go_status g = Active" "go_plan_file g = None"
    by (rule unplanned_goal)
  have h: "po_enabled failing_planner" "po_coordinator failing_planner = Some (\<lambda>req f. (SendFailed, f))"
    "never_cancelled (\<lambda>req f. (SendFailed, f))" "po_writable failing_planner"
    "\<forall>s. plan_part (po_meanwhile failing_planner s) = plan_part s"
    by (simp_all add: failing_planner_def never_cancelled_def)
  show ?thesis using planning_yields_plan [OF h g(1,3), of "''ship it''"] g(2) by auto
qed

definition paused_goal :: planner_state where
  "paused_goal = pl_map (on_tracker (map_orchestration (\<lambda>g. g\<lparr>go_status := Blocked, go_plan_file := Some ''/p''\<rparr>))) unplanned"

theorem resume_drives_active_goal_witness:
  "\<exists>reminder m p'. resume_goal failing_planner paused_goal = (ResumeInference reminder m, p')
    \<and> status_of (pl_session p') = Some Active \<and> pl_continuation_streak p' = 0 \<and> pl_blocked_streak p' = 0"
proof -
  obtain g where g: "gt_orchestration (ss_tracker (pl_session unplanned)) = Some g" by (rule unplanned_goal)
  have "\<exists>reminder p'. resume_goal failing_planner paused_goal = (ResumeInference reminder ''Goal resumed.'', p')"
    by (rule planned_goal_resumes [where g = "g\<lparr>go_status := Blocked, go_plan_file := Some ''/p''\<rparr>"])
      (simp_all add: paused_goal_def pl_map_def on_tracker_def map_orchestration_def g)
  then obtain reminder m p' where "resume_goal failing_planner paused_goal = (ResumeInference reminder m, p')" by blast
  from resume_drives_active_goal [OF this] this show ?thesis by blast
qed

end
