(* ===== verification/Summarizer.thy ===== *)
theory Summarizer
  imports Role_Spawn Session_Correct
begin

text \<open>
  The closing summary of a goal (\<^verbatim>\<open>crates/codegen/xai-grok-shell/src/session/goal_summarizer.rs\<close> and
  \<^verbatim>\<open>maybe_run_goal_summarizer\<close> of \<^verbatim>\<open>acp_session_impl/goal_support.rs\<close>): a reading agent is asked once, after the goal is
  complete, and what it answers is the last message. Every failure is logged and skipped.
\<close>

datatype GoalSummarizerFailReason = SumTransport | SumRuntime | SumAborted | EmptySummary

fun summarizer_fail_str :: "GoalSummarizerFailReason \<Rightarrow> string" where
  "summarizer_fail_str SumTransport = ''transport''"
| "summarizer_fail_str SumRuntime = ''runtime''"
| "summarizer_fail_str SumAborted = ''aborted''"
| "summarizer_fail_str EmptySummary = ''empty_summary''"

datatype GoalSummarizerOutcome = Summarized string nat | SummaryFailOpen GoalSummarizerFailReason nat

datatype summarizer_event =
    GoalSummarizerFired nat string
  | GoalSummarizerCompleted nat nat
  | GoalSummarizerFailOpen string nat nat

text \<open>The agent only reads, so the events are all the run changes.\<close>

record summarizer_host =
  su_enabled :: bool
  su_coordinator :: "(SubagentRequest \<Rightarrow> spawn_reply) option"
  su_spawner :: ChannelSpawner
  su_new_id :: string
  su_template :: string
  su_traces_dir :: string
  su_model_id :: string
  su_tool_names :: RoleToolNames
  su_latency :: nat

definition GOAL_SUMMARIZER_SUBAGENT_DESCRIPTION :: string where
  "GOAL_SUMMARIZER_SUBAGENT_DESCRIPTION = ''goal summarizer''"
definition GOAL_SUMMARIZER_SUMMARY_MAX_CHARS :: nat where "GOAL_SUMMARIZER_SUMMARY_MAX_CHARS = 1200"

record GoalSummarizerInputs =
  si_objective :: string
  si_plan_file :: string
  si_details_file :: "string option"
  si_session_traces_dir :: string
  si_attempt :: nat
  si_model_id :: string
  si_tool_names :: RoleToolNames

definition summarizer_request ::
    "ChannelSpawner \<Rightarrow> string \<Rightarrow> string option \<Rightarrow> string option \<Rightarrow> string \<Rightarrow> SubagentRequest" where
  "summarizer_request sp i model harness prompt =
     \<lparr>sr_id = i, sr_prompt = prompt, sr_description = GOAL_SUMMARIZER_SUBAGENT_DESCRIPTION,
      sr_subagent_type = GOAL_ROLE_SUBAGENT_TYPE, sr_parent_session_id = cs_parent_session_id sp,
      sr_parent_prompt_id = cs_parent_prompt_id sp, sr_resume_from = None, sr_cwd = cs_cwd sp,
      sr_runtime_overrides = default_overrides\<lparr>ov_model := model, ov_harness_agent_type := harness,
        ov_capability_mode := Some ReadOnly\<rparr>,
      sr_run_in_background = False, sr_surface_completion = False, sr_fork_context = False\<rparr>"

definition summarizer_send_one ::
    "(SubagentRequest \<Rightarrow> spawn_reply) \<Rightarrow> ChannelSpawner \<Rightarrow> string
     \<Rightarrow> string option \<Rightarrow> string option \<Rightarrow> string \<Rightarrow> (spawned \<Rightarrow> ('s, 'r) act) \<Rightarrow> ('s, 'r) act" where
  "summarizer_send_one coordinator sp i model harness prompt k =
     Access (\<lambda>s. (s, k (spawn_result (coordinator (summarizer_request sp i model harness prompt)))))"

text \<open>The summarizer has no configured model, so the spawn is never repeated.\<close>

definition spawn_summarizer :: "summarizer_host \<Rightarrow> (SubagentRequest \<Rightarrow> spawn_reply) \<Rightarrow> RoleRenderedPrompt \<Rightarrow> spawned" where
  "spawn_summarizer h coordinator prompt =
     fst (run_alone (spawn_with_fail_open_retry \<lparr>so_model = None, so_agent_type = None\<rparr> id prompt
       (summarizer_send_one coordinator (su_spawner h) (su_new_id h)) Ret) (\<lambda>i. 0) ())"

definition render_summarizer_prompt :: "summarizer_host \<Rightarrow> GoalSummarizerInputs \<Rightarrow> string" where
  "render_summarizer_prompt h i =
     apply_tool_names (si_tool_names i)
       (replace_all ''{SESSION_TRACES_DIR}'' (si_session_traces_dir i)
          (replace_all ''{DETAILS_FILE}'' (case si_details_file i of Some d \<Rightarrow> d | None \<Rightarrow> ''(unavailable)'')
             (replace_all ''{PLAN_FILE}'' (si_plan_file i) (su_template h))))
     @ [NL, NL] @ ''OBJECTIVE:'' @ [NL] @ si_objective i @ [NL]"

definition clip_summary :: "string \<Rightarrow> string" where
  "clip_summary trimmed =
     (let summary = take_chars GOAL_SUMMARIZER_SUMMARY_MAX_CHARS trimmed
      in if length summary < length trimmed then summary @ '' ['' @ ELLIPSIS @ '']'' else summary)"

definition summarizer_record_fail_open ::
    "summarizer_host \<Rightarrow> GoalSummarizerFailReason \<Rightarrow> nat \<Rightarrow> summarizer_event list
     \<Rightarrow> GoalSummarizerOutcome \<times> summarizer_event list" where
  "summarizer_record_fail_open h reason attempt evs =
     (SummaryFailOpen reason (su_latency h), evs @ [GoalSummarizerFailOpen (summarizer_fail_str reason) attempt (su_latency h)])"

definition run_goal_summarizer ::
    "summarizer_host \<Rightarrow> (SubagentRequest \<Rightarrow> spawn_reply) \<Rightarrow> GoalSummarizerInputs \<Rightarrow> summarizer_event list
     \<Rightarrow> GoalSummarizerOutcome \<times> summarizer_event list" where
  "run_goal_summarizer h coordinator i evs =
     (let evs = evs @ [GoalSummarizerFired (si_attempt i) (si_model_id i)]
      in case spawn_summarizer h coordinator \<lparr>rp_primary = render_summarizer_prompt h i, rp_fallback = []\<rparr> of
           Inl (TransportError detail) \<Rightarrow> summarizer_record_fail_open h SumTransport (si_attempt i) evs
         | Inl (RuntimeError message cancelled) \<Rightarrow>
             summarizer_record_fail_open h (if cancelled then SumAborted else SumRuntime) (si_attempt i) evs
         | Inr response \<Rightarrow>
             (let trimmed = trim response
              in if trimmed = [] then summarizer_record_fail_open h EmptySummary (si_attempt i) evs
                 else (Summarized (clip_summary trimmed) (su_latency h),
                       evs @ [GoalSummarizerCompleted (si_attempt i) (su_latency h)])))"

text \<open>The call of the session; the first component is the message it sends.\<close>

definition maybe_run_goal_summarizer ::
    "summarizer_host \<Rightarrow> nat \<Rightarrow> Session \<Rightarrow> summarizer_event list \<Rightarrow> string option \<times> summarizer_event list" where
  "maybe_run_goal_summarizer h attempt s evs =
     (case (su_enabled h, su_coordinator h, gt_orchestration (ss_tracker s)) of
        (True, Some coordinator, Some g) \<Rightarrow>
          (case run_goal_summarizer h coordinator
                  \<lparr>si_objective = go_objective g, si_plan_file = plan_path (ss_tracker s),
                   si_details_file = go_last_classifier_details_path g, si_session_traces_dir = su_traces_dir h,
                   si_attempt = attempt, si_model_id = su_model_id h, si_tool_names = su_tool_names h\<rparr> evs of
             (Summarized summary latency, evs) \<Rightarrow> (Some summary, evs)
           | (SummaryFailOpen reason latency, evs) \<Rightarrow> (None, evs))
      | _ \<Rightarrow> (None, evs))"

subsection \<open>What is surfaced\<close>

lemma take_chars_count: "char_count (take_chars n s) \<le> n"
  by (simp add: char_count_take_chars)

lemma take_chars_whole: "char_count s \<le> n \<Longrightarrow> take_chars n s = s"
  by (induction n s rule: take_chars.induct) (auto simp: char_count_def split: nat.splits if_splits)

lemma take_chars_prefix: "\<exists>r. s = take_chars n s @ r"
  by (induction n s rule: take_chars.induct) (auto split: nat.splits)

lemma take_chars_nonempty: "s \<noteq> [] \<Longrightarrow> 0 < n \<Longrightarrow> take_chars n s \<noteq> []"
  by (cases s) (auto split: nat.splits)

text \<open>The marker is added exactly when something was cut off.\<close>

lemma clip_summary_eq:
  "clip_summary s = (if char_count s \<le> GOAL_SUMMARIZER_SUMMARY_MAX_CHARS then s
     else take_chars GOAL_SUMMARIZER_SUMMARY_MAX_CHARS s @ '' ['' @ ELLIPSIS @ '']'')"
proof (cases "char_count s \<le> GOAL_SUMMARIZER_SUMMARY_MAX_CHARS")
  case False
  obtain r where r: "s = take_chars GOAL_SUMMARIZER_SUMMARY_MAX_CHARS s @ r" using take_chars_prefix by blast
  with False take_chars_count [of GOAL_SUMMARIZER_SUMMARY_MAX_CHARS s] have "r \<noteq> []" by (metis append_Nil2)
  then have "length (take_chars GOAL_SUMMARIZER_SUMMARY_MAX_CHARS s) < length s"
    using r by (metis length_append length_greater_0_conv less_add_same_cancel1)
  with False show ?thesis by (simp add: clip_summary_def Let_def)
qed (simp add: clip_summary_def take_chars_whole)

lemma spawn_summarizer_once:
  "spawn_summarizer h coordinator prompt =
     spawn_result (coordinator (summarizer_request (su_spawner h) (su_new_id h) None None (rp_primary prompt)))"
  by (simp add: spawn_summarizer_def spawn_with_fail_open_retry_def summarizer_send_one_def is_explicit_def run_alone_Access)

text \<open>
  A summary that is surfaced is never empty and at most 1204 characters long, and the run that gave it is two events.
\<close>

theorem summary_bounded:
  assumes "maybe_run_goal_summarizer h attempt s evs = (Some summary, evs')"
  shows "summary \<noteq> [] \<and> char_count summary \<le> GOAL_SUMMARIZER_SUMMARY_MAX_CHARS + 4
    \<and> length evs' = length evs + 2"
proof -
  obtain trimmed where t: "trimmed \<noteq> []" "summary = clip_summary trimmed"
    using assms by (auto simp: maybe_run_goal_summarizer_def run_goal_summarizer_def summarizer_record_fail_open_def Let_def
        split: bool.splits option.splits sum.splits SpawnError.splits if_splits)
  have "char_count (take_chars GOAL_SUMMARIZER_SUMMARY_MAX_CHARS trimmed @ '' ['' @ ELLIPSIS @ '']'')
      = char_count (take_chars GOAL_SUMMARIZER_SUMMARY_MAX_CHARS trimmed) + 4"
    by (simp add: char_count_def utf8_cont_def)
  with t take_chars_count [of GOAL_SUMMARIZER_SUMMARY_MAX_CHARS trimmed]
  have "summary \<noteq> [] \<and> char_count summary \<le> GOAL_SUMMARIZER_SUMMARY_MAX_CHARS + 4"
    by (simp add: clip_summary_eq)
  moreover have "length evs' = length evs + 2"
    using assms by (auto simp: maybe_run_goal_summarizer_def run_goal_summarizer_def summarizer_record_fail_open_def Let_def
        split: bool.splits option.splits sum.splits SpawnError.splits if_splits)
  ultimately show ?thesis by blast
qed

text \<open>The summarizer cannot undo a completion: with it in place, marking a task done leaves the goal complete.\<close>

theorem summary_keeps_completion:
  assumes "status_of s = Some Active" and "fresh_view s"
  shows "status_of (doggy_mark_task_done (h\<lparr>ho_summarizer := \<lambda>n s. fst (maybe_run_goal_summarizer su n s evs)\<rparr>) s) = Some Complete"
  by (rule mark_task_done(1) [OF assms])

end
