(* ===== verification/Goal_Update.thy ===== *)
theory Goal_Update
  imports Drain_Correct
begin

text \<open>
  The tool \<^verbatim>\<open>update_goal\<close> the model calls (\<^verbatim>\<open>run\<close>, \<^verbatim>\<open>render_ack_into_output\<close>, \<^verbatim>\<open>build_summary\<close> and
  \<^verbatim>\<open>RejectReason::error_code\<close> of
  \<^verbatim>\<open>crates/codegen/xai-grok-tools/src/implementations/grok_build/update_goal/mod.rs\<close>): it posts a claim, waits for the
  reply of the drain and renders it. A call is answered from the drain's replies; a claim without one ends in an
  error of its own. What is shown: in a drain that ran to its end, every call of the tool ends with the rendered reply
  to its claim; and a rejected claim is never reported as a success, with the one exception of a verification that
  could not be carried out.
\<close>

subsection \<open>The tool\<close>

record UpdateGoalOutput =
  uo_success :: bool
  uo_summary :: string

record ToolError =
  te_kind :: string
  te_message :: string

definition tool_error :: "string \<Rightarrow> string \<Rightarrow> ToolError + UpdateGoalOutput" where
  "tool_error kind message = Inl \<lparr>te_kind = kind, te_message = message\<rparr>"

definition tool_success :: "string \<Rightarrow> ToolError + UpdateGoalOutput" where
  "tool_success summary = Inr \<lparr>uo_success = True, uo_summary = summary\<rparr>"

fun error_code :: "RejectReason \<Rightarrow> string" where
  "error_code BlockSeenInDrain = ''goal_update_block_seen''"
| "error_code BlockedAgainstNonActive = ''goal_update_blocked_against_non_active''"
| "error_code PostCap = ''goal_update_post_cap''"
| "error_code NonActive = ''goal_update_non_active''"
| "error_code HarnessDisabled = ''goal_update_harness_disabled''"
| "error_code PendingQueueEvicted = ''goal_update_evicted''"
| "error_code DroppedAfterPauseInDrain = ''goal_update_dropped_after_pause''"
| "error_code OrchestrationVanished = ''goal_update_no_orchestration''"
| "error_code StatusChangedDuringClassifier = ''goal_update_status_changed''"
| "error_code InFlightOrchestrationVanished = ''goal_update_in_flight_orchestration_vanished''"
| "error_code ExecChecklistIncomplete = ''goal_update_exec_checklist_incomplete''"

definition build_summary :: "UpdateGoalInput \<Rightarrow> string" where
  "build_summary input =
     (let parts = (if ug_completed input = Some True then [''Goal marked complete''] else [])
            @ (case ug_blocked_reason input of Some reason \<Rightarrow> [''Goal blocked: '' @ reason] | None \<Rightarrow> [])
            @ (case ug_message input of Some msg \<Rightarrow> [msg] | None \<Rightarrow> [])
      in if parts = [] then ''Goal updated.'' else join ''. '' parts @ ''.'')"

fun render_ack_into_output :: "UpdateGoalAck \<Rightarrow> ToolError + UpdateGoalOutput" where
  "render_ack_into_output (Accepted summary) = tool_success summary"
| "render_ack_into_output CompletedWithoutClassifier = tool_success ''Goal marked complete.''"
| "render_ack_into_output (ClassifierAchieved details_path) =
     tool_success (''Goal classifier verdict: Achieved. Goal complete. See '' @ details_path)"
| "render_ack_into_output (ClassifierFailOpenAchieved reason) =
     tool_success (''Goal marked complete via fail-open (reason: '' @ reason @ ''). No classifier verdict ''
       @ ''was produced.'')"
| "render_ack_into_output (ClassifierNotAchieved details_path attempt max_runs) =
     tool_error ''goal_classifier_not_achieved''
       (''Goal classifier rejected this completion attempt ('' @ show_nat attempt @ ''/'' @ show_nat max_runs @ ''). ''
        @ ''Review '' @ details_path @ '' and continue working; another attempt is available.'')"
| "render_ack_into_output (ClassifierCapReached details_path attempt) =
     tool_error ''goal_classifier_cap_reached''
       (''Goal classifier rejected completion '' @ show_nat attempt @ '' times '' @ EM_DASH @ '' goal auto-paused.''
        @ (if trim details_path = [] then [] else '' See '' @ details_path))"
| "render_ack_into_output (ClassifierStalled details_path attempt) =
     tool_error ''goal_classifier_stalled''
       (''Goal verification saw no change in the flagged gaps across '' @ show_nat attempt @ '' attempts ''
        @ EM_DASH @ '' goal auto-paused. Review '' @ details_path @ ''; the user must resume.'')"
| "render_ack_into_output (ClassifierBlocked details_path) =
     tool_error ''goal_classifier_blocked''
       (''Goal verification found no model-fixable path (objective/plan contradiction or ''
        @ ''evidence that cannot be captured here) '' @ EM_DASH @ '' goal paused for your decision. ''
        @ ''See '' @ details_path)"
| "render_ack_into_output (ClassifierConcurrentInFlight details_path attempt max_runs) =
     tool_error ''goal_classifier_in_flight''
       (''Goal classifier is still verifying a previous completion '' @ EM_DASH @ '' do NOT call ''
        @ ''update_goal(completed: true) again until you receive a verdict reminder. ''
        @ ''This attempt was recorded as Not Achieved ('' @ show_nat attempt @ ''/'' @ show_nat max_runs @ '')''
        @ (if trim details_path = [] then [] else ''; see '' @ details_path))"
| "render_ack_into_output (DeferredToTurnEnd pending_depth) =
     tool_success (''Goal completion queued for classifier verification at end of turn ''
       @ ''(pending_depth='' @ show_nat pending_depth @ ''). The verdict will be delivered as a ''
       @ ''system reminder before your next reply; do NOT call update_goal ''
       @ ''again until you see it.'')"
| "render_ack_into_output (Rejected reason detail) = tool_error (error_code reason) detail"

text \<open>
  A call: \<open>registered\<close> says whether the handle of the channel is there, \<open>is_open\<close> whether the channel takes the claim, and
  \<open>reply\<close> is what came back on its slot (nothing when the slot was dropped).
\<close>

definition update_goal_run :: "bool \<Rightarrow> bool \<Rightarrow> UpdateGoalAck option \<Rightarrow> UpdateGoalInput \<Rightarrow> ToolError + UpdateGoalOutput" where
  "update_goal_run registered is_open reply input =
     (if \<not> registered then
        tool_error ''goal_not_active'' ''No active goal to update (GoalUpdateHandle not registered)''
      else if \<not> is_open then
        tool_error ''goal_channel_closed''
          (''Goal update channel closed '' @ EM_DASH @ '' the session may be shutting down'')
      else case reply of
        None \<Rightarrow>
          tool_error ''harness_no_ack''
            (''Goal-update harness dropped the response channel before producing an ''
             @ ''ack. This is a harness-side bug; the goal may not have been updated. ''
             @ ''Original intent: '' @ build_summary input)
      | Some ack \<Rightarrow> render_ack_into_output ack)"

subsection \<open>What the model is told\<close>

lemmas tool_result = tool_error_def tool_success_def

lemma error_code_inj: "error_code r = error_code r' \<longleftrightarrow> r = r'"
  by (cases r; cases r'; simp)

text \<open>The reply to a claim is the first reply on its slot.\<close>

definition reply_on :: "nat \<Rightarrow> 'r drain_state \<Rightarrow> UpdateGoalAck option" where
  "reply_on tx d = map_of (dn_acks d) tx"

text \<open>
  A call whose claim was in a drain that ran to its end is answered with the rendered reply: the error for a dropped slot is
  never seen.
\<close>

theorem call_answered:
  assumes "drain_goal_updates_with_extra h n purpose extra d = (False, d')" and "(input, tx) \<in> set (extra @ dn_channel d)"
  shows "\<exists>ack. reply_on tx d' = Some ack \<and> update_goal_run True True (reply_on tx d') input = render_ack_into_output ack"
proof -
  have "map fst (dn_acks d') = map fst (dn_acks d) @ map snd (extra @ dn_channel d)"
    using drain_answers [of h n purpose extra d] assms(1) by auto
  moreover have "tx \<in> set (map snd (extra @ dn_channel d))" using assms(2) by force
  ultimately have "tx \<in> fst ` set (dn_acks d')" by (metis Un_iff list.set_map set_append)
  then obtain ack where "map_of (dn_acks d') tx = Some ack" by (metis map_of_eq_None_iff option.exhaust)
  then show ?thesis by (simp add: reply_on_def update_goal_run_def)
qed

text \<open>A panel that rejects makes the call fail.\<close>

lemma rejection_fails_call:
  assumes "\<And>dp. outcome \<noteq> GoalClassifierOutcome.Achieved dp" and "\<And>reason dp. outcome \<noteq> FailOpenAchieved reason dp"
  shows "\<exists>e. render_ack_into_output (fst (apply_classifier_outcome h policy a outcome d)) = Inl e"
proof (cases outcome)
  case (NotAchieved dp gaps fs ps fp)
  have ladder: "fst (stall_ladder h dp fs ps fp a d1) = Inl ack \<Longrightarrow> ack = ClassifierStalled dp a" for d1 ack
    by (auto simp: stall_ladder_def Let_def split_beta split: if_splits)
  have "fst (apply_not_achieved h policy a dp gaps fs ps fp d1) \<in>
      {ClassifierCapReached dp a, ClassifierStalled dp a, ClassifierNotAchieved dp a (cp_max_runs policy)}" for d1
    using ladder
    by (auto simp: apply_not_achieved_def Let_def split_beta split: prod.splits sum.splits)
  then show ?thesis using NotAchieved
    by (auto simp: apply_classifier_outcome_def Let_def tool_result dest: spec [of _ "count_tokens d"])
       (metis (no_types, lifting) render_ack_into_output.simps(5-7) insertE singletonD tool_error_def)
next
  case (BlockedOutcome dp ps)
  then show ?thesis by (simp add: apply_classifier_outcome_def apply_blocked_def Let_def tool_result)
qed (use assms in auto)

text \<open>
  A verification that could not be carried out is recorded as not achieved and the goal stays as it was, but the model is
  told that the call succeeded and the goal is complete.
\<close>

theorem fail_open_told_complete:
  assumes "gt_orchestration (ss_tracker (dn_session d)) = Some g"
    and "apply_classifier_outcome h policy a (FailOpenAchieved reason dp) d = (ack, d')"
  shows "verdict_of (dn_session d') = Some VerdictNotAchieved" and "status_of (dn_session d') = Some (go_status g)"
    and "render_ack_into_output ack = Inr \<lparr>uo_success = True, uo_summary =
      ''Goal marked complete via fail-open (reason: '' @ fail_open_str reason @ ''). No classifier verdict was produced.''\<rparr>"
proof -
  have key: "dkey d = Some (go_status g, go_last_classifier_verdict g)" using assms(1) by (simp add: tkey_def)
  have "dkey d' = Some (go_status g, Some VerdictNotAchieved)"
    using assms(2) by (auto simp: apply_classifier_outcome_def apply_fail_open_def count_tokens_def Let_def key)
  then show "verdict_of (dn_session d') = Some VerdictNotAchieved" "status_of (dn_session d') = Some (go_status g)"
    by (simp_all add: verdict_key tkey_status)
  show "render_ack_into_output ack = Inr \<lparr>uo_success = True, uo_summary =
      ''Goal marked complete via fail-open (reason: '' @ fail_open_str reason @ ''). No classifier verdict was produced.''\<rparr>"
    using assms(2) by (auto simp: apply_classifier_outcome_def apply_fail_open_def Let_def tool_result)
qed

end
