(* ===== verification/Plan_Lock.thy ===== *)
theory Plan_Lock
  imports Checklist
begin

text \<open>
  The lock of a plan file (\<^verbatim>\<open>crates/codegen/xai-grok-shell/src/session/goal_plan_write.rs\<close>): a registry with one mutex per
  path, made on first use, and \<^verbatim>\<open>with_plan_lock\<close>, which runs a whole read-modify-write while it holds the mutex of its path.
  Writers are threads; a step of the system is one access of one thread to shared state: to the registry (under its own
  mutex), to the mutex of a path, or to the file. What is shown, for every interleaving: the edits of one file are
  carried out one after the other, none is lost, and the system cannot get stuck.
\<close>

subsection \<open>Writers and their steps\<close>

text \<open>A writer reads the body at its path and writes the edited body back.\<close>

record writer =
  wr_path :: string
  wr_edit :: "string option \<Rightarrow> string option"

text \<open>Where a writer is in \<^verbatim>\<open>with_plan_lock\<close>; the number is the mutex it got from the registry.\<close>

datatype stage =
    Start
  | Queued nat
  | Locked nat
  | HasRead nat "string option"
  | HasWritten nat
  | Finished

text \<open>
  The registry, how many mutexes were made, which of them are held, the files and the stages; the last field is a ghost: the
  writers in the order of their writes.
\<close>

record plan_world =
  pw_locks :: "string \<Rightarrow> nat option"
  pw_made :: nat
  pw_held :: "nat set"
  pw_files :: "string \<Rightarrow> string option"
  pw_stage :: "nat \<Rightarrow> stage"
  pw_log :: "nat list"

definition lock_for :: "string \<Rightarrow> plan_world \<Rightarrow> nat \<times> plan_world" where
  "lock_for path w =
     (case pw_locks w path of
        Some l \<Rightarrow> (l, w)
      | None \<Rightarrow> (pw_made w, w\<lparr>pw_locks := (pw_locks w)(path \<mapsto> pw_made w), pw_made := pw_made w + 1\<rparr>))"

definition goto :: "nat \<Rightarrow> stage \<Rightarrow> plan_world \<Rightarrow> plan_world" where
  "goto i st w = w\<lparr>pw_stage := (pw_stage w)(i := st)\<rparr>"

text \<open>The next access of writer \<open>i\<close>: \<open>None\<close> when it has to wait or is through.\<close>

definition with_plan_lock :: "writer \<Rightarrow> nat \<Rightarrow> plan_world \<Rightarrow> plan_world option" where
  "with_plan_lock wr i w =
     (case pw_stage w i of
        Start \<Rightarrow> (let (l, w) = lock_for (wr_path wr) w in Some (goto i (Queued l) w))
      | Queued l \<Rightarrow> if l \<in> pw_held w then None else Some (goto i (Locked l) (w\<lparr>pw_held := insert l (pw_held w)\<rparr>))
      | Locked l \<Rightarrow> Some (goto i (HasRead l (pw_files w (wr_path wr))) w)
      | HasRead l body \<Rightarrow>
          Some (goto i (HasWritten l) (w\<lparr>pw_files := (pw_files w)(wr_path wr := wr_edit wr body), pw_log := pw_log w @ [i]\<rparr>))
      | HasWritten l \<Rightarrow> Some (goto i Finished (w\<lparr>pw_held := pw_held w - {l}\<rparr>))
      | Finished \<Rightarrow> None)"

definition plan_start :: "(string \<Rightarrow> string option) \<Rightarrow> plan_world" where
  "plan_start files =
     \<lparr>pw_locks = Map.empty, pw_made = 0, pw_held = {}, pw_files = files, pw_stage = (\<lambda>_. Start), pw_log = []\<rparr>"

inductive plan_reachable :: "writer list \<Rightarrow> (string \<Rightarrow> string option) \<Rightarrow> plan_world \<Rightarrow> bool" for ws files where
  start: "plan_reachable ws files (plan_start files)"
| step: "plan_reachable ws files w \<Longrightarrow> i < length ws \<Longrightarrow> with_plan_lock (ws ! i) i w = Some w' \<Longrightarrow> plan_reachable ws files w'"

subsection \<open>The invariant\<close>

fun holds :: "stage \<Rightarrow> nat option" where
  "holds (Locked l) = Some l"
| "holds (HasRead l body) = Some l"
| "holds (HasWritten l) = Some l"
| "holds _ = None"

fun knows :: "stage \<Rightarrow> nat option" where
  "knows (Queued l) = Some l"
| "knows st = holds st"

fun wrote :: "stage \<Rightarrow> bool" where
  "wrote (HasWritten l) = True"
| "wrote Finished = True"
| "wrote _ = False"

text \<open>The edits of one file, in the order of a log.\<close>

definition edited :: "writer list \<Rightarrow> string \<Rightarrow> nat list \<Rightarrow> string option \<Rightarrow> string option" where
  "edited ws path order body = fold (\<lambda>i. wr_edit (ws ! i)) (filter (\<lambda>i. wr_path (ws ! i) = path) order) body"

definition registry_ok :: "writer list \<Rightarrow> plan_world \<Rightarrow> bool" where
  "registry_ok ws w \<longleftrightarrow>
     (\<forall>p l. pw_locks w p = Some l \<longrightarrow> l < pw_made w)
     \<and> (\<forall>p q l. pw_locks w p = Some l \<longrightarrow> pw_locks w q = Some l \<longrightarrow> p = q)
     \<and> (\<forall>i<length ws. \<forall>l. knows (pw_stage w i) = Some l \<longrightarrow> pw_locks w (wr_path (ws ! i)) = Some l)"

definition mutex_ok :: "writer list \<Rightarrow> plan_world \<Rightarrow> bool" where
  "mutex_ok ws w \<longleftrightarrow>
     (\<forall>l. l \<in> pw_held w \<longleftrightarrow> (\<exists>i<length ws. holds (pw_stage w i) = Some l))
     \<and> (\<forall>i<length ws. \<forall>j<length ws. \<forall>l. holds (pw_stage w i) = Some l \<longrightarrow> holds (pw_stage w j) = Some l \<longrightarrow> i = j)"

definition files_ok :: "writer list \<Rightarrow> (string \<Rightarrow> string option) \<Rightarrow> plan_world \<Rightarrow> bool" where
  "files_ok ws files w \<longleftrightarrow>
     (\<forall>i<length ws. \<forall>l body. pw_stage w i = HasRead l body \<longrightarrow> body = pw_files w (wr_path (ws ! i)))
     \<and> distinct (pw_log w) \<and> set (pw_log w) = {i. i < length ws \<and> wrote (pw_stage w i)}
     \<and> (\<forall>p. pw_files w p = edited ws p (pw_log w) (files p))"

lemma holds_knows: "holds st = Some l \<Longrightarrow> knows st = Some l"
  by (cases st) auto

lemma edited_append: "edited ws p (order @ [i]) body =
    (if wr_path (ws ! i) = p then wr_edit (ws ! i) (edited ws p order body) else edited ws p order body)"
  by (simp add: edited_def)

lemma with_plan_lock_cases:
  assumes "with_plan_lock wr i w = Some w'"
  obtains l v where "pw_stage w i = Start" "lock_for (wr_path wr) w = (l, v)" "w' = goto i (Queued l) v"
  | l where "pw_stage w i = Queued l" "l \<notin> pw_held w" "w' = goto i (Locked l) (w\<lparr>pw_held := insert l (pw_held w)\<rparr>)"
  | l where "pw_stage w i = Locked l" "w' = goto i (HasRead l (pw_files w (wr_path wr))) w"
  | l body where "pw_stage w i = HasRead l body"
      "w' = goto i (HasWritten l) (w\<lparr>pw_files := (pw_files w)(wr_path wr := wr_edit wr body), pw_log := pw_log w @ [i]\<rparr>)"
  | l where "pw_stage w i = HasWritten l" "w' = goto i Finished (w\<lparr>pw_held := pw_held w - {l}\<rparr>)"
  using assms by (auto simp: with_plan_lock_def split: stage.splits if_splits prod.splits)

lemma goto_simps [simp]:
  "pw_locks (goto i st w) = pw_locks w" "pw_made (goto i st w) = pw_made w" "pw_held (goto i st w) = pw_held w"
  "pw_files (goto i st w) = pw_files w" "pw_log (goto i st w) = pw_log w"
  "pw_stage (goto i st w) j = (if j = i then st else pw_stage w j)"
  by (simp_all add: goto_def)

text \<open>Asking the registry changes nothing else, and gives the only mutex of the path.\<close>

lemma lock_for_frame:
  assumes "lock_for path w = (l, v)"
  shows "pw_stage v = pw_stage w" "pw_held v = pw_held w" "pw_files v = pw_files w" "pw_log v = pw_log w"
    "pw_locks v path = Some l" "\<And>p l'. pw_locks w p = Some l' \<Longrightarrow> pw_locks v p = Some l'"
  using assms by (auto simp: lock_for_def split: option.splits)

lemma registry_lock_for:
  assumes ok: "registry_ok ws w" and eq: "lock_for path w = (l, v)"
  shows "registry_ok ws v"
proof (cases "pw_locks w path")
  case (Some m)
  then show ?thesis using ok eq by (simp add: lock_for_def)
next
  case None
  then have v: "v = w\<lparr>pw_locks := (pw_locks w)(path \<mapsto> pw_made w), pw_made := pw_made w + 1\<rparr>"
    using eq by (auto simp: lock_for_def)
  have "\<And>p l. pw_locks w p = Some l \<Longrightarrow> l < pw_made w" using ok by (simp add: registry_ok_def)
  then show ?thesis using ok None unfolding registry_ok_def v
    by (auto simp: less_SucI split: if_splits)
qed

lemma registry_step:
  assumes ok: "registry_ok ws w" and i: "i < length ws" and step: "with_plan_lock (ws ! i) i w = Some w'"
  shows "registry_ok ws w'"
proof -
  have keep: "registry_ok ws (goto i st v)"
    if "registry_ok ws v" "\<And>l. knows st = Some l \<Longrightarrow> pw_locks v (wr_path (ws ! i)) = Some l" for st v
    using that by (auto simp: registry_ok_def)
  have known: "knows (pw_stage w i) = Some l \<Longrightarrow> pw_locks w (wr_path (ws ! i)) = Some l" for l
    using ok i by (simp add: registry_ok_def)
  show ?thesis using step
  proof (cases rule: with_plan_lock_cases)
    case (1 l v)
    then show ?thesis using registry_lock_for [OF ok 1(2)] lock_for_frame(5) [OF 1(2)] by (auto intro: keep)
  qed (use ok known in \<open>auto intro!: keep simp: registry_ok_def\<close>)
qed

lemma mutex_step:
  assumes ok: "mutex_ok ws w" and i: "i < length ws" and step: "with_plan_lock (ws ! i) i w = Some w'"
  shows "mutex_ok ws w'"
proof -
  have held: "l \<in> pw_held w \<longleftrightarrow> (\<exists>j<length ws. holds (pw_stage w j) = Some l)" for l
    using ok by (simp add: mutex_ok_def)
  have one: "j = k" if "j < length ws" "k < length ws" "holds (pw_stage w j) = Some l" "holds (pw_stage w k) = Some l" for j k l
    using ok that by (simp add: mutex_ok_def)
  have same: "mutex_ok ws v" if "pw_held v = pw_held w" "\<And>j. holds (pw_stage v j) = holds (pw_stage w j)" for v
    using ok that by (simp add: mutex_ok_def)
  have moved: "mutex_ok ws w'"
    if stage: "\<And>j. holds (pw_stage w' j) = (if j = i then st else holds (pw_stage w j))"
      and free: "\<And>l j. st = Some l \<Longrightarrow> j < length ws \<Longrightarrow> holds (pw_stage w j) \<noteq> Some l"
      and now: "\<And>l. l \<in> pw_held w' \<longleftrightarrow> st = Some l \<or> (\<exists>j<length ws. j \<noteq> i \<and> holds (pw_stage w j) = Some l)" for st
    unfolding mutex_ok_def
  proof (intro conjI allI impI)
    show "l \<in> pw_held w' \<longleftrightarrow> (\<exists>j<length ws. holds (pw_stage w' j) = Some l)" for l
      unfolding now stage using i by auto
    show "j = k" if "j < length ws" "k < length ws" "holds (pw_stage w' j) = Some l" "holds (pw_stage w' k) = Some l" for j k l
      using that free one by (auto simp: stage split: if_splits)
  qed
  show ?thesis using step
  proof (cases rule: with_plan_lock_cases)
    case (1 l v)
    then show ?thesis using lock_for_frame [OF 1(2)] by (auto intro!: same)
  next
    case (2 l)
    have free: "holds (pw_stage w j) \<noteq> Some l" if "j < length ws" for j using 2(2) held that by blast
    have "m \<in> pw_held w' \<longleftrightarrow> l = m \<or> (\<exists>j<length ws. j \<noteq> i \<and> holds (pw_stage w j) = Some m)" for m
      using 2 held [of m] by auto
    then show ?thesis using 2 free by (intro moved [of "Some l"]) auto
  next
    case (5 l)
    have h: "holds (pw_stage w i) = Some l" using 5 by simp
    have "m \<in> pw_held w' \<longleftrightarrow> (\<exists>j<length ws. j \<noteq> i \<and> holds (pw_stage w j) = Some m)" for m
    proof (cases "m = l")
      case True
      have "j = i" if "j < length ws" "holds (pw_stage w j) = Some l" for j using one [OF that(1) i that(2) h] .
      then show ?thesis using True 5(2) by auto
    next
      case False
      then have "m \<in> pw_held w' \<longleftrightarrow> m \<in> pw_held w" using 5(2) by simp
      moreover have "holds (pw_stage w i) \<noteq> Some m" using h False by simp
      ultimately show ?thesis unfolding held [of m] by metis
    qed
    then show ?thesis using 5 by (intro moved [of None]) auto
  qed (auto intro!: same)
qed

lemma files_step:
  assumes ok: "files_ok ws files w" and reg: "registry_ok ws w" and mutex: "mutex_ok ws w"
    and i: "i < length ws" and step: "with_plan_lock (ws ! i) i w = Some w'"
  shows "files_ok ws files w'"
proof -
  have same: "files_ok ws files v"
    if "pw_files v = pw_files w" "pw_log v = pw_log w" "\<And>j. wrote (pw_stage v j) = wrote (pw_stage w j)"
      "\<And>j l body. pw_stage v j = HasRead l body \<Longrightarrow> pw_stage w j = HasRead l body \<or> body = pw_files w (wr_path (ws ! j))" for v
    using ok that unfolding files_ok_def by (auto; metis)
  show ?thesis using step
  proof (cases rule: with_plan_lock_cases)
    case (1 l v)
    then show ?thesis using lock_for_frame [OF 1(2)] by (auto intro!: same split: if_splits)
  next
    case (4 l body)
    have body: "body = pw_files w (wr_path (ws ! i))" and fresh: "i \<notin> set (pw_log w)" using ok i 4 by (auto simp: files_ok_def)
    have other: "wr_path (ws ! j) \<noteq> wr_path (ws ! i)" if "j < length ws" "j \<noteq> i" "pw_stage w j = HasRead m b" for j m b
    proof
      assume p: "wr_path (ws ! j) = wr_path (ws ! i)"
      have "knows (pw_stage w i) = Some l" "knows (pw_stage w j) = Some m" using 4 that by simp_all
      then have "pw_locks w (wr_path (ws ! i)) = Some l" "pw_locks w (wr_path (ws ! j)) = Some m"
        using reg i that(1) by (simp_all add: registry_ok_def)
      then have "holds (pw_stage w i) = Some l" "holds (pw_stage w j) = Some l" using 4 that p by simp_all
      then show False using mutex i that(1,2) by (auto simp: mutex_ok_def)
    qed
    show ?thesis unfolding files_ok_def
    proof (intro conjI allI impI)
      show "b = pw_files w' (wr_path (ws ! j))" if "j < length ws" "pw_stage w' j = HasRead m b" for j m b
        using that ok other [OF that(1)] 4 by (auto simp: files_ok_def split: if_splits)
      show "distinct (pw_log w')" "set (pw_log w') = {j. j < length ws \<and> wrote (pw_stage w' j)}"
        using ok fresh i 4 by (auto simp: files_ok_def)
      show "pw_files w' p = edited ws p (pw_log w') (files p)" for p
        using ok 4 body by (simp add: files_ok_def edited_append)
    qed
  qed (auto intro!: same split: if_splits)
qed

lemma plan_reachable_ok:
  assumes "plan_reachable ws files w"
  shows "registry_ok ws w \<and> mutex_ok ws w \<and> files_ok ws files w"
  using assms
proof induction
  case start
  show ?case by (simp add: registry_ok_def mutex_ok_def files_ok_def plan_start_def edited_def)
next
  case (step w i w')
  then show ?case using registry_step mutex_step files_step by blast
qed

subsection \<open>What the lock guarantees\<close>

text \<open>
  Property C26. No edit of a plan is lost. However the accesses of concurrent writers interleave, when all of them are through
  every file holds what it would hold had the writers run one after the other in some order: each edit once, each on
  the result of the one before.
\<close>

theorem plan_edits_serialise:
  assumes "plan_reachable ws files w" and "\<forall>i<length ws. pw_stage w i = Finished"
  shows "\<exists>order. distinct order \<and> set order = {..<length ws}
     \<and> (\<forall>path. pw_files w path = fold (\<lambda>i. wr_edit (ws ! i)) (filter (\<lambda>i. wr_path (ws ! i) = path) order) (files path))"
proof -
  have ok: "files_ok ws files w" using plan_reachable_ok [OF assms(1)] by simp
  then have "set (pw_log w) = {..<length ws}" using assms(2) by (auto simp: files_ok_def)
  then show ?thesis using ok unfolding files_ok_def edited_def by blast
qed

text \<open>How many accesses a writer still has to make.\<close>

fun remaining :: "stage \<Rightarrow> nat" where
  "remaining Start = 5"
| "remaining (Queued l) = 4"
| "remaining (Locked l) = 3"
| "remaining (HasRead l body) = 2"
| "remaining (HasWritten l) = 1"
| "remaining Finished = 0"

definition work_left :: "writer list \<Rightarrow> plan_world \<Rightarrow> nat" where
  "work_left ws w = (\<Sum>i<length ws. remaining (pw_stage w i))"

lemma step_progress:
  assumes "i < length ws" and "with_plan_lock (ws ! i) i w = Some w'"
  shows "work_left ws w = work_left ws w' + 1"
proof -
  have other: "pw_stage w' j = pw_stage w j" if "j \<noteq> i" for j
    using assms(2) that by (cases rule: with_plan_lock_cases) (auto dest: lock_for_frame(1))
  have "remaining (pw_stage w i) = remaining (pw_stage w' i) + 1"
    using assms(2) by (cases rule: with_plan_lock_cases) (auto dest: lock_for_frame(1))
  then show ?thesis unfolding work_left_def
    using assms(1) other by (simp add: sum.remove [of "{..<length ws}" i])
qed

text \<open>The accesses of the writers in the order of a schedule; \<open>None\<close> when it asks for one that is not possible.\<close>

fun run_schedule :: "writer list \<Rightarrow> nat list \<Rightarrow> plan_world \<Rightarrow> plan_world option" where
  "run_schedule ws [] w = Some w"
| "run_schedule ws (i # sched) w =
     (if i < length ws then Option.bind (with_plan_lock (ws ! i) i w) (run_schedule ws sched) else None)"

lemma schedule_reachable: "run_schedule ws sched w = Some w' \<Longrightarrow> plan_reachable ws files w \<Longrightarrow> plan_reachable ws files w'"
  by (induction sched arbitrary: w) (auto split: if_splits bind_splits intro: plan_reachable.step)

lemma schedule_bounded: "run_schedule ws sched w = Some w' \<Longrightarrow> length sched \<le> work_left ws w"
proof (induction sched arbitrary: w)
  case (Cons i sched)
  then obtain v where "i < length ws" "with_plan_lock (ws ! i) i w = Some v" "run_schedule ws sched v = Some w'"
    by (auto split: if_splits bind_splits)
  then show ?case using Cons.IH step_progress by fastforce
qed simp

lemma holder_moves: "holds (pw_stage w j) = Some l \<Longrightarrow> \<exists>w'. with_plan_lock wr j w = Some w'"
  by (cases "pw_stage w j") (auto simp: with_plan_lock_def)

lemma can_go_on:
  assumes "mutex_ok ws w" and "i < length ws" and "pw_stage w i \<noteq> Finished"
  shows "\<exists>j<length ws. \<exists>w'. with_plan_lock (ws ! j) j w = Some w'"
proof (cases "with_plan_lock (ws ! i) i w")
  case None
  then obtain l where "l \<in> pw_held w" using assms(3)
    by (auto simp: with_plan_lock_def split: stage.splits if_splits prod.splits)
  then obtain j where "j < length ws" "holds (pw_stage w j) = Some l" using assms(1) by (auto simp: mutex_ok_def)
  then show ?thesis using holder_moves by blast
qed (use assms in blast)

lemma can_finish:
  assumes "plan_reachable ws files w"
  shows "\<exists>sched w'. run_schedule ws sched w = Some w' \<and> length sched = work_left ws w \<and> (\<forall>i<length ws. pw_stage w' i = Finished)"
  using assms
proof (induction "work_left ws w" arbitrary: w)
  case 0
  then have "\<forall>i<length ws. remaining (pw_stage w i) = 0" by (simp add: work_left_def)
  moreover have "remaining st = 0 \<longleftrightarrow> st = Finished" for st by (cases st) simp_all
  ultimately have "\<forall>i<length ws. pw_stage w i = Finished" by simp
  then show ?case using 0 by (intro exI [of _ "[]"]) simp
next
  case (Suc n)
  have "\<exists>i<length ws. pw_stage w i \<noteq> Finished"
  proof (rule ccontr)
    assume "\<not> ?thesis"
    then have "work_left ws w = 0" by (simp add: work_left_def)
    then show False using Suc.hyps(2) by simp
  qed
  then obtain i where "i < length ws" "pw_stage w i \<noteq> Finished" by blast
  then obtain j v where j: "j < length ws" "with_plan_lock (ws ! j) j w = Some v"
    using can_go_on plan_reachable_ok [OF Suc.prems] by blast
  then have v: "plan_reachable ws files v" "n = work_left ws v"
    using Suc plan_reachable.step step_progress by (blast, fastforce)
  then obtain sched w' where "run_schedule ws sched v = Some w'" "length sched = work_left ws v" "\<forall>i<length ws. pw_stage w' i = Finished"
    using Suc.hyps(1) by blast
  then show ?case using j v Suc.hyps(2) by (intro exI [of _ "j # sched"] exI [of _ w']) simp
qed

text \<open>
  The lock cannot get stuck. From every state the writers can get into, a schedule of exactly the accesses that are left
  brings all of them to their end, and no schedule is longer: there is no deadlock, and a writer waits only for writers
  that can go on.
\<close>

theorem plan_lock_live:
  assumes "plan_reachable ws files w"
  shows "(\<exists>sched w'. run_schedule ws sched w = Some w' \<and> length sched = work_left ws w \<and> (\<forall>i<length ws. pw_stage w' i = Finished))
    \<and> (\<forall>sched w'. run_schedule ws sched w = Some w' \<longrightarrow> length sched \<le> work_left ws w)"
  using can_finish [OF assms] schedule_bounded by blast

definition two_writers :: "writer list" where
  "two_writers = [\<lparr>wr_path = ''plan.md'', wr_edit = map_option (\<lambda>b. b @ ''a'')\<rparr>, \<lparr>wr_path = ''plan.md'', wr_edit = map_option (\<lambda>b. b @ ''b'')\<rparr>]"

definition one_plan :: "string \<Rightarrow> string option" where
  "one_plan = (\<lambda>p. if p = ''plan.md'' then Some ''x'' else None)"

theorem plan_lock_live_witness:
  "work_left two_writers (plan_start one_plan) = 10
   \<and> (\<exists>sched w'. run_schedule two_writers sched (plan_start one_plan) = Some w' \<and> length sched = 10)"
proof -
  have ten: "work_left two_writers (plan_start one_plan) = 10" by (simp add: work_left_def plan_start_def two_writers_def)
  show ?thesis using plan_lock_live [OF plan_reachable.start, of two_writers one_plan] by (auto simp: ten)
qed

theorem plan_edits_serialise_witness:
  "\<exists>w. plan_reachable two_writers one_plan w \<and> pw_files w ''plan.md'' \<in> {Some ''xab'', Some ''xba''}"
proof -
  obtain w where w: "plan_reachable two_writers one_plan w" "\<forall>i<length two_writers. pw_stage w i = Finished"
    using can_finish [OF plan_reachable.start, of two_writers one_plan]
      schedule_reachable [OF _ plan_reachable.start, of two_writers _ one_plan _] by blast
  obtain order where o: "distinct order" "set order = {..<length two_writers}"
    "pw_files w ''plan.md'' = fold (\<lambda>i. wr_edit (two_writers ! i))
       (filter (\<lambda>i. wr_path (two_writers ! i) = ''plan.md'') order) (one_plan ''plan.md'')"
    using plan_edits_serialise [OF w] by blast
  have two: "{..<length two_writers} = {0, 1}" by (auto simp: two_writers_def)
  have "length order = 2" using o(1,2) distinct_card [of order] by (simp add: two)
  then obtain i j where ij: "order = [i, j]" by (cases order rule: list.exhaust; cases "tl order") auto
  have "order = [0, 1] \<or> order = [1, 0]" using o(1,2) unfolding ij two by (auto simp: doubleton_eq_iff)
  then show ?thesis using w(1) o(3) by (intro exI [of _ w]) (auto simp: two_writers_def one_plan_def)
qed

end
