(* ===== verification/Interjection.thy ===== *)
theory Interjection
  imports Fanout "HOL-Library.Sublist" "HOL-Library.Multiset"
begin

text \<open>
  The queue of events and user interjections (\<^verbatim>\<open>crates/common/xai-interjection-core/src/\<close>: \<^verbatim>\<open>events.rs\<close>, \<^verbatim>\<open>buffer.rs\<close>,
  \<^verbatim>\<open>format.rs\<close>). Every operation of the queue is one critical section of its mutex, so that what producers and readers do to it
  together is a sequence of operations. What is shown: a reader that takes its own events gets each of them at most once and in the
  order they were pushed, whatever the other readers take, and misses exactly those that a capped push or a clear
  discarded, the oldest first; a capped queue holds the newest events; and a framed
  interjection is cut at the end of a character.
\<close>

subsection \<open>The queue\<close>

definition eq_push :: "'e \<Rightarrow> 'e list \<Rightarrow> 'e list" where
  "eq_push event q = q @ [event]"

definition eq_push_capped :: "'e \<Rightarrow> nat \<Rightarrow> 'e list \<Rightarrow> 'e list" where
  "eq_push_capped event max_len q =
     (let q = q @ [event] in if max_len < length q then drop (length q - max_len) q else q)"

definition eq_drain_matching :: "('e \<Rightarrow> bool) \<Rightarrow> 'e list \<Rightarrow> 'e list \<times> 'e list" where
  "eq_drain_matching take_it q = partition take_it q"

definition eq_drain_all :: "'e list \<Rightarrow> 'e list \<times> 'e list" where
  "eq_drain_all q = (q, [])"

definition eq_clear :: "'e list \<Rightarrow> 'e list" where
  "eq_clear q = []"

definition eq_snapshot :: "'e list \<Rightarrow> 'e list" where
  "eq_snapshot q = q"

definition eq_len :: "'e list \<Rightarrow> nat" where
  "eq_len q = length q"

definition eq_is_empty :: "'e list \<Rightarrow> bool" where
  "eq_is_empty q \<longleftrightarrow> q = []"

subsection \<open>Framing an interjection\<close>

definition LARGE_PROMPT_THRESHOLD :: nat where "LARGE_PROMPT_THRESHOLD = 25000"

definition user_query :: "string \<Rightarrow> string" where
  "user_query user_message = ''<user_query>'' @ [NL] @ user_message @ [NL] @ ''</user_query>''"

text \<open>The characters of a text with their byte offsets: a character is a byte and the continuation bytes after it.\<close>

function char_indices :: "nat \<Rightarrow> string \<Rightarrow> (nat \<times> string) list" where
  "char_indices i [] = []"
| "char_indices i (c # cs) =
     (let ch = c # takeWhile utf8_cont cs in (i, ch) # char_indices (i + length ch) (dropWhile utf8_cont cs))"
  by pat_completeness auto
termination by (relation "measure (\<lambda>(i, s). length s)") (auto simp: less_Suc_eq_le length_dropWhile_le)

definition cut_end :: "nat \<Rightarrow> string \<Rightarrow> nat" where
  "cut_end threshold s =
     (let before = takeWhile (\<lambda>(i, c). i < threshold) (char_indices 0 s)
      in if before = [] then length s else fst (last before) + length (snd (last before)))"

definition format_interjection :: "string \<Rightarrow> string" where
  "format_interjection s =
     (let truncated = (if LARGE_PROMPT_THRESHOLD < length s
                       then take (cut_end LARGE_PROMPT_THRESHOLD s) s @ ''... [truncated]'' else s)
      in ''The user sent a message while you were working:'' @ [NL] @ user_query truncated)"

subsection \<open>The buffer of interjections\<close>

record 'a PendingInterjection =
  pi_text :: string
  pi_attachments :: "'a list"

record 'a FormattedInterjection =
  fi_text :: string
  fi_attachments :: "'a list"

definition drain_formatted ::
    "(string \<Rightarrow> string) \<Rightarrow> 'a PendingInterjection list \<Rightarrow> 'a FormattedInterjection list \<times> 'a PendingInterjection list" where
  "drain_formatted sanitize_text buffer =
     (let (entries, rest) = eq_drain_all buffer
      in (map (\<lambda>e. \<lparr>fi_text = format_interjection (sanitize_text (pi_text e)), fi_attachments = pi_attachments e\<rparr>) entries, rest))"

subsection \<open>Sequences of operations\<close>

datatype 'e queue_op =
    Push 'e
  | PushCapped 'e nat
  | DrainMatching "'e \<Rightarrow> bool"
  | DrainAll
  | ClearQueue
  | Inspect

text \<open>One operation: what a drain hands out, and the queue afterwards.\<close>

fun queue_step :: "'e queue_op \<Rightarrow> 'e list \<Rightarrow> 'e list \<times> 'e list" where
  "queue_step (Push e) q = ([], eq_push e q)"
| "queue_step (PushCapped e m) q = ([], eq_push_capped e m q)"
| "queue_step (DrainMatching t) q = eq_drain_matching t q"
| "queue_step DrainAll q = eq_drain_all q"
| "queue_step ClearQueue q = ([], eq_clear q)"
| "queue_step Inspect q = ([], q)"

fun queue_run :: "'e queue_op list \<Rightarrow> 'e list \<Rightarrow> 'e list \<times> 'e list" where
  "queue_run [] q = ([], q)"
| "queue_run (op # ops) q =
     (let (out, q) = queue_step op q; (outs, q) = queue_run ops q in (out @ outs, q))"

fun pushed :: "'e queue_op \<Rightarrow> 'e list" where
  "pushed (Push e) = [e]"
| "pushed (PushCapped e m) = [e]"
| "pushed _ = []"

text \<open>A reader that takes either all events of a kind or none; producers may do what they like.\<close>

fun all_or_none :: "('e \<Rightarrow> bool) \<Rightarrow> 'e queue_op \<Rightarrow> bool" where
  "all_or_none P (DrainMatching t) \<longleftrightarrow> (\<forall>e. P e \<longrightarrow> t e) \<or> (\<forall>e. P e \<longrightarrow> \<not> t e)"
| "all_or_none P _ \<longleftrightarrow> True"

text \<open>
  The events an operation discards: a capped push the oldest ones beyond the cap, a clear all of them. \<open>queue_lost\<close> collects
  them along a sequence of operations.
\<close>

fun discarded :: "'e queue_op \<Rightarrow> 'e list \<Rightarrow> 'e list" where
  "discarded (PushCapped e m) q = take (length q + 1 - m) (q @ [e])"
| "discarded ClearQueue q = q"
| "discarded _ q = []"

fun queue_lost :: "'e queue_op list \<Rightarrow> 'e list \<Rightarrow> 'e list" where
  "queue_lost [] q = []"
| "queue_lost (op # ops) q = discarded op q @ queue_lost ops (snd (queue_step op q))"

lemma filter_by_kind:
  "\<forall>e. P e \<longrightarrow> t e \<Longrightarrow> filter P (filter t q) = filter P q \<and> filter P (filter (\<lambda>e. \<not> t e) q) = []"
  "\<forall>e. P e \<longrightarrow> \<not> t e \<Longrightarrow> filter P (filter t q) = [] \<and> filter P (filter (\<lambda>e. \<not> t e) q) = filter P q"
  by (induction q) auto

text \<open>One operation splits the events of a kind into those discarded, those handed out and those left, in this order.\<close>

lemma step_fifo:
  assumes "all_or_none P op" and "queue_step op q = (out, q')"
  shows "filter P (discarded op q) @ filter P (out @ q') = filter P (q @ pushed op)"
proof (cases op)
  case (PushCapped e m)
  have "take (length q + 1 - m) (q @ [e]) @ eq_push_capped e m q = q @ [e]"
  proof -
    define x where "x = q @ [e]"
    have "length x = length q + 1" by (simp add: x_def)
    then show ?thesis unfolding eq_push_capped_def Let_def x_def [symmetric] by simp
  qed
  then have "filter P (take (length q + 1 - m) (q @ [e])) @ filter P (eq_push_capped e m q) = filter P (q @ [e])"
    by (metis filter_append)
  then show ?thesis using assms(2) PushCapped by simp
next
  case (DrainMatching t)
  then show ?thesis using assms filter_by_kind [of P t q] by (auto simp: eq_drain_matching_def comp_def)
qed (use assms in \<open>auto simp: eq_push_def eq_drain_all_def eq_clear_def\<close>)

text \<open>
  Property C34. Every reader gets its own events, each at most once and in order, and misses only what was discarded. Whatever
  producers and readers do to a queue (push, push with a cap, drain, clear, inspect) and however their calls interleave: if
  every selective reader takes either all events of a kind or none of them, the events of that kind handed out so far, followed
  by those still queued, are a subsequence of the events of that kind that were pushed; together with the discarded ones, the
  oldest beyond the cap of a capped push and everything a clear removes, they are all of them; and when none of the kind was
  discarded they are exactly those pushed, in order.
\<close>

theorem reader_fifo:
  assumes "\<forall>op\<in>set ops. all_or_none P op" and "queue_run ops q = (delivered, left)"
  shows "subseq (filter P (delivered @ left)) (filter P (q @ concat (map pushed ops)))
    \<and> mset (filter P (delivered @ left)) + mset (filter P (queue_lost ops q)) = mset (filter P (q @ concat (map pushed ops)))
    \<and> (filter P (queue_lost ops q) = [] \<longrightarrow> filter P (delivered @ left) = filter P (q @ concat (map pushed ops)))"
  using assms
proof (induction ops arbitrary: q delivered)
  case (Cons op ops)
  obtain out q1 where s: "queue_step op q = (out, q1)" by fastforce
  obtain outs where r: "queue_run ops q1 = (outs, left)" "delivered = out @ outs"
    using Cons.prems(2) by (auto simp: s split: prod.splits)
  let ?rest = "filter P (concat (map pushed ops))"
  have IH: "subseq (filter P (outs @ left)) (filter P q1 @ ?rest)"
    "mset (filter P (outs @ left)) + mset (filter P (queue_lost ops q1)) = mset (filter P q1 @ ?rest)"
    "filter P (queue_lost ops q1) = [] \<Longrightarrow> filter P (outs @ left) = filter P q1 @ ?rest"
    using Cons.IH [OF _ r(1)] Cons.prems(1) by auto
  have step: "filter P (discarded op q) @ filter P out @ filter P q1 = filter P q @ filter P (pushed op)"
    using step_fifo [OF _ s] Cons.prems(1) by simp
  then have all: "filter P (q @ concat (map pushed (op # ops))) = filter P (discarded op q) @ filter P out @ filter P q1 @ ?rest"
    by (metis append.assoc concat.simps(2) filter_append list.simps(9))
  have got: "filter P (delivered @ left) = filter P out @ filter P (outs @ left)" using r(2) by simp
  have lost: "filter P (queue_lost (op # ops) q) = filter P (discarded op q) @ filter P (queue_lost ops q1)" by (simp add: s)
  have "subseq (filter P out @ filter P (outs @ left)) (filter P (discarded op q) @ filter P out @ filter P q1 @ ?rest)"
    by (rule subseq_drop_many [OF list_emb_append_mono [OF subseq_order.refl IH(1)]])
  moreover have "mset (filter P out @ filter P (outs @ left)) + mset (filter P (discarded op q) @ filter P (queue_lost ops q1))
      = mset (filter P (discarded op q) @ filter P out @ filter P q1 @ ?rest)"
    using IH(2) by (simp only: mset_append ac_simps)
  ultimately show ?case unfolding all got lost using IH(3) by auto
qed simp

text \<open>Two readers, and a cap of three that costs the oldest event.\<close>

theorem reader_fifo_witness:
  "queue_run [PushCapped (1 :: nat) 3, PushCapped 2 3, PushCapped 3 3, PushCapped 5 3, DrainMatching even, DrainMatching odd] []
     = ([2, 3, 5], [])
   \<and> subseq (filter odd ([2, 3, 5] @ [])) (filter odd [1, 2, 3, 5 :: nat])
   \<and> mset (filter odd ([2, 3, 5] @ [])) + mset (filter odd [1]) = mset (filter odd [1, 2, 3, 5 :: nat])"
proof -
  let ?ops = "[PushCapped (1 :: nat) 3, PushCapped 2 3, PushCapped 3 3, PushCapped 5 3, DrainMatching even, DrainMatching odd]"
  have run: "queue_run ?ops [] = ([2, 3, 5], [])" by (simp add: eq_push_capped_def eq_drain_matching_def)
  have lost: "queue_lost ?ops [] = [1]" by (simp add: eq_push_capped_def eq_drain_matching_def)
  have "\<forall>op\<in>set ?ops. all_or_none odd op" by auto
  from reader_fifo [OF this run] run lost show ?thesis by simp
qed

text \<open>A capped queue holds the newest events.\<close>

lemma capped_keeps_newest:
  assumes "length q \<le> m"
  shows "snd (queue_run (map (\<lambda>e. PushCapped e m) es) q) = drop (length (q @ es) - m) (q @ es)"
  using assms
proof (induction es arbitrary: q)
  case (Cons e es)
  define q1 where "q1 = eq_push_capped e m q"
  have q1: "q1 = drop (length q + 1 - m) (q @ [e])" "length q1 \<le> m" using Cons.prems
    by (auto simp: q1_def eq_push_capped_def Let_def)
  have "drop (length (q1 @ es) - m) (q1 @ es) = drop (length (q @ e # es) - m) (q @ e # es)"
    using Cons.prems by (cases "length q < m") (auto simp: q1 drop_Cons' split: if_splits)
  then show ?case using Cons.IH [OF q1(2)] by (simp add: q1_def [symmetric] split_beta)
qed simp

text \<open>Framed interjections come out one per entry, in order, and leave the buffer empty.\<close>

lemma drain_formatted_fifo:
  "drain_formatted f (map (\<lambda>t. \<lparr>pi_text = t, pi_attachments = as t\<rparr>) ts)
     = (map (\<lambda>t. \<lparr>fi_text = format_interjection (f t), fi_attachments = as t\<rparr>) ts, [])"
  by (simp add: drain_formatted_def eq_drain_all_def)

subsection \<open>Where an interjection is cut\<close>

lemma cut_end_at_boundary:
  assumes "i < threshold" "threshold \<le> i + length s" "s \<noteq> []" "\<not> utf8_cont (hd s)"
  shows "let before = takeWhile (\<lambda>(j, c). j < threshold) (char_indices i s)
    in before \<noteq> [] \<and> fst (last before) + length (snd (last before))
         = threshold + length (takeWhile utf8_cont (drop (threshold - i) s))"
  using assms
proof (induction i s rule: char_indices.induct)
  case (2 i c cs)
  let ?ch = "c # takeWhile utf8_cont cs" and ?rest = "dropWhile utf8_cont cs"
  have split: "c # cs = ?ch @ ?rest" by simp
  show ?case
  proof (cases "i + length ?ch < threshold")
    case True
    then have "?rest \<noteq> []" using 2(3) by (metis add.right_neutral append_Nil2 leD length_append split)
    moreover have "\<not> utf8_cont (hd ?rest)" using calculation hd_dropWhile by blast
    moreover have "threshold \<le> i + length ?ch + length ?rest" using 2(3) split by (metis add.assoc length_append)
    moreover have "drop (threshold - i) (c # cs) = drop (threshold - (i + length ?ch)) ?rest"
    proof -
      have "length ?ch \<le> threshold - i" using True by simp
      then have "drop (threshold - i) (?ch @ ?rest) = drop (threshold - i - length ?ch) ?rest"
        by (simp only: drop_append drop_all append_Nil)
      then show ?thesis by (simp only: split [symmetric] diff_diff_left)
    qed
    ultimately show ?thesis using 2(1) [OF refl True] 2(2) by (auto simp: Let_def last.simps)
  next
    case False
    have "takeWhile (\<lambda>(j, c). j < threshold) (char_indices k r) = []" if "\<not> k < threshold" for k r
      using that by (cases r) (auto simp: Let_def)
    then have "takeWhile (\<lambda>(j, c). j < threshold) (char_indices (i + length ?ch) ?rest) = []" using False by blast
    moreover have "takeWhile utf8_cont (drop (threshold - i) (c # cs)) = drop (threshold - i) ?ch"
    proof -
      have "takeWhile utf8_cont (drop (threshold - i) (?ch @ ?rest)) = drop (threshold - i) ?ch @ takeWhile utf8_cont ?rest"
        using False 2(2) by (subst drop_append, subst takeWhile_append2)
          (auto simp: drop_Cons' dest: in_set_dropD set_takeWhileD split: if_splits)
      moreover have "takeWhile utf8_cont ?rest = []" by (metis hd_dropWhile takeWhile_eq_Nil_iff)
      ultimately show ?thesis by (simp only: split [symmetric] append_Nil2)
    qed
    ultimately show ?thesis using False 2(2) by (auto simp: Let_def)
  qed
qed simp

text \<open>
  A long interjection is cut right after the character that crosses the threshold: at most three bytes of a text in UTF-8
  lie beyond it, and no character is split.
\<close>

theorem long_interjection_cut:
  assumes "LARGE_PROMPT_THRESHOLD < length s" and "\<not> utf8_cont (hd s)"
  shows "format_interjection s = ''The user sent a message while you were working:'' @ [NL]
     @ user_query (take LARGE_PROMPT_THRESHOLD s @ takeWhile utf8_cont (drop LARGE_PROMPT_THRESHOLD s) @ ''... [truncated]'')"
proof -
  let ?n = LARGE_PROMPT_THRESHOLD
  have "s \<noteq> []" "0 < ?n" using assms(1) by (auto simp: LARGE_PROMPT_THRESHOLD_def)
  then have "cut_end ?n s = ?n + length (takeWhile utf8_cont (drop ?n s))"
    using cut_end_at_boundary [of 0 ?n s] assms by (simp add: cut_end_def Let_def)
  moreover have "take (length (takeWhile utf8_cont t)) t = takeWhile utf8_cont t" for t
    by (metis takeWhile_eq_take)
  ultimately show ?thesis using assms(1) by (simp add: format_interjection_def take_add)
qed

end
