(* ===== verification/Spec2Isabelle.thy ===== *)
theory Spec2Isabelle
  imports Doggy_Decide Audit_Parse Tracker_Correct Fanout Det_Gate Session_Correct Breaker_Correct Wave_Correct Directive_Correct
    Evidence_Correct Panel_Schedule Drain_Correct Planner_Correct Summarizer Goal_Update Plan_Lock Interjection
begin

text \<open>
  A verification development of the goal and completion stack of Doggy, a coding agent
  (\<^verbatim>\<open>src/crates\<close>, Rust).

  \<^bold>\<open>The program.\<close> A user gives the agent a goal. A planner writes \<^verbatim>\<open>plan.md\<close> with acceptance criteria, a
  checklist with an Exec and an Audit mark per criterion, a table of dependencies and write scopes,
  and optional shell checks. The agent works in rounds. When it claims that the work is done (the tool
  \<^verbatim>\<open>update_goal\<close>), the claim is queued and drained at the end of the turn: the plan's own checks run,
  then a panel of independent auditors, and their verdict is recorded on the goal; after failed rounds a
  strategist advises and a writer may amend the plan. After every round the completion gate looks at
  what is still open, at the recorded verdict and at a ledger of past rounds, and answers: another
  round (with an injected directive), done, or paused. Criteria that do not depend on each other can
  be implemented by parallel workers in separate worktrees, which are then merged. The goal tracker
  keeps the persisted state of the goal: status, budget, counters, deferrals, history and the scratch
  directory of the verifier.

  \<^bold>\<open>Theories and sources.\<close> O is \<^verbatim>\<open>src/crates/codegen/xai-doggy-orchestrator/src\<close>, S is
  \<^verbatim>\<open>src/crates/codegen/xai-grok-shell/src/session\<close>, A is S/acp\_session\_impl.
  \<^item> Foundations. \<^verbatim>\<open>Rust_Prelude\<close>: the part of the Rust standard library the sources use. Strings are lists of
    UTF-8 bytes, with trimming (all Unicode white space), splitting, lines, decimal numbers,
    saturating counters and collecting results, and the lemmas that make the component proofs short.
    \<^verbatim>\<open>Streaks\<close>: two interfaces for streak counters (consecutive equal fingerprints, consecutive bad
    observations), interpreted by the ledger and the tracker. \<^verbatim>\<open>Resumption\<close>: programs as sequences of atomic
    accesses to a shared state, their interleavings by a schedule, and the interface \<open>atomic_ops\<close> of
    operations whose accesses keep an invariant. \<^verbatim>\<open>F64\<close>: what the breaker uses of \<^verbatim>\<open>f64\<close>.
    \<^verbatim>\<open>Section_Splice\<close>: the interface of a reader of one section of the plan under insertions.
    \<^verbatim>\<open>Tag_Breaking\<close>: the interface of a sanitiser that breaks the tags of a frame.
  \<^item> The decision. \<^verbatim>\<open>Doggy_Types\<close> (O/state.rs, open\_items.rs, audit.rs), \<^verbatim>\<open>Doggy_Progress\<close> (O/progress.rs, the
    ledger), \<^verbatim>\<open>Doggy_Decide\<close> (O/inject.rs, decide.rs), \<^verbatim>\<open>Audit_Parse\<close> (O/audit\_parse.rs).
  \<^item> The plan. \<^verbatim>\<open>Plan_Md\<close> (S/goal\_plan\_md.rs, goal\_next\_step.rs), \<^verbatim>\<open>Checklist\<close>
    (S/goal\_acceptance\_checklist.rs), \<^verbatim>\<open>Plan_Lock\<close> (S/goal\_plan\_write.rs), \<^verbatim>\<open>Criterion_Graph\<close>,
    \<^verbatim>\<open>Criteria_View\<close> and \<^verbatim>\<open>Graph_Correct\<close> (S/goal\_criterion\_graph.rs), \<^verbatim>\<open>Plan_Amend\<close>, \<^verbatim>\<open>Amend_Correct\<close> and
    \<^verbatim>\<open>Amend_Graph\<close> (S/goal\_replan.rs).
  \<^item> The goal. \<^verbatim>\<open>Goal_State\<close>, \<^verbatim>\<open>Goal_Tracker\<close> and \<^verbatim>\<open>Tracker_Correct\<close> (S/goal\_tracker.rs).
  \<^item> Parallel work. \<^verbatim>\<open>Fanout\<close> (S/goal\_fanout.rs), \<^verbatim>\<open>Wave_Round\<close> and \<^verbatim>\<open>Wave_Correct\<close> (the wave and the
    amendment round of A/goal\_support.rs).
  \<^item> Verification. \<^verbatim>\<open>Det_Gate\<close> (S/goal\_deterministic\_gate.rs), \<^verbatim>\<open>Evidence\<close> and \<^verbatim>\<open>Evidence_Correct\<close>
    (S/goal\_classifier/evidence.rs), \<^verbatim>\<open>Role_Spawn\<close> (S/goal\_role\_tools.rs, the spawn of S/goal\_planner.rs),
    \<^verbatim>\<open>Role_Override\<close> (the choice of models in A/goal.rs), \<^verbatim>\<open>Skeptic_Panel\<close>, \<^verbatim>\<open>Panel_Correct\<close> and
    \<^verbatim>\<open>Panel_Schedule\<close> (S/goal\_classifier.rs), \<^verbatim>\<open>Strategist\<close> (S/goal\_strategist.rs).
  \<^item> The session. \<^verbatim>\<open>Session_Gate\<close> and \<^verbatim>\<open>Session_Correct\<close> (A/doggy\_gate.rs, the round loop of A/turn.rs, parts of
    A/goal.rs), \<^verbatim>\<open>Directive\<close> and \<^verbatim>\<open>Directive_Correct\<close> (the continuation directive of A/goal\_support.rs and
    S/goal\_stop\_detector.rs), \<^verbatim>\<open>Goal_Drain\<close> and \<^verbatim>\<open>Drain_Correct\<close> (the drain of goal updates of A/goal.rs),
    \<^verbatim>\<open>Goal_Planner\<close> and \<^verbatim>\<open>Planner_Correct\<close> (S/goal\_planner.rs, setting up, planning and resuming a goal in A/goal.rs and
    A/goal\_support.rs), \<^verbatim>\<open>Summarizer\<close> (S/goal\_summarizer.rs), \<^verbatim>\<open>Goal_Update\<close> (the tool \<^verbatim>\<open>update_goal\<close> of \<^verbatim>\<open>xai-grok-tools\<close>).
  \<^item> Common crates. \<^verbatim>\<open>Circuit_Breaker\<close> and \<^verbatim>\<open>Breaker_Correct\<close> (\<^verbatim>\<open>xai-circuit-breaker\<close>), \<^verbatim>\<open>Interjection\<close>
    (\<^verbatim>\<open>xai-interjection-core\<close>).

  \<^bold>\<open>How code became definitions.\<close> Structs are records whose fields carry a prefix naming the struct,
  enums are datatypes, one function of the code is one definition, a loop is a recursive function
  over the lines or nodes it iterates, with a state argument for its mutable locals. A method with
  \<^verbatim>\<open>&mut self\<close> returns the updated record. \<^verbatim>\<open>Result\<close> and \<^verbatim>\<open>Option\<close> are sums and options. Counters that
  the code saturates are natural numbers with the saturation written out. Long functions of the
  session are cut into definitions at their branches, and composed as the code runs them.

  Everything outside the repository or the process is an argument: JSON parsers, the clock (the
  readings an operation gets), fresh identifiers and the answers of the file system (one record,
  \<open>env\<close>, for the tracker), the shell, git, the subagent coordinator (an agent's run is one access to the
  files it shares with others), the worktree merge, compiled regular expressions and prompt templates.
  What happens to the session while a handler waits for agents is an argument too
  (\<open>wh_meanwhile\<close>, \<open>dh_meanwhile\<close>, \<open>po_meanwhile\<close>), on which properties put named conditions. Concurrency is explicit
  where the code has it: the breaker and the panel are interleavings of atomic accesses under any schedule, the
  plan lock is a step relation over threads, the event queue a sequence of critical sections. The
  turn may be cancelled while auditors work; then the drop guards act. Requests of the tracker to the
  file system, and the starts of the verification stage, are recorded in ghost fields so that
  properties can speak about them.

  \<^bold>\<open>What is shown.\<close>
  \<^item> From the claim to the completed goal: with the real drain inside, a round end completes a goal only on a
    recorded approval with nothing open; an approval is recorded only when a panel approved; a panel
    approves only on explicit approvals of a majority of independent auditors, each with a verdict its own agent wrote during
    the panel, when no verdict of an earlier attempt is lying there and the agents leave each other's verdicts alone; the outcome does not
    depend on the schedule of auditors that keep to their own files; every waiting claim gets exactly one reply; verifications
    exclude each other. The deterministic gate before the panel rejects exactly with the first declared check that
    ran and failed.
  \<^item> Planning: a goal that is planned has a plan on disk afterwards, however the planner agent fails, unless the user
    stops it or nothing can be written; the plan the harness writes reads back as its one criterion; a resume
    drives only an active goal; the closing summary is bounded and cannot undo a completion.
  \<^item> The decision: acceptance, pause and the kind of another round are characterised exactly; the
    machine is consistent in every reachable state; the loop of a prompt stops.
  \<^item> The ledger: the stall level is a function of the history of rounds.
  \<^item> The audit parser: it passes only on an explicit pass without findings; the object that binds is the first one that
    mentions the verdict; the brace scanner accepts exactly a grammar of balanced text.
  \<^item> The plan, under conditions on its form that each property names: rewriting marks and reading them back is the identity on
    all other marks; a created checklist reads back as the numbered criteria; amendments only append and keep the dependency
    contract; concurrent edits of a plan serialise without loss; the strategist cannot change the plan.
  \<^item> The graph: whatever the plan says, the scheduled graph is valid, its waves are race-free,
    reachability is the transitive closure, refutation closes under dependents.
  \<^item> The tracker: invariant of the reachable states, refinement of an abstract status machine,
    conservation of active time, safety of restored goals and of requests to the file system.
  \<^item> Waves: members are ready and collision-free, merging is independent of the order in which workers
    finish, exactly the landed criteria are ticked, the amendment writer runs a bounded number of times.
  \<^item> Texts: the directive is one simultaneous substitution with no frame tag in the slots models write; rejections
    are reported with non-empty, inert gaps.
  \<^item> The breaker refines a three-state machine and recovers; its cells stay well-typed in every
    interleaving; every variable of its environment sets its own field or leaves the default. The event queue hands every reader its
    events once and in order, except those a capped push or a clear discarded.

  Theorems that are not on this list record what the code does where a comment promises something else
  (for instance \<open>stale_note_counts_as_advice\<close>, \<open>stale_plan_adopted\<close>, \<open>setup_starts_paused_goal\<close>, \<open>fail_open_told_complete\<close>, \<open>trip_race_admits_two_probes\<close>).

  \<^bold>\<open>Bounds and fuel.\<close> No definition uses fuel. Every loop is structurally recursive or has a
  termination proof: the layering of the graph and the peeling of cycles by the nodes left, the
  search by the nodes not yet visited, the repair of conflicts by the missing dependency pairs, the
  closure under dependents by the numbers not yet in it, the prompt loop by the rounds left of a hundred.
  Numbers of criteria and line counts are natural numbers; parsing bounds criterion numbers by \<^verbatim>\<open>u32\<close>,
  and lists are shorter than the address space, so the casts of the code do not truncate.

  \<^bold>\<open>What is not modelled.\<close> Inlining of skeptic reports in S/goal\_tracker.rs; the queueing of prompts;
  the wire records of notifications; tracing, telemetry and trace recording; and the rest of the
  repository, which the goal stack reaches only through the arguments named above: terminal interface,
  tools, sandbox, workspace, compaction, attribution of edits, authentication and configuration.
\<close>

end
